(* ===== verification/Bank_Prelude.thy ===== *)
theory Bank_Prelude
  imports Complex_Main
begin

text \<open>
  Shared vocabulary of the development: exceptions as values of a sum type with a sequencing
  operator, database tables as lists of rows with the lookups and updates the services perform
  on them, the fragments of the JavaScript standard library the money code uses (truncating
  \<open>BigInt\<close> division, decimal printing, \<open>trim\<close>, case mapping), and the lemma collections that
  carry the component proofs.
\<close>

named_theorems err_simps \<open>success of a sequenced computation as a conjunction of its steps\<close>
named_theorems table_simps \<open>lookups in created, updated and deleted tables\<close>
named_theorems sum_simps \<open>sums over appended and updated lists\<close>

section \<open>Exceptions as values\<close>

text \<open>The NestJS exceptions the services throw, plus the plain \<open>Error\<close> and the two database
  errors (a missing record, Prisma's P2025, and a unique-constraint violation, P2002).\<close>

datatype api_error =
    BadRequest string
  | Unauthorized string
  | Forbidden string
  | NotFound string
  | Conflict string
  | Gone string
  | TooManyRequests string
  | PlainError string
  | RecordMissing
  | UniqueViolation string

type_synonym 'a result = "api_error + 'a"

definition ebind :: "'e + 'a \<Rightarrow> ('a \<Rightarrow> 'e + 'b) \<Rightarrow> 'e + 'b" where
  "ebind m f = (case m of Inl e \<Rightarrow> Inl e | Inr x \<Rightarrow> f x)"

definition require :: "bool \<Rightarrow> 'e \<Rightarrow> 'e + unit" where
  "require c e = (if c then Inr () else Inl e)"

definition or_throw :: "'e \<Rightarrow> 'a option \<Rightarrow> 'e + 'a" where
  "or_throw e v = (case v of None \<Rightarrow> Inl e | Some x \<Rightarrow> Inr x)"

definition is_ok :: "'e + 'a \<Rightarrow> bool" where
  "is_ok r = (case r of Inl _ \<Rightarrow> False | Inr _ \<Rightarrow> True)"

lemma ebind_Inl [simp]: "ebind (Inl e) f = Inl e"
  by (simp add: ebind_def)

lemma ebind_Inr [simp]: "ebind (Inr x) f = f x"
  by (simp add: ebind_def)

lemma ebind_eq_Inr [err_simps]: "ebind m f = Inr y \<longleftrightarrow> (\<exists>x. m = Inr x \<and> f x = Inr y)"
  by (cases m) (simp_all add: ebind_def)

lemma ebind_eq_Inl: "ebind m f = Inl e \<longleftrightarrow> m = Inl e \<or> (\<exists>x. m = Inr x \<and> f x = Inl e)"
  by (cases m) (simp_all add: ebind_def)

lemma require_eq_Inr [err_simps]: "require c e = Inr u \<longleftrightarrow> c"
  by (simp add: require_def)

lemma require_True [simp]: "require True e = Inr ()"
  by (simp add: require_def)

lemma require_False [simp]: "require False e = Inl e"
  by (simp add: require_def)

lemma or_throw_eq_Inr [err_simps]: "or_throw e v = Inr x \<longleftrightarrow> v = Some x"
  by (cases v) (simp_all add: or_throw_def)

lemma or_throw_Some [simp]: "or_throw e (Some x) = Inr x"
  by (simp add: or_throw_def)

lemma or_throw_None [simp]: "or_throw e None = Inl e"
  by (simp add: or_throw_def)

lemma is_ok_Inr [simp]: "is_ok (Inr x)"
  by (simp add: is_ok_def)

lemma is_ok_Inl [simp]: "\<not> is_ok (Inl e)"
  by (simp add: is_ok_def)

section \<open>Tables\<close>

text \<open>
  A table is the list of its rows. \<open>find_unique key k\<close> is the lookup by a unique column,
  \<open>find_first\<close> a lookup by a condition, \<open>update_many\<close> the conditional update,
  \<open>update_unique\<close> the update of the row with a given key, which throws when no row has it,
  \<open>delete_unique\<close> the deletion, which throws likewise.
\<close>

definition find_unique :: "('r \<Rightarrow> 'k) \<Rightarrow> 'k \<Rightarrow> 'r list \<Rightarrow> 'r option" where
  "find_unique key k t = List.find (\<lambda>r. key r = k) t"

definition find_first :: "('r \<Rightarrow> bool) \<Rightarrow> 'r list \<Rightarrow> 'r option" where
  "find_first P t = List.find P t"

definition update_many :: "('r \<Rightarrow> bool) \<Rightarrow> ('r \<Rightarrow> 'r) \<Rightarrow> 'r list \<Rightarrow> 'r list" where
  "update_many P f t = map (\<lambda>r. if P r then f r else r) t"

definition update_unique :: "('r \<Rightarrow> 'k) \<Rightarrow> 'k \<Rightarrow> ('r \<Rightarrow> 'r) \<Rightarrow> 'r list \<Rightarrow> 'r list result" where
  "update_unique key k f t =
     (case find_unique key k t of
        None \<Rightarrow> Inl RecordMissing
      | Some _ \<Rightarrow> Inr (update_many (\<lambda>r. key r = k) f t))"

text \<open>\<open>create\<close> of a row with a primary key that is already present is refused.\<close>

definition create_unique :: "string \<Rightarrow> ('r \<Rightarrow> 'k) \<Rightarrow> 'r \<Rightarrow> 'r list \<Rightarrow> 'r list result" where
  "create_unique col key r t =
     (case find_unique key (key r) t of
        None \<Rightarrow> Inr (t @ [r])
      | Some _ \<Rightarrow> Inl (UniqueViolation col))"

definition delete_unique :: "('r \<Rightarrow> 'k) \<Rightarrow> 'k \<Rightarrow> 'r list \<Rightarrow> 'r list result" where
  "delete_unique key k t =
     (case find_unique key k t of
        None \<Rightarrow> Inl RecordMissing
      | Some _ \<Rightarrow> Inr (filter (\<lambda>r. key r \<noteq> k) t))"

lemma find_unique_Nil [simp]: "find_unique key k [] = None"
  by (simp add: find_unique_def)

lemma find_unique_Cons [simp]:
  "find_unique key k (r # t) = (if key r = k then Some r else find_unique key k t)"
  by (simp add: find_unique_def)

lemma find_unique_append [table_simps]:
  "find_unique key k (t @ u) =
     (case find_unique key k t of None \<Rightarrow> find_unique key k u | Some r \<Rightarrow> Some r)"
  by (induction t) auto

lemma find_unique_SomeD:
  "find_unique key k t = Some r \<Longrightarrow> r \<in> set t \<and> key r = k"
  by (induction t) (auto split: if_splits)

lemma find_unique_None_iff: "find_unique key k t = None \<longleftrightarrow> k \<notin> key ` set t"
  by (induction t) auto

lemma find_unique_in_distinct:
  "distinct (map key t) \<Longrightarrow> r \<in> set t \<Longrightarrow> find_unique key (key r) t = Some r"
  by (induction t) (auto simp: image_iff)

lemma find_unique_update_many [table_simps]:
  assumes "\<And>r. key (f r) = key r"
  shows "find_unique key j (update_many (\<lambda>r. key r = k) f t) =
           (if j = k then map_option f (find_unique key j t) else find_unique key j t)"
  using assms by (induction t) (auto simp: update_many_def)

lemma find_unique_delete [table_simps]:
  "find_unique key j (filter (\<lambda>r. key r \<noteq> k) t) =
     (if j = k then None else find_unique key j t)"
  by (induction t) auto

lemma update_unique_eq_Inr [err_simps]:
  "update_unique key k f t = Inr t' \<longleftrightarrow>
     (\<exists>r. find_unique key k t = Some r) \<and> t' = update_many (\<lambda>r. key r = k) f t"
  by (cases "find_unique key k t") (auto simp: update_unique_def)

lemma create_unique_eq_Inr [err_simps]:
  "create_unique col key r t = Inr t' \<longleftrightarrow> find_unique key (key r) t = None \<and> t' = t @ [r]"
  by (cases "find_unique key (key r) t") (auto simp: create_unique_def)

lemma delete_unique_eq_Inr [err_simps]:
  "delete_unique key k t = Inr t' \<longleftrightarrow>
     (\<exists>r. find_unique key k t = Some r) \<and> t' = filter (\<lambda>r. key r \<noteq> k) t"
  by (cases "find_unique key k t") (auto simp: delete_unique_def)

lemma map_update_many [table_simps]:
  assumes "\<And>r. g (f r) = g r"
  shows "map g (update_many P f t) = map g t"
  using assms by (induction t) (auto simp: update_many_def)

lemma update_many_Nil [simp]: "update_many P f [] = []"
  by (simp add: update_many_def)

lemma update_many_Cons [simp]:
  "update_many P f (r # t) = (if P r then f r else r) # update_many P f t"
  by (simp add: update_many_def)

lemma update_many_id [simp]: "update_many P (\<lambda>r. r) t = t"
  by (simp add: update_many_def)

lemma length_update_many [simp]: "length (update_many P f t) = length t"
  by (simp add: update_many_def)

lemma find_unique_update_where:
  assumes "find_unique key k t = Some r" "\<And>x. key (f x) = key x"
  shows "find_unique key k (update_many P f t) = Some (if P r then f r else r)"
  using assms by (induction t) (auto split: if_splits)

lemma filter_update_other:
  "(\<And>x. P x \<Longrightarrow> \<not> Q x \<and> \<not> Q (f x)) \<Longrightarrow> filter Q (update_many P f t) = filter Q t"
  by (induction t) auto

lemma in_update_many: "h \<in> set (update_many P f t) \<Longrightarrow> (\<exists>g \<in> set t. P g \<and> h = f g) \<or> h \<in> set t"
  by (induction t) (auto split: if_splits)

lemma row_split:
  assumes "distinct (map idk t)" "find_unique idk i t = Some u"
  obtains as bs where "t = as @ u # bs" "update_many (\<lambda>x. idk x = i) f t = as @ f u # bs" "i \<notin> idk ` set as" "i \<notin> idk ` set bs" "idk u = i"
proof -
  have u: "u \<in> set t" "idk u = i" using assms(2) by (auto dest: find_unique_SomeD)
  then obtain as bs where t: "t = as @ u # bs" by (meson split_list)
  then have n: "i \<notin> idk ` set as" "i \<notin> idk ` set bs" using assms(1) u(2) by auto
  have "update_many (\<lambda>x. idk x = i) f xs = xs" if "i \<notin> idk ` set xs" for xs
    using that by (induction xs) auto
  then show ?thesis using that [OF t] n u(2) t by (simp add: update_many_def)
qed

lemma find_first_SomeD: "find_first P t = Some r \<Longrightarrow> r \<in> set t \<and> P r"
  by (auto simp: find_first_def find_Some_iff)

text \<open>The contract a keyed table offers its clients: what a lookup returns after a create, an
  update and a delete. It is interpreted on every table the money services share.\<close>

locale keyed_table =
  fixes key :: "'r \<Rightarrow> string"
    and lookup :: "string \<Rightarrow> 'r list \<Rightarrow> 'r option"
    and create :: "'r \<Rightarrow> 'r list \<Rightarrow> 'r list"
    and modify :: "string \<Rightarrow> ('r \<Rightarrow> 'r) \<Rightarrow> 'r list \<Rightarrow> 'r list"
  assumes lookup_create:
      "lookup k t = None \<Longrightarrow> key r = k \<Longrightarrow> lookup j (create r t) = (if j = k then Some r else lookup j t)"
    and lookup_modify:
      "(\<And>r. key (f r) = key r) \<Longrightarrow>
         lookup j (modify k f t) = (if j = k then map_option f (lookup j t) else lookup j t)"
    and lookup_key: "lookup k t = Some r \<Longrightarrow> key r = k"
begin

lemma modify_other: "(\<And>r. key (f r) = key r) \<Longrightarrow> j \<noteq> k \<Longrightarrow> lookup j (modify k f t) = lookup j t"
  by (simp add: lookup_modify)

lemma modify_same:
  "(\<And>r. key (f r) = key r) \<Longrightarrow> lookup k t = Some r \<Longrightarrow> lookup k (modify k f t) = Some (f r)"
  by (simp add: lookup_modify)

lemma modify_None_iff:
  "(\<And>r. key (f r) = key r) \<Longrightarrow> lookup j (modify k f t) = None \<longleftrightarrow> lookup j t = None"
  by (simp add: lookup_modify)

lemma create_fresh: "lookup (key r) t = None \<Longrightarrow> lookup (key r) (create r t) = Some r"
  by (simp add: lookup_create)

end

section \<open>Histories\<close>

text \<open>A step relation that preserves an invariant preserves it along every history. The step
  relations of the components are instances.\<close>

locale step_invariant =
  fixes step :: "'s \<Rightarrow> 's \<Rightarrow> bool" and inv :: "'s \<Rightarrow> bool"
  assumes step_inv: "step s s' \<Longrightarrow> inv s \<Longrightarrow> inv s'"
begin

lemma history_inv: "step\<^sup>*\<^sup>* s s' \<Longrightarrow> inv s \<Longrightarrow> inv s'"
  by (induction rule: rtranclp_induct) (auto intro: step_inv)

end

section \<open>Sums\<close>

lemma sum_list_map_append [sum_simps]:
  "sum_list (map f (xs @ ys)) = sum_list (map f xs) + sum_list (map (f :: 'a \<Rightarrow> int) ys)"
  by simp

lemma sum_list_filter_if:
  "sum_list (map f (filter P xs)) = sum_list (map (\<lambda>x. if P x then f x else (0::int)) xs)"
  by (induction xs) auto

lemma sum_list_map_diff_int:
  "sum_list (map (\<lambda>x. f x - g x :: int) xs) = sum_list (map f xs) - sum_list (map g xs)"
  by (induction xs) auto

lemma fold_add_int: "fold (\<lambda>x a. a + f x) xs a = (a::int) + sum_list (map f xs)"
  by (induction xs arbitrary: a) auto

section \<open>JavaScript integers and strings\<close>

text \<open>\<open>BigInt\<close> division truncates towards zero, and \<open>%\<close> takes the sign of the dividend.\<close>

definition js_div :: "int \<Rightarrow> int \<Rightarrow> int" where
  "js_div a b = sgn a * sgn b * (\<bar>a\<bar> div \<bar>b\<bar>)"

definition js_mod :: "int \<Rightarrow> int \<Rightarrow> int" where
  "js_mod a b = a - b * js_div a b"

lemma js_div_nonneg: "0 \<le> a \<Longrightarrow> 0 < b \<Longrightarrow> js_div a b = a div b"
  by (cases "a = 0") (auto simp: js_div_def)

lemma js_mod_nonneg: "0 \<le> a \<Longrightarrow> 0 < b \<Longrightarrow> js_mod a b = a mod b"
  by (simp add: js_mod_def js_div_nonneg minus_mult_div_eq_mod)

text \<open>Decimal printing, \<open>toString()\<close> on a \<open>BigInt\<close>.\<close>

definition digit_char :: "int \<Rightarrow> char" where
  "digit_char d = char_of (48 + d)"

function show_digits :: "int \<Rightarrow> string" where
  "show_digits n = (if n < 10 then [digit_char n] else show_digits (n div 10) @ [digit_char (n mod 10)])"
  by auto
termination
  by (relation "measure nat") auto

declare show_digits.simps [simp del]

definition show_int :: "int \<Rightarrow> string" where
  "show_int n = (if n < 0 then ''-'' @ show_digits (- n) else show_digits n)"

text \<open>\<open>padStart(2, '0')\<close>, and an amount of cents as \<open>(Number(c) / 100).toFixed(2)\<close> prints it (the
  quotient of a \<open>c\<close> below \<open>2 ^ 52\<close> is close enough for \<open>toFixed\<close> to recover every digit).\<close>

definition pad2 :: "string \<Rightarrow> string" where
  "pad2 s = replicate (2 - length s) (CHR ''0'') @ s"

definition fixed2 :: "int \<Rightarrow> string" where
  "fixed2 c = (if c < 0 then ''-'' else '''') @ show_digits (\<bar>c\<bar> div 100) @ ''.'' @
     pad2 (show_digits (\<bar>c\<bar> mod 100))"

text \<open>White space and case mapping on single-byte characters.\<close>

definition is_space :: "char \<Rightarrow> bool" where
  "is_space c = (of_char c \<in> {9, 10, 11, 12, 13, 32, 160 :: nat})"

definition js_trim :: "string \<Rightarrow> string" where
  "js_trim s = rev (dropWhile is_space (rev (dropWhile is_space s)))"

definition strip_spaces :: "string \<Rightarrow> string" where
  "strip_spaces s = filter (\<lambda>c. \<not> is_space c) s"

definition upper_char :: "char \<Rightarrow> char" where
  "upper_char c = (let n = of_char c :: nat in if 97 \<le> n \<and> n \<le> 122 then char_of (n - 32) else c)"

definition lower_char :: "char \<Rightarrow> char" where
  "lower_char c = (let n = of_char c :: nat in if 65 \<le> n \<and> n \<le> 90 then char_of (n + 32) else c)"

definition to_upper :: "string \<Rightarrow> string" where
  "to_upper s = map upper_char s"

definition to_lower :: "string \<Rightarrow> string" where
  "to_lower s = map lower_char s"

text \<open>\<open>startsWith\<close>, \<open>endsWith\<close>, \<open>includes\<close>, \<open>split\<close> on a one-character separator and \<open>join\<close>.\<close>

definition starts_with :: "string \<Rightarrow> string \<Rightarrow> bool" where
  "starts_with p s = (take (length p) s = p)"

definition ends_with :: "string \<Rightarrow> string \<Rightarrow> bool" where
  "ends_with p s = starts_with (rev p) (rev s)"

fun contains :: "string \<Rightarrow> string \<Rightarrow> bool" where
  "contains p [] = (p = [])"
| "contains p (c # cs) = (starts_with p (c # cs) \<or> contains p cs)"

fun split_on :: "char \<Rightarrow> string \<Rightarrow> string list" where
  "split_on c [] = [[]]"
| "split_on c (x # xs) =
     (if x = c then [] # split_on c xs
      else case split_on c xs of [] \<Rightarrow> [[x]] | w # ws \<Rightarrow> (x # w) # ws)"

fun join_with :: "string \<Rightarrow> string list \<Rightarrow> string" where
  "join_with c [] = []"
| "join_with c [x] = x"
| "join_with c (x # xs) = x @ c @ join_with c xs"

text \<open>A value that JavaScript's \<open>||\<close> skips when it is empty, and \<open>??\<close> when it is absent.\<close>

definition str_or :: "string option \<Rightarrow> string option \<Rightarrow> string option" where
  "str_or a b = (if a = None \<or> a = Some '''' then b else a)"

definition truthy_str :: "string option \<Rightarrow> bool" where
  "truthy_str a = (a \<noteq> None \<and> a \<noteq> Some '''')"

lemma truthy_str_iff: "truthy_str a \<longleftrightarrow> (\<exists>x. a = Some x \<and> x \<noteq> '''')"
  by (cases a) (auto simp: truthy_str_def)

lemma digit_char_inj:
  assumes "0 \<le> a" "a < 10" "0 \<le> b" "b < 10" "digit_char a = digit_char b"
  shows "a = b"
proof -
  have "of_char (digit_char a) = (of_char (digit_char b) :: int)" using assms(5) by simp
  then show ?thesis using assms(1-4) by (simp add: digit_char_def)
qed

lemma digit_char_not_minus: "0 \<le> d \<Longrightarrow> d < 10 \<Longrightarrow> digit_char d \<noteq> CHR ''-''"
proof
  assume "0 \<le> d" "d < 10" "digit_char d = CHR ''-''"
  then have "of_char (digit_char d) = (45 :: int)" by simp
  then show False using \<open>0 \<le> d\<close> \<open>d < 10\<close> by (simp add: digit_char_def)
qed

lemma show_digits_nonempty [simp]: "show_digits n \<noteq> []" "[] \<noteq> show_digits n"
  by (subst show_digits.simps, simp)+

lemma show_digits_inj: "0 \<le> a \<Longrightarrow> 0 \<le> b \<Longrightarrow> show_digits a = show_digits b \<Longrightarrow> a = b"
proof (induction a arbitrary: b rule: show_digits.induct)
  case (1 a)
  show ?case
  proof (cases "a < 10")
    case True
    then have "b < 10"
      using "1.prems"(3) by (subst (asm) (1 2) show_digits.simps) (auto split: if_splits)
    with True "1.prems" show ?thesis
      by (auto simp: show_digits.simps [of a] show_digits.simps [of b] dest: digit_char_inj [rotated 4])
  next
    case False
    then have b: "\<not> b < 10"
      using "1.prems"(3) by (subst (asm) (1 2) show_digits.simps) (auto split: if_splits)
    then have "show_digits (a div 10) = show_digits (b div 10)"
      and "digit_char (a mod 10) = digit_char (b mod 10)"
      using False "1.prems"(3) by (auto simp: show_digits.simps [of a] show_digits.simps [of b])
    then have "a div 10 = b div 10" and "a mod 10 = b mod 10"
      using "1.IH" [OF False, of "b div 10"] "1.prems"(1,2) False b
        digit_char_inj [of "a mod 10" "b mod 10"] by auto
    then show ?thesis by (metis div_mult_mod_eq)
  qed
qed

lemma hd_show_digits: "0 \<le> n \<Longrightarrow> hd (show_digits n) \<noteq> CHR ''-''"
proof (induction n rule: show_digits.induct)
  case (1 n)
  then show ?case
    by (subst show_digits.simps) (auto simp: digit_char_not_minus hd_append)
qed

lemma show_int_inj: "show_int a = show_int b \<Longrightarrow> a = b"
  using show_digits_inj [of a b] show_digits_inj [of "- a" "- b"] hd_show_digits [of a] hd_show_digits [of b]
  by (auto simp: show_int_def split: if_splits) (metis list.sel(1))+

end
