(* ===== verification/Schema.thy ===== *)
theory Schema
  imports Bank_Prelude
begin

text \<open>
  The state the money services share: the tables of \<^verbatim>\<open>prisma/schema.prisma\<close> they read and write,
  each a list of rows in insertion order, together with the observable effects they leave outside
  the database, namely the settlement queue, the in-process event bus and the outgoing mail.
  Rows carry the columns the modelled code reads or writes. Surrogate keys that the database
  generates and nothing but a join reads are left out: a ledger account is identified by its
  unique \<open>code\<close>, a journal entry by its position. Times are milliseconds since the epoch.
\<close>

section \<open>Enumerations\<close>

datatype account_type = Checking | Savings

datatype account_status = AcctActive | AcctFrozen | AcctClosed

datatype tx_status = TxPending | TxPosted | TxDeclined | TxReversed

datatype tx_category =
  CatGroceries | CatDining | CatTransport | CatEntertainment | CatShopping | CatBills
  | CatHealth | CatTravel | CatUtilities | CatTransfer | CatIncome | CatOther

datatype tx_kind =
  KCardPurchase | KAchIn | KAchOut | KP2pIn | KP2pOut | KFee | KInterest | KDeposit
  | KRefund | KAdjustment

datatype user_role = Customer | Admin | SuperAdmin

datatype user_status = UserActive | UserFrozen | UserClosed

datatype transfer_kind = Internal | AchIn | AchOut | WireIn | WireOut | P2P

datatype ledger_type = Asset | Liability | Equity | Revenue | Expense

datatype direction = Debit | Credit

datatype review_decision = Approved | Rejected

datatype override_status = OvPending | OvSettled | OvDeclined | OvReversed | OvHidden

datatype rate_source = RateLive | RatePeg

datatype wire_type = WireLocal | WireInternational

definition kind_name :: "transfer_kind \<Rightarrow> string" where
  "kind_name k = (case k of Internal \<Rightarrow> ''internal'' | AchIn \<Rightarrow> ''ach_in'' | AchOut \<Rightarrow> ''ach_out''
     | WireIn \<Rightarrow> ''wire_in'' | WireOut \<Rightarrow> ''wire_out'' | P2P \<Rightarrow> ''p2p'')"

section \<open>Rows\<close>

record user =
  u_id :: string
  u_email :: string
  u_phoneE164 :: "string option"
  u_novaTag :: "string option"
  u_firstName :: "string option"
  u_lastName :: "string option"
  u_avatarUrl :: "string option"
  u_role :: user_role
  u_status :: user_status
  u_transfersDisabled :: bool

record account =
  a_id :: string
  a_userId :: string
  a_type :: account_type
  a_label :: string
  a_balanceCents :: int
  a_apyBps :: "int option"
  a_status :: account_status
  a_mockRoutingNumber :: string
  a_mockAccountNumber :: string

record fx_payload =
  fxp_sendCurrency :: string
  fxp_sendAmountMinor :: int
  fxp_settleCurrency :: string
  fxp_settleCents :: int
  fxp_rate :: rat
  fxp_asOf :: int
  fxp_source :: rate_source

record tx_meta =
  m_transferId :: "string option"
  m_fx :: "fx_payload option"
  m_reversedByAdmin :: "string option"

record transaction =
  t_id :: string
  t_accountId :: string
  t_kind :: tx_kind
  t_status :: tx_status
  t_amountCents :: int
  t_description :: string
  t_category :: tx_category
  t_note :: "string option"
  t_occurredAt :: int
  t_postedAt :: "int option"
  t_metadata :: "tx_meta option"

record tx_override =
  o_transactionId :: string
  o_amountCents :: "int option"
  o_occurredAt :: "int option"
  o_description :: "string option"
  o_category :: "tx_category option"
  o_status :: "override_status option"
  o_compensatingEntryId :: "nat option"
  o_appliedByUserId :: string
  o_reason :: "string option"

record ledger_account =
  la_code :: string
  la_type :: ledger_type
  la_normalBalance :: direction
  la_ownerUserId :: "string option"

record journal_entry =
  je_description :: string
  je_occurredAt :: int
  je_source :: string
  je_referenceId :: "string option"

record posting =
  p_entry :: nat
  p_code :: string
  p_direction :: direction
  p_amountCents :: int

record transfer =
  tr_id :: string
  tr_kind :: transfer_kind
  tr_status :: tx_status
  tr_fromAccountId :: string
  tr_toAccountId :: "string option"
  tr_externalRef :: "string option"
  tr_amountCents :: int
  tr_feeCents :: int
  tr_instant :: bool
  tr_initiatedByUserId :: string
  tr_initiatedAt :: int
  tr_settledAt :: "int option"
  tr_failureReason :: "string option"
  tr_idempotencyKey :: string
  tr_pendingTransactionId :: "string option"
  tr_settledTransactionId :: "string option"
  tr_requiresReview :: bool
  tr_reviewDecision :: "review_decision option"
  tr_reviewedAt :: "int option"
  tr_reviewedByUserId :: "string option"
  tr_reviewReason :: "string option"

record wire_beneficiary =
  wb_id :: string
  wb_type :: wire_type
  wb_name :: string
  wb_bankName :: string
  wb_routingNumber :: "string option"
  wb_accountNumber :: "string option"
  wb_swiftBic :: "string option"
  wb_iban :: "string option"
  wb_country :: "string option"
  wb_beneficiaryAddress :: "string option"
  wb_notes :: "string option"
  wb_createdByUserId :: string
  wb_createdAt :: int
  wb_archivedAt :: "int option"

record linked_account =
  lk_id :: string
  lk_userId :: string
  lk_institutionId :: string
  lk_institutionName :: string
  lk_mask :: string
  lk_accountType :: string

record effective_fields =
  ef_amountCents :: int
  ef_occurredAt :: int
  ef_description :: string
  ef_category :: tx_category
  ef_status :: tx_status

text \<open>The values audit metadata carries.\<close>

datatype audit_value =
  AvNull | AvText string | AvInt int | AvStatus tx_status | AvCategory tx_category
  | AvEffective effective_fields

record audit_row =
  au_actorUserId :: string
  au_action :: string
  au_targetType :: string
  au_targetId :: string
  au_metadata :: "(string \<times> audit_value) list"
  au_createdAt :: int

section \<open>Effects outside the database\<close>

datatype event =
    EvTransactionCreated string string string int tx_status int
      "(string \<times> tx_category \<times> string) option"
      \<comment> \<open>user, account, transaction, amount, status, time, (description, category, kind)\<close>
  | EvTransactionSettled string string string string int int
      \<comment> \<open>user, account, transaction, transfer, amount, time\<close>
  | EvTransactionUpdated string string string "effective_fields option" bool int
      \<comment> \<open>user, account, transaction, effective fields unless hidden, hidden, time\<close>
  | EvAccountBalanceChanged string string int int
      \<comment> \<open>user, account, balance, time\<close>
  | EvAdminTransferSettled string string bool int transfer_kind int
      \<comment> \<open>transfer, user, is a deposit, amount, kind, time\<close>
  | EvAdminQueueChanged int
      \<comment> \<open>change of the number of transfers in the review queue\<close>
  | EvPaymentRequested string string string int string int
      \<comment> \<open>request, requester, payer, amount, note, time\<close>

datatype mail =
    MailReviewDecision string string int review_decision string
      \<comment> \<open>recipient, label of the kind, amount, decision, reason\<close>
  | MailDepositDecision string int string review_decision string
      \<comment> \<open>recipient, amount, currency, decision, reason or account label\<close>

text \<open>A settlement job waits in the BullMQ queue, or, when Redis is unreachable, in an in-process
  timer.\<close>

datatype settle_job = QueuedJob string int | TimerJob string int

fun job_transfer :: "settle_job \<Rightarrow> string" where
  "job_transfer (QueuedJob t d) = t"
| "job_transfer (TimerJob t d) = t"

record bank =
  db_users :: "user list"
  db_accounts :: "account list"
  db_transactions :: "transaction list"
  db_overrides :: "tx_override list"
  db_ledgerAccounts :: "ledger_account list"
  db_journal :: "journal_entry list"
  db_postings :: "posting list"
  db_transfers :: "transfer list"
  db_beneficiaries :: "wire_beneficiary list"
  db_linkedAccounts :: "linked_account list"
  db_audit :: "audit_row list"
  bus :: "event list"
  mails :: "mail list"
  jobs :: "settle_job list"

definition empty_bank :: bank where
  "empty_bank = \<lparr>db_users = [], db_accounts = [], db_transactions = [], db_overrides = [],
     db_ledgerAccounts = [], db_journal = [], db_postings = [], db_transfers = [],
     db_beneficiaries = [], db_linkedAccounts = [], db_audit = [], bus = [], mails = [], jobs = []\<rparr>"

abbreviation account_of :: "bank \<Rightarrow> string \<Rightarrow> account option" where
  "account_of s i \<equiv> find_unique a_id i (db_accounts s)"

abbreviation user_of :: "bank \<Rightarrow> string \<Rightarrow> user option" where
  "user_of s i \<equiv> find_unique u_id i (db_users s)"

abbreviation transfer_of :: "bank \<Rightarrow> string \<Rightarrow> transfer option" where
  "transfer_of s i \<equiv> find_unique tr_id i (db_transfers s)"

abbreviation transaction_of :: "bank \<Rightarrow> string \<Rightarrow> transaction option" where
  "transaction_of s i \<equiv> find_unique t_id i (db_transactions s)"

text \<open>\<open>events.emit\<close>, \<open>email.send\<close>.\<close>

definition emit :: "event \<Rightarrow> bank \<Rightarrow> bank" where
  "emit e s = s\<lparr>bus := bus s @ [e]\<rparr>"

definition send_mail :: "mail \<Rightarrow> bank \<Rightarrow> bank" where
  "send_mail m s = s\<lparr>mails := mails s @ [m]\<rparr>"

text \<open>\<open>AdminAuditService.write\<close>, less the signature of the row.\<close>

definition audit_write ::
  "int \<Rightarrow> string \<Rightarrow> string \<Rightarrow> string \<Rightarrow> string \<Rightarrow> (string \<times> audit_value) list \<Rightarrow> bank \<Rightarrow> bank" where
  "audit_write now actorUserId action targetType targetId metadata s =
     s\<lparr>db_audit := db_audit s @
        [\<lparr>au_actorUserId = actorUserId, au_action = action, au_targetType = targetType,
          au_targetId = targetId, au_metadata = metadata, au_createdAt = now\<rparr>]\<rparr>"

text \<open>\<open>balanceCents: { increment: d }\<close> on one account.\<close>

definition credit_account :: "string \<Rightarrow> int \<Rightarrow> bank \<Rightarrow> bank result" where
  "credit_account i d s =
     ebind (update_unique a_id i (\<lambda>a. a\<lparr>a_balanceCents := a_balanceCents a + d\<rparr>) (db_accounts s))
       (\<lambda>t. Inr (s\<lparr>db_accounts := t\<rparr>))"

text \<open>\<open>a || b\<close> on the display name of a user: full name, then tag, then e-mail.\<close>

definition full_name :: "user \<Rightarrow> string" where
  "full_name u = js_trim (join_with '' '' (filter (\<lambda>n. n \<noteq> '''')
     (map the (filter (\<lambda>n. n \<noteq> None) [u_firstName u, u_lastName u]))))"

definition display_name :: "user \<Rightarrow> string" where
  "display_name u =
     (if full_name u \<noteq> '''' then full_name u
      else if truthy_str (u_novaTag u) then the (u_novaTag u)
      else u_email u)"

section \<open>The shared tables as keyed tables\<close>

interpretation accounts: keyed_table a_id "find_unique a_id" "\<lambda>r t. t @ [r]"
    "\<lambda>k. update_many (\<lambda>r. a_id r = k)"
  by unfold_locales
    (auto simp: table_simps split: option.splits dest: find_unique_SomeD)

interpretation transfers: keyed_table tr_id "find_unique tr_id" "\<lambda>r t. t @ [r]"
    "\<lambda>k. update_many (\<lambda>r. tr_id r = k)"
  by unfold_locales
    (auto simp: table_simps split: option.splits dest: find_unique_SomeD)

interpretation transactions: keyed_table t_id "find_unique t_id" "\<lambda>r t. t @ [r]"
    "\<lambda>k. update_many (\<lambda>r. t_id r = k)"
  by unfold_locales
    (auto simp: table_simps split: option.splits dest: find_unique_SomeD)

lemma emit_simps [simp]:
  "db_users (emit e s) = db_users s" "db_accounts (emit e s) = db_accounts s"
  "db_transactions (emit e s) = db_transactions s" "db_overrides (emit e s) = db_overrides s"
  "db_ledgerAccounts (emit e s) = db_ledgerAccounts s" "db_journal (emit e s) = db_journal s"
  "db_postings (emit e s) = db_postings s" "db_transfers (emit e s) = db_transfers s"
  "db_beneficiaries (emit e s) = db_beneficiaries s"
  "db_linkedAccounts (emit e s) = db_linkedAccounts s" "db_audit (emit e s) = db_audit s"
  "mails (emit e s) = mails s" "jobs (emit e s) = jobs s" "bus (emit e s) = bus s @ [e]"
  by (simp_all add: emit_def)

lemma send_mail_simps [simp]:
  "db_users (send_mail m s) = db_users s" "db_accounts (send_mail m s) = db_accounts s"
  "db_transactions (send_mail m s) = db_transactions s" "db_overrides (send_mail m s) = db_overrides s"
  "db_ledgerAccounts (send_mail m s) = db_ledgerAccounts s" "db_journal (send_mail m s) = db_journal s"
  "db_postings (send_mail m s) = db_postings s" "db_transfers (send_mail m s) = db_transfers s"
  "db_beneficiaries (send_mail m s) = db_beneficiaries s"
  "db_linkedAccounts (send_mail m s) = db_linkedAccounts s" "db_audit (send_mail m s) = db_audit s"
  "mails (send_mail m s) = mails s @ [m]" "jobs (send_mail m s) = jobs s" "bus (send_mail m s) = bus s"
  by (simp_all add: send_mail_def)

lemma audit_write_simps [simp]:
  "db_users (audit_write n a b c d m s) = db_users s" "db_accounts (audit_write n a b c d m s) = db_accounts s"
  "db_transactions (audit_write n a b c d m s) = db_transactions s"
  "db_overrides (audit_write n a b c d m s) = db_overrides s"
  "db_ledgerAccounts (audit_write n a b c d m s) = db_ledgerAccounts s"
  "db_journal (audit_write n a b c d m s) = db_journal s"
  "db_postings (audit_write n a b c d m s) = db_postings s"
  "db_transfers (audit_write n a b c d m s) = db_transfers s"
  "db_beneficiaries (audit_write n a b c d m s) = db_beneficiaries s"
  "db_linkedAccounts (audit_write n a b c d m s) = db_linkedAccounts s"
  "mails (audit_write n a b c d m s) = mails s" "jobs (audit_write n a b c d m s) = jobs s"
  "bus (audit_write n a b c d m s) = bus s"
  by (simp_all add: audit_write_def)

lemma credit_account_eq_Inr [err_simps]:
  "credit_account i d s = Inr s' \<longleftrightarrow>
     (\<exists>a. account_of s i = Some a) \<and>
     s' = s\<lparr>db_accounts := update_many (\<lambda>a. a_id a = i)
              (\<lambda>a. a\<lparr>a_balanceCents := a_balanceCents a + d\<rparr>) (db_accounts s)\<rparr>"
  by (auto simp: credit_account_def err_simps)

end
