(* ===== verification/Ledger.thy ===== *)
theory Ledger
  imports Schema "HOL-Library.Char_ord" "HOL-Library.List_Lexorder" "HOL-Library.Multiset"
begin

text \<open>
  The double-entry ledger: the chart of accounts (\<^verbatim>\<open>ledger/chart-of-accounts.ts\<close>), the journal
  service (\<^verbatim>\<open>ledger/ledger.service.ts\<close>) and the trial balance (\<^verbatim>\<open>ledger/trial-balance.service.ts\<close>).
  The invariant \<open>ledger_inv\<close> says that ledger codes are unique, every posting belongs to a known
  ledger account and a known journal entry, and every entry's debits equal its credits. The measure
  \<open>drift\<close> compares the cached balance of a customer account with its sub-ledger; the money services
  are correct when they leave it alone.
\<close>

named_theorems ledger_simps \<open>nets of postings and of journal inputs\<close>

section \<open>Chart of accounts\<close>

definition Cash :: string where "Cash = ''CASH''"
definition PendingOut :: string where "PendingOut = ''PENDING_OUT''"
definition PendingIn :: string where "PendingIn = ''PENDING_IN''"
definition FeeRevenue :: string where "FeeRevenue = ''FEE_REV''"
definition InterestExpense :: string where "InterestExpense = ''INT_EXP''"

definition SYSTEM_LEDGER_SEEDS :: "ledger_account list" where
  "SYSTEM_LEDGER_SEEDS =
     [\<lparr>la_code = Cash, la_type = Asset, la_normalBalance = Debit, la_ownerUserId = None\<rparr>,
      \<lparr>la_code = PendingOut, la_type = Liability, la_normalBalance = Credit, la_ownerUserId = None\<rparr>,
      \<lparr>la_code = PendingIn, la_type = Asset, la_normalBalance = Debit, la_ownerUserId = None\<rparr>,
      \<lparr>la_code = FeeRevenue, la_type = Revenue, la_normalBalance = Credit, la_ownerUserId = None\<rparr>,
      \<lparr>la_code = InterestExpense, la_type = Expense, la_normalBalance = Debit, la_ownerUserId = None\<rparr>]"

definition custLiabilityCode :: "string \<Rightarrow> string" where
  "custLiabilityCode userId = ''CUST_LIAB_'' @ userId"

definition accountSubLedgerCode :: "string \<Rightarrow> string" where
  "accountSubLedgerCode accountId = ''ACCT_'' @ accountId"

section \<open>Journal service\<close>

record posting_meta =
  pm_ownerUserId :: "string option"
  pm_type :: "ledger_type option"
  pm_normalBalance :: "direction option"

record posting_input =
  pi_code :: string
  pi_direction :: direction
  pi_amountCents :: int
  pi_meta :: "posting_meta option"

record journal_input =
  ji_description :: string
  ji_occurredAt :: int
  ji_source :: string
  ji_referenceId :: "string option"
  ji_postings :: "posting_input list"

text \<open>\<open>upsert\<close> with an empty update: create the row unless its code exists.\<close>

definition upsert_ledger_account :: "ledger_account \<Rightarrow> ledger_account list \<Rightarrow> ledger_account list" where
  "upsert_ledger_account row t =
     (case find_unique la_code (la_code row) t of None \<Rightarrow> t @ [row] | Some _ \<Rightarrow> t)"

definition ensureSystemAccounts :: "bank \<Rightarrow> bank" where
  "ensureSystemAccounts s =
     s\<lparr>db_ledgerAccounts := fold upsert_ledger_account SYSTEM_LEDGER_SEEDS (db_ledgerAccounts s)\<rparr>"

definition ensureAccountLedger :: "string \<Rightarrow> string \<Rightarrow> bank \<Rightarrow> bank" where
  "ensureAccountLedger accountId ownerUserId s =
     s\<lparr>db_ledgerAccounts := upsert_ledger_account
         \<lparr>la_code = accountSubLedgerCode accountId, la_type = Liability, la_normalBalance = Credit,
          la_ownerUserId = Some ownerUserId\<rparr> (db_ledgerAccounts s)\<rparr>"

definition sum_direction :: "direction \<Rightarrow> posting_input list \<Rightarrow> int" where
  "sum_direction d ps = fold (\<lambda>p a. a + pi_amountCents p) (filter (\<lambda>p. pi_direction p = d) ps) 0"

text \<open>The loop that creates the ledger accounts the postings name and the table lacks;
  \<open>byCode\<close> holds the codes known so far.\<close>

definition unknown_ledger :: "string \<Rightarrow> api_error" where
  "unknown_ledger c =
     PlainError (''Unknown ledger account '' @ c @ '' and no meta provided to create it'')"

fun create_missing ::
  "posting_input list \<Rightarrow> string list \<Rightarrow> ledger_account list \<Rightarrow> ledger_account list result" where
  "create_missing [] byCode t = Inr t"
| "create_missing (p # ps) byCode t =
     (if pi_code p \<in> set byCode then create_missing ps byCode t
      else case pi_meta p of
          None \<Rightarrow> Inl (unknown_ledger (pi_code p))
        | Some m \<Rightarrow>
            if pm_type m = None \<or> pm_normalBalance m = None then Inl (unknown_ledger (pi_code p))
            else create_missing ps (pi_code p # byCode)
              (t @ [\<lparr>la_code = pi_code p, la_type = the (pm_type m),
                     la_normalBalance = the (pm_normalBalance m), la_ownerUserId = pm_ownerUserId m\<rparr>]))"

definition mk_posting :: "nat \<Rightarrow> posting_input \<Rightarrow> posting" where
  "mk_posting e p = \<lparr>p_entry = e, p_code = pi_code p, p_direction = pi_direction p,
     p_amountCents = pi_amountCents p\<rparr>"

definition post :: "journal_input \<Rightarrow> bank \<Rightarrow> (nat \<times> bank) result" where
  "post input s =
     (let ps = ji_postings input;
          sumDebit = sum_direction Debit ps;
          sumCredit = sum_direction Credit ps;
          codes = remdups (map pi_code ps);
          existing = filter (\<lambda>a. la_code a \<in> set codes) (db_ledgerAccounts s)
      in ebind (require (\<not> length ps < 2)
                  (PlainError ''Journal entry requires at least 2 postings'')) (\<lambda>_.
         ebind (require (sumDebit = sumCredit)
                  (PlainError (''Unbalanced journal: debits='' @ show_int sumDebit @
                     '' credits='' @ show_int sumCredit))) (\<lambda>_.
         ebind (create_missing ps (map la_code existing) (db_ledgerAccounts s)) (\<lambda>las.
         let e = length (db_journal s) in
         Inr (e, s\<lparr>db_ledgerAccounts := las,
                   db_journal := db_journal s @
                     [\<lparr>je_description = ji_description input, je_occurredAt = ji_occurredAt input,
                       je_source = ji_source input, je_referenceId = ji_referenceId input\<rparr>],
                   db_postings := db_postings s @ map (mk_posting e) ps\<rparr>)))))"

section \<open>Trial balance\<close>

record trial_balance_row =
  tb_code :: string
  tb_type :: ledger_type
  tb_debits :: int
  tb_credits :: int

definition posted_sum :: "direction \<Rightarrow> string \<Rightarrow> posting list \<Rightarrow> int" where
  "posted_sum d c ps =
     sum_list (map (\<lambda>p. if p_direction p = d then p_amountCents p else 0)
       (filter (\<lambda>p. p_code p = c) ps))"

text \<open>The query's row per ledger account, ordered by code (strings compare by code point).\<close>

definition trial_balance_rows :: "bank \<Rightarrow> trial_balance_row list" where
  "trial_balance_rows s =
     sort_key tb_code
       (map (\<lambda>la. \<lparr>tb_code = la_code la, tb_type = la_type la,
                  tb_debits = posted_sum Debit (la_code la) (db_postings s),
                  tb_credits = posted_sum Credit (la_code la) (db_postings s)\<rparr>)
         (db_ledgerAccounts s))"

definition computeAndReport :: "bank \<Rightarrow> bool \<times> int \<times> trial_balance_row list" where
  "computeAndReport s =
     (let rows = trial_balance_rows s;
          totalDebits = fold (\<lambda>r a. a + tb_debits r) rows 0;
          totalCredits = fold (\<lambda>r a. a + tb_credits r) rows 0;
          delta = totalDebits - totalCredits
      in (delta = 0, delta, rows))"

section \<open>Invariant and measures\<close>

definition signed :: "posting \<Rightarrow> int" where
  "signed p = (if p_direction p = Credit then p_amountCents p else - p_amountCents p)"

definition net :: "string \<Rightarrow> posting list \<Rightarrow> int" where
  "net c ps = sum_list (map signed (filter (\<lambda>p. p_code p = c) ps))"

definition net_of :: "bank \<Rightarrow> string \<Rightarrow> int" where
  "net_of s c = net c (db_postings s)"

definition input_net :: "string \<Rightarrow> posting_input list \<Rightarrow> int" where
  "input_net c ps = net c (map (mk_posting 0) ps)"

definition entry_sum :: "nat \<Rightarrow> posting list \<Rightarrow> int" where
  "entry_sum e ps = sum_list (map signed (filter (\<lambda>p. p_entry p = e) ps))"

definition ledger_inv :: "bank \<Rightarrow> bool" where
  "ledger_inv s \<longleftrightarrow>
     distinct (map la_code (db_ledgerAccounts s)) \<and>
     (\<forall>p \<in> set (db_postings s). p_code p \<in> la_code ` set (db_ledgerAccounts s) \<and>
                                p_entry p < length (db_journal s)) \<and>
     (\<forall>e. entry_sum e (db_postings s) = 0)"

definition balance_of :: "bank \<Rightarrow> string \<Rightarrow> int option" where
  "balance_of s i = map_option a_balanceCents (account_of s i)"

definition drift :: "bank \<Rightarrow> string \<Rightarrow> int option" where
  "drift s i = map_option (\<lambda>a. a_balanceCents a - net_of s (accountSubLedgerCode i)) (account_of s i)"

section \<open>Lemmas\<close>

lemmas system_code_defs = Cash_def PendingOut_def PendingIn_def FeeRevenue_def InterestExpense_def

lemma accountSubLedgerCode_inj [simp]:
  "accountSubLedgerCode i = accountSubLedgerCode j \<longleftrightarrow> i = j"
  by (simp add: accountSubLedgerCode_def)

lemma system_codes_not_account [simp]:
  "Cash \<noteq> accountSubLedgerCode i" "PendingOut \<noteq> accountSubLedgerCode i"
  "FeeRevenue \<noteq> accountSubLedgerCode i" "accountSubLedgerCode i \<noteq> Cash"
  "accountSubLedgerCode i \<noteq> PendingOut" "accountSubLedgerCode i \<noteq> FeeRevenue"
  by (simp_all add: accountSubLedgerCode_def system_code_defs)

lemma system_codes_distinct [simp]:
  "Cash \<noteq> PendingOut" "PendingOut \<noteq> Cash" "PendingOut \<noteq> FeeRevenue" "FeeRevenue \<noteq> PendingOut"
  "Cash \<noteq> FeeRevenue" "FeeRevenue \<noteq> Cash"
  by (simp_all add: system_code_defs)

lemma net_Nil [ledger_simps]: "net c [] = 0"
  by (simp add: net_def)

lemma net_append [ledger_simps]: "net c (ps @ qs) = net c ps + net c qs"
  by (simp add: net_def)

lemma signed_mk_posting [ledger_simps]:
  "signed (mk_posting e p) = (if pi_direction p = Credit then pi_amountCents p else - pi_amountCents p)"
  by (simp add: signed_def mk_posting_def)

lemma mk_posting_sel [simp]: "p_code (mk_posting e p) = pi_code p" "p_entry (mk_posting e p) = e"
  by (simp_all add: mk_posting_def)

lemma net_map_mk [ledger_simps]: "net c (map (mk_posting e) ps) = input_net c ps"
  by (induction ps) (auto simp: input_net_def net_def signed_mk_posting)

lemma input_net_Nil [ledger_simps]: "input_net c [] = 0"
  by (simp add: input_net_def net_def)

lemma input_net_Cons [ledger_simps]:
  "input_net c (p # ps) =
     (if pi_code p = c then (if pi_direction p = Credit then pi_amountCents p else - pi_amountCents p)
      else 0) + input_net c ps"
  by (simp add: input_net_def net_def signed_mk_posting)

lemma input_net_append [ledger_simps]: "input_net c (ps @ qs) = input_net c ps + input_net c qs"
  by (induction ps) (simp_all add: ledger_simps)

lemma sum_direction_diff:
  "sum_list (map (\<lambda>p. signed (mk_posting e p)) ps) = sum_direction Credit ps - sum_direction Debit ps"
proof (induction ps)
  case (Cons p ps)
  then show ?case
    by (cases "pi_direction p") (simp_all add: sum_direction_def signed_mk_posting fold_add_int)
qed (simp add: sum_direction_def)

lemma entry_sum_append: "entry_sum e (ps @ qs) = entry_sum e ps + entry_sum e qs"
  by (simp add: entry_sum_def)

lemma entry_sum_map_mk:
  "entry_sum e (map (mk_posting f) ps) =
     (if e = f then sum_direction Credit ps - sum_direction Debit ps else 0)"
  by (cases "e = f") (simp_all add: entry_sum_def filter_map o_def sum_direction_diff)

lemma codes_upsert:
  "set (map la_code (upsert_ledger_account r t)) = insert (la_code r) (set (map la_code t))"
proof (cases "find_unique la_code (la_code r) t")
  case (Some x)
  then have "la_code r \<in> la_code ` set t" by (metis find_unique_SomeD imageI)
  with Some show ?thesis by (auto simp: upsert_ledger_account_def)
qed (auto simp: upsert_ledger_account_def)

lemma distinct_upsert:
  "distinct (map la_code t) \<Longrightarrow> distinct (map la_code (upsert_ledger_account r t))"
  by (auto simp: upsert_ledger_account_def find_unique_None_iff split: option.splits)

lemma create_missing_codes:
  assumes "create_missing ps byCode t = Inr t'" "set byCode \<subseteq> la_code ` set t"
  shows "la_code ` set t \<subseteq> la_code ` set t' \<and> pi_code ` set ps \<subseteq> la_code ` set t'"
  using assms
proof (induction ps byCode t rule: create_missing.induct)
  case (2 p ps byCode t)
  show ?case
  proof (cases "pi_code p \<in> set byCode")
    case True
    with 2 show ?thesis by auto
  next
    case False
    then obtain m where m: "pi_meta p = Some m" and ok: "\<not> (pm_type m = None \<or> pm_normalBalance m = None)"
      using "2.prems"(1) by (auto split: option.splits if_splits)
    let ?t = "t @ [\<lparr>la_code = pi_code p, la_type = the (pm_type m),
                     la_normalBalance = the (pm_normalBalance m), la_ownerUserId = pm_ownerUserId m\<rparr>]"
    have "create_missing ps (pi_code p # byCode) ?t = Inr t'"
      using "2.prems"(1) False m ok by simp
    moreover have "set (pi_code p # byCode) \<subseteq> la_code ` set ?t" using "2.prems"(2) by auto
    ultimately have "la_code ` set ?t \<subseteq> la_code ` set t' \<and> pi_code ` set ps \<subseteq> la_code ` set t'"
      using "2.IH"(2) [OF False m ok] by simp
    then show ?thesis by auto
  qed
qed simp

lemma create_missing_distinct:
  assumes "create_missing ps byCode t = Inr t'" "distinct (map la_code t)"
    "la_code ` set t \<inter> pi_code ` set ps \<subseteq> set byCode"
  shows "distinct (map la_code t')"
  using assms
proof (induction ps byCode t rule: create_missing.induct)
  case (2 p ps byCode t)
  show ?case
  proof (cases "pi_code p \<in> set byCode")
    case True
    with 2 show ?thesis by auto
  next
    case False
    then obtain m where m: "pi_meta p = Some m" and ok: "\<not> (pm_type m = None \<or> pm_normalBalance m = None)"
      using "2.prems"(1) by (auto split: option.splits if_splits)
    let ?t = "t @ [\<lparr>la_code = pi_code p, la_type = the (pm_type m),
                     la_normalBalance = the (pm_normalBalance m), la_ownerUserId = pm_ownerUserId m\<rparr>]"
    have "create_missing ps (pi_code p # byCode) ?t = Inr t'"
      using "2.prems"(1) False m ok by simp
    moreover have "distinct (map la_code ?t)" using "2.prems"(2,3) False by auto
    moreover have "la_code ` set ?t \<inter> pi_code ` set ps \<subseteq> set (pi_code p # byCode)"
      using "2.prems"(3) by auto
    ultimately show ?thesis using "2.IH"(2) [OF False m ok] by simp
  qed
qed simp

lemma post_eq_Inr:
  "post j s = Inr (e, s') \<longleftrightarrow>
     2 \<le> length (ji_postings j) \<and>
     sum_direction Debit (ji_postings j) = sum_direction Credit (ji_postings j) \<and>
     e = length (db_journal s) \<and>
     (\<exists>las. create_missing (ji_postings j)
         (map la_code (filter (\<lambda>a. la_code a \<in> pi_code ` set (ji_postings j)) (db_ledgerAccounts s)))
         (db_ledgerAccounts s) = Inr las \<and>
       s' = s\<lparr>db_ledgerAccounts := las,
              db_journal := db_journal s @
                [\<lparr>je_description = ji_description j, je_occurredAt = ji_occurredAt j,
                  je_source = ji_source j, je_referenceId = ji_referenceId j\<rparr>],
              db_postings := db_postings s @ map (mk_posting e) (ji_postings j)\<rparr>)"
  by (auto simp: post_def Let_def err_simps)

lemma ledger_inv_ensure: "ledger_inv s \<Longrightarrow> ledger_inv (ensureAccountLedger i u s)"
  using codes_upsert distinct_upsert
  by (fastforce simp: ledger_inv_def ensureAccountLedger_def)

lemma ledger_inv_post:
  assumes "post j s = Inr (e, s')" "ledger_inv s"
  shows "ledger_inv s'"
proof -
  let ?c = "map la_code (filter (\<lambda>a. la_code a \<in> pi_code ` set (ji_postings j)) (db_ledgerAccounts s))"
  obtain las where las: "create_missing (ji_postings j) ?c (db_ledgerAccounts s) = Inr las"
    and sums: "sum_direction Debit (ji_postings j) = sum_direction Credit (ji_postings j)"
    and e: "e = length (db_journal s)"
    and s': "db_ledgerAccounts s' = las" "length (db_journal s') = Suc (length (db_journal s))"
      "db_postings s' = db_postings s @ map (mk_posting e) (ji_postings j)"
    using assms(1) by (auto simp: post_eq_Inr)
  have codes: "la_code ` set (db_ledgerAccounts s) \<subseteq> la_code ` set las"
    "pi_code ` set (ji_postings j) \<subseteq> la_code ` set las"
    using create_missing_codes [OF las] by auto
  have "distinct (map la_code las)"
    using create_missing_distinct [OF las] assms(2) by (auto simp: ledger_inv_def)
  moreover have "\<forall>p \<in> set (db_postings s'). p_code p \<in> la_code ` set las \<and> p_entry p < length (db_journal s')"
  proof
    fix p assume "p \<in> set (db_postings s')"
    then consider (old) "p \<in> set (db_postings s)"
      | (new) q where "q \<in> set (ji_postings j)" "p = mk_posting e q" using s' by auto
    then show "p_code p \<in> la_code ` set las \<and> p_entry p < length (db_journal s')"
    proof cases
      case old
      then have "p_code p \<in> la_code ` set (db_ledgerAccounts s)" "p_entry p < length (db_journal s)"
        using assms(2) by (auto simp: ledger_inv_def)
      then show ?thesis using codes(1) s' by auto
    next
      case new
      then show ?thesis using codes(2) s' e by auto
    qed
  qed
  moreover have "entry_sum k (db_postings s') = 0" for k
    using assms(2) sums s' by (simp add: ledger_inv_def entry_sum_append entry_sum_map_mk)
  ultimately show ?thesis by (simp add: ledger_inv_def s')
qed

lemma drift_cong:
  assumes "db_accounts s' = update_many (\<lambda>a. a_id a = i)
             (\<lambda>a. a\<lparr>a_balanceCents := a_balanceCents a + d\<rparr>) (db_accounts s)"
    and "db_postings s' = db_postings s @ ps"
    and "net (accountSubLedgerCode i) ps = d"
    and "\<And>k. k \<noteq> i \<Longrightarrow> net (accountSubLedgerCode k) ps = 0"
  shows "drift s' k = drift s k"
  using assms
  by (cases "k = i") (auto simp: drift_def net_of_def ledger_simps table_simps option.map_comp o_def)

lemma drift_same:
  "db_accounts s' = db_accounts s \<Longrightarrow> db_postings s' = db_postings s \<Longrightarrow> drift s' k = drift s k"
  by (simp add: drift_def net_of_def)

lemma ledger_inv_cong:
  "db_ledgerAccounts s' = db_ledgerAccounts s \<Longrightarrow> db_postings s' = db_postings s \<Longrightarrow>
   db_journal s' = db_journal s \<Longrightarrow> ledger_inv s' = ledger_inv s"
  by (simp add: ledger_inv_def)

lemma ensureAccountLedger_sel [simp]:
  "db_accounts (ensureAccountLedger i u s) = db_accounts s"
  "db_postings (ensureAccountLedger i u s) = db_postings s"
  "db_journal (ensureAccountLedger i u s) = db_journal s"
  "db_transactions (ensureAccountLedger i u s) = db_transactions s"
  "db_transfers (ensureAccountLedger i u s) = db_transfers s"
  "db_users (ensureAccountLedger i u s) = db_users s"
  "db_overrides (ensureAccountLedger i u s) = db_overrides s"
  "db_beneficiaries (ensureAccountLedger i u s) = db_beneficiaries s"
  "db_linkedAccounts (ensureAccountLedger i u s) = db_linkedAccounts s"
  "db_audit (ensureAccountLedger i u s) = db_audit s"
  "bus (ensureAccountLedger i u s) = bus s" "mails (ensureAccountLedger i u s) = mails s"
  "jobs (ensureAccountLedger i u s) = jobs s"
  by (simp_all add: ensureAccountLedger_def)

lemma ensureAccountLedger_codes [simp]:
  "la_code ` set (db_ledgerAccounts (ensureAccountLedger i u s)) =
     insert (accountSubLedgerCode i) (la_code ` set (db_ledgerAccounts s))"
  using codes_upsert [of "\<lparr>la_code = accountSubLedgerCode i, la_type = Liability,
      la_normalBalance = Credit, la_ownerUserId = Some u\<rparr>" "db_ledgerAccounts s"]
  by (simp add: ensureAccountLedger_def)

text \<open>A journal entry whose codes all exist is always accepted when it balances.\<close>

lemma create_missing_known:
  "pi_code ` set ps \<subseteq> set byCode \<Longrightarrow> create_missing ps byCode t = Inr t"
  by (induction ps byCode t rule: create_missing.induct) auto

lemma post_known:
  assumes "2 \<le> length (ji_postings j)"
    and "sum_direction Debit (ji_postings j) = sum_direction Credit (ji_postings j)"
    and "pi_code ` set (ji_postings j) \<subseteq> la_code ` set (db_ledgerAccounts s)"
  shows "\<exists>s'. post j s = Inr (length (db_journal s), s')"
proof -
  let ?c = "map la_code (filter (\<lambda>a. la_code a \<in> pi_code ` set (ji_postings j)) (db_ledgerAccounts s))"
  have "pi_code ` set (ji_postings j) \<subseteq> set ?c"
  proof
    fix c assume c: "c \<in> pi_code ` set (ji_postings j)"
    then obtain a where "a \<in> set (db_ledgerAccounts s)" "c = la_code a" using assms(3) by blast
    with c show "c \<in> set ?c" by auto
  qed
  then have "create_missing (ji_postings j) ?c (db_ledgerAccounts s) = Inr (db_ledgerAccounts s)"
    by (rule create_missing_known)
  then show ?thesis using assms(1,2) by (auto simp: post_eq_Inr)
qed

lemma post_frame:
  assumes "post j s = Inr (e, s')"
  shows "db_accounts s' = db_accounts s" "db_transactions s' = db_transactions s"
    "db_transfers s' = db_transfers s" "db_users s' = db_users s" "db_overrides s' = db_overrides s"
    "db_beneficiaries s' = db_beneficiaries s" "db_linkedAccounts s' = db_linkedAccounts s"
    "db_audit s' = db_audit s" "bus s' = bus s" "mails s' = mails s" "jobs s' = jobs s"
    "db_postings s' = db_postings s @ map (mk_posting (length (db_journal s))) (ji_postings j)"
  using assms by (auto simp: post_eq_Inr)

lemma post_codes:
  assumes "post j s = Inr (e, s')"
  shows "la_code ` set (db_ledgerAccounts s) \<subseteq> la_code ` set (db_ledgerAccounts s')"
proof -
  let ?c = "map la_code (filter (\<lambda>a. la_code a \<in> pi_code ` set (ji_postings j)) (db_ledgerAccounts s))"
  obtain las where "create_missing (ji_postings j) ?c (db_ledgerAccounts s) = Inr las"
    "db_ledgerAccounts s' = las" using assms by (auto simp: post_eq_Inr)
  then show ?thesis using create_missing_codes [of "ji_postings j" ?c "db_ledgerAccounts s" las] by auto
qed

text \<open>The contract a journal offers the services that move money.\<close>

locale journal =
  fixes book :: "journal_input \<Rightarrow> bank \<Rightarrow> (nat \<times> bank) result"
  assumes book_inv: "book j s = Inr (e, s') \<Longrightarrow> ledger_inv s \<Longrightarrow> ledger_inv s'"
    and book_net: "book j s = Inr (e, s') \<Longrightarrow> net_of s' c = net_of s c + input_net c (ji_postings j)"
    and book_accounts: "book j s = Inr (e, s') \<Longrightarrow> db_accounts s' = db_accounts s"
    and book_needs_balance:
      "book j s = Inr (e, s') \<Longrightarrow>
         sum_direction Debit (ji_postings j) = sum_direction Credit (ji_postings j)"
begin

lemma book_drift:
  "book j s = Inr (e, s') \<Longrightarrow>
     drift s' i = map_option (\<lambda>d. d - input_net (accountSubLedgerCode i) (ji_postings j)) (drift s i)"
  by (cases "account_of s i") (simp_all add: drift_def book_accounts book_net)

lemma book_and_credit_drift:
  assumes "book j s = Inr (e, s1)" "credit_account i d s1 = Inr s2"
    and "\<And>k. input_net (accountSubLedgerCode k) (ji_postings j) = (if k = i then d else 0)"
  shows "drift s2 k = drift s k"
proof (cases "account_of s k")
  case None
  then show ?thesis using assms(2)
    by (auto simp: drift_def err_simps table_simps book_accounts [OF assms(1)])
next
  case (Some a)
  have "net_of s2 (accountSubLedgerCode k) = net_of s (accountSubLedgerCode k) + (if k = i then d else 0)"
    using assms(2) book_net [OF assms(1), of "accountSubLedgerCode k"] assms(3)
    by (auto simp: err_simps net_of_def)
  then show ?thesis using Some assms(2)
    by (auto simp: drift_def err_simps table_simps book_accounts [OF assms(1)])
qed

end

interpretation ledger: journal post
proof unfold_locales
  fix j s e s' c
  assume p: "post j s = Inr (e, s')"
  show "ledger_inv s \<Longrightarrow> ledger_inv s'" by (rule ledger_inv_post [OF p])
  show "net_of s' c = net_of s c + input_net c (ji_postings j)"
    using p by (auto simp: post_eq_Inr net_of_def ledger_simps)
  show "db_accounts s' = db_accounts s" using p by (auto simp: post_eq_Inr)
  show "sum_direction Debit (ji_postings j) = sum_direction Credit (ji_postings j)"
    using p by (simp add: post_eq_Inr)
qed

text \<open>The nightly report balances whenever the invariant holds.\<close>

lemma sum_list_indicator:
  "distinct cs \<Longrightarrow> c \<in> set cs \<Longrightarrow> sum_list (map (\<lambda>d. if c = d then x else (0::int)) cs) = x"
proof (induction cs)
  case (Cons d cs)
  have none: "c \<notin> set ds \<Longrightarrow> sum_list (map (\<lambda>d. if c = d then x else (0::int)) ds) = 0" for ds
    by (induction ds) auto
  show ?case using Cons none [of cs] by (cases "c = d") auto
qed simp

lemma sum_over_codes:
  assumes "distinct cs" "\<forall>p \<in> set ps. p_code p \<in> set cs"
  shows "sum_list (map (\<lambda>c. sum_list (map f (filter (\<lambda>p. p_code p = c) ps))) cs) =
           sum_list (map (f :: posting \<Rightarrow> int) ps)"
  using assms
proof (induction ps)
  case (Cons p ps)
  have "sum_list (map (\<lambda>c. sum_list (map f (filter (\<lambda>p. p_code p = c) (p # ps)))) cs) =
        sum_list (map (\<lambda>c. (if p_code p = c then f p else 0) +
                           sum_list (map f (filter (\<lambda>p. p_code p = c) ps))) cs)"
    by (intro arg_cong [where f = sum_list] map_cong) auto
  also have "\<dots> = sum_list (map (\<lambda>c. if p_code p = c then f p else 0) cs) + sum_list (map f ps)"
    using Cons by (simp add: sum_list_addf)
  also have "sum_list (map (\<lambda>c. if p_code p = c then f p else 0) cs) = f p"
    using Cons.prems by (intro sum_list_indicator) auto
  finally show ?case by simp
qed (simp add: sum_list_0)

lemma sum_list_sort_key: "sum_list (map f (sort_key k xs)) = sum_list (map (f :: 'a \<Rightarrow> int) xs)"
proof -
  have "mset (map f (sort_key k xs)) = mset (map f xs)" by simp
  then show ?thesis by (metis sum_mset_sum_list)
qed

lemma posted_sum_total:
  assumes "ledger_inv s"
  shows "sum_list (map (\<lambda>la. posted_sum d (la_code la) (db_postings s)) (db_ledgerAccounts s)) =
           sum_list (map (\<lambda>p. if p_direction p = d then p_amountCents p else 0) (db_postings s))"
  using sum_over_codes [of "map la_code (db_ledgerAccounts s)" "db_postings s"
      "\<lambda>p. if p_direction p = d then p_amountCents p else 0"] assms
  by (simp add: ledger_inv_def posted_sum_def o_def)

lemma signed_total_zero:
  assumes "\<forall>p \<in> set ps. p_entry p < n" "\<forall>e. entry_sum e ps = 0"
  shows "sum_list (map signed ps) = 0"
proof -
  have "sum_list (map signed (filter (\<lambda>p. p_entry p < k) ps)) = 0" for k
  proof (induction k)
    case (Suc k)
    have "sum_list (map signed (filter (\<lambda>p. p_entry p < Suc k) qs)) =
          sum_list (map signed (filter (\<lambda>p. p_entry p < k) qs)) + entry_sum k qs" for qs
      by (induction qs) (auto simp: entry_sum_def less_Suc_eq)
    then show ?case using Suc assms(2) by simp
  qed simp
  then show ?thesis using assms(1) by (metis (no_types, lifting) filter_True)
qed

lemma trial_balance_balanced:
  assumes "ledger_inv s"
  shows "fst (computeAndReport s) \<and> fst (snd (computeAndReport s)) = 0"
proof -
  have tot: "fold (\<lambda>r a. a + f r) (trial_balance_rows s) 0 =
      sum_list (map f (trial_balance_rows s))" for f :: "trial_balance_row \<Rightarrow> int"
    by (simp add: fold_add_int)
  have "sum_list (map tb_credits (trial_balance_rows s)) - sum_list (map tb_debits (trial_balance_rows s))
      = sum_list (map signed (db_postings s))"
  proof -
    have "sum_list (map (\<lambda>p. if p_direction p = Credit then p_amountCents p else 0) ps) -
        sum_list (map (\<lambda>p. if p_direction p = Debit then p_amountCents p else 0) ps) =
        sum_list (map signed ps)" for ps
    proof (induction ps)
      case (Cons p ps)
      then show ?case by (cases "p_direction p") (auto simp: signed_def)
    qed simp
    then show ?thesis
      using posted_sum_total [OF assms, of Credit] posted_sum_total [OF assms, of Debit]
      by (simp add: trial_balance_rows_def sum_list_sort_key o_def)
  qed
  also have "\<dots> = 0"
    using assms by (intro signed_total_zero [where n = "length (db_journal s)"]) (auto simp: ledger_inv_def)
  finally show ?thesis by (simp add: computeAndReport_def Let_def tot)
qed

text \<open>The abstract ledger: a function from codes to amounts, on which an entry acts by adding what it
  credits and subtracting what it debits. The journal implements it.\<close>

definition abs_post :: "posting_input list \<Rightarrow> (string \<Rightarrow> int) \<Rightarrow> string \<Rightarrow> int" where
  "abs_post ps m c = m c + sum_list (map pi_amountCents (filter (\<lambda>p. pi_code p = c \<and> pi_direction p = Credit) ps))
                         - sum_list (map pi_amountCents (filter (\<lambda>p. pi_code p = c \<and> pi_direction p = Debit) ps))"

lemma input_net_sums:
  "input_net c ps = sum_list (map pi_amountCents (filter (\<lambda>p. pi_code p = c \<and> pi_direction p = Credit) ps))
     - sum_list (map pi_amountCents (filter (\<lambda>p. pi_code p = c \<and> pi_direction p = Debit) ps))"
proof (induction ps)
  case (Cons p ps)
  then show ?case by (cases "pi_direction p") (auto simp: ledger_simps)
qed (simp add: ledger_simps)

lemma total_net_zero:
  assumes "ledger_inv s"
  shows "sum_list (map (\<lambda>la. net_of s (la_code la)) (db_ledgerAccounts s)) = 0"
proof -
  have "sum_list (map (\<lambda>la. net_of s (la_code la)) (db_ledgerAccounts s)) = sum_list (map signed (db_postings s))"
    using sum_over_codes [of "map la_code (db_ledgerAccounts s)" "db_postings s" signed] assms
    by (simp add: ledger_inv_def net_of_def net_def o_def)
  also have "\<dots> = 0"
    using assms by (intro signed_total_zero [where n = "length (db_journal s)"]) (auto simp: ledger_inv_def)
  finally show ?thesis .
qed

text \<open>C5. The journal refines the abstract ledger: an accepted entry changes the amounts of the ledger
  accounts exactly as the abstract entry does, an entry is accepted only if it adds nothing to the
  sum over all accounts, and in every state the amounts of all accounts sum to zero.\<close>

theorem post_refines_abs_post:
  assumes "post j s = Inr (e, s')" "ledger_inv s"
  shows "net_of s' = abs_post (ji_postings j) (net_of s) \<and>
         sum_list (map (\<lambda>la. net_of s' (la_code la)) (db_ledgerAccounts s')) = 0"
proof -
  have "net_of s' c = abs_post (ji_postings j) (net_of s) c" for c
    using ledger.book_net [OF assms(1), of c] by (simp add: abs_post_def input_net_sums)
  then show ?thesis using total_net_zero ledger.book_inv [OF assms] by blast
qed

text \<open>The daily trial balance reports no drift in every state that satisfies the ledger
  invariant: the totals it adds up row by row, over the ledger accounts, agree.\<close>

theorem trial_balance_reports_balanced:
  assumes "ledger_inv s"
  shows "fst (computeAndReport s) \<and> fst (snd (computeAndReport s)) = 0"
  using trial_balance_balanced [OF assms] .

text \<open>A ledger with one entry of one dollar moved from cash to a customer account.\<close>

definition sample_ledger :: bank where
  "sample_ledger = ensureAccountLedger ''a1'' ''u1'' (ensureSystemAccounts empty_bank)"

definition sample_entry :: journal_input where
  "sample_entry = \<lparr>ji_description = ''Seed'', ji_occurredAt = 0, ji_source = ''seed'', ji_referenceId = None,
     ji_postings = [\<lparr>pi_code = Cash, pi_direction = Debit, pi_amountCents = 100, pi_meta = None\<rparr>,
       \<lparr>pi_code = accountSubLedgerCode ''a1'', pi_direction = Credit, pi_amountCents = 100, pi_meta = None\<rparr>]\<rparr>"

lemma ledger_inv_sample: "ledger_inv sample_ledger"
  by (simp add: sample_ledger_def ensureAccountLedger_def ensureSystemAccounts_def empty_bank_def
      SYSTEM_LEDGER_SEEDS_def upsert_ledger_account_def ledger_inv_def entry_sum_def
      accountSubLedgerCode_def system_code_defs)

theorem trial_balance_witness:
  "case post sample_entry sample_ledger of
     Inl _ \<Rightarrow> False
   | Inr (e, s) \<Rightarrow> fst (computeAndReport s) \<and> length (db_postings s) = 2"
proof -
  have "2 \<le> length (ji_postings sample_entry)"
    "sum_direction Debit (ji_postings sample_entry) = sum_direction Credit (ji_postings sample_entry)"
    "pi_code ` set (ji_postings sample_entry) \<subseteq> la_code ` set (db_ledgerAccounts sample_ledger)"
    by (simp_all add: sample_entry_def sum_direction_def sample_ledger_def ensureSystemAccounts_def
        SYSTEM_LEDGER_SEEDS_def upsert_ledger_account_def empty_bank_def system_code_defs)
  then obtain e s where p: "post sample_entry sample_ledger = Inr (e, s)"
    using post_known by blast
  then have "ledger_inv s" using ledger_inv_post ledger_inv_sample by blast
  moreover have "length (db_postings s) = 2"
    using p by (simp add: post_frame(12) [OF p] sample_entry_def sample_ledger_def
        ensureSystemAccounts_def empty_bank_def)
  ultimately show ?thesis using p trial_balance_reports_balanced [of s] by simp
qed

end
