(* ===== verification/Quote.thy ===== *)
theory Quote
  imports Ledger
begin

text \<open>
  Pricing of a transfer (\<^verbatim>\<open>transfers/quote.util.ts\<close>): the amount limits, the instant fee in basis
  points with its floor, and the flat wire fees.
\<close>

datatype wire_scope = Domestic | International

record quote_result =
  q_valid :: bool
  q_feeCents :: int
  q_etaText :: string
  q_minAmountCents :: int
  q_maxAmountCents :: int
  q_reason :: "string option"

record quote_params =
  qp_kind :: transfer_kind
  qp_amountCents :: int
  qp_instant :: bool
  qp_minCents :: int
  qp_maxCents :: int
  qp_instantFeeBps :: int
  qp_instantFeeMinCents :: int
  qp_wireScope :: "wire_scope option"

fun WIRE_FEE_CENTS :: "wire_scope \<Rightarrow> int" where
  "WIRE_FEE_CENTS Domestic = 350"
| "WIRE_FEE_CENTS International = 460"

definition externalKinds :: "transfer_kind list" where
  "externalKinds = [AchIn, AchOut, WireIn, WireOut, P2P]"

text \<open>The en dash and the middle dot of the delivery estimates are written in ASCII.\<close>

definition computeQuote :: "quote_params \<Rightarrow> quote_result" where
  "computeQuote p =
     (let result = \<lparr>q_valid = True, q_feeCents = 0, q_etaText = '''',
                    q_minAmountCents = qp_minCents p, q_maxAmountCents = qp_maxCents p,
                    q_reason = None\<rparr>
      in if qp_amountCents p < qp_minCents p
         then result\<lparr>q_valid := False,
                q_reason := Some (''Minimum transfer is '' @ fixed2 (qp_minCents p))\<rparr>
         else if qp_amountCents p > qp_maxCents p
         then result\<lparr>q_valid := False,
                q_reason := Some (''Maximum transfer is '' @ fixed2 (qp_maxCents p))\<rparr>
         else
           (let isExternal = (qp_kind p \<in> set externalKinds);
                eligibleForInstant = isExternal
            in if qp_instant p \<and> \<not> eligibleForInstant
               then result\<lparr>q_valid := False,
                      q_reason := Some ''Instant not available for internal transfers''\<rparr>
               else if qp_instant p
               then (let calc = js_div (qp_amountCents p * qp_instantFeeBps p) 10000
                     in result\<lparr>q_feeCents := (if calc > qp_instantFeeMinCents p then calc
                                              else qp_instantFeeMinCents p),
                               q_etaText := ''Within minutes''\<rparr>)
               else if qp_kind p = WireOut
               then (let scope = (case qp_wireScope p of None \<Rightarrow> Domestic | Some sc \<Rightarrow> sc)
                     in result\<lparr>q_feeCents := WIRE_FEE_CENTS scope,
                               q_etaText := (if scope = International
                                 then ''1-3 business days, international''
                                 else ''Same business day, domestic'')\<rparr>)
               else if isExternal then result\<lparr>q_etaText := ''1-3 business days''\<rparr>
               else result\<lparr>q_etaText := ''Instant''\<rparr>))"

lemma quote_valid_bounds:
  "q_valid (computeQuote p) \<Longrightarrow> qp_minCents p \<le> qp_amountCents p \<and> qp_amountCents p \<le> qp_maxCents p"
  by (auto simp: computeQuote_def Let_def split: if_splits)

lemma quote_valid_iff:
  "q_valid (computeQuote p) \<longleftrightarrow>
     qp_minCents p \<le> qp_amountCents p \<and> qp_amountCents p \<le> qp_maxCents p \<and>
     \<not> (qp_instant p \<and> qp_kind p = Internal)"
  by (cases "qp_kind p") (auto simp: computeQuote_def Let_def externalKinds_def)

lemma quote_fee:
  assumes "q_valid (computeQuote p)"
  shows "q_feeCents (computeQuote p) =
           (if qp_instant p
            then max (js_div (qp_amountCents p * qp_instantFeeBps p) 10000) (qp_instantFeeMinCents p)
            else if qp_kind p = WireOut
            then WIRE_FEE_CENTS (case qp_wireScope p of None \<Rightarrow> Domestic | Some sc \<Rightarrow> sc)
            else 0)"
proof -
  have ok: "\<not> qp_amountCents p < qp_minCents p" "\<not> qp_amountCents p > qp_maxCents p"
    "\<not> (qp_instant p \<and> qp_kind p \<notin> set externalKinds)"
    using assms by (simp_all add: computeQuote_def Let_def split: if_splits)
  then show ?thesis
    by (simp add: computeQuote_def Let_def max_def)
qed

lemma WIRE_FEE_nonneg [simp]: "0 \<le> WIRE_FEE_CENTS sc"
  by (cases sc) simp_all

lemma quote_fee_nonneg:
  assumes "0 \<le> qp_instantFeeMinCents p"
  shows "0 \<le> q_feeCents (computeQuote p)"
  using assms by (simp add: computeQuote_def Let_def)

text \<open>A quote is valid exactly when the amount lies within the limits and instant delivery
  is not asked of an internal transfer; its fee is never negative, and for an instant transfer it is
  the larger of the floor and the truncated basis-point share of the amount, so it never exceeds
  the amount when the rate is at most 100% and the floor is at most the minimum.\<close>

theorem quote_fee_bounded:
  assumes "q_valid (computeQuote p)"
    and "0 \<le> qp_instantFeeMinCents p" and "0 \<le> qp_instantFeeBps p" and "qp_instantFeeBps p \<le> 10000"
    and "qp_instantFeeMinCents p \<le> qp_minCents p" and "460 \<le> qp_minCents p"
  shows "0 \<le> q_feeCents (computeQuote p) \<and> q_feeCents (computeQuote p) \<le> qp_amountCents p"
proof -
  have amt: "qp_minCents p \<le> qp_amountCents p" "0 \<le> qp_amountCents p"
    using quote_valid_bounds [OF assms(1)] assms(6) by auto
  have "qp_amountCents p * qp_instantFeeBps p \<le> qp_amountCents p * 10000"
    using amt(2) assms(4) by (simp add: mult_left_mono)
  then have "js_div (qp_amountCents p * qp_instantFeeBps p) 10000 \<le> qp_amountCents p"
    using amt(2) assms(3) by (simp add: js_div_nonneg)
  moreover have "WIRE_FEE_CENTS sc \<le> qp_amountCents p" for sc
    using amt(1) assms(6) by (cases sc) auto
  ultimately show ?thesis
    using quote_fee [OF assms(1)] quote_fee_nonneg [OF assms(2)] amt assms(5) by auto
qed

end
