(* ===== verification/Js_Number.thy ===== *)
theory Js_Number
  imports Bank_Prelude
begin

text \<open>
  The JavaScript \<open>Number\<close> arithmetic the FX service uses: IEEE-754 binary64 rounding to nearest,
  ties to even, on rationals. The exponent is unbounded, which agrees with binary64 for results
  between \<open>2 ^ -1022\<close> and \<open>2 ^ 1024\<close>; every operation of the source is one exact operation
  followed by \<open>fl\<close>. \<open>Math.round\<close> rounds halves up.
\<close>

fun ilog2 :: "nat \<Rightarrow> nat" where
  "ilog2 n = (if n < 2 then 0 else Suc (ilog2 (n div 2)))"

declare ilog2.simps [simp del]

definition pow2 :: "int \<Rightarrow> rat" where
  "pow2 k = (if 0 \<le> k then 2 ^ nat k else 1 / 2 ^ nat (- k))"

text \<open>The exponent \<open>e\<close> with \<open>2 ^ e \<le> x < 2 ^ (e + 1)\<close> of a positive rational.\<close>

definition expo :: "rat \<Rightarrow> int" where
  "expo x = (let (n, d) = quotient_of x;
                 e = int (ilog2 (nat n)) - int (ilog2 (nat d))
             in if pow2 e \<le> x then e else e - 1)"

definition round_half_even :: "rat \<Rightarrow> int" where
  "round_half_even x =
     (let r = \<lfloor>x\<rfloor>; f = x - of_int r
      in if f < 1 / 2 then r else if 1 / 2 < f then r + 1 else if even r then r else r + 1)"

definition fl :: "rat \<Rightarrow> rat" where
  "fl x = (if x = 0 then 0
           else let u = pow2 (expo \<bar>x\<bar> - 52) in of_int (round_half_even (x / u)) * u)"

definition js_round :: "rat \<Rightarrow> int" where
  "js_round x = \<lfloor>x + 1 / 2\<rfloor>"

definition js_mult :: "rat \<Rightarrow> rat \<Rightarrow> rat" where
  "js_mult x y = fl (x * y)"

definition js_divide :: "rat \<Rightarrow> rat \<Rightarrow> rat" where
  "js_divide x y = fl (x / y)"

section \<open>The rounding error\<close>

lemma ilog2_bounds: "0 < n \<Longrightarrow> 2 ^ ilog2 n \<le> n \<and> n < 2 ^ Suc (ilog2 n)"
proof (induction n rule: ilog2.induct)
  case (1 n)
  show ?case
  proof (cases "n < 2")
    case True
    with "1.prems" show ?thesis by (simp add: ilog2.simps)
  next
    case False
    then have "2 ^ ilog2 (n div 2) \<le> n div 2" "n div 2 < 2 ^ Suc (ilog2 (n div 2))"
      using "1.IH" by simp_all
    with False show ?thesis by (auto simp: ilog2.simps [of n])
  qed
qed

lemma pow2_pos [simp]: "0 < pow2 k"
  by (simp add: pow2_def)

lemma pow2_nonzero [simp]: "pow2 k \<noteq> 0"
  using pow2_pos [of k] by linarith

lemma pow2_nonneg [simp]: "0 \<le> pow2 k"
  by (simp add: less_imp_le)

lemma abs_pow2 [simp]: "\<bar>pow2 k\<bar> = pow2 k"
  by (simp add: less_imp_le)

lemma pow2_diff_nat: "pow2 (int a - int b) = 2 ^ a / 2 ^ b"
proof (cases "b \<le> a")
  case True
  then have "(2::rat) ^ a = 2 ^ (a - b) * 2 ^ b" by (simp flip: power_add)
  then show ?thesis using True by (simp add: pow2_def nat_diff_distrib')
next
  case False
  then have "(2::rat) ^ b = 2 ^ (b - a) * 2 ^ a" by (simp flip: power_add)
  then show ?thesis using False by (simp add: pow2_def nat_diff_distrib')
qed

lemma pow2_sub_nat: "pow2 (k - int n) = pow2 k / 2 ^ n"
proof (cases "0 \<le> k")
  case True
  then show ?thesis using pow2_diff_nat [of "nat k" n] by (simp add: pow2_def)
next
  case False
  then have "nat (- (k - int n)) = nat (- k) + n" by simp
  with False show ?thesis by (simp add: pow2_def power_add)
qed

lemma expo_lower: "0 < x \<Longrightarrow> pow2 (expo x) \<le> x"
proof -
  assume x: "0 < x"
  obtain n d where q: "quotient_of x = (n, d)" by (cases "quotient_of x")
  have d: "0 < d" and xnd: "x = of_int n / of_int d"
    using quotient_of_denom_pos [OF q] quotient_of_div [OF q] by auto
  have n: "0 < n" using x d xnd by (simp add: zero_less_divide_iff)
  let ?a = "ilog2 (nat n)" and ?b = "ilog2 (nat d)"
  have "2 ^ ?a \<le> nat n" "nat d < 2 ^ Suc ?b"
    using ilog2_bounds [of "nat n"] ilog2_bounds [of "nat d"] n d by auto
  then have "int (2 ^ ?a) \<le> n" "d < int (2 ^ Suc ?b)"
    using n d by (auto simp: le_nat_iff nat_less_iff)
  then have le: "(of_int (2 ^ ?a) :: rat) \<le> of_int n" "(of_int d :: rat) \<le> of_int (2 ^ Suc ?b)"
    unfolding of_int_le_iff by simp_all
  have "(2::rat) ^ ?a / 2 ^ Suc ?b \<le> of_int n / of_int d"
    using le n d by (intro frac_le) auto
  then have "pow2 (int ?a - int ?b - 1) \<le> x"
    using pow2_diff_nat [of ?a "Suc ?b"] xnd by (simp add: algebra_simps)
  then show ?thesis by (simp add: expo_def q Let_def)
qed

lemma round_half_even_error: "\<bar>of_int (round_half_even x) - x\<bar> \<le> 1 / 2"
proof -
  define r where "r = \<lfloor>x\<rfloor>"
  have "of_int r \<le> x" "x < of_int r + 1" unfolding r_def by linarith+
  then show ?thesis
    unfolding round_half_even_def Let_def r_def [symmetric] by (auto simp: abs_le_iff)
qed

lemma fl_error: "\<bar>fl x - x\<bar> \<le> \<bar>x\<bar> / 2 ^ 53"
proof (cases "x = 0")
  case False
  let ?e = "expo \<bar>x\<bar>" and ?u = "pow2 (expo \<bar>x\<bar> - 52)"
  have u: "0 < ?u" by simp
  have "fl x - x = (of_int (round_half_even (x / ?u)) - x / ?u) * ?u"
    using False u by (simp add: fl_def Let_def algebra_simps)
  then have "\<bar>fl x - x\<bar> = \<bar>of_int (round_half_even (x / ?u)) - x / ?u\<bar> * ?u"
    using u by (simp add: abs_mult)
  also have "\<dots> \<le> 1 / 2 * ?u"
    using u by (intro mult_right_mono round_half_even_error) simp
  also have "\<dots> = pow2 ?e / 2 ^ 53" using pow2_sub_nat [of ?e 52] by simp
  also have "\<dots> \<le> \<bar>x\<bar> / 2 ^ 53" using expo_lower [of "\<bar>x\<bar>"] False by (simp add: divide_right_mono)
  finally show ?thesis .
qed (simp add: fl_def)

lemma fl_pos: "0 < x \<Longrightarrow> 0 < fl x"
proof -
  assume x: "0 < x"
  have "\<bar>fl x - x\<bar> \<le> x / 2 ^ 53" using fl_error [of x] x by simp
  moreover have "x / 2 ^ 53 < x" using x by simp
  ultimately show ?thesis by linarith
qed

lemma js_round_near: "\<bar>x - of_int n\<bar> < 1 / 2 \<Longrightarrow> js_round x = n"
  by (simp add: js_round_def floor_eq_iff abs_if split: if_splits)

end
