(* ===== verification/Fx.thy ===== *)
theory Fx
  imports Js_Number Schema
begin

text \<open>
  Foreign exchange (\<^verbatim>\<open>fx/fx.constants.ts\<close>, \<^verbatim>\<open>fx/fx.service.ts\<close>): the supported currencies with their
  minor-unit exponents and pegged rates, the cached rate table with its fallback, the cross rate and
  the conversion. What the public rate feed answers is a parameter (\<open>None\<close> for a failed request).
  Currency codes are strings; rates are binary64 values.
\<close>

definition SUPPORTED_CURRENCIES :: "string list" where
  "SUPPORTED_CURRENCIES = [''USD'', ''BHD'', ''SAR'', ''AED'', ''KWD'', ''OMR'', ''QAR'', ''JOD'',
     ''EUR'', ''GBP'', ''CNY'']"

definition isSupportedCurrency :: "string \<Rightarrow> bool" where
  "isSupportedCurrency code = (code \<in> set SUPPORTED_CURRENCIES)"

definition CURRENCY_DECIMALS :: "string \<Rightarrow> nat" where
  "CURRENCY_DECIMALS c = (if c \<in> {''BHD'', ''KWD'', ''OMR'', ''JOD''} then 3 else 2)"

text \<open>The decimal literals of the table as binary64 values.\<close>

definition PEG_RATES_PER_USD :: "string \<Rightarrow> rat" where
  "PEG_RATES_PER_USD c =
     (if c = ''USD'' then 1
      else if c = ''BHD'' then fl (376 / 1000)
      else if c = ''SAR'' then fl (375 / 100)
      else if c = ''AED'' then fl (36725 / 10000)
      else if c = ''KWD'' then fl (3072 / 10000)
      else if c = ''OMR'' then fl (3845 / 10000)
      else if c = ''QAR'' then fl (364 / 100)
      else if c = ''JOD'' then fl (709 / 1000)
      else if c = ''EUR'' then fl (92 / 100)
      else if c = ''GBP'' then fl (79 / 100)
      else fl (72 / 10))"

record rate_table =
  rt_perUsd :: "(string \<times> rat) list"
  rt_asOf :: int
  rt_source :: rate_source

record fx_rate =
  fr_from :: string
  fr_to :: string
  fr_rate :: rat
  fr_asOf :: int
  fr_source :: rate_source

record fx_conversion =
  fc_rate :: fx_rate
  fc_fromAmountMinor :: int
  fc_toAmountMinor :: int

record fx_state =
  fx_cache :: "rate_table option"
  fx_fetchedAtMs :: int

record feed_answer =
  fd_result :: string
  fd_rates :: "(string \<times> rat) list option"
  fd_time :: "int option"

definition ttlMs :: int where "ttlMs = 60 * 60 * 1000"

definition pegTable :: rate_table where
  "pegTable = \<lparr>rt_perUsd = map (\<lambda>c. (c, PEG_RATES_PER_USD c)) SUPPORTED_CURRENCIES,
     rt_asOf = 0, rt_source = RatePeg\<rparr>"

definition cacheFresh :: "int \<Rightarrow> fx_state \<Rightarrow> bool" where
  "cacheFresh now st = (fx_cache st \<noteq> None \<and> now - fx_fetchedAtMs st < ttlMs)"

definition usable_answer :: "feed_answer option \<Rightarrow> (feed_answer \<times> (string \<times> rat) list) option" where
  "usable_answer a =
     (case a of None \<Rightarrow> None
      | Some f \<Rightarrow>
          (case fd_rates f of None \<Rightarrow> None
           | Some rs \<Rightarrow>
               if fd_result f \<noteq> ''success'' \<or> map_of rs ''USD'' = None \<or> map_of rs ''USD'' = Some 0
               then None else Some (f, rs)))"

definition loadTable :: "int \<Rightarrow> feed_answer option \<Rightarrow> fx_state \<Rightarrow> rate_table \<times> fx_state" where
  "loadTable now answer st =
     (if cacheFresh now st then (the (fx_cache st), st)
      else case usable_answer answer of
          Some (f, rs) \<Rightarrow>
            (let table = \<lparr>rt_perUsd = rs,
                          rt_asOf = (case fd_time f of Some t \<Rightarrow> t | None \<Rightarrow> now),
                          rt_source = RateLive\<rparr>
             in (table, \<lparr>fx_cache = Some table, fx_fetchedAtMs = now\<rparr>))
        | None \<Rightarrow> (pegTable, \<lparr>fx_cache = Some pegTable, fx_fetchedAtMs = now\<rparr>))"

definition assertCurrency :: "string \<Rightarrow> string result" where
  "assertCurrency code =
     (if isSupportedCurrency code then Inr code else Inl (BadRequest (''UNSUPPORTED_CURRENCY:'' @ code)))"

definition perUsd :: "rate_table \<Rightarrow> string \<Rightarrow> rat \<times> bool" where
  "perUsd table c =
     (case map_of (rt_perUsd table) c of
        Some live \<Rightarrow> if 0 < live \<and> rt_source table = RateLive then (live, False)
                     else (PEG_RATES_PER_USD c, True)
      | None \<Rightarrow> (PEG_RATES_PER_USD c, True))"

text \<open>The table is the one \<open>loadTable\<close> returned for the request; it is not consulted when the two
  currencies are the same.\<close>

definition getRate :: "int \<Rightarrow> rate_table \<Rightarrow> string \<Rightarrow> string \<Rightarrow> fx_rate result" where
  "getRate now table fromRaw toRaw =
     ebind (assertCurrency fromRaw) (\<lambda>from.
     ebind (assertCurrency toRaw) (\<lambda>to.
     if from = to then
       Inr \<lparr>fr_from = from, fr_to = to, fr_rate = 1, fr_asOf = now, fr_source = RatePeg\<rparr>
     else
       (let (fv, fpegged) = perUsd table from;
            (tv, tpegged) = perUsd table to;
            rate = js_divide tv fv;
            pegged = (rt_source table = RatePeg \<or> fpegged \<or> tpegged)
        in Inr \<lparr>fr_from = from, fr_to = to, fr_rate = rate,
                fr_asOf = (if pegged then 0 else rt_asOf table),
                fr_source = (if pegged then RatePeg else RateLive)\<rparr>)))"

definition convert :: "int \<Rightarrow> rate_table \<Rightarrow> int \<Rightarrow> string \<Rightarrow> string \<Rightarrow> fx_conversion result" where
  "convert now table fromAmountMinor fromRaw toRaw =
     ebind (getRate now table fromRaw toRaw) (\<lambda>r.
     let fromMajor = js_divide (fl (of_int fromAmountMinor)) (10 ^ CURRENCY_DECIMALS (fr_from r));
         toMajor = js_mult fromMajor (fr_rate r);
         toAmountMinor = js_round (js_mult toMajor (10 ^ CURRENCY_DECIMALS (fr_to r)))
     in Inr \<lparr>fc_rate = r, fc_fromAmountMinor = fromAmountMinor, fc_toAmountMinor = toAmountMinor\<rparr>)"

definition ratesPerUsd :: "rate_table \<Rightarrow> string list option \<Rightarrow> (string \<times> rat) list \<times> int \<times> rate_source" where
  "ratesPerUsd table codesRaw =
     (let given = (case codesRaw of None \<Rightarrow> SUPPORTED_CURRENCIES
                   | Some cs \<Rightarrow> if cs = [] then SUPPORTED_CURRENCIES else cs);
          codes = filter isSupportedCurrency (map to_upper given)
      in (map (\<lambda>c. (c, fst (perUsd table c))) codes,
          if rt_source table = RateLive then rt_asOf table else 0,
          rt_source table))"

definition listCurrencies :: "(string \<times> nat) list" where
  "listCurrencies = map (\<lambda>code. (code, CURRENCY_DECIMALS code)) SUPPORTED_CURRENCIES"

section \<open>Lemmas\<close>

lemma PEG_pos: "0 < PEG_RATES_PER_USD c"
  by (simp add: PEG_RATES_PER_USD_def fl_pos)

lemma perUsd_pos: "0 < fst (perUsd table c)"
  by (simp add: perUsd_def PEG_pos split: option.splits)

lemma pow10_pos: "0 < (10::rat) ^ CURRENCY_DECIMALS c"
  by simp

lemma loadTable_fresh:
  "fst (loadTable now a st) = the (fx_cache (snd (loadTable now a st))) \<and>
   fx_cache (snd (loadTable now a st)) \<noteq> None"
  by (auto simp: loadTable_def cacheFresh_def Let_def split: option.splits)

text \<open>Four roundings of a scale factor of one stay within one part in \<open>2 ^ 50\<close>.\<close>

lemma fl_chain_error:
  assumes "\<bar>y - x\<bar> \<le> k * (\<bar>x\<bar> / 2 ^ 53)" "0 \<le> k" "k \<le> 7"
  shows "\<bar>fl y - x\<bar> \<le> (k + 1 + 1 / 2 ^ 50) * (\<bar>x\<bar> / 2 ^ 53)"
proof -
  have "\<bar>y\<bar> \<le> \<bar>x\<bar> + k * (\<bar>x\<bar> / 2 ^ 53)" using assms(1) by linarith
  then have "\<bar>y\<bar> / 2 ^ 53 \<le> (\<bar>x\<bar> + k * (\<bar>x\<bar> / 2 ^ 53)) / 2 ^ 53" by (simp add: divide_right_mono)
  also have "\<dots> = (1 + k / 2 ^ 53) * (\<bar>x\<bar> / 2 ^ 53)" by (simp add: algebra_simps)
  also have "\<dots> \<le> (1 + 1 / 2 ^ 50) * (\<bar>x\<bar> / 2 ^ 53)"
    using assms(3) by (intro mult_right_mono) auto
  finally have "\<bar>fl y - y\<bar> \<le> (1 + 1 / 2 ^ 50) * (\<bar>x\<bar> / 2 ^ 53)"
    using fl_error [of y] by linarith
  moreover have "\<bar>fl y - x\<bar> \<le> \<bar>fl y - y\<bar> + \<bar>y - x\<bar>" by linarith
  ultimately show ?thesis using assms(1) by (simp add: algebra_simps)
qed

lemma scale_error:
  fixes c :: rat
  assumes "\<bar>y - x\<bar> \<le> k * (\<bar>x\<bar> / 2 ^ 53)"
  shows "\<bar>y * c - x * c\<bar> \<le> k * (\<bar>x * c\<bar> / 2 ^ 53)"
proof -
  have "\<bar>y * c - x * c\<bar> = \<bar>y - x\<bar> * \<bar>c\<bar>" by (simp flip: left_diff_distrib add: abs_mult)
  also have "\<dots> \<le> k * (\<bar>x\<bar> / 2 ^ 53) * \<bar>c\<bar>" by (rule mult_right_mono [OF assms]) simp
  finally show ?thesis by (simp add: abs_mult)
qed

lemma conversion_chain:
  fixes n r c d :: rat
  shows "\<bar>js_mult (js_mult (js_divide (fl n) c) r) d - n / c * r * d\<bar> \<le> 5 * (\<bar>n / c * r * d\<bar> / 2 ^ 53)"
proof -
  let ?e = "1 / 2 ^ 50 :: rat"
  have e1: "\<bar>fl n - n\<bar> \<le> 1 * (\<bar>n\<bar> / 2 ^ 53)" using fl_error [of n] by simp
  have e1c: "\<bar>fl n / c - n / c\<bar> \<le> 1 * (\<bar>n / c\<bar> / 2 ^ 53)"
    using scale_error [OF e1, of "inverse c"] by (simp only: divide_inverse [of _ c])
  have e2: "\<bar>js_divide (fl n) c - n / c\<bar> \<le> (1 + 1 + ?e) * (\<bar>n / c\<bar> / 2 ^ 53)"
    unfolding js_divide_def by (rule fl_chain_error [OF e1c]) simp_all
  have e3: "\<bar>js_mult (js_divide (fl n) c) r - n / c * r\<bar> \<le> (1 + 1 + ?e + 1 + ?e) * (\<bar>n / c * r\<bar> / 2 ^ 53)"
    unfolding js_mult_def by (rule fl_chain_error [OF scale_error [OF e2]]) simp_all
  have "\<bar>js_mult (js_mult (js_divide (fl n) c) r) d - n / c * r * d\<bar>
      \<le> (1 + 1 + ?e + 1 + ?e + 1 + ?e) * (\<bar>n / c * r * d\<bar> / 2 ^ 53)"
    unfolding js_mult_def [of _ d] by (rule fl_chain_error [OF scale_error [OF e3]]) simp_all
  also have "\<dots> \<le> 5 * (\<bar>n / c * r * d\<bar> / 2 ^ 53)" by (intro mult_right_mono) auto
  finally show ?thesis .
qed

lemma js_round_error: "\<bar>of_int (js_round y) - y\<bar> \<le> 1 / 2"
  unfolding js_round_def by linarith

lemma convert_Inr:
  assumes "convert now table n a b = Inr cv"
  shows "getRate now table a b = Inr (fc_rate cv)" "fc_fromAmountMinor cv = n"
    "fc_toAmountMinor cv = js_round (js_mult (js_mult (js_divide (fl (of_int n))
       (10 ^ CURRENCY_DECIMALS (fr_from (fc_rate cv)))) (fr_rate (fc_rate cv)))
       (10 ^ CURRENCY_DECIMALS (fr_to (fc_rate cv))))"
  using assms by (auto simp: convert_def Let_def err_simps)

lemma getRate_Inr:
  assumes "getRate now table a b = Inr r"
  shows "fr_from r = a" "fr_to r = b" "isSupportedCurrency a" "isSupportedCurrency b"
  using assms by (auto simp: getRate_def assertCurrency_def Let_def split: if_splits prod.splits)

section \<open>Properties\<close>

text \<open>A rate is always there: for two supported currencies the lookup succeeds whatever the feed
  delivered, the rate is positive, and it is labelled live only when the table came from the feed
  and quotes both currencies.\<close>

theorem rate_always_available:
  assumes "isSupportedCurrency a" "isSupportedCurrency b"
  shows "\<exists>r. getRate now table a b = Inr r \<and> 0 < fr_rate r \<and>
           (fr_source r = RateLive \<longrightarrow> rt_source table = RateLive \<and>
              map_of (rt_perUsd table) a \<noteq> None \<and> map_of (rt_perUsd table) b \<noteq> None)"
proof (cases "a = b")
  case True
  then show ?thesis using assms by (simp add: getRate_def assertCurrency_def)
next
  case False
  have "0 < js_divide (fst (perUsd table b)) (fst (perUsd table a))"
    using perUsd_pos [of table a] perUsd_pos [of table b] by (simp add: js_divide_def fl_pos)
  moreover have "\<not> snd (perUsd table c) \<Longrightarrow> map_of (rt_perUsd table) c \<noteq> None" for c
    by (auto simp: perUsd_def split: option.splits)
  ultimately show ?thesis using assms False
    by (cases "rt_source table") (auto simp: getRate_def assertCurrency_def Let_def split: prod.splits)
qed

text \<open>C21. Accuracy of a conversion in double precision: the converted amount differs from the exact
  product of amount and rate by at most half a minor unit plus five units in the last place.\<close>

theorem convert_error_bound:
  assumes "convert now table n a b = Inr cv"
  shows "\<bar>of_int (fc_toAmountMinor cv) -
            of_int n / 10 ^ CURRENCY_DECIMALS a * fr_rate (fc_rate cv) * 10 ^ CURRENCY_DECIMALS b\<bar>
         \<le> 1 / 2 + 5 * (\<bar>of_int n / 10 ^ CURRENCY_DECIMALS a * fr_rate (fc_rate cv) * 10 ^ CURRENCY_DECIMALS b\<bar> / 2 ^ 53)"
proof -
  note r = convert_Inr [OF assms]
  have ab: "fr_from (fc_rate cv) = a" "fr_to (fc_rate cv) = b" using getRate_Inr [OF r(1)] by simp_all
  let ?y = "js_mult (js_mult (js_divide (fl (of_int n)) (10 ^ CURRENCY_DECIMALS a)) (fr_rate (fc_rate cv)))
      (10 ^ CURRENCY_DECIMALS b)"
  have "fc_toAmountMinor cv = js_round ?y" using r(3) ab by simp
  then show ?thesis
    using js_round_error [of ?y]
      conversion_chain [of "of_int n" "10 ^ CURRENCY_DECIMALS a" "fr_rate (fc_rate cv)" "10 ^ CURRENCY_DECIMALS b"]
    by linarith
qed

text \<open>Converting a currency to itself is exact for every amount below \<open>2 ^ 49\<close> minor units, so a
  wire quoted in dollars settles for exactly the amount the customer entered.\<close>

theorem convert_same_currency_exact:
  assumes "isSupportedCurrency a" "\<bar>n\<bar> < 2 ^ 49"
  shows "\<exists>cv. convert now table n a a = Inr cv \<and> fc_toAmountMinor cv = n \<and> fr_rate (fc_rate cv) = 1"
proof -
  obtain cv where cv: "convert now table n a a = Inr cv"
    and r: "fr_rate (fc_rate cv) = 1" "fr_from (fc_rate cv) = a" "fr_to (fc_rate cv) = a"
    using assms(1) by (auto simp: convert_def getRate_def assertCurrency_def Let_def)
  let ?c = "10 ^ CURRENCY_DECIMALS a :: rat"
  let ?y = "js_mult (js_mult (js_divide (fl (of_int n)) ?c) 1) ?c"
  have "of_int n / ?c * 1 * ?c = (of_int n :: rat)" by simp
  then have "\<bar>?y - of_int n\<bar> \<le> 5 * (\<bar>of_int n\<bar> / 2 ^ 53)"
    using conversion_chain [of "of_int n" ?c 1 ?c] by simp
  also have "\<dots> < 1 / 2"
  proof -
    have "\<bar>of_int n :: rat\<bar> < 2 ^ 49" using assms(2) by (simp flip: of_int_abs)
    then show ?thesis by simp
  qed
  finally have "js_round ?y = n" by (rule js_round_near)
  then show ?thesis using cv r convert_Inr(3) [OF cv] by auto
qed

text \<open>The rate table is cached for an hour: after any load, a second load within the next hour
  returns the same table and asks the feed nothing, whatever it would answer.\<close>

theorem rate_table_cached:
  assumes "loadTable now answer st = (table, st')" "now \<le> now'" "now' - fx_fetchedAtMs st' < ttlMs"
  shows "loadTable now' answer' st' = (table, st')"
  using assms by (auto simp: loadTable_def cacheFresh_def Let_def split: if_splits option.splits)

end
