(* ===== verification/Transfers.thy ===== *)
theory Transfers
  imports Quote Fx
begin

text \<open>
  Initiation of a transfer (\<^verbatim>\<open>transfers/transfers.service.ts\<close>). \<open>initiate\<close> is a read phase
  (\<open>initiate_check\<close>: the guards, the idempotent replay, pricing, ownership and the first balance
  check) followed by one database transaction (\<open>initiate_commit\<close>: the balance re-read under the row
  lock, the journal entry, the pending transaction, the debit and the transfer row) and the effects
  after the commit. The two phases are separate definitions because other requests may run between
  them. The identifiers \<open>randomUUID\<close> yields, the clock, the rate table and whether Redis accepts a
  job are parameters of the request. Bullet characters in labels are written as asterisks.
\<close>

definition KIND_TO_TX_KIND :: "transfer_kind \<Rightarrow> tx_kind" where
  "KIND_TO_TX_KIND k = (case k of Internal \<Rightarrow> KAdjustment | AchIn \<Rightarrow> KAchIn | AchOut \<Rightarrow> KAchOut
     | WireIn \<Rightarrow> KAchIn | WireOut \<Rightarrow> KAchOut | P2P \<Rightarrow> KP2pOut)"

record config =
  cf_minCents :: int
  cf_maxCents :: int
  cf_wireMaxCents :: int
  cf_feeBps :: int
  cf_feeMin :: int
  cf_settleInstantMs :: int
  cf_settleStandardMs :: int
  cf_reviewThresholdCents :: int

definition default_config :: config where
  "default_config = \<lparr>cf_minCents = 500, cf_maxCents = 2500000, cf_wireMaxCents = 50000000,
     cf_feeBps = 175, cf_feeMin = 25, cf_settleInstantMs = 5000, cf_settleStandardMs = 30000,
     cf_reviewThresholdCents = 100000\<rparr>"

record request_env =
  rq_now :: int
  rq_table :: rate_table
  rq_queueUp :: bool

record wire_details =
  wd_type :: wire_type
  wd_beneficiaryName :: string
  wd_bankName :: string
  wd_swiftBic :: "string option"
  wd_iban :: "string option"

record transfer_dto =
  d_fromAccountId :: string
  d_toAccountId :: "string option"
  d_externalRef :: "string option"
  d_kind :: transfer_kind
  d_amountCents :: int
  d_instant :: bool
  d_note :: "string option"
  d_wireDetails :: "wire_details option"
  d_sendCurrency :: "string option"
  d_sendAmountMinor :: "int option"

record initiate_result =
  ir_transferId :: string
  ir_status :: tx_status
  ir_pendingTransactionId :: string
  ir_feeCents :: int
  ir_estimatedSettleMs :: int
  ir_fx :: "fx_payload option"

definition quote ::
  "config \<Rightarrow> transfer_kind \<Rightarrow> int \<Rightarrow> bool \<Rightarrow> wire_scope option \<Rightarrow> quote_result" where
  "quote cf kind amountCents instant wireScope =
     computeQuote \<lparr>qp_kind = kind, qp_amountCents = amountCents, qp_instant = instant,
       qp_minCents = cf_minCents cf,
       qp_maxCents = (if kind = WireOut then cf_wireMaxCents cf else cf_maxCents cf),
       qp_instantFeeBps = cf_feeBps cf, qp_instantFeeMinCents = cf_feeMin cf,
       qp_wireScope = wireScope\<rparr>"

definition resolveSettlement ::
  "request_env \<Rightarrow> transfer_kind \<Rightarrow> int \<Rightarrow> string option \<Rightarrow> int option \<Rightarrow>
     (int \<times> fx_conversion option) result" where
  "resolveSettlement env kind amountCents sendCurrency sendAmountMinor =
     (let send = to_upper (case sendCurrency of None \<Rightarrow> ''USD'' | Some c \<Rightarrow> c)
      in if kind = WireOut \<and> truthy_str sendCurrency \<and> sendAmountMinor \<noteq> None
         then ebind (convert (rq_now env) (rq_table env) (the sendAmountMinor) send ''USD'') (\<lambda>conv.
                Inr (fc_toAmountMinor conv,
                     if fr_from (fc_rate conv) = fr_to (fc_rate conv) then None else Some conv))
         else Inr (amountCents, None))"

definition fxPayload :: "fx_conversion \<Rightarrow> fx_payload" where
  "fxPayload fx = \<lparr>fxp_sendCurrency = fr_from (fc_rate fx), fxp_sendAmountMinor = fc_fromAmountMinor fx,
     fxp_settleCurrency = fr_to (fc_rate fx), fxp_settleCents = fc_toAmountMinor fx,
     fxp_rate = fr_rate (fc_rate fx), fxp_asOf = fr_asOf (fc_rate fx),
     fxp_source = fr_source (fc_rate fx)\<rparr>"

definition quoteForRequest ::
  "config \<Rightarrow> request_env \<Rightarrow> transfer_kind \<Rightarrow> int \<Rightarrow> bool \<Rightarrow> wire_scope option \<Rightarrow> string option \<Rightarrow>
     int option \<Rightarrow> (quote_result \<times> int \<times> fx_payload option) result" where
  "quoteForRequest cf env kind amountCents instant wireScope sendCurrency sendAmountMinor =
     ebind (resolveSettlement env kind amountCents sendCurrency sendAmountMinor) (\<lambda>(settlementCents, fx).
     Inr (quote cf kind settlementCents instant wireScope, settlementCents, map_option fxPayload fx))"

section \<open>Wire beneficiaries\<close>

definition norm_iban :: "string option \<Rightarrow> string" where
  "norm_iban i = strip_spaces (to_upper (js_trim (case i of None \<Rightarrow> '''' | Some x \<Rightarrow> x)))"

definition norm_label :: "string option \<Rightarrow> string" where
  "norm_label l = to_lower (js_trim (case l of None \<Rightarrow> '''' | Some x \<Rightarrow> x))"

definition match_label ::
  "wire_beneficiary list \<Rightarrow> string \<Rightarrow> string \<Rightarrow> bool \<times> string option" where
  "match_label candidates typedBank typedName =
     (case candidates of
        [] \<Rightarrow> (False, None)
      | c0 # _ \<Rightarrow>
          if typedBank = '''' \<and> typedName = '''' then (True, Some (wb_name c0))
          else case find_first (\<lambda>c.
                  (typedBank \<noteq> '''' \<and> norm_label (Some (wb_bankName c)) = typedBank) \<or>
                  (typedName \<noteq> '''' \<and> norm_label (Some (wb_name c)) = typedName)) candidates of
              Some m \<Rightarrow> (True, Some (wb_name m))
            | None \<Rightarrow> (False, None))"

definition verifyBeneficiary ::
  "wire_type \<Rightarrow> string option \<Rightarrow> string option \<Rightarrow> string option \<Rightarrow> string option \<Rightarrow> bank \<Rightarrow>
     bool \<times> string option" where
  "verifyBeneficiary type bankName beneficiaryName swiftBic iban s =
     (let live = filter (\<lambda>b. wb_archivedAt b = None \<and> wb_type b = type) (db_beneficiaries s);
          typedBank = norm_label bankName;
          typedName = norm_label beneficiaryName
      in case type of
           WireLocal \<Rightarrow>
             if norm_iban iban = '''' then (False, None)
             else match_label (filter (\<lambda>b. wb_iban b = Some (norm_iban iban)) live) typedBank typedName
         | WireInternational \<Rightarrow>
             if \<not> truthy_str swiftBic \<or> \<not> truthy_str iban then (False, None)
             else match_label (filter (\<lambda>b. wb_swiftBic b = Some (to_upper (js_trim (the swiftBic))) \<and>
                                         wb_iban b = Some (norm_iban iban)) live) typedBank typedName)"

definition wire_gate :: "transfer_dto \<Rightarrow> bank \<Rightarrow> unit result" where
  "wire_gate dto s =
     (if d_kind dto \<noteq> WireOut then Inr ()
      else ebind (or_throw (BadRequest ''WIRE_DETAILS_REQUIRED'') (d_wireDetails dto)) (\<lambda>w.
        case wd_type w of
          WireLocal \<Rightarrow>
            (let ibanNorm = norm_iban (wd_iban w)
             in if ibanNorm = '''' then Inl (BadRequest ''WIRE_DETAILS_INCOMPLETE'')
                else case find_first (\<lambda>b. wb_archivedAt b = None \<and> wb_type b = WireLocal \<and>
                            wb_iban b = Some ibanNorm) (db_beneficiaries s) of
                       None \<Rightarrow> Inl (BadRequest ''BENEFICIARY_NOT_FOUND'')
                     | Some _ \<Rightarrow> Inr ())
        | WireInternational \<Rightarrow>
            require (truthy_str (wd_swiftBic w) \<and> truthy_str (wd_iban w))
              (BadRequest ''WIRE_DETAILS_INCOMPLETE'')))"

section \<open>Descriptions\<close>

definition is_card_type :: "string \<Rightarrow> bool" where
  "is_card_type t = (contains ''card'' (to_lower t) \<or> contains ''credit'' (to_lower t))"

definition linked_label :: "linked_account \<Rightarrow> string" where
  "linked_label l =
     (let base = (if starts_with ''card:'' (lk_institutionId l) \<or> is_card_type (lk_accountType l)
                  then ''Card'' else lk_institutionName l)
      in if lk_mask l \<noteq> '''' then base @ '' **** '' @ lk_mask l else base)"

definition describeLinkedAccount :: "bank \<Rightarrow> string option \<Rightarrow> string option" where
  "describeLinkedAccount s externalRef =
     (case externalRef of None \<Rightarrow> None
      | Some ref \<Rightarrow>
          if \<not> starts_with ''linked:'' ref then None
          else
            (let parts = split_on (CHR '':'') ref;
                 i = (if 1 < length parts then parts ! 1 else '''');
                 fallbackName = js_trim (join_with '':'' (drop 2 parts));
                 linked = (if i \<noteq> '''' then find_unique lk_id i (db_linkedAccounts s) else None)
             in case linked of
                  None \<Rightarrow> if fallbackName = '''' then None else Some fallbackName
                | Some l \<Rightarrow> Some (linked_label l)))"

definition describeTransfer :: "bank \<Rightarrow> transfer_dto \<Rightarrow> account \<Rightarrow> account option \<Rightarrow> string" where
  "describeTransfer s dto fromAccount toAccount =
     (let beneficiary = (case d_wireDetails dto of None \<Rightarrow> '''' | Some w \<Rightarrow> js_trim (wd_beneficiaryName w));
          rest = (case d_note dto of Some n \<Rightarrow> n | None \<Rightarrow> ''Transfer ('' @ kind_name (d_kind dto) @ '')'')
      in if d_kind dto = Internal \<and> toAccount \<noteq> None
         then a_label fromAccount @ '' to '' @ a_label (the toAccount)
         else if d_kind dto = WireOut \<and> beneficiary \<noteq> '''' then ''Wire transfer to '' @ beneficiary
         else if d_kind dto = AchOut \<or> d_kind dto = AchIn
         then (case describeLinkedAccount s (d_externalRef dto) of
                 Some l \<Rightarrow> if l = '''' then rest
                           else if d_kind dto = AchOut then a_label fromAccount @ '' to '' @ l
                           else l @ '' to '' @ a_label fromAccount
               | None \<Rightarrow> rest)
         else rest)"

section \<open>Initiation\<close>

record plan =
  pl_from :: account
  pl_to :: "account option"
  pl_settlementCents :: int
  pl_feeCents :: int
  pl_fx :: "fx_conversion option"

datatype checked = Replay initiate_result | Proceed plan

definition settle_delay :: "config \<Rightarrow> bool \<Rightarrow> int" where
  "settle_delay cf instant = (if instant then cf_settleInstantMs cf else cf_settleStandardMs cf)"

definition replay_result :: "config \<Rightarrow> transfer \<Rightarrow> initiate_result" where
  "replay_result cf t = \<lparr>ir_transferId = tr_id t, ir_status = tr_status t,
     ir_pendingTransactionId = (case tr_pendingTransactionId t of None \<Rightarrow> '''' | Some i \<Rightarrow> i),
     ir_feeCents = tr_feeCents t, ir_estimatedSettleMs = settle_delay cf (tr_instant t), ir_fx = None\<rparr>"

definition wire_scope_of :: "transfer_dto \<Rightarrow> wire_scope option" where
  "wire_scope_of dto =
     (if d_kind dto = WireOut
      then map_option (\<lambda>w. if wd_type w = WireInternational then International else Domestic)
             (d_wireDetails dto)
      else None)"

definition destination :: "string \<Rightarrow> transfer_dto \<Rightarrow> bank \<Rightarrow> account option result" where
  "destination userId dto s =
     (if d_kind dto \<noteq> Internal then Inr None
      else ebind (require (truthy_str (d_toAccountId dto))
                    (BadRequest ''toAccountId required for internal transfer'')) (\<lambda>_.
           ebind (or_throw (NotFound ''Destination account not found'')
                    (account_of s (the (d_toAccountId dto)))) (\<lambda>t.
           ebind (require (a_userId t = userId)
                    (Forbidden ''Cross-user internal transfer requires p2p'')) (\<lambda>_.
           Inr (Some t)))))"

definition initiate_check ::
  "config \<Rightarrow> request_env \<Rightarrow> string \<Rightarrow> string \<Rightarrow> transfer_dto \<Rightarrow> bank \<Rightarrow> checked result" where
  "initiate_check cf env userId key dto s =
     ebind (require (key \<noteq> '''') (BadRequest ''Idempotency-Key header required'')) (\<lambda>_.
     ebind (require (\<not> (case user_of s userId of None \<Rightarrow> False | Some u \<Rightarrow> u_transfersDisabled u))
              (Forbidden ''TRANSFERS_DISABLED'')) (\<lambda>_.
     case find_unique tr_idempotencyKey key (db_transfers s) of
       Some replay \<Rightarrow>
         ebind (require (tr_initiatedByUserId replay = userId)
                  (Conflict ''Idempotency key already used by another user'')) (\<lambda>_.
         Inr (Replay (replay_result cf replay)))
     | None \<Rightarrow>
         ebind (resolveSettlement env (d_kind dto) (d_amountCents dto) (d_sendCurrency dto)
                  (d_sendAmountMinor dto)) (\<lambda>(settlementCents, fx).
         let q = quote cf (d_kind dto) settlementCents (d_instant dto) (wire_scope_of dto) in
         ebind (require (q_valid q)
                  (BadRequest (case q_reason q of None \<Rightarrow> ''Invalid transfer'' | Some r \<Rightarrow> r))) (\<lambda>_.
         ebind (wire_gate dto s) (\<lambda>_.
         ebind (or_throw (NotFound ''Source account not found'') (account_of s (d_fromAccountId dto))) (\<lambda>fromAccount.
         ebind (require (a_userId fromAccount = userId) (Forbidden ''Not your account'')) (\<lambda>_.
         ebind (require (a_status fromAccount = AcctActive) (BadRequest ''Source account not active'')) (\<lambda>_.
         ebind (destination userId dto s) (\<lambda>toAccount.
         ebind (require (\<not> a_balanceCents fromAccount < settlementCents + q_feeCents q)
                  (BadRequest ''Insufficient funds'')) (\<lambda>_.
         Inr (Proceed \<lparr>pl_from = fromAccount, pl_to = toAccount, pl_settlementCents = settlementCents,
                pl_feeCents = q_feeCents q, pl_fx = fx\<rparr>)))))))))))"

definition pending_postings :: "string \<Rightarrow> int \<Rightarrow> int \<Rightarrow> posting_input list" where
  "pending_postings fromId settlementCents feeCents =
     [\<lparr>pi_code = accountSubLedgerCode fromId, pi_direction = Debit, pi_amountCents = settlementCents, pi_meta = None\<rparr>,
      \<lparr>pi_code = PendingOut, pi_direction = Credit, pi_amountCents = settlementCents, pi_meta = None\<rparr>] @
     (if 0 < feeCents then
       [\<lparr>pi_code = accountSubLedgerCode fromId, pi_direction = Debit, pi_amountCents = feeCents, pi_meta = None\<rparr>,
        \<lparr>pi_code = FeeRevenue, pi_direction = Credit, pi_amountCents = feeCents, pi_meta = None\<rparr>]
      else [])"

definition requires_review :: "config \<Rightarrow> transfer_kind \<Rightarrow> int \<Rightarrow> bool" where
  "requires_review cf kind settlementCents =
     (let isOutbound = (kind = P2P \<or> kind = AchOut \<or> kind = WireOut)
      in kind = WireOut \<or> kind = AchOut \<or>
         (isOutbound \<and> settlementCents \<ge> cf_reviewThresholdCents cf))"

definition pending_transaction ::
  "request_env \<Rightarrow> transfer_dto \<Rightarrow> plan \<Rightarrow> string \<Rightarrow> string \<Rightarrow> string \<Rightarrow> transaction" where
  "pending_transaction env dto pl transferId pendingTxId descr =
     \<lparr>t_id = pendingTxId, t_accountId = a_id (pl_from pl), t_kind = KIND_TO_TX_KIND (d_kind dto),
      t_status = TxPending, t_amountCents = - (pl_settlementCents pl + pl_feeCents pl),
      t_description = descr, t_category = CatTransfer, t_note = d_note dto,
      t_occurredAt = rq_now env, t_postedAt = None,
      t_metadata = Some \<lparr>m_transferId = Some transferId, m_fx = map_option fxPayload (pl_fx pl), m_reversedByAdmin = None\<rparr>\<rparr>"

definition pending_transfer ::
  "config \<Rightarrow> request_env \<Rightarrow> string \<Rightarrow> string \<Rightarrow> transfer_dto \<Rightarrow> plan \<Rightarrow> string \<Rightarrow> string \<Rightarrow> transfer" where
  "pending_transfer cf env userId key dto pl transferId pendingTxId =
     \<lparr>tr_id = transferId, tr_kind = d_kind dto, tr_status = TxPending,
      tr_fromAccountId = a_id (pl_from pl),
      tr_toAccountId = (case pl_to pl of Some t \<Rightarrow> Some (a_id t) | None \<Rightarrow> d_toAccountId dto),
      tr_externalRef = d_externalRef dto, tr_amountCents = pl_settlementCents pl,
      tr_feeCents = pl_feeCents pl, tr_instant = d_instant dto, tr_initiatedByUserId = userId,
      tr_initiatedAt = rq_now env, tr_settledAt = None, tr_failureReason = None,
      tr_idempotencyKey = key, tr_pendingTransactionId = Some pendingTxId,
      tr_settledTransactionId = None,
      tr_requiresReview = requires_review cf (d_kind dto) (pl_settlementCents pl),
      tr_reviewDecision = None, tr_reviewedAt = None, tr_reviewedByUserId = None, tr_reviewReason = None\<rparr>"

definition initiate_commit ::
  "config \<Rightarrow> request_env \<Rightarrow> string \<Rightarrow> string \<Rightarrow> transfer_dto \<Rightarrow> plan \<Rightarrow> string \<Rightarrow> string \<Rightarrow> string \<Rightarrow>
     bank \<Rightarrow> (transfer \<times> bank) result" where
  "initiate_commit cf env userId key dto pl transferId pendingTxId descr s =
     (let fromId = a_id (pl_from pl);
          totalDebit = pl_settlementCents pl + pl_feeCents pl;
          row = pending_transfer cf env userId key dto pl transferId pendingTxId
      in ebind (or_throw (BadRequest ''Insufficient funds'') (account_of s fromId)) (\<lambda>fresh.
         ebind (require (\<not> a_balanceCents fresh < totalDebit) (BadRequest ''Insufficient funds'')) (\<lambda>_.
         let s1 = ensureAccountLedger fromId (a_userId (pl_from pl)) s;
             s2 = (case pl_to pl of None \<Rightarrow> s1 | Some t \<Rightarrow> ensureAccountLedger (a_id t) (a_userId t) s1) in
         ebind (post \<lparr>ji_description = ''Transfer '' @ kind_name (d_kind dto) @ '' '' @ show_int (pl_settlementCents pl),
                      ji_occurredAt = rq_now env, ji_source = ''transfer:'' @ transferId @ '':pending'',
                      ji_referenceId = Some transferId,
                      ji_postings = pending_postings fromId (pl_settlementCents pl) (pl_feeCents pl)\<rparr> s2) (\<lambda>(_, s3).
         ebind (create_unique ''id'' t_id (pending_transaction env dto pl transferId pendingTxId descr)
                  (db_transactions s3)) (\<lambda>txs.
         ebind (credit_account fromId (- totalDebit) (s3\<lparr>db_transactions := txs\<rparr>)) (\<lambda>s4.
         ebind (create_unique ''id'' tr_id row (db_transfers s4)) (\<lambda>_.
         ebind (create_unique ''idempotencyKey'' tr_idempotencyKey row (db_transfers s4)) (\<lambda>trs.
         Inr (row, s4\<lparr>db_transfers := trs\<rparr>)))))))))"

text \<open>The effects after the commit: the creation event, then either the review-queue event or the
  settlement job, queued in Redis or, when Redis refuses it, held by an in-process timer.\<close>

definition initiate_finish ::
  "config \<Rightarrow> request_env \<Rightarrow> string \<Rightarrow> transfer_dto \<Rightarrow> plan \<Rightarrow> string \<Rightarrow> transfer \<Rightarrow> bank \<Rightarrow>
     initiate_result \<times> bank" where
  "initiate_finish cf env userId dto pl descr t s =
     (let total = pl_settlementCents pl + pl_feeCents pl;
          delayMs = settle_delay cf (d_instant dto);
          pendingTxId = the (tr_pendingTransactionId t);
          s1 = emit (EvTransactionCreated userId (a_id (pl_from pl)) pendingTxId (- total) TxPending
                       (rq_now env) (Some (descr, CatTransfer, kind_name (d_kind dto)))) s;
          s2 = (if tr_requiresReview t then emit (EvAdminQueueChanged 1) s1
                else s1\<lparr>jobs := jobs s1 @ [(if rq_queueUp env then QueuedJob else TimerJob) (tr_id t) delayMs]\<rparr>)
      in (\<lparr>ir_transferId = tr_id t, ir_status = tr_status t, ir_pendingTransactionId = pendingTxId,
           ir_feeCents = pl_feeCents pl, ir_estimatedSettleMs = delayMs,
           ir_fx = map_option fxPayload (pl_fx pl)\<rparr>, s2))"

definition initiate ::
  "config \<Rightarrow> request_env \<Rightarrow> string \<times> string \<Rightarrow> string \<Rightarrow> string \<Rightarrow> transfer_dto \<Rightarrow> bank \<Rightarrow>
     (initiate_result \<times> bank) result" where
  "initiate cf env ids userId key dto s =
     ebind (initiate_check cf env userId key dto s) (\<lambda>c.
     case c of
       Replay r \<Rightarrow> Inr (r, s)
     | Proceed pl \<Rightarrow>
         (let descr = describeTransfer s dto (pl_from pl) (pl_to pl)
          in ebind (initiate_commit cf env userId key dto pl (fst ids) (snd ids) descr s) (\<lambda>(t, s').
             Inr (initiate_finish cf env userId dto pl descr t s'))))"

definition getForUser :: "string \<Rightarrow> string \<Rightarrow> bank \<Rightarrow> transfer result" where
  "getForUser userId i s =
     (case transfer_of s i of
        None \<Rightarrow> Inl (NotFound ''Transfer not found'')
      | Some t \<Rightarrow> if tr_initiatedByUserId t \<noteq> userId then Inl (NotFound ''Transfer not found'') else Inr t)"

definition listForUser :: "string \<Rightarrow> nat \<Rightarrow> bank \<Rightarrow> transfer list" where
  "listForUser userId limit s =
     take limit (sort_key (\<lambda>t. - tr_initiatedAt t)
       (filter (\<lambda>t. tr_initiatedByUserId t = userId) (db_transfers s)))"


section \<open>Lemmas\<close>

definition system_ready :: "bank \<Rightarrow> bool" where
  "system_ready s \<longleftrightarrow> {Cash, PendingOut, FeeRevenue} \<subseteq> la_code ` set (db_ledgerAccounts s)"

text \<open>The journal entry of an initiation balances, and debits the sub-ledger of the source by
  exactly what the cached balance loses.\<close>

lemma pending_postings_length: "2 \<le> length (pending_postings i a f)"
  by (simp add: pending_postings_def)

lemma pending_postings_balanced:
  "sum_direction Debit (pending_postings i a f) = sum_direction Credit (pending_postings i a f)"
  by (simp add: pending_postings_def sum_direction_def)

lemma pending_postings_net [ledger_simps]:
  "0 \<le> f \<Longrightarrow> input_net (accountSubLedgerCode k) (pending_postings i a f) = (if k = i then - (a + f) else 0)"
  "input_net PendingOut (pending_postings i a f) = a"
  "0 \<le> f \<Longrightarrow> input_net FeeRevenue (pending_postings i a f) = f"
  by (auto simp: pending_postings_def input_net_Cons input_net_append input_net_Nil)

lemma pending_postings_codes:
  "pi_code ` set (pending_postings i a f) \<subseteq> {accountSubLedgerCode i, PendingOut, FeeRevenue}"
  by (auto simp: pending_postings_def)

text \<open>What a committed initiation did, in one place.\<close>

lemma initiate_commit_Inr:
  assumes "initiate_commit cf env userId key dto pl transferId pendingTxId descr s = Inr (t, s')"
  shows "t = pending_transfer cf env userId key dto pl transferId pendingTxId"
    and "\<exists>a. account_of s (a_id (pl_from pl)) = Some a \<and>
           pl_settlementCents pl + pl_feeCents pl \<le> a_balanceCents a"
    and "transfer_of s transferId = None"
    and "find_unique tr_idempotencyKey key (db_transfers s) = None"
    and "transaction_of s pendingTxId = None"
    and "db_accounts s' = update_many (\<lambda>a. a_id a = a_id (pl_from pl))
           (\<lambda>a. a\<lparr>a_balanceCents := a_balanceCents a + (- (pl_settlementCents pl + pl_feeCents pl))\<rparr>)
           (db_accounts s)"
    and "db_transfers s' = db_transfers s @ [t]"
    and "db_transactions s' = db_transactions s @
           [pending_transaction env dto pl transferId pendingTxId descr]"
    and "db_postings s' = db_postings s @ map (mk_posting (length (db_journal s)))
           (pending_postings (a_id (pl_from pl)) (pl_settlementCents pl) (pl_feeCents pl))"
    and "db_users s' = db_users s" "db_overrides s' = db_overrides s" "db_audit s' = db_audit s"
      "bus s' = bus s" "mails s' = mails s" "jobs s' = jobs s"
    and "ledger_inv s \<Longrightarrow> ledger_inv s'"
    and "la_code ` set (db_ledgerAccounts s) \<subseteq> la_code ` set (db_ledgerAccounts s')"
proof -
  let ?s1 = "ensureAccountLedger (a_id (pl_from pl)) (a_userId (pl_from pl)) s"
  let ?s2 = "case pl_to pl of None \<Rightarrow> ?s1 | Some a \<Rightarrow> ensureAccountLedger (a_id a) (a_userId a) ?s1"
  let ?j = "\<lparr>ji_description = ''Transfer '' @ kind_name (d_kind dto) @ '' '' @ show_int (pl_settlementCents pl),
      ji_occurredAt = rq_now env, ji_source = ''transfer:'' @ transferId @ '':pending'',
      ji_referenceId = Some transferId,
      ji_postings = pending_postings (a_id (pl_from pl)) (pl_settlementCents pl) (pl_feeCents pl)\<rparr>"
  have frame2: "db_accounts ?s2 = db_accounts s" "db_postings ?s2 = db_postings s"
    "db_journal ?s2 = db_journal s" "db_transactions ?s2 = db_transactions s"
    "db_transfers ?s2 = db_transfers s" "db_users ?s2 = db_users s" "db_overrides ?s2 = db_overrides s"
    "db_audit ?s2 = db_audit s" "bus ?s2 = bus s" "mails ?s2 = mails s" "jobs ?s2 = jobs s"
    by (simp_all split: option.split)
  have codes2: "la_code ` set (db_ledgerAccounts s) \<subseteq> la_code ` set (db_ledgerAccounts ?s2)"
    by (auto split: option.split)
  have inv2: "ledger_inv s \<Longrightarrow> ledger_inv ?s2"
    by (simp add: ledger_inv_ensure split: option.split)
  obtain a e s3 where a: "account_of s (a_id (pl_from pl)) = Some a"
      "\<not> a_balanceCents a < pl_settlementCents pl + pl_feeCents pl"
    and p: "post ?j ?s2 = Inr (e, s3)"
    and fresh: "find_unique t_id pendingTxId (db_transactions s3) = None"
      "find_unique tr_id transferId (db_transfers s3) = None"
      "find_unique tr_idempotencyKey key (db_transfers s3) = None"
    and t: "t = pending_transfer cf env userId key dto pl transferId pendingTxId"
    and s': "s' = s3\<lparr>db_transactions := db_transactions s3 @
              [pending_transaction env dto pl transferId pendingTxId descr],
           db_accounts := update_many (\<lambda>a. a_id a = a_id (pl_from pl))
             (\<lambda>a. a\<lparr>a_balanceCents := a_balanceCents a + (- (pl_settlementCents pl + pl_feeCents pl))\<rparr>)
             (db_accounts s3),
           db_transfers := db_transfers s3 @ [t]\<rparr>"
    using assms
    by (auto simp: initiate_commit_def Let_def err_simps pending_transaction_def pending_transfer_def)
  note pf = post_frame [OF p] frame2
  show "t = pending_transfer cf env userId key dto pl transferId pendingTxId" by (rule t)
  show "\<exists>a. account_of s (a_id (pl_from pl)) = Some a \<and>
     pl_settlementCents pl + pl_feeCents pl \<le> a_balanceCents a" using a by auto
  show "transfer_of s transferId = None" "find_unique tr_idempotencyKey key (db_transfers s) = None"
    "transaction_of s pendingTxId = None" using fresh pf by simp_all
  show "db_accounts s' = update_many (\<lambda>a. a_id a = a_id (pl_from pl))
           (\<lambda>a. a\<lparr>a_balanceCents := a_balanceCents a + (- (pl_settlementCents pl + pl_feeCents pl))\<rparr>)
           (db_accounts s)"
    "db_transfers s' = db_transfers s @ [t]"
    "db_transactions s' = db_transactions s @ [pending_transaction env dto pl transferId pendingTxId descr]"
    "db_postings s' = db_postings s @ map (mk_posting (length (db_journal s)))
           (pending_postings (a_id (pl_from pl)) (pl_settlementCents pl) (pl_feeCents pl))"
    "db_users s' = db_users s" "db_overrides s' = db_overrides s" "db_audit s' = db_audit s"
    "bus s' = bus s" "mails s' = mails s" "jobs s' = jobs s"
    using s' pf by simp_all
  have "db_ledgerAccounts s' = db_ledgerAccounts s3" "db_postings s' = db_postings s3"
    "db_journal s' = db_journal s3" using s' by simp_all
  then show "ledger_inv s \<Longrightarrow> ledger_inv s'"
    using inv2 ledger_inv_post [OF p] ledger_inv_cong by blast
  show "la_code ` set (db_ledgerAccounts s) \<subseteq> la_code ` set (db_ledgerAccounts s')"
    using codes2 post_codes [OF p] s' by auto
qed

lemma initiate_check_Proceed:
  assumes "initiate_check cf env userId key dto s = Inr (Proceed pl)"
  shows "key \<noteq> ''''" "find_unique tr_idempotencyKey key (db_transfers s) = None"
    and "account_of s (d_fromAccountId dto) = Some (pl_from pl)" "a_userId (pl_from pl) = userId"
      "a_status (pl_from pl) = AcctActive"
    and "pl_settlementCents pl + pl_feeCents pl \<le> a_balanceCents (pl_from pl)"
    and "resolveSettlement env (d_kind dto) (d_amountCents dto) (d_sendCurrency dto) (d_sendAmountMinor dto)
           = Inr (pl_settlementCents pl, pl_fx pl)"
    and "q_valid (quote cf (d_kind dto) (pl_settlementCents pl) (d_instant dto) (wire_scope_of dto))"
    and "pl_feeCents pl = q_feeCents (quote cf (d_kind dto) (pl_settlementCents pl) (d_instant dto) (wire_scope_of dto))"
    and "wire_gate dto s = Inr ()"
    and "destination userId dto s = Inr (pl_to pl)"
    and "\<not> (case user_of s userId of None \<Rightarrow> False | Some u \<Rightarrow> u_transfersDisabled u)"
  using assms
  by (auto simp: initiate_check_def err_simps Let_def split: option.splits)

lemma initiate_check_Replay:
  assumes "initiate_check cf env userId key dto s = Inr (Replay r)"
  shows "\<exists>t. find_unique tr_idempotencyKey key (db_transfers s) = Some t \<and>
     tr_initiatedByUserId t = userId \<and> r = replay_result cf t"
  using assms by (auto simp: initiate_check_def err_simps Let_def split: option.splits)

lemma plan_from_id:
  "initiate_check cf env userId key dto s = Inr (Proceed pl) \<Longrightarrow> a_id (pl_from pl) = d_fromAccountId dto"
  by (blast dest: initiate_check_Proceed(3) find_unique_SomeD)

lemma plan_fee_nonneg:
  "initiate_check cf env userId key dto s = Inr (Proceed pl) \<Longrightarrow> 0 \<le> cf_feeMin cf \<Longrightarrow> 0 \<le> pl_feeCents pl"
  by (simp add: initiate_check_Proceed(9) quote_def quote_fee_nonneg)

lemma plan_amount_bounds:
  "initiate_check cf env userId key dto s = Inr (Proceed pl) \<Longrightarrow> cf_minCents cf \<le> pl_settlementCents pl"
  by (drule initiate_check_Proceed(8)) (auto simp: quote_def dest: quote_valid_bounds)

lemma initiate_finish_frame [simp]:
  "db_accounts (snd (initiate_finish cf env u dto pl descr t s)) = db_accounts s"
  "db_postings (snd (initiate_finish cf env u dto pl descr t s)) = db_postings s"
  "db_ledgerAccounts (snd (initiate_finish cf env u dto pl descr t s)) = db_ledgerAccounts s"
  "db_journal (snd (initiate_finish cf env u dto pl descr t s)) = db_journal s"
  "db_transfers (snd (initiate_finish cf env u dto pl descr t s)) = db_transfers s"
  "db_transactions (snd (initiate_finish cf env u dto pl descr t s)) = db_transactions s"
  "db_users (snd (initiate_finish cf env u dto pl descr t s)) = db_users s"
  "db_overrides (snd (initiate_finish cf env u dto pl descr t s)) = db_overrides s"
  by (simp_all add: initiate_finish_def Let_def)

lemma initiate_cases:
  assumes "initiate cf env ids userId key dto s = Inr (r, s')"
  obtains (replay) t where "find_unique tr_idempotencyKey key (db_transfers s) = Some t"
      "tr_initiatedByUserId t = userId" "r = replay_result cf t" "s' = s"
  | (fresh) pl t s1 where "initiate_check cf env userId key dto s = Inr (Proceed pl)"
      "initiate_commit cf env userId key dto pl (fst ids) (snd ids)
         (describeTransfer s dto (pl_from pl) (pl_to pl)) s = Inr (t, s1)"
      "(r, s') = initiate_finish cf env userId dto pl (describeTransfer s dto (pl_from pl) (pl_to pl)) t s1"
proof -
  obtain c where c: "initiate_check cf env userId key dto s = Inr c"
    using assms by (auto simp: initiate_def err_simps)
  show ?thesis
  proof (cases c)
    case (Replay r0)
    then show ?thesis using assms c initiate_check_Replay [of cf env userId key dto s r0]
      by (auto simp: initiate_def intro: replay)
  next
    case (Proceed pl)
    then show ?thesis using assms c
      by (auto simp: initiate_def Let_def err_simps intro: fresh)
  qed
qed

lemma finish_snd: "(r, s') = f \<Longrightarrow> s' = snd f" "(r, s') = f \<Longrightarrow> r = fst f"
  by auto

lemma initiate_keeps_ledger:
  assumes "initiate cf env ids userId key dto s = Inr (r, s')" "0 \<le> cf_feeMin cf"
  shows "(ledger_inv s \<longrightarrow> ledger_inv s') \<and> drift s' k = drift s k"
  using assms(1)
proof (cases rule: initiate_cases)
  case (fresh pl t s1)
  note c = initiate_commit_Inr [OF fresh(2)]
  have s': "s' = snd (initiate_finish cf env userId dto pl (describeTransfer s dto (pl_from pl) (pl_to pl)) t s1)"
    using fresh(3) by (rule finish_snd)
  have "ledger_inv s \<longrightarrow> ledger_inv s'"
    using c(16) s' ledger_inv_cong [of s' s1] by simp
  moreover
  have "drift s1 k = drift s k"
    using plan_fee_nonneg [OF fresh(1) assms(2)]
    by (intro drift_cong [OF c(6) c(9)]) (simp_all add: ledger_simps)
  then have "drift s' k = drift s k" using s' drift_same [of s' s1] by simp
  ultimately show ?thesis by blast
qed simp

text \<open>Initiating a transfer keeps the double-entry books: when a request succeeds, every
  journal entry still balances, and for every customer account the cached balance moves exactly as
  its sub-ledger does.\<close>

theorem initiate_keeps_books:
  assumes "initiate cf env ids userId key dto s = Inr (r, s')" "0 \<le> cf_feeMin cf" "ledger_inv s"
  shows "ledger_inv s' \<and> (\<forall>k. drift s' k = drift s k)"
  using initiate_keeps_ledger [OF assms(1,2)] assms(3) by blast

text \<open>C3. A successful request that is no replay debits the source account by the settlement amount
  plus the fee, never below zero, leaves every other balance alone, and records one pending
  transaction for minus that sum and one pending transfer owned by the caller.\<close>

theorem initiate_debits_once:
  assumes ok: "initiate cf env ids userId key dto s = Inr (r, s')"
    and new: "find_unique tr_idempotencyKey key (db_transfers s) = None"
  shows "\<exists>t a. transfer_of s' (fst ids) = Some t \<and> tr_status t = TxPending \<and>
           tr_initiatedByUserId t = userId \<and> tr_idempotencyKey t = key \<and>
           account_of s (d_fromAccountId dto) = Some a \<and> a_userId a = userId \<and>
           balance_of s' (d_fromAccountId dto) =
             Some (a_balanceCents a - (tr_amountCents t + tr_feeCents t)) \<and>
           0 \<le> a_balanceCents a - (tr_amountCents t + tr_feeCents t) \<and>
           (\<forall>k. k \<noteq> d_fromAccountId dto \<longrightarrow> balance_of s' k = balance_of s k) \<and>
           (\<exists>x. db_transactions s' = db_transactions s @ [x] \<and> t_id x = snd ids \<and>
              t_accountId x = d_fromAccountId dto \<and> t_status x = TxPending \<and>
              t_amountCents x = - (tr_amountCents t + tr_feeCents t))"
  using ok
proof (cases rule: initiate_cases)
  case (replay t)
  with new show ?thesis by simp
next
  case (fresh pl t s1)
  note c = initiate_commit_Inr [OF fresh(2)] and k = initiate_check_Proceed [OF fresh(1)]
  have fid: "a_id (pl_from pl) = d_fromAccountId dto" by (rule plan_from_id [OF fresh(1)])
  have s': "db_accounts s' = db_accounts s1" "db_transfers s' = db_transfers s1"
    "db_transactions s' = db_transactions s1"
    using finish_snd(1) [OF fresh(3)] by simp_all
  have "balance_of s' (d_fromAccountId dto) =
      Some (a_balanceCents (pl_from pl) - (pl_settlementCents pl + pl_feeCents pl))"
    using k(3) by (simp add: balance_of_def s' c(6) fid table_simps)
  moreover have "balance_of s' j = balance_of s j" if "j \<noteq> d_fromAccountId dto" for j
    using that by (simp add: balance_of_def s' c(6) fid table_simps)
  moreover have "transfer_of s' (fst ids) = Some t"
    using c(1,3,7) by (simp add: s' table_simps pending_transfer_def)
  ultimately show ?thesis
    using k(3,4,6) c(1,8) s' fid
    by (auto simp: pending_transfer_def pending_transaction_def)
qed

lemma initiate_replay:
  assumes first: "initiate cf env ids userId key dto s = Inr (r, s')"
    and enabled: "\<forall>u. user_of s' userId = Some u \<longrightarrow> \<not> u_transfersDisabled u" "key \<noteq> ''''"
  shows "\<exists>r'. initiate cf env' ids' userId key dto' s' = Inr (r', s') \<and>
           ir_transferId r' = ir_transferId r \<and> ir_feeCents r' = ir_feeCents r \<and>
           ir_pendingTransactionId r' = ir_pendingTransactionId r"
  using first
proof (cases rule: initiate_cases)
  case (replay t)
  then show ?thesis using enabled
    by (auto simp: initiate_def initiate_check_def replay_result_def require_def split: option.splits)
next
  case (fresh pl t s1)
  note c = initiate_commit_Inr [OF fresh(2)]
  have "db_transfers s' = db_transfers s @ [t]" using finish_snd(1) [OF fresh(3)] c(7) by simp
  then have "find_unique tr_idempotencyKey key (db_transfers s') = Some t"
    using c(1,4) by (simp add: table_simps pending_transfer_def)
  moreover have "tr_initiatedByUserId t = userId" using c(1) by (simp add: pending_transfer_def)
  moreover have "r = fst (initiate_finish cf env userId dto pl
      (describeTransfer s dto (pl_from pl) (pl_to pl)) t s1)"
    using fresh(3) by (rule finish_snd)
  ultimately show ?thesis using enabled c(1)
    by (auto simp: initiate_def initiate_check_def replay_result_def require_def initiate_finish_def
        Let_def pending_transfer_def split: option.splits)
qed

text \<open>What the services that start transfers for their users rely on: the books are kept, and a
  key that went through once is safe to repeat. \<open>good\<close> is the condition on the settings.\<close>

definition transfers_enabled :: "string \<Rightarrow> bank \<Rightarrow> bool" where
  "transfers_enabled userId s = (case user_of s userId of None \<Rightarrow> True | Some u \<Rightarrow> \<not> u_transfersDisabled u)"

locale transfer_service =
  fixes init :: "config \<Rightarrow> request_env \<Rightarrow> string \<times> string \<Rightarrow> string \<Rightarrow> string \<Rightarrow> transfer_dto \<Rightarrow> bank \<Rightarrow>
      (initiate_result \<times> bank) result"
    and good :: "config \<Rightarrow> bool"
  assumes books: "init cf env ids u key dto s = Inr (r, s') \<Longrightarrow> good cf \<Longrightarrow>
      (ledger_inv s \<longrightarrow> ledger_inv s') \<and> drift s' k = drift s k"
    and replay: "init cf env ids u key dto s = Inr (r, s') \<Longrightarrow> transfers_enabled u s' \<Longrightarrow> key \<noteq> '''' \<Longrightarrow>
      \<exists>r'. init cf env' ids' u key dto' s' = Inr (r', s') \<and> ir_transferId r' = ir_transferId r"
begin

lemma retry_state:
  assumes "init cf env ids u key dto s = Inr (r, s')" "transfers_enabled u s'" "key \<noteq> ''''"
    "init cf env' ids' u key dto' s' = Inr (r'', s'')"
  shows "s'' = s'" "ir_transferId r'' = ir_transferId r"
  using replay [OF assms(1-3), of env' ids' dto'] assms(4) by auto

lemma retry_books:
  assumes "init cf env ids u key dto s = Inr (r, s')" "transfers_enabled u s'" "key \<noteq> ''''" "good cf"
    "init cf env' ids' u key dto' s' = Inr (r'', s'')"
  shows "drift s'' k = drift s k"
  using retry_state(1) [OF assms(1-3,5)] books [OF assms(1,4)] by simp

end

interpretation svc: transfer_service initiate "\<lambda>cf. 0 \<le> cf_feeMin cf"
proof unfold_locales
  show "(ledger_inv s \<longrightarrow> ledger_inv s') \<and> drift s' k = drift s k"
    if "initiate cf env ids u key dto s = Inr (r, s')" "0 \<le> cf_feeMin cf" for cf env ids u key dto s r s' k
    using initiate_keeps_ledger [OF that] .
  show "\<exists>r'. initiate cf env' ids' u key dto' s' = Inr (r', s') \<and> ir_transferId r' = ir_transferId r"
    if "initiate cf env ids u key dto s = Inr (r, s')" "transfers_enabled u s'" "key \<noteq> ''''"
    for cf env ids u key dto s r s' env' ids' dto'
    using initiate_replay [OF that(1) _ that(3)] that(2) by (fastforce simp: transfers_enabled_def)
qed

text \<open>C7. Idempotency: a request that repeats the key of an earlier transfer of the same user
  returns that transfer and changes nothing, whatever else the request says.\<close>

theorem initiate_replay_is_idempotent:
  assumes first: "initiate cf env ids userId key dto s = Inr (r, s')"
    and enabled: "\<forall>u. user_of s' userId = Some u \<longrightarrow> \<not> u_transfersDisabled u" "key \<noteq> ''''"
  shows "\<exists>r'. initiate cf env' ids' userId key dto' s' = Inr (r', s') \<and>
           ir_transferId r' = ir_transferId r \<and> ir_feeCents r' = ir_feeCents r \<and>
           ir_pendingTransactionId r' = ir_pendingTransactionId r"
  using initiate_replay [OF assms] .

text \<open>The transaction is safe under interleaving: run in any state at all, after other requests
  changed balances or spent the key since the checks, a commit either throws or leaves the source
  account at or above zero and the idempotency key unique.\<close>

theorem initiate_commit_safe_in_any_state:
  assumes "initiate_commit cf env userId key dto pl transferId pendingTxId descr s = Inr (t, s')"
    and "distinct (map tr_idempotencyKey (db_transfers s))"
  shows "(\<exists>b. balance_of s' (a_id (pl_from pl)) = Some b \<and> 0 \<le> b) \<and>
         distinct (map tr_idempotencyKey (db_transfers s'))"
proof -
  note c = initiate_commit_Inr [OF assms(1)]
  obtain a where a: "account_of s (a_id (pl_from pl)) = Some a"
    "pl_settlementCents pl + pl_feeCents pl \<le> a_balanceCents a" using c(2) by blast
  then have "balance_of s' (a_id (pl_from pl)) =
      Some (a_balanceCents a - (pl_settlementCents pl + pl_feeCents pl))"
    by (simp add: balance_of_def c(6) table_simps)
  moreover have "key \<notin> tr_idempotencyKey ` set (db_transfers s)"
    using c(4) by (simp add: find_unique_None_iff)
  ultimately show ?thesis using a(2) assms(2) c(1,7) by (auto simp: pending_transfer_def)
qed

end
