(* ===== verification/Settlement.thy ===== *)
theory Settlement
  imports Transfers
begin

text \<open>
  Settlement of a pending transfer (\<^verbatim>\<open>transfers/settlement.worker.ts\<close>), the ops rescue
  (\<open>forceSettle\<close> of \<^verbatim>\<open>transfers/transfers.service.ts\<close>) and the failure path
  (\<open>onFailed\<close>, \<open>markFailed\<close>). The worker reads the transfer row, decides whether to settle
  (\<open>settle_check\<close>), and only then opens the database transaction (\<open>settle_commit\<close>), which does not
  look at the status again; the two are separate definitions so that both orders of two workers can
  be told apart.
\<close>

definition INFLOW_KINDS :: "transfer_kind list" where
  "INFLOW_KINDS = [AchIn, WireIn]"

definition settle_check :: "string \<Rightarrow> bank \<Rightarrow> transfer option" where
  "settle_check transferId s =
     (case transfer_of s transferId of
        None \<Rightarrow> None
      | Some t \<Rightarrow>
          if tr_status t \<noteq> TxPending then None
          else if tr_requiresReview t \<and> tr_reviewDecision t \<noteq> Some Approved then None
          else Some t)"

definition to_account :: "transfer \<Rightarrow> bool" where
  "to_account t = ((tr_kind t = Internal \<or> tr_kind t = P2P) \<and> truthy_str (tr_toAccountId t))"

definition move_input :: "string \<Rightarrow> string \<Rightarrow> int \<Rightarrow> posting_input list" where
  "move_input debitCode creditCode amount =
     [\<lparr>pi_code = debitCode, pi_direction = Debit, pi_amountCents = amount, pi_meta = None\<rparr>,
      \<lparr>pi_code = creditCode, pi_direction = Credit, pi_amountCents = amount, pi_meta = None\<rparr>]"

definition sender_name :: "string \<Rightarrow> bank \<Rightarrow> string" where
  "sender_name userId s = (case user_of s userId of None \<Rightarrow> '''' | Some u \<Rightarrow> display_name u)"

definition credit_row :: "int \<Rightarrow> transfer \<Rightarrow> string \<Rightarrow> string \<Rightarrow> string \<Rightarrow> transaction" where
  "credit_row now t settledTxId destId senderName =
     \<lparr>t_id = settledTxId, t_accountId = destId,
      t_kind = (if tr_kind t = P2P then KP2pIn else KAdjustment), t_status = TxPosted,
      t_amountCents = tr_amountCents t,
      t_description = (if senderName \<noteq> '''' then ''From '' @ senderName
                       else if tr_kind t = P2P then ''Payment received'' else ''Internal transfer in''),
      t_category = (if tr_kind t = P2P then CatIncome else CatTransfer), t_note = None,
      t_occurredAt = now, t_postedAt = Some now,
      t_metadata = Some \<lparr>m_transferId = Some (tr_id t), m_fx = None, m_reversedByAdmin = None\<rparr>\<rparr>"

definition inflow_row :: "int \<Rightarrow> transfer \<Rightarrow> string \<Rightarrow> string \<Rightarrow> transaction" where
  "inflow_row now t newTxId accountId =
     \<lparr>t_id = newTxId, t_accountId = accountId, t_kind = KAchIn, t_status = TxPosted,
      t_amountCents = tr_amountCents t, t_description = ''Inbound transfer'', t_category = CatIncome,
      t_note = None, t_occurredAt = now, t_postedAt = Some now,
      t_metadata = Some \<lparr>m_transferId = Some (tr_id t), m_fx = None, m_reversedByAdmin = None\<rparr>\<rparr>"

text \<open>The three ways money leaves the pending account, each with its postings.\<close>

definition settle_branch ::
  "int \<Rightarrow> transfer \<Rightarrow> account \<Rightarrow> string \<Rightarrow> string \<Rightarrow> bank \<Rightarrow> (posting_input list \<times> bank) result" where
  "settle_branch now t sender settledTxId newTxId s =
     (if to_account t then
        ebind (or_throw (PlainError ''Destination account vanished'')
                 (account_of s (the (tr_toAccountId t)))) (\<lambda>dest.
        ebind (credit_account (a_id dest) (tr_amountCents t)
                 (ensureAccountLedger (a_id dest) (a_userId dest) s)) (\<lambda>s1.
        ebind (create_unique ''id'' t_id
                 (credit_row now t settledTxId (a_id dest) (sender_name (a_userId sender) s1))
                 (db_transactions s1)) (\<lambda>txs.
        Inr (move_input PendingOut (accountSubLedgerCode (a_id dest)) (tr_amountCents t),
             s1\<lparr>db_transactions := txs\<rparr>))))
      else if tr_kind t \<in> set INFLOW_KINDS then
        ebind (credit_account (a_id sender) (tr_amountCents t) s) (\<lambda>s1.
        ebind (create_unique ''id'' t_id (inflow_row now t newTxId (a_id sender)) (db_transactions s1)) (\<lambda>txs.
        Inr (move_input Cash (accountSubLedgerCode (a_id sender)) (tr_amountCents t),
             s1\<lparr>db_transactions := txs\<rparr>)))
      else Inr (move_input PendingOut Cash (tr_amountCents t), s))"

definition settle_journal :: "int \<Rightarrow> transfer \<Rightarrow> posting_input list \<Rightarrow> journal_input" where
  "settle_journal now t ps =
     \<lparr>ji_description = ''Settle '' @ kind_name (tr_kind t), ji_occurredAt = now,
      ji_source = ''transfer:'' @ tr_id t @ '':settle'', ji_referenceId = Some (tr_id t), ji_postings = ps\<rparr>"

definition mark_pending_posted :: "int \<Rightarrow> transfer \<Rightarrow> bank \<Rightarrow> bank result" where
  "mark_pending_posted now t s =
     (if truthy_str (tr_pendingTransactionId t)
      then ebind (update_unique t_id (the (tr_pendingTransactionId t))
                    (\<lambda>x. x\<lparr>t_status := TxPosted, t_postedAt := Some now\<rparr>) (db_transactions s)) (\<lambda>txs.
           Inr (s\<lparr>db_transactions := txs\<rparr>))
      else Inr s)"

definition settle_commit :: "int \<Rightarrow> transfer \<Rightarrow> string \<times> string \<Rightarrow> bank \<Rightarrow> bank result" where
  "settle_commit now t ids s =
     ebind (or_throw (PlainError ''Sender account vanished'') (account_of s (tr_fromAccountId t))) (\<lambda>sender.
     ebind (settle_branch now t sender (fst ids) (snd ids)
              (ensureAccountLedger (a_id sender) (a_userId sender) s)) (\<lambda>(ps, s1).
     ebind (post (settle_journal now t ps) s1) (\<lambda>(_, s2).
     ebind (mark_pending_posted now t s2) (\<lambda>s3.
     ebind (update_unique tr_id (tr_id t)
              (\<lambda>x. x\<lparr>tr_status := TxPosted, tr_settledAt := Some now,
                     tr_settledTransactionId := Some (fst ids)\<rparr>) (db_transfers s3)) (\<lambda>trs.
     Inr (s3\<lparr>db_transfers := trs\<rparr>))))))"

definition settle_finish :: "int \<Rightarrow> transfer \<Rightarrow> string \<Rightarrow> bank \<Rightarrow> bank" where
  "settle_finish now t settledTxId s =
     (let s1 = (case account_of s (tr_fromAccountId t) of
                  None \<Rightarrow> s
                | Some a \<Rightarrow> emit (EvAccountBalanceChanged (a_userId a) (a_id a) (a_balanceCents a) now) s);
          s2 = emit (EvTransactionSettled (tr_initiatedByUserId t) (tr_fromAccountId t)
                 (case tr_pendingTransactionId t of Some x \<Rightarrow> x | None \<Rightarrow> settledTxId)
                 (tr_id t) (tr_amountCents t) now) s1;
          s3 = (if to_account t then
                  (case account_of s2 (the (tr_toAccountId t)) of
                     None \<Rightarrow> s2
                   | Some r \<Rightarrow>
                       emit (EvTransactionCreated (a_userId r) (a_id r) settledTxId (tr_amountCents t) TxPosted now None)
                         (emit (EvAccountBalanceChanged (a_userId r) (a_id r) (a_balanceCents r) now)
                           (emit (EvTransactionSettled (a_userId r) (a_id r) settledTxId (tr_id t) (tr_amountCents t) now) s2)))
                else s2)
      in emit (EvAdminTransferSettled (tr_id t) (tr_initiatedByUserId t)
                 (tr_kind t \<in> set INFLOW_KINDS) (tr_amountCents t) (tr_kind t) now) s3)"

definition process :: "int \<Rightarrow> string \<times> string \<Rightarrow> string \<Rightarrow> bank \<Rightarrow> bank result" where
  "process now ids transferId s =
     (case settle_check transferId s of
        None \<Rightarrow> Inr s
      | Some t \<Rightarrow> ebind (settle_commit now t ids s) (\<lambda>s'. Inr (settle_finish now t (fst ids) s')))"

section \<open>Failure and rescue\<close>

definition markFailed :: "int \<Rightarrow> string \<Rightarrow> string \<Rightarrow> bank \<Rightarrow> bank" where
  "markFailed now transferId reason s =
     s\<lparr>db_transfers := update_many (\<lambda>t. tr_id t = transferId)
         (\<lambda>t. t\<lparr>tr_status := TxDeclined, tr_failureReason := Some reason, tr_settledAt := Some now\<rparr>)
         (db_transfers s)\<rparr>"

definition onFailed :: "int \<Rightarrow> nat \<Rightarrow> nat option \<Rightarrow> string \<Rightarrow> string \<Rightarrow> bank \<Rightarrow> bank" where
  "onFailed now attemptsMade attempts transferId reason s =
     (if attemptsMade \<ge> (case attempts of None \<Rightarrow> 1 | Some n \<Rightarrow> n)
      then markFailed now transferId reason s else s)"

definition reset_pending :: "string \<Rightarrow> transfer \<Rightarrow> bank \<Rightarrow> bank" where
  "reset_pending transferId t s =
     (if tr_status t \<noteq> TxPending
      then s\<lparr>db_transfers := update_many (\<lambda>x. tr_id x = transferId)
               (\<lambda>x. x\<lparr>tr_status := TxPending, tr_settledAt := None, tr_settledTransactionId := None\<rparr>)
               (db_transfers s)\<rparr>
      else s)"

definition is_queued :: "string \<Rightarrow> settle_job \<Rightarrow> bool" where
  "is_queued transferId j = (case j of QueuedJob i _ \<Rightarrow> i = transferId | TimerJob _ _ \<Rightarrow> False)"

text \<open>With Redis up the stale job is dropped and a fresh one queued without delay; with Redis down
  the worker runs at once, and an exception of the worker leaves the row reset.\<close>

definition forceSettle :: "int \<Rightarrow> bool \<Rightarrow> string \<times> string \<Rightarrow> string \<Rightarrow> bank \<Rightarrow> string result \<times> bank" where
  "forceSettle now queueUp ids transferId s =
     (case transfer_of s transferId of
        None \<Rightarrow> (Inl (PlainError (''Transfer '' @ transferId @ '' not found'')), s)
      | Some t \<Rightarrow>
          (let s1 = reset_pending transferId t s
           in if queueUp
              then (Inr transferId,
                    s1\<lparr>jobs := filter (\<lambda>j. \<not> is_queued transferId j) (jobs s1) @ [QueuedJob transferId 0]\<rparr>)
              else case process now ids transferId s1 of
                     Inl e \<Rightarrow> (Inl e, s1)
                   | Inr s2 \<Rightarrow> (Inr transferId, s2)))"

text \<open>The customer's endpoint: an ownership check, then the rescue.\<close>

definition force_settle_endpoint ::
  "int \<Rightarrow> bool \<Rightarrow> string \<times> string \<Rightarrow> string \<Rightarrow> string \<Rightarrow> bank \<Rightarrow> string result \<times> bank" where
  "force_settle_endpoint now queueUp ids userId transferId s =
     (case getForUser userId transferId s of
        Inl e \<Rightarrow> (Inl e, s)
      | Inr _ \<Rightarrow> forceSettle now queueUp ids transferId s)"

section \<open>Lemmas\<close>

lemma move_input_length [simp]: "2 \<le> length (move_input d c a)"
  by (simp add: move_input_def)

lemma move_input_balanced: "sum_direction Debit (move_input d c a) = sum_direction Credit (move_input d c a)"
  by (simp add: move_input_def sum_direction_def)

lemma move_input_net [ledger_simps]:
  "input_net k (move_input d c a) = (if k = c then a else 0) - (if k = d then a else 0)"
  by (simp add: move_input_def input_net_Cons input_net_Nil)

lemma settle_check_Some:
  "settle_check i s = Some t \<longleftrightarrow> transfer_of s i = Some t \<and> tr_status t = TxPending \<and>
     (tr_requiresReview t \<longrightarrow> tr_reviewDecision t = Some Approved)"
  by (auto simp: settle_check_def split: option.splits)

lemma settle_check_id: "settle_check i s = Some t \<Longrightarrow> tr_id t = i"
  by (auto simp: settle_check_Some dest: find_unique_SomeD)

text \<open>The account a settlement credits, if any, and where the money comes from.\<close>

definition credited :: "transfer \<Rightarrow> string option" where
  "credited t = (if to_account t then tr_toAccountId t
     else if tr_kind t \<in> set INFLOW_KINDS then Some (tr_fromAccountId t) else None)"

definition settle_source :: "transfer \<Rightarrow> string" where
  "settle_source t = (if \<not> to_account t \<and> tr_kind t \<in> set INFLOW_KINDS then Cash else PendingOut)"

definition settle_target :: "transfer \<Rightarrow> string" where
  "settle_target t = (case credited t of None \<Rightarrow> Cash | Some i \<Rightarrow> accountSubLedgerCode i)"

definition credit_rows :: "string \<Rightarrow> int \<Rightarrow> account list \<Rightarrow> account list" where
  "credit_rows i d t = update_many (\<lambda>a. a_id a = i) (\<lambda>a. a\<lparr>a_balanceCents := a_balanceCents a + d\<rparr>) t"

text \<open>What a branch does to the shared state, in one predicate over the state before and after.\<close>

definition branch_effect :: "transfer \<Rightarrow> bank \<Rightarrow> posting_input list \<Rightarrow> bank \<Rightarrow> bool" where
  "branch_effect t s ps s' \<longleftrightarrow>
     ps = move_input (settle_source t) (settle_target t) (tr_amountCents t) \<and>
     db_accounts s' = (case credited t of None \<Rightarrow> db_accounts s
       | Some i \<Rightarrow> credit_rows i (tr_amountCents t) (db_accounts s)) \<and>
     (\<forall>i. credited t = Some i \<longrightarrow> account_of s i \<noteq> None) \<and>
     db_postings s' = db_postings s \<and> db_journal s' = db_journal s \<and> db_transfers s' = db_transfers s \<and>
     db_users s' = db_users s \<and> db_overrides s' = db_overrides s \<and> db_audit s' = db_audit s \<and>
     bus s' = bus s \<and> mails s' = mails s \<and> jobs s' = jobs s \<and>
     (ledger_inv s \<longrightarrow> ledger_inv s') \<and>
     la_code ` set (db_ledgerAccounts s) \<subseteq> la_code ` set (db_ledgerAccounts s') \<and>
     (\<exists>new. db_transactions s' = db_transactions s @ new \<and>
        (case credited t of None \<Rightarrow> new = []
         | Some i \<Rightarrow> \<exists>r. new = [r] \<and> t_accountId r = i \<and> t_amountCents r = tr_amountCents t \<and>
             t_status r = TxPosted))"

lemmas settle_ends = credited_def settle_source_def settle_target_def

lemma to_account_Some: "to_account t \<Longrightarrow> \<exists>d. tr_toAccountId t = Some d"
  by (auto simp: to_account_def truthy_str_def)

lemma settle_branch_account:
  assumes "settle_branch now t sender x y s = Inr (ps, s')" "to_account t"
  shows "branch_effect t s ps s'"
proof -
  obtain d where d: "tr_toAccountId t = Some d" using to_account_Some [OF assms(2)] by blast
  obtain dest where dest: "account_of s d = Some dest" "a_id dest = d"
    using assms d by (auto simp: settle_branch_def err_simps dest: find_unique_SomeD)
  let ?s = "ensureAccountLedger d (a_userId dest) s"
  let ?a = "credit_rows d (tr_amountCents t) (db_accounts s)"
  have s': "s' = ?s\<lparr>db_accounts := ?a, db_transactions := db_transactions s @
        [credit_row now t x d (sender_name (a_userId sender) (?s\<lparr>db_accounts := ?a\<rparr>))]\<rparr>"
    and ps: "ps = move_input PendingOut (accountSubLedgerCode d) (tr_amountCents t)"
    using assms d dest by (auto simp: settle_branch_def err_simps credit_rows_def)
  have "ledger_inv s \<Longrightarrow> ledger_inv s'"
    using ledger_inv_ensure [of s d "a_userId dest"] ledger_inv_cong [of s' ?s] by (simp add: s')
  then show ?thesis using assms(2) d dest
    by (auto simp: s' ps settle_ends credit_row_def branch_effect_def)
qed

lemma settle_branch_inflow:
  assumes "settle_branch now t sender x y s = Inr (ps, s')" "a_id sender = tr_fromAccountId t"
    "\<not> to_account t" "tr_kind t \<in> set INFLOW_KINDS"
  shows "branch_effect t s ps s'"
proof -
  have s': "s' = s\<lparr>db_accounts := credit_rows (tr_fromAccountId t) (tr_amountCents t) (db_accounts s),
      db_transactions := db_transactions s @ [inflow_row now t y (tr_fromAccountId t)]\<rparr>"
    and ps: "ps = move_input Cash (accountSubLedgerCode (tr_fromAccountId t)) (tr_amountCents t)"
    and ex: "account_of s (tr_fromAccountId t) \<noteq> None"
    using assms by (auto simp: settle_branch_def err_simps credit_rows_def)
  have "ledger_inv s \<Longrightarrow> ledger_inv s'" using ledger_inv_cong [of s' s] by (simp add: s')
  then show ?thesis using assms(3,4) ex
    by (auto simp: s' ps settle_ends inflow_row_def branch_effect_def)
qed

lemma settle_branch_out:
  assumes "settle_branch now t sender x y s = Inr (ps, s')"
    "\<not> to_account t" "tr_kind t \<notin> set INFLOW_KINDS"
  shows "branch_effect t s ps s'"
  using assms by (auto simp: settle_branch_def settle_ends branch_effect_def)

lemmas settle_branch_effect = settle_branch_account settle_branch_inflow settle_branch_out

lemma settle_commit_Inr:
  assumes "settle_commit now t ids s = Inr s'"
  shows "account_of s (tr_fromAccountId t) \<noteq> None"
    and "db_accounts s' = (case credited t of None \<Rightarrow> db_accounts s
           | Some i \<Rightarrow> credit_rows i (tr_amountCents t) (db_accounts s))"
    and "\<And>i. credited t = Some i \<Longrightarrow> account_of s i \<noteq> None"
    and "db_postings s' = db_postings s @ map (mk_posting (length (db_journal s)))
           (move_input (settle_source t) (settle_target t) (tr_amountCents t))"
    and "db_transfers s' = update_many (\<lambda>x. tr_id x = tr_id t)
           (\<lambda>x. x\<lparr>tr_status := TxPosted, tr_settledAt := Some now,
                  tr_settledTransactionId := Some (fst ids)\<rparr>) (db_transfers s)"
    and "db_users s' = db_users s" "db_overrides s' = db_overrides s" "db_audit s' = db_audit s"
      "bus s' = bus s" "mails s' = mails s" "jobs s' = jobs s"
    and "ledger_inv s \<Longrightarrow> ledger_inv s'"
    and "la_code ` set (db_ledgerAccounts s) \<subseteq> la_code ` set (db_ledgerAccounts s')"
proof -
  obtain sender ps e s1 s2 s3 where sender: "account_of s (tr_fromAccountId t) = Some sender"
    and b: "settle_branch now t sender (fst ids) (snd ids)
              (ensureAccountLedger (a_id sender) (a_userId sender) s) = Inr (ps, s1)"
    and p: "post (settle_journal now t ps) s1 = Inr (e, s2)"
    and m: "mark_pending_posted now t s2 = Inr s3"
    and s': "s' = s3\<lparr>db_transfers := update_many (\<lambda>x. tr_id x = tr_id t)
           (\<lambda>x. x\<lparr>tr_status := TxPosted, tr_settledAt := Some now,
                  tr_settledTransactionId := Some (fst ids)\<rparr>) (db_transfers s3)\<rparr>"
    using assms by (auto simp: settle_commit_def err_simps)
  let ?s0 = "ensureAccountLedger (a_id sender) (a_userId sender) s"
  have "branch_effect t ?s0 ps s1"
    using settle_branch_effect [OF b] find_unique_SomeD [OF sender] by blast
  note eff = this [unfolded branch_effect_def]
  have post: "db_postings s2 = db_postings s1 @ map (mk_posting (length (db_journal s1))) ps"
    using post_frame(12) [OF p] by (simp add: settle_journal_def)
  obtain txs where s3: "s3 = s2\<lparr>db_transactions := txs\<rparr>"
  proof (cases "truthy_str (tr_pendingTransactionId t)")
    case False
    then have "s3 = s2\<lparr>db_transactions := db_transactions s2\<rparr>"
      using m by (simp add: mark_pending_posted_def)
    then show ?thesis by (rule that)
  qed (use m that in \<open>auto simp: mark_pending_posted_def err_simps\<close>)
  have "ledger_inv s \<Longrightarrow> ledger_inv s2"
    using eff ledger_inv_ensure ledger_inv_post [OF p] by blast
  then show "ledger_inv s \<Longrightarrow> ledger_inv s'"
    using ledger_inv_cong [of s' s2] by (simp add: s' s3)
  have "la_code ` set (db_ledgerAccounts s) \<subseteq> la_code ` set (db_ledgerAccounts s1)"
    using eff by simp
  then show "la_code ` set (db_ledgerAccounts s) \<subseteq> la_code ` set (db_ledgerAccounts s')"
    using post_codes [OF p] by (simp add: s' s3)
  show "account_of s (tr_fromAccountId t) \<noteq> None" using sender by simp
  show "db_accounts s' = (case credited t of None \<Rightarrow> db_accounts s
           | Some i \<Rightarrow> credit_rows i (tr_amountCents t) (db_accounts s))"
    "\<And>i. credited t = Some i \<Longrightarrow> account_of s i \<noteq> None"
    "db_postings s' = db_postings s @ map (mk_posting (length (db_journal s)))
           (move_input (settle_source t) (settle_target t) (tr_amountCents t))"
    "db_transfers s' = update_many (\<lambda>x. tr_id x = tr_id t)
           (\<lambda>x. x\<lparr>tr_status := TxPosted, tr_settledAt := Some now,
                  tr_settledTransactionId := Some (fst ids)\<rparr>) (db_transfers s)"
    "db_users s' = db_users s" "db_overrides s' = db_overrides s" "db_audit s' = db_audit s"
      "bus s' = bus s" "mails s' = mails s" "jobs s' = jobs s"
    using eff post post_frame [OF p] by (simp_all add: s' s3 split: option.split)
qed

lemma settle_finish_frame [simp]:
  "db_accounts (settle_finish now t x s) = db_accounts s"
  "db_postings (settle_finish now t x s) = db_postings s"
  "db_journal (settle_finish now t x s) = db_journal s"
  "db_ledgerAccounts (settle_finish now t x s) = db_ledgerAccounts s"
  "db_transfers (settle_finish now t x s) = db_transfers s"
  "db_transactions (settle_finish now t x s) = db_transactions s"
  "db_users (settle_finish now t x s) = db_users s" "db_overrides (settle_finish now t x s) = db_overrides s"
  "jobs (settle_finish now t x s) = jobs s" "mails (settle_finish now t x s) = mails s"
  "db_audit (settle_finish now t x s) = db_audit s"
  by (simp_all add: settle_finish_def Let_def split: option.split)

lemma settle_commit_drift:
  assumes "settle_commit now t ids s = Inr s'"
  shows "drift s' k = drift s k"
proof (cases "credited t")
  case None
  then show ?thesis using settle_commit_Inr(2,4) [OF assms]
    by (auto simp: drift_def net_of_def ledger_simps settle_source_def settle_target_def
        option.map_comp o_def intro: option.map_cong)
next
  case (Some i)
  then have acc: "db_accounts s' = update_many (\<lambda>a. a_id a = i)
      (\<lambda>a. a\<lparr>a_balanceCents := a_balanceCents a + tr_amountCents t\<rparr>) (db_accounts s)"
    using settle_commit_Inr(2) [OF assms] by (simp add: credit_rows_def)
  show ?thesis using Some
    by (intro drift_cong [OF acc settle_commit_Inr(4) [OF assms]])
      (simp_all add: ledger_simps settle_source_def settle_target_def)
qed

lemma process_cases:
  assumes "process now ids i s = Inr s'"
  obtains (skip) "settle_check i s = None" "s' = s"
  | (settle) t s1 where "settle_check i s = Some t" "settle_commit now t ids s = Inr s1"
      "s' = settle_finish now t (fst ids) s1"
  using assms by (auto simp: process_def err_simps split: option.splits)

lemma process_keeps_ledger:
  assumes "process now ids i s = Inr s'"
  shows "(ledger_inv s \<longrightarrow> ledger_inv s') \<and> drift s' k = drift s k"
  using assms
proof (cases rule: process_cases)
  case (settle t s1)
  have "ledger_inv s \<longrightarrow> ledger_inv s'"
    using settle_commit_Inr(12) [OF settle(2)] ledger_inv_cong [of s' s1] settle(3) by simp
  then show ?thesis
    using settle_commit_drift [OF settle(2)] drift_same [of s' s1] settle(3) by simp
qed simp

lemma find_settled:
  assumes "transfer_of s i = Some t" "settle_commit now t ids s = Inr s'"
  shows "transfer_of s' i = Some (t\<lparr>tr_status := TxPosted, tr_settledAt := Some now,
           tr_settledTransactionId := Some (fst ids)\<rparr>)"
  using assms find_unique_SomeD [OF assms(1)]
  by (simp add: settle_commit_Inr(5) [OF assms(2)] table_simps)

lemma balance_after_settle:
  assumes "settle_commit now t ids s = Inr s'"
  shows "balance_of s' k = map_option (\<lambda>b. if credited t = Some k then b + tr_amountCents t else b) (balance_of s k)"
  by (cases "credited t")
    (auto simp: settle_commit_Inr(2) [OF assms] balance_of_def credit_rows_def table_simps
      option.map_comp o_def split: option.split)

lemma net_after_settle:
  assumes "settle_commit now t ids s = Inr s'"
  shows "net_of s' c = net_of s c + (if c = settle_target t then tr_amountCents t else 0) -
           (if c = settle_source t then tr_amountCents t else 0)"
  by (simp add: settle_commit_Inr(4) [OF assms] net_of_def ledger_simps)

section \<open>Properties\<close>

text \<open>A run of the settlement worker keeps the books: every journal entry still balances and
  no customer account drifts from its sub-ledger.\<close>

theorem process_keeps_books:
  assumes "process now ids i s = Inr s'" "ledger_inv s"
  shows "ledger_inv s' \<and> (\<forall>k. drift s' k = drift s k)"
  using process_keeps_ledger [OF assms(1)] assms(2) by blast

text \<open>Settling a transfer to an account moves its amount, once, from the bank's PENDING_OUT
  account to the recipient: the recipient's balance rises by the amount, no other balance changes,
  PENDING_OUT falls by the amount, and the transfer is posted.\<close>

theorem process_credits_recipient:
  assumes "settle_check i s = Some t" "to_account t" "process now ids i s = Inr s'"
  shows "balance_of s' (the (tr_toAccountId t)) =
           map_option (\<lambda>b. b + tr_amountCents t) (balance_of s (the (tr_toAccountId t))) \<and>
         balance_of s (the (tr_toAccountId t)) \<noteq> None \<and>
         (\<forall>k. k \<noteq> the (tr_toAccountId t) \<longrightarrow> balance_of s' k = balance_of s k) \<and>
         net_of s' PendingOut = net_of s PendingOut - tr_amountCents t \<and>
         (\<exists>t'. transfer_of s' i = Some t' \<and> tr_status t' = TxPosted \<and> tr_settledAt t' = Some now)"
proof -
  obtain s1 where c: "settle_commit now t ids s = Inr s1" and s': "s' = settle_finish now t (fst ids) s1"
    using assms(1,3) by (auto simp: process_def err_simps)
  obtain d where d: "tr_toAccountId t = Some d" "credited t = Some d"
    using to_account_Some [OF assms(2)] assms(2) by (auto simp: credited_def)
  have b: "balance_of s' k = balance_of s1 k" "net_of s' c = net_of s1 c"
    "transfer_of s' i = transfer_of s1 i" for k c
    by (simp_all add: s' balance_of_def net_of_def)
  have "net_of s1 PendingOut = net_of s PendingOut - tr_amountCents t"
    using assms(2) d(2) net_after_settle [OF c, of PendingOut] by (simp add: settle_source_def settle_target_def)
  moreover have "balance_of s d \<noteq> None"
    using settle_commit_Inr(3) [OF c d(2)] by (simp add: balance_of_def)
  moreover have "balance_of s1 k = balance_of s k" if "k \<noteq> d" for k
    using that d(2) balance_after_settle [OF c, of k] by (simp add: option.map_ident)
  moreover have "balance_of s1 d = map_option (\<lambda>b. b + tr_amountCents t) (balance_of s d)"
    using d(2) balance_after_settle [OF c, of d] by simp
  ultimately show ?thesis
    using find_settled [OF _ c] assms(1) by (simp add: b d(1) settle_check_Some)
qed

text \<open>Running the worker again on the state it left, as a duplicate job does, changes nothing.\<close>

theorem process_is_idempotent:
  assumes "process now ids i s = Inr s'"
  shows "process now' ids' i s' = Inr s'"
  using assms
proof (cases rule: process_cases)
  case (settle t s1)
  have "transfer_of s i = Some t" using settle(1) by (simp add: settle_check_Some)
  then have "settle_check i s' = None"
    using find_settled [OF _ settle(2)] settle(3) by (simp add: settle_check_def)
  then show ?thesis by (simp add: process_def)
qed (simp add: process_def)

text \<open>C6. The review gate: when a request creates an outbound ACH or wire, or a payment at or above
  the threshold, no settlement job is scheduled, and a worker run on the resulting state, under any
  clock, leaves the state untouched.\<close>

theorem initiate_holds_for_review:
  assumes ok: "initiate cf env ids userId key dto s = Inr (r, s')"
    and new: "find_unique tr_idempotencyKey key (db_transfers s) = None"
    and held: "d_kind dto = AchOut \<or> d_kind dto = WireOut \<or>
      d_kind dto = P2P \<and> cf_reviewThresholdCents cf \<le> d_amountCents dto"
  shows "jobs s' = jobs s \<and> process now ids' (fst ids) s' = Inr s'"
  using ok
proof (cases rule: initiate_cases)
  case (fresh pl t s1)
  note c = initiate_commit_Inr [OF fresh(2)]
  have "d_kind dto = P2P \<Longrightarrow> pl_settlementCents pl = d_amountCents dto"
    using initiate_check_Proceed(7) [OF fresh(1)] by (auto simp: resolveSettlement_def Let_def)
  then have "tr_requiresReview t" using held c(1) by (auto simp: pending_transfer_def requires_review_def)
  then have "s' = emit (EvAdminQueueChanged 1) (emit (EvTransactionCreated userId (a_id (pl_from pl))
      (the (tr_pendingTransactionId t)) (- (pl_settlementCents pl + pl_feeCents pl)) TxPending (rq_now env)
      (Some (describeTransfer s dto (pl_from pl) (pl_to pl), CatTransfer, kind_name (d_kind dto)))) s1)"
    using finish_snd(1) [OF fresh(3)] by (simp add: initiate_finish_def Let_def)
  moreover have "settle_check (fst ids) s' = None"
    using c(1,3,7) \<open>tr_requiresReview t\<close> calculation
    by (simp add: settle_check_def table_simps pending_transfer_def)
  ultimately show ?thesis using c(15) by (simp add: process_def)
qed (use new in simp)

text \<open>Progress: what a commit needs in order to succeed.\<close>

lemma settle_branch_succeeds:
  assumes "a_id sender = tr_fromAccountId t" "account_of s (tr_fromAccountId t) \<noteq> None"
    and "\<And>i. credited t = Some i \<Longrightarrow> account_of s i \<noteq> None"
    and "transaction_of s x = None" "transaction_of s y = None"
  shows "is_ok (settle_branch now t sender x y s)"
proof (cases "to_account t")
  case True
  obtain d where d: "tr_toAccountId t = Some d" using to_account_Some [OF True] by blast
  then obtain dest where dest: "account_of s d = Some dest" "a_id dest = d"
    using assms(3) [of d] True by (auto simp: credited_def dest: find_unique_SomeD)
  then show ?thesis using True d assms(4)
    by (simp add: settle_branch_def credit_account_def update_unique_def create_unique_def credit_row_def)
next
  case False
  then show ?thesis using assms
    by (auto simp: settle_branch_def credit_account_def update_unique_def create_unique_def inflow_row_def
        split: option.splits)
qed

lemma settle_codes:
  assumes "settle_branch now t sender x y s = Inr (ps, s')" "a_id sender = tr_fromAccountId t"
    and "system_ready s" "accountSubLedgerCode (tr_fromAccountId t) \<in> la_code ` set (db_ledgerAccounts s)"
  shows "pi_code ` set ps \<subseteq> la_code ` set (db_ledgerAccounts s')"
proof (cases "to_account t")
  case True
  then show ?thesis using assms
    by (auto simp: settle_branch_def err_simps move_input_def system_ready_def)
next
  case False
  then show ?thesis using assms
    by (auto simp: settle_branch_def err_simps move_input_def system_ready_def split: if_splits)
qed

lemma settle_commit_succeeds:
  assumes "account_of s (tr_fromAccountId t) \<noteq> None"
    and "\<And>i. credited t = Some i \<Longrightarrow> account_of s i \<noteq> None"
    and "transaction_of s (fst ids) = None" "transaction_of s (snd ids) = None"
    and "\<And>x. tr_pendingTransactionId t = Some x \<Longrightarrow> transaction_of s x \<noteq> None"
    and "transfer_of s (tr_id t) \<noteq> None" "system_ready s"
  shows "is_ok (settle_commit now t ids s)"
proof -
  obtain sender where sender: "account_of s (tr_fromAccountId t) = Some sender" using assms(1) by auto
  then have sid: "a_id sender = tr_fromAccountId t" by (blast dest: find_unique_SomeD)
  let ?s0 = "ensureAccountLedger (a_id sender) (a_userId sender) s"
  have "is_ok (settle_branch now t sender (fst ids) (snd ids) ?s0)"
    using assms sid by (intro settle_branch_succeeds) auto
  then obtain ps s1 where b: "settle_branch now t sender (fst ids) (snd ids) ?s0 = Inr (ps, s1)"
    by (auto simp: is_ok_def split: sum.splits)
  have "branch_effect t ?s0 ps s1" using settle_branch_effect [OF b] sid by blast
  note eff = this [unfolded branch_effect_def]
  have ps: "ps = move_input (settle_source t) (settle_target t) (tr_amountCents t)" using eff by blast
  have "pi_code ` set ps \<subseteq> la_code ` set (db_ledgerAccounts s1)"
    using assms(7) sid by (intro settle_codes [OF b]) (auto simp: system_ready_def)
  then obtain e s2 where p: "post (settle_journal now t ps) s1 = Inr (e, s2)"
    using post_known [of "settle_journal now t ps" s1] move_input_balanced
    by (auto simp: settle_journal_def ps)
  have tx: "transaction_of s2 x \<noteq> None" if "transaction_of s x \<noteq> None" for x
    using that eff post_frame(2) [OF p] by (auto simp: table_simps split: option.splits)
  have "is_ok (mark_pending_posted now t s2)"
    using assms(5) tx
    by (fastforce simp: mark_pending_posted_def update_unique_def truthy_str_iff split: option.splits)
  moreover have "db_transfers s3 = db_transfers s" if "mark_pending_posted now t s2 = Inr s3" for s3
    using that eff post_frame(3) [OF p] by (auto simp: mark_pending_posted_def err_simps split: if_splits)
  ultimately show ?thesis using assms(6) sender b p
    by (auto simp: settle_commit_def update_unique_def is_ok_def split: sum.splits option.splits)
qed

text \<open>C8. Settlement succeeds: for a transfer that is due, with its accounts and its pending
  transaction in place, the chart of accounts seeded and fresh identifiers, the worker does not
  throw, and it leaves the transfer posted.\<close>

theorem process_succeeds:
  assumes "settle_check i s = Some t" "account_of s (tr_fromAccountId t) \<noteq> None"
    and "\<And>d. credited t = Some d \<Longrightarrow> account_of s d \<noteq> None"
    and "transaction_of s (fst ids) = None" "transaction_of s (snd ids) = None"
    and "\<And>x. tr_pendingTransactionId t = Some x \<Longrightarrow> transaction_of s x \<noteq> None" "system_ready s"
  shows "\<exists>s' t'. process now ids i s = Inr s' \<and> transfer_of s' i = Some t' \<and> tr_status t' = TxPosted"
proof -
  have t: "transfer_of s i = Some t" "tr_id t = i"
    using assms(1) settle_check_id by (auto simp: settle_check_Some)
  have "is_ok (settle_commit now t ids s)"
    using assms t by (intro settle_commit_succeeds) auto
  then obtain s1 where "settle_commit now t ids s = Inr s1" by (auto simp: is_ok_def split: sum.splits)
  then show ?thesis using assms(1) find_settled [OF t(1)] by (simp add: process_def)
qed

text \<open>C37. The rescue endpoint pays again: when the owner of a transfer that is already posted calls
  force-settle while Redis is down, the status is reset and the worker credits the recipient a
  second time out of PENDING_OUT.\<close>

theorem force_settle_pays_again:
  assumes "transfer_of s i = Some t" "tr_initiatedByUserId t = userId" "tr_status t = TxPosted"
    and "tr_requiresReview t \<longrightarrow> tr_reviewDecision t = Some Approved" "to_account t"
    and "force_settle_endpoint now False ids userId i s = (Inr x, s')"
  shows "balance_of s' (the (tr_toAccountId t)) =
           map_option (\<lambda>b. b + tr_amountCents t) (balance_of s (the (tr_toAccountId t))) \<and>
         net_of s' PendingOut = net_of s PendingOut - tr_amountCents t"
proof -
  let ?s1 = "reset_pending i t s"
  let ?t = "t\<lparr>tr_status := TxPending, tr_settledAt := None, tr_settledTransactionId := None\<rparr>"
  have "transfer_of ?s1 i = Some ?t"
    using assms(1,3) by (simp add: reset_pending_def table_simps)
  then have chk: "settle_check i ?s1 = Some ?t" using assms(4) by (simp add: settle_check_Some)
  have ta: "to_account ?t" using assms(5) by (simp add: to_account_def)
  have pr: "process now ids i ?s1 = Inr s'"
    using assms by (auto simp: force_settle_endpoint_def getForUser_def forceSettle_def Let_def
        split: sum.splits)
  obtain s1 where c: "settle_commit now ?t ids ?s1 = Inr s1" and s': "s' = settle_finish now ?t (fst ids) s1"
    using chk pr by (auto simp: process_def err_simps)
  obtain d where d: "tr_toAccountId t = Some d" "credited ?t = Some d"
    using to_account_Some [OF ta] ta by (auto simp: credited_def)
  have fr: "balance_of s' k = balance_of s1 k" "net_of s' c = net_of s1 c"
    "balance_of ?s1 k = balance_of s k" "net_of ?s1 c = net_of s c" for k c
    by (simp_all add: s' balance_of_def net_of_def reset_pending_def)
  show ?thesis
    using balance_after_settle [OF c, of d] net_after_settle [OF c, of PendingOut] d ta
    by (simp add: fr settle_source_def settle_target_def)
qed

text \<open>The worker's transaction does not look at the status again: when two workers both read
  the transfer as due, both commits succeed and the recipient is paid twice.\<close>

theorem settle_race_pays_twice:
  assumes "settle_check i s = Some t" "to_account t"
    and "settle_commit now t ids s = Inr s1" "settle_commit now' t ids' s1 = Inr s2"
  shows "balance_of s2 (the (tr_toAccountId t)) =
           map_option (\<lambda>b. b + 2 * tr_amountCents t) (balance_of s (the (tr_toAccountId t))) \<and>
         net_of s2 PendingOut = net_of s PendingOut - 2 * tr_amountCents t"
proof -
  obtain d where d: "tr_toAccountId t = Some d" "credited t = Some d"
    using to_account_Some [OF assms(2)] assms(2) by (auto simp: credited_def)
  show ?thesis
    using balance_after_settle [OF assms(3), of d] net_after_settle [OF assms(3), of PendingOut]
      balance_after_settle [OF assms(4), of d] net_after_settle [OF assms(4), of PendingOut] d assms(2)
    by (cases "balance_of s d") (simp_all add: settle_source_def settle_target_def)
qed

text \<open>A transfer whose settlement fails for good is marked declined, but its sender is not
  refunded: every balance and the amount parked in PENDING_OUT stay as they were, and no later run
  of the worker picks it up.\<close>

theorem failed_settlement_keeps_the_money:
  assumes "transfer_of s i = Some t" "attempts = None \<or> attemptsMade \<ge> the attempts" "1 \<le> attemptsMade"
  shows "let s' = onFailed now attemptsMade attempts i reason s in
           (\<exists>t'. transfer_of s' i = Some t' \<and> tr_status t' = TxDeclined) \<and>
           (\<forall>k. balance_of s' k = balance_of s k) \<and>
           net_of s' PendingOut = net_of s PendingOut \<and>
           process now' ids i s' = Inr s'"
proof -
  have "attemptsMade \<ge> (case attempts of None \<Rightarrow> 1 | Some n \<Rightarrow> n)"
    using assms(2,3) by (cases attempts) auto
  then have "onFailed now attemptsMade attempts i reason s = markFailed now i reason s"
    by (simp add: onFailed_def)
  moreover have "transfer_of (markFailed now i reason s) i =
      Some (t\<lparr>tr_status := TxDeclined, tr_failureReason := Some reason, tr_settledAt := Some now\<rparr>)"
    using assms(1) by (simp add: markFailed_def table_simps)
  moreover have "balance_of (markFailed now i reason s) k = balance_of s k"
    "net_of (markFailed now i reason s) c = net_of s c" for k c
    by (simp_all add: markFailed_def balance_of_def net_of_def)
  ultimately show ?thesis by (simp add: process_def settle_check_def)
qed

end
