(* ===== verification/Admin_Transfers.thy ===== *)
theory Admin_Transfers
  imports Settlement
begin

text \<open>
  The review queue for held transfers (\<^verbatim>\<open>admin/transfers/admin-transfers.service.ts\<close>). Approval
  stamps the row and hands it to \<open>forceSettle\<close>, whose failure is only logged; rejection refunds
  amount and fee in one database transaction (\<open>reject_commit\<close>) that mirrors the postings of the
  initiation. As in the code, the guards (\<open>decide_check\<close>) read the row before that transaction
  opens.
\<close>

definition KIND_LABEL :: "transfer_kind \<Rightarrow> string" where
  "KIND_LABEL k = (case k of WireOut \<Rightarrow> ''Wire transfer'' | AchOut \<Rightarrow> ''Bank transfer''
     | AchIn \<Rightarrow> ''Bank transfer'' | _ \<Rightarrow> ''Transfer'')"

text \<open>A user without an address gets no mail; the amount is kept in cents.\<close>

definition sendDecisionEmail ::
  "transfer \<Rightarrow> review_decision \<Rightarrow> string option \<Rightarrow> bank \<Rightarrow> bank" where
  "sendDecisionEmail t decision reason s =
     (case user_of s (tr_initiatedByUserId t) of
        None \<Rightarrow> s
      | Some u \<Rightarrow>
          if u_email u = '''' then s
          else send_mail (MailReviewDecision (u_email u) (KIND_LABEL (tr_kind t)) (tr_amountCents t) decision
                 (case decision of Approved \<Rightarrow> ''''
                  | Rejected \<Rightarrow> the (str_or (map_option js_trim reason) (Some ''Declined after review'')))) s)"

section \<open>The queue\<close>

record user_summary =
  us_id :: string
  us_name :: string
  us_email :: string
  us_novaTag :: "string option"

record account_summary =
  as_id :: string
  as_type :: account_type
  as_label :: string
  as_mask :: string

record review_item =
  ri_id :: string
  ri_kind :: transfer_kind
  ri_status :: tx_status
  ri_amountCents :: string
  ri_feeCents :: string
  ri_initiatedAt :: int
  ri_sender :: "user_summary option"
  ri_recipient :: "user_summary option"
  ri_fromAccount :: "account_summary option"
  ri_toAccount :: "account_summary option"

definition in_queue :: "transfer \<Rightarrow> bool" where
  "in_queue t = (tr_requiresReview t \<and> tr_reviewedAt t = None)"

definition describeUser :: "bank \<Rightarrow> string option \<Rightarrow> user_summary option" where
  "describeUser s uid =
     (if \<not> truthy_str uid then None
      else map_option (\<lambda>u. \<lparr>us_id = u_id u, us_name = display_name u, us_email = u_email u,
                           us_novaTag = u_novaTag u\<rparr>) (user_of s (the uid)))"

definition describeAccount :: "account \<Rightarrow> account_summary" where
  "describeAccount a = \<lparr>as_id = a_id a, as_type = a_type a, as_label = a_label a,
     as_mask = rev (take 4 (rev (a_mockAccountNumber a)))\<rparr>"

definition review_row :: "bank \<Rightarrow> transfer \<Rightarrow> review_item" where
  "review_row s r =
     (let fromAcct = account_of s (tr_fromAccountId r);
          toAcct = (if truthy_str (tr_toAccountId r) then account_of s (the (tr_toAccountId r)) else None)
      in \<lparr>ri_id = tr_id r, ri_kind = tr_kind r, ri_status = tr_status r,
          ri_amountCents = show_int (tr_amountCents r), ri_feeCents = show_int (tr_feeCents r),
          ri_initiatedAt = tr_initiatedAt r,
          ri_sender = describeUser s (Some (tr_initiatedByUserId r)),
          ri_recipient = describeUser s (map_option a_userId toAcct),
          ri_fromAccount = map_option describeAccount fromAcct,
          ri_toAccount = map_option describeAccount toAcct\<rparr>)"

definition listReviewQueue :: "int \<Rightarrow> bank \<Rightarrow> review_item list" where
  "listReviewQueue limit s =
     (let cap = min (max limit 1) 100
      in map (review_row s) (take (nat cap)
           (sort_key (\<lambda>t. - tr_initiatedAt t) (filter in_queue (db_transfers s)))))"

text \<open>The two counters of \<open>queueCounts\<close> over the tables modelled here.\<close>

definition transferReviewPending :: "bank \<Rightarrow> nat" where
  "transferReviewPending s = length (filter in_queue (db_transfers s))"

definition totalUsers :: "bank \<Rightarrow> nat" where
  "totalUsers s = length (filter (\<lambda>u. u_status u = UserActive) (db_users s))"

section \<open>Decisions\<close>

definition decide_check :: "string \<Rightarrow> review_decision \<Rightarrow> string option \<Rightarrow> bank \<Rightarrow> transfer result" where
  "decide_check transferId decision reason s =
     ebind (require (\<not> (decision = Rejected \<and> \<not> truthy_str (map_option js_trim reason)))
              (BadRequest ''reason required when rejecting'')) (\<lambda>_.
     ebind (or_throw (NotFound ''TRANSFER_NOT_FOUND'') (transfer_of s transferId)) (\<lambda>t.
     ebind (require (tr_requiresReview t) (BadRequest ''Transfer is not flagged for review'')) (\<lambda>_.
     ebind (require (tr_reviewedAt t = None) (BadRequest ''Transfer already reviewed'')) (\<lambda>_.
     Inr t))))"

definition opt_text :: "string option \<Rightarrow> audit_value" where
  "opt_text r = (case r of None \<Rightarrow> AvNull | Some x \<Rightarrow> AvText x)"

definition stamp_approved :: "int \<Rightarrow> string \<Rightarrow> string \<Rightarrow> string option \<Rightarrow> bank \<Rightarrow> bank" where
  "stamp_approved now actorUserId transferId reason s =
     s\<lparr>db_transfers := update_many (\<lambda>t. tr_id t = transferId)
         (\<lambda>t. t\<lparr>tr_reviewDecision := Some Approved, tr_reviewedAt := Some now,
                tr_reviewedByUserId := Some actorUserId, tr_reviewReason := reason\<rparr>) (db_transfers s)\<rparr>"

definition approve_transfer ::
  "int \<Rightarrow> bool \<Rightarrow> string \<times> string \<Rightarrow> string \<Rightarrow> transfer \<Rightarrow> string option \<Rightarrow> bank \<Rightarrow> bank" where
  "approve_transfer now queueUp ids actorUserId t reason s =
     (let s1 = stamp_approved now actorUserId (tr_id t) reason s;
          s2 = audit_write now actorUserId ''transfer.review.approve'' ''transfer'' (tr_id t)
                 [(''reason'', opt_text reason), (''amountCents'', AvText (show_int (tr_amountCents t)))] s1;
          s3 = emit (EvAdminQueueChanged (-1)) s2;
          s4 = snd (forceSettle now queueUp ids (tr_id t) s3)
      in sendDecisionEmail t Approved None s4)"

definition reject_postings :: "string \<Rightarrow> int \<Rightarrow> int \<Rightarrow> posting_input list" where
  "reject_postings senderId amountCents feeCents =
     [\<lparr>pi_code = PendingOut, pi_direction = Debit, pi_amountCents = amountCents, pi_meta = None\<rparr>,
      \<lparr>pi_code = accountSubLedgerCode senderId, pi_direction = Credit, pi_amountCents = amountCents, pi_meta = None\<rparr>] @
     (if feeCents > 0 then
       [\<lparr>pi_code = FeeRevenue, pi_direction = Debit, pi_amountCents = feeCents, pi_meta = None\<rparr>,
        \<lparr>pi_code = accountSubLedgerCode senderId, pi_direction = Credit, pi_amountCents = feeCents, pi_meta = None\<rparr>]
      else [])"

definition reverse_pending :: "int \<Rightarrow> transfer \<Rightarrow> bank \<Rightarrow> bank result" where
  "reverse_pending now t s =
     (if truthy_str (tr_pendingTransactionId t)
      then ebind (update_unique t_id (the (tr_pendingTransactionId t))
                    (\<lambda>x. x\<lparr>t_status := TxReversed, t_postedAt := Some now\<rparr>) (db_transactions s)) (\<lambda>txs.
           Inr (s\<lparr>db_transactions := txs\<rparr>))
      else Inr s)"

definition reject_journal :: "int \<Rightarrow> transfer \<Rightarrow> string \<Rightarrow> journal_input" where
  "reject_journal now t senderId =
     \<lparr>ji_description = ''Reverse '' @ kind_name (tr_kind t) @ '' (rejected by admin)'', ji_occurredAt = now,
      ji_source = ''transfer:'' @ tr_id t @ '':reject'', ji_referenceId = Some (tr_id t),
      ji_postings = reject_postings senderId (tr_amountCents t) (tr_feeCents t)\<rparr>"

definition stamp_rejected :: "int \<Rightarrow> string \<Rightarrow> string \<Rightarrow> string option \<Rightarrow> bank \<Rightarrow> bank" where
  "stamp_rejected now actorUserId transferId reason s =
     (let r = (case reason of None \<Rightarrow> ''Rejected by admin'' | Some x \<Rightarrow> x)
      in s\<lparr>db_transfers := update_many (\<lambda>t. tr_id t = transferId)
         (\<lambda>t. t\<lparr>tr_status := TxReversed, tr_reviewDecision := Some Rejected, tr_reviewedAt := Some now,
                tr_reviewedByUserId := Some actorUserId, tr_reviewReason := Some r,
                tr_failureReason := Some r\<rparr>) (db_transfers s)\<rparr>)"

definition reject_commit :: "int \<Rightarrow> string \<Rightarrow> transfer \<Rightarrow> string option \<Rightarrow> bank \<Rightarrow> bank result" where
  "reject_commit now actorUserId t reason s =
     ebind (or_throw (PlainError ''Sender account vanished'') (account_of s (tr_fromAccountId t))) (\<lambda>sender.
     ebind (credit_account (a_id sender) (tr_amountCents t + tr_feeCents t)
              (ensureAccountLedger (a_id sender) (a_userId sender) s)) (\<lambda>s1.
     ebind (post (reject_journal now t (a_id sender)) s1) (\<lambda>(_, s2).
     ebind (reverse_pending now t s2) (\<lambda>s3.
     Inr (stamp_rejected now actorUserId (tr_id t) reason s3)))))"

definition reject_finish :: "int \<Rightarrow> string \<Rightarrow> transfer \<Rightarrow> string option \<Rightarrow> bank \<Rightarrow> bank" where
  "reject_finish now actorUserId t reason s =
     (let s1 = (case account_of s (tr_fromAccountId t) of
                  None \<Rightarrow> s
                | Some a \<Rightarrow> emit (EvAccountBalanceChanged (a_userId a) (a_id a) (a_balanceCents a) now) s);
          s2 = (if truthy_str (tr_pendingTransactionId t)
                then emit (EvTransactionSettled (tr_initiatedByUserId t) (tr_fromAccountId t)
                       (the (tr_pendingTransactionId t)) (tr_id t) (tr_amountCents t) now) s1
                else s1);
          s3 = audit_write now actorUserId ''transfer.review.reject'' ''transfer'' (tr_id t)
                 [(''reason'', opt_text reason), (''amountCents'', AvText (show_int (tr_amountCents t)))] s2;
          s4 = emit (EvAdminQueueChanged (-1)) s3
      in sendDecisionEmail t Rejected reason s4)"

definition decide ::
  "int \<Rightarrow> bool \<Rightarrow> string \<times> string \<Rightarrow> string \<Rightarrow> string \<Rightarrow> review_decision \<Rightarrow> string option \<Rightarrow> bank \<Rightarrow>
     bank result" where
  "decide now queueUp ids actorUserId transferId decision reason s =
     ebind (decide_check transferId decision reason s) (\<lambda>t.
     case decision of
       Approved \<Rightarrow> Inr (approve_transfer now queueUp ids actorUserId t reason s)
     | Rejected \<Rightarrow> ebind (reject_commit now actorUserId t reason s) (\<lambda>s'.
         Inr (reject_finish now actorUserId t reason s')))"

section \<open>Lemmas\<close>

lemma decide_check_Inr:
  "decide_check i d r s = Inr t \<longleftrightarrow> transfer_of s i = Some t \<and> tr_requiresReview t \<and> tr_reviewedAt t = None \<and>
     (d = Rejected \<longrightarrow> truthy_str (map_option js_trim r))"
  by (auto simp: decide_check_def err_simps)

lemma sendDecisionEmail_frame [simp]:
  "db_accounts (sendDecisionEmail t d r s) = db_accounts s"
  "db_postings (sendDecisionEmail t d r s) = db_postings s"
  "db_journal (sendDecisionEmail t d r s) = db_journal s"
  "db_ledgerAccounts (sendDecisionEmail t d r s) = db_ledgerAccounts s"
  "db_transfers (sendDecisionEmail t d r s) = db_transfers s"
  "db_transactions (sendDecisionEmail t d r s) = db_transactions s"
  "db_users (sendDecisionEmail t d r s) = db_users s" "db_audit (sendDecisionEmail t d r s) = db_audit s"
  "db_overrides (sendDecisionEmail t d r s) = db_overrides s"
  "bus (sendDecisionEmail t d r s) = bus s" "jobs (sendDecisionEmail t d r s) = jobs s"
  by (simp_all add: sendDecisionEmail_def split: option.split)

lemma reject_finish_frame [simp]:
  "db_accounts (reject_finish n u t r s) = db_accounts s"
  "db_postings (reject_finish n u t r s) = db_postings s"
  "db_journal (reject_finish n u t r s) = db_journal s"
  "db_ledgerAccounts (reject_finish n u t r s) = db_ledgerAccounts s"
  "db_transfers (reject_finish n u t r s) = db_transfers s"
  "db_transactions (reject_finish n u t r s) = db_transactions s"
  "db_users (reject_finish n u t r s) = db_users s" "db_overrides (reject_finish n u t r s) = db_overrides s"
  "jobs (reject_finish n u t r s) = jobs s"
  by (simp_all add: reject_finish_def Let_def split: option.split)

lemma reject_postings_balanced:
  "2 \<le> length (reject_postings i a f)"
  "sum_direction Debit (reject_postings i a f) = sum_direction Credit (reject_postings i a f)"
  by (simp_all add: reject_postings_def sum_direction_def)

lemma reject_postings_net:
  "0 \<le> f \<Longrightarrow> input_net c (reject_postings i a f) = - input_net c (pending_postings i a f)"
  by (auto simp: reject_postings_def pending_postings_def input_net_Cons input_net_append input_net_Nil)

lemma reverse_pending_Inr:
  assumes "reverse_pending now t s = Inr s'"
  obtains txs where "s' = s\<lparr>db_transactions := txs\<rparr>"
proof (cases "truthy_str (tr_pendingTransactionId t)")
  case False
  then have "s' = s\<lparr>db_transactions := db_transactions s\<rparr>" using assms by (simp add: reverse_pending_def)
  then show ?thesis by (rule that)
qed (use assms that in \<open>auto simp: reverse_pending_def err_simps\<close>)

lemma reject_commit_Inr:
  assumes "reject_commit now u t r s = Inr s'"
  shows "account_of s (tr_fromAccountId t) \<noteq> None"
    and "db_accounts s' = credit_rows (tr_fromAccountId t) (tr_amountCents t + tr_feeCents t) (db_accounts s)"
    and "db_postings s' = db_postings s @ map (mk_posting (length (db_journal s)))
           (reject_postings (tr_fromAccountId t) (tr_amountCents t) (tr_feeCents t))"
    and "db_transfers s' = db_transfers (stamp_rejected now u (tr_id t) r s)"
    and "db_users s' = db_users s" "db_overrides s' = db_overrides s" "bus s' = bus s" "jobs s' = jobs s"
    and "ledger_inv s \<Longrightarrow> ledger_inv s'"
    and "la_code ` set (db_ledgerAccounts s) \<subseteq> la_code ` set (db_ledgerAccounts s')"
proof -
  obtain a e s2 s3 where a: "account_of s (tr_fromAccountId t) = Some a"
    and p: "post (reject_journal now t (a_id a)) ((ensureAccountLedger (a_id a) (a_userId a) s)
      \<lparr>db_accounts := credit_rows (a_id a) (tr_amountCents t + tr_feeCents t) (db_accounts s)\<rparr>) = Inr (e, s2)"
    and rv: "reverse_pending now t s2 = Inr s3" and s': "s' = stamp_rejected now u (tr_id t) r s3"
    using assms by (auto simp: reject_commit_def err_simps credit_rows_def)
  let ?s0 = "ensureAccountLedger (a_id a) (a_userId a) s"
  let ?s1 = "?s0\<lparr>db_accounts := credit_rows (a_id a) (tr_amountCents t + tr_feeCents t) (db_accounts s)\<rparr>"
  obtain txs where s3: "s3 = s2\<lparr>db_transactions := txs\<rparr>" using reverse_pending_Inr [OF rv] .
  have aid: "a_id a = tr_fromAccountId t" using a by (blast dest: find_unique_SomeD)
  show "account_of s (tr_fromAccountId t) \<noteq> None" using a by simp
  show "db_accounts s' = credit_rows (tr_fromAccountId t) (tr_amountCents t + tr_feeCents t) (db_accounts s)"
    "db_postings s' = db_postings s @ map (mk_posting (length (db_journal s)))
       (reject_postings (tr_fromAccountId t) (tr_amountCents t) (tr_feeCents t))"
    "db_transfers s' = db_transfers (stamp_rejected now u (tr_id t) r s)"
    "db_users s' = db_users s" "db_overrides s' = db_overrides s" "bus s' = bus s" "jobs s' = jobs s"
    using post_frame [OF p] aid by (simp_all add: s' s3 stamp_rejected_def Let_def reject_journal_def)
  have "ledger_inv s \<Longrightarrow> ledger_inv s2"
    using ledger_inv_ensure ledger_inv_cong [of ?s1 ?s0] ledger_inv_post [OF p] by simp
  then show "ledger_inv s \<Longrightarrow> ledger_inv s'"
    using ledger_inv_cong [of s' s2] by (simp add: s' s3 stamp_rejected_def Let_def)
  have "la_code ` set (db_ledgerAccounts s) \<subseteq> la_code ` set (db_ledgerAccounts ?s1)" by auto
  then show "la_code ` set (db_ledgerAccounts s) \<subseteq> la_code ` set (db_ledgerAccounts s')"
    using post_codes [OF p] by (simp add: s' s3 stamp_rejected_def Let_def)
qed

lemma reset_pending_frame [simp]:
  "db_accounts (reset_pending i t s) = db_accounts s" "db_postings (reset_pending i t s) = db_postings s"
  "db_journal (reset_pending i t s) = db_journal s" "bus (reset_pending i t s) = bus s"
  "db_ledgerAccounts (reset_pending i t s) = db_ledgerAccounts s"
  "db_overrides (reset_pending i t s) = db_overrides s" "db_users (reset_pending i t s) = db_users s"
  "db_transactions (reset_pending i t s) = db_transactions s"
  by (simp_all add: reset_pending_def)

lemma forceSettle_cases:
  obtains (missing) "snd (forceSettle now q ids i s) = s"
  | (queued) t where "transfer_of s i = Some t"
      "snd (forceSettle now q ids i s) =
         (reset_pending i t s)\<lparr>jobs := filter (\<lambda>j. \<not> is_queued i j) (jobs s) @ [QueuedJob i 0]\<rparr>"
  | (threw) t where "transfer_of s i = Some t" "snd (forceSettle now q ids i s) = reset_pending i t s"
  | (ran) t s' where "transfer_of s i = Some t" "process now ids i (reset_pending i t s) = Inr s'"
      "snd (forceSettle now q ids i s) = s'"
proof (cases "transfer_of s i")
  case None
  then show ?thesis using missing by (simp add: forceSettle_def)
next
  case (Some t)
  show ?thesis
  proof (cases q)
    case True
    then show ?thesis using Some queued [of t] by (simp add: forceSettle_def Let_def reset_pending_def)
  next
    case False
    then show ?thesis using Some threw [of t] ran [of t]
      by (cases "process now ids i (reset_pending i t s)") (simp_all add: forceSettle_def Let_def)
  qed
qed

lemma forceSettle_keeps_ledger:
  "(ledger_inv s \<longrightarrow> ledger_inv (snd (forceSettle now q ids i s))) \<and>
   drift (snd (forceSettle now q ids i s)) k = drift s k"
proof -
  let ?s' = "snd (forceSettle now q ids i s)"
  show ?thesis
  proof (cases rule: forceSettle_cases [of now q ids i s])
    case (ran t s')
    then show ?thesis
      using process_keeps_ledger [OF ran(2), of k] ledger_inv_cong [of "reset_pending i t s" s]
        drift_same [of "reset_pending i t s" s] by simp
  next
    case (queued t)
    then show ?thesis using ledger_inv_cong [of ?s' s] drift_same [of ?s' s] by simp
  next
    case (threw t)
    then show ?thesis using ledger_inv_cong [of ?s' s] drift_same [of ?s' s] by simp
  qed simp
qed

lemma approve_keeps_ledger:
  "(ledger_inv s \<longrightarrow> ledger_inv (approve_transfer now q ids u t r s)) \<and>
   drift (approve_transfer now q ids u t r s) k = drift s k"
proof -
  let ?s3 = "emit (EvAdminQueueChanged (-1)) (audit_write now u ''transfer.review.approve'' ''transfer'' (tr_id t)
     [(''reason'', opt_text r), (''amountCents'', AvText (show_int (tr_amountCents t)))]
     (stamp_approved now u (tr_id t) r s))"
  let ?s4 = "snd (forceSettle now q ids (tr_id t) ?s3)"
  have "ledger_inv ?s3 = ledger_inv s" "drift ?s3 k = drift s k"
    by (rule ledger_inv_cong drift_same; simp add: stamp_approved_def)+
  moreover have "ledger_inv (approve_transfer now q ids u t r s) = ledger_inv ?s4"
    "drift (approve_transfer now q ids u t r s) k = drift ?s4 k"
    by (rule ledger_inv_cong drift_same; simp add: approve_transfer_def Let_def)+
  ultimately show ?thesis using forceSettle_keeps_ledger [of ?s3 now q ids "tr_id t" k] by simp
qed

lemma reject_commit_drift:
  assumes "reject_commit now u t r s = Inr s'" "0 \<le> tr_feeCents t"
  shows "drift s' k = drift s k"
  using assms(2)
  by (intro drift_cong [OF reject_commit_Inr(2) [OF assms(1), unfolded credit_rows_def]
        reject_commit_Inr(3) [OF assms(1)]])
    (simp_all add: ledger_simps reject_postings_net)

lemma decide_cases:
  assumes "decide now q ids u i d r s = Inr s'"
  obtains (approve) t where "decide_check i d r s = Inr t" "d = Approved"
      "s' = approve_transfer now q ids u t r s"
  | (reject) t s1 where "decide_check i d r s = Inr t" "d = Rejected" "reject_commit now u t r s = Inr s1"
      "s' = reject_finish now u t r s1"
  using assms by (cases d) (auto simp: decide_def err_simps)

lemma decide_keeps_ledger:
  assumes "decide now q ids u i d r s = Inr s'"
    and "\<And>t. transfer_of s i = Some t \<Longrightarrow> 0 \<le> tr_feeCents t"
  shows "(ledger_inv s \<longrightarrow> ledger_inv s') \<and> drift s' k = drift s k"
  using assms(1)
proof (cases rule: decide_cases)
  case (approve t)
  then show ?thesis using approve_keeps_ledger by simp
next
  case (reject t s1)
  have "drift s1 k = drift s k"
    using reject assms(2) by (intro reject_commit_drift [OF reject(3)]) (simp add: decide_check_Inr)
  then show ?thesis
    using reject_commit_Inr(9) [OF reject(3)] reject(4) ledger_inv_cong [of s' s1]
      drift_same [of s' s1] by simp
qed

text \<open>The bank's copy of a reviewed transfer carries its decision from then on.\<close>

lemma transfer_of_update_status:
  assumes "transfer_of s i = Some t" "\<And>x. tr_id (f x) = tr_id x"
  shows "find_unique tr_id i (update_many (\<lambda>x. tr_id x = i) f (db_transfers s)) = Some (f t)"
  using assms by (simp add: table_simps)

lemma reviewed_process:
  assumes "process now ids i s = Inr s'" "transfer_of s j = Some t" "tr_reviewedAt t = Some w"
  shows "\<exists>t'. transfer_of s' j = Some t' \<and> tr_reviewedAt t' = Some w \<and> tr_requiresReview t' = tr_requiresReview t"
  using assms(1)
proof (cases rule: process_cases)
  case (settle t0 s1)
  then show ?thesis using assms(2,3) settle_commit_Inr(5) [OF settle(2)]
    by (auto simp: table_simps)
qed (use assms in simp)

lemma reviewed_forceSettle:
  assumes "transfer_of s j = Some t" "tr_reviewedAt t = Some w"
  shows "\<exists>t'. transfer_of (snd (forceSettle now q ids i s)) j = Some t' \<and> tr_reviewedAt t' = Some w \<and>
           tr_requiresReview t' = tr_requiresReview t"
proof -
  have r: "\<exists>t'. transfer_of (reset_pending i x s) j = Some t' \<and> tr_reviewedAt t' = Some w \<and>
      tr_requiresReview t' = tr_requiresReview t" for x
    using assms by (auto simp: reset_pending_def table_simps)
  show ?thesis
  proof (cases rule: forceSettle_cases [of now q ids i s])
    case (ran x s')
    then show ?thesis using r [of x] reviewed_process [OF ran(2)] by fastforce
  qed (use assms r in auto)
qed

lemma decide_marks_reviewed:
  assumes "decide now q ids u i d r s = Inr s'"
  shows "\<exists>t. transfer_of s' i = Some t \<and> tr_requiresReview t \<and> tr_reviewedAt t = Some now"
  using assms
proof (cases rule: decide_cases)
  case (approve t)
  then have t: "transfer_of s i = Some t" "tr_requiresReview t" "tr_id t = i"
    using find_unique_SomeD by (fastforce simp: decide_check_Inr)+
  then have "transfer_of (emit e (audit_write now u a b c m (stamp_approved now u i r s))) i =
      Some (t\<lparr>tr_reviewDecision := Some Approved, tr_reviewedAt := Some now,
                tr_reviewedByUserId := Some u, tr_reviewReason := r\<rparr>)" for e a b c m
    by (simp add: stamp_approved_def table_simps)
  from reviewed_forceSettle [OF this, of now now q ids i] show ?thesis using t approve(3)
    by (fastforce simp: approve_transfer_def Let_def)
next
  case (reject t s1)
  then have t: "transfer_of s i = Some t" "tr_requiresReview t" "tr_id t = i"
    using find_unique_SomeD by (fastforce simp: decide_check_Inr)+
  then show ?thesis using reject reject_commit_Inr(4) [OF reject(3)]
    by (simp add: stamp_rejected_def Let_def table_simps)
qed

section \<open>Properties\<close>

text \<open>A review decision, either way, keeps the books: journal entries balance and no account
  drifts from its sub-ledger. (Fees are never negative, which initiation guarantees.)\<close>

theorem decide_keeps_books:
  assumes "decide now q ids u i d r s = Inr s'" "ledger_inv s"
    and "\<And>t. transfer_of s i = Some t \<Longrightarrow> 0 \<le> tr_feeCents t"
  shows "ledger_inv s' \<and> (\<forall>k. drift s' k = drift s k)"
  using decide_keeps_ledger [OF assms(1,3)] assms(2) by blast

text \<open>C4. Rejecting a held transfer undoes its initiation: every balance and every ledger account
  returns to its value before the request, and the transfer ends reversed.\<close>

theorem reject_undoes_initiate:
  assumes ini: "initiate cf env ids userId key dto s = Inr (r, s1)"
    and new: "find_unique tr_idempotencyKey key (db_transfers s) = None" "0 \<le> cf_feeMin cf"
    and rej: "decide now q ids' admin (fst ids) Rejected reason s1 = Inr s2"
  shows "(\<forall>k. balance_of s2 k = balance_of s k) \<and> (\<forall>c. net_of s2 c = net_of s c) \<and>
         (\<exists>t. transfer_of s2 (fst ids) = Some t \<and> tr_status t = TxReversed)"
  using ini
proof (cases rule: initiate_cases)
  case (fresh pl t s0)
  note c = initiate_commit_Inr [OF fresh(2)]
  have fr: "db_accounts s1 = db_accounts s0" "db_postings s1 = db_postings s0"
    "db_transfers s1 = db_transfers s0" "db_journal s1 = db_journal s0"
    using finish_snd(1) [OF fresh(3)] by simp_all
  have look: "transfer_of s1 (fst ids) = Some t"
    using c(1,3,7) by (simp add: fr table_simps pending_transfer_def)
  have t: "tr_fromAccountId t = a_id (pl_from pl)" "tr_amountCents t = pl_settlementCents pl"
    "tr_feeCents t = pl_feeCents pl" "tr_id t = fst ids" using c(1) by (simp_all add: pending_transfer_def)
  have fee: "0 \<le> pl_feeCents pl" by (rule plan_fee_nonneg [OF fresh(1) new(2)])
  obtain s3 where rc: "reject_commit now admin t reason s1 = Inr s3"
    and s2: "s2 = reject_finish now admin t reason s3"
    using rej look by (auto simp: decide_def err_simps decide_check_Inr)
  note j = reject_commit_Inr [OF rc]
  have "net_of s2 k = net_of s k" for k
    using fee by (simp add: s2 net_of_def j(3) fr c(9) ledger_simps t reject_postings_net)
  moreover have "balance_of s2 k = balance_of s k" for k
    by (cases "account_of s k")
      (auto simp: s2 balance_of_def j(2) fr c(6) t credit_rows_def table_simps)
  moreover have "transfer_of s2 (fst ids) \<noteq> None \<and> tr_status (the (transfer_of s2 (fst ids))) = TxReversed"
    using look t(4) by (simp add: s2 j(4) stamp_rejected_def Let_def table_simps)
  ultimately show ?thesis by auto
qed (use new in simp)

text \<open>A transfer is reviewed once: after any decision went through, every later decision on it is
  refused and changes nothing.\<close>

theorem decide_only_once:
  assumes "decide now q ids u i d r s = Inr s'"
  shows "\<not> is_ok (decide now' q' ids' u' i d' r' s')"
proof -
  obtain t where "transfer_of s' i = Some t" "tr_reviewedAt t = Some now"
    using decide_marks_reviewed [OF assms] by blast
  then show ?thesis by (auto simp: decide_def decide_check_def require_def or_throw_def ebind_def is_ok_def)
qed

text \<open>The rejection's transaction does not repeat the guard: when two reviewers reject at the
  same time, each having read the row as open, the sender is refunded twice.\<close>

theorem reject_race_refunds_twice:
  assumes "decide_check i Rejected r s = Inr t" "decide_check i Rejected r' s = Inr t"
    and "reject_commit now u t r s = Inr s1" "reject_commit now' u' t r' s1 = Inr s2"
  shows "balance_of s2 (tr_fromAccountId t) =
           map_option (\<lambda>b. b + 2 * (tr_amountCents t + tr_feeCents t)) (balance_of s (tr_fromAccountId t))"
  by (cases "account_of s (tr_fromAccountId t)")
    (auto simp: balance_of_def reject_commit_Inr(2) [OF assms(3)] reject_commit_Inr(2) [OF assms(4)]
      credit_rows_def table_simps)

end
