(* ===== verification/Samples.thy ===== *)
theory Samples
  imports Admin_Transfers
begin

text \<open>
  Concrete states and requests on which the theorems are exercised: a bank with two customers,
  their accounts and the seeded chart of accounts, and one request of each kind.
\<close>

definition sample_user :: "string \<Rightarrow> string \<Rightarrow> user" where
  "sample_user i n = \<lparr>u_id = i, u_email = n @ ''@x'', u_phoneE164 = None, u_novaTag = Some (CHR ''@'' # n),
     u_firstName = Some n, u_lastName = None, u_avatarUrl = None, u_role = Customer,
     u_status = UserActive, u_transfersDisabled = False\<rparr>"

definition sample_account :: "string \<Rightarrow> string \<Rightarrow> account_type \<Rightarrow> int \<Rightarrow> account" where
  "sample_account i u ty b = \<lparr>a_id = i, a_userId = u, a_type = ty,
     a_label = (if ty = Checking then ''Checking'' else ''Savings''), a_balanceCents = b,
     a_apyBps = None, a_status = AcctActive, a_mockRoutingNumber = ''021000099'', a_mockAccountNumber = ''1234567890''\<rparr>"

definition sample_bank :: bank where
  "sample_bank = ensureSystemAccounts (empty_bank\<lparr>
     db_users := [sample_user ''u1'' ''Ann'', sample_user ''u2'' ''Bob''],
     db_accounts := [sample_account ''c1'' ''u1'' Checking 200000, sample_account ''s1'' ''u1'' Savings 0,
                     sample_account ''c2'' ''u2'' Checking 5000]\<rparr>)"

definition sample_env :: request_env where
  "sample_env = \<lparr>rq_now = 1000, rq_table = \<lparr>rt_perUsd = [], rt_asOf = 0, rt_source = RatePeg\<rparr>, rq_queueUp = True\<rparr>"

definition sample_dto :: "transfer_kind \<Rightarrow> string \<Rightarrow> string option \<Rightarrow> int \<Rightarrow> transfer_dto" where
  "sample_dto k f t a = \<lparr>d_fromAccountId = f, d_toAccountId = t, d_externalRef = None, d_kind = k,
     d_amountCents = a, d_instant = False, d_note = None, d_wireDetails = None,
     d_sendCurrency = None, d_sendAmountMinor = None\<rparr>"

text \<open>Ann pays Bob 10.00 (\<open>paid\<close>) and the worker settles it (\<open>settled\<close>); Ann sends Bob 1500.00, which
  is held for review (\<open>held\<close>).\<close>

definition sample_pay :: "(initiate_result \<times> bank) result" where
  "sample_pay = initiate default_config sample_env (''t1'', ''x1'') ''u1'' ''k1''
     (sample_dto P2P ''c1'' (Some ''c2'') 1000) sample_bank"

definition sample_big_pay :: "(initiate_result \<times> bank) result" where
  "sample_big_pay = initiate default_config sample_env (''t1'', ''x1'') ''u1'' ''k1''
     (sample_dto P2P ''c1'' (Some ''c2'') 150000) sample_bank"

definition state_of :: "('a \<times> bank) result \<Rightarrow> bank" where
  "state_of r = (case r of Inl _ \<Rightarrow> empty_bank | Inr (_, s) \<Rightarrow> s)"

definition paid :: bank where "paid = state_of sample_pay"

definition settle_twice :: "bank \<Rightarrow> bank result" where
  "settle_twice s = (case settle_check ''t1'' s of None \<Rightarrow> Inl RecordMissing
     | Some t \<Rightarrow> ebind (settle_commit 2000 t (''x2'', ''x3'') s) (\<lambda>s1. settle_commit 2001 t (''x4'', ''x5'') s1))"

definition settled_bank :: bank where
  "settled_bank = (case process 2000 (''x2'', ''x3'') ''t1'' paid of Inl _ \<Rightarrow> empty_bank | Inr s \<Rightarrow> s)"

definition held :: bank where "held = state_of sample_big_pay"

text \<open>Facts about these states, each by one evaluation.\<close>

definition pay_due :: "string \<Rightarrow> bank \<Rightarrow> bool" where
  "pay_due i s = (case settle_check i s of None \<Rightarrow> False
     | Some t \<Rightarrow> to_account t \<and> tr_toAccountId t = Some ''c2'' \<and> tr_fromAccountId t = ''c1'' \<and> tr_pendingTransactionId t = Some ''x1'' \<and>
         tr_amountCents t = 1000)"

lemma pay_facts:
  "case sample_pay of Inl _ \<Rightarrow> False
   | Inr (r, s) \<Rightarrow> pay_due ''t1'' s \<and> (case user_of s ''u1'' of None \<Rightarrow> False | Some u \<Rightarrow> \<not> u_transfersDisabled u) \<and>
       account_of s ''c1'' \<noteq> None \<and> account_of s ''c2'' \<noteq> None \<and> transaction_of s ''x1'' \<noteq> None \<and>
       transaction_of s ''x2'' = None \<and> transaction_of s ''x3'' = None \<and>
       list_all (\<lambda>c. c \<in> set (map la_code (db_ledgerAccounts s))) [Cash, PendingOut, FeeRevenue] \<and>
       is_ok (process 2000 (''x2'', ''x3'') ''t1'' s) \<and> is_ok (settle_twice s)"
  by code_simp

lemma settled_facts:
  "case process 2000 (''x2'', ''x3'') ''t1'' paid of Inl _ \<Rightarrow> False
   | Inr s \<Rightarrow> (case transfer_of s ''t1'' of None \<Rightarrow> False
        | Some t \<Rightarrow> tr_initiatedByUserId t = ''u1'' \<and> tr_status t = TxPosted \<and> \<not> tr_requiresReview t \<and>
            to_account t \<and> tr_toAccountId t = Some ''c2'' \<and> tr_amountCents t = 1000) \<and>
       is_ok (fst (force_settle_endpoint 3000 False (''x6'', ''x7'') ''u1'' ''t1'' s))"
  by code_simp

definition reject_twice :: "bank \<Rightarrow> bool" where
  "reject_twice s = (case decide_check ''t1'' Rejected (Some ''no'') s of Inl _ \<Rightarrow> False
     | Inr t \<Rightarrow> is_ok (ebind (reject_commit 3000 ''adm'' t (Some ''no'') s)
         (\<lambda>s1. reject_commit 3001 ''ops'' t (Some ''no'') s1)))"

lemma held_facts:
  "case sample_big_pay of Inl _ \<Rightarrow> False
   | Inr (r, s) \<Rightarrow> is_ok (decide 3000 True (''x2'', ''x3'') ''adm'' ''t1'' Rejected (Some ''no'') s) \<and>
       is_ok (decide 3000 False (''x2'', ''x3'') ''adm'' ''t1'' Approved None s) \<and> reject_twice s \<and>
       (case transfer_of s ''t1'' of None \<Rightarrow> False | Some t \<Rightarrow> 0 \<le> tr_feeCents t)"
  by code_simp

lemma is_okD: "is_ok r \<Longrightarrow> \<exists>x. r = Inr x"
  by (cases r) auto

lemma sample_bank_sel:
  "db_accounts sample_bank = [sample_account ''c1'' ''u1'' Checking 200000, sample_account ''s1'' ''u1'' Savings 0,
     sample_account ''c2'' ''u2'' Checking 5000]"
  "db_transfers sample_bank = []" "db_postings sample_bank = []" "db_transactions sample_bank = []"
  by (simp_all add: sample_bank_def ensureSystemAccounts_def empty_bank_def)

lemma ledger_inv_sample_bank: "ledger_inv sample_bank"
  by (simp add: sample_bank_def ensureSystemAccounts_def empty_bank_def
      SYSTEM_LEDGER_SEEDS_def upsert_ledger_account_def ledger_inv_def entry_sum_def system_code_defs)

lemma feeMin_ok: "0 \<le> cf_feeMin default_config"
  by (simp add: default_config_def)

lemma state_of_facts:
  "(case r of Inl _ \<Rightarrow> False | Inr (x, s) \<Rightarrow> P s) \<Longrightarrow> (\<exists>x. r = Inr (x, state_of r)) \<and> P (state_of r)"
  by (auto simp: state_of_def split: sum.splits)

lemma payE: obtains r where "sample_pay = Inr (r, paid)"
  using state_of_facts [OF pay_facts] that by (auto simp: paid_def)

lemma big_payE: obtains r where "sample_big_pay = Inr (r, held)"
  using state_of_facts [OF held_facts] that by (auto simp: held_def)

lemma paid_facts: "pay_due ''t1'' paid" "\<forall>u. user_of paid ''u1'' = Some u \<longrightarrow> \<not> u_transfersDisabled u"
  "account_of paid ''c1'' \<noteq> None" "account_of paid ''c2'' \<noteq> None" "transaction_of paid ''x1'' \<noteq> None"
  "transaction_of paid ''x2'' = None" "transaction_of paid ''x3'' = None" "system_ready paid"
  "is_ok (process 2000 (''x2'', ''x3'') ''t1'' paid)" "is_ok (settle_twice paid)"
  using state_of_facts [OF pay_facts]
  by (auto simp: paid_def system_ready_def split: option.splits)

lemma held_bank_facts:
  "is_ok (decide 3000 True (''x2'', ''x3'') ''adm'' ''t1'' Rejected (Some ''no'') held)"
  "is_ok (decide 3000 False (''x2'', ''x3'') ''adm'' ''t1'' Approved None held)" "reject_twice held"
  "transfer_of held ''t1'' = Some t \<Longrightarrow> 0 \<le> tr_feeCents t"
  using state_of_facts [OF held_facts] by (auto simp: held_def)

lemma ledger_inv_paid: "ledger_inv paid" "ledger_inv held"
proof -
  obtain r where "sample_pay = Inr (r, paid)" by (rule payE)
  then show "ledger_inv paid"
    using initiate_keeps_ledger [of default_config sample_env] feeMin_ok ledger_inv_sample_bank
    by (auto simp: sample_pay_def)
  obtain r where "sample_big_pay = Inr (r, held)" by (rule big_payE)
  then show "ledger_inv held"
    using initiate_keeps_ledger [of default_config sample_env] feeMin_ok ledger_inv_sample_bank
    by (auto simp: sample_big_pay_def)
qed

lemma dueE: obtains t where "settle_check ''t1'' paid = Some t" "to_account t" "tr_toAccountId t = Some ''c2''"
  "tr_fromAccountId t = ''c1''" "tr_pendingTransactionId t = Some ''x1''" "credited t = Some ''c2''"
  using paid_facts(1) by (auto simp: pay_due_def credited_def split: option.splits)

section \<open>Witnesses: pricing\<close>

definition sample_quote :: quote_params where
  "sample_quote = \<lparr>qp_kind = P2P, qp_amountCents = 100000, qp_instant = True, qp_minCents = 500,
     qp_maxCents = 2500000, qp_instantFeeBps = 175, qp_instantFeeMinCents = 25, qp_wireScope = None\<rparr>"

theorem quote_fee_bounded_witness:
  "q_feeCents (computeQuote sample_quote) = 1750 \<and> q_feeCents (computeQuote sample_quote) \<le> 100000"
proof -
  have "q_valid (computeQuote sample_quote)" "q_feeCents (computeQuote sample_quote) = 1750"
    by (simp_all add: computeQuote_def sample_quote_def externalKinds_def js_div_def)
  then show ?thesis using quote_fee_bounded [of sample_quote] by (simp add: sample_quote_def)
qed

lemma supported_sample: "isSupportedCurrency ''BHD''" "isSupportedCurrency ''USD''"
  by (simp_all add: isSupportedCurrency_def SUPPORTED_CURRENCIES_def)

theorem rate_always_available_witness:
  "\<exists>r. getRate 0 pegTable ''BHD'' ''USD'' = Inr r \<and> 0 < fr_rate r"
  using rate_always_available [OF supported_sample, of 0 pegTable] by blast

theorem convert_error_bound_witness:
  "\<exists>cv. convert 0 pegTable 1250 ''USD'' ''USD'' = Inr cv \<and>
     \<bar>of_int (fc_toAmountMinor cv) - 1250 * fr_rate (fc_rate cv)\<bar> \<le> 1 / 2 + 5 * (\<bar>1250 * fr_rate (fc_rate cv)\<bar> / 2 ^ 53)"
proof -
  obtain cv where "convert 0 pegTable 1250 ''USD'' ''USD'' = Inr cv"
    using supported_sample(2) by (auto simp: convert_def getRate_def assertCurrency_def Let_def)
  then show ?thesis using convert_error_bound [of 0 pegTable 1250 "''USD''" "''USD''" cv] by auto
qed

theorem convert_same_currency_witness:
  "\<exists>cv. convert 0 pegTable 123456789 ''BHD'' ''BHD'' = Inr cv \<and> fc_toAmountMinor cv = 123456789"
  using convert_same_currency_exact [OF supported_sample(1), of 123456789 0 pegTable] by auto

theorem rate_table_cached_witness:
  "let (table, st) = loadTable 1000 None \<lparr>fx_cache = None, fx_fetchedAtMs = 0\<rparr>
   in loadTable 3600999 None st = (table, st) \<and> table = pegTable"
proof -
  have l: "loadTable 1000 None \<lparr>fx_cache = None, fx_fetchedAtMs = 0\<rparr> =
      (pegTable, \<lparr>fx_cache = Some pegTable, fx_fetchedAtMs = 1000\<rparr>)"
    by (simp add: loadTable_def cacheFresh_def usable_answer_def)
  have "loadTable 3600999 None \<lparr>fx_cache = Some pegTable, fx_fetchedAtMs = 1000\<rparr> =
      (pegTable, \<lparr>fx_cache = Some pegTable, fx_fetchedAtMs = 1000\<rparr>)"
    by (rule rate_table_cached [OF l]) (simp_all add: ttlMs_def)
  then show ?thesis using l by simp
qed

section \<open>Witnesses: initiation\<close>

theorem initiate_keeps_books_witness:
  "\<exists>r s. sample_pay = Inr (r, s) \<and> ledger_inv s \<and> (\<forall>k. drift s k = drift sample_bank k)"
proof -
  obtain r where "sample_pay = Inr (r, paid)" by (rule payE)
  then show ?thesis
    using initiate_keeps_books [of default_config sample_env "(''t1'', ''x1'')" "''u1''" "''k1''"
        "sample_dto P2P ''c1'' (Some ''c2'') 1000" sample_bank r paid] feeMin_ok ledger_inv_sample_bank
    by (auto simp: sample_pay_def)
qed

theorem initiate_debits_once_witness:
  "\<exists>r s t. sample_pay = Inr (r, s) \<and> transfer_of s ''t1'' = Some t \<and> tr_status t = TxPending \<and>
     balance_of s ''c1'' = Some (200000 - (tr_amountCents t + tr_feeCents t))"
proof -
  obtain r where p: "sample_pay = Inr (r, paid)" by (rule payE)
  have "find_unique tr_idempotencyKey ''k1'' (db_transfers sample_bank) = None"
    by (simp add: sample_bank_sel)
  from initiate_debits_once [OF p [unfolded sample_pay_def] this]
  show ?thesis using p by (auto simp: sample_dto_def sample_bank_sel sample_account_def)
qed

theorem initiate_replay_witness:
  "\<exists>r s r'. sample_pay = Inr (r, s) \<and>
     initiate default_config sample_env (''t2'', ''x9'') ''u1'' ''k1'' (sample_dto Internal ''c1'' (Some ''s1'') 7777) s
       = Inr (r', s) \<and> ir_transferId r' = ir_transferId r"
proof -
  obtain r where p: "sample_pay = Inr (r, paid)" by (rule payE)
  from initiate_replay_is_idempotent [OF p [unfolded sample_pay_def] paid_facts(2)]
  show ?thesis using p by blast
qed

definition sample_plan :: plan where
  "sample_plan = \<lparr>pl_from = sample_account ''c1'' ''u1'' Checking 200000, pl_to = None,
     pl_settlementCents = 1000, pl_feeCents = 25, pl_fx = None\<rparr>"

lemma commit_ok: "is_ok (initiate_commit default_config sample_env ''u1'' ''k1''
    (sample_dto P2P ''c1'' (Some ''c2'') 1000) sample_plan ''t1'' ''x1'' ''Rent'' sample_bank)"
  by code_simp

theorem initiate_commit_safe_witness:
  "\<exists>t s b. initiate_commit default_config sample_env ''u1'' ''k1''
     (sample_dto P2P ''c1'' (Some ''c2'') 1000) sample_plan ''t1'' ''x1'' ''Rent'' sample_bank = Inr (t, s) \<and>
     balance_of s ''c1'' = Some b \<and> 0 \<le> b"
proof -
  obtain t s where c: "initiate_commit default_config sample_env ''u1'' ''k1''
     (sample_dto P2P ''c1'' (Some ''c2'') 1000) sample_plan ''t1'' ''x1'' ''Rent'' sample_bank = Inr (t, s)"
    using is_okD [OF commit_ok] by auto
  moreover have "distinct (map tr_idempotencyKey (db_transfers sample_bank))" by (simp add: sample_bank_sel)
  ultimately show ?thesis
    using initiate_commit_safe_in_any_state by (fastforce simp: sample_plan_def sample_account_def)
qed

section \<open>Witnesses: settlement\<close>

theorem process_keeps_books_witness:
  "\<exists>s. process 2000 (''x2'', ''x3'') ''t1'' paid = Inr s \<and> ledger_inv s"
  using is_okD [OF paid_facts(9)] process_keeps_books [OF _ ledger_inv_paid(1)] by blast

theorem process_credits_recipient_witness:
  "\<exists>t s. settle_check ''t1'' paid = Some t \<and> process 2000 (''x2'', ''x3'') ''t1'' paid = Inr s \<and>
     balance_of s ''c2'' = map_option (\<lambda>b. b + tr_amountCents t) (balance_of paid ''c2'') \<and>
     balance_of s ''c1'' = balance_of paid ''c1''"
proof -
  obtain t where t: "settle_check ''t1'' paid = Some t" "to_account t" "tr_toAccountId t = Some ''c2''"
    by (rule dueE)
  obtain s where "process 2000 (''x2'', ''x3'') ''t1'' paid = Inr s" using is_okD [OF paid_facts(9)] by blast
  then show ?thesis using process_credits_recipient [OF t(1,2)] t by auto
qed

theorem process_is_idempotent_witness:
  "\<exists>s. process 2000 (''x2'', ''x3'') ''t1'' paid = Inr s \<and> process 9000 (''y2'', ''y3'') ''t1'' s = Inr s"
  using is_okD [OF paid_facts(9)] process_is_idempotent by blast

theorem process_succeeds_witness:
  "\<exists>s t. process 5000 (''x2'', ''x3'') ''t1'' paid = Inr s \<and> transfer_of s ''t1'' = Some t \<and> tr_status t = TxPosted"
proof -
  obtain t where t: "settle_check ''t1'' paid = Some t" "tr_fromAccountId t = ''c1''"
    "tr_pendingTransactionId t = Some ''x1''" "credited t = Some ''c2''" by (rule dueE)
  show ?thesis
    by (rule process_succeeds [OF t(1), of "(''x2'', ''x3'')" 5000]) (use paid_facts t in auto)
qed

theorem initiate_holds_for_review_witness:
  "\<exists>r s. sample_big_pay = Inr (r, s) \<and> jobs s = jobs sample_bank \<and> process 5000 (''x2'', ''x3'') ''t1'' s = Inr s"
proof -
  obtain r where p: "sample_big_pay = Inr (r, held)" by (rule big_payE)
  have "find_unique tr_idempotencyKey ''k1'' (db_transfers sample_bank) = None"
    by (simp add: sample_bank_sel)
  from initiate_holds_for_review [OF p [unfolded sample_big_pay_def] this, of 5000 "(''x2'', ''x3'')"]
  have "jobs held = jobs sample_bank \<and> process 5000 (''x2'', ''x3'') ''t1'' held = Inr held"
    by (simp add: sample_dto_def default_config_def)
  then show ?thesis using p by blast
qed

theorem force_settle_pays_again_witness:
  "\<exists>x s. force_settle_endpoint 3000 False (''x6'', ''x7'') ''u1'' ''t1'' settled_bank = (Inr x, s) \<and>
     balance_of s ''c2'' = map_option (\<lambda>b. b + 1000) (balance_of settled_bank ''c2'')"
proof -
  have f: "case transfer_of settled_bank ''t1'' of None \<Rightarrow> False
        | Some t \<Rightarrow> tr_initiatedByUserId t = ''u1'' \<and> tr_status t = TxPosted \<and> \<not> tr_requiresReview t \<and>
            to_account t \<and> tr_toAccountId t = Some ''c2'' \<and> tr_amountCents t = 1000"
    "is_ok (fst (force_settle_endpoint 3000 False (''x6'', ''x7'') ''u1'' ''t1'' settled_bank))"
    using settled_facts by (auto simp: settled_bank_def split: sum.splits)
  then obtain t where t: "transfer_of settled_bank ''t1'' = Some t" "tr_initiatedByUserId t = ''u1''"
    "tr_status t = TxPosted" "\<not> tr_requiresReview t" "to_account t" "tr_toAccountId t = Some ''c2''"
    "tr_amountCents t = 1000" by (auto split: option.splits)
  obtain x s where "force_settle_endpoint 3000 False (''x6'', ''x7'') ''u1'' ''t1'' settled_bank = (Inr x, s)"
    using is_okD [OF f(2)] by (metis prod.collapse)
  then show ?thesis using force_settle_pays_again [OF t(1-3) _ t(5)] t by auto
qed

theorem settle_race_witness:
  "\<exists>t s1 s2. settle_check ''t1'' paid = Some t \<and> settle_commit 2000 t (''x2'', ''x3'') paid = Inr s1 \<and>
     settle_commit 2001 t (''x4'', ''x5'') s1 = Inr s2 \<and>
     balance_of s2 ''c2'' = map_option (\<lambda>b. b + 2 * tr_amountCents t) (balance_of paid ''c2'')"
proof -
  obtain t where t: "settle_check ''t1'' paid = Some t" "to_account t" "tr_toAccountId t = Some ''c2''"
    by (rule dueE)
  obtain s1 s2 where "settle_commit 2000 t (''x2'', ''x3'') paid = Inr s1"
    "settle_commit 2001 t (''x4'', ''x5'') s1 = Inr s2"
    using is_okD [OF paid_facts(10)] t by (auto simp: settle_twice_def err_simps)
  then show ?thesis using settle_race_pays_twice [OF t(1,2)] t by fastforce
qed

theorem failed_settlement_witness:
  "\<exists>t. transfer_of (onFailed 9 3 (Some 3) ''t1'' ''Destination account vanished'' paid) ''t1'' = Some t \<and>
     tr_status t = TxDeclined \<and>
     balance_of (onFailed 9 3 (Some 3) ''t1'' ''Destination account vanished'' paid) ''c1'' = balance_of paid ''c1''"
proof -
  obtain t where "settle_check ''t1'' paid = Some t" by (rule dueE)
  then have "transfer_of paid ''t1'' = Some t" by (simp add: settle_check_Some)
  from failed_settlement_keeps_the_money [OF this, of "Some 3" 3 9 "''Destination account vanished''"]
  show ?thesis by (auto simp: Let_def)
qed

section \<open>Witnesses: review\<close>

theorem decide_keeps_books_witness:
  "\<exists>s. decide 3000 False (''x2'', ''x3'') ''adm'' ''t1'' Approved None held = Inr s \<and> ledger_inv s"
  using is_okD [OF held_bank_facts(2)] decide_keeps_books [OF _ ledger_inv_paid(2) held_bank_facts(4)] by blast

theorem reject_undoes_initiate_witness:
  "\<exists>r s1 s2. sample_big_pay = Inr (r, s1) \<and>
     decide 3000 True (''x2'', ''x3'') ''adm'' ''t1'' Rejected (Some ''no'') s1 = Inr s2 \<and>
     balance_of s2 ''c1'' = Some 200000"
proof -
  obtain r where p: "sample_big_pay = Inr (r, held)" by (rule big_payE)
  have n: "find_unique tr_idempotencyKey ''k1'' (db_transfers sample_bank) = None"
    by (simp add: sample_bank_sel)
  obtain s where d: "decide 3000 True (''x2'', ''x3'') ''adm'' ''t1'' Rejected (Some ''no'') held = Inr s"
    using is_okD [OF held_bank_facts(1)] by blast
  have "balance_of s ''c1'' = balance_of sample_bank ''c1''"
    using reject_undoes_initiate [OF p [unfolded sample_big_pay_def] n feeMin_ok, of 3000 True "(''x2'', ''x3'')"
        "''adm''" "Some ''no''" s] d by simp
  also have "\<dots> = Some 200000" by (simp add: balance_of_def sample_bank_sel sample_account_def)
  finally show ?thesis using p d by blast
qed

theorem decide_only_once_witness:
  "\<exists>s. decide 3000 True (''x2'', ''x3'') ''adm'' ''t1'' Rejected (Some ''no'') held = Inr s \<and>
     \<not> is_ok (decide 3001 True (''x2'', ''x3'') ''ops'' ''t1'' Approved None s)"
  using is_okD [OF held_bank_facts(1)] decide_only_once by blast

theorem reject_race_witness:
  "\<exists>t s1 s2. decide_check ''t1'' Rejected (Some ''no'') held = Inr t \<and>
     reject_commit 3000 ''adm'' t (Some ''no'') held = Inr s1 \<and>
     reject_commit 3001 ''ops'' t (Some ''no'') s1 = Inr s2 \<and>
     balance_of s2 (tr_fromAccountId t) =
       map_option (\<lambda>b. b + 2 * (tr_amountCents t + tr_feeCents t)) (balance_of held (tr_fromAccountId t))"
proof -
  obtain t s1 s2 where "decide_check ''t1'' Rejected (Some ''no'') held = Inr t"
    "reject_commit 3000 ''adm'' t (Some ''no'') held = Inr s1"
    "reject_commit 3001 ''ops'' t (Some ''no'') s1 = Inr s2"
    using held_bank_facts(3) by (auto simp: reject_twice_def err_simps dest!: is_okD split: sum.splits)
  then show ?thesis using reject_race_refunds_twice by blast
qed

end
