(* ===== verification/Js_Date.thy ===== *)
theory Js_Date
  imports Bank_Prelude
begin

text \<open>
  The UTC part of JavaScript's \<open>Date\<close> as the language specification defines it: a time value is a
  number of milliseconds since the epoch, days are counted from 1 January 1970 in the proleptic
  Gregorian calendar, months from 0, and the setters normalise fields that are out of range.
\<close>

definition msPerDay :: int where "msPerDay = 86400000"

definition day_of :: "int \<Rightarrow> int" where "day_of t = t div msPerDay"

definition time_in_day :: "int \<Rightarrow> int" where "time_in_day t = t mod msPerDay"

definition DayFromYear :: "int \<Rightarrow> int" where
  "DayFromYear y = 365 * (y - 1970) + (y - 1969) div 4 - (y - 1901) div 100 + (y - 1601) div 400"

definition leap :: "int \<Rightarrow> bool" where
  "leap y = (y mod 4 = 0 \<and> (y mod 100 \<noteq> 0 \<or> y mod 400 = 0))"

text \<open>Day of the year on which month \<open>m\<close> (0 to 12) begins.\<close>

definition month_start :: "bool \<Rightarrow> int \<Rightarrow> int" where
  "month_start l m =
     (let x = (if l then 1 else 0) in
      if m \<le> 0 then 0 else if m = 1 then 31 else if m = 2 then 59 + x else if m = 3 then 90 + x
      else if m = 4 then 120 + x else if m = 5 then 151 + x else if m = 6 then 181 + x
      else if m = 7 then 212 + x else if m = 8 then 243 + x else if m = 9 then 273 + x
      else if m = 10 then 304 + x else if m = 11 then 334 + x else 365 + x)"

definition month_length :: "int \<Rightarrow> int \<Rightarrow> int" where
  "month_length y m = month_start (leap y) (m + 1) - month_start (leap y) m"

text \<open>The year of a day: the largest \<open>y\<close> whose first day is not later.\<close>

lemma div_pred:
  assumes "1 < (k::int)"
  shows "y div k = (y - 1) div k + (if y mod k = 0 then 1 else 0)"
proof (cases "y mod k = 0")
  case True
  then have "y - 1 = k * (y div k - 1) + (k - 1)"
    using mult_div_mod_eq [of k y] by (simp add: algebra_simps)
  then have "(y - 1) div k = y div k - 1"
    using assms by (intro int_div_pos_eq [where r = "k - 1"]) simp_all
  then show ?thesis using True by simp
next
  case False
  moreover have "0 \<le> y mod k" "y mod k < k" using assms by simp_all
  moreover have "y - 1 = k * (y div k) + (y mod k - 1)" by (simp add: algebra_simps)
  ultimately have "(y - 1) div k = y div k" by (intro int_div_pos_eq [where r = "y mod k - 1"]) simp_all
  then show ?thesis using False by simp
qed

lemma div_shift:
  assumes "1 < (k::int)"
  shows "(y - k * c) div k = (y - (k * c + 1)) div k + (if y mod k = 0 then 1 else 0)"
proof -
  have "(y - k * c) div k = y div k - c"
    using assms div_mult_self2 [of k y "- c"] by (simp add: algebra_simps)
  moreover have "(y - (k * c + 1)) div k = (y - 1) div k - c"
    using assms div_mult_self2 [of k "y - 1" "- c"] by (simp add: algebra_simps)
  ultimately show ?thesis using div_pred [OF assms, of y] by simp
qed

lemma DayFromYear_step: "DayFromYear (y + 1) = DayFromYear y + (if leap y then 366 else 365)"
proof -
  define a b c where "a = (y - 1969) div 4" and "b = (y - 1901) div 100" and "c = (y - 1601) div 400"
  have "(y - 1968) div 4 = a + (if y mod 4 = 0 then 1 else 0)"
    using div_shift [of 4 y 492] by (simp add: a_def)
  moreover have "(y - 1900) div 100 = b + (if y mod 100 = 0 then 1 else 0)"
    using div_shift [of 100 y 19] by (simp add: b_def)
  moreover have "(y - 1600) div 400 = c + (if y mod 400 = 0 then 1 else 0)"
    using div_shift [of 400 y 4] by (simp add: c_def)
  moreover have "DayFromYear (y + 1) = 365 * (y - 1969) + (y - 1968) div 4 - (y - 1900) div 100 + (y - 1600) div 400"
    by (simp add: DayFromYear_def)
  moreover have "DayFromYear y = 365 * (y - 1970) + a - b + c"
    by (simp add: DayFromYear_def a_def b_def c_def)
  ultimately have step: "DayFromYear (y + 1) = DayFromYear y + 365 + (if y mod 4 = 0 then 1 else 0) -
      (if y mod 100 = 0 then 1 else 0) + (if y mod 400 = 0 then 1 else 0)" by simp
  have "y mod 400 = 0 \<Longrightarrow> y mod 100 = 0" using mod_mod_cancel [of 100 400 y] by simp
  moreover have "y mod 100 = 0 \<Longrightarrow> y mod 4 = 0" using mod_mod_cancel [of 4 100 y] by simp
  ultimately show ?thesis unfolding step leap_def
    by (cases "y mod 4 = 0"; cases "y mod 100 = 0"; cases "y mod 400 = 0") simp_all
qed

function find_year :: "int \<Rightarrow> int \<Rightarrow> int" where
  "find_year y d = (if DayFromYear (y + 1) \<le> d then find_year (y + 1) d else y)"
  by auto
termination
  by (relation "measure (\<lambda>(y, d). nat (d - DayFromYear y))") (auto simp: DayFromYear_step split: if_splits)

declare find_year.simps [simp del]

definition year_of_day :: "int \<Rightarrow> int" where
  "year_of_day d = find_year (1969 + d div (if d < 0 then 365 else 366)) d"

fun find_month :: "nat \<Rightarrow> bool \<Rightarrow> int \<Rightarrow> int" where
  "find_month 0 l n = 0"
| "find_month (Suc k) l n = (if month_start l (int (Suc k)) \<le> n then int (Suc k) else find_month k l n)"

text \<open>Year, month and day of the month.\<close>

definition ymd :: "int \<Rightarrow> int \<times> int \<times> int" where
  "ymd d = (let y = year_of_day d; n = d - DayFromYear y; m = find_month 11 (leap y) n
            in (y, m, n - month_start (leap y) m + 1))"

definition make_day :: "int \<Rightarrow> int \<Rightarrow> int \<Rightarrow> int" where
  "make_day y m dt = (let y' = y + m div 12 in DayFromYear y' + month_start (leap y') (m mod 12) + dt - 1)"

definition getUTCFullYear :: "int \<Rightarrow> int" where "getUTCFullYear t = fst (ymd (day_of t))"
definition getUTCMonth :: "int \<Rightarrow> int" where "getUTCMonth t = fst (snd (ymd (day_of t)))"
definition getUTCDate :: "int \<Rightarrow> int" where "getUTCDate t = snd (snd (ymd (day_of t)))"
definition getUTCDay :: "int \<Rightarrow> int" where "getUTCDay t = (day_of t + 4) mod 7"

definition date_UTC :: "int \<Rightarrow> int \<Rightarrow> int \<Rightarrow> int" where
  "date_UTC y m dt = make_day y m dt * msPerDay"

definition setUTCDate :: "int \<Rightarrow> int \<Rightarrow> int" where
  "setUTCDate dt t = make_day (getUTCFullYear t) (getUTCMonth t) dt * msPerDay + time_in_day t"

definition setUTCMonth :: "int \<Rightarrow> int \<Rightarrow> int" where
  "setUTCMonth m t = make_day (getUTCFullYear t) m (getUTCDate t) * msPerDay + time_in_day t"

definition setUTCHours9 :: "int \<Rightarrow> int" where
  "setUTCHours9 t = day_of t * msPerDay + 9 * 3600000"

section \<open>Lemmas\<close>

lemma msPerDay_pos [simp]: "0 < msPerDay" "msPerDay \<noteq> 0"
  by (simp_all add: msPerDay_def)

lemma day_of_add [simp]: "0 \<le> r \<Longrightarrow> r < msPerDay \<Longrightarrow> day_of (d * msPerDay + r) = d"
  by (simp add: day_of_def)

lemma time_in_day_bounds [simp]: "0 \<le> time_in_day t" "time_in_day t < msPerDay"
  by (simp_all add: time_in_day_def)

lemma day_of_set [simp]:
  "day_of (setUTCDate dt t) = make_day (getUTCFullYear t) (getUTCMonth t) dt"
  "day_of (setUTCMonth m t) = make_day (getUTCFullYear t) m (getUTCDate t)"
  "day_of (setUTCHours9 t) = day_of t"
  by (simp_all add: setUTCDate_def setUTCMonth_def) (simp add: setUTCHours9_def msPerDay_def day_of_def)

lemma DayFromYear_upper:
  assumes "0 \<le> k"
  shows "DayFromYear (1970 + k) \<le> 366 * k + 1"
proof -
  have "4 * ((k + 1) div 4) \<le> k + 1" using mult_div_mod_eq [of 4 "k + 1"] pos_mod_sign [of 4 "k + 1"] by linarith
  moreover have "400 * ((k + 369) div 400) \<le> k + 369"
    using mult_div_mod_eq [of 400 "k + 369"] pos_mod_sign [of 400 "k + 369"] by linarith
  moreover have "k + 69 - 100 < 100 * ((k + 69) div 100)"
    using mult_div_mod_eq [of 100 "k + 69"] pos_mod_bound [of 100 "k + 69"] by linarith
  ultimately show ?thesis using assms by (simp add: DayFromYear_def)
qed

lemma DayFromYear_lower:
  assumes "k \<le> 0"
  shows "DayFromYear (1969 + k) \<le> 365 * k"
proof -
  have "4 * (k div 4) \<le> k" using mult_div_mod_eq [of 4 k] pos_mod_sign [of 4 k] by linarith
  moreover have "400 * ((k + 368) div 400) \<le> k + 368"
    using mult_div_mod_eq [of 400 "k + 368"] pos_mod_sign [of 400 "k + 368"] by linarith
  moreover have "k + 68 - 100 < 100 * ((k + 68) div 100)"
    using mult_div_mod_eq [of 100 "k + 68"] pos_mod_bound [of 100 "k + 68"] by linarith
  ultimately show ?thesis using assms by (simp add: DayFromYear_def)
qed

lemma DayFromYear_mono: "y \<le> z \<Longrightarrow> DayFromYear y \<le> DayFromYear z"
proof (induction z rule: int_ge_induct)
  case (step z)
  then show ?case using DayFromYear_step [of z] by (auto split: if_splits)
qed simp

lemma find_year_spec:
  "DayFromYear y \<le> d \<Longrightarrow> DayFromYear (find_year y d) \<le> d \<and> d < DayFromYear (find_year y d + 1)"
proof (induction y d rule: find_year.induct)
  case (1 y d)
  show ?case
  proof (cases "DayFromYear (y + 1) \<le> d")
    case True
    with "1.IH" show ?thesis by (simp add: find_year.simps [of y d])
  next
    case False
    with "1.prems" show ?thesis by (simp add: find_year.simps [of y d])
  qed
qed

lemma year_of_day_spec: "DayFromYear (year_of_day d) \<le> d \<and> d < DayFromYear (year_of_day d + 1)"
proof -
  have "DayFromYear (1969 + d div (if d < 0 then 365 else 366)) \<le> d"
  proof (cases "d < 0")
    case True
    have "d div 365 \<le> 0" using True by simp
    then have "DayFromYear (1969 + d div 365) \<le> 365 * (d div 365)" by (rule DayFromYear_lower)
    also have "\<dots> \<le> d" by simp
    finally show ?thesis using True by simp
  next
    case False
    have "DayFromYear (1969 + d div 366 + 1) \<le> 366 * (d div 366) + 1"
      using False DayFromYear_upper [of "d div 366"] by (simp add: add.commute)
    then have "DayFromYear (1969 + d div 366) \<le> 366 * (d div 366)"
      using DayFromYear_step [of "1969 + d div 366"] by (auto split: if_splits)
    also have "\<dots> \<le> d" by simp
    finally show ?thesis using False by simp
  qed
  then show ?thesis unfolding year_of_day_def by (rule find_year_spec)
qed

lemma year_of_day_unique: "DayFromYear y \<le> d \<Longrightarrow> d < DayFromYear (y + 1) \<Longrightarrow> year_of_day d = y"
  using year_of_day_spec [of d] DayFromYear_mono [of "y + 1" "year_of_day d"]
    DayFromYear_mono [of "year_of_day d + 1" y] by (cases "year_of_day d" y rule: linorder_cases) auto

lemmas month_cases = month_start_def Let_def

lemma month_range: "0 \<le> m \<Longrightarrow> m \<le> 11 \<Longrightarrow>
    m = 0 \<or> m = 1 \<or> m = 2 \<or> m = 3 \<or> m = 4 \<or> m = 5 \<or> m = 6 \<or> m = 7 \<or> m = 8 \<or> m = 9 \<or> m = 10 \<or> m = (11::int)"
  by presburger

lemma find_month_unique:
  assumes "0 \<le> m" "m \<le> 11" "month_start l m \<le> n" "n < month_start l (m + 1)"
  shows "find_month 11 l n = m"
  using month_range [OF assms(1,2)] assms(3,4)
  by (elim disjE) (simp_all add: eval_nat_numeral month_cases split: if_splits)

lemma month_length_pos: "0 \<le> m \<Longrightarrow> m \<le> 11 \<Longrightarrow> 28 \<le> month_length y m \<and> month_length y m \<le> 31"
  by (drule (1) month_range, elim disjE) (auto simp: month_length_def month_cases)

lemma month_start_bounds: "0 \<le> m \<Longrightarrow> m \<le> 11 \<Longrightarrow>
    0 \<le> month_start l m \<and> month_start l (m + 1) \<le> (if l then 366 else 365)"
  by (drule (1) month_range, elim disjE) (auto simp: month_cases)

text \<open>The calendar round trip.\<close>

lemma ymd_make_day:
  assumes "0 \<le> m" "m \<le> 11" "1 \<le> dt" "dt \<le> month_length y m"
  shows "ymd (make_day y m dt) = (y, m, dt)"
proof -
  let ?d = "make_day y m dt"
  have d: "?d = DayFromYear y + month_start (leap y) m + dt - 1"
    using assms(1,2) by (simp add: make_day_def Let_def)
  have n: "month_start (leap y) m \<le> ?d - DayFromYear y" "?d - DayFromYear y < month_start (leap y) (m + 1)"
    using assms(3,4) by (auto simp: d month_length_def)
  have "year_of_day ?d = y"
    using n month_start_bounds [OF assms(1,2), of "leap y"] DayFromYear_step [of y]
    by (intro year_of_day_unique) (auto split: if_splits)
  then show ?thesis using find_month_unique [OF assms(1,2) n] by (simp add: ymd_def Let_def d)
qed

lemma find_month_spec:
  assumes "0 \<le> n" "n < month_start l (int k + 1)"
  shows "0 \<le> find_month k l n \<and> find_month k l n \<le> int k \<and> month_start l (find_month k l n) \<le> n \<and>
         n < month_start l (find_month k l n + 1)"
  using assms by (induction k) (auto simp: month_start_def [of _ 0] add.commute)

lemma month_start_year: "month_start l 12 = (if l then 366 else 365)"
  by (simp add: month_start_def)

lemma ymd_valid:
  assumes "ymd d = (y, m, dt)"
  shows "0 \<le> m" "m \<le> 11" "1 \<le> dt" "dt \<le> month_length y m" "make_day y m dt = d"
proof -
  let ?n = "d - DayFromYear (year_of_day d)"
  have y: "y = year_of_day d" and m: "m = find_month 11 (leap y) ?n" and dt: "dt = ?n - month_start (leap y) m + 1"
    using assms by (auto simp: ymd_def Let_def)
  have "0 \<le> ?n" "?n < month_start (leap y) (int 11 + 1)"
    using year_of_day_spec [of d] DayFromYear_step [of y] by (auto simp: y month_start_year)
  from find_month_spec [OF this] have "0 \<le> m \<and> m \<le> 11 \<and> month_start (leap y) m \<le> ?n \<and> ?n < month_start (leap y) (m + 1)"
    by (simp add: m)
  then show "0 \<le> m" "m \<le> 11" "1 \<le> dt" "dt \<le> month_length y m" "make_day y m dt = d"
    by (auto simp: dt month_length_def make_day_def Let_def y)
qed

lemma make_day_shift: "make_day y m (dt + j) = make_day y m dt + j"
  by (simp add: make_day_def Let_def)

text \<open>Month \<open>m\<close> of year \<open>y\<close> with \<open>m\<close> out of range is month \<open>m mod 12\<close> of a later year.\<close>

lemma make_day_norm: "make_day y m dt = make_day (y + m div 12) (m mod 12) dt"
  by (simp add: make_day_def Let_def)

lemma ymd_first: "ymd (make_day y m 1) = (y + m div 12, m mod 12, 1)"
proof -
  have "m mod 12 \<le> 11" using pos_mod_bound [of 12 m] by linarith
  then show ?thesis
    using ymd_make_day [of "m mod 12" 1 "y + m div 12"] month_length_pos [of "m mod 12" "y + m div 12"]
    by (simp add: make_day_norm [of y m])
qed

text \<open>The first day of a month is not later than the first day of the month of any later day.\<close>

lemma first_of_month_mono:
  assumes "make_day y m 1 \<le> d" "ymd d = (y', m', dt')"
  shows "make_day y m 1 \<le> make_day y' m' 1"
proof (rule ccontr)
  assume late: "\<not> make_day y m 1 \<le> make_day y' m' 1"
  note v = ymd_valid [OF assms(2)]
  define j where "j = make_day y m 1 - make_day y' m' 1"
  have j: "0 < j" "1 + j \<le> dt'"
    using late assms(1) v(5) make_day_shift [of y' m' 1 "dt' - 1"] by (auto simp: j_def)
  have "make_day y m 1 = make_day y' m' (1 + j)" using make_day_shift [of y' m' 1 j] by (simp add: j_def)
  moreover have "ymd (make_day y' m' (1 + j)) = (y', m', 1 + j)"
    using v j by (intro ymd_make_day) auto
  ultimately show False using ymd_first [of y m] j(1) by simp
qed

lemma next_month_start:
  assumes "0 \<le> m" "m \<le> 11"
  shows "make_day y (m + 1) 1 = make_day y m 1 + month_length y m"
proof (cases "m = 11")
  case True
  then show ?thesis using DayFromYear_step [of y]
    by (auto simp: make_day_def Let_def month_length_def month_start_year month_start_def [of _ 0])
next
  case False
  then have "(m + 1) div 12 = 0" "(m + 1) mod 12 = m + 1" "m div 12 = 0" "m mod 12 = m" using assms by auto
  then show ?thesis by (simp add: make_day_def month_length_def)
qed

lemma next_month_later:
  assumes "ymd d = (y, m, dt)"
  shows "d < make_day y (m + 1) 1"
  using ymd_valid [OF assms] next_month_start [of m y] make_day_shift [of y m 1 "dt - 1"] by simp

section \<open>Printing\<close>

definition pad_left :: "nat \<Rightarrow> string \<Rightarrow> string" where
  "pad_left n s = replicate (n - length s) (CHR ''0'') @ s"

text \<open>\<open>toISOString\<close> for years 0 to 9999.\<close>

definition toISOString :: "int \<Rightarrow> string" where
  "toISOString t =
     (let (y, m, d) = ymd (day_of t); r = time_in_day t;
          num = (\<lambda>n k. pad_left n (show_digits k))
      in num 4 y @ ''-'' @ num 2 (m + 1) @ ''-'' @ num 2 d @ ''T'' @ num 2 (r div 3600000) @ '':'' @
         num 2 (r div 60000 mod 60) @ '':'' @ num 2 (r div 1000 mod 60) @ ''.'' @ num 3 (r mod 1000) @ ''Z'')"

end
