(* ===== verification/Cards.thy ===== *)
theory Cards
  imports Schema Js_Date
begin

text \<open>
  Payment cards (\<^verbatim>\<open>cards/cards.service.ts\<close>, \<^verbatim>\<open>cards/card-issuer.service.ts\<close>) and their numbers
  (\<^verbatim>\<open>cards/card-pan.util.ts\<close>, \<^verbatim>\<open>card-pan/card-pan.service.ts\<close>). The random digits are arguments; the
  cipher is a pair of functions, the second undoing the first.
\<close>

section \<open>Numbers\<close>

definition dec_digit :: "char \<Rightarrow> bool" where
  "dec_digit c = (48 \<le> (of_char c :: nat) \<and> (of_char c :: nat) \<le> 57)"

definition digit_val :: "char \<Rightarrow> nat" where
  "digit_val c = (of_char c :: nat) - 48"

text \<open>What a digit adds to the check sum, by whether it is doubled.\<close>

definition luhn_term :: "bool \<Rightarrow> nat \<Rightarrow> nat" where
  "luhn_term doubled d = (if doubled then (if 2 * d > 9 then 2 * d - 9 else 2 * d) else d)"

text \<open>The loop of \<^verbatim>\<open>luhnCheckDigit\<close> runs over the digits from the right.\<close>

fun luhn_loop :: "nat list \<Rightarrow> bool \<Rightarrow> nat \<Rightarrow> nat" where
  "luhn_loop [] doubled acc = acc"
| "luhn_loop (d # ds) doubled acc = luhn_loop ds (\<not> doubled) (acc + luhn_term doubled d)"

definition luhnCheckDigit :: "string \<Rightarrow> nat" where
  "luhnCheckDigit part = (10 - luhn_loop (rev (map digit_val part)) True 0 mod 10) mod 10"

definition generatePan :: "nat list \<Rightarrow> string \<Rightarrow> string result" where
  "generatePan rnd bin =
     ebind (require (length bin = 6 \<and> list_all dec_digit bin) (PlainError ''BIN must be 6 digits'')) (\<lambda>_.
     let part = bin @ concat (map show_digits (map int (take 9 rnd)))
     in Inr (part @ show_digits (int (luhnCheckDigit part))))"

definition generateCvv :: "nat \<Rightarrow> string" where
  "generateCvv rnd = pad_left 3 (show_digits (int rnd))"

definition generateExpiry :: "int \<Rightarrow> int \<times> int" where
  "generateExpiry now = (getUTCMonth now + 1, getUTCFullYear now + 4)"

section \<open>State\<close>

datatype card_type = Virtual | Physical

datatype card_status = CardActive | CardFrozen | CardReplaced | CardShipped | CardDelivered | CardClosed

record card =
  ca_id :: string
  ca_accountId :: string
  ca_type :: card_type
  ca_last4 :: string
  ca_expMonth :: int
  ca_expYear :: int
  ca_status :: card_status
  ca_spendingLimitCents :: "int option"
  ca_panCiphertext :: string
  ca_panKeyId :: string
  ca_cvvCiphertext :: string
  ca_cvvKeyId :: string
  ca_issuedAt :: int
  ca_activatedAt :: "int option"
  ca_frozenAt :: "int option"
  ca_replacedFromCardId :: "string option"

record card_order =
  co_id :: string
  co_userId :: string
  co_shipAddress :: "(string \<times> string) list"
  co_etaDays :: nat
  co_createdAt :: int

datatype card_event = EvCardUpdated string string card_status int

record cards_state =
  cs_accounts :: "account list"
  cs_cards :: "card list"
  cs_orders :: "card_order list"
  cs_events :: "card_event list"

text \<open>The cipher of \<^verbatim>\<open>card-pan/card-pan.service.ts\<close> with its fixed key name.\<close>

record cipher =
  ci_encrypt :: "string \<Rightarrow> string"
  ci_decrypt :: "string \<Rightarrow> string"

definition aes_laws :: "cipher \<Rightarrow> bool" where
  "aes_laws ci = (\<forall>p. ci_decrypt ci (ci_encrypt ci p) = p)"

definition pan_keyId :: string where
  "pan_keyId = ''local-aes-v1''"

definition pan_encrypt :: "cipher \<Rightarrow> string \<Rightarrow> string \<times> string" where
  "pan_encrypt ci p = (ci_encrypt ci p, pan_keyId)"

definition pan_decrypt :: "cipher \<Rightarrow> string \<Rightarrow> string \<Rightarrow> string" where
  "pan_decrypt ci c _ = ci_decrypt ci c"

record card_config =
  cc_bin :: string
  cc_defaultLimit :: int

definition default_card_config :: card_config where
  "default_card_config = \<lparr>cc_bin = ''499999'', cc_defaultLimit = 500000\<rparr>"

section \<open>Operations\<close>

text \<open>What is drawn for a card: its identifier, nine digits and the security code.\<close>

type_synonym card_source = "string \<times> nat list \<times> nat"

definition issue ::
  "cipher \<Rightarrow> card_config \<Rightarrow> int \<Rightarrow> card_source \<Rightarrow> string \<Rightarrow> card_type \<Rightarrow> int option \<Rightarrow> cards_state \<Rightarrow> (card \<times> cards_state) result" where
  "issue ci cf now src accountId ty limit st =
     (let (newId, digits, rnd) = src in
      ebind (generatePan digits (cc_bin cf)) (\<lambda>pan.
      let cvv = generateCvv rnd;
          c = \<lparr>ca_id = newId, ca_accountId = accountId, ca_type = ty, ca_last4 = drop (length pan - 4) pan,
               ca_expMonth = fst (generateExpiry now), ca_expYear = snd (generateExpiry now), ca_status = CardActive,
               ca_spendingLimitCents = Some (case limit of Some l \<Rightarrow> l | None \<Rightarrow> cc_defaultLimit cf),
               ca_panCiphertext = fst (pan_encrypt ci pan), ca_panKeyId = snd (pan_encrypt ci pan),
               ca_cvvCiphertext = fst (pan_encrypt ci cvv), ca_cvvKeyId = snd (pan_encrypt ci cvv),
               ca_issuedAt = now, ca_activatedAt = None, ca_frozenAt = None, ca_replacedFromCardId = None\<rparr>
      in ebind (require (find_unique a_id accountId (cs_accounts st) \<noteq> None) (PlainError ''Foreign key constraint failed'')) (\<lambda>_.
         ebind (create_unique ''id'' ca_id c (cs_cards st)) (\<lambda>t. Inr (c, st\<lparr>cs_cards := t\<rparr>)))))"

definition card_owner :: "cards_state \<Rightarrow> card \<Rightarrow> string option" where
  "card_owner st c = map_option a_userId (find_unique a_id (ca_accountId c) (cs_accounts st))"

definition cards_of_user :: "string \<Rightarrow> cards_state \<Rightarrow> card list" where
  "cards_of_user userId st = rev (sort_key ca_issuedAt (filter (\<lambda>c. card_owner st c = Some userId) (cs_cards st)))"

definition card_for_user :: "string \<Rightarrow> string \<Rightarrow> cards_state \<Rightarrow> card result" where
  "card_for_user userId i st =
     ebind (or_throw (NotFound ''Card not found'') (find_unique ca_id i (cs_cards st))) (\<lambda>c.
     ebind (require (card_owner st c = Some userId) (NotFound ''Card not found'')) (\<lambda>_. Inr c))"

definition set_card :: "string \<Rightarrow> (card \<Rightarrow> card) \<Rightarrow> cards_state \<Rightarrow> cards_state" where
  "set_card i f st = st\<lparr>cs_cards := update_many (\<lambda>c. ca_id c = i) f (cs_cards st)\<rparr>"

definition card_emit :: "string \<Rightarrow> string \<Rightarrow> card_status \<Rightarrow> int \<Rightarrow> cards_state \<Rightarrow> cards_state" where
  "card_emit userId i s now st = st\<lparr>cs_events := cs_events st @ [EvCardUpdated userId i s now]\<rparr>"

definition toggleable :: "card \<Rightarrow> bool" where
  "toggleable c = (ca_status c = CardActive \<or> ca_status c = CardFrozen)"

definition status_text :: "card_status \<Rightarrow> string" where
  "status_text s = (case s of CardActive \<Rightarrow> ''active'' | CardFrozen \<Rightarrow> ''frozen'' | CardReplaced \<Rightarrow> ''replaced''
     | CardShipped \<Rightarrow> ''shipped'' | CardDelivered \<Rightarrow> ''delivered'' | CardClosed \<Rightarrow> ''closed'')"

definition setStatus :: "int \<Rightarrow> string \<Rightarrow> string \<Rightarrow> bool \<Rightarrow> cards_state \<Rightarrow> cards_state result" where
  "setStatus now userId i freeze st =
     ebind (card_for_user userId i st) (\<lambda>c.
     ebind (require (toggleable c) (BadRequest (''Cannot toggle a '' @ status_text (ca_status c) @ '' card''))) (\<lambda>_.
     let s = (if freeze then CardFrozen else CardActive)
     in Inr (card_emit userId i s now
               (set_card i (\<lambda>c. c\<lparr>ca_status := s, ca_frozenAt := (if freeze then Some now else None)\<rparr>) st))))"

definition reveal :: "cipher \<Rightarrow> string \<Rightarrow> string \<Rightarrow> cards_state \<Rightarrow> (string \<times> string \<times> int \<times> int) result" where
  "reveal ci userId i st =
     ebind (card_for_user userId i st) (\<lambda>c.
     ebind (require (ca_status c = CardActive) (BadRequest ''Cannot reveal a non-active card'')) (\<lambda>_.
     Inr (pan_decrypt ci (ca_panCiphertext c) (ca_panKeyId c), pan_decrypt ci (ca_cvvCiphertext c) (ca_cvvKeyId c),
          ca_expMonth c, ca_expYear c)))"

definition replace_check :: "string \<Rightarrow> string \<Rightarrow> cards_state \<Rightarrow> card result" where
  "replace_check userId i st =
     ebind (card_for_user userId i st) (\<lambda>c.
     ebind (require (ca_type c = Virtual) (BadRequest ''Only virtual cards can be replaced this way'')) (\<lambda>_.
     ebind (require (toggleable c) (BadRequest ''Card is not replaceable'')) (\<lambda>_. Inr c)))"

definition replace_commit ::
  "cipher \<Rightarrow> card_config \<Rightarrow> int \<Rightarrow> card_source \<Rightarrow> string \<Rightarrow> card \<Rightarrow> cards_state \<Rightarrow> (card \<times> cards_state) result" where
  "replace_commit ci cf now src i c st =
     ebind (issue ci cf now src (ca_accountId c) Virtual None (set_card i (\<lambda>c. c\<lparr>ca_status := CardReplaced\<rparr>) st)) (\<lambda>(fresh, st1).
     Inr (fresh, set_card (ca_id fresh) (\<lambda>c. c\<lparr>ca_replacedFromCardId := Some i\<rparr>) st1))"

definition replaceVirtual ::
  "cipher \<Rightarrow> card_config \<Rightarrow> int \<Rightarrow> card_source \<Rightarrow> string \<Rightarrow> string \<Rightarrow> cards_state \<Rightarrow> (card \<times> cards_state) result" where
  "replaceVirtual ci cf now src userId i st =
     ebind (replace_check userId i st) (\<lambda>c. replace_commit ci cf now src i c st)"

definition orderPhysical ::
  "int \<Rightarrow> string \<Rightarrow> string \<Rightarrow> string \<Rightarrow> (string \<times> string) list \<Rightarrow> cards_state \<Rightarrow> cards_state result" where
  "orderPhysical now newId userId accountId shipAddress st =
     ebind (or_throw (Forbidden ''Not your account'') (find_unique a_id accountId (cs_accounts st))) (\<lambda>a.
     ebind (require (a_userId a = userId) (Forbidden ''Not your account'')) (\<lambda>_.
     ebind (require (a_type a = Checking) (BadRequest ''Physical cards only for checking'')) (\<lambda>_.
     ebind (create_unique ''id'' co_id \<lparr>co_id = newId, co_userId = userId, co_shipAddress = shipAddress, co_etaDays = 7, co_createdAt = now\<rparr>
              (cs_orders st)) (\<lambda>os. Inr (st\<lparr>cs_orders := os\<rparr>)))))"

definition activate :: "int \<Rightarrow> string \<Rightarrow> string \<Rightarrow> cards_state \<Rightarrow> cards_state result" where
  "activate now userId i st =
     ebind (card_for_user userId i st) (\<lambda>c.
     ebind (require (ca_status c = CardShipped \<or> ca_status c = CardDelivered)
              (BadRequest ''Card cannot be activated from current status'')) (\<lambda>_.
     Inr (card_emit userId i CardActive now
            (set_card i (\<lambda>c. c\<lparr>ca_status := CardActive, ca_activatedAt := Some now\<rparr>) st))))"

text \<open>The listener of new accounts; a failure is logged only.\<close>

definition onAccountCreated :: "cipher \<Rightarrow> card_config \<Rightarrow> int \<Rightarrow> card_source \<Rightarrow> string \<Rightarrow> account_type \<Rightarrow> cards_state \<Rightarrow> cards_state" where
  "onAccountCreated ci cf now src accountId ty st =
     (if ty \<noteq> Checking then st
      else case issue ci cf now src accountId Virtual None st of Inl _ \<Rightarrow> st | Inr (_, st1) \<Rightarrow> st1)"

section \<open>Check digits\<close>

text \<open>The standard test of a whole number: the check digit itself is not doubled.\<close>

definition luhn_valid :: "string \<Rightarrow> bool" where
  "luhn_valid pan = (luhn_loop (rev (map digit_val pan)) False 0 mod 10 = 0)"

text \<open>The sum the loop computes, digit by digit.\<close>

fun luhn_sum :: "nat list \<Rightarrow> bool \<Rightarrow> nat" where
  "luhn_sum [] doubled = 0"
| "luhn_sum (d # ds) doubled = luhn_term doubled d + luhn_sum ds (\<not> doubled)"

lemma luhn_loop_sum: "luhn_loop ds b acc = acc + luhn_sum ds b"
  by (induction ds arbitrary: b acc) simp_all

lemma luhn_sum_append: "luhn_sum (xs @ ys) b = luhn_sum xs b + luhn_sum ys (b = even (length xs))"
proof (induction xs arbitrary: b)
  case (Cons d ds)
  then show ?case by (cases b) simp_all
qed simp

lemma luhn_term_le: "d \<le> 9 \<Longrightarrow> luhn_term b d \<le> 9"
  by (auto simp: luhn_term_def)

lemma luhn_term_eq: "d \<le> 9 \<Longrightarrow> e \<le> 9 \<Longrightarrow> luhn_term b d = luhn_term b e \<Longrightarrow> d = e"
  by (cases b; cases "2 * d > 9"; cases "2 * e > 9") (simp_all add: luhn_term_def; presburger)+

lemma luhn_term_inj:
  assumes "d \<le> 9" "e \<le> 9" "luhn_term b d mod 10 = luhn_term b e mod 10"
  shows "d = e"
  using assms luhn_term_le [of d b] luhn_term_le [of e b] luhn_term_eq [of d e b] by simp

lemma digit_char_val:
  assumes "n < 10"
  shows "dec_digit (digit_char (int n)) \<and> digit_val (digit_char (int n)) = n"
proof -
  have "int (of_char (digit_char (int n))) = of_char (digit_char (int n))" by (simp only: of_nat_of_char)
  also have "\<dots> = 48 + int n" using assms by (simp add: digit_char_def)
  finally have "(of_char (digit_char (int n)) :: nat) = 48 + n" by linarith
  then show ?thesis using assms by (simp add: dec_digit_def digit_val_def)
qed

lemma dec_digit_val: "dec_digit c \<Longrightarrow> digit_val c \<le> 9"
  by (auto simp: dec_digit_def digit_val_def)

lemma digit_val_inj: "dec_digit c \<Longrightarrow> dec_digit d \<Longrightarrow> digit_val c = digit_val d \<Longrightarrow> c = d"
proof -
  assume "dec_digit c" "dec_digit d" "digit_val c = digit_val d"
  then have "(of_char c :: nat) = of_char d" unfolding dec_digit_def digit_val_def by linarith
  then show "c = d" by simp
qed

lemma complement_mod: "((10 - s mod 10) mod 10 + s) mod 10 = (0 :: nat)"
proof -
  have "10 - r + (q * 10 + r) = 10 * (q + 1)" if "r < 10" for q r :: nat using that by simp
  from this [of "s mod 10" "s div 10"] have "10 - s mod 10 + s = 10 * (s div 10 + 1)" by (simp add: div_mult_mod_eq)
  then have "(10 - s mod 10 + s) mod 10 = 0" by simp
  then show ?thesis by (simp add: mod_add_left_eq)
qed

lemma mod_cancel: "(u + (a + v)) mod 10 = 0 \<Longrightarrow> (u + (b + v)) mod 10 = 0 \<Longrightarrow> a mod 10 = b mod (10 :: nat)"
proof -
  assume "(u + (a + v)) mod 10 = 0" "(u + (b + v)) mod 10 = 0"
  then have "10 dvd int (u + (a + v))" "10 dvd int (u + (b + v))" by (metis dvd_eq_mod_eq_0 int_dvd_int_iff of_nat_numeral)+
  then have "10 dvd int (u + (a + v)) - int (u + (b + v))" by (rule dvd_diff)
  then have "int a mod 10 = int b mod 10" by (simp add: mod_eq_dvd_iff)
  then show ?thesis by (metis of_nat_eq_iff of_nat_mod of_nat_numeral)
qed

lemma one_digit: "n < 10 \<Longrightarrow> show_digits (int n) = [digit_char (int n)]"
  by (simp add: show_digits.simps)

lemma digits_text:
  assumes "\<forall>n \<in> set xs. n < 10"
  shows "concat (map show_digits (map int xs)) = map (\<lambda>n. digit_char (int n)) xs"
  using assms by (induction xs) (simp_all add: one_digit)

lemma check_digit_valid: "luhn_valid (part @ show_digits (int (luhnCheckDigit part)))"
proof -
  let ?s = "luhn_sum (rev (map digit_val part)) True"
  have c: "luhnCheckDigit part < 10" by (simp add: luhnCheckDigit_def)
  have "luhn_loop (rev (map digit_val (part @ show_digits (int (luhnCheckDigit part))))) False 0 = luhnCheckDigit part + ?s"
    using digit_char_val [OF c] by (simp add: one_digit [OF c] luhn_loop_sum luhn_term_def)
  then show ?thesis using complement_mod [of ?s] by (simp add: luhn_valid_def luhnCheckDigit_def luhn_loop_sum)
qed

lemma luhn_one_digit:
  assumes "luhn_valid (xs @ c # ys)" "luhn_valid (xs @ d # ys)" "dec_digit c" "dec_digit d"
  shows "c = d"
proof -
  let ?u = "rev (map digit_val ys)" and ?v = "rev (map digit_val xs)"
  let ?b = "False = even (length ys)"
  have "(luhn_sum ?u False + (luhn_term ?b (digit_val z) + luhn_sum ?v (\<not> ?b))) mod 10 = 0" if "luhn_valid (xs @ z # ys)" for z
    using that by (simp add: luhn_valid_def luhn_loop_sum luhn_sum_append)
  from mod_cancel [OF this [OF assms(1)] this [OF assms(2)]]
  have "luhn_term ?b (digit_val c) mod 10 = luhn_term ?b (digit_val d) mod 10" .
  then show ?thesis using assms(3,4) luhn_term_inj dec_digit_val digit_val_inj by blast
qed


section \<open>Properties\<close>

lemma generatePan_Inr:
  assumes "generatePan rnd bin = Inr pan" "length rnd = 9" "\<forall>n \<in> set rnd. n < 10"
  shows "length pan = 16" "list_all dec_digit pan" "take 6 pan = bin" "luhn_valid pan"
proof -
  let ?part = "bin @ map (\<lambda>n. digit_char (int n)) rnd"
  have b: "length bin = 6" "list_all dec_digit bin" and p: "pan = ?part @ show_digits (int (luhnCheckDigit ?part))"
    using assms digits_text [OF assms(3)] by (auto simp: generatePan_def err_simps Let_def)
  have c: "luhnCheckDigit ?part < 10" by (simp add: luhnCheckDigit_def)
  show "length pan = 16" "take 6 pan = bin" using b assms(2) by (simp_all add: p one_digit [OF c])
  show "list_all dec_digit pan" using b assms(3) digit_char_val digit_char_val [OF c] by (auto simp: p one_digit [OF c] list_all_iff)
  show "luhn_valid pan" unfolding p by (rule check_digit_valid)
qed

text \<open>C24. A generated card number has sixteen digits, starts with the bank's number and passes the standard
  check; and the check finds every mistyped digit: replacing one digit of it by another never
  gives a valid number.\<close>

theorem pan_detects_typos:
  assumes "generatePan rnd bin = Inr pan" "length rnd = 9" "\<forall>n \<in> set rnd. n < 10"
  shows "length pan = 16 \<and> list_all dec_digit pan \<and> take 6 pan = bin \<and> luhn_valid pan \<and>
         (\<forall>i < 16. \<forall>d. dec_digit d \<and> d \<noteq> pan ! i \<longrightarrow> \<not> luhn_valid (pan[i := d]))"
proof -
  note g = generatePan_Inr [OF assms]
  have "\<not> luhn_valid (pan[i := d])" if i: "i < 16" and d: "dec_digit d" "d \<noteq> pan ! i" for i d
  proof
    assume v: "luhn_valid (pan[i := d])"
    have split: "pan = take i pan @ pan ! i # drop (Suc i) pan" "pan[i := d] = take i pan @ d # drop (Suc i) pan"
      using i g(1) by (simp_all add: id_take_nth_drop [symmetric] upd_conv_take_nth_drop)
    have "dec_digit (pan ! i)" using g(1,2) i by (simp add: list_all_length)
    then have "d = pan ! i" using luhn_one_digit [of "take i pan" d "drop (Suc i) pan" "pan ! i"] v g(4) split d(1) by simp
    then show False using d(2) by simp
  qed
  then show ?thesis using g by blast
qed

lemma issue_card_Inr:
  assumes "issue ci cf now (newId, digits, rnd) acc ty limit st = Inr (c, st1)"
  shows "\<exists>pan. generatePan digits (cc_bin cf) = Inr pan \<and> st1 = st\<lparr>cs_cards := cs_cards st @ [c]\<rparr> \<and> ca_id c = newId \<and>
           ca_accountId c = acc \<and> ca_type c = ty \<and> ca_status c = CardActive \<and> ca_panCiphertext c = ci_encrypt ci pan \<and>
           ca_cvvCiphertext c = ci_encrypt ci (generateCvv rnd) \<and> ca_expMonth c = getUTCMonth now + 1 \<and>
           ca_expYear c = getUTCFullYear now + 4 \<and> ca_last4 c = drop (length pan - 4) pan \<and>
           find_unique ca_id newId (cs_cards st) = None"
  using assms by (auto simp: issue_def err_simps Let_def pan_encrypt_def generateExpiry_def)

lemma issue_sel: "issue ci cf now src acc ty limit st = Inr (c, st1) \<Longrightarrow> ca_status c = CardActive \<and> ca_accountId c = acc"
  using issue_card_Inr [of ci cf now "fst src" "fst (snd src)" "snd (snd src)" acc ty limit st c st1] by auto

text \<open>What was issued can be read back: the owner of a card just issued is shown exactly the number and
  the security code that were generated, the row shows the last four digits of that number, and
  nobody else is shown anything.\<close>

theorem issued_card_reveals:
  assumes "aes_laws ci" "issue ci cf now (newId, digits, rnd) acc ty limit st = Inr (c, st1)"
    and "find_unique a_id acc (cs_accounts st) = Some a"
  shows "\<exists>pan. generatePan digits (cc_bin cf) = Inr pan \<and>
           reveal ci (a_userId a) newId st1 = Inr (pan, generateCvv rnd, getUTCMonth now + 1, getUTCFullYear now + 4) \<and>
           ca_last4 c = drop (length pan - 4) pan \<and>
           (u \<noteq> a_userId a \<longrightarrow> reveal ci u newId st1 = Inl (NotFound ''Card not found''))"
proof -
  obtain pan where i: "generatePan digits (cc_bin cf) = Inr pan" "st1 = st\<lparr>cs_cards := cs_cards st @ [c]\<rparr>" "ca_id c = newId"
      "ca_accountId c = acc" "ca_status c = CardActive" "ca_panCiphertext c = ci_encrypt ci pan"
      "ca_cvvCiphertext c = ci_encrypt ci (generateCvv rnd)" "ca_expMonth c = getUTCMonth now + 1" "ca_expYear c = getUTCFullYear now + 4"
      "ca_last4 c = drop (length pan - 4) pan" "find_unique ca_id newId (cs_cards st) = None"
    using issue_card_Inr [OF assms(2)] by blast
  have f: "find_unique ca_id newId (cs_cards st1) = Some c" using i(2,3,11) by (simp add: find_unique_append)
  have o: "card_owner st1 c = Some (a_userId a)" using assms(3) i(2,4) by (simp add: card_owner_def)
  show ?thesis
    using assms(1) i f o by (simp add: reveal_def card_for_user_def pan_decrypt_def aes_laws_def)
qed

text \<open>The requests that change cards.\<close>

inductive card_step :: "cipher \<Rightarrow> card_config \<Rightarrow> cards_state \<Rightarrow> cards_state \<Rightarrow> bool" for ci cf where
  cd_issue: "issue ci cf now src acc ty limit st = Inr (c, st') \<Longrightarrow> card_step ci cf st st'"
| cd_status: "setStatus now u i freeze st = Inr st' \<Longrightarrow> card_step ci cf st st'"
| cd_check_replace: "replaceVirtual ci cf now src u i st = Inr (c, st') \<Longrightarrow> card_step ci cf st st'"
| cd_order: "orderPhysical now newId u acc addr st = Inr st' \<Longrightarrow> card_step ci cf st st'"
| cd_activate: "activate now u i st = Inr st' \<Longrightarrow> card_step ci cf st st'"
| cd_listener: "card_step ci cf st (onAccountCreated ci cf now src acc ty st)"

text \<open>A card that was replaced.\<close>

definition retired_in :: "string \<Rightarrow> cards_state \<Rightarrow> bool" where
  "retired_in i st = (\<exists>c. find_unique ca_id i (cs_cards st) = Some c \<and> ca_status c = CardReplaced)"

lemma retired_set_card:
  assumes "retired_in i st" "\<And>c. ca_id (f c) = ca_id c" "j = i \<Longrightarrow> \<forall>c. ca_status c = CardReplaced \<longrightarrow> ca_status (f c) = CardReplaced"
  shows "retired_in i (set_card j f st)"
proof (cases "j = i")
  case True
  then show ?thesis using assms by (auto simp: retired_in_def set_card_def find_unique_update_many)
next
  case False
  then have "find_unique ca_id i (update_many (\<lambda>c. ca_id c = j) f t) = find_unique ca_id i t" for t
    using assms(2) by (induction t) auto
  then show ?thesis using assms(1) by (simp add: retired_in_def set_card_def)
qed

lemma retired_events [simp]: "retired_in i (card_emit u j s now st) = retired_in i st"
  by (simp add: retired_in_def card_emit_def)

lemma retired_issue: "issue ci cf now src acc ty limit st = Inr (c, st') \<Longrightarrow> retired_in i st \<Longrightarrow> retired_in i st'"
  using issue_card_Inr [of ci cf now "fst src" "fst (snd src)" "snd (snd src)" acc ty limit st c st']
  by (auto simp: retired_in_def find_unique_append)

lemma card_for_user_Inr: "card_for_user u i st = Inr c \<longleftrightarrow> find_unique ca_id i (cs_cards st) = Some c \<and> card_owner st c = Some u"
  by (auto simp: card_for_user_def err_simps)

lemma replace_Inr:
  assumes "replaceVirtual ci cf now src u j st = Inr (c, st')"
  shows "\<exists>old st0. find_unique ca_id j (cs_cards st) = Some old \<and>
           issue ci cf now src (ca_accountId old) Virtual None (set_card j (\<lambda>c. c\<lparr>ca_status := CardReplaced\<rparr>) st) = Inr (c, st0) \<and>
           st' = set_card (ca_id c) (\<lambda>c. c\<lparr>ca_replacedFromCardId := Some j\<rparr>) st0"
proof -
  obtain old where old: "replace_check u j st = Inr old" and r: "replace_commit ci cf now src j old st = Inr (c, st')"
    using assms by (auto simp: replaceVirtual_def err_simps)
  have f: "find_unique ca_id j (cs_cards st) = Some old" using old by (auto simp: replace_check_def err_simps card_for_user_Inr)
  show ?thesis
  proof (cases "issue ci cf now src (ca_accountId old) Virtual None (set_card j (\<lambda>c. c\<lparr>ca_status := CardReplaced\<rparr>) st)")
    case (Inl e)
    then show ?thesis using r by (simp add: replace_commit_def)
  next
    case (Inr p)
    then have "fst p = c" "st' = set_card (ca_id c) (\<lambda>c. c\<lparr>ca_replacedFromCardId := Some j\<rparr>) (snd p)"
      using r by (auto simp: replace_commit_def case_prod_beta)
    then show ?thesis using f Inr by (intro exI conjI) auto
  qed
qed

lemma retired_step: "card_step ci cf st st' \<Longrightarrow> retired_in i st \<Longrightarrow> retired_in i st'"
proof (induction rule: card_step.induct)
  case (cd_issue now src acc ty limit st c st')
  then show ?case by (rule retired_issue)
next
  case (cd_status now u j freeze st st')
  then obtain c where c: "find_unique ca_id j (cs_cards st) = Some c" "toggleable c"
      "st' = card_emit u j (if freeze then CardFrozen else CardActive) now
         (set_card j (\<lambda>c. c\<lparr>ca_status := if freeze then CardFrozen else CardActive, ca_frozenAt := if freeze then Some now else None\<rparr>) st)"
    by (auto simp: setStatus_def err_simps card_for_user_Inr Let_def)
  then have "j \<noteq> i" using cd_status(2) by (auto simp: retired_in_def toggleable_def)
  then show ?case using cd_status(2) by (auto simp: c(3) intro!: retired_set_card)
next
  case (cd_check_replace now src u j st c st')
  then obtain old :: card and st1 where r: "issue ci cf now src (ca_accountId old) Virtual None (set_card j (\<lambda>c. c\<lparr>ca_status := CardReplaced\<rparr>) st) = Inr (c, st1)"
      "st' = set_card (ca_id c) (\<lambda>c. c\<lparr>ca_replacedFromCardId := Some j\<rparr>) st1"
    using replace_Inr [OF cd_check_replace(1)] by blast
  have "retired_in i (set_card j (\<lambda>c. c\<lparr>ca_status := CardReplaced\<rparr>) st)" using cd_check_replace(2) by (simp add: retired_set_card)
  then have "retired_in i st1" by (rule retired_issue [OF r(1)])
  then show ?case by (simp add: r(2) retired_set_card)
next
  case (cd_order now newId u acc addr st st')
  then show ?case by (auto simp: orderPhysical_def err_simps retired_in_def)
next
  case (cd_activate now u j st st')
  then obtain c where c: "find_unique ca_id j (cs_cards st) = Some c" "ca_status c \<noteq> CardReplaced"
      "st' = card_emit u j CardActive now (set_card j (\<lambda>c. c\<lparr>ca_status := CardActive, ca_activatedAt := Some now\<rparr>) st)"
    by (auto simp: activate_def err_simps card_for_user_Inr)
  then have "j \<noteq> i" using cd_activate(2) by (auto simp: retired_in_def)
  then show ?case using cd_activate(2) by (auto simp: c(3) intro!: retired_set_card)
next
  case (cd_listener st now src acc ty)
  then show ?case by (auto simp: onAccountCreated_def intro: retired_issue split: sum.splits)
qed

interpretation retired_card: step_invariant "card_step ci cf" "retired_in i" for ci cf i
  by unfold_locales (rule retired_step)

text \<open>A replaced card is dead: replacing a card issues one active card for the same account that
  names the old one, and in every later state the old card can be neither revealed, thawed, activated nor
  replaced again.\<close>

theorem replaced_card_stays_dead:
  assumes "replaceVirtual ci cf now src u i st = Inr (c, st1)" "(card_step ci cf)\<^sup>*\<^sup>* st1 st2"
  shows "ca_status c = CardActive \<and> ca_id c \<noteq> i \<and>
         (\<exists>old. find_unique ca_id i (cs_cards st) = Some old \<and> ca_accountId c = ca_accountId old) \<and>
         \<not> is_ok (reveal ci v i st2) \<and> \<not> is_ok (setStatus now' v i freeze st2) \<and> \<not> is_ok (activate now' v i st2) \<and>
         \<not> is_ok (replaceVirtual ci cf now' src' v i st2)"
proof -
  obtain old st0 where old: "find_unique ca_id i (cs_cards st) = Some old"
      and iss: "issue ci cf now src (ca_accountId old) Virtual None (set_card i (\<lambda>c. c\<lparr>ca_status := CardReplaced\<rparr>) st) = Inr (c, st0)"
      and st1: "st1 = set_card (ca_id c) (\<lambda>c. c\<lparr>ca_replacedFromCardId := Some i\<rparr>) st0"
    using replace_Inr [OF assms(1)] by blast
  note f = issue_card_Inr [of ci cf now "fst src" "fst (snd src)" "snd (snd src)", simplified, OF iss]
  let ?st = "set_card i (\<lambda>c. c\<lparr>ca_status := CardReplaced\<rparr>) st"
  have dead: "find_unique ca_id i (cs_cards ?st) = Some (old\<lparr>ca_status := CardReplaced\<rparr>)"
    using old by (simp add: set_card_def find_unique_update_many)
  then have ne: "ca_id c \<noteq> i" using f by auto
  have "retired_in i st0" by (rule retired_issue [OF iss]) (use dead in \<open>simp add: retired_in_def\<close>)
  then have "retired_in i st1" by (simp add: st1 retired_set_card)
  then have "retired_in i st2" by (rule retired_card.history_inv [OF assms(2)])
  then obtain d where d: "find_unique ca_id i (cs_cards st2) = Some d" "ca_status d = CardReplaced" by (auto simp: retired_in_def)
  have "\<not> is_ok (reveal ci v i st2)" "\<not> is_ok (setStatus now' v i freeze st2)" "\<not> is_ok (activate now' v i st2)"
      "\<not> is_ok (replaceVirtual ci cf now' src' v i st2)"
    using d by (auto simp: reveal_def setStatus_def activate_def replaceVirtual_def replace_check_def card_for_user_def require_def
        toggleable_def ebind_def or_throw_def)
  then show ?thesis using f old ne by auto
qed

text \<open>Two replacements that both passed the checks issue two active cards for one old card.\<close>

lemma replace_race_issues_two:
  assumes "replace_check u i st = Inr c" "replace_commit ci cf now src1 i c st = Inr (c1, st1)" "replace_commit ci cf now src2 i c st1 = Inr (c2, st2)"
  shows "ca_status c1 = CardActive \<and> ca_status c2 = CardActive \<and> ca_accountId c1 = ca_accountId c2"
  using assms(2,3) by (auto simp: replace_commit_def err_simps dest!: issue_sel)


end
