(* ===== verification/Payments.thy ===== *)
theory Payments
  imports Transfers "HOL-Library.Product_Lexorder"
begin

text \<open>
  Person-to-person payments (\<^verbatim>\<open>pay/pay.service.ts\<close>), the address book they maintain
  (\<^verbatim>\<open>contacts/contacts.service.ts\<close>) and requests for payment
  (\<^verbatim>\<open>payment-requests/payment-requests.service.ts\<close>). The state adds the contact and request tables
  and the notifications handed to the notification service to the bank. Follow-up steps after the
  transfer are best effort in the code; here they always succeed.
\<close>

record contact =
  ct_id :: string
  ct_ownerUserId :: string
  ct_name :: string
  ct_handle :: "string option"
  ct_email :: "string option"
  ct_phoneE164 :: "string option"
  ct_avatarUrl :: "string option"
  ct_lastUsedAt :: "int option"

datatype request_status = ReqPending | ReqPaid | ReqDeclined | ReqExpired

record payment_request =
  pq_id :: string
  pq_requesterUserId :: string
  pq_payerUserId :: string
  pq_amountCents :: int
  pq_note :: string
  pq_status :: request_status
  pq_expiresAt :: int
  pq_createdAt :: int
  pq_paidAt :: "int option"
  pq_paidTransferId :: "string option"

record notice =
  nt_userId :: string
  nt_title :: string
  nt_body :: string

record pay_state =
  ps_bank :: bank
  ps_contacts :: "contact list"
  ps_requests :: "payment_request list"
  ps_notices :: "notice list"

section \<open>Recipients\<close>

definition is_hex :: "char \<Rightarrow> bool" where
  "is_hex c = (c \<in> set ''0123456789abcdefABCDEF'')"

definition is_digit :: "char \<Rightarrow> bool" where
  "is_digit c = (c \<in> set ''0123456789'')"

text \<open>The UUID pattern: hexadecimal digits with dashes at four places.\<close>

definition is_uuid :: "string \<Rightarrow> bool" where
  "is_uuid s = (length s = 36 \<and>
     (\<forall>i \<in> set [0..<36]. if i = 8 \<or> i = 13 \<or> i = 18 \<or> i = 23 then s ! i = CHR ''-'' else is_hex (s ! i)))"

definition digits_of :: "string \<Rightarrow> string" where
  "digits_of s = filter is_digit s"

definition at_tag :: "string \<Rightarrow> string" where
  "at_tag raw = (if starts_with ''@'' raw then raw else CHR ''@'' # raw)"

definition resolveRecipient :: "string \<Rightarrow> bank \<Rightarrow> user result" where
  "resolveRecipient handleOrId s =
     (let raw = js_trim handleOrId;
          byId = (if is_uuid raw then user_of s raw else None);
          byTag = find_unique u_novaTag (Some (at_tag raw)) (db_users s);
          byEmail = (if contains ''@'' raw \<and> \<not> starts_with ''@'' raw
                     then find_first (\<lambda>u. to_lower (u_email u) = to_lower raw) (db_users s) else None);
          digits = digits_of raw;
          byPhone = (if length digits \<ge> 7
                     then find_first (\<lambda>u. case u_phoneE164 u of None \<Rightarrow> False | Some p \<Rightarrow> ends_with digits p) (db_users s)
                     else None)
      in if raw = '''' then Inl (NotFound ''RECIPIENT_NOT_FOUND'')
         else case byId of Some u \<Rightarrow> Inr u | None \<Rightarrow>
              (case byTag of Some u \<Rightarrow> Inr u | None \<Rightarrow>
              (case byEmail of Some u \<Rightarrow> Inr u | None \<Rightarrow>
              (case byPhone of Some u \<Rightarrow> Inr u | None \<Rightarrow> Inl (NotFound ''RECIPIENT_NOT_FOUND'')))))"

record recipient_hit =
  rh_id :: string
  rh_firstName :: "string option"
  rh_lastInitial :: "string option"
  rh_novaTag :: "string option"
  rh_avatarUrl :: "string option"
  rh_accountMask :: "string option"
  rh_isSelf :: bool

definition contains_ci :: "string \<Rightarrow> string option \<Rightarrow> bool" where
  "contains_ci q v = (case v of None \<Rightarrow> False | Some x \<Rightarrow> contains (to_lower q) (to_lower x))"

definition matching_accounts :: "string \<Rightarrow> string \<Rightarrow> bank \<Rightarrow> account list" where
  "matching_accounts userId digits s =
     filter (\<lambda>a. a_userId a = userId \<and> a_type a = Checking \<and> a_status a = AcctActive \<and>
                 ends_with digits (a_mockAccountNumber a)) (db_accounts s)"

definition search_match :: "string \<Rightarrow> bank \<Rightarrow> user \<Rightarrow> bool" where
  "search_match q s u =
     (let digits = digits_of q;
          bareTag = (if starts_with ''@'' q then tl q else q)
      in u_status u = UserActive \<and>
         (contains_ci q (Some (u_email u)) \<or>
          map_option to_lower (u_novaTag u) = Some (to_lower (at_tag q)) \<or> contains_ci bareTag (u_novaTag u) \<or>
          contains_ci q (u_firstName u) \<or> contains_ci q (u_lastName u) \<or>
          (length digits \<ge> 4 \<and>
            ((case u_phoneE164 u of None \<Rightarrow> False | Some p \<Rightarrow> contains digits p) \<or>
             matching_accounts (u_id u) digits s \<noteq> []))))"

definition search_hit :: "string \<Rightarrow> string \<Rightarrow> bank \<Rightarrow> user \<Rightarrow> recipient_hit" where
  "search_hit callerId q s u =
     \<lparr>rh_id = u_id u, rh_firstName = u_firstName u,
      rh_lastInitial = (if truthy_str (u_lastName u) then Some (to_upper (take 1 (the (u_lastName u)))) else None),
      rh_novaTag = u_novaTag u, rh_avatarUrl = u_avatarUrl u,
      rh_accountMask = (if length (digits_of q) \<ge> 4
        then (case matching_accounts (u_id u) (digits_of q) s of [] \<Rightarrow> None
              | a # _ \<Rightarrow> Some (rev (take 4 (rev (a_mockAccountNumber a)))))
        else None),
      rh_isSelf = (u_id u = callerId)\<rparr>"

definition search :: "string \<Rightarrow> string \<Rightarrow> bank \<Rightarrow> recipient_hit list" where
  "search callerId raw s =
     (let q = js_trim raw
      in if length q < 2 then []
         else map (search_hit callerId q s) (take 20 (filter (search_match q s) (db_users s))))"

section \<open>Contacts\<close>

definition touch :: "int \<Rightarrow> string \<Rightarrow> string \<Rightarrow> contact list \<Rightarrow> contact list" where
  "touch now userId i cs = update_many (\<lambda>c. ct_id c = i \<and> ct_ownerUserId c = userId) (\<lambda>c. c\<lparr>ct_lastUsedAt := Some now\<rparr>) cs"

definition or_else :: "'a option \<Rightarrow> 'a option \<Rightarrow> 'a option" where
  "or_else a b = (case a of None \<Rightarrow> b | Some x \<Rightarrow> Some x)"

definition same_person :: "string \<Rightarrow> user \<Rightarrow> contact \<Rightarrow> bool" where
  "same_person ownerUserId u c =
     (ct_ownerUserId c = ownerUserId \<and>
      (truthy_str (u_novaTag u) \<and> ct_handle c = u_novaTag u \<or>
       u_email u \<noteq> '''' \<and> ct_email c = Some (u_email u) \<or>
       truthy_str (u_phoneE164 u) \<and> ct_phoneE164 c = u_phoneE164 u))"

definition contact_name :: "user \<Rightarrow> string option \<Rightarrow> string" where
  "contact_name u displayName =
     the (str_or (map_option js_trim displayName) (str_or (u_novaTag u) (str_or (Some (u_email u)) (Some ''Unknown''))))"

definition upsertRecentContact ::
  "int \<Rightarrow> string \<Rightarrow> string \<Rightarrow> user \<Rightarrow> string option \<Rightarrow> contact list \<Rightarrow> contact list" where
  "upsertRecentContact now newId ownerUserId u displayName cs =
     (let name = contact_name u displayName
      in case find_first (same_person ownerUserId u) cs of
           Some ex \<Rightarrow> update_many (\<lambda>c. ct_id c = ct_id ex)
             (\<lambda>c. c\<lparr>ct_lastUsedAt := Some now, ct_name := (if ct_name ex \<noteq> '''' then ct_name ex else name),
                    ct_handle := or_else (ct_handle ex) (u_novaTag u), ct_email := or_else (ct_email ex) (Some (u_email u)),
                    ct_phoneE164 := or_else (ct_phoneE164 ex) (u_phoneE164 u),
                    ct_avatarUrl := or_else (ct_avatarUrl ex) (u_avatarUrl u)\<rparr>) cs
         | None \<Rightarrow> cs @ [\<lparr>ct_id = newId, ct_ownerUserId = ownerUserId, ct_name = name, ct_handle = u_novaTag u,
             ct_email = Some (u_email u), ct_phoneE164 = u_phoneE164 u, ct_avatarUrl = u_avatarUrl u,
             ct_lastUsedAt = Some now\<rparr>])"

text \<open>Ordered by last use, newest first and never-used ones in front, as the database orders nulls,
  then by name.\<close>

definition list_contacts :: "string \<Rightarrow> string option \<Rightarrow> contact list \<Rightarrow> contact list" where
  "list_contacts userId q cs =
     take 100 (sort_key (\<lambda>c. ((case ct_lastUsedAt c of None \<Rightarrow> (0 :: int, 0) | Some t \<Rightarrow> (1, - t)), ct_name c))
       (filter (\<lambda>c. ct_ownerUserId c = userId \<and>
        (\<not> truthy_str q \<or> contains_ci (the q) (Some (ct_name c)) \<or> contains_ci (the q) (ct_handle c) \<or>
         contains_ci (the q) (ct_email c) \<or>
         (case ct_phoneE164 c of None \<Rightarrow> False | Some p \<Rightarrow> contains (the q) p))) cs))"

text \<open>The ten contacts used last, each with the live user it resolves to, if any.\<close>

definition recents :: "string \<Rightarrow> bank \<Rightarrow> contact list \<Rightarrow> (contact \<times> string option) list" where
  "recents userId s cs =
     (let used = take 10 (sort_key (\<lambda>c. - the (ct_lastUsedAt c))
                   (filter (\<lambda>c. ct_ownerUserId c = userId \<and> ct_lastUsedAt c \<noteq> None) cs));
          known = filter (\<lambda>u. (\<exists>c \<in> set used.
                     truthy_str (ct_handle c) \<and> u_novaTag u = ct_handle c \<or>
                     truthy_str (ct_email c) \<and> Some (u_email u) = ct_email c \<or>
                     truthy_str (ct_phoneE164 c) \<and> u_phoneE164 u = ct_phoneE164 c)) (db_users s);
          latest = (\<lambda>P. find_first P (rev known));
          by_handle = (\<lambda>h. latest (\<lambda>u. truthy_str (u_novaTag u) \<and> to_lower (the (u_novaTag u)) = to_lower h));
          by_email = (\<lambda>e. latest (\<lambda>u. u_email u \<noteq> '''' \<and> to_lower (u_email u) = to_lower e));
          by_phone = (\<lambda>p. latest (\<lambda>u. u_phoneE164 u = Some p \<and> p \<noteq> ''''));
          matched = (\<lambda>c. or_else (if truthy_str (ct_handle c) then by_handle (the (ct_handle c)) else None)
                        (or_else (if truthy_str (ct_email c) then by_email (the (ct_email c)) else None)
                          (if truthy_str (ct_phoneE164 c) then by_phone (the (ct_phoneE164 c)) else None)))
      in map (\<lambda>c. (case matched c of
            None \<Rightarrow> (c, None)
          | Some u \<Rightarrow> (c\<lparr>ct_avatarUrl := or_else (u_avatarUrl u) (ct_avatarUrl c)\<rparr>, Some (u_id u)))) used)"

definition delete_contact :: "string \<Rightarrow> string \<Rightarrow> contact list \<Rightarrow> contact list result" where
  "delete_contact userId i cs =
     (case find_unique ct_id i cs of
        None \<Rightarrow> Inl (NotFound ''Contact not found'')
      | Some c \<Rightarrow> if ct_ownerUserId c \<noteq> userId then Inl (NotFound ''Contact not found'')
                  else delete_unique ct_id i cs)"

record contact_dto =
  cn_name :: "string option"
  cn_handle :: "string option"
  cn_email :: "string option"
  cn_phoneE164 :: "string option"
  cn_avatarUrl :: "string option"

definition create_contact :: "string \<Rightarrow> string \<Rightarrow> contact_dto \<Rightarrow> contact list \<Rightarrow> contact list result" where
  "create_contact newId userId dto cs =
     create_unique ''id'' ct_id
       \<lparr>ct_id = newId, ct_ownerUserId = userId, ct_name = the (cn_name dto), ct_handle = cn_handle dto,
        ct_email = cn_email dto, ct_phoneE164 = cn_phoneE164 dto, ct_avatarUrl = cn_avatarUrl dto,
        ct_lastUsedAt = None\<rparr> cs"

definition update_contact :: "string \<Rightarrow> string \<Rightarrow> contact_dto \<Rightarrow> contact list \<Rightarrow> contact list result" where
  "update_contact userId i dto cs =
     (case find_unique ct_id i cs of
        None \<Rightarrow> Inl (NotFound ''Contact not found'')
      | Some c \<Rightarrow> if ct_ownerUserId c \<noteq> userId then Inl (NotFound ''Contact not found'')
                  else update_unique ct_id i
                    (\<lambda>x. x\<lparr>ct_name := (case cn_name dto of None \<Rightarrow> ct_name x | Some n \<Rightarrow> n),
                           ct_handle := or_else (cn_handle dto) (ct_handle x),
                           ct_email := or_else (cn_email dto) (ct_email x),
                           ct_phoneE164 := or_else (cn_phoneE164 dto) (ct_phoneE164 x),
                           ct_avatarUrl := or_else (cn_avatarUrl dto) (ct_avatarUrl x)\<rparr>) cs)"

section \<open>Paying\<close>

text \<open>Thousands separators, inserted from the right.\<close>

fun commas_rev :: "string \<Rightarrow> string" where
  "commas_rev (a # b # c # d # ds) = a # b # c # CHR '','' # commas_rev (d # ds)"
| "commas_rev ds = ds"

definition formatCents :: "int \<Rightarrow> string" where
  "formatCents c =
     (let a = \<bar>c\<bar>
      in (if c < 0 then ''-'' else '''') @ ''$'' @ rev (commas_rev (rev (show_digits (js_div a 100)))) @ ''.'' @
         pad2 (show_digits (js_mod a 100)))"

record pay_dto =
  pa_recipientHandleOrId :: string
  pa_fromAccountId :: string
  pa_amountCents :: int
  pa_note :: "string option"
  pa_contactId :: "string option"

definition pay_transfer :: "transfer_kind \<Rightarrow> string \<Rightarrow> string \<Rightarrow> pay_dto \<Rightarrow> transfer_dto" where
  "pay_transfer kind fromId toId dto =
     \<lparr>d_fromAccountId = fromId, d_toAccountId = Some toId, d_externalRef = None, d_kind = kind,
      d_amountCents = pa_amountCents dto, d_instant = False,
      d_note = Some (case pa_note dto of None \<Rightarrow> '''' | Some n \<Rightarrow> n), d_wireDetails = None,
      d_sendCurrency = None, d_sendAmountMinor = None\<rparr>"

definition touch_or_upsert :: "int \<Rightarrow> string \<Rightarrow> string \<Rightarrow> pay_dto \<Rightarrow> user \<Rightarrow> contact list \<Rightarrow> contact list" where
  "touch_or_upsert now newId userId dto recipient cs =
     (if truthy_str (pa_contactId dto) then touch now userId (the (pa_contactId dto)) cs
      else upsertRecentContact now newId userId recipient (Some (display_name recipient)) cs)"

definition enrich_description :: "string \<Rightarrow> string \<Rightarrow> bank \<Rightarrow> bank" where
  "enrich_description txId name s =
     (if txId \<noteq> '''' \<and> name \<noteq> ''''
      then s\<lparr>db_transactions := update_many (\<lambda>t. t_id t = txId)
               (\<lambda>t. t\<lparr>t_description := ''Transfer to '' @ name\<rparr>) (db_transactions s)\<rparr>
      else s)"

definition sender_label :: "string \<Rightarrow> bank \<Rightarrow> string" where
  "sender_label userId s =
     (case user_of s userId of
        None \<Rightarrow> ''''
      | Some u \<Rightarrow> (case u_novaTag u of Some t \<Rightarrow> t | None \<Rightarrow> full_name u))"

definition received_notice :: "string \<Rightarrow> string \<Rightarrow> pay_dto \<Rightarrow> notice" where
  "received_notice recipientId label dto =
     \<lparr>nt_userId = recipientId, nt_title = ''You received '' @ formatCents (pa_amountCents dto),
      nt_body = label @ '' sent you '' @ formatCents (pa_amountCents dto) @
        (if truthy_str (pa_note dto) then '' - '' @ [CHR 0x22] @ the (pa_note dto) @ [CHR 0x22] else '''') @ ''.''\<rparr>"

definition pay ::
  "config \<Rightarrow> request_env \<Rightarrow> string \<times> string \<Rightarrow> string \<Rightarrow> string \<Rightarrow> string \<Rightarrow> pay_dto \<Rightarrow> pay_state \<Rightarrow>
     (initiate_result \<times> pay_state) result" where
  "pay cf env ids newContactId senderId key dto st =
     (let s = ps_bank st in
      ebind (require (key \<noteq> '''') (BadRequest ''Idempotency-Key header required'')) (\<lambda>_.
      ebind (resolveRecipient (pa_recipientHandleOrId dto) s) (\<lambda>recipient.
      ebind (or_throw (Forbidden ''Not your account'') (account_of s (pa_fromAccountId dto))) (\<lambda>from.
      ebind (require (a_userId from = senderId) (Forbidden ''Not your account'')) (\<lambda>_.
      if u_id recipient = senderId then
        ebind (or_throw (BadRequest ''No active savings account to receive funds'')
                 (find_first (\<lambda>a. a_userId a = senderId \<and> a_type a = Savings \<and> a_status a = AcctActive) (db_accounts s))) (\<lambda>savings.
        ebind (require (a_id savings \<noteq> a_id from) (BadRequest ''Source and destination cannot match'')) (\<lambda>_.
        ebind (initiate cf env ids senderId key (pay_transfer Internal (a_id from) (a_id savings) dto) s) (\<lambda>(r, s1).
        Inr (r, st\<lparr>ps_bank := s1,
                   ps_contacts := touch_or_upsert (rq_now env) newContactId senderId dto recipient (ps_contacts st)\<rparr>))))
      else
        ebind (or_throw (BadRequest ''Recipient has no active checking account'')
                 (find_first (\<lambda>a. a_userId a = u_id recipient \<and> a_type a = Checking \<and> a_status a = AcctActive) (db_accounts s))) (\<lambda>checking.
        ebind (initiate cf env ids senderId key (pay_transfer P2P (a_id from) (a_id checking) dto) s) (\<lambda>(r, s1).
        Inr (r, st\<lparr>ps_bank := enrich_description (ir_pendingTransactionId r) (display_name recipient) s1,
                   ps_contacts := touch_or_upsert (rq_now env) newContactId senderId dto recipient (ps_contacts st),
                   ps_notices := ps_notices st @ [received_notice (u_id recipient) (sender_label senderId s1) dto]\<rparr>))))))))"

text \<open>The target a payment code names, before it is escaped into the link.\<close>

definition qr_target :: "string option \<Rightarrow> string \<Rightarrow> string" where
  "qr_target novaTag userId =
     (if truthy_str novaTag then CHR ''@'' # (if starts_with ''@'' (the novaTag) then tl (the novaTag) else the novaTag)
      else userId)"

section \<open>Requests for payment\<close>

definition create_request ::
  "int \<Rightarrow> int \<Rightarrow> string \<Rightarrow> string \<Rightarrow> string \<Rightarrow> int \<Rightarrow> string \<Rightarrow> pay_state \<Rightarrow> pay_state result" where
  "create_request ttlDays now newId requesterId payerHandle amountCents note st =
     ebind (resolveRecipient payerHandle (ps_bank st)) (\<lambda>payer.
     ebind (require (u_id payer \<noteq> requesterId) (BadRequest ''Cannot request from yourself'')) (\<lambda>_.
     let row = \<lparr>pq_id = newId, pq_requesterUserId = requesterId, pq_payerUserId = u_id payer,
                pq_amountCents = amountCents, pq_note = note, pq_status = ReqPending,
                pq_expiresAt = now + ttlDays * 24 * 60 * 60 * 1000, pq_createdAt = now, pq_paidAt = None,
                pq_paidTransferId = None\<rparr>
     in ebind (create_unique ''id'' pq_id row (ps_requests st)) (\<lambda>rows.
        Inr (st\<lparr>ps_requests := rows,
                ps_bank := emit (EvPaymentRequested newId requesterId (u_id payer) amountCents note now) (ps_bank st)\<rparr>))))"

definition list_requests :: "string \<Rightarrow> bool \<Rightarrow> payment_request list \<Rightarrow> payment_request list" where
  "list_requests userId inbox rows =
     sort_key (\<lambda>r. - pq_createdAt r)
       (filter (\<lambda>r. (if inbox then pq_payerUserId r else pq_requesterUserId r) = userId) rows)"

definition open_request :: "string \<Rightarrow> string \<Rightarrow> pay_state \<Rightarrow> payment_request result" where
  "open_request userId i st =
     ebind (or_throw (NotFound ''Request not found'') (find_unique pq_id i (ps_requests st))) (\<lambda>row.
     ebind (require (pq_payerUserId row = userId) (NotFound ''Request not found'')) (\<lambda>_.
     ebind (require (pq_status row = ReqPending) (BadRequest ''Not pending'')) (\<lambda>_. Inr row)))"

definition set_request :: "string \<Rightarrow> (payment_request \<Rightarrow> payment_request) \<Rightarrow> pay_state \<Rightarrow> pay_state" where
  "set_request i f st = st\<lparr>ps_requests := update_many (\<lambda>r. pq_id r = i) f (ps_requests st)\<rparr>"

definition decline_request :: "string \<Rightarrow> string \<Rightarrow> pay_state \<Rightarrow> pay_state result" where
  "decline_request userId i st =
     ebind (open_request userId i st) (\<lambda>_. Inr (set_request i (\<lambda>r. r\<lparr>pq_status := ReqDeclined\<rparr>) st))"

definition request_transfer :: "string \<Rightarrow> string \<Rightarrow> payment_request \<Rightarrow> transfer_dto" where
  "request_transfer fromId toId row =
     \<lparr>d_fromAccountId = fromId, d_toAccountId = Some toId, d_externalRef = None, d_kind = P2P,
      d_amountCents = pq_amountCents row, d_instant = False, d_note = Some (pq_note row), d_wireDetails = None,
      d_sendCurrency = None, d_sendAmountMinor = None\<rparr>"

text \<open>Paying a request that has expired stamps it before it throws.\<close>

definition pay_request ::
  "config \<Rightarrow> request_env \<Rightarrow> string \<times> string \<Rightarrow> string \<Rightarrow> string \<Rightarrow> string \<Rightarrow> string \<Rightarrow> pay_state \<Rightarrow>
     initiate_result result \<times> pay_state" where
  "pay_request cf env ids userId i key fromAccountId st =
     (case open_request userId i st of
        Inl e \<Rightarrow> (Inl e, st)
      | Inr row \<Rightarrow>
          if pq_expiresAt row < rq_now env
          then (Inl (BadRequest ''Request expired''), set_request i (\<lambda>r. r\<lparr>pq_status := ReqExpired\<rparr>) st)
          else case find_first (\<lambda>a. a_userId a = pq_requesterUserId row \<and> a_type a = Checking \<and> a_status a = AcctActive)
                      (db_accounts (ps_bank st)) of
                 None \<Rightarrow> (Inl (BadRequest ''Requester has no active checking account''), st)
               | Some checking \<Rightarrow>
                   (case initiate cf env ids userId key (request_transfer fromAccountId (a_id checking) row) (ps_bank st) of
                      Inl e \<Rightarrow> (Inl e, st)
                    | Inr (r, s1) \<Rightarrow>
                        (Inr r, set_request i (\<lambda>q. q\<lparr>pq_status := ReqPaid, pq_paidAt := Some (rq_now env),
                                                     pq_paidTransferId := Some (ir_transferId r)\<rparr>)
                                  (st\<lparr>ps_bank := s1\<rparr>))))"

section \<open>Lemmas\<close>

lemma resolveRecipient_Inr:
  assumes "resolveRecipient h s = Inr u"
  shows "u \<in> set (db_users s)"
    and "u_id u = js_trim h \<or> u_novaTag u = Some (at_tag (js_trim h)) \<or>
         to_lower (u_email u) = to_lower (js_trim h) \<or>
         (\<exists>p. u_phoneE164 u = Some p \<and> 7 \<le> length (digits_of h) \<and> ends_with (digits_of (js_trim h)) p)"
proof -
  have len: "length (digits_of (js_trim h)) \<le> length (digits_of h)"
  proof -
    have "length (filter P (dropWhile Q xs)) \<le> length (filter P xs)" for P Q and xs :: string
      by (induction xs) auto
    from this [of is_digit is_space "rev (dropWhile is_space h)"] this [of is_digit is_space h]
    show ?thesis by (simp add: digits_of_def js_trim_def flip: rev_filter)
  qed
  show "u \<in> set (db_users s)"
    using assms
    by (auto simp: resolveRecipient_def Let_def split: if_splits option.splits
        dest: find_unique_SomeD find_first_SomeD)
  show "u_id u = js_trim h \<or> u_novaTag u = Some (at_tag (js_trim h)) \<or>
         to_lower (u_email u) = to_lower (js_trim h) \<or>
         (\<exists>p. u_phoneE164 u = Some p \<and> 7 \<le> length (digits_of h) \<and> ends_with (digits_of (js_trim h)) p)"
    using assms len
    by (auto simp: resolveRecipient_def Let_def split: if_splits option.splits
        dest!: find_unique_SomeD find_first_SomeD)
qed

lemma enrich_frame [simp]:
  "db_accounts (enrich_description x n s) = db_accounts s" "db_postings (enrich_description x n s) = db_postings s"
  "db_journal (enrich_description x n s) = db_journal s" "db_ledgerAccounts (enrich_description x n s) = db_ledgerAccounts s"
  "db_transfers (enrich_description x n s) = db_transfers s" "db_users (enrich_description x n s) = db_users s"
  by (simp_all add: enrich_description_def)

text \<open>A successful payment is one initiated transfer plus follow-up steps that touch no money.\<close>

lemma pay_Inr:
  assumes "pay cf env ids c u key dto st = Inr (r, st')"
  obtains recipient src dest kind s1 where
    "resolveRecipient (pa_recipientHandleOrId dto) (ps_bank st) = Inr recipient"
    "account_of (ps_bank st) (pa_fromAccountId dto) = Some src" "a_userId src = u" "key \<noteq> ''''"
    "kind = (if u_id recipient = u then Internal else P2P)"
    "dest \<in> set (db_accounts (ps_bank st))" "a_userId dest = u_id recipient" "a_status dest = AcctActive"
    "a_type dest = (if u_id recipient = u then Savings else Checking)"
    "initiate cf env ids u key (pay_transfer kind (a_id src) (a_id dest) dto) (ps_bank st) = Inr (r, s1)"
    "ps_bank st' = (if u_id recipient = u then s1
       else enrich_description (ir_pendingTransactionId r) (display_name recipient) s1)"
    "ps_notices st' = (if u_id recipient = u then ps_notices st
       else ps_notices st @ [received_notice (u_id recipient) (sender_label u s1) dto])"
proof -
  obtain recipient src where r: "resolveRecipient (pa_recipientHandleOrId dto) (ps_bank st) = Inr recipient"
    "account_of (ps_bank st) (pa_fromAccountId dto) = Some src" "a_userId src = u" "key \<noteq> ''''"
    using assms by (auto simp: pay_def Let_def err_simps)
  show ?thesis
  proof (cases "u_id recipient = u")
    case True
    then obtain dest s1 where "find_first (\<lambda>a. a_userId a = u \<and> a_type a = Savings \<and> a_status a = AcctActive)
        (db_accounts (ps_bank st)) = Some dest"
      "initiate cf env ids u key (pay_transfer Internal (a_id src) (a_id dest) dto) (ps_bank st) = Inr (r, s1)"
      "ps_bank st' = s1" "ps_notices st' = ps_notices st"
      using assms r by (auto simp: pay_def Let_def err_simps)
    then show ?thesis using True by (intro that [OF r, of Internal dest s1]) (auto dest: find_first_SomeD)
  next
    case False
    then obtain dest s1 where "find_first (\<lambda>a. a_userId a = u_id recipient \<and> a_type a = Checking \<and> a_status a = AcctActive)
        (db_accounts (ps_bank st)) = Some dest"
      "initiate cf env ids u key (pay_transfer P2P (a_id src) (a_id dest) dto) (ps_bank st) = Inr (r, s1)"
      "ps_bank st' = enrich_description (ir_pendingTransactionId r) (display_name recipient) s1"
      "ps_notices st' = ps_notices st @ [received_notice (u_id recipient) (sender_label u s1) dto]"
      using assms r by (auto simp: pay_def Let_def err_simps)
    then show ?thesis using False by (intro that [OF r, of P2P dest s1]) (auto dest: find_first_SomeD)
  qed
qed

lemma pay_request_Inr:
  assumes "pay_request cf env ids u i key f st = (Inr r, st')"
  obtains row dest s1 where "find_unique pq_id i (ps_requests st) = Some row" "pq_payerUserId row = u"
    "pq_status row = ReqPending" "rq_now env \<le> pq_expiresAt row"
    "dest \<in> set (db_accounts (ps_bank st))" "a_userId dest = pq_requesterUserId row" "a_type dest = Checking"
    "initiate cf env ids u key (request_transfer f (a_id dest) row) (ps_bank st) = Inr (r, s1)"
    "ps_bank st' = s1"
    "find_unique pq_id i (ps_requests st') = Some (row\<lparr>pq_status := ReqPaid, pq_paidAt := Some (rq_now env),
        pq_paidTransferId := Some (ir_transferId r)\<rparr>)"
proof -
  obtain row where row: "find_unique pq_id i (ps_requests st) = Some row" "pq_payerUserId row = u"
    "pq_status row = ReqPending" and o: "open_request u i st = Inr row"
    using assms by (auto simp: pay_request_def open_request_def err_simps split: sum.splits)
  obtain dest s1 where d: "find_first (\<lambda>a. a_userId a = pq_requesterUserId row \<and> a_type a = Checking \<and> a_status a = AcctActive)
      (db_accounts (ps_bank st)) = Some dest"
    and j: "initiate cf env ids u key (request_transfer f (a_id dest) row) (ps_bank st) = Inr (r, s1)"
    and "\<not> pq_expiresAt row < rq_now env"
    and st': "st' = set_request i (\<lambda>q. q\<lparr>pq_status := ReqPaid, pq_paidAt := Some (rq_now env),
        pq_paidTransferId := Some (ir_transferId r)\<rparr>) (st\<lparr>ps_bank := s1\<rparr>)"
    using assms o by (auto simp: pay_request_def split: if_splits option.splits sum.splits)
  then show ?thesis using find_first_SomeD [OF d] row
    by (intro that [OF row _ _ _ _ j]) (auto simp: set_request_def table_simps)
qed

section \<open>Properties\<close>

text \<open>A payment goes where the caller asked: a successful call that is no replay creates one
  pending transfer of the amount from the caller's own account to an active checking account of the
  user the handle resolves to (to the caller's savings when that is the caller), and that user
  matches the handle by identifier, tag, e-mail or telephone number.\<close>

theorem pay_reaches_recipient:
  assumes "pay cf env ids c u key dto st = Inr (r, st')"
    and "find_unique tr_idempotencyKey key (db_transfers (ps_bank st)) = None"
  shows "\<exists>recipient dest t. resolveRecipient (pa_recipientHandleOrId dto) (ps_bank st) = Inr recipient \<and>
           transfer_of (ps_bank st') (fst ids) = Some t \<and> tr_status t = TxPending \<and>
           tr_fromAccountId t = pa_fromAccountId dto \<and> tr_amountCents t = pa_amountCents dto \<and>
           tr_toAccountId t = Some (a_id dest) \<and> dest \<in> set (db_accounts (ps_bank st)) \<and>
           a_userId dest = u_id recipient \<and> a_status dest = AcctActive \<and>
           a_type dest = (if u_id recipient = u then Savings else Checking)"
proof -
  obtain recipient src dest kind s1 where p: "resolveRecipient (pa_recipientHandleOrId dto) (ps_bank st) = Inr recipient"
    "account_of (ps_bank st) (pa_fromAccountId dto) = Some src"
    "kind = (if u_id recipient = u then Internal else P2P)"
    "dest \<in> set (db_accounts (ps_bank st))" "a_userId dest = u_id recipient" "a_status dest = AcctActive"
    "a_type dest = (if u_id recipient = u then Savings else Checking)"
    "initiate cf env ids u key (pay_transfer kind (a_id src) (a_id dest) dto) (ps_bank st) = Inr (r, s1)"
    "ps_bank st' = (if u_id recipient = u then s1
       else enrich_description (ir_pendingTransactionId r) (display_name recipient) s1)"
    using assms(1) by (rule pay_Inr) (rule that; assumption)
  from p(8) show ?thesis
  proof (cases rule: initiate_cases)
    case (fresh pl t s0)
    note com = initiate_commit_Inr [OF fresh(2)] and chk = initiate_check_Proceed [OF fresh(1)]
    have "db_transfers (ps_bank st') = db_transfers (ps_bank st) @ [t]"
      using p(9) finish_snd(1) [OF fresh(3)] com(7) by simp
    moreover have "a_id (pl_from pl) = pa_fromAccountId dto"
      using plan_from_id [OF fresh(1)] p(2) find_unique_SomeD [OF p(2)] by (simp add: pay_transfer_def)
    moreover have "pl_settlementCents pl = pa_amountCents dto"
      using chk(7) p(3) by (auto simp: resolveSettlement_def pay_transfer_def Let_def split: if_splits)
    moreover have "(case pl_to pl of Some x \<Rightarrow> Some (a_id x) | None \<Rightarrow> Some (a_id dest)) = Some (a_id dest)"
      using chk(11) p(3) by (auto simp: destination_def pay_transfer_def err_simps split: if_splits option.splits
          dest: find_unique_SomeD)
    ultimately have "transfer_of (ps_bank st') (fst ids) = Some t \<and> tr_status t = TxPending \<and>
        tr_fromAccountId t = pa_fromAccountId dto \<and> tr_amountCents t = pa_amountCents dto \<and>
        tr_toAccountId t = Some (a_id dest)"
      using com(1,3) by (simp add: table_simps pending_transfer_def pay_transfer_def split: option.splits)
    then show ?thesis using p by blast
  qed (use assms(2) in simp)
qed

text \<open>Paying, in any way, keeps the books.\<close>

theorem pay_keeps_books:
  assumes "pay cf env ids c u key dto st = Inr (r, st')" "0 \<le> cf_feeMin cf" "ledger_inv (ps_bank st)"
  shows "ledger_inv (ps_bank st') \<and> (\<forall>k. drift (ps_bank st') k = drift (ps_bank st) k)"
proof -
  obtain recipient :: user and src dest :: account and kind s1 where
    j: "initiate cf env ids u key (pay_transfer kind (a_id src) (a_id dest) dto) (ps_bank st) = Inr (r, s1)"
    and b: "ps_bank st' = (if u_id recipient = u then s1
       else enrich_description (ir_pendingTransactionId r) (display_name recipient) s1)"
    using assms(1) by (rule pay_Inr) (rule that; assumption)
  have "ledger_inv (ps_bank st') = ledger_inv s1" "drift (ps_bank st') k = drift s1 k" for k
    by (rule ledger_inv_cong drift_same; simp add: b)+
  then show ?thesis using svc.books [OF j assms(2)] assms(3) by auto
qed

text \<open>A repeated key still announces money: when the key of an earlier payment is used again for
  another recipient, no balance and no ledger account moves, yet that recipient is told that the
  amount was received.\<close>

theorem pay_replay_announces_money:
  assumes "pay cf env ids c u key dto st = Inr (r, st')"
    and "find_unique tr_idempotencyKey key (db_transfers (ps_bank st)) \<noteq> None"
    and "resolveRecipient (pa_recipientHandleOrId dto) (ps_bank st) = Inr recipient" "u_id recipient \<noteq> u"
  shows "db_accounts (ps_bank st') = db_accounts (ps_bank st) \<and> db_postings (ps_bank st') = db_postings (ps_bank st) \<and>
         (\<exists>n. ps_notices st' = ps_notices st @ [n] \<and> nt_userId n = u_id recipient \<and>
              nt_title n = ''You received '' @ formatCents (pa_amountCents dto))"
proof -
  obtain recipient' and src dest :: account and kind s1 where r: "resolveRecipient (pa_recipientHandleOrId dto) (ps_bank st) = Inr recipient'"
    and j: "initiate cf env ids u key (pay_transfer kind (a_id src) (a_id dest) dto) (ps_bank st) = Inr (r, s1)"
    and b: "ps_bank st' = (if u_id recipient' = u then s1
       else enrich_description (ir_pendingTransactionId r) (display_name recipient') s1)"
    and n: "ps_notices st' = (if u_id recipient' = u then ps_notices st
       else ps_notices st @ [received_notice (u_id recipient') (sender_label u s1) dto])"
    using assms(1) by (rule pay_Inr) (rule that; assumption)
  have "s1 = ps_bank st" using j
  proof (cases rule: initiate_cases)
    case (fresh pl t s0)
    then show ?thesis using initiate_commit_Inr(4) [OF fresh(2)] assms(2) by simp
  qed simp
  then show ?thesis using b n r assms(3,4) by (simp add: received_notice_def)
qed

text \<open>A request for payment is settled once: after it was paid or declined, every further attempt
  to pay or decline it is refused and changes nothing.\<close>

theorem request_settled_once:
  assumes "pay_request cf env ids u i key f st = (Inr r, st') \<or> decline_request u i st = Inr st'"
  shows "fst (pay_request cf' env' ids' u' i key' f' st') \<in> range Inl \<and>
         snd (pay_request cf' env' ids' u' i key' f' st') = st' \<and> \<not> is_ok (decline_request u' i st')"
proof -
  have "\<exists>row. find_unique pq_id i (ps_requests st') = Some row \<and> pq_status row \<noteq> ReqPending"
    using assms
  proof
    assume "pay_request cf env ids u i key f st = (Inr r, st')"
    then show ?thesis by (rule pay_request_Inr) auto
  next
    assume "decline_request u i st = Inr st'"
    then show ?thesis by (auto simp: decline_request_def open_request_def err_simps set_request_def table_simps)
  qed
  then obtain e where "open_request u' i st' = Inl e"
    by (cases "open_request u' i st'") (auto simp: open_request_def require_def split: if_splits)
  then show ?thesis by (simp add: pay_request_def decline_request_def)
qed

text \<open>A request can be marked paid without a payment: when the payer sends the key of any earlier
  transfer of theirs, the request becomes paid and points at that transfer, while no balance and no
  ledger account changes.\<close>

theorem request_paid_without_payment:
  assumes "pay_request cf env ids u i key f st = (Inr r, st')"
    and "find_unique tr_idempotencyKey key (db_transfers (ps_bank st)) = Some t"
  shows "ps_bank st' = ps_bank st \<and>
         (\<exists>row. find_unique pq_id i (ps_requests st') = Some row \<and> pq_status row = ReqPaid \<and>
            pq_paidTransferId row = Some (tr_id t))"
proof -
  obtain row :: payment_request and dest :: account and s1 where j: "initiate cf env ids u key (request_transfer f (a_id dest) row) (ps_bank st) = Inr (r, s1)"
    and b: "ps_bank st' = s1"
    and q: "find_unique pq_id i (ps_requests st') = Some (row\<lparr>pq_status := ReqPaid, pq_paidAt := Some (rq_now env),
        pq_paidTransferId := Some (ir_transferId r)\<rparr>)"
    using assms(1) by (rule pay_request_Inr) (rule that; assumption)
  have "s1 = ps_bank st \<and> ir_transferId r = tr_id t" using j
  proof (cases rule: initiate_cases)
    case (fresh pl t s0)
    then show ?thesis using initiate_commit_Inr(4) [OF fresh(2)] assms(2) by simp
  qed (use assms(2) in \<open>simp add: replay_result_def\<close>)
  then show ?thesis using b q by simp
qed

text \<open>The payment code of a user leads back to that user: its target, a tag or else an identifier,
  resolves to the user who showed it.\<close>

theorem qr_resolves_to_owner:
  assumes "user_of s (u_id u) = Some u"
    and "\<And>tag. u_novaTag u = Some tag \<Longrightarrow> starts_with ''@'' tag \<and> js_trim tag = tag \<and>
           find_unique u_novaTag (Some tag) (db_users s) = Some u"
    and "u_novaTag u = None \<Longrightarrow> is_uuid (u_id u) \<and> js_trim (u_id u) = u_id u"
  shows "resolveRecipient (qr_target (u_novaTag u) (u_id u)) s = Inr u"
proof (cases "u_novaTag u")
  case None
  then have "is_uuid (u_id u)" "js_trim (u_id u) = u_id u" using assms(3) by auto
  moreover have "u_id u \<noteq> ''''" using calculation(1) by (auto simp: is_uuid_def)
  ultimately show ?thesis using None assms(1) by (simp add: qr_target_def truthy_str_def resolveRecipient_def Let_def)
next
  case (Some tag)
  note t = assms(2) [OF Some]
  obtain rest where tag: "tag = CHR ''@'' # rest" using t by (cases tag) (auto simp: starts_with_def)
  have "qr_target (u_novaTag u) (u_id u) = tag"
    using Some t tag by (simp add: qr_target_def truthy_str_def)
  moreover have "\<not> is_uuid tag"
  proof
    assume "is_uuid tag"
    then have "is_hex (tag ! 0)" by (auto simp: is_uuid_def)
    then show False using tag by (simp add: is_hex_def)
  qed
  ultimately show ?thesis using t tag by (simp add: resolveRecipient_def at_tag_def Let_def)
qed

end
