(* ===== verification/Notifications.thy ===== *)
theory Notifications
  imports Cards Payments Settlement
begin

text \<open>
  Notifications (\<^verbatim>\<open>notifications/notifications.service.ts\<close>) and the listeners that write them when other
  services emit events (\<^verbatim>\<open>notifications/notification-producer.service.ts\<close>).
\<close>

section \<open>State\<close>

datatype notification_category = NcTransaction | NcSecurity | NcOffer | NcSystem

record notification =
  no_id :: string
  no_userId :: string
  no_category :: notification_category
  no_title :: string
  no_body :: string
  no_ctaUrl :: "string option"
  no_readAt :: "int option"
  no_createdAt :: int

record preference =
  pf_userId :: string
  pf_txAll :: bool
  pf_txLargeOnly :: bool
  pf_txLargeThresholdCents :: int
  pf_securityAlerts :: bool
  pf_marketingEmail :: bool
  pf_marketingPush :: bool

datatype note_event =
    NoteCreated notification
  | NoteRead string "string list" int

record notes_state =
  nn_rows :: "notification list"
  nn_prefs :: "preference list"
  nn_events :: "note_event list"

section \<open>The service\<close>

definition unread_of :: "string \<Rightarrow> notification \<Rightarrow> bool" where
  "unread_of userId n = (no_userId n = userId \<and> no_readAt n = None)"

definition list_notes :: "string \<Rightarrow> bool \<Rightarrow> nat option \<Rightarrow> notes_state \<Rightarrow> notification list" where
  "list_notes userId unreadOnly limit st =
     take (min (case limit of None \<Rightarrow> 50 | Some l \<Rightarrow> l) 100)
       (rev (sort_key no_createdAt (filter (\<lambda>n. no_userId n = userId \<and> (unreadOnly \<longrightarrow> no_readAt n = None)) (nn_rows st))))"

definition unreadCount :: "string \<Rightarrow> notes_state \<Rightarrow> nat" where
  "unreadCount userId st = length (filter (unread_of userId) (nn_rows st))"

definition emitRead :: "int \<Rightarrow> string \<Rightarrow> string list \<Rightarrow> notes_state \<Rightarrow> notes_state" where
  "emitRead now userId ids st = st\<lparr>nn_events := nn_events st @ [NoteRead userId ids now]\<rparr>"

definition read_where :: "(notification \<Rightarrow> bool) \<Rightarrow> int \<Rightarrow> notes_state \<Rightarrow> nat \<times> notes_state" where
  "read_where P now st =
     (length (filter P (nn_rows st)), st\<lparr>nn_rows := update_many P (\<lambda>n. n\<lparr>no_readAt := Some now\<rparr>) (nn_rows st)\<rparr>)"

definition markRead :: "int \<Rightarrow> string \<Rightarrow> string list \<Rightarrow> notes_state \<Rightarrow> nat \<times> notes_state" where
  "markRead now userId ids st =
     (if ids = [] then (0, st)
      else let (count, st1) = read_where (\<lambda>n. unread_of userId n \<and> no_id n \<in> set ids) now st
           in (count, if count > 0 then emitRead now userId ids st1 else st1))"

definition markAllRead :: "int \<Rightarrow> string \<Rightarrow> notes_state \<Rightarrow> nat \<times> notes_state" where
  "markAllRead now userId st =
     (let unread = filter (unread_of userId) (nn_rows st)
      in if unread = [] then (0, st)
         else let (count, st1) = read_where (unread_of userId) now st
              in (count, emitRead now userId (map no_id unread) st1))"

text \<open>The column defaults of a preference row.\<close>

definition default_preference :: "string \<Rightarrow> preference" where
  "default_preference userId = \<lparr>pf_userId = userId, pf_txAll = True, pf_txLargeOnly = False, pf_txLargeThresholdCents = 10000,
     pf_securityAlerts = True, pf_marketingEmail = True, pf_marketingPush = False\<rparr>"

definition getPreferences :: "string \<Rightarrow> notes_state \<Rightarrow> preference \<times> notes_state" where
  "getPreferences userId st =
     (case find_unique pf_userId userId (nn_prefs st) of
        Some p \<Rightarrow> (p, st)
      | None \<Rightarrow> (default_preference userId, st\<lparr>nn_prefs := nn_prefs st @ [default_preference userId]\<rparr>))"

record preference_dto =
  pu_txAll :: "bool option"
  pu_txLargeOnly :: "bool option"
  pu_txLargeThresholdCents :: "int option"
  pu_securityAlerts :: "bool option"
  pu_marketingEmail :: "bool option"
  pu_marketingPush :: "bool option"

definition opt_or :: "'a option \<Rightarrow> 'a \<Rightarrow> 'a" where
  "opt_or v d = (case v of None \<Rightarrow> d | Some x \<Rightarrow> x)"

definition merge_preference :: "preference_dto \<Rightarrow> preference \<Rightarrow> preference" where
  "merge_preference dto p =
     p\<lparr>pf_txAll := opt_or (pu_txAll dto) (pf_txAll p), pf_txLargeOnly := opt_or (pu_txLargeOnly dto) (pf_txLargeOnly p),
       pf_txLargeThresholdCents := opt_or (pu_txLargeThresholdCents dto) (pf_txLargeThresholdCents p),
       pf_securityAlerts := opt_or (pu_securityAlerts dto) (pf_securityAlerts p),
       pf_marketingEmail := opt_or (pu_marketingEmail dto) (pf_marketingEmail p),
       pf_marketingPush := opt_or (pu_marketingPush dto) (pf_marketingPush p)\<rparr>"

definition updatePreferences :: "string \<Rightarrow> preference_dto \<Rightarrow> notes_state \<Rightarrow> preference \<times> notes_state" where
  "updatePreferences userId dto st =
     (case find_unique pf_userId userId (nn_prefs st) of
        Some p \<Rightarrow> (merge_preference dto p, st\<lparr>nn_prefs := update_many (\<lambda>q. pf_userId q = userId) (merge_preference dto) (nn_prefs st)\<rparr>)
      | None \<Rightarrow> (let p = merge_preference dto (default_preference userId) in (p, st\<lparr>nn_prefs := nn_prefs st @ [p]\<rparr>)))"

record note_input =
  ni_userId :: string
  ni_category :: notification_category
  ni_title :: string
  ni_body :: string
  ni_ctaUrl :: "string option"

definition create_note :: "int \<Rightarrow> string \<Rightarrow> note_input \<Rightarrow> notes_state \<Rightarrow> notes_state result" where
  "create_note now newId inp st =
     (let n = \<lparr>no_id = newId, no_userId = ni_userId inp, no_category = ni_category inp, no_title = ni_title inp, no_body = ni_body inp,
               no_ctaUrl = ni_ctaUrl inp, no_readAt = None, no_createdAt = now\<rparr>
      in ebind (create_unique ''id'' no_id n (nn_rows st)) (\<lambda>t.
         Inr (st\<lparr>nn_rows := t, nn_events := nn_events st @ [NoteCreated n]\<rparr>)))"

definition clearAll :: "string \<Rightarrow> notes_state \<Rightarrow> nat \<times> notes_state" where
  "clearAll userId st =
     (length (filter (\<lambda>n. no_userId n = userId) (nn_rows st)), st\<lparr>nn_rows := filter (\<lambda>n. no_userId n \<noteq> userId) (nn_rows st)\<rparr>)"

section \<open>The listeners\<close>

text \<open>An error is logged and leaves the state as it was.\<close>

definition try_note :: "int \<Rightarrow> string \<Rightarrow> note_input \<Rightarrow> notes_state \<Rightarrow> notes_state" where
  "try_note now newId inp st = (case create_note now newId inp st of Inl _ \<Rightarrow> st | Inr st1 \<Rightarrow> st1)"

definition formatUsd :: "int \<Rightarrow> string" where
  "formatUsd cents =
     rev (commas_rev (rev (show_digits (\<bar>cents\<bar> div 100)))) @ ''.'' @ pad2 (show_digits (\<bar>cents\<bar> mod 100))"

definition onTxSettled :: "int \<Rightarrow> string \<Rightarrow> string \<Rightarrow> int \<Rightarrow> notes_state \<Rightarrow> notes_state" where
  "onTxSettled now newId userId amount st =
     (let (prefs, st1) = getPreferences userId st
      in if \<not> pf_txAll prefs then st1
         else if pf_txLargeOnly prefs \<and> \<bar>amount\<bar> < pf_txLargeThresholdCents prefs then st1
         else try_note now newId
                \<lparr>ni_userId = userId, ni_category = NcTransaction, ni_title = ''Transaction posted'',
                 ni_body = ''You '' @ (if amount < 0 then ''sent'' else ''received'') @ '' $'' @ formatUsd \<bar>amount\<bar> @ ''.'',
                 ni_ctaUrl = Some ''/home/spending''\<rparr> st1)"

definition onSessionCreated :: "int \<Rightarrow> string \<Rightarrow> string \<Rightarrow> int \<Rightarrow> notes_state \<Rightarrow> notes_state" where
  "onSessionCreated now newId userId t st =
     (let (prefs, st1) = getPreferences userId st
      in if \<not> pf_securityAlerts prefs then st1
         else try_note now newId
                \<lparr>ni_userId = userId, ni_category = NcSecurity, ni_title = ''New sign-in to your account'',
                 ni_body = ''A new session was started at '' @ toISOString t @ ''.'', ni_ctaUrl = Some ''/profile/security''\<rparr> st1)"

definition onCardUpdated :: "int \<Rightarrow> string \<Rightarrow> string \<Rightarrow> card_status \<Rightarrow> notes_state \<Rightarrow> notes_state" where
  "onCardUpdated now newId userId status st =
     (let (prefs, st1) = getPreferences userId st;
          verb = (if status = CardFrozen then ''frozen'' else if status = CardActive then ''unfrozen'' else status_text status)
      in if \<not> pf_securityAlerts prefs then st1
         else try_note now newId
                \<lparr>ni_userId = userId, ni_category = NcSecurity, ni_title = ''Card '' @ verb, ni_body = ''Your card was '' @ verb @ ''.'',
                 ni_ctaUrl = Some ''/home/spending/card''\<rparr> st1)"

definition onPaymentRequested :: "int \<Rightarrow> string \<Rightarrow> string \<Rightarrow> int \<Rightarrow> string \<Rightarrow> notes_state \<Rightarrow> notes_state" where
  "onPaymentRequested now newId payerUserId amount note st =
     try_note now newId
       \<lparr>ni_userId = payerUserId, ni_category = NcTransaction, ni_title = ''New payment request'',
        ni_body = ''Someone requested $'' @ formatUsd amount @ '': '' @ note, ni_ctaUrl = Some ''/pay''\<rparr> st"

text \<open>The listeners of the events the money services put on the bus.\<close>

definition on_bank_event :: "int \<Rightarrow> string \<Rightarrow> event \<Rightarrow> notes_state \<Rightarrow> notes_state" where
  "on_bank_event now newId e st =
     (case e of
        EvTransactionSettled userId _ _ _ amount _ \<Rightarrow> onTxSettled now newId userId amount st
      | EvPaymentRequested _ _ payer amount note _ \<Rightarrow> onPaymentRequested now newId payer amount note st
      | _ \<Rightarrow> st)"

fun deliver :: "int \<Rightarrow> (string \<times> event) list \<Rightarrow> notes_state \<Rightarrow> notes_state" where
  "deliver now [] st = st"
| "deliver now ((newId, e) # es) st = deliver now es (on_bank_event now newId e st)"

section \<open>Properties\<close>

lemma getPreferences_frame [simp]:
  "nn_rows (snd (getPreferences u st)) = nn_rows st" "nn_events (snd (getPreferences u st)) = nn_events st"
  by (auto simp: getPreferences_def split: option.splits)

lemma try_note_fresh:
  assumes "find_unique no_id newId (nn_rows st) = None"
  shows "nn_rows (try_note now newId inp st) = nn_rows st @
    [\<lparr>no_id = newId, no_userId = ni_userId inp, no_category = ni_category inp, no_title = ni_title inp, no_body = ni_body inp,
      no_ctaUrl = ni_ctaUrl inp, no_readAt = None, no_createdAt = now\<rparr>]"
  using assms by (simp add: try_note_def create_note_def create_unique_def Let_def)

lemma read_where_others:
  assumes "\<And>n. P n \<Longrightarrow> no_userId n = u"
  shows "filter (\<lambda>n. no_userId n \<noteq> u) (nn_rows (snd (read_where P now st))) = filter (\<lambda>n. no_userId n \<noteq> u) (nn_rows st)"
  using assms by (auto simp: read_where_def intro!: filter_update_other)

lemma read_where_count:
  assumes "\<And>n. P n \<Longrightarrow> unread_of u n"
  shows "unreadCount u (snd (read_where P now st)) + fst (read_where P now st) = unreadCount u st"
proof -
  have "length (filter (unread_of u) (update_many P (\<lambda>n. n\<lparr>no_readAt := Some now\<rparr>) t)) + length (filter P t) =
      length (filter (unread_of u) t)" for t
    using assms by (induction t) (auto simp: unread_of_def)
  then show ?thesis by (simp add: read_where_def unreadCount_def)
qed

lemma emitRead_rows [simp]: "nn_rows (emitRead now u ids st) = nn_rows st" "unreadCount v (emitRead now u ids st) = unreadCount v st"
  by (simp_all add: emitRead_def unreadCount_def)

lemma markRead_cases:
  "markRead now u ids st = (0, st) \<or>
   (\<exists>st1. nn_rows st1 = nn_rows (snd (read_where (\<lambda>n. unread_of u n \<and> no_id n \<in> set ids) now st)) \<and>
      markRead now u ids st = (fst (read_where (\<lambda>n. unread_of u n \<and> no_id n \<in> set ids) now st), st1))"
  by (auto simp: markRead_def case_prod_beta Let_def)

lemma markAllRead_rows:
  "nn_rows (snd (markAllRead now u st)) = nn_rows (snd (read_where (unread_of u) now st)) \<and>
   fst (markAllRead now u st) = fst (read_where (unread_of u) now st)"
proof (cases "filter (unread_of u) (nn_rows st) = []")
  case True
  then have "update_many (unread_of u) f (nn_rows st) = nn_rows st" for f
    by (induction "nn_rows st") (auto simp: update_many_def map_idI filter_empty_conv)
  then show ?thesis using True by (simp add: markAllRead_def read_where_def)
next
  case False
  then show ?thesis by (simp add: markAllRead_def case_prod_beta Let_def)
qed

text \<open>A customer's notifications are the customer's own: marking as read and clearing touch no row of
  another user; marking reports exactly the number of rows it changed; and after marking all as read
  nothing is unread, so doing it again changes nothing.\<close>

theorem notifications_are_private:
  "filter (\<lambda>n. no_userId n \<noteq> u) (nn_rows (snd (markRead now u ids st))) = filter (\<lambda>n. no_userId n \<noteq> u) (nn_rows st) \<and>
   filter (\<lambda>n. no_userId n \<noteq> u) (nn_rows (snd (markAllRead now u st))) = filter (\<lambda>n. no_userId n \<noteq> u) (nn_rows st) \<and>
   filter (\<lambda>n. no_userId n \<noteq> u) (nn_rows (snd (clearAll u st))) = filter (\<lambda>n. no_userId n \<noteq> u) (nn_rows st) \<and>
   unreadCount u (snd (markRead now u ids st)) + fst (markRead now u ids st) = unreadCount u st \<and>
   fst (markAllRead now u st) = unreadCount u st \<and>
   markAllRead now' u (snd (markAllRead now u st)) = (0, snd (markAllRead now u st))"
proof (intro conjI)
  note all = markAllRead_rows [of now u st]
  let ?P = "\<lambda>n. unread_of u n \<and> no_id n \<in> set ids"
  show "filter (\<lambda>n. no_userId n \<noteq> u) (nn_rows (snd (markRead now u ids st))) = filter (\<lambda>n. no_userId n \<noteq> u) (nn_rows st)"
    using markRead_cases [of now u ids st] read_where_others [of ?P u now st] by (auto simp: unread_of_def)
  show "filter (\<lambda>n. no_userId n \<noteq> u) (nn_rows (snd (markAllRead now u st))) = filter (\<lambda>n. no_userId n \<noteq> u) (nn_rows st)"
    using all read_where_others [of "unread_of u" u now st] by (simp add: unread_of_def)
  show "filter (\<lambda>n. no_userId n \<noteq> u) (nn_rows (snd (clearAll u st))) = filter (\<lambda>n. no_userId n \<noteq> u) (nn_rows st)"
    by (simp add: clearAll_def)
  show "unreadCount u (snd (markRead now u ids st)) + fst (markRead now u ids st) = unreadCount u st"
    using markRead_cases [of now u ids st] read_where_count [of ?P u now st] by (auto simp: unreadCount_def)
  show "fst (markAllRead now u st) = unreadCount u st" using all by (simp add: read_where_def unreadCount_def)
  then have "unreadCount u (snd (markAllRead now u st)) = 0"
    using read_where_count [of "unread_of u" u now st] all by (simp add: unreadCount_def)
  then show "markAllRead now' u (snd (markAllRead now u st)) = (0, snd (markAllRead now u st))"
    by (simp add: markAllRead_def unreadCount_def)
qed

text \<open>Preferences are obeyed: a customer who switched transaction notices off gets none, whatever
  settles; one who asked for large amounts only gets none below the threshold; and a security notice
  is never written against the preference.\<close>

theorem preferences_silence_notices:
  assumes "find_unique pf_userId u (nn_prefs st) = Some p"
  shows "(\<not> pf_txAll p \<longrightarrow> onTxSettled now i u amount st = st) \<and>
         (pf_txLargeOnly p \<and> \<bar>amount\<bar> < pf_txLargeThresholdCents p \<longrightarrow> onTxSettled now i u amount st = st) \<and>
         (\<not> pf_securityAlerts p \<longrightarrow> onSessionCreated now i u t st = st \<and> onCardUpdated now i u status st = st)"
  using assms by (simp add: onTxSettled_def onSessionCreated_def onCardUpdated_def getPreferences_def Let_def)

text \<open>The sender of a payment is told to have received it: the worker announces the settlement to the
  sender with the positive amount, and the listener reads the direction off its sign.\<close>

theorem sender_told_received:
  assumes "settle_check transferId s = Some t" "0 < tr_amountCents t" "process now ids transferId s = Inr s'"
    and "find_unique pf_userId (tr_initiatedByUserId t) (nn_prefs st) = None" "find_unique no_id i (nn_rows st) = None"
  shows "\<exists>tx. EvTransactionSettled (tr_initiatedByUserId t) (tr_fromAccountId t) tx (tr_id t) (tr_amountCents t) now \<in> set (bus s') \<and>
           (\<exists>n. nn_rows (on_bank_event now i
                   (EvTransactionSettled (tr_initiatedByUserId t) (tr_fromAccountId t) tx (tr_id t) (tr_amountCents t) now) st) =
                 nn_rows st @ [n] \<and> no_userId n = tr_initiatedByUserId t \<and>
              no_body n = ''You received $'' @ formatUsd (tr_amountCents t) @ ''.'')"
proof -
  let ?e = "\<lambda>tx. EvTransactionSettled (tr_initiatedByUserId t) (tr_fromAccountId t) tx (tr_id t) (tr_amountCents t) now"
  let ?tx = "case tr_pendingTransactionId t of Some x \<Rightarrow> x | None \<Rightarrow> fst ids"
  obtain s1 where s1: "s' = settle_finish now t (fst ids) s1"
    using assms(1,3) by (auto simp: process_def err_simps)
  have "?e ?tx \<in> set (bus s')" by (simp add: s1 settle_finish_def Let_def emit_def split: option.splits)
  moreover have "\<exists>n. nn_rows (on_bank_event now i (?e ?tx) st) = nn_rows st @ [n] \<and> no_userId n = tr_initiatedByUserId t \<and>
      no_body n = ''You received $'' @ formatUsd (tr_amountCents t) @ ''.''"
    using assms(2,4,5) by (simp add: on_bank_event_def onTxSettled_def getPreferences_def default_preference_def try_note_fresh)
  ultimately show ?thesis by blast
qed


end
