(* ===== verification/Admin_Wires.thy ===== *)
theory Admin_Wires
  imports Admin_Transfers Notifications
begin

text \<open>
  The administrator's wires (\<^verbatim>\<open>admin/wires/admin-wires.service.ts\<close>): the list of approved beneficiaries
  that customer wires are matched against, the approval of a held wire and the reversal of a wire.
\<close>

section \<open>Beneficiaries\<close>

record beneficiary_dto =
  bd_type :: wire_type
  bd_name :: string
  bd_bankName :: string
  bd_routingNumber :: "string option"
  bd_accountNumber :: "string option"
  bd_swiftBic :: "string option"
  bd_iban :: "string option"
  bd_country :: "string option"
  bd_beneficiaryAddress :: "string option"
  bd_notes :: "string option"

definition upper_letter :: "char \<Rightarrow> bool" where
  "upper_letter c = (65 \<le> (of_char c :: nat) \<and> (of_char c :: nat) \<le> 90)"

definition upper_alnum :: "char \<Rightarrow> bool" where
  "upper_alnum c = (upper_letter c \<or> dec_digit c)"

text \<open>The two patterns: a Bahraini IBAN, and a bank identifier code.\<close>

definition bh_iban :: "string \<Rightarrow> bool" where
  "bh_iban s = (length s = 22 \<and> take 2 s = ''BH'' \<and> list_all dec_digit (take 2 (drop 2 s)) \<and>
     list_all upper_letter (take 4 (drop 4 s)) \<and> list_all upper_alnum (drop 8 s))"

definition swift_code :: "string \<Rightarrow> bool" where
  "swift_code s = (8 \<le> length s \<and> length s \<le> 11 \<and> list_all upper_letter (take 6 s) \<and> list_all upper_alnum (drop 6 s))"

definition given_text :: "string option \<Rightarrow> bool" where
  "given_text v = (case v of None \<Rightarrow> False | Some x \<Rightarrow> js_trim x \<noteq> '''')"

definition validateShape :: "beneficiary_dto \<Rightarrow> unit result" where
  "validateShape dto =
     (case bd_type dto of
        WireLocal \<Rightarrow> require (bh_iban (norm_iban (bd_iban dto))) (BadRequest ''IBAN_INVALID'')
      | WireInternational \<Rightarrow>
          ebind (require (swift_code (to_upper (js_trim (opt_or (bd_swiftBic dto) '''')))) (BadRequest ''SWIFT_INVALID'')) (\<lambda>_.
          ebind (require (given_text (bd_iban dto)) (BadRequest ''IBAN_REQUIRED'')) (\<lambda>_.
          require (given_text (bd_country dto)) (BadRequest ''COUNTRY_REQUIRED''))))"

definition fill_beneficiary :: "beneficiary_dto \<Rightarrow> wire_beneficiary \<Rightarrow> wire_beneficiary" where
  "fill_beneficiary dto b =
     b\<lparr>wb_type := bd_type dto, wb_name := js_trim (bd_name dto), wb_bankName := js_trim (bd_bankName dto),
       wb_routingNumber := map_option js_trim (bd_routingNumber dto), wb_accountNumber := map_option js_trim (bd_accountNumber dto),
       wb_swiftBic := map_option (\<lambda>x. to_upper (js_trim x)) (bd_swiftBic dto),
       wb_iban := map_option (\<lambda>x. strip_spaces (to_upper (js_trim x))) (bd_iban dto),
       wb_country := map_option js_trim (bd_country dto), wb_beneficiaryAddress := map_option js_trim (bd_beneficiaryAddress dto),
       wb_notes := map_option js_trim (bd_notes dto)\<rparr>"

definition blank_beneficiary :: "int \<Rightarrow> string \<Rightarrow> string \<Rightarrow> wire_beneficiary" where
  "blank_beneficiary now newId actorUserId =
     \<lparr>wb_id = newId, wb_type = WireLocal, wb_name = '''', wb_bankName = '''', wb_routingNumber = None, wb_accountNumber = None,
      wb_swiftBic = None, wb_iban = None, wb_country = None, wb_beneficiaryAddress = None, wb_notes = None,
      wb_createdByUserId = actorUserId, wb_createdAt = now, wb_archivedAt = None\<rparr>"

definition listBeneficiaries :: "bank \<Rightarrow> wire_beneficiary list" where
  "listBeneficiaries s = rev (sort_key wb_createdAt (filter (\<lambda>b. wb_archivedAt b = None) (db_beneficiaries s)))"

definition createBeneficiary :: "int \<Rightarrow> string \<Rightarrow> string \<Rightarrow> beneficiary_dto \<Rightarrow> bank \<Rightarrow> bank result" where
  "createBeneficiary now newId actorUserId dto s =
     ebind (validateShape dto) (\<lambda>_.
     ebind (create_unique ''id'' wb_id (fill_beneficiary dto (blank_beneficiary now newId actorUserId)) (db_beneficiaries s)) (\<lambda>bs.
     Inr (s\<lparr>db_beneficiaries := bs\<rparr>)))"

definition updateBeneficiary :: "string \<Rightarrow> beneficiary_dto \<Rightarrow> bank \<Rightarrow> bank result" where
  "updateBeneficiary i dto s =
     ebind (validateShape dto) (\<lambda>_.
     ebind (or_throw (NotFound ''BENEFICIARY_NOT_FOUND'') (find_unique wb_id i (db_beneficiaries s))) (\<lambda>b.
     ebind (require (wb_archivedAt b = None) (NotFound ''BENEFICIARY_NOT_FOUND'')) (\<lambda>_.
     Inr (s\<lparr>db_beneficiaries := update_many (\<lambda>b. wb_id b = i) (fill_beneficiary dto) (db_beneficiaries s)\<rparr>))))"

definition deleteBeneficiary :: "int \<Rightarrow> string \<Rightarrow> bank \<Rightarrow> bank result" where
  "deleteBeneficiary now i s =
     ebind (or_throw (NotFound ''BENEFICIARY_NOT_FOUND'') (find_unique wb_id i (db_beneficiaries s))) (\<lambda>_.
     Inr (s\<lparr>db_beneficiaries := update_many (\<lambda>b. wb_id b = i) (\<lambda>b. b\<lparr>wb_archivedAt := Some now\<rparr>) (db_beneficiaries s)\<rparr>))"

section \<open>Wires\<close>

record wire_row =
  wr_transfer :: transfer
  wr_awaitingApproval :: bool
  wr_customer :: "(string \<times> string \<times> string) option"

definition wire_row_of :: "bank \<Rightarrow> transfer \<Rightarrow> wire_row" where
  "wire_row_of s t =
     \<lparr>wr_transfer = t, wr_awaitingApproval = (tr_requiresReview t \<and> tr_reviewedAt t = None \<and> tr_status t = TxPending),
      wr_customer = map_option (\<lambda>u. (u_id u, display_name u, u_email u)) (user_of s (tr_initiatedByUserId t))\<rparr>"

definition listWires :: "int \<Rightarrow> bank \<Rightarrow> wire_row list" where
  "listWires limit s =
     map (wire_row_of s)
       (take (nat (min (max limit 1) 200))
         (rev (sort_key tr_initiatedAt (filter (\<lambda>t. tr_kind t = WireOut \<or> tr_kind t = WireIn) (db_transfers s)))))"

definition approve_wire_check :: "string \<Rightarrow> bank \<Rightarrow> transfer result" where
  "approve_wire_check transferId s =
     ebind (or_throw (NotFound ''TRANSFER_NOT_FOUND'') (transfer_of s transferId)) (\<lambda>t.
     ebind (require (tr_kind t = WireOut) (BadRequest ''ONLY_WIRE_OUT_APPROVABLE'')) (\<lambda>_.
     ebind (require (tr_requiresReview t) (BadRequest ''NOT_FLAGGED_FOR_REVIEW'')) (\<lambda>_.
     ebind (require (tr_reviewedAt t = None) (BadRequest ''ALREADY_REVIEWED'')) (\<lambda>_. Inr t))))"

definition approve_wire :: "int \<Rightarrow> bool \<Rightarrow> string \<times> string \<Rightarrow> string \<Rightarrow> string \<Rightarrow> string option \<Rightarrow> bank \<Rightarrow> bank result" where
  "approve_wire now queueUp ids actorUserId transferId reason s =
     ebind (approve_wire_check transferId s) (\<lambda>_.
     Inr (emit (EvAdminQueueChanged (-1))
            (snd (forceSettle now queueUp ids transferId (stamp_approved now actorUserId transferId reason s)))))"

definition reverse_wire_check :: "string \<Rightarrow> bank \<Rightarrow> transfer result" where
  "reverse_wire_check transferId s =
     ebind (or_throw (NotFound ''TRANSFER_NOT_FOUND'') (transfer_of s transferId)) (\<lambda>t.
     ebind (require (tr_kind t = WireOut) (BadRequest ''ONLY_WIRE_OUT_REVERSIBLE'')) (\<lambda>_.
     ebind (require (tr_status t \<noteq> TxReversed) (BadRequest ''ALREADY_REVERSED'')) (\<lambda>_. Inr t)))"

definition reversal_postings :: "string \<Rightarrow> int \<Rightarrow> int \<Rightarrow> posting_input list" where
  "reversal_postings senderId amountCents feeCents =
     [\<lparr>pi_code = Cash, pi_direction = Debit, pi_amountCents = amountCents, pi_meta = None\<rparr>,
      \<lparr>pi_code = accountSubLedgerCode senderId, pi_direction = Credit, pi_amountCents = amountCents, pi_meta = None\<rparr>] @
     (if feeCents > 0 then
       [\<lparr>pi_code = FeeRevenue, pi_direction = Debit, pi_amountCents = feeCents, pi_meta = None\<rparr>,
        \<lparr>pi_code = accountSubLedgerCode senderId, pi_direction = Credit, pi_amountCents = feeCents, pi_meta = None\<rparr>]
      else [])"

definition reversal_row :: "int \<Rightarrow> string \<Rightarrow> string \<Rightarrow> string \<Rightarrow> transfer \<Rightarrow> string \<Rightarrow> transaction" where
  "reversal_row now txId actorUserId reason t accountId =
     \<lparr>t_id = txId, t_accountId = accountId, t_kind = KAdjustment, t_status = TxPosted,
      t_amountCents = tr_amountCents t + tr_feeCents t, t_description = take 280 (''Wire reversal - '' @ reason),
      t_category = CatTransfer, t_note = None, t_occurredAt = now, t_postedAt = Some now,
      t_metadata = Some \<lparr>m_transferId = Some (tr_id t), m_fx = None, m_reversedByAdmin = Some actorUserId\<rparr>\<rparr>"

text \<open>The rows of the wire; a row that no longer exists is passed over.\<close>

definition mark_reversed :: "int \<Rightarrow> transfer \<Rightarrow> transaction list \<Rightarrow> transaction list" where
  "mark_reversed now t txs =
     (let txs1 = (if truthy_str (tr_pendingTransactionId t)
                  then update_many (\<lambda>x. t_id x = the (tr_pendingTransactionId t))
                         (\<lambda>x. x\<lparr>t_status := TxReversed, t_postedAt := Some now\<rparr>) txs
                  else txs)
      in if truthy_str (tr_settledTransactionId t)
         then update_many (\<lambda>x. t_id x = the (tr_settledTransactionId t)) (\<lambda>x. x\<lparr>t_status := TxReversed\<rparr>) txs1
         else txs1)"

definition reverse_wire_commit :: "int \<Rightarrow> string \<Rightarrow> string \<Rightarrow> transfer \<Rightarrow> string \<Rightarrow> bank \<Rightarrow> bank result" where
  "reverse_wire_commit now txId actorUserId t reason s =
     ebind (or_throw (PlainError ''Sender account vanished'') (account_of s (tr_fromAccountId t))) (\<lambda>sender.
     ebind (credit_account (a_id sender) (tr_amountCents t + tr_feeCents t)
              (ensureAccountLedger (a_id sender) (a_userId sender) s)) (\<lambda>s1.
     ebind (post \<lparr>ji_description = ''Reverse wire (admin: '' @ actorUserId @ '')'', ji_occurredAt = now,
                  ji_source = ''transfer:'' @ tr_id t @ '':admin-reverse'', ji_referenceId = Some (tr_id t),
                  ji_postings = reversal_postings (a_id sender) (tr_amountCents t) (tr_feeCents t)\<rparr> s1) (\<lambda>(_, s2).
     ebind (create_unique ''id'' t_id (reversal_row now txId actorUserId reason t (a_id sender)) (db_transactions s2)) (\<lambda>txs.
     ebind (update_unique tr_id (tr_id t)
              (\<lambda>x. x\<lparr>tr_status := TxReversed, tr_failureReason := Some reason,
                     tr_settledAt := (case tr_settledAt t of Some w \<Rightarrow> Some w | None \<Rightarrow> Some now)\<rparr>) (db_transfers s2)) (\<lambda>trs.
     Inr (s2\<lparr>db_transactions := mark_reversed now t txs, db_transfers := trs\<rparr>))))))"

definition wire_formatCents :: "int \<Rightarrow> string" where
  "wire_formatCents c = (if c < 0 then ''-'' else '''') @ ''$'' @ show_digits (\<bar>c\<bar> div 100) @ ''.'' @ pad2 (show_digits (\<bar>c\<bar> mod 100))"

text \<open>The events after the commit, for the sender's account as it is then.\<close>

definition reverse_wire_finish :: "int \<Rightarrow> string \<Rightarrow> transfer \<Rightarrow> bank \<Rightarrow> bank" where
  "reverse_wire_finish now txId t s =
     (case account_of s (tr_fromAccountId t) of
        None \<Rightarrow> s
      | Some a \<Rightarrow>
          (let s1 = emit (EvAccountBalanceChanged (a_userId a) (a_id a) (a_balanceCents a) now) s;
               s2 = emit (EvTransactionCreated (a_userId a) (tr_fromAccountId t) txId (tr_amountCents t + tr_feeCents t) TxPosted now None) s1
           in if truthy_str (tr_pendingTransactionId t)
              then emit (EvTransactionUpdated (a_userId a) (tr_fromAccountId t) (the (tr_pendingTransactionId t))
                     (Some \<lparr>ef_amountCents = - (tr_amountCents t + tr_feeCents t), ef_occurredAt = now,
                            ef_description = ''Wire (reversed)'', ef_category = CatTransfer, ef_status = TxReversed\<rparr>) False now) s2
              else s2))"

definition reversal_note :: "string \<Rightarrow> transfer \<Rightarrow> string \<Rightarrow> note_input" where
  "reversal_note userId t reason =
     \<lparr>ni_userId = userId, ni_category = NcTransaction, ni_title = ''Wire reversed'',
      ni_body = ''Your wire of '' @ wire_formatCents (tr_amountCents t) @ '' was reversed by support. Reason: '' @ reason,
      ni_ctaUrl = Some ''/home/spending''\<rparr>"

definition reverse_wire ::
  "int \<Rightarrow> string \<times> string \<Rightarrow> string \<Rightarrow> string \<Rightarrow> string \<Rightarrow> bank \<times> notes_state \<Rightarrow> (bank \<times> notes_state) result" where
  "reverse_wire now ids actorUserId transferId reason st =
     ebind (reverse_wire_check transferId (fst st)) (\<lambda>t.
     ebind (reverse_wire_commit now (fst ids) actorUserId t reason (fst st)) (\<lambda>s1.
     Inr (reverse_wire_finish now (fst ids) t s1,
          case account_of s1 (tr_fromAccountId t) of
            None \<Rightarrow> snd st
          | Some a \<Rightarrow> try_note now (snd ids) (reversal_note (a_userId a) t reason) (snd st))))"

section \<open>What a reversal does to the books\<close>

lemma reversal_postings_balanced:
  "2 \<le> length (reversal_postings i a f)"
  "sum_direction Debit (reversal_postings i a f) = sum_direction Credit (reversal_postings i a f)"
  by (simp_all add: reversal_postings_def sum_direction_def)

lemma reversal_postings_net:
  "0 \<le> f \<Longrightarrow> input_net (accountSubLedgerCode k) (reversal_postings i a f) = - input_net (accountSubLedgerCode k) (pending_postings i a f)"
  by (auto simp: reversal_postings_def pending_postings_def input_net_Cons input_net_append input_net_Nil ledger_simps)

lemma reversal_system_net: "input_net PendingOut (reversal_postings i a f) = 0" "input_net Cash (reversal_postings i a f) = - a"
  by (simp_all add: reversal_postings_def input_net_Cons input_net_append input_net_Nil ledger_simps)

lemma reverse_wire_check_Inr:
  "reverse_wire_check i s = Inr t \<longleftrightarrow> transfer_of s i = Some t \<and> tr_kind t = WireOut \<and> tr_status t \<noteq> TxReversed"
  by (auto simp: reverse_wire_check_def err_simps)

lemma reverse_wire_commit_Inr:
  assumes "reverse_wire_commit now txId u t r s = Inr s'"
  shows "account_of s (tr_fromAccountId t) \<noteq> None"
    and "db_accounts s' = credit_rows (tr_fromAccountId t) (tr_amountCents t + tr_feeCents t) (db_accounts s)"
    and "db_postings s' = db_postings s @ map (mk_posting (length (db_journal s)))
           (reversal_postings (tr_fromAccountId t) (tr_amountCents t) (tr_feeCents t))"
    and "db_transfers s' = update_many (\<lambda>x. tr_id x = tr_id t)
           (\<lambda>x. x\<lparr>tr_status := TxReversed, tr_failureReason := Some r,
                  tr_settledAt := (case tr_settledAt t of Some w \<Rightarrow> Some w | None \<Rightarrow> Some now)\<rparr>) (db_transfers s)"
    and "ledger_inv s \<Longrightarrow> ledger_inv s'"
proof -
  obtain a e s2 txs where a: "account_of s (tr_fromAccountId t) = Some a"
    and p: "post \<lparr>ji_description = ''Reverse wire (admin: '' @ u @ '')'', ji_occurredAt = now,
                  ji_source = ''transfer:'' @ tr_id t @ '':admin-reverse'', ji_referenceId = Some (tr_id t),
                  ji_postings = reversal_postings (a_id a) (tr_amountCents t) (tr_feeCents t)\<rparr>
        ((ensureAccountLedger (a_id a) (a_userId a) s)
          \<lparr>db_accounts := credit_rows (a_id a) (tr_amountCents t + tr_feeCents t) (db_accounts s)\<rparr>) = Inr (e, s2)"
    and s': "s' = s2\<lparr>db_transactions := mark_reversed now t txs, db_transfers := update_many (\<lambda>x. tr_id x = tr_id t)
           (\<lambda>x. x\<lparr>tr_status := TxReversed, tr_failureReason := Some r,
                  tr_settledAt := (case tr_settledAt t of Some w \<Rightarrow> Some w | None \<Rightarrow> Some now)\<rparr>) (db_transfers s2)\<rparr>"
    using assms by (auto simp: reverse_wire_commit_def err_simps credit_rows_def)
  let ?s0 = "ensureAccountLedger (a_id a) (a_userId a) s"
  let ?s1 = "?s0\<lparr>db_accounts := credit_rows (a_id a) (tr_amountCents t + tr_feeCents t) (db_accounts s)\<rparr>"
  have aid: "a_id a = tr_fromAccountId t" using a by (blast dest: find_unique_SomeD)
  show "account_of s (tr_fromAccountId t) \<noteq> None" using a by simp
  show "db_accounts s' = credit_rows (tr_fromAccountId t) (tr_amountCents t + tr_feeCents t) (db_accounts s)"
    "db_postings s' = db_postings s @ map (mk_posting (length (db_journal s)))
       (reversal_postings (tr_fromAccountId t) (tr_amountCents t) (tr_feeCents t))"
    "db_transfers s' = update_many (\<lambda>x. tr_id x = tr_id t)
       (\<lambda>x. x\<lparr>tr_status := TxReversed, tr_failureReason := Some r,
              tr_settledAt := (case tr_settledAt t of Some w \<Rightarrow> Some w | None \<Rightarrow> Some now)\<rparr>) (db_transfers s)"
    using post_frame [OF p] aid by (simp_all add: s')
  have "ledger_inv s \<Longrightarrow> ledger_inv s2"
    using ledger_inv_ensure ledger_inv_cong [of ?s1 ?s0] ledger_inv_post [OF p] by simp
  then show "ledger_inv s \<Longrightarrow> ledger_inv s'" using ledger_inv_cong [of s' s2] by (simp add: s')
qed

lemma reverse_wire_finish_frame [simp]:
  "db_accounts (reverse_wire_finish n i t s) = db_accounts s" "db_postings (reverse_wire_finish n i t s) = db_postings s"
  "db_journal (reverse_wire_finish n i t s) = db_journal s" "db_ledgerAccounts (reverse_wire_finish n i t s) = db_ledgerAccounts s"
  "db_transfers (reverse_wire_finish n i t s) = db_transfers s" "db_transactions (reverse_wire_finish n i t s) = db_transactions s"
  by (simp_all add: reverse_wire_finish_def Let_def split: option.split)

lemma reverse_wire_cases:
  assumes "reverse_wire now ids u i r (s, ns) = Inr (s', ns')"
  obtains t s1 where "transfer_of s i = Some t" "tr_kind t = WireOut" "tr_status t \<noteq> TxReversed"
    "reverse_wire_commit now (fst ids) u t r s = Inr s1" "s' = reverse_wire_finish now (fst ids) t s1"
  using assms by (auto simp: reverse_wire_def err_simps reverse_wire_check_Inr)

lemma reverse_wire_keeps_ledger:
  assumes "reverse_wire now ids u i r (s, ns) = Inr (s', ns')" "\<And>t. transfer_of s i = Some t \<Longrightarrow> 0 \<le> tr_feeCents t"
  shows "(ledger_inv s \<longrightarrow> ledger_inv s') \<and> drift s' k = drift s k"
  using assms(1)
proof (cases rule: reverse_wire_cases)
  case (1 t s1)
  have "drift s1 k = drift s k"
    using assms(2) [OF 1(1)]
    by (intro drift_cong [OF reverse_wire_commit_Inr(2) [OF 1(4), unfolded credit_rows_def] reverse_wire_commit_Inr(3) [OF 1(4)]])
      (simp_all add: ledger_simps reversal_postings_net)
  then show ?thesis
    using reverse_wire_commit_Inr(5) [OF 1(4)] 1(5) ledger_inv_cong [of s' s1] drift_same [of s' s1] by simp
qed

lemma approve_wire_keeps_ledger:
  assumes "approve_wire now q ids u i r s = Inr s'"
  shows "(ledger_inv s \<longrightarrow> ledger_inv s') \<and> drift s' k = drift s k"
proof -
  let ?s1 = "stamp_approved now u i r s"
  let ?s2 = "snd (forceSettle now q ids i ?s1)"
  have s': "s' = emit (EvAdminQueueChanged (-1)) ?s2" using assms by (auto simp: approve_wire_def err_simps)
  have "ledger_inv ?s1 = ledger_inv s" "drift ?s1 k = drift s k" "ledger_inv s' = ledger_inv ?s2" "drift s' k = drift ?s2 k"
    by (rule ledger_inv_cong drift_same; simp add: stamp_approved_def s')+
  then show ?thesis using forceSettle_keeps_ledger [of ?s1 now q ids i k] by simp
qed

section \<open>Properties\<close>


text \<open>Reversing a wire that was never settled leaves its money in suspense: the reversal is posted
  against CASH, so PENDING_OUT still holds the amount of a wire that no longer exists, and CASH lacks it.\<close>

theorem pending_reversal_strands_suspense:
  assumes "reverse_wire now ids u i r (s, ns) = Inr (s', ns')" "transfer_of s i = Some t"
  shows "net_of s' PendingOut = net_of s PendingOut \<and> net_of s' Cash = net_of s Cash - tr_amountCents t"
  using assms(1)
proof (cases rule: reverse_wire_cases)
  case (1 t' s1)
  then have "t' = t" using assms(2) by simp
  then show ?thesis using reverse_wire_commit_Inr(3) [OF 1(4)] 1(5)
    by (simp add: net_of_def net_append net_map_mk reversal_system_net)
qed

text \<open>A reversed wire can still be approved: the approval asks only whether the wire was reviewed, and
  then resets and settles it, so the customer has the refund and the wire leaves as well.\<close>

theorem reversed_wire_still_approvable:
  assumes "reverse_wire now ids u i r (s, ns) = Inr (s1, ns1)" "transfer_of s i = Some t" "tr_requiresReview t" "tr_reviewedAt t = None"
  shows "\<exists>s2 x. approve_wire now' True ids' u' i reason s1 = Inr s2 \<and> settle_check i s2 = Some x \<and>
           tr_amountCents x = tr_amountCents t \<and> QueuedJob i 0 \<in> set (jobs s2)"
  using assms(1)
proof (cases rule: reverse_wire_cases)
  case (1 t' s0)
  then have "t' = t" using assms(2) by simp
  then have t: "tr_kind t = WireOut" "tr_id t = i" using 1 assms(2) by (blast dest: find_unique_SomeD)+
  let ?y = "t\<lparr>tr_status := TxReversed, tr_failureReason := Some r, tr_settledAt := (case tr_settledAt t of Some w \<Rightarrow> Some w | None \<Rightarrow> Some now)\<rparr>"
  have y: "transfer_of s1 i = Some ?y"
    using 1(5) reverse_wire_commit_Inr(4) [OF 1(4)] assms(2) t(2) \<open>t' = t\<close> by (simp add: table_simps)
  let ?z = "?y\<lparr>tr_reviewDecision := Some Approved, tr_reviewedAt := Some now', tr_reviewedByUserId := Some u', tr_reviewReason := reason\<rparr>"
  have z: "transfer_of (stamp_approved now' u' i reason s1) i = Some ?z" using y by (simp add: stamp_approved_def table_simps)
  have "approve_wire_check i s1 = Inr ?y" using y t assms(3,4) by (simp add: approve_wire_check_def require_def)
  then show ?thesis using z
    by (simp add: approve_wire_def forceSettle_def Let_def reset_pending_def settle_check_def table_simps emit_def)
qed

lemma trim_idem [simp]: "js_trim (js_trim x) = js_trim x"
proof -
  have "dropWhile is_space (rev (dropWhile is_space (rev (dropWhile is_space x)))) = rev (dropWhile is_space (rev (dropWhile is_space x)))"
  proof (cases "dropWhile is_space x")
    case (Cons c cs)
    then have "\<not> is_space c" using hd_dropWhile [of is_space x] by simp
    then have "\<exists>ys. rev (dropWhile is_space (rev (dropWhile is_space x))) = c # ys"
      using Cons by (simp add: dropWhile_append split: if_splits) (metis append_Cons rev.simps(2) rev_rev_ident dropWhile_eq_Nil_conv)
    then show ?thesis using \<open>\<not> is_space c\<close> by auto
  qed (simp only: rev.simps dropWhile.simps)
  then show ?thesis by (simp add: js_trim_def)
qed

text \<open>The list and the customer's check agree: a local beneficiary the administrator has just created
  is accepted when a customer wires to its IBAN under its name, with whatever spacing and case.\<close>

theorem curated_beneficiary_accepted:
  assumes "createBeneficiary now newId u dto s = Inr s1" "bd_type dto = WireLocal"
    and "norm_iban typed = norm_iban (bd_iban dto)" "norm_label (Some name) = norm_label (Some (bd_name dto))"
  shows "fst (verifyBeneficiary WireLocal None (Some name) None typed s1)"
proof -
  let ?b = "fill_beneficiary dto (blank_beneficiary now newId u)"
  have v: "bh_iban (norm_iban (bd_iban dto))" and s1: "db_beneficiaries s1 = db_beneficiaries s @ [?b]"
    using assms(1,2) by (auto simp: createBeneficiary_def validateShape_def err_simps)
  have n: "norm_iban typed \<noteq> ''''" using v assms(3) by (auto simp: bh_iban_def)
  have ib: "wb_iban ?b = Some (norm_iban typed)"
    using v assms(3) by (cases "bd_iban dto") (auto simp: fill_beneficiary_def norm_iban_def bh_iban_def js_trim_def to_upper_def strip_spaces_def)
  have lab: "norm_label (Some (wb_name ?b)) = norm_label (Some name)" using assms(4) by (simp add: fill_beneficiary_def norm_label_def)
  define cs where "cs = filter (\<lambda>b. wb_iban b = Some (norm_iban typed))
      (filter (\<lambda>b. wb_archivedAt b = None \<and> wb_type b = WireLocal) (db_beneficiaries s1))"
  have mem: "?b \<in> set cs" using ib assms(2) by (simp add: cs_def s1 fill_beneficiary_def blank_beneficiary_def)
  then obtain c0 rest where cs: "cs = c0 # rest" by (cases cs) auto
  have e: "norm_label None = ''''" by (simp add: norm_label_def js_trim_def to_lower_def)
  have m: "verifyBeneficiary WireLocal None (Some name) None typed s1 = match_label cs '''' (norm_label (Some name))"
    unfolding verifyBeneficiary_def cs_def Let_def e using n by simp
  show ?thesis
  proof (cases "norm_label (Some name) = ''''")
    case True
    then show ?thesis by (simp add: m match_label_def cs)
  next
    case False
    then have "find_first (\<lambda>c. norm_label (Some (wb_name c)) = norm_label (Some name)) cs \<noteq> None"
      using mem lab by (auto simp: find_first_def find_None_iff)
    then show ?thesis using False by (auto simp: m match_label_def cs)
  qed
qed


end
