(* ===== verification/Admin_Transactions.thy ===== *)
theory Admin_Transactions
  imports Ledger
begin

text \<open>
  Admin edits of customer transactions (\<^verbatim>\<open>admin/transactions/admin-transactions.service.ts\<close>). A
  row is never rewritten: an override row shadows its fields, and a change of amount is booked by a
  compensating entry against ADJUSTMENTS together with an update of the cached balance. The
  per-minute rate limit keeps its counters in the Redis cache, a list of keys with value and expiry.
  Foreign keys guarantee that a transaction's account exists; the joins return nothing otherwise.
\<close>

definition ADJUSTMENTS_CODE :: string where "ADJUSTMENTS_CODE = ''ADJUSTMENTS''"

abbreviation override_of :: "bank \<Rightarrow> string \<Rightarrow> tx_override option" where
  "override_of s i \<equiv> find_unique o_transactionId i (db_overrides s)"

fun txStatusToOverrideStatus :: "tx_status \<Rightarrow> override_status" where
  "txStatusToOverrideStatus TxPending = OvPending"
| "txStatusToOverrideStatus TxPosted = OvSettled"
| "txStatusToOverrideStatus TxDeclined = OvDeclined"
| "txStatusToOverrideStatus TxReversed = OvReversed"

fun overrideStatusToTxStatus :: "override_status \<Rightarrow> tx_status" where
  "overrideStatusToTxStatus OvPending = TxPending"
| "overrideStatusToTxStatus OvSettled = TxPosted"
| "overrideStatusToTxStatus OvDeclined = TxDeclined"
| "overrideStatusToTxStatus OvReversed = TxReversed"
| "overrideStatusToTxStatus OvHidden = TxReversed"

text \<open>\<open>o?.f ?? v\<close>.\<close>

definition shadow :: "tx_override option \<Rightarrow> (tx_override \<Rightarrow> 'a option) \<Rightarrow> 'a \<Rightarrow> 'a" where
  "shadow ov f v = (case Option.bind ov f of None \<Rightarrow> v | Some x \<Rightarrow> x)"

definition effectiveOf :: "transaction \<Rightarrow> tx_override option \<Rightarrow> effective_fields" where
  "effectiveOf t ov =
     \<lparr>ef_amountCents = shadow ov o_amountCents (t_amountCents t),
      ef_occurredAt = shadow ov o_occurredAt (t_occurredAt t),
      ef_description = shadow ov o_description (t_description t),
      ef_category = shadow ov o_category (t_category t),
      ef_status = (case Option.bind ov o_status of
                     Some os \<Rightarrow> overrideStatusToTxStatus os | None \<Rightarrow> t_status t)\<rparr>"

definition isHidden :: "tx_override option \<Rightarrow> bool" where
  "isHidden ov = (Option.bind ov o_status = Some OvHidden)"

definition findWithOverride :: "string \<Rightarrow> bank \<Rightarrow> (transaction \<times> account \<times> tx_override option) option" where
  "findWithOverride i s =
     (case transaction_of s i of None \<Rightarrow> None
      | Some t \<Rightarrow> (case account_of s (t_accountId t) of None \<Rightarrow> None
                   | Some a \<Rightarrow> Some (t, a, override_of s i)))"

section \<open>Rate limit\<close>

type_synonym counters = "(string \<times> int \<times> int) list"

definition cache_get :: "int \<Rightarrow> string \<Rightarrow> counters \<Rightarrow> int option" where
  "cache_get now key c = (case map_of c key of None \<Rightarrow> None
     | Some (v, expires) \<Rightarrow> if now < expires then Some v else None)"

definition cache_set :: "int \<Rightarrow> string \<Rightarrow> int \<Rightarrow> int \<Rightarrow> counters \<Rightarrow> counters" where
  "cache_set now key v ttlSec c = (key, v, now + ttlSec * 1000) # c"

definition rate_key :: "int \<Rightarrow> string \<Rightarrow> string" where
  "rate_key now actorUserId = ''override-rate:'' @ actorUserId @ '':'' @ show_int (now div 60000)"

definition assertRate :: "int \<Rightarrow> int \<Rightarrow> string \<Rightarrow> counters \<Rightarrow> counters result" where
  "assertRate rateLimit now actorUserId c =
     (let recent = (case cache_get now (rate_key now actorUserId) c of None \<Rightarrow> 0 | Some v \<Rightarrow> v)
      in if recent \<ge> rateLimit then Inl (Forbidden ''Override rate limit exceeded'')
         else Inr (cache_set now (rate_key now actorUserId) (recent + 1) 90 c))"

text \<open>A handler behind the limit: the counter moves even when the handler then throws.\<close>

definition with_rate ::
  "int \<Rightarrow> int \<Rightarrow> string \<Rightarrow> (bank \<Rightarrow> bank result) \<Rightarrow> counters \<times> bank \<Rightarrow> unit result \<times> counters \<times> bank" where
  "with_rate rateLimit now actorUserId h cs =
     (case assertRate rateLimit now actorUserId (fst cs) of
        Inl e \<Rightarrow> (Inl e, cs)
      | Inr c \<Rightarrow> (case h (snd cs) of Inl e \<Rightarrow> (Inl e, c, snd cs) | Inr s \<Rightarrow> (Inr (), c, s)))"

section \<open>Shared steps\<close>

definition adjustment_meta :: posting_meta where
  "adjustment_meta = \<lparr>pm_ownerUserId = None, pm_type = Some Expense, pm_normalBalance = Some Debit\<rparr>"

definition adjustment_postings :: "string \<Rightarrow> int \<Rightarrow> posting_input list" where
  "adjustment_postings accountId delta =
     (if delta > 0
      then [\<lparr>pi_code = ADJUSTMENTS_CODE, pi_direction = Debit, pi_amountCents = delta, pi_meta = Some adjustment_meta\<rparr>,
            \<lparr>pi_code = accountSubLedgerCode accountId, pi_direction = Credit, pi_amountCents = delta, pi_meta = None\<rparr>]
      else [\<lparr>pi_code = accountSubLedgerCode accountId, pi_direction = Debit, pi_amountCents = - delta, pi_meta = None\<rparr>,
            \<lparr>pi_code = ADJUSTMENTS_CODE, pi_direction = Credit, pi_amountCents = - delta, pi_meta = Some adjustment_meta\<rparr>])"

definition adjustment_journal :: "int \<Rightarrow> string \<Rightarrow> int \<Rightarrow> string \<Rightarrow> journal_input" where
  "adjustment_journal now accountId delta referenceId =
     \<lparr>ji_description = ''Override adjustment '' @ (if delta \<ge> 0 then ''+'' else '''') @ show_int delta,
      ji_occurredAt = now, ji_source = ''transaction:'' @ referenceId @ '':override'',
      ji_referenceId = Some referenceId, ji_postings = adjustment_postings accountId delta\<rparr>"

definition writeCompensatingEntry ::
  "int \<Rightarrow> string \<Rightarrow> string \<Rightarrow> int \<Rightarrow> string \<Rightarrow> bank \<Rightarrow> (nat \<times> bank) result" where
  "writeCompensatingEntry now accountId userId delta referenceId s =
     post (adjustment_journal now accountId delta referenceId) (ensureAccountLedger accountId userId s)"

text \<open>The entry and the update of the cached balance, which the handlers always perform together.\<close>

definition adjust :: "int \<Rightarrow> string \<Rightarrow> string \<Rightarrow> int \<Rightarrow> string \<Rightarrow> bank \<Rightarrow> (nat option \<times> bank) result" where
  "adjust now accountId userId delta referenceId s =
     (if delta = 0 then Inr (None, s)
      else ebind (writeCompensatingEntry now accountId userId delta referenceId s) (\<lambda>(e, s1).
           ebind (credit_account accountId delta s1) (\<lambda>s2. Inr (Some e, s2))))"

definition upsert_override :: "(tx_override \<Rightarrow> tx_override) \<Rightarrow> tx_override \<Rightarrow> bank \<Rightarrow> bank" where
  "upsert_override upd new s =
     s\<lparr>db_overrides :=
        (case override_of s (o_transactionId new) of
           None \<Rightarrow> db_overrides s @ [new]
         | Some _ \<Rightarrow> update_many (\<lambda>x. o_transactionId x = o_transactionId new) upd (db_overrides s))\<rparr>"

definition emitTxUpdated :: "int \<Rightarrow> string \<Rightarrow> bool \<Rightarrow> bank \<Rightarrow> bank" where
  "emitTxUpdated now i hidden s =
     (case findWithOverride i s of
        None \<Rightarrow> s
      | Some (t, a, ov) \<Rightarrow>
          emit (EvTransactionUpdated (a_userId a) (t_accountId t) (t_id t)
            (if hidden then None else Some (effectiveOf t ov)) hidden now) s)"

definition emitBalance :: "int \<Rightarrow> string \<Rightarrow> bank \<Rightarrow> bank" where
  "emitBalance now accountId s =
     (case account_of s accountId of
        None \<Rightarrow> s
      | Some a \<Rightarrow> emit (EvAccountBalanceChanged (a_userId a) accountId (a_balanceCents a) now) s)"

section \<open>Handlers\<close>

record patch_dto =
  pd_amountCents :: "int option"
  pd_occurredAt :: "int option"
  pd_description :: "string option"
  pd_category :: "tx_category option"
  pd_status :: "tx_status option"
  pd_reason :: string
  pd_forceAllowNegative :: bool

definition nullish :: "'a option \<Rightarrow> 'a option \<Rightarrow> 'a option" where
  "nullish a b = (case a of None \<Rightarrow> b | Some x \<Rightarrow> Some x)"

text \<open>The amount the row will show, and how far the balance has to move. The second use of the
  override's amount is a truth test, which an amount of zero fails.\<close>

definition patch_amount :: "patch_dto \<Rightarrow> transaction \<Rightarrow> tx_override option \<Rightarrow> int" where
  "patch_amount dto t ov = (case pd_amountCents dto of Some a \<Rightarrow> a | None \<Rightarrow> shadow ov o_amountCents (t_amountCents t))"

definition patch_delta :: "patch_dto \<Rightarrow> transaction \<Rightarrow> tx_override option \<Rightarrow> int" where
  "patch_delta dto t ov =
     patch_amount dto t ov - t_amountCents t -
     (case Option.bind ov o_amountCents of
        Some a \<Rightarrow> if a \<noteq> 0 then a - t_amountCents t else 0
      | None \<Rightarrow> 0)"

definition patch_row :: "string \<Rightarrow> string \<Rightarrow> patch_dto \<Rightarrow> tx_override option \<Rightarrow> nat option \<Rightarrow> tx_override" where
  "patch_row actorUserId i dto ov entry =
     \<lparr>o_transactionId = i,
      o_amountCents = nullish (pd_amountCents dto) (Option.bind ov o_amountCents),
      o_occurredAt = nullish (pd_occurredAt dto) (Option.bind ov o_occurredAt),
      o_description = nullish (pd_description dto) (Option.bind ov o_description),
      o_category = nullish (pd_category dto) (Option.bind ov o_category),
      o_status = nullish (map_option txStatusToOverrideStatus (pd_status dto)) (Option.bind ov o_status),
      o_compensatingEntryId = nullish entry (Option.bind ov o_compensatingEntryId),
      o_appliedByUserId = actorUserId, o_reason = Some (pd_reason dto)\<rparr>"

definition balance_guard :: "bool \<Rightarrow> string \<Rightarrow> int \<Rightarrow> bank \<Rightarrow> unit result" where
  "balance_guard force accountId delta s =
     (if delta \<noteq> 0 \<and> \<not> force
      then ebind (or_throw (NotFound ''Account not found'') (account_of s accountId)) (\<lambda>a.
           require (\<not> a_balanceCents a + delta < 0) (Conflict ''BALANCE_WOULD_GO_NEGATIVE''))
      else Inr ())"

definition patch :: "int \<Rightarrow> string \<Rightarrow> string \<Rightarrow> patch_dto \<Rightarrow> bank \<Rightarrow> bank result" where
  "patch now actorUserId i dto s =
     ebind (or_throw (NotFound ''Transaction not found'') (findWithOverride i s)) (\<lambda>(t, a, ov).
     let delta = patch_delta dto t ov in
     ebind (balance_guard (pd_forceAllowNegative dto) (t_accountId t) delta s) (\<lambda>_.
     ebind (adjust now (t_accountId t) (a_userId a) delta i s) (\<lambda>(entry, s1).
     let row = patch_row actorUserId i dto ov entry;
         s2 = upsert_override (\<lambda>_. row) row s1;
         s3 = audit_write now actorUserId ''transaction.override.patch'' ''transaction'' i
                [(''before'', AvEffective (effectiveOf t ov)), (''after'', AvEffective (effectiveOf t (override_of s2 i))),
                 (''reason'', AvText (pd_reason dto))] s2;
         s4 = emitTxUpdated now i False s3
     in Inr (if delta \<noteq> 0 then emitBalance now (t_accountId t) s4 else s4))))"

record create_dto =
  cd_accountId :: string
  cd_amountCents :: int
  cd_occurredAt :: int
  cd_description :: string
  cd_category :: tx_category
  cd_status :: tx_status
  cd_kind :: "tx_kind option"
  cd_reason :: string
  cd_forceAllowNegative :: bool

definition tx_kind_name :: "tx_kind \<Rightarrow> string" where
  "tx_kind_name k = (case k of KCardPurchase \<Rightarrow> ''card_purchase'' | KAchIn \<Rightarrow> ''ach_in'' | KAchOut \<Rightarrow> ''ach_out''
     | KP2pIn \<Rightarrow> ''p2p_in'' | KP2pOut \<Rightarrow> ''p2p_out'' | KFee \<Rightarrow> ''fee'' | KInterest \<Rightarrow> ''interest''
     | KDeposit \<Rightarrow> ''deposit'' | KRefund \<Rightarrow> ''refund'' | KAdjustment \<Rightarrow> ''adjustment'')"

definition created_row :: "string \<Rightarrow> create_dto \<Rightarrow> transaction" where
  "created_row txId dto =
     \<lparr>t_id = txId, t_accountId = cd_accountId dto,
      t_kind = (case cd_kind dto of Some k \<Rightarrow> k | None \<Rightarrow> KAdjustment), t_status = cd_status dto,
      t_amountCents = cd_amountCents dto, t_description = cd_description dto, t_category = cd_category dto,
      t_note = None, t_occurredAt = cd_occurredAt dto,
      t_postedAt = (if cd_status dto = TxPosted then Some (cd_occurredAt dto) else None), t_metadata = None\<rparr>"

definition create_transaction :: "int \<Rightarrow> string \<Rightarrow> string \<Rightarrow> create_dto \<Rightarrow> bank \<Rightarrow> bank result" where
  "create_transaction now txId actorUserId dto s =
     ebind (or_throw (NotFound ''Account not found'') (account_of s (cd_accountId dto))) (\<lambda>a.
     let amount = cd_amountCents dto; row = created_row txId dto in
     ebind (require (amount \<noteq> 0) (BadRequest ''Amount cannot be zero'')) (\<lambda>_.
     ebind (require (cd_forceAllowNegative dto \<or> \<not> a_balanceCents a + amount < 0)
              (Conflict ''BALANCE_WOULD_GO_NEGATIVE'')) (\<lambda>_.
     ebind (create_unique ''id'' t_id row (db_transactions s)) (\<lambda>txs.
     ebind (adjust now (cd_accountId dto) (a_userId a) amount txId (s\<lparr>db_transactions := txs\<rparr>)) (\<lambda>(_, s1).
     let s2 = audit_write now actorUserId ''transaction.create'' ''transaction'' txId
                [(''accountId'', AvText (t_accountId row)), (''amountCents'', AvText (show_int amount)),
                 (''status'', AvStatus (t_status row)), (''description'', AvText (t_description row)),
                 (''category'', AvCategory (t_category row)), (''reason'', AvText (cd_reason dto))] s1;
         s3 = emit (EvTransactionCreated (a_userId a) (t_accountId row) txId amount (t_status row) now
                (Some (t_description row, t_category row, tx_kind_name (t_kind row)))) s2
     in Inr (emitBalance now (cd_accountId dto) s3))))))"

definition delete_transaction :: "int \<Rightarrow> string \<Rightarrow> string \<Rightarrow> string \<Rightarrow> bank \<Rightarrow> bank result" where
  "delete_transaction now actorUserId i reason s =
     ebind (or_throw (NotFound ''Transaction not found'') (findWithOverride i s)) (\<lambda>(t, a, ov).
     let amount = ef_amountCents (effectiveOf t ov) in
     ebind (adjust now (t_accountId t) (a_userId a) (- amount) i s) (\<lambda>(_, s1).
     ebind (if ov = None then Inr (db_overrides s1) else delete_unique o_transactionId i (db_overrides s1)) (\<lambda>ovs.
     ebind (delete_unique t_id i (db_transactions s1)) (\<lambda>txs.
     let s2 = s1\<lparr>db_overrides := ovs, db_transactions := txs\<rparr>;
         s3 = audit_write now actorUserId ''transaction.delete'' ''transaction'' i
                [(''accountId'', AvText (t_accountId t)), (''effectiveAmountCents'', AvText (show_int amount)),
                 (''reason'', AvText reason)] s2;
         s4 = emit (EvTransactionUpdated (a_userId a) (t_accountId t) i None True now) s3
     in Inr (if amount \<noteq> 0 then emitBalance now (t_accountId t) s4 else s4)))))"

definition blank_override :: "string \<Rightarrow> string \<Rightarrow> string \<Rightarrow> tx_override" where
  "blank_override i actorUserId reason =
     \<lparr>o_transactionId = i, o_amountCents = None, o_occurredAt = None, o_description = None,
      o_category = None, o_status = None, o_compensatingEntryId = None,
      o_appliedByUserId = actorUserId, o_reason = Some reason\<rparr>"

definition hide :: "int \<Rightarrow> string \<Rightarrow> string \<Rightarrow> string \<Rightarrow> bank \<Rightarrow> bank result" where
  "hide now actorUserId i reason s =
     ebind (or_throw (NotFound ''Transaction not found'') (findWithOverride i s)) (\<lambda>_.
     let s1 = upsert_override
                (\<lambda>x. x\<lparr>o_status := Some OvHidden, o_appliedByUserId := actorUserId, o_reason := Some reason\<rparr>)
                ((blank_override i actorUserId reason)\<lparr>o_status := Some OvHidden\<rparr>) s;
         s2 = audit_write now actorUserId ''transaction.override.hide'' ''transaction'' i
                [(''reason'', AvText reason)] s1
     in Inr (emitTxUpdated now i True s2))"

definition clearOverride :: "int \<Rightarrow> string \<Rightarrow> string \<Rightarrow> bank \<Rightarrow> bank result" where
  "clearOverride now actorUserId i s =
     (case findWithOverride i s of
        Some (t, a, Some ov) \<Rightarrow>
          (let deltaToRollback = (case o_amountCents ov of Some x \<Rightarrow> x - t_amountCents t | None \<Rightarrow> 0)
           in ebind (adjust now (t_accountId t) (a_userId a) (- deltaToRollback) i s) (\<lambda>(_, s1).
              ebind (delete_unique o_transactionId i (db_overrides s1)) (\<lambda>ovs.
              let s2 = audit_write now actorUserId ''transaction.override.clear'' ''transaction'' i
                         [(''rolledBackDelta'', AvText (show_int deltaToRollback))] (s1\<lparr>db_overrides := ovs\<rparr>);
                  s3 = emitTxUpdated now i False s2
              in Inr (if deltaToRollback \<noteq> 0 then emitBalance now (t_accountId t) s3 else s3))))
      | _ \<Rightarrow> Inl (NotFound ''No override to clear''))"

definition shift_one :: "int \<Rightarrow> string \<Rightarrow> int \<Rightarrow> string \<Rightarrow> string \<Rightarrow> nat \<times> bank \<Rightarrow> nat \<times> bank" where
  "shift_one now actorUserId shiftDays reason txId ns =
     (case findWithOverride txId (snd ns) of
        None \<Rightarrow> ns
      | Some (t, a, ov) \<Rightarrow>
          (let shifted = shadow ov o_occurredAt (t_occurredAt t) + shiftDays * 86400000;
               s1 = upsert_override
                 (\<lambda>x. x\<lparr>o_occurredAt := Some shifted, o_appliedByUserId := actorUserId, o_reason := Some reason\<rparr>)
                 ((blank_override txId actorUserId reason)\<lparr>o_occurredAt := Some shifted\<rparr>) (snd ns)
           in (fst ns + 1, emitTxUpdated now txId False s1)))"

definition bulkShift ::
  "int \<Rightarrow> string \<Rightarrow> user_role \<Rightarrow> string list \<Rightarrow> int \<Rightarrow> string \<Rightarrow> bank \<Rightarrow> (nat \<times> bank) result" where
  "bulkShift now actorUserId actorRole transactionIds shiftDays reason s =
     ebind (require (actorRole = SuperAdmin) (Forbidden ''Superadmin only'')) (\<lambda>_.
     ebind (require (transactionIds \<noteq> []) (BadRequest ''No transaction ids'')) (\<lambda>_.
     let (updated, s1) = fold (shift_one now actorUserId shiftDays reason) transactionIds (0, s)
     in Inr (updated, audit_write now actorUserId ''transaction.bulk_shift'' ''transaction_set''
          (join_with '','' transactionIds)
          [(''shiftDays'', AvInt shiftDays), (''count'', AvInt (int updated)), (''reason'', AvText reason)] s1)))"

section \<open>Lemmas\<close>

lemma adjustment_code_not_account [simp]:
  "ADJUSTMENTS_CODE \<noteq> accountSubLedgerCode i" "accountSubLedgerCode i \<noteq> ADJUSTMENTS_CODE"
  by (simp_all add: ADJUSTMENTS_CODE_def accountSubLedgerCode_def)

lemma adjustment_net [ledger_simps]:
  "input_net (accountSubLedgerCode k) (adjustment_postings i d) = (if k = i then d else 0)"
  by (simp add: adjustment_postings_def input_net_Cons input_net_Nil)

lemma adjustment_net_any:
  "input_net c (adjustment_postings i d) =
     (if c = accountSubLedgerCode i then d else 0) - (if c = ADJUSTMENTS_CODE then d else 0)"
  by (auto simp: adjustment_postings_def input_net_Cons input_net_Nil)

abbreviation add_balance :: "string \<Rightarrow> int \<Rightarrow> account list \<Rightarrow> account list" where
  "add_balance i d \<equiv> update_many (\<lambda>a. a_id a = i) (\<lambda>a. a\<lparr>a_balanceCents := a_balanceCents a + d\<rparr>)"

lemma add_balance_zero [simp]: "add_balance i 0 t = t"
  by (induction t) auto

text \<open>What \<open>adjust\<close> does, whether or not there is anything to book.\<close>

definition adjusted :: "string \<Rightarrow> int \<Rightarrow> bank \<Rightarrow> bank \<Rightarrow> bool" where
  "adjusted i d s s' \<longleftrightarrow>
     db_accounts s' = add_balance i d (db_accounts s) \<and>
     (\<exists>j. db_postings s' = db_postings s @ map (mk_posting (length (db_journal s))) j \<and>
        (\<forall>c. input_net c j = input_net c (adjustment_postings i d))) \<and>
     (d \<noteq> 0 \<longrightarrow> account_of s i \<noteq> None) \<and>
     db_transactions s' = db_transactions s \<and> db_overrides s' = db_overrides s \<and>
     db_transfers s' = db_transfers s \<and> db_users s' = db_users s \<and> bus s' = bus s \<and> jobs s' = jobs s \<and>
     (ledger_inv s \<longrightarrow> ledger_inv s')"

lemma adjusted_zero: "adjusted i 0 s s"
proof -
  have "db_postings s = db_postings s @ map (mk_posting (length (db_journal s))) []" by simp
  moreover have "input_net c [] = input_net c (adjustment_postings i 0)" for c
    by (simp add: adjustment_net_any input_net_Nil)
  ultimately show ?thesis unfolding adjusted_def by simp
qed

lemma adjust_adjusted:
  assumes "adjust now i u d r s = Inr (e, s')"
  shows "adjusted i d s s'"
proof (cases "d = 0")
  case True
  then show ?thesis using assms adjusted_zero by (simp add: adjust_def)
next
  case False
  obtain e1 s1 where p: "post (adjustment_journal now i d r) (ensureAccountLedger i u s) = Inr (e1, s1)"
    and ex: "account_of s1 i \<noteq> None"
    and s': "s' = s1\<lparr>db_accounts := add_balance i d (db_accounts s1)\<rparr>"
    using assms False by (auto simp: adjust_def writeCompensatingEntry_def err_simps)
  have "ledger_inv s \<Longrightarrow> ledger_inv s'"
    using ledger_inv_post [OF p] ledger_inv_ensure ledger_inv_cong [of s' s1] by (simp add: s')
  then show ?thesis using post_frame [OF p] ex
    by (auto simp: s' adjustment_journal_def adjusted_def)
qed

lemma adjust_Inr:
  assumes "adjust now i u d r s = Inr (e, s')"
  shows "db_accounts s' = add_balance i d (db_accounts s)"
    and "\<exists>j. db_postings s' = db_postings s @ map (mk_posting (length (db_journal s))) j \<and>
           (\<forall>c. input_net c j = input_net c (adjustment_postings i d))"
    and "d \<noteq> 0 \<Longrightarrow> account_of s i \<noteq> None"
    and "db_transactions s' = db_transactions s" "db_overrides s' = db_overrides s"
      "db_transfers s' = db_transfers s" "db_users s' = db_users s" "bus s' = bus s" "jobs s' = jobs s"
    and "ledger_inv s \<Longrightarrow> ledger_inv s'"
  using adjust_adjusted [OF assms] unfolding adjusted_def by blast+

lemma adjust_net:
  assumes "adjust now i u d r s = Inr (e, s')"
  shows "net_of s' c = net_of s c + (if c = accountSubLedgerCode i then d else 0) - (if c = ADJUSTMENTS_CODE then d else 0)"
  using adjust_Inr(2) [OF assms] by (auto simp: net_of_def ledger_simps adjustment_net_any)

lemma adjust_drift:
  assumes "adjust now i u d r s = Inr (e, s')"
  shows "drift s' k = drift s k"
proof -
  obtain j where p: "db_postings s' = db_postings s @ map (mk_posting (length (db_journal s))) j"
    and n: "\<And>c. input_net c j = input_net c (adjustment_postings i d)" using adjust_Inr(2) [OF assms] by blast
  show ?thesis
    by (intro drift_cong [OF adjust_Inr(1) [OF assms] p]) (simp_all add: n ledger_simps)
qed

lemma emit_frames [simp]:
  "db_accounts (emitTxUpdated n i h s) = db_accounts s" "db_postings (emitTxUpdated n i h s) = db_postings s"
  "db_journal (emitTxUpdated n i h s) = db_journal s" "db_ledgerAccounts (emitTxUpdated n i h s) = db_ledgerAccounts s"
  "db_transactions (emitTxUpdated n i h s) = db_transactions s" "db_overrides (emitTxUpdated n i h s) = db_overrides s"
  "db_transfers (emitTxUpdated n i h s) = db_transfers s"
  "db_accounts (emitBalance n i s) = db_accounts s" "db_postings (emitBalance n i s) = db_postings s"
  "db_journal (emitBalance n i s) = db_journal s" "db_ledgerAccounts (emitBalance n i s) = db_ledgerAccounts s"
  "db_transactions (emitBalance n i s) = db_transactions s" "db_overrides (emitBalance n i s) = db_overrides s"
  "db_transfers (emitBalance n i s) = db_transfers s"
  by (auto simp: emitTxUpdated_def emitBalance_def split: option.split)

lemma upsert_frames [simp]:
  "db_accounts (upsert_override f o' s) = db_accounts s" "db_postings (upsert_override f o' s) = db_postings s"
  "db_journal (upsert_override f o' s) = db_journal s" "db_ledgerAccounts (upsert_override f o' s) = db_ledgerAccounts s"
  "db_transactions (upsert_override f o' s) = db_transactions s" "db_transfers (upsert_override f o' s) = db_transfers s"
  by (simp_all add: upsert_override_def)

lemma override_of_upsert:
  assumes "\<And>x. o_transactionId (f x) = o_transactionId x \<or> o_transactionId (f x) = o_transactionId new"
  shows "override_of (upsert_override f new s) (o_transactionId new) =
    (case override_of s (o_transactionId new) of None \<Rightarrow> Some new | Some x \<Rightarrow> Some (f x))"
proof -
  have "find_unique o_transactionId k (update_many (\<lambda>x. o_transactionId x = k) f t) =
      map_option f (find_unique o_transactionId k t)" if "k = o_transactionId new" for k t
    using assms that by (induction t) (auto simp: update_many_def, metis+)
  then show ?thesis by (auto simp: upsert_override_def table_simps split: option.split)
qed

text \<open>The state in which an edit is complete agrees with an adjusted state on money.\<close>

lemma patch_Inr:
  assumes "patch now u i dto s = Inr s'"
  obtains t a ov e s1 where "findWithOverride i s = Some (t, a, ov)"
    "adjust now (t_accountId t) (a_userId a) (patch_delta dto t ov) i s = Inr (e, s1)"
    "pd_forceAllowNegative dto \<or> patch_delta dto t ov = 0 \<or> 0 \<le> a_balanceCents a + patch_delta dto t ov"
    "db_accounts s' = db_accounts s1" "db_postings s' = db_postings s1" "db_journal s' = db_journal s1"
    "db_ledgerAccounts s' = db_ledgerAccounts s1" "db_transactions s' = db_transactions s"
    "db_overrides s' = db_overrides (upsert_override (\<lambda>_. patch_row u i dto ov e) (patch_row u i dto ov e) s1)"
    "db_transfers s' = db_transfers s"
proof -
  obtain t a ov e s1 where f: "findWithOverride i s = Some (t, a, ov)"
    and g: "balance_guard (pd_forceAllowNegative dto) (t_accountId t) (patch_delta dto t ov) s = Inr ()"
    and j: "adjust now (t_accountId t) (a_userId a) (patch_delta dto t ov) i s = Inr (e, s1)"
    using assms by (auto simp: patch_def err_simps Let_def)
  have "pd_forceAllowNegative dto \<or> patch_delta dto t ov = 0 \<or> 0 \<le> a_balanceCents a + patch_delta dto t ov"
    using g f by (auto simp: balance_guard_def findWithOverride_def err_simps split: if_splits option.splits)
  then show ?thesis using assms f j adjust_Inr(4,6) [OF j]
    by (intro that [OF f j]) (auto simp: patch_def err_simps Let_def g split: if_splits)
qed

lemma findWithOverride_Some:
  "findWithOverride i s = Some (t, a, ov) \<longleftrightarrow>
     transaction_of s i = Some t \<and> account_of s (t_accountId t) = Some a \<and> ov = override_of s i"
  by (auto simp: findWithOverride_def split: option.splits)

lemma account_of_add_balance:
  "find_unique a_id k (add_balance i d t) =
     map_option (\<lambda>a. if k = i then a\<lparr>a_balanceCents := a_balanceCents a + d\<rparr> else a) (find_unique a_id k t)"
  by (simp add: table_simps option.map_ident)

text \<open>Handlers that end in the same money tables as an adjusted state keep the books.\<close>

lemma books_of_adjusted:
  assumes "adjust now i u d r s = Inr (e, s1)"
    and "db_accounts s' = db_accounts s1" "db_postings s' = db_postings s1" "db_journal s' = db_journal s1"
      "db_ledgerAccounts s' = db_ledgerAccounts s1"
  shows "(ledger_inv s \<longrightarrow> ledger_inv s') \<and> drift s' k = drift s k"
  using assms adjust_Inr(10) [OF assms(1)] adjust_drift [OF assms(1), of k] ledger_inv_cong [of s' s1]
    drift_same [of s' s1] by simp

lemma create_Inr:
  assumes "create_transaction now x u dto s = Inr s'"
  obtains a e s1 where "account_of s (cd_accountId dto) = Some a"
    "adjust now (cd_accountId dto) (a_userId a) (cd_amountCents dto) x
       (s\<lparr>db_transactions := db_transactions s @ [created_row x dto]\<rparr>) = Inr (e, s1)"
    "cd_forceAllowNegative dto \<or> 0 \<le> a_balanceCents a + cd_amountCents dto"
    "db_accounts s' = db_accounts s1" "db_postings s' = db_postings s1" "db_journal s' = db_journal s1"
    "db_ledgerAccounts s' = db_ledgerAccounts s1"
    "db_transactions s' = db_transactions s @ [created_row x dto]" "db_overrides s' = db_overrides s"
    "transaction_of s x = None"
proof -
  obtain a e s1 where f: "account_of s (cd_accountId dto) = Some a"
    and j: "adjust now (cd_accountId dto) (a_userId a) (cd_amountCents dto) x
       (s\<lparr>db_transactions := db_transactions s @ [created_row x dto]\<rparr>) = Inr (e, s1)"
    and r: "cd_forceAllowNegative dto \<or> 0 \<le> a_balanceCents a + cd_amountCents dto" "transaction_of s x = None"
      "t_id (created_row x dto) = x"
    using assms by (auto simp: create_transaction_def err_simps Let_def created_row_def)
  then show ?thesis using assms adjust_Inr(4,5) [OF j]
    by (intro that [OF f j]) (auto simp: create_transaction_def err_simps Let_def)
qed

lemma delete_Inr:
  assumes "delete_transaction now u i reason s = Inr s'"
  obtains t a ov e s1 where "findWithOverride i s = Some (t, a, ov)"
    "adjust now (t_accountId t) (a_userId a) (- ef_amountCents (effectiveOf t ov)) i s = Inr (e, s1)"
    "db_accounts s' = db_accounts s1" "db_postings s' = db_postings s1" "db_journal s' = db_journal s1"
    "db_ledgerAccounts s' = db_ledgerAccounts s1"
    "db_transactions s' = filter (\<lambda>x. t_id x \<noteq> i) (db_transactions s)" "override_of s' i = None"
proof -
  obtain t a ov e s1 ovs where f: "findWithOverride i s = Some (t, a, ov)"
    and j: "adjust now (t_accountId t) (a_userId a) (- ef_amountCents (effectiveOf t ov)) i s = Inr (e, s1)"
    and o: "(if ov = None then Inr (db_overrides s1) else delete_unique o_transactionId i (db_overrides s1)) = Inr ovs"
    and s': "db_accounts s' = db_accounts s1" "db_postings s' = db_postings s1" "db_journal s' = db_journal s1"
      "db_ledgerAccounts s' = db_ledgerAccounts s1" "db_overrides s' = ovs"
      "db_transactions s' = filter (\<lambda>x. t_id x \<noteq> i) (db_transactions s1)"
    using assms by (auto simp: delete_transaction_def err_simps Let_def)
  have "find_unique o_transactionId i ovs = None"
    using o f adjust_Inr(5) [OF j] by (auto simp: findWithOverride_Some err_simps table_simps split: if_splits)
  then show ?thesis using s' adjust_Inr(4) [OF j] by (intro that [OF f j]) auto
qed

lemma clear_Inr:
  assumes "clearOverride now u i s = Inr s'"
  obtains t a ov e s1 where "findWithOverride i s = Some (t, a, Some ov)"
    "adjust now (t_accountId t) (a_userId a)
       (- (case o_amountCents ov of Some x \<Rightarrow> x - t_amountCents t | None \<Rightarrow> 0)) i s = Inr (e, s1)"
    "db_accounts s' = db_accounts s1" "db_postings s' = db_postings s1" "db_journal s' = db_journal s1"
    "db_ledgerAccounts s' = db_ledgerAccounts s1" "db_transactions s' = db_transactions s"
    "db_overrides s' = filter (\<lambda>x. o_transactionId x \<noteq> i) (db_overrides s)"
proof -
  obtain t a ov where f: "findWithOverride i s = Some (t, a, Some ov)"
    using assms by (auto simp: clearOverride_def split: option.splits)
  then obtain e s1 where j: "adjust now (t_accountId t) (a_userId a)
       (- (case o_amountCents ov of Some x \<Rightarrow> x - t_amountCents t | None \<Rightarrow> 0)) i s = Inr (e, s1)"
    using assms by (auto simp: clearOverride_def err_simps Let_def)
  then show ?thesis using assms f adjust_Inr(4,5) [OF j]
    by (intro that [OF f j]) (auto simp: clearOverride_def err_simps Let_def)
qed

lemma hide_Inr:
  assumes "hide now u i reason s = Inr s'"
  shows "findWithOverride i s \<noteq> None" "db_accounts s' = db_accounts s" "db_postings s' = db_postings s"
    "db_journal s' = db_journal s" "db_ledgerAccounts s' = db_ledgerAccounts s" "db_transactions s' = db_transactions s"
    "isHidden (override_of s' i)"
proof -
  let ?f = "\<lambda>x. x\<lparr>o_status := Some OvHidden, o_appliedByUserId := u, o_reason := Some reason\<rparr>"
  let ?n = "(blank_override i u reason)\<lparr>o_status := Some OvHidden\<rparr>"
  have n: "o_transactionId ?n = i" by (simp add: blank_override_def)
  have "db_overrides s' = db_overrides (upsert_override ?f ?n s)"
    using assms by (auto simp: hide_def err_simps Let_def)
  then have "override_of s' i = (case override_of s i of None \<Rightarrow> Some ?n | Some x \<Rightarrow> Some (?f x))"
    using override_of_upsert [of ?f ?n s] n by simp
  then show "isHidden (override_of s' i)" by (auto simp: isHidden_def split: option.splits)
  show "findWithOverride i s \<noteq> None" "db_accounts s' = db_accounts s" "db_postings s' = db_postings s"
    "db_journal s' = db_journal s" "db_ledgerAccounts s' = db_ledgerAccounts s" "db_transactions s' = db_transactions s"
    using assms by (auto simp: hide_def err_simps Let_def)
qed

lemma shift_one_frame:
  "db_accounts (snd (shift_one now u d r i ns)) = db_accounts (snd ns)"
  "db_postings (snd (shift_one now u d r i ns)) = db_postings (snd ns)"
  "db_journal (snd (shift_one now u d r i ns)) = db_journal (snd ns)"
  "db_ledgerAccounts (snd (shift_one now u d r i ns)) = db_ledgerAccounts (snd ns)"
  "db_transfers (snd (shift_one now u d r i ns)) = db_transfers (snd ns)"
  by (auto simp: shift_one_def Let_def split: option.split)

lemma bulkShift_frame:
  assumes "bulkShift now u role ids d r s = Inr (n, s')"
  shows "db_accounts s' = db_accounts s" "db_postings s' = db_postings s"
    "db_journal s' = db_journal s" "db_ledgerAccounts s' = db_ledgerAccounts s" "db_transfers s' = db_transfers s"
proof -
  have "db_accounts (snd (fold (shift_one now u d r) xs ns)) = db_accounts (snd ns)"
    "db_postings (snd (fold (shift_one now u d r) xs ns)) = db_postings (snd ns)"
    "db_journal (snd (fold (shift_one now u d r) xs ns)) = db_journal (snd ns)"
    "db_ledgerAccounts (snd (fold (shift_one now u d r) xs ns)) = db_ledgerAccounts (snd ns)"
    "db_transfers (snd (fold (shift_one now u d r) xs ns)) = db_transfers (snd ns)" for xs ns
    by (induction xs arbitrary: ns) (simp_all add: shift_one_frame)
  from this [of ids "(0, s)"]
  show "db_accounts s' = db_accounts s" "db_postings s' = db_postings s"
    "db_journal s' = db_journal s" "db_ledgerAccounts s' = db_ledgerAccounts s" "db_transfers s' = db_transfers s"
    using assms by (auto simp: bulkShift_def err_simps split: prod.splits)
qed

section \<open>Properties\<close>

text \<open>One edit by an administrator, whichever handler performs it.\<close>

inductive admin_edit :: "bank \<Rightarrow> bank \<Rightarrow> bool" where
  edit_patch: "patch now u i dto s = Inr s' \<Longrightarrow> admin_edit s s'"
| edit_create: "create_transaction now x u cdto s = Inr s' \<Longrightarrow> admin_edit s s'"
| edit_delete: "delete_transaction now u i reason s = Inr s' \<Longrightarrow> admin_edit s s'"
| edit_hide: "hide now u i reason s = Inr s' \<Longrightarrow> admin_edit s s'"
| edit_clear: "clearOverride now u i s = Inr s' \<Longrightarrow> admin_edit s s'"
| edit_shift: "bulkShift now u role ids d reason s = Inr (n, s') \<Longrightarrow> admin_edit s s'"

lemma admin_edit_transfers:
  assumes "admin_edit s s'"
  shows "db_transfers s' = db_transfers s"
  using assms
proof cases
  case (edit_patch now u i dto)
  then show ?thesis by (elim patch_Inr)
next
  case (edit_create now x u cdto)
  then show ?thesis by (auto simp: create_transaction_def err_simps Let_def dest!: adjust_Inr(6))
next
  case (edit_delete now u i reason)
  then show ?thesis by (auto simp: delete_transaction_def err_simps Let_def dest!: adjust_Inr(6))
next
  case (edit_clear now u i)
  then show ?thesis by (auto simp: clearOverride_def err_simps Let_def dest!: adjust_Inr(6) split: option.splits)
next
  case (edit_hide now u i reason)
  then show ?thesis by (auto simp: hide_def err_simps Let_def)
next
  case (edit_shift now u role ids d reason n)
  then show ?thesis by (rule bulkShift_frame(5))
qed

lemma admin_edit_books:
  assumes "admin_edit s s'"
  shows "(ledger_inv s \<longrightarrow> ledger_inv s') \<and> drift s' k = drift s k"
  using assms
proof cases
  case (edit_patch now u i dto)
  then show ?thesis by (elim patch_Inr) (rule books_of_adjusted, assumption+)
next
  case (edit_create now x u cdto)
  let ?s = "s\<lparr>db_transactions := db_transactions s @ [created_row x cdto]\<rparr>"
  have "(ledger_inv ?s \<longrightarrow> ledger_inv s') \<and> drift s' k = drift ?s k"
    using edit_create by (elim create_Inr) (rule books_of_adjusted, assumption+)
  then show ?thesis using ledger_inv_cong [of ?s s] drift_same [of ?s s k] by simp
next
  case (edit_delete now u i reason)
  then show ?thesis by (elim delete_Inr) (rule books_of_adjusted, assumption+)
next
  case (edit_clear now u i)
  then show ?thesis by (elim clear_Inr) (rule books_of_adjusted, assumption+)
next
  case (edit_hide now u i reason)
  then show ?thesis using hide_Inr [OF edit_hide] ledger_inv_cong [of s' s] drift_same [of s' s] by simp
next
  case (edit_shift now u role ids d reason n)
  then show ?thesis using bulkShift_frame [OF edit_shift] ledger_inv_cong [of s' s] drift_same [of s' s] by simp
qed

text \<open>Every admin edit keeps the books: journal entries stay balanced and no account drifts
  from its sub-ledger, whether a transaction is patched, created, deleted, hidden, restored or
  shifted in time.\<close>

theorem admin_edit_keeps_books:
  assumes "admin_edit s s'" "ledger_inv s"
  shows "ledger_inv s' \<and> (\<forall>k. drift s' k = drift s k)"
  using admin_edit_books [OF assms(1)] assms(2) by blast

lemma patch_override:
  assumes "patch now u i dto s = Inr s'"
  obtains t a e where "findWithOverride i s = Some (t, a, override_of s i)"
    "findWithOverride i s' = Some (t, a\<lparr>a_balanceCents := a_balanceCents a + patch_delta dto t (override_of s i)\<rparr>,
       Some (patch_row u i dto (override_of s i) e))"
proof -
  obtain t a ov e s1 where f: "findWithOverride i s = Some (t, a, ov)"
    and j: "adjust now (t_accountId t) (a_userId a) (patch_delta dto t ov) i s = Inr (e, s1)"
    and s': "db_accounts s' = db_accounts s1" "db_transactions s' = db_transactions s"
      "db_overrides s' = db_overrides (upsert_override (\<lambda>_. patch_row u i dto ov e) (patch_row u i dto ov e) s1)"
    using assms by (elim patch_Inr) blast
  have k: "o_transactionId (patch_row u i dto ov e) = i" by (simp add: patch_row_def)
  have "override_of s' i = Some (patch_row u i dto ov e)"
    using override_of_upsert [of "\<lambda>_. patch_row u i dto ov e" "patch_row u i dto ov e" s1] k
    by (simp add: s'(3) split: option.split)
  then show ?thesis using f adjust_Inr(1) [OF j] s'
    by (intro that [of t a e]) (auto simp: findWithOverride_Some account_of_add_balance)
qed

text \<open>A patch shows what it was asked to show and moves the balance by exactly the change of the
  shown amount, provided the amount shown before was not an override to zero.\<close>

theorem patch_moves_balance_by_shown_change:
  assumes "patch now u i dto s = Inr s'" "Option.bind (override_of s i) o_amountCents \<noteq> Some 0"
  shows "\<exists>t a a' ov'. findWithOverride i s = Some (t, a, override_of s i) \<and> findWithOverride i s' = Some (t, a', ov') \<and>
           (let old = effectiveOf t (override_of s i); new = effectiveOf t ov' in
            ef_amountCents new = (case pd_amountCents dto of Some x \<Rightarrow> x | None \<Rightarrow> ef_amountCents old) \<and>
            ef_description new = (case pd_description dto of Some x \<Rightarrow> x | None \<Rightarrow> ef_description old) \<and>
            ef_status new = (case pd_status dto of Some x \<Rightarrow> x | None \<Rightarrow> ef_status old) \<and>
            a_balanceCents a' - a_balanceCents a = ef_amountCents new - ef_amountCents old)"
proof -
  obtain t a e where f: "findWithOverride i s = Some (t, a, override_of s i)"
    and f': "findWithOverride i s' = Some (t, a\<lparr>a_balanceCents := a_balanceCents a + patch_delta dto t (override_of s i)\<rparr>,
       Some (patch_row u i dto (override_of s i) e))" by (rule patch_override [OF assms(1)])
  have "overrideStatusToTxStatus (txStatusToOverrideStatus x) = x" for x by (cases x) simp_all
  then show ?thesis using f f' assms(2)
    by (auto simp: effectiveOf_def shadow_def patch_row_def nullish_def patch_delta_def patch_amount_def Let_def
        split: option.splits)
qed

text \<open>The exception: once an amount was overridden to zero, every later patch takes the original
  amount off the balance again, even one that changes only the description, although the shown
  amount stays zero.\<close>

theorem patch_after_zero_override_charges_again:
  assumes "patch now u i dto s = Inr s'" "Option.bind (override_of s i) o_amountCents = Some 0"
    and "pd_amountCents dto = None"
  shows "\<exists>t a a' ov'. findWithOverride i s = Some (t, a, override_of s i) \<and> findWithOverride i s' = Some (t, a', ov') \<and>
           ef_amountCents (effectiveOf t (override_of s i)) = 0 \<and> ef_amountCents (effectiveOf t ov') = 0 \<and>
           a_balanceCents a' = a_balanceCents a - t_amountCents t"
proof -
  obtain t a e where f: "findWithOverride i s = Some (t, a, override_of s i)"
    and f': "findWithOverride i s' = Some (t, a\<lparr>a_balanceCents := a_balanceCents a + patch_delta dto t (override_of s i)\<rparr>,
       Some (patch_row u i dto (override_of s i) e))" by (rule patch_override [OF assms(1)])
  then show ?thesis using assms(2,3)
    by (auto simp: effectiveOf_def shadow_def patch_row_def nullish_def patch_delta_def patch_amount_def)
qed


text \<open>Deleting a transaction takes exactly the amount the customer saw off the balance and removes
  the row together with its override; no other balance moves.\<close>

theorem delete_rolls_back_shown_amount:
  assumes "delete_transaction now u i reason s = Inr s'"
  shows "\<exists>t a ov. findWithOverride i s = Some (t, a, ov) \<and> findWithOverride i s' = None \<and> override_of s' i = None \<and>
           balance_of s' (t_accountId t) = Some (a_balanceCents a - ef_amountCents (effectiveOf t ov)) \<and>
           (\<forall>k. k \<noteq> t_accountId t \<longrightarrow> balance_of s' k = balance_of s k)"
proof -
  obtain t a ov e s1 where f: "findWithOverride i s = Some (t, a, ov)"
    and j: "adjust now (t_accountId t) (a_userId a) (- ef_amountCents (effectiveOf t ov)) i s = Inr (e, s1)"
    and s': "db_accounts s' = db_accounts s1" "db_transactions s' = filter (\<lambda>x. t_id x \<noteq> i) (db_transactions s)"
      "override_of s' i = None"
    using assms by (elim delete_Inr) blast
  have acc: "account_of s' k = map_option (\<lambda>b. if k = t_accountId t
      then b\<lparr>a_balanceCents := a_balanceCents b - ef_amountCents (effectiveOf t ov)\<rparr> else b) (account_of s k)" for k
    unfolding s' adjust_Inr(1) [OF j] account_of_add_balance by (cases "account_of s k") simp_all
  have "findWithOverride i s' = None" by (simp add: findWithOverride_def s' table_simps)
  then show ?thesis using f s'(3) by (auto simp: findWithOverride_Some balance_of_def acc option.map_comp o_def
      option.map_ident)
qed

text \<open>A sequence of guarded requests of one administrator, and how many of them pass.\<close>

fun rate_run :: "int \<Rightarrow> string \<Rightarrow> int list \<Rightarrow> counters \<Rightarrow> nat" where
  "rate_run rateLimit u [] c = 0"
| "rate_run rateLimit u (t # ts) c =
     (case assertRate rateLimit t u c of
        Inl _ \<Rightarrow> rate_run rateLimit u ts c
      | Inr c' \<Rightarrow> Suc (rate_run rateLimit u ts c'))"

lemma rate_key_minute: "t div 60000 = t' div 60000 \<Longrightarrow> rate_key t u = rate_key t' u"
  by (simp add: rate_key_def)

lemma cache_get_set:
  assumes "t div 60000 = t' div (60000 :: int)"
  shows "cache_get t' k (cache_set t k v 90 c) = Some v"
proof -
  have "t' < t + 60000" using assms by linarith
  then show ?thesis by (simp add: cache_get_def cache_set_def)
qed

lemma rate_run_bound:
  assumes "\<forall>t \<in> set ts. t div 60000 = m"
    and "\<forall>t. t div 60000 = m \<longrightarrow> (case cache_get t (rate_key t u) c of None \<Rightarrow> 0 | Some v \<Rightarrow> v) = r"
  shows "int (rate_run rateLimit u ts c) \<le> max 0 (rateLimit - r)"
  using assms
proof (induction ts arbitrary: c r)
  case (Cons t ts)
  have tm: "t div 60000 = m" using Cons.prems(1) by simp
  then have recent: "(case cache_get t (rate_key t u) c of None \<Rightarrow> 0 | Some v \<Rightarrow> v) = r" using Cons.prems(2) by blast
  show ?case
  proof (cases "rateLimit \<le> r")
    case True
    then show ?thesis using Cons.IH [OF _ Cons.prems(2)] Cons.prems(1) recent by (simp add: assertRate_def Let_def)
  next
    case False
    let ?c = "cache_set t (rate_key t u) (r + 1) 90 c"
    have "(case cache_get t' (rate_key t' u) ?c of None \<Rightarrow> 0 | Some v \<Rightarrow> v) = r + 1" if "t' div 60000 = m" for t'
      using that tm cache_get_set [of t t'] rate_key_minute [of t t' u] by simp
    then have "int (rate_run rateLimit u ts ?c) \<le> max 0 (rateLimit - (r + 1))"
      using Cons.prems(1) by (intro Cons.IH) auto
    then show ?thesis using False recent by (simp add: assertRate_def Let_def)
  qed
qed simp

text \<open>The rate limit holds: of any number of requests one administrator sends within one clock
  minute, at most the configured number pass, because a counter written in that minute cannot
  expire before the minute ends.\<close>

theorem rate_limit_per_minute:
  assumes "\<forall>t \<in> set ts. t div 60000 = m"
    and "\<forall>t. t div 60000 = m \<longrightarrow> cache_get t (rate_key t u) c = None"
  shows "int (rate_run rateLimit u ts c) \<le> max 0 rateLimit"
  using rate_run_bound [OF assms(1), where r = 0] assms(2) by simp

end
