(* ===== verification/Recurring.thy ===== *)
theory Recurring
  imports Transfers Js_Date
begin

text \<open>
  Scheduled transfers between a customer's own accounts
  (\<^verbatim>\<open>recurring-transfers/recurring-transfers.service.ts\<close>). The schedule table is kept beside the
  bank; the hourly scan calls the transfer service and then moves the schedule on. A scan that
  stops between the two steps is the reason for the idempotency key, which names the schedule and
  the due time.
\<close>

datatype frequency = Weekly | Biweekly | Monthly

record recurring =
  rc_id :: string
  rc_userId :: string
  rc_fromAccountId :: string
  rc_toAccountId :: string
  rc_amountCents :: int
  rc_frequency :: frequency
  rc_dayOf :: int
  rc_active :: bool
  rc_nextRunAt :: int
  rc_lastRunAt :: "int option"

definition weekday_diff :: "int \<Rightarrow> int \<Rightarrow> int" where
  "weekday_diff dayOf t = (let r = js_mod (dayOf - getUTCDay t + 7) 7 in if r = 0 then 7 else r)"

definition computeNextRunAt :: "int \<Rightarrow> frequency \<Rightarrow> int \<Rightarrow> int" where
  "computeNextRunAt from freq dayOf =
     setUTCHours9
       (case freq of
          Weekly \<Rightarrow> setUTCDate (getUTCDate from + weekday_diff dayOf from) from
        | Biweekly \<Rightarrow> setUTCDate (getUTCDate from + weekday_diff dayOf from + 7) from
        | Monthly \<Rightarrow>
            (let d = setUTCMonth (getUTCMonth from + 1) from;
                 lastDay = getUTCDate (date_UTC (getUTCFullYear d) (getUTCMonth d + 1) 0)
             in setUTCDate (min dayOf lastDay) d))"

type_synonym scheduler = "recurring list \<times> bank"

definition create_recurring ::
  "int \<Rightarrow> string \<Rightarrow> string \<Rightarrow> string \<Rightarrow> string \<Rightarrow> int \<Rightarrow> frequency \<Rightarrow> int \<Rightarrow> scheduler \<Rightarrow> scheduler result" where
  "create_recurring now newId userId fromId toId amountCents freq dayOf sc =
     (let s = snd sc in
      ebind (require (case account_of s fromId of None \<Rightarrow> False | Some a \<Rightarrow> a_userId a = userId)
               (Forbidden ''Not your source account'')) (\<lambda>_.
      ebind (require (case account_of s toId of None \<Rightarrow> False | Some a \<Rightarrow> a_userId a = userId)
               (Forbidden ''Not your destination account'')) (\<lambda>_.
      ebind (create_unique ''id'' rc_id
        \<lparr>rc_id = newId, rc_userId = userId, rc_fromAccountId = fromId, rc_toAccountId = toId,
         rc_amountCents = amountCents, rc_frequency = freq, rc_dayOf = dayOf, rc_active = True,
         rc_nextRunAt = computeNextRunAt now freq dayOf, rc_lastRunAt = None\<rparr> (fst sc)) (\<lambda>t.
      Inr (t, s)))))"

definition list_recurring :: "string \<Rightarrow> scheduler \<Rightarrow> recurring list" where
  "list_recurring userId sc = sort_key rc_nextRunAt (filter (\<lambda>r. rc_userId r = userId) (fst sc))"

definition owned_recurring :: "string \<Rightarrow> string \<Rightarrow> scheduler \<Rightarrow> recurring result" where
  "owned_recurring userId i sc =
     (case find_unique rc_id i (fst sc) of
        None \<Rightarrow> Inl (NotFound ''Recurring not found'')
      | Some r \<Rightarrow> if rc_userId r \<noteq> userId then Inl (NotFound ''Recurring not found'') else Inr r)"

record update_recurring_dto =
  ud_active :: "bool option"
  ud_amountCents :: "int option"
  ud_frequency :: "frequency option"
  ud_dayOf :: "int option"

definition default_to :: "'a option \<Rightarrow> 'a \<Rightarrow> 'a" where
  "default_to a b = (case a of None \<Rightarrow> b | Some x \<Rightarrow> x)"

definition update_recurring :: "int \<Rightarrow> string \<Rightarrow> string \<Rightarrow> update_recurring_dto \<Rightarrow> scheduler \<Rightarrow> scheduler result" where
  "update_recurring now userId i dto sc =
     ebind (owned_recurring userId i sc) (\<lambda>ex.
     let nextFrequency = default_to (ud_frequency dto) (rc_frequency ex);
         nextDayOf = default_to (ud_dayOf dto) (rc_dayOf ex);
         scheduleChanged =
           (if ud_frequency dto \<noteq> None \<and> ud_frequency dto \<noteq> Some (rc_frequency ex) then True
            else ud_dayOf dto \<noteq> None \<and> ud_dayOf dto \<noteq> Some (rc_dayOf ex))
     in ebind (update_unique rc_id i
          (\<lambda>r. r\<lparr>rc_active := default_to (ud_active dto) (rc_active r),
                 rc_amountCents := default_to (ud_amountCents dto) (rc_amountCents r),
                 rc_frequency := nextFrequency, rc_dayOf := nextDayOf,
                 rc_nextRunAt := (if scheduleChanged then computeNextRunAt now nextFrequency nextDayOf
                                  else rc_nextRunAt r)\<rparr>) (fst sc)) (\<lambda>t.
     Inr (t, snd sc)))"

definition cancel_recurring :: "string \<Rightarrow> string \<Rightarrow> scheduler \<Rightarrow> scheduler result" where
  "cancel_recurring userId i sc =
     ebind (owned_recurring userId i sc) (\<lambda>_.
     ebind (delete_unique rc_id i (fst sc)) (\<lambda>t. Inr (t, snd sc)))"

section \<open>The scan\<close>

definition recurring_key :: "recurring \<Rightarrow> string" where
  "recurring_key r = ''recurring:'' @ rc_id r @ '':'' @ toISOString (rc_nextRunAt r)"

definition recurring_dto :: "recurring \<Rightarrow> transfer_dto" where
  "recurring_dto r = \<lparr>d_fromAccountId = rc_fromAccountId r, d_toAccountId = Some (rc_toAccountId r),
     d_externalRef = None, d_kind = Internal, d_amountCents = rc_amountCents r, d_instant = False,
     d_note = Some ''Recurring transfer'', d_wireDetails = None, d_sendCurrency = None, d_sendAmountMinor = None\<rparr>"

definition is_due :: "int \<Rightarrow> recurring \<Rightarrow> bool" where
  "is_due now r = (rc_active r \<and> rc_nextRunAt r \<le> now)"

text \<open>One turn of the loop: an exception of either step is logged, and the effects of the steps
  before it stay.\<close>

definition run_one ::
  "config \<Rightarrow> request_env \<Rightarrow> (recurring \<Rightarrow> string \<times> string) \<Rightarrow> recurring \<Rightarrow> nat \<times> scheduler \<Rightarrow> nat \<times> scheduler" where
  "run_one cf env ids r st =
     (case initiate cf env (ids r) (rc_userId r) (recurring_key r) (recurring_dto r) (snd (snd st)) of
        Inl e \<Rightarrow> st
      | Inr (_, s') \<Rightarrow>
          (case update_unique rc_id (rc_id r)
                  (\<lambda>x. x\<lparr>rc_lastRunAt := Some (rq_now env),
                         rc_nextRunAt := computeNextRunAt (rq_now env) (rc_frequency r) (rc_dayOf r)\<rparr>)
                  (fst (snd st)) of
             Inl e \<Rightarrow> (fst st, fst (snd st), s')
           | Inr t \<Rightarrow> (fst st + 1, t, s')))"

definition runDueNow ::
  "config \<Rightarrow> request_env \<Rightarrow> (recurring \<Rightarrow> string \<times> string) \<Rightarrow> scheduler \<Rightarrow> nat \<times> scheduler" where
  "runDueNow cf env ids sc =
     fold (run_one cf env ids) (take 100 (filter (is_due (rq_now env)) (fst sc))) (0, sc)"

section \<open>Lemmas\<close>

lemma day_of_next: "day_of (computeNextRunAt t f d) = day_of (case f of
    Weekly \<Rightarrow> setUTCDate (getUTCDate t + weekday_diff d t) t
  | Biweekly \<Rightarrow> setUTCDate (getUTCDate t + weekday_diff d t + 7) t
  | Monthly \<Rightarrow> (let m = setUTCMonth (getUTCMonth t + 1) t;
                     lastDay = getUTCDate (date_UTC (getUTCFullYear m) (getUTCMonth m + 1) 0)
                 in setUTCDate (min d lastDay) m))"
  by (simp add: computeNextRunAt_def)

lemma time_of_next: "time_in_day (computeNextRunAt t f d) = 9 * 3600000"
  by (simp add: computeNextRunAt_def setUTCHours9_def time_in_day_def msPerDay_def)

lemma day_of_plus: "make_day (getUTCFullYear t) (getUTCMonth t) (getUTCDate t + k) = day_of t + k"
  using ymd_valid(5) [of "day_of t" "getUTCFullYear t" "getUTCMonth t" "getUTCDate t"]
  by (simp add: make_day_shift getUTCFullYear_def getUTCMonth_def getUTCDate_def)

lemma weekday_diff_bounds:
  assumes "0 \<le> d"
  shows "1 \<le> weekday_diff d t" "weekday_diff d t \<le> 7" "(getUTCDay t + weekday_diff d t) mod 7 = d mod 7"
proof -
  have g: "0 \<le> getUTCDay t" "getUTCDay t < 7" by (simp_all add: getUTCDay_def)
  have m: "js_mod (d - getUTCDay t + 7) 7 = (d - getUTCDay t + 7) mod 7"
    using assms g by (intro js_mod_nonneg) auto
  show "1 \<le> weekday_diff d t" "weekday_diff d t \<le> 7"
    using pos_mod_sign [of 7 "d - getUTCDay t + 7"] pos_mod_bound [of 7 "d - getUTCDay t + 7"]
    by (auto simp: weekday_diff_def Let_def m simp del: pos_mod_sign)
  have "(getUTCDay t + (d - getUTCDay t + 7) mod 7) mod 7 = d mod 7"
    by (simp add: mod_add_right_eq)
  moreover have "(getUTCDay t + 7) mod 7 = d mod 7" if "(d - getUTCDay t + 7) mod 7 = 0"
    using that calculation by simp
  ultimately show "(getUTCDay t + weekday_diff d t) mod 7 = d mod 7"
    by (auto simp: weekday_diff_def Let_def m)
qed

lemma later_day: "day_of t < day_of u \<Longrightarrow> t < u"
  by (simp add: day_of_def) (metis linorder_not_less zdiv_mono1 msPerDay_pos(1) order_less_le_trans)

lemma last_day_of_month:
  assumes "0 \<le> m" "m \<le> 11"
  shows "getUTCDate (date_UTC y (m + 1) 0) = month_length y m"
proof -
  have "make_day y (m + 1) 0 = make_day y m (month_length y m)"
    using next_month_start [OF assms, of y] make_day_shift [of y "m + 1" 1 "-1"] make_day_shift [of y m 1 "month_length y m - 1"] by simp
  moreover have "day_of (date_UTC y (m + 1) 0) = make_day y (m + 1) 0" by (simp add: date_UTC_def day_of_def)
  ultimately show ?thesis
    using ymd_make_day [OF assms, of "month_length y m" y] month_length_pos [OF assms, of y]
    by (simp add: getUTCDate_def)
qed

lemma ymd_getters: "ymd (day_of t) = (getUTCFullYear t, getUTCMonth t, getUTCDate t)"
  by (simp add: getUTCFullYear_def getUTCMonth_def getUTCDate_def)

lemma day_of_monthly:
  "day_of (computeNextRunAt t Monthly d) =
     (let m = setUTCMonth (getUTCMonth t + 1) t in
      make_day (getUTCFullYear m) (getUTCMonth m) (min d (month_length (getUTCFullYear m) (getUTCMonth m))))"
proof -
  let ?m = "setUTCMonth (getUTCMonth t + 1) t"
  have "0 \<le> getUTCMonth ?m" "getUTCMonth ?m \<le> 11" using ymd_valid(1,2) [OF ymd_getters [of ?m]] by simp_all
  then show ?thesis by (simp add: day_of_next Let_def last_day_of_month)
qed

section \<open>Properties\<close>

text \<open>A weekly schedule next runs on the chosen weekday at 09:00 UTC, one to seven days from now;
  a biweekly one exactly a week later than that.\<close>

theorem weekly_schedule:
  assumes "0 \<le> d" "d \<le> 6"
  shows "let w = computeNextRunAt t Weekly d; b = computeNextRunAt t Biweekly d in
         getUTCDay w = d \<and> getUTCDay b = d \<and> time_in_day w = 9 * 3600000 \<and> time_in_day b = 9 * 3600000 \<and>
         t < w \<and> day_of t + 1 \<le> day_of w \<and> day_of w \<le> day_of t + 7 \<and> day_of b = day_of w + 7"
proof -
  note wd = weekday_diff_bounds [OF assms(1), of t]
  have w: "day_of (computeNextRunAt t Weekly d) = day_of t + weekday_diff d t"
    by (simp add: day_of_next day_of_plus)
  have b: "day_of (computeNextRunAt t Biweekly d) = day_of t + weekday_diff d t + 7"
    using day_of_plus [of t "weekday_diff d t + 7"] by (simp add: day_of_next add.assoc)
  have "(day_of t + weekday_diff d t + 4) mod 7 = (getUTCDay t + weekday_diff d t) mod 7"
    using mod_add_left_eq [of "day_of t + 4" 7 "weekday_diff d t"] by (simp add: getUTCDay_def ac_simps)
  then have wday: "(day_of t + weekday_diff d t + 4) mod 7 = d" using wd(3) assms by simp
  moreover have "(day_of t + weekday_diff d t + 7 + 4) mod 7 = (day_of t + weekday_diff d t + 4) mod 7"
    using mod_add_self2 [of "day_of t + weekday_diff d t + 4" 7] by (simp add: ac_simps)
  ultimately show ?thesis using wd w b later_day [of t "computeNextRunAt t Weekly d"]
    by (simp add: Let_def time_of_next getUTCDay_def)
qed

text \<open>A monthly schedule set from a day up to the 28th next runs in the following month, at 09:00
  UTC, on the chosen day or on the last day of a shorter month.\<close>

theorem monthly_schedule:
  assumes "getUTCDate t \<le> 28" "1 \<le> d"
  shows "let n = computeNextRunAt t Monthly d; y = getUTCFullYear t; m = getUTCMonth t in
         getUTCFullYear n = y + (m + 1) div 12 \<and> getUTCMonth n = (m + 1) mod 12 \<and>
         getUTCDate n = min d (month_length (y + (m + 1) div 12) ((m + 1) mod 12)) \<and>
         time_in_day n = 9 * 3600000"
proof -
  let ?y = "getUTCFullYear t + (getUTCMonth t + 1) div 12" and ?m = "(getUTCMonth t + 1) mod 12"
  let ?u = "setUTCMonth (getUTCMonth t + 1) t"
  have m: "0 \<le> ?m" "?m \<le> 11" using pos_mod_bound [of 12 "getUTCMonth t + 1"] by simp_all
  have "1 \<le> getUTCDate t" using ymd_valid(3) [OF ymd_getters] .
  then have "ymd (day_of ?u) = (?y, ?m, getUTCDate t)"
    using ymd_make_day [OF m, of "getUTCDate t" ?y] month_length_pos [OF m, of ?y] assms(1)
    by (simp add: make_day_norm [of _ "getUTCMonth t + 1"])
  then have u: "getUTCFullYear ?u = ?y" "getUTCMonth ?u = ?m" by (simp_all add: getUTCFullYear_def getUTCMonth_def)
  have "ymd (day_of (computeNextRunAt t Monthly d)) = (?y, ?m, min d (month_length ?y ?m))"
    using ymd_make_day [OF m, of "min d (month_length ?y ?m)" ?y] month_length_pos [OF m, of ?y] assms(2)
    by (simp add: day_of_monthly Let_def u)
  then show ?thesis by (simp add: Let_def time_of_next getUTCFullYear_def getUTCMonth_def getUTCDate_def)
qed


text \<open>From the 31st a monthly schedule skips a month: moving 31 January 2026 on by a month overflows
  into March before the day is clamped, so the next run is on 31 March, while the unit test of the
  function expects 28 February.\<close>

theorem monthly_schedule_skips_february:
  "let t = date_UTC 2026 0 31 + 12 * 3600000 in computeNextRunAt t Monthly 31 = date_UTC 2026 2 31 + 9 * 3600000"
  by code_simp

text \<open>A repeated occurrence moves no money twice: when a scan has started the transfer but stopped
  before it moved the schedule on, a later scan at any time finds the key used and leaves the bank
  as it is, as long as the customer may still transfer.\<close>

theorem recurring_retry_moves_no_money:
  assumes "initiate cf env (ids r) (rc_userId r) (recurring_key r) (recurring_dto r) s = Inr (res, s')"
    and "\<forall>u. user_of s' (rc_userId r) = Some u \<longrightarrow> \<not> u_transfersDisabled u"
  shows "snd (snd (run_one cf env' ids' r (n, table, s'))) = s'"
proof -
  have "transfers_enabled (rc_userId r) s'" "recurring_key r \<noteq> ''''"
    using assms(2) by (auto simp: transfers_enabled_def recurring_key_def split: option.split)
  from svc.replay [OF assms(1) this, of env' "ids' r" "recurring_dto r"]
  show ?thesis by (auto simp: run_one_def split: sum.splits)
qed

end
