(* ===== verification/Goals.thy ===== *)
theory Goals
  imports Transfers Js_Number Js_Date
begin

text \<open>
  Savings: the goals of a customer (\<^verbatim>\<open>goals/goals.service.ts\<close>), the weekly contribution that is split
  over them (\<^verbatim>\<open>autosave/autosave.service.ts\<close>, \<^verbatim>\<open>splits.util.ts\<close>, \<^verbatim>\<open>autosave.worker.ts\<close>) and the
  round-ups of card purchases (\<^verbatim>\<open>round-ups/round-ups.service.ts\<close>). A goal's amount is a counter beside
  the books: the money itself moves by a transfer into the savings account, and the counters are
  raised in further database calls.
\<close>

record goal =
  g_id :: string
  g_userId :: string
  g_emoji :: string
  g_name :: string
  g_targetCents :: "int option"
  g_currentCents :: int
  g_targetDate :: "int option"
  g_contributePerWeek :: "int option"
  g_isDefault :: bool
  g_archivedAt :: "int option"
  g_createdAt :: int

record goal_split =
  gs_goalId :: string
  gs_percent :: int

record autosave_config =
  as_userId :: string
  as_enabled :: bool
  as_roundUpEnabled :: bool
  as_roundUpSourceAccountId :: "string option"
  as_splits :: "goal_split list"
  as_weeklyContributionCents :: "int option"
  as_weeklyDay :: "int option"

record round_up =
  ru_id :: string
  ru_userId :: string
  ru_transactionId :: string
  ru_amountCents :: int
  ru_appliedAt :: "int option"

record savings_state =
  sv_bank :: bank
  sv_goals :: "goal list"
  sv_configs :: "autosave_config list"
  sv_roundUps :: "round_up list"

section \<open>Splits\<close>

text \<open>The percentages are JavaScript numbers, so the rescaling goes through a division and a
  multiplication that round.\<close>

definition scale_split :: "int \<Rightarrow> goal_split \<Rightarrow> goal_split" where
  "scale_split tot s = s\<lparr>gs_percent := \<lfloor>js_mult (js_divide (of_int (gs_percent s)) (of_int tot)) 100\<rfloor>\<rparr>"

definition percents :: "goal_split list \<Rightarrow> int" where
  "percents splits = fold (\<lambda>s a. a + gs_percent s) splits 0"

fun add_to_first :: "int \<Rightarrow> goal_split list \<Rightarrow> goal_split list" where
  "add_to_first d [] = []"
| "add_to_first d (s # ss) = s\<lparr>gs_percent := gs_percent s + d\<rparr> # ss"

definition normalizeSplits :: "goal_split list \<Rightarrow> goal_split list" where
  "normalizeSplits splits =
     (let filtered = filter (\<lambda>s. 0 < gs_percent s) splits;
          tot = percents filtered;
          scaled = map (scale_split tot) filtered;
          drift = 100 - percents scaled
      in if filtered = [] then []
         else if tot = 100 then filtered
         else if drift \<noteq> 0 then add_to_first drift (sort_key (\<lambda>s. - gs_percent s) scaled)
         else scaled)"

text \<open>The index of the first largest percentage: the loop over the indices from 1.\<close>

fun largest_idx :: "goal_split list \<Rightarrow> nat list \<Rightarrow> nat \<Rightarrow> nat" where
  "largest_idx splits [] best = best"
| "largest_idx splits (i # is) best =
     largest_idx splits is (if gs_percent (splits ! i) > gs_percent (splits ! best) then i else best)"

definition allocateCents :: "int \<Rightarrow> goal_split list \<Rightarrow> (string \<times> int) list" where
  "allocateCents amountCents splits =
     (let allocations = map (\<lambda>s. (gs_goalId s, js_div (amountCents * gs_percent s) 100)) splits;
          tot = fold (\<lambda>x a. a + snd x) allocations 0;
          leftover = amountCents - tot;
          l = largest_idx splits [1..<length splits] 0
      in if splits = [] then []
         else if leftover \<noteq> 0
         then allocations[l := (fst (allocations ! l), snd (allocations ! l) + leftover)]
         else allocations)"

section \<open>Goals\<close>

record goal_dto =
  gd_emoji :: "string option"
  gd_name :: "string option"
  gd_targetCents :: "int option"
  gd_targetDate :: "int option"
  gd_contributePerWeek :: "int option"
  gd_isDefault :: "bool option"

definition list_goals :: "string \<Rightarrow> goal list \<Rightarrow> goal list" where
  "list_goals userId gs =
     sort_key (\<lambda>g. if g_isDefault g then 0 else (1 :: int))
       (sort_key g_createdAt (filter (\<lambda>g. g_userId g = userId \<and> g_archivedAt g = None) gs))"

definition clear_default :: "string \<Rightarrow> string option \<Rightarrow> goal list \<Rightarrow> goal list" where
  "clear_default userId keep gs =
     update_many (\<lambda>g. g_userId g = userId \<and> g_isDefault g \<and> Some (g_id g) \<noteq> keep) (\<lambda>g. g\<lparr>g_isDefault := False\<rparr>) gs"

definition create_goal :: "int \<Rightarrow> string \<Rightarrow> string \<Rightarrow> goal_dto \<Rightarrow> goal list \<Rightarrow> goal list result" where
  "create_goal now newId userId dto gs =
     (let gs1 = (if gd_isDefault dto = Some True then clear_default userId None gs else gs)
      in create_unique ''id'' g_id
           \<lparr>g_id = newId, g_userId = userId, g_emoji = the (gd_emoji dto), g_name = the (gd_name dto),
            g_targetCents = gd_targetCents dto, g_currentCents = 0, g_targetDate = gd_targetDate dto,
            g_contributePerWeek = gd_contributePerWeek dto, g_isDefault = (gd_isDefault dto = Some True),
            g_archivedAt = None, g_createdAt = now\<rparr> gs1)"

definition owned_goal :: "string \<Rightarrow> string \<Rightarrow> goal list \<Rightarrow> goal result" where
  "owned_goal userId i gs =
     ebind (or_throw (NotFound ''Goal not found'') (find_unique g_id i gs)) (\<lambda>g.
     ebind (require (g_userId g = userId) (NotFound ''Goal not found'')) (\<lambda>_. Inr g))"

definition keep_or :: "'a option \<Rightarrow> 'a \<Rightarrow> 'a" where
  "keep_or v old = (case v of None \<Rightarrow> old | Some x \<Rightarrow> x)"

definition update_goal :: "string \<Rightarrow> string \<Rightarrow> goal_dto \<Rightarrow> goal list \<Rightarrow> goal list result" where
  "update_goal userId i dto gs =
     ebind (owned_goal userId i gs) (\<lambda>_.
     let gs1 = (if gd_isDefault dto = Some True then clear_default userId (Some i) gs else gs)
     in update_unique g_id i
          (\<lambda>g. g\<lparr>g_emoji := keep_or (gd_emoji dto) (g_emoji g), g_name := keep_or (gd_name dto) (g_name g),
                 g_targetCents := (if gd_targetCents dto = None then g_targetCents g else gd_targetCents dto),
                 g_targetDate := (if gd_targetDate dto = None then g_targetDate g else gd_targetDate dto),
                 g_contributePerWeek :=
                   (if gd_contributePerWeek dto = None then g_contributePerWeek g else gd_contributePerWeek dto),
                 g_isDefault := keep_or (gd_isDefault dto) (g_isDefault g)\<rparr>) gs1)"

definition archive_goal :: "int \<Rightarrow> string \<Rightarrow> string \<Rightarrow> goal list \<Rightarrow> goal list result" where
  "archive_goal now userId i gs =
     ebind (owned_goal userId i gs) (\<lambda>_. update_unique g_id i (\<lambda>g. g\<lparr>g_archivedAt := Some now\<rparr>) gs)"

text \<open>\<open>goal.update({ currentCents: { increment } })\<close>.\<close>

definition raise_goal :: "string \<Rightarrow> int \<Rightarrow> goal list \<Rightarrow> goal list result" where
  "raise_goal i cents gs = update_unique g_id i (\<lambda>g. g\<lparr>g_currentCents := g_currentCents g + cents\<rparr>) gs"

definition savings_account :: "string \<Rightarrow> bank \<Rightarrow> account option" where
  "savings_account userId s =
     find_first (\<lambda>a. a_userId a = userId \<and> a_type a = Savings \<and> a_status a = AcctActive) (db_accounts s)"

definition checking_account :: "string \<Rightarrow> bank \<Rightarrow> account option" where
  "checking_account userId s =
     find_first (\<lambda>a. a_userId a = userId \<and> a_type a = Checking \<and> a_status a = AcctActive) (db_accounts s)"

definition save_dto :: "string \<Rightarrow> string \<Rightarrow> int \<Rightarrow> string \<Rightarrow> transfer_dto" where
  "save_dto fromId toId cents note =
     \<lparr>d_fromAccountId = fromId, d_toAccountId = Some toId, d_externalRef = None, d_kind = Internal,
      d_amountCents = cents, d_instant = False, d_note = Some note, d_wireDetails = None,
      d_sendCurrency = None, d_sendAmountMinor = None\<rparr>"

definition contribute ::
  "config \<Rightarrow> request_env \<Rightarrow> string \<times> string \<Rightarrow> string \<Rightarrow> string \<Rightarrow> string \<Rightarrow> string \<Rightarrow> int \<Rightarrow> savings_state \<Rightarrow>
     (initiate_result \<times> savings_state) result" where
  "contribute cf env ids userId goalId key fromAccountId amountCents st =
     ebind (owned_goal userId goalId (sv_goals st)) (\<lambda>goal.
     ebind (require (g_archivedAt goal = None) (BadRequest ''Goal archived'')) (\<lambda>_.
     ebind (or_throw (BadRequest ''No active savings account'') (savings_account userId (sv_bank st))) (\<lambda>savings.
     ebind (or_throw (Forbidden ''Not your account'') (account_of (sv_bank st) fromAccountId)) (\<lambda>from.
     ebind (require (a_userId from = userId) (Forbidden ''Not your account'')) (\<lambda>_.
     ebind (initiate cf env ids userId key
              (save_dto fromAccountId (a_id savings) amountCents (''Contribute to '' @ g_name goal)) (sv_bank st)) (\<lambda>(r, s1).
     ebind (raise_goal goalId amountCents (sv_goals st)) (\<lambda>gs.
     Inr (r, st\<lparr>sv_bank := s1, sv_goals := gs\<rparr>))))))))"

section \<open>Autosave\<close>

record autosave_dto =
  ad_enabled :: "bool option"
  ad_roundUpEnabled :: "bool option"
  ad_roundUpSourceAccountId :: "string option"
  ad_splits :: "goal_split list option"
  ad_weeklyContributionCents :: "int option"
  ad_weeklyDay :: "int option"

definition upsert_row :: "string \<Rightarrow> autosave_dto \<Rightarrow> autosave_config list \<Rightarrow> autosave_config list" where
  "upsert_row userId dto cs =
     (let splits = map_option normalizeSplits (ad_splits dto)
      in case find_unique as_userId userId cs of
           Some _ \<Rightarrow> update_many (\<lambda>c. as_userId c = userId)
             (\<lambda>c. c\<lparr>as_enabled := keep_or (ad_enabled dto) (as_enabled c),
                    as_roundUpEnabled := keep_or (ad_roundUpEnabled dto) (as_roundUpEnabled c),
                    as_roundUpSourceAccountId := (if ad_roundUpSourceAccountId dto = None
                      then as_roundUpSourceAccountId c else ad_roundUpSourceAccountId dto),
                    as_splits := keep_or splits (as_splits c),
                    as_weeklyContributionCents := (if ad_weeklyContributionCents dto = None
                      then as_weeklyContributionCents c else ad_weeklyContributionCents dto),
                    as_weeklyDay := (if ad_weeklyDay dto = None then as_weeklyDay c else ad_weeklyDay dto)\<rparr>) cs
         | None \<Rightarrow> cs @ [\<lparr>as_userId = userId, as_enabled = keep_or (ad_enabled dto) False,
             as_roundUpEnabled = keep_or (ad_roundUpEnabled dto) False,
             as_roundUpSourceAccountId = ad_roundUpSourceAccountId dto, as_splits = keep_or splits [],
             as_weeklyContributionCents = ad_weeklyContributionCents dto, as_weeklyDay = ad_weeklyDay dto\<rparr>])"

definition upsert_autosave :: "string \<Rightarrow> autosave_dto \<Rightarrow> savings_state \<Rightarrow> savings_state result" where
  "upsert_autosave userId dto st =
     (let owned = map g_id (filter (\<lambda>g. g_userId g = userId) (sv_goals st));
          asked = (case ad_splits dto of None \<Rightarrow> [] | Some ss \<Rightarrow> map gs_goalId ss)
      in ebind (case find_first (\<lambda>i. i \<notin> set owned) asked of
                  Some i \<Rightarrow> Inl (BadRequest (''Goal not found: '' @ i)) | None \<Rightarrow> Inr ()) (\<lambda>_.
         ebind (if truthy_str (ad_roundUpSourceAccountId dto)
                then require (case account_of (sv_bank st) (the (ad_roundUpSourceAccountId dto)) of
                                None \<Rightarrow> False | Some a \<Rightarrow> a_userId a = userId)
                       (BadRequest ''Round-up source must be your account'')
                else Inr ()) (\<lambda>_.
         Inr (st\<lparr>sv_configs := upsert_row userId dto (sv_configs st)\<rparr>))))"

text \<open>Each increment is a database call of its own: the ones before a failing one stay.\<close>

fun raise_all :: "(string \<times> int) list \<Rightarrow> goal list \<Rightarrow> unit result \<times> goal list" where
  "raise_all [] gs = (Inr (), gs)"
| "raise_all ((i, c) # as) gs =
     (case raise_goal i c gs of Inl e \<Rightarrow> (Inl e, gs) | Inr gs' \<Rightarrow> raise_all as gs')"

definition source_account :: "autosave_config \<Rightarrow> bank \<Rightarrow> string option" where
  "source_account c s =
     (case as_roundUpSourceAccountId c of Some i \<Rightarrow> Some i | None \<Rightarrow> map_option a_id (checking_account (as_userId c) s))"

definition weekStamp :: "int \<Rightarrow> string" where
  "weekStamp t =
     (let year = getUTCFullYear t; onejan = date_UTC year 0 1;
          days = js_divide (of_int (t - onejan)) 86400000;
          week = \<lfloor>js_divide (fl (fl (days + of_int (getUTCDay onejan)) + 1)) 7\<rfloor>
      in show_int year @ ''-W'' @ pad2 (show_int week))"

definition weekly_key :: "int \<Rightarrow> string \<Rightarrow> string" where
  "weekly_key now userId = ''autosave:weekly:'' @ userId @ '':'' @ weekStamp now"

definition applyWeeklyContribution ::
  "config \<Rightarrow> request_env \<Rightarrow> string \<times> string \<Rightarrow> autosave_config \<Rightarrow> savings_state \<Rightarrow> unit result \<times> savings_state" where
  "applyWeeklyContribution cf env ids c st =
     (case as_weeklyContributionCents c of
        None \<Rightarrow> (Inr (), st)
      | Some tot \<Rightarrow>
          (if \<not> as_enabled c \<or> tot \<le> 0 \<or> as_splits c = [] then (Inr (), st)
           else case source_account c (sv_bank st) of
             None \<Rightarrow> (Inr (), st)
           | Some sourceId \<Rightarrow>
               (if sourceId = '''' then (Inr (), st)
                else case savings_account (as_userId c) (sv_bank st) of
                  None \<Rightarrow> (Inr (), st)
                | Some savings \<Rightarrow>
                    (case initiate cf env ids (as_userId c) (weekly_key (rq_now env) (as_userId c))
                            (save_dto sourceId (a_id savings) tot ''Autosave weekly contribution'') (sv_bank st) of
                       Inl _ \<Rightarrow> (Inr (), st)
                     | Inr (_, s1) \<Rightarrow>
                         (let (res, gs) = raise_all (allocateCents tot (as_splits c)) (sv_goals st)
                          in (res, st\<lparr>sv_bank := s1, sv_goals := gs\<rparr>))))))"

text \<open>The daily scan: the configurations due today, in turn; an exception ends the scan.\<close>

fun run_configs ::
  "config \<Rightarrow> request_env \<Rightarrow> (string \<Rightarrow> string \<times> string) \<Rightarrow> autosave_config list \<Rightarrow> savings_state \<Rightarrow>
     unit result \<times> savings_state" where
  "run_configs cf env ids [] st = (Inr (), st)"
| "run_configs cf env ids (c # cs) st =
     (case applyWeeklyContribution cf env (ids (as_userId c)) c st of
        (Inl e, st') \<Rightarrow> (Inl e, st')
      | (Inr _, st') \<Rightarrow> run_configs cf env ids cs st')"

definition autosave_run ::
  "config \<Rightarrow> request_env \<Rightarrow> (string \<Rightarrow> string \<times> string) \<Rightarrow> savings_state \<Rightarrow> unit result \<times> savings_state" where
  "autosave_run cf env ids st =
     run_configs cf env ids
       (filter (\<lambda>c. as_enabled c \<and> as_weeklyDay c = Some (getUTCDay (rq_now env))) (sv_configs st)) st"

section \<open>Round-ups\<close>

definition roundUpCents :: "int \<Rightarrow> int" where
  "roundUpCents amountAbs =
     (let remainder = js_mod amountAbs 100 in if remainder = 0 then 0 else 100 - remainder)"

definition onSettled :: "string \<Rightarrow> string \<Rightarrow> string \<Rightarrow> savings_state \<Rightarrow> savings_state" where
  "onSettled newId userId transactionId st =
     (case transaction_of (sv_bank st) transactionId of
        None \<Rightarrow> st
      | Some tx \<Rightarrow>
          (if t_kind tx \<noteq> KCardPurchase \<or> 0 \<le> t_amountCents tx then st
           else case find_unique as_userId userId (sv_configs st) of
             None \<Rightarrow> st
           | Some c \<Rightarrow>
               (if \<not> as_enabled c \<or> \<not> as_roundUpEnabled c then st
                else let ru = roundUpCents (- t_amountCents tx)
                     in if ru = 0 then st
                        else st\<lparr>sv_roundUps := sv_roundUps st @
                               [\<lparr>ru_id = newId, ru_userId = userId, ru_transactionId = t_id tx,
                                 ru_amountCents = ru, ru_appliedAt = None\<rparr>]\<rparr>)))"

definition pending_of :: "string \<Rightarrow> round_up list \<Rightarrow> round_up list" where
  "pending_of userId rows = filter (\<lambda>r. ru_userId r = userId \<and> ru_appliedAt r = None) rows"

definition roundup_key :: "int \<Rightarrow> string \<Rightarrow> string" where
  "roundup_key now userId = ''roundup:'' @ userId @ '':'' @ take 10 (toISOString now)"

definition applyForUser ::
  "config \<Rightarrow> request_env \<Rightarrow> string \<times> string \<Rightarrow> string \<Rightarrow> int \<Rightarrow> savings_state \<Rightarrow> bool result \<times> savings_state" where
  "applyForUser cf env ids userId tot st =
     (case find_unique as_userId userId (sv_configs st) of
        None \<Rightarrow> (Inr False, st)
      | Some c \<Rightarrow>
          (if \<not> as_enabled c \<or> \<not> as_roundUpEnabled c then (Inr False, st)
           else case source_account c (sv_bank st) of
             None \<Rightarrow> (Inr False, st)
           | Some sourceId \<Rightarrow>
               (if sourceId = '''' then (Inr False, st)
                else case savings_account userId (sv_bank st) of
                  None \<Rightarrow> (Inr False, st)
                | Some savings \<Rightarrow>
                    (case initiate cf env ids userId (roundup_key (rq_now env) userId)
                            (save_dto sourceId (a_id savings) tot ''Round-up sweep'') (sv_bank st) of
                       Inl _ \<Rightarrow> (Inr False, st)
                     | Inr (_, s1) \<Rightarrow>
                         (case raise_all (allocateCents tot (as_splits c)) (sv_goals st) of
                            (Inl e, gs) \<Rightarrow> (Inl e, st\<lparr>sv_bank := s1, sv_goals := gs\<rparr>)
                          | (Inr _, gs) \<Rightarrow>
                              (Inr True, st\<lparr>sv_bank := s1, sv_goals := gs,
                                 sv_roundUps := update_many (\<lambda>r. ru_userId r = userId \<and> ru_appliedAt r = None)
                                   (\<lambda>r. r\<lparr>ru_appliedAt := Some (rq_now env)\<rparr>) (sv_roundUps st)\<rparr>))))))"

text \<open>The nightly sweep: the sums are taken once, before the first user is served.\<close>

fun sweep_groups ::
  "config \<Rightarrow> request_env \<Rightarrow> (string \<Rightarrow> string \<times> string) \<Rightarrow> (string \<times> int) list \<Rightarrow> int \<times> int \<Rightarrow> savings_state \<Rightarrow>
     (int \<times> int) result \<times> savings_state" where
  "sweep_groups cf env ids [] acc st = (Inr acc, st)"
| "sweep_groups cf env ids ((u, tot) # gs) acc st =
     (if tot \<le> 0 then sweep_groups cf env ids gs acc st
      else case applyForUser cf env (ids u) u tot st of
             (Inl e, st') \<Rightarrow> (Inl e, st')
           | (Inr ok, st') \<Rightarrow>
               sweep_groups cf env ids gs (if ok then (fst acc + 1, snd acc + tot) else acc) st')"

definition applyDaily ::
  "config \<Rightarrow> request_env \<Rightarrow> (string \<Rightarrow> string \<times> string) \<Rightarrow> savings_state \<Rightarrow> (int \<times> int) result \<times> savings_state" where
  "applyDaily cf env ids st =
     (let users = remdups (map ru_userId (filter (\<lambda>r. ru_appliedAt r = None) (sv_roundUps st)));
          groups = map (\<lambda>u. (u, sum_list (map ru_amountCents (pending_of u (sv_roundUps st))))) users
      in sweep_groups cf env ids groups (0, 0) st)"

section \<open>Lemmas\<close>

lemma percents_sum [simp]: "percents ss = sum_list (map gs_percent ss)"
  by (simp add: percents_def fold_add_int)

lemma fl_upper: "0 \<le> x \<Longrightarrow> fl x \<le> x * (1 + 1 / 2 ^ 53)"
proof -
  assume "0 \<le> x"
  then have "fl x - x \<le> x / 2 ^ 53" using fl_error [of x] by linarith
  then show ?thesis by (simp only: distrib_left mult_1_right times_divide_eq_right)
qed

lemma fl_nonneg: "0 \<le> x \<Longrightarrow> 0 \<le> fl x"
  using fl_pos [of x] by (cases "x = 0") (auto simp: fl_def)

lemma scale_split_bounds:
  assumes "0 \<le> gs_percent s" "0 < T"
  shows "0 \<le> gs_percent (scale_split T s)"
    and "of_int (gs_percent (scale_split T s)) \<le> of_int (gs_percent s) / of_int T * (100 * (1 + 1 / 2 ^ 53) ^ 2 :: rat)"
proof -
  let ?x = "of_int (gs_percent s) / of_int T :: rat" and ?e = "1 + 1 / 2 ^ 53 :: rat"
  have x: "0 \<le> ?x" using assms by simp
  show "0 \<le> gs_percent (scale_split T s)"
    using x fl_nonneg [OF x] fl_nonneg [of "fl ?x * 100"]
    by (simp add: scale_split_def js_mult_def js_divide_def)
  have "fl (fl ?x * 100) \<le> fl ?x * 100 * ?e"
    using fl_nonneg [OF x] by (intro fl_upper) simp
  also have "\<dots> \<le> ?x * ?e * 100 * ?e"
    using fl_upper [OF x] by (intro mult_right_mono) simp_all
  also have "\<dots> = ?x * (100 * ?e ^ 2)" by (simp add: power2_eq_square)
  finally have "of_int \<lfloor>fl (fl ?x * 100)\<rfloor> \<le> ?x * (100 * ?e ^ 2)"
    using of_int_floor_le order_trans by blast
  moreover have "gs_percent (scale_split T s) = \<lfloor>fl (fl ?x * 100)\<rfloor>"
    by (simp add: scale_split_def js_mult_def js_divide_def)
  ultimately show "of_int (gs_percent (scale_split T s)) \<le> ?x * (100 * ?e ^ 2)" by simp
qed

lemma scaled_sum_le:
  assumes "\<forall>s \<in> set ss. 0 \<le> gs_percent s" "0 < T"
  shows "of_int (sum_list (map (gs_percent \<circ> scale_split T) ss)) \<le>
           of_int (sum_list (map gs_percent ss)) / of_int T * (100 * (1 + 1 / 2 ^ 53) ^ 2 :: rat)"
  using assms
proof (induction ss)
  case (Cons s ss)
  then show ?case using scale_split_bounds(2) [of s T] by (simp add: add_divide_distrib distrib_right)
qed simp

lemma add_to_first_sum: "ss \<noteq> [] \<Longrightarrow> sum_list (map gs_percent (add_to_first d ss)) = sum_list (map gs_percent ss) + d"
  by (cases ss) simp_all

lemma add_to_first_set:
  "0 \<le> d \<Longrightarrow> \<forall>s \<in> set ss. 0 \<le> gs_percent s \<Longrightarrow> \<forall>s \<in> set (add_to_first d ss). 0 \<le> gs_percent s"
  "gs_goalId ` set (add_to_first d ss) = gs_goalId ` set ss"
  by (cases ss; simp)+

lemma sort_key_sum_percent: "sum_list (map gs_percent (sort_key k ss)) = sum_list (map gs_percent ss)"
proof -
  have "mset (map gs_percent (sort_key k ss)) = mset (map gs_percent ss)" by simp
  then show ?thesis by (metis sum_mset_sum_list)
qed

lemma largest_idx_bound: "best < length ss \<Longrightarrow> \<forall>i \<in> set is. i < length ss \<Longrightarrow> largest_idx ss is best < length ss"
  by (induction "is" arbitrary: best) auto

lemma sum_list_update_int: "k < length xs \<Longrightarrow> sum_list (xs[k := x]) = sum_list xs + x - (xs ! k :: int)"
  by (induction xs arbitrary: k) (auto split: nat.split)

lemma js_div_100: "0 \<le> x \<Longrightarrow> 0 \<le> x - 100 * js_div x 100 \<and> x - 100 * js_div x 100 \<le> 99"
  using pos_mod_sign [of 100 x] pos_mod_bound [of 100 x] by (simp add: js_div_nonneg minus_mult_div_eq_mod)

lemma floors_leftover:
  assumes "0 \<le> a" "\<forall>s \<in> set ss. 0 \<le> gs_percent s"
  shows "0 \<le> a * sum_list (map gs_percent ss) - 100 * sum_list (map (\<lambda>s. js_div (a * gs_percent s) 100) ss) \<and>
         a * sum_list (map gs_percent ss) - 100 * sum_list (map (\<lambda>s. js_div (a * gs_percent s) 100) ss) \<le> 99 * int (length ss)"
  using assms(2)
proof (induction ss)
  case (Cons s ss)
  then have "0 \<le> a * gs_percent s" using assms(1) by simp
  from js_div_100 [OF this] Cons show ?case by (simp add: algebra_simps)
qed simp

lemma allocate_ids: "map fst (allocateCents a ss) = map gs_goalId ss"
proof (cases "ss = []")
  case False
  then have "largest_idx ss [1..<length ss] 0 < length ss" by (intro largest_idx_bound) auto
  then show ?thesis using False
    by (simp add: allocateCents_def Let_def map_update comp_def list_update_same_conv)
qed (simp add: allocateCents_def)

lemma allocate_nth:
  assumes "ss \<noteq> []"
  obtains l where "l < length ss"
    "\<And>i. i < length ss \<Longrightarrow> snd (allocateCents a ss ! i) = js_div (a * gs_percent (ss ! i)) 100 +
       (if i = l then a - sum_list (map (\<lambda>s. js_div (a * gs_percent s) 100) ss) else 0)"
proof
  let ?l = "largest_idx ss [1..<length ss] 0"
  show l: "?l < length ss" using assms by (intro largest_idx_bound) auto
  show "snd (allocateCents a ss ! i) = js_div (a * gs_percent (ss ! i)) 100 +
       (if i = ?l then a - sum_list (map (\<lambda>s. js_div (a * gs_percent s) 100) ss) else 0)" if "i < length ss" for i
    using that l assms by (auto simp: allocateCents_def Let_def fold_add_int comp_def nth_list_update)
qed

lemma allocate_sum: "ss \<noteq> [] \<Longrightarrow> sum_list (map snd (allocateCents a ss)) = a"
proof -
  assume ne: "ss \<noteq> []"
  then have "largest_idx ss [1..<length ss] 0 < length ss" by (intro largest_idx_bound) auto
  then show ?thesis using ne
    by (simp add: allocateCents_def Let_def fold_add_int comp_def map_update sum_list_update_int)
qed

lemma initiate_existing:
  assumes "find_unique tr_idempotencyKey key (db_transfers s) = Some t" "tr_initiatedByUserId t = u"
    "transfers_enabled u s" "key \<noteq> ''''"
  shows "initiate cf env ids u key dto s = Inr (replay_result cf t, s)"
  using assms by (auto simp: initiate_def initiate_check_def transfers_enabled_def require_def split: option.splits)

lemma raise_goal_sum:
  assumes "raise_goal i c gs = Inr gs'" "distinct (map g_id gs)"
  shows "sum_list (map g_currentCents gs') = sum_list (map g_currentCents gs) + c" "map g_id gs' = map g_id gs"
proof -
  have gs': "gs' = update_many (\<lambda>g. g_id g = i) (\<lambda>g. g\<lparr>g_currentCents := g_currentCents g + c\<rparr>) gs"
    and mem: "i \<in> g_id ` set gs" using assms(1) by (auto simp: raise_goal_def err_simps dest: find_unique_SomeD)
  show "map g_id gs' = map g_id gs" unfolding gs' by (simp add: table_simps)
  have idle: "j \<notin> g_id ` set t \<Longrightarrow>
      update_many (\<lambda>g. g_id g = j) (\<lambda>g. g\<lparr>g_currentCents := g_currentCents g + c\<rparr>) t = t" for t j
    by (induction t) auto
  show "sum_list (map g_currentCents gs') = sum_list (map g_currentCents gs) + c"
    unfolding gs' using assms(2) mem by (induction gs) (auto simp: idle)
qed

lemma raise_all_sum:
  assumes "distinct (map g_id gs)" "fst ` set as \<subseteq> g_id ` set gs"
  shows "\<exists>gs'. raise_all as gs = (Inr (), gs') \<and> map g_id gs' = map g_id gs \<and>
           sum_list (map g_currentCents gs') = sum_list (map g_currentCents gs) + sum_list (map snd as)"
  using assms
proof (induction "as" arbitrary: gs)
  case (Cons a as)
  obtain i c where a: "a = (i, c)" by (cases a)
  have "find_unique g_id i gs \<noteq> None" using Cons.prems(2) a by (auto simp: find_unique_None_iff)
  then obtain gs1 where r: "raise_goal i c gs = Inr gs1" by (auto simp: raise_goal_def update_unique_def)
  note s = raise_goal_sum [OF r Cons.prems(1)]
  have "g_id ` set gs1 = g_id ` set gs" using s(2) by (metis set_map)
  then show ?case using Cons.IH [of gs1] Cons.prems a r s by (simp add: add.assoc)
qed simp

section \<open>Properties\<close>

text \<open>Splits always add up: whenever at least one percentage is positive, the stored percentages
  are non-negative, name only requested goals and sum to exactly 100, although the rescaling rounds
  in binary floating point.\<close>

theorem normalize_splits_sum:
  assumes "\<exists>s \<in> set splits. 0 < gs_percent s"
  shows "sum_list (map gs_percent (normalizeSplits splits)) = 100 \<and>
         (\<forall>s \<in> set (normalizeSplits splits). 0 \<le> gs_percent s) \<and>
         gs_goalId ` set (normalizeSplits splits) \<subseteq> gs_goalId ` set splits"
proof -
  define fs where "fs = filter (\<lambda>s. 0 < gs_percent s) splits"
  define T where "T = sum_list (map gs_percent fs)"
  have ne: "fs \<noteq> []" and pos: "\<forall>s \<in> set fs. 0 < gs_percent s"
    using assms by (auto simp: fs_def filter_empty_conv)
  have nonneg: "\<forall>s \<in> set fs. 0 \<le> gs_percent s" using pos by auto
  have T: "0 < T" using ne nonneg pos unfolding T_def by (cases fs) (auto intro!: add_pos_nonneg sum_list_nonneg)
  define sc where "sc = map (scale_split T) fs"
  have sc: "\<forall>s \<in> set sc. 0 \<le> gs_percent s" "sc \<noteq> []" "gs_goalId ` set sc = gs_goalId ` set fs"
    using scale_split_bounds(1) [OF _ T] nonneg ne by (auto simp: sc_def scale_split_def image_image)
  have "of_int (sum_list (map gs_percent sc)) \<le> of_int T / of_int T * (100 * (1 + 1 / 2 ^ 53) ^ 2 :: rat)"
    using scaled_sum_le [OF nonneg T] by (simp only: sc_def T_def map_map)
  also have "\<dots> = 100 * (1 + 1 / 2 ^ 53) ^ 2" using T by simp
  also have "\<dots> < 101" by (simp add: power2_eq_square)
  finally have drift: "0 \<le> 100 - sum_list (map gs_percent sc)" by linarith
  let ?n = "add_to_first (100 - sum_list (map gs_percent sc)) (sort_key (\<lambda>s. - gs_percent s) sc)"
  have n: "normalizeSplits splits = (if T = 100 then fs else if 100 - sum_list (map gs_percent sc) \<noteq> 0 then ?n else sc)"
    using ne by (simp add: normalizeSplits_def Let_def fs_def [symmetric] T_def [symmetric] sc_def [symmetric])
  have "sort_key (\<lambda>s. - gs_percent s) sc \<noteq> []" using sc(2) by (metis length_0_conv length_sort)
  then have "sum_list (map gs_percent ?n) = 100" by (simp add: add_to_first_sum sort_key_sum_percent)
  moreover have "\<forall>s \<in> set ?n. 0 \<le> gs_percent s" using sc(1) by (intro add_to_first_set(1) drift) simp
  moreover have "gs_goalId ` set ?n = gs_goalId ` set sc" by (simp add: add_to_first_set(2))
  moreover have "gs_goalId ` set fs \<subseteq> gs_goalId ` set splits" by (auto simp: fs_def)
  moreover have "sum_list (map gs_percent fs) = 100" if "T = 100" using that by (simp add: T_def)
  ultimately show ?thesis unfolding n using nonneg sc(1,3)
    by (cases "T = 100"; cases "sum_list (map gs_percent sc) = 100") simp_all
qed

text \<open>C19. Allocation is exact and fair: shares of a non-negative amount by percentages that sum to 100
  add up to the amount, go to the goals in order, and each is its share rounded down plus, for one
  goal, fewer cents than there are goals.\<close>

theorem allocate_exact_and_fair:
  assumes "0 \<le> a" "\<forall>s \<in> set ss. 0 \<le> gs_percent s" "sum_list (map gs_percent ss) = 100"
  shows "sum_list (map snd (allocateCents a ss)) = a \<and> map fst (allocateCents a ss) = map gs_goalId ss \<and>
         (\<forall>i < length ss. a * gs_percent (ss ! i) div 100 \<le> snd (allocateCents a ss ! i) \<and>
            snd (allocateCents a ss ! i) < a * gs_percent (ss ! i) div 100 + int (length ss))"
proof -
  have ne: "ss \<noteq> []" using assms(3) by auto
  then have len: "0 < length ss" by simp
  define rest where "rest = a - sum_list (map (\<lambda>s. js_div (a * gs_percent s) 100) ss)"
  have "0 \<le> 100 * rest" "100 * rest \<le> 99 * int (length ss)"
    using floors_leftover [OF assms(1,2)] unfolding assms(3) rest_def by (simp_all add: algebra_simps)
  then have rest: "0 \<le> rest" "rest < int (length ss)" using len by linarith+
  obtain l where "\<And>i. i < length ss \<Longrightarrow> snd (allocateCents a ss ! i) =
      js_div (a * gs_percent (ss ! i)) 100 + (if i = l then rest else 0)"
    using allocate_nth [OF ne, of a] unfolding rest_def by metis
  moreover have "js_div (a * gs_percent (ss ! i)) 100 = a * gs_percent (ss ! i) div 100" if "i < length ss" for i
    using assms(1,2) that by (simp add: js_div_nonneg)
  ultimately show ?thesis using rest len allocate_sum [OF ne] allocate_ids by auto
qed

text \<open>A round-up is what is missing to the next full dollar.\<close>

theorem round_up_completes_dollar:
  assumes "0 \<le> a"
  shows "0 \<le> roundUpCents a \<and> roundUpCents a < 100 \<and> (a + roundUpCents a) mod 100 = 0"
proof -
  define m q where "m = a mod 100" and "q = a div 100"
  have "a = 100 * q + m" by (simp add: m_def q_def)
  then have "a + (100 - m) = 100 * (q + 1)" by simp
  then have "(a + (100 - m)) mod 100 = 0" by (simp only: mod_mult_self1_is_0)
  moreover have "0 \<le> m" "m < 100" by (simp_all add: m_def)
  moreover have "js_mod a 100 = m" using assms by (simp add: js_mod_nonneg m_def)
  moreover have "m = 0 \<Longrightarrow> a mod 100 = 0" by (simp add: m_def)
  ultimately show ?thesis by (simp add: roundUpCents_def Let_def)
qed

lemma initiate_used_key:
  assumes "initiate cf env ids u key dto s = Inr (r, s')" "find_unique tr_idempotencyKey key (db_transfers s) \<noteq> None"
  shows "s' = s"
  using assms(1)
proof (cases rule: initiate_cases)
  case (fresh pl t s0)
  then show ?thesis using initiate_commit_Inr(4) [OF fresh(2)] assms(2) by simp
qed simp

lemma pending_of_applied:
  "pending_of v (update_many (\<lambda>r. ru_userId r = u \<and> ru_appliedAt r = None) (\<lambda>r. r\<lparr>ru_appliedAt := Some n\<rparr>) rows) =
     (if v = u then [] else pending_of v rows)"
  unfolding pending_of_def by (induction rows) auto

lemma applyForUser_True:
  assumes "applyForUser cf env ids u n st = (Inr True, st')"
  obtains src :: string and sav :: account and r where
    "initiate cf env ids u (roundup_key (rq_now env) u) (save_dto src (a_id sav) n ''Round-up sweep'') (sv_bank st) =
       Inr (r, sv_bank st')"
    "sv_roundUps st' = update_many (\<lambda>r. ru_userId r = u \<and> ru_appliedAt r = None)
       (\<lambda>r. r\<lparr>ru_appliedAt := Some (rq_now env)\<rparr>) (sv_roundUps st)"
  using assms by (auto simp: applyForUser_def split: option.splits if_splits sum.splits prod.splits)

text \<open>At most one goal of a user is the default.\<close>

definition one_default :: "goal list \<Rightarrow> bool" where
  "one_default gs = (\<forall>g \<in> set gs. \<forall>h \<in> set gs.
     g_userId g = g_userId h \<and> g_isDefault g \<and> g_isDefault h \<longrightarrow> g_id g = g_id h)"

lemma one_default_update:
  assumes "one_default gs" "\<And>g. g_userId (f g) = g_userId g" "\<And>g. g_id (f g) = g_id g"
    "\<And>g. g_isDefault (f g) \<Longrightarrow> g_isDefault g"
  shows "one_default (update_many P f gs)"
proof -
  have src: "\<exists>g \<in> set gs. g_userId g = g_userId h \<and> g_id g = g_id h \<and> (g_isDefault h \<longrightarrow> g_isDefault g)"
    if "h \<in> set (update_many P f gs)" for h
    using that assms(2-4) unfolding update_many_def by (fastforce split: if_splits)
  then show ?thesis using assms(1) unfolding one_default_def by metis
qed

lemma clear_default_none:
  "g \<in> set (clear_default u keep gs) \<Longrightarrow> g_userId g = u \<Longrightarrow> g_isDefault g \<Longrightarrow> Some (g_id g) = keep"
proof -
  assume g: "g \<in> set (clear_default u keep gs)" "g_userId g = u" "g_isDefault g"
  then obtain h where "g = (if g_userId h = u \<and> g_isDefault h \<and> Some (g_id h) \<noteq> keep then h\<lparr>g_isDefault := False\<rparr> else h)"
    unfolding clear_default_def update_many_def set_map by (elim imageE) simp
  then show ?thesis using g(2,3) by (cases "g_userId h = u \<and> g_isDefault h \<and> Some (g_id h) \<noteq> keep") simp_all
qed

lemma one_default_snoc:
  assumes "one_default gs" "\<And>g. g_isDefault row \<Longrightarrow> g \<in> set gs \<Longrightarrow> g_userId g = g_userId row \<Longrightarrow> \<not> g_isDefault g"
  shows "one_default (gs @ [row])"
  unfolding one_default_def
proof (intro ballI impI)
  fix g h
  assume gh: "g \<in> set (gs @ [row])" "h \<in> set (gs @ [row])" "g_userId g = g_userId h \<and> g_isDefault g \<and> g_isDefault h"
  then consider "g \<in> set gs" "h \<in> set gs" | "g = row" "h \<in> set gs" | "g \<in> set gs" "h = row" | "g = row" "h = row"
    by auto
  then show "g_id g = g_id h"
  proof cases
    case 1
    then show ?thesis using assms(1) gh(3) unfolding one_default_def by blast
  qed (use assms(2) gh(3) in auto)
qed

lemma one_default_clear: "one_default gs \<Longrightarrow> one_default (clear_default u keep gs)"
  unfolding clear_default_def by (rule one_default_update) auto

lemma create_goal_one_default:
  assumes "one_default gs" "create_goal now i u dto gs = Inr gs'"
  shows "one_default gs'"
proof -
  obtain row where row: "g_userId row = u" "g_isDefault row \<longleftrightarrow> gd_isDefault dto = Some True"
    and gs': "gs' = (if gd_isDefault dto = Some True then clear_default u None gs else gs) @ [row]"
    using assms(2) unfolding create_goal_def Let_def create_unique_eq_Inr by (elim conjE, intro that) simp_all
  show ?thesis
  proof (cases "gd_isDefault dto = Some True")
    case True
    then have "gs' = clear_default u None gs @ [row]" using gs' by simp
    then show ?thesis using clear_default_none [of _ u None gs] row(1)
      by (auto intro!: one_default_snoc one_default_clear assms(1))
  next
    case False
    then show ?thesis using row(2) gs' by (auto intro!: one_default_snoc assms(1))
  qed
qed

lemma update_goal_one_default:
  assumes "one_default gs" "distinct (map g_id gs)" "update_goal u i dto gs = Inr gs'"
  shows "one_default gs'"
proof -
  let ?f = "\<lambda>g. g\<lparr>g_emoji := keep_or (gd_emoji dto) (g_emoji g), g_name := keep_or (gd_name dto) (g_name g),
                 g_targetCents := (if gd_targetCents dto = None then g_targetCents g else gd_targetCents dto),
                 g_targetDate := (if gd_targetDate dto = None then g_targetDate g else gd_targetDate dto),
                 g_contributePerWeek :=
                   (if gd_contributePerWeek dto = None then g_contributePerWeek g else gd_contributePerWeek dto),
                 g_isDefault := keep_or (gd_isDefault dto) (g_isDefault g)\<rparr>"
  show ?thesis
  proof (cases "gd_isDefault dto = Some True")
    case True
    then have gs': "gs' = update_many (\<lambda>g. g_id g = i) ?f (clear_default u (Some i) gs)"
      using assms(3) by (auto simp: update_goal_def Let_def err_simps)
    obtain g0 where "find_unique g_id i gs = Some g0" "g_userId g0 = u"
      using assms(3) by (auto simp: update_goal_def owned_goal_def err_simps)
    then have owner: "g_userId g = u" if "g \<in> set gs" "g_id g = i" for g
      using that find_unique_in_distinct [OF assms(2) that(1)] by auto
    have mine: "g_id g = i" if "g \<in> set gs'" "g_userId g = u" "g_isDefault g" for g
      using that clear_default_none [of _ u "Some i" gs] unfolding gs' by (auto simp: update_many_def split: if_splits)
    have other: "g \<in> set gs" if "g \<in> set gs'" "g_userId g \<noteq> u" for g
    proof -
      have clr: "h \<in> set gs \<or> g_userId h = u" if "h \<in> set (clear_default u (Some i) gs)" for h
        using in_update_many [OF that [unfolded clear_default_def]] by auto
      from in_update_many [OF \<open>g \<in> set gs'\<close> [unfolded gs']] show ?thesis
      proof (elim disjE bexE conjE)
        fix h assume "h \<in> set (clear_default u (Some i) gs)" "g_id h = i" "g = ?f h"
        then show ?thesis using clr [of h] owner [of h] \<open>g_userId g \<noteq> u\<close> by simp
      qed (use clr \<open>g_userId g \<noteq> u\<close> in blast)
    qed
    show ?thesis unfolding one_default_def
      using mine other assms(1) [unfolded one_default_def] by metis
  next
    case False
    then have gs': "gs' = update_many (\<lambda>g. g_id g = i) ?f gs" using assms(3) by (auto simp: update_goal_def Let_def err_simps)
    have "keep_or (gd_isDefault dto) x \<Longrightarrow> x" for x using False by (auto simp: keep_or_def split: option.splits)
    then show ?thesis unfolding gs' by (intro one_default_update assms(1)) simp_all
  qed
qed

text \<open>A customer never has two default goals: creating, changing, archiving and funding goals keep
  at most one default goal per user, where a new default replaces the old one.\<close>

theorem goals_keep_one_default:
  assumes "one_default gs" "distinct (map g_id gs)"
    and "create_goal now i u dto gs = Inr gs' \<or> update_goal u i dto gs = Inr gs' \<or>
         archive_goal now u i gs = Inr gs' \<or> raise_goal i c gs = Inr gs'"
  shows "one_default gs'"
  using assms(3)
proof (elim disjE)
  assume "create_goal now i u dto gs = Inr gs'"
  then show ?thesis using assms(1) by (rule create_goal_one_default [rotated])
next
  assume "update_goal u i dto gs = Inr gs'"
  then show ?thesis using assms(1,2) by (rule update_goal_one_default [rotated 2])
next
  assume "archive_goal now u i gs = Inr gs'"
  then show ?thesis using assms(1) by (auto simp: archive_goal_def err_simps intro!: one_default_update)
next
  assume "raise_goal i c gs = Inr gs'"
  then show ?thesis using assms(1) by (auto simp: raise_goal_def err_simps intro!: one_default_update)
qed

text \<open>A contribution counts once per request, not once per transfer: repeating a contribution
  with its key moves no money, since the transfer service replays it, and still raises the goal's
  amount by the contribution again.\<close>

theorem contribute_replay_raises_goal:
  assumes "contribute cf env ids u i key acc a st = Inr (r, st')"
    and "find_unique tr_idempotencyKey key (db_transfers (sv_bank st)) \<noteq> None"
  shows "sv_bank st' = sv_bank st \<and>
         map_option g_currentCents (find_unique g_id i (sv_goals st')) =
           map_option (\<lambda>g. g_currentCents g + a) (find_unique g_id i (sv_goals st)) \<and>
         find_unique g_id i (sv_goals st) \<noteq> None"
proof -
  obtain goal savings s1 gs where
    j: "initiate cf env ids u key (save_dto acc (a_id (savings :: account)) a (''Contribute to '' @ g_name (goal :: goal))) (sv_bank st) = Inr (r, s1)"
    and g: "raise_goal i a (sv_goals st) = Inr gs" and st': "st' = st\<lparr>sv_bank := s1, sv_goals := gs\<rparr>"
    using assms(1) by (auto simp: contribute_def err_simps)
  have "s1 = sv_bank st" using initiate_used_key [OF j assms(2)] .
  moreover have "find_unique g_id i gs = map_option (\<lambda>g. g\<lparr>g_currentCents := g_currentCents g + a\<rparr>)
      (find_unique g_id i (sv_goals st))" "find_unique g_id i (sv_goals st) \<noteq> None"
    using g by (auto simp: raise_goal_def err_simps table_simps)
  ultimately show ?thesis using st' by (simp add: option.map_comp comp_def)
qed

text \<open>The weekly contribution is not idempotent on the goals: when the week's transfer exists
  already, as after a second scan of the same day, a further run moves no money and raises the goals
  by the whole contribution again.\<close>

theorem weekly_rerun_raises_goals:
  assumes "as_enabled c" "as_weeklyContributionCents c = Some n" "0 < n" "as_splits c \<noteq> []"
    and "source_account c (sv_bank st) = Some src" "src \<noteq> ''''" "savings_account (as_userId c) (sv_bank st) \<noteq> None"
    and "find_unique tr_idempotencyKey (weekly_key (rq_now env) (as_userId c)) (db_transfers (sv_bank st)) = Some t"
      "tr_initiatedByUserId t = as_userId c" "transfers_enabled (as_userId c) (sv_bank st)"
    and "distinct (map g_id (sv_goals st))" "gs_goalId ` set (as_splits c) \<subseteq> g_id ` set (sv_goals st)"
  shows "\<exists>gs. applyWeeklyContribution cf env ids c st = (Inr (), st\<lparr>sv_goals := gs\<rparr>) \<and>
           sum_list (map g_currentCents gs) = sum_list (map g_currentCents (sv_goals st)) + n"
proof -
  obtain sav where sav: "savings_account (as_userId c) (sv_bank st) = Some sav" using assms(7) by auto
  have "fst ` set (allocateCents n (as_splits c)) = gs_goalId ` set (as_splits c)"
    using allocate_ids [of n "as_splits c"] by (metis set_map)
  then obtain gs where "raise_all (allocateCents n (as_splits c)) (sv_goals st) = (Inr (), gs)"
    "sum_list (map g_currentCents gs) = sum_list (map g_currentCents (sv_goals st)) + n"
    using raise_all_sum [OF assms(11), of "allocateCents n (as_splits c)"] assms(12) allocate_sum [OF assms(4), of n] by auto
  moreover have "weekly_key (rq_now env) (as_userId c) \<noteq> ''''" by (simp add: weekly_key_def)
  ultimately show ?thesis using assms sav initiate_existing [OF assms(8-10)]
    by (auto simp: applyWeeklyContribution_def)
qed

text \<open>A round-up sweep settles what was collected: when it succeeds with a new key, one pending
  transfer of the collected amount is created, the books are kept, and no round-up of the user is
  left open while those of other users are untouched.\<close>

theorem round_up_sweep_settles:
  assumes "applyForUser cf env ids u n st = (Inr True, st')" "0 \<le> cf_feeMin cf"
    and "find_unique tr_idempotencyKey (roundup_key (rq_now env) u) (db_transfers (sv_bank st)) = None"
  shows "(\<exists>t. db_transfers (sv_bank st') = db_transfers (sv_bank st) @ [t] \<and> tr_amountCents t = n \<and>
            tr_status t = TxPending \<and> tr_initiatedByUserId t = u) \<and>
         (\<forall>k. drift (sv_bank st') k = drift (sv_bank st) k) \<and>
         pending_of u (sv_roundUps st') = [] \<and> (\<forall>v. v \<noteq> u \<longrightarrow> pending_of v (sv_roundUps st') = pending_of v (sv_roundUps st))"
proof -
  obtain src sav r where j: "initiate cf env ids u (roundup_key (rq_now env) u)
      (save_dto src (a_id (sav :: account)) n ''Round-up sweep'') (sv_bank st) = Inr (r, sv_bank st')"
    and ru: "sv_roundUps st' = update_many (\<lambda>r. ru_userId r = u \<and> ru_appliedAt r = None)
       (\<lambda>r. r\<lparr>ru_appliedAt := Some (rq_now env)\<rparr>) (sv_roundUps st)"
    using assms(1) by (rule applyForUser_True)
  have "\<exists>t. db_transfers (sv_bank st') = db_transfers (sv_bank st) @ [t] \<and> tr_amountCents t = n \<and>
            tr_status t = TxPending \<and> tr_initiatedByUserId t = u" using j
  proof (cases rule: initiate_cases)
    case (fresh pl t s0)
    note com = initiate_commit_Inr [OF fresh(2)] and chk = initiate_check_Proceed [OF fresh(1)]
    have "pl_settlementCents pl = n"
      using chk(7) by (auto simp: resolveSettlement_def save_dto_def Let_def split: if_splits)
    then show ?thesis using com(1,7) finish_snd(1) [OF fresh(3)] by (simp add: pending_transfer_def)
  qed (use assms(3) in simp)
  then show ?thesis using svc.books [OF j assms(2)] unfolding ru by (simp add: pending_of_applied)
qed

text \<open>Round-ups can vanish: a sweep whose key of the day was used already, by an earlier sweep of
  that date, moves no money and still marks every open round-up of the user as applied.\<close>

theorem round_up_sweep_same_day_loses:
  assumes "applyForUser cf env ids u n st = (Inr True, st')"
    and "find_unique tr_idempotencyKey (roundup_key (rq_now env) u) (db_transfers (sv_bank st)) \<noteq> None"
  shows "sv_bank st' = sv_bank st \<and> pending_of u (sv_roundUps st') = []"
proof -
  obtain src sav r where j: "initiate cf env ids u (roundup_key (rq_now env) u)
      (save_dto src (a_id (sav :: account)) n ''Round-up sweep'') (sv_bank st) = Inr (r, sv_bank st')"
    and ru: "sv_roundUps st' = update_many (\<lambda>r. ru_userId r = u \<and> ru_appliedAt r = None)
       (\<lambda>r. r\<lparr>ru_appliedAt := Some (rq_now env)\<rparr>) (sv_roundUps st)"
    using assms(1) by (rule applyForUser_True)
  show ?thesis using initiate_used_key [OF j assms(2)] unfolding ru by (simp add: pending_of_applied)
qed

end
