(* ===== verification/Bank_System.thy ===== *)
theory Bank_System
  imports Admin_Wires Admin_Transactions Recurring Payments Goals
begin

text \<open>
  The money services run together on one bank: every way a request, a worker, a schedule or an
  administrator can change it is a step of \<open>bank_step\<close>. What a single service keeps, a whole history of
  services keeps; the argument is made once, for any step relation that keeps an invariant and a
  quantity.
\<close>

section \<open>Histories\<close>

locale conservation = step_invariant step inv
  for step :: "'s \<Rightarrow> 's \<Rightarrow> bool" and inv :: "'s \<Rightarrow> bool" +
  fixes quantity :: "'s \<Rightarrow> 'q"
  assumes step_quantity: "step s s' \<Longrightarrow> inv s \<Longrightarrow> quantity s' = quantity s"
begin

lemma history:
  assumes "step\<^sup>*\<^sup>* s s'" "inv s"
  shows "inv s' \<and> quantity s' = quantity s"
  using assms by (induction rule: rtranclp_induct) (auto simp: step_quantity step_inv)

end

section \<open>The steps of the bank\<close>

text \<open>A transfer, a payment, a settled payment request, a contribution, a scheduled run, the settlement
  worker and its failure handler, a forced settlement, a review, the approval and the reversal of a
  wire, and an edit of a transaction.\<close>

inductive bank_step :: "bank \<Rightarrow> bank \<Rightarrow> bool" where
  step_initiate: "initiate cf env ids u key dto s = Inr (r, s') \<Longrightarrow> 0 \<le> cf_feeMin cf \<Longrightarrow> bank_step s s'"
| step_pay: "pay cf env ids c u key pdto st = Inr (r, st') \<Longrightarrow> 0 \<le> cf_feeMin cf \<Longrightarrow> bank_step (ps_bank st) (ps_bank st')"
| step_request: "pay_request cf env ids u i key f st = (Inr r, st') \<Longrightarrow> 0 \<le> cf_feeMin cf \<Longrightarrow> bank_step (ps_bank st) (ps_bank st')"
| step_contribute: "contribute cf env ids u i key f a sv = Inr (r, sv') \<Longrightarrow> 0 \<le> cf_feeMin cf \<Longrightarrow> bank_step (sv_bank sv) (sv_bank sv')"
| step_recurring: "run_one cf env rids rc (n, table, s) = (n', table', s') \<Longrightarrow> 0 \<le> cf_feeMin cf \<Longrightarrow> bank_step s s'"
| step_weekly: "applyWeeklyContribution cf env ids c sv = (res, sv') \<Longrightarrow> 0 \<le> cf_feeMin cf \<Longrightarrow> bank_step (sv_bank sv) (sv_bank sv')"
| step_round_up: "applyForUser cf env ids u a sv = (res', sv') \<Longrightarrow> 0 \<le> cf_feeMin cf \<Longrightarrow> bank_step (sv_bank sv) (sv_bank sv')"
| step_process: "process now ids i s = Inr s' \<Longrightarrow> bank_step s s'"
| step_failed: "s' = onFailed now n m i reason s \<Longrightarrow> bank_step s s'"
| step_force: "force_settle_endpoint now q ids u i s = (res, s') \<Longrightarrow> bank_step s s'"
| step_decide: "decide now q ids u i d reason s = Inr s' \<Longrightarrow> bank_step s s'"
| step_wire_approve: "approve_wire now q ids u i reason s = Inr s' \<Longrightarrow> bank_step s s'"
| step_wire_reverse: "reverse_wire now ids u i r (s, ns) = Inr (s', ns') \<Longrightarrow> bank_step s s'"
| step_edit: "admin_edit s s' \<Longrightarrow> bank_step s s'"

definition fees_ok :: "bank \<Rightarrow> bool" where
  "fees_ok s = (\<forall>t \<in> set (db_transfers s). 0 \<le> tr_feeCents t)"

definition bank_inv :: "bank \<Rightarrow> bool" where
  "bank_inv s = (ledger_inv s \<and> fees_ok s)"

lemma fees_ok_map:
  assumes "map tr_feeCents (db_transfers s') = map tr_feeCents (db_transfers s)" "fees_ok s"
  shows "fees_ok s'"
proof -
  have "tr_feeCents ` set (db_transfers s') = tr_feeCents ` set (db_transfers s)"
    using assms(1) by (metis set_map)
  then show ?thesis using assms(2) unfolding fees_ok_def by (metis (no_types, lifting) image_iff)
qed

lemma fees_ok_same: "fees_ok s \<Longrightarrow> db_transfers s' = db_transfers s \<Longrightarrow> fees_ok s'"
  by (simp add: fees_ok_def)

lemma fees_ok_initiate:
  assumes "initiate cf env ids u key dto s = Inr (r, s')" "0 \<le> cf_feeMin cf" "fees_ok s"
  shows "fees_ok s'"
  using assms(1)
proof (cases rule: initiate_cases)
  case (fresh pl t s1)
  note c = initiate_commit_Inr [OF fresh(2)]
  have "tr_feeCents t = pl_feeCents pl" using c(1) by (simp add: pending_transfer_def)
  moreover have "db_transfers s' = db_transfers s @ [t]" using c(7) finish_snd(1) [OF fresh(3)] by simp
  ultimately show ?thesis using assms(3) plan_fee_nonneg [OF fresh(1) assms(2)] by (auto simp: fees_ok_def)
qed (use assms(3) in simp)

lemma fees_ok_process:
  assumes "process now ids i s = Inr s'" "fees_ok s"
  shows "fees_ok s'"
  using assms(1)
proof (cases rule: process_cases)
  case (settle t s1)
  show ?thesis using settle(3) by (intro fees_ok_map [OF _ assms(2)]) (simp add: settle_commit_Inr(5) [OF settle(2)] table_simps)
qed (use assms(2) in simp)

lemma fees_ok_reset: "fees_ok s \<Longrightarrow> fees_ok (reset_pending i t s)"
  by (rule fees_ok_map) (simp_all add: reset_pending_def table_simps)

lemma fees_ok_forceSettle: "fees_ok s \<Longrightarrow> fees_ok (snd (forceSettle now q ids i s))"
proof (cases rule: forceSettle_cases [of now q ids i s])
  case (queued t)
  assume "fees_ok s"
  then show ?thesis using queued fees_ok_same [OF fees_ok_reset] by simp
next
  case (ran t s')
  assume "fees_ok s"
  then show ?thesis using ran fees_ok_process fees_ok_reset by simp
qed (simp_all add: fees_ok_reset)

lemma fees_ok_decide:
  assumes "decide now q ids u i d reason s = Inr s'" "fees_ok s"
  shows "fees_ok s'"
  using assms(1)
proof (cases rule: decide_cases)
  case (approve t)
  define s3 where "s3 = emit (EvAdminQueueChanged (-1)) (audit_write now u ''transfer.review.approve'' ''transfer'' (tr_id t)
        [(''reason'', opt_text reason), (''amountCents'', AvText (show_int (tr_amountCents t)))]
        (stamp_approved now u (tr_id t) reason s))"
  have "fees_ok s3"
    by (rule fees_ok_map [OF _ assms(2)]) (simp add: s3_def stamp_approved_def table_simps)
  then have "fees_ok (snd (forceSettle now q ids (tr_id t) s3))" by (rule fees_ok_forceSettle)
  then show ?thesis by (rule fees_ok_same) (simp add: approve(3) approve_transfer_def Let_def s3_def)
next
  case (reject t s1)
  have "fees_ok s1"
    by (rule fees_ok_map [OF _ assms(2)]) (simp add: reject_commit_Inr(4) [OF reject(3)] stamp_rejected_def Let_def table_simps)
  then show ?thesis using reject(4) by (simp add: fees_ok_def)
qed

lemma fees_ok_approve_wire:
  assumes "approve_wire now q ids u i reason s = Inr s'" "fees_ok s"
  shows "fees_ok s'"
proof -
  have "fees_ok (stamp_approved now u i reason s)"
    by (rule fees_ok_map [OF _ assms(2)]) (simp add: stamp_approved_def table_simps)
  from fees_ok_forceSettle [OF this, of now q ids i] show ?thesis
    by (rule fees_ok_same) (use assms(1) in \<open>auto simp: approve_wire_def err_simps\<close>)
qed

lemma fees_ok_reverse_wire:
  assumes "reverse_wire now ids u i r (s, ns) = Inr (s', ns')" "fees_ok s"
  shows "fees_ok s'"
  using assms(1)
proof (cases rule: reverse_wire_cases)
  case (1 t s1)
  show ?thesis
    by (rule fees_ok_map [OF _ assms(2)]) (simp add: 1(5) reverse_wire_commit_Inr(4) [OF 1(4)] table_simps)
qed

text \<open>A step that starts a transfer does nothing else to the books.\<close>

definition keeps_books :: "bank \<Rightarrow> bank \<Rightarrow> bool" where
  "keeps_books s s' = ((bank_inv s \<longrightarrow> bank_inv s') \<and> drift s' = drift s)"

lemma keeps_books_same: "keeps_books s s"
  by (simp add: keeps_books_def)

lemma keeps_booksI:
  assumes "\<And>k. (ledger_inv s \<longrightarrow> ledger_inv s') \<and> drift s' k = drift s k" "fees_ok s \<Longrightarrow> fees_ok s'"
  shows "keeps_books s s'"
  using assms by (auto simp: keeps_books_def bank_inv_def)

lemma initiate_step: "initiate cf env ids u key dto s = Inr (r, s') \<Longrightarrow> 0 \<le> cf_feeMin cf \<Longrightarrow> keeps_books s s'"
  by (rule keeps_booksI) (auto simp: svc.books fees_ok_initiate)

lemma pay_step:
  assumes "pay cf env ids c u key dto st = Inr (r, st')" "0 \<le> cf_feeMin cf"
  shows "keeps_books (ps_bank st) (ps_bank st')"
proof -
  obtain recipient :: user and src dest :: account and kind s1 where
    j: "initiate cf env ids u key (pay_transfer kind (a_id src) (a_id dest) dto) (ps_bank st) = Inr (r, s1)"
    and b: "ps_bank st' = (if u_id recipient = u then s1
       else enrich_description (ir_pendingTransactionId r) (display_name recipient) s1)"
    using assms(1) by (rule pay_Inr) (rule that; assumption)
  have "ledger_inv (ps_bank st') = ledger_inv s1" "drift (ps_bank st') k = drift s1 k" for k
    by (rule ledger_inv_cong drift_same; simp add: b)+
  moreover have "fees_ok (ps_bank st') = fees_ok s1" by (simp add: b fees_ok_def)
  moreover have "drift (ps_bank st') = drift s1" using calculation(2) by blast
  ultimately have "ledger_inv (ps_bank st') = ledger_inv s1" "drift (ps_bank st') = drift s1"
    "fees_ok (ps_bank st') = fees_ok s1" by blast+
  then show ?thesis using initiate_step [OF j assms(2)] by (simp add: keeps_books_def bank_inv_def)
qed

lemma contribute_step:
  "contribute cf env ids u i key f a sv = Inr (r, sv') \<Longrightarrow> 0 \<le> cf_feeMin cf \<Longrightarrow> keeps_books (sv_bank sv) (sv_bank sv')"
  by (auto simp: contribute_def err_simps initiate_step)

lemma weekly_step:
  "applyWeeklyContribution cf env ids c sv = (res, sv') \<Longrightarrow> 0 \<le> cf_feeMin cf \<Longrightarrow> keeps_books (sv_bank sv) (sv_bank sv')"
  by (auto simp: applyWeeklyContribution_def keeps_books_same initiate_step
      split: option.splits if_splits sum.splits prod.splits)

lemma round_up_step:
  "applyForUser cf env ids u a sv = (res, sv') \<Longrightarrow> 0 \<le> cf_feeMin cf \<Longrightarrow> keeps_books (sv_bank sv) (sv_bank sv')"
  by (auto simp: applyForUser_def keeps_books_same initiate_step
      split: option.splits if_splits sum.splits prod.splits)

lemma process_step: "process now ids i s = Inr s' \<Longrightarrow> keeps_books s s'"
  by (rule keeps_booksI) (simp_all add: process_keeps_ledger fees_ok_process)

lemma edit_step: "admin_edit s s' \<Longrightarrow> keeps_books s s'"
  by (rule keeps_booksI) (simp_all add: admin_edit_books fees_ok_def admin_edit_transfers)

lemmas service_steps = initiate_step pay_step contribute_step weekly_step round_up_step process_step edit_step

lemma bank_step_books: "bank_step s s' \<Longrightarrow> bank_inv s \<Longrightarrow> keeps_books s s'"
proof (induction rule: bank_step.induct)
  case (step_request cf env ids u i key f st r st')
  then show ?case by (elim pay_request_Inr) (simp add: initiate_step)
next
  case (step_recurring cf env rids rc n table s n' table' s')
  then show ?case by (auto simp: run_one_def keeps_books_same initiate_step split: sum.splits prod.splits)
next
  case (step_decide now q ids u i d reason s s')
  then have "\<And>t. transfer_of s i = Some t \<Longrightarrow> 0 \<le> tr_feeCents t"
    by (auto simp: bank_inv_def fees_ok_def dest: find_unique_SomeD)
  then show ?case using decide_keeps_ledger [OF step_decide(1)] fees_ok_decide [OF step_decide(1)] by (intro keeps_booksI) auto
next
  case (step_wire_approve now q ids u i reason s s')
  then show ?case using approve_wire_keeps_ledger [OF step_wire_approve(1)] fees_ok_approve_wire by (intro keeps_booksI) auto
next
  case (step_wire_reverse now ids u i r s ns s' ns')
  then have "\<And>t. transfer_of s i = Some t \<Longrightarrow> 0 \<le> tr_feeCents t"
    by (auto simp: bank_inv_def fees_ok_def dest: find_unique_SomeD)
  then show ?case using reverse_wire_keeps_ledger [OF step_wire_reverse(1)] fees_ok_reverse_wire [OF step_wire_reverse(1)]
    by (intro keeps_booksI) auto
next
  case (step_force now q ids u i s res s')
  then show ?case using forceSettle_keeps_ledger [of s now q ids i] fees_ok_forceSettle [of s now q ids i]
    by (intro keeps_booksI) (auto simp: force_settle_endpoint_def split: sum.splits)
next
  case (step_failed s' now n m i reason s)
  have "fees_ok s \<Longrightarrow> fees_ok s'"
    by (rule fees_ok_map) (simp_all add: step_failed(1) onFailed_def markFailed_def table_simps)
  then show ?case using ledger_inv_cong [of s' s] drift_same [of s' s]
    by (intro keeps_booksI) (auto simp: step_failed(1) onFailed_def markFailed_def)
qed (simp_all add: service_steps)

interpretation books: conservation bank_step bank_inv drift
  using bank_step_books by unfold_locales (auto simp: keeps_books_def)

inductive_cases bank_step_cases: "bank_step s s'"

section \<open>Properties\<close>

text \<open>C1. The books survive every history: after any sequence of transfers, payments, contributions,
  scheduled runs, settlements, failures, forced settlements, reviews, wire approvals and reversals and
  administrative edits, every
  journal entry balances, no account has drifted from its sub-ledger, and the trial balance reports a
  difference of zero.\<close>

theorem history_keeps_books:
  assumes "bank_step\<^sup>*\<^sup>* s s'" "ledger_inv s" "\<forall>t \<in> set (db_transfers s). 0 \<le> tr_feeCents t"
  shows "ledger_inv s' \<and> (\<forall>k. drift s' k = drift s k) \<and> fst (computeAndReport s')"
proof -
  have "bank_inv s" using assms(2,3) by (simp add: bank_inv_def fees_ok_def)
  then have "bank_inv s'" "drift s' = drift s" using books.history [OF assms(1)] by simp_all
  then show ?thesis using trial_balance_balanced [of s'] by (simp add: bank_inv_def)
qed

text \<open>C2. A payment end to end: a new transfer between accounts below the review threshold, once the
  worker has settled it, has taken amount and fee from the source and given the amount to the
  destination, has left every other balance alone, has left nothing in PENDING_OUT and earned the
  bank exactly the fee.\<close>

theorem transfer_end_to_end:
  assumes "initiate cf env ids u key dto s = Inr (r, s1)" "0 \<le> cf_feeMin cf"
    and "find_unique tr_idempotencyKey key (db_transfers s) = None"
    and "d_kind dto = Internal \<or> d_kind dto = P2P" "d_toAccountId dto = Some dest" "dest \<noteq> ''''"
    and "transfer_of s1 (fst ids) = Some t" "\<not> tr_requiresReview t"
    and "process now ids' (fst ids) s1 = Inr s2"
  shows "(\<forall>k. balance_of s2 k = map_option (\<lambda>b. b
            - (if k = d_fromAccountId dto then tr_amountCents t + tr_feeCents t else 0)
            + (if k = dest then tr_amountCents t else 0)) (balance_of s k)) \<and>
         net_of s2 PendingOut = net_of s PendingOut \<and>
         net_of s2 FeeRevenue = net_of s FeeRevenue + tr_feeCents t \<and>
         (\<exists>t'. transfer_of s2 (fst ids) = Some t' \<and> tr_status t' = TxPosted)"
  using assms(1)
proof (cases rule: initiate_cases)
  case (fresh pl t0 s0)
  note com = initiate_commit_Inr [OF fresh(2)] and chk = initiate_check_Proceed [OF fresh(1)]
  have frame: "db_accounts s1 = db_accounts s0" "db_transfers s1 = db_transfers s0" "db_postings s1 = db_postings s0"
    using finish_snd(1) [OF fresh(3)] by simp_all
  have fid: "a_id (pl_from pl) = d_fromAccountId dto" by (rule plan_from_id [OF fresh(1)])
  have "transfer_of s1 (fst ids) = Some t0" using com(1,3,7) by (simp add: frame table_simps pending_transfer_def)
  then have t: "t = pending_transfer cf env u key dto pl (fst ids) (snd ids)" using assms(7) com(1) by simp
  have to: "(case pl_to pl of Some x \<Rightarrow> Some (a_id x) | None \<Rightarrow> Some dest) = Some dest"
    using chk(11) assms(5) by (auto simp: destination_def err_simps split: if_splits option.splits dest: find_unique_SomeD)
  have sel: "tr_toAccountId t = Some dest" "tr_status t = TxPending" "tr_amountCents t = pl_settlementCents pl"
    "tr_feeCents t = pl_feeCents pl" "tr_kind t = d_kind dto"
    using t to assms(5) by (simp_all add: pending_transfer_def split: option.splits)
  then have acc: "to_account t" "credited t = Some dest"
    using assms(4,6) by (auto simp: to_account_def credited_def truthy_str_def)
  have chk1: "settle_check (fst ids) s1 = Some t" using assms(7,8) sel(2) by (simp add: settle_check_Some)
  from assms(9) obtain s3 where m: "settle_commit now t ids' s1 = Inr s3" and s2: "s2 = settle_finish now t (fst ids') s3"
    by (cases rule: process_cases) (auto simp: chk1)
  have b: "balance_of s1 k = map_option (\<lambda>b. b - (if k = d_fromAccountId dto then tr_amountCents t + tr_feeCents t else 0))
      (balance_of s k)" for k
    by (cases "k = d_fromAccountId dto"; cases "account_of s k") (auto simp: balance_of_def frame com(6) fid sel table_simps)
  have n: "net_of s1 c = net_of s c + input_net c (pending_postings (d_fromAccountId dto) (tr_amountCents t) (tr_feeCents t))" for c
    by (simp add: net_of_def frame com(9) fid sel ledger_simps)
  have fee: "0 \<le> tr_feeCents t" using plan_fee_nonneg [OF fresh(1) assms(2)] sel(4) by simp
  have "balance_of s2 k = map_option (\<lambda>b. b
            - (if k = d_fromAccountId dto then tr_amountCents t + tr_feeCents t else 0)
            + (if k = dest then tr_amountCents t else 0)) (balance_of s k)" for k
  proof -
    have "balance_of s2 k = balance_of s3 k" by (simp add: s2 balance_of_def)
    then show ?thesis using balance_after_settle [OF m, of k] b [of k] acc(2)
      by (cases "balance_of s k") auto
  qed
  moreover have "net_of s2 c = net_of s3 c" for c by (simp add: s2 net_of_def)
  then have "net_of s2 PendingOut = net_of s PendingOut" "net_of s2 FeeRevenue = net_of s FeeRevenue + tr_feeCents t"
    using net_after_settle [OF m, of PendingOut] net_after_settle [OF m, of FeeRevenue] n acc fee
    by (simp_all add: settle_source_def settle_target_def pending_postings_net)
  moreover have "transfer_of s2 (fst ids) = Some (t\<lparr>tr_status := TxPosted, tr_settledAt := Some now,
           tr_settledTransactionId := Some (fst ids')\<rparr>)"
    using find_settled [OF assms(7) m] by (simp add: s2)
  ultimately show ?thesis by simp
qed (use assms(3) in simp)

end
