(* ===== verification/Tx_Feed.thy ===== *)
theory Tx_Feed
  imports Admin_Transactions "HOL-Library.Product_Lexorder"
begin

text \<open>
  The transaction lists: the opaque page cursor (\<^verbatim>\<open>transactions/cursor.util.ts\<close>), the customer's
  feed (\<^verbatim>\<open>transactions/transactions.service.ts\<close>, \<^verbatim>\<open>transactions.repository.ts\<close>,
  \<^verbatim>\<open>dto/transaction.dto.ts\<close>) and the administrator's list of the same rows. Both page by the key
  (time, id), newest first. Identifiers compare by code point, as the database compares UUIDs.
  Merchants are not part of the shared state; the filter on a merchant's name is a parameter.
\<close>

section \<open>Cursor encoding\<close>

text \<open>\<open>JSON.stringify\<close> of a cursor whose fields need no escapes, and its base64url form.\<close>

record tx_cursor =
  cur_occurredAt :: string
  cur_id :: string

definition cursor_json :: "tx_cursor \<Rightarrow> string" where
  "cursor_json c = [CHR ''{''] @ [CHR 0x22] @ ''occurredAt'' @ [CHR 0x22, CHR '':'', CHR 0x22] @ cur_occurredAt c @
     [CHR 0x22, CHR '','', CHR 0x22] @ ''id'' @ [CHR 0x22, CHR '':'', CHR 0x22] @ cur_id c @ [CHR 0x22] @ [CHR ''}'']"

definition b64_char :: "nat \<Rightarrow> char" where
  "b64_char n = (if n < 26 then char_of (65 + n) else if n < 52 then char_of (71 + n)
     else if n < 62 then char_of (n - 4) else if n = 62 then CHR ''-'' else CHR ''_'')"

fun base64url :: "nat list \<Rightarrow> string" where
  "base64url [] = []"
| "base64url [a] = [b64_char (a div 4), b64_char (a mod 4 * 16)]"
| "base64url [a, b] = [b64_char (a div 4), b64_char (a mod 4 * 16 + b div 16), b64_char (b mod 16 * 4)]"
| "base64url (a # b # c # bs) =
     [b64_char (a div 4), b64_char (a mod 4 * 16 + b div 16), b64_char (b mod 16 * 4 + c div 64), b64_char (c mod 64)] @
     base64url bs"

definition encodeCursor :: "tx_cursor \<Rightarrow> string" where
  "encodeCursor c = base64url (map of_char (cursor_json c))"

text \<open>The length limit on the query's \<open>cursor\<close> field (\<open>@MaxLength(64)\<close>).\<close>

definition cursor_accepted :: "string \<Rightarrow> bool" where
  "cursor_accepted c = (length c \<le> 64)"

section \<open>Pages\<close>

definition tx_key :: "transaction \<Rightarrow> int \<times> string" where
  "tx_key t = (t_occurredAt t, t_id t)"

text \<open>\<open>orderBy: [{ occurredAt: 'desc' }, { id: 'desc' }]\<close>.\<close>

definition newest_first :: "transaction list \<Rightarrow> transaction list" where
  "newest_first xs = rev (sort_key tx_key xs)"

text \<open>\<open>occurredAt < c.occurredAt or occurredAt = c.occurredAt and id < c.id\<close>.\<close>

definition before_cursor :: "(int \<times> string) option \<Rightarrow> transaction \<Rightarrow> bool" where
  "before_cursor c t = (case c of None \<Rightarrow> True
     | Some (w, i) \<Rightarrow> t_occurredAt t < w \<or> t_occurredAt t = w \<and> t_id t < i)"

record tx_filters =
  fl_status :: "tx_status option"
  fl_categories :: "tx_category list"
  fl_from :: "int option"
  fl_to :: "int option"
  fl_q :: "string option"

definition matches :: "(transaction \<Rightarrow> string \<Rightarrow> bool) \<Rightarrow> string list \<Rightarrow> tx_filters \<Rightarrow> transaction \<Rightarrow> bool" where
  "matches merchantContains accountIds f t =
     (t_accountId t \<in> set accountIds \<and>
      (case fl_status f of None \<Rightarrow> True | Some st \<Rightarrow> t_status t = st) \<and>
      (fl_categories f = [] \<or> t_category t \<in> set (fl_categories f)) \<and>
      (case fl_from f of None \<Rightarrow> True | Some x \<Rightarrow> x \<le> t_occurredAt t) \<and>
      (case fl_to f of None \<Rightarrow> True | Some x \<Rightarrow> t_occurredAt t \<le> x) \<and>
      (case fl_q f of None \<Rightarrow> True
       | Some q \<Rightarrow> q = '''' \<or> contains (to_lower q) (to_lower (t_description t)) \<or> merchantContains t q))"

definition repo_list ::
  "(transaction \<Rightarrow> string \<Rightarrow> bool) \<Rightarrow> string list \<Rightarrow> tx_filters \<Rightarrow> (int \<times> string) option \<Rightarrow> nat \<Rightarrow> bank \<Rightarrow> transaction list" where
  "repo_list mc accountIds f cursor limit s =
     take (limit + 1) (newest_first
       (filter (\<lambda>t. matches mc accountIds f t \<and> before_cursor cursor t) (db_transactions s)))"

text \<open>\<open>hasMore\<close>, the page and the key the next cursor encodes.\<close>

definition page_of :: "nat \<Rightarrow> transaction list \<Rightarrow> transaction list \<times> (int \<times> string) option" where
  "page_of limit rows =
     (let hasMore = length rows > limit;
          items = (if hasMore then take limit rows else rows)
      in (items, if hasMore \<and> items \<noteq> [] then Some (tx_key (last items)) else None))"

definition resolveAccountIds :: "string \<Rightarrow> string option \<Rightarrow> bank \<Rightarrow> string list result" where
  "resolveAccountIds userId accountId s =
     (let all = map a_id (filter (\<lambda>a. a_userId a = userId) (db_accounts s))
      in if \<not> truthy_str accountId then Inr all
         else if the accountId \<notin> set all then Inl (Forbidden ''Account not accessible'')
         else Inr [the accountId])"

section \<open>Rows as the customer sees them\<close>

fun dto_status :: "override_status \<Rightarrow> tx_status" where
  "dto_status OvPending = TxPending"
| "dto_status OvSettled = TxPosted"
| "dto_status OvDeclined = TxDeclined"
| "dto_status OvReversed = TxReversed"
| "dto_status OvHidden = TxPosted"

record transaction_view =
  tv_id :: string
  tv_accountId :: string
  tv_kind :: tx_kind
  tv_status :: tx_status
  tv_amountCents :: int
  tv_description :: string
  tv_category :: tx_category
  tv_note :: "string option"
  tv_occurredAt :: int
  tv_postedAt :: "int option"
  tv_counterpartyName :: "string option"

definition toTransactionDto :: "transaction \<Rightarrow> tx_override option \<Rightarrow> string option \<Rightarrow> transaction_view" where
  "toTransactionDto t ov counterparty =
     \<lparr>tv_id = t_id t, tv_accountId = t_accountId t, tv_kind = t_kind t,
      tv_status = (case Option.bind ov o_status of Some os \<Rightarrow> dto_status os | None \<Rightarrow> t_status t),
      tv_amountCents = shadow ov o_amountCents (t_amountCents t),
      tv_description = shadow ov o_description (t_description t),
      tv_category = shadow ov o_category (t_category t), tv_note = t_note t,
      tv_occurredAt = shadow ov o_occurredAt (t_occurredAt t), tv_postedAt = t_postedAt t,
      tv_counterpartyName = counterparty\<rparr>"

section \<open>Counterparties\<close>

text \<open>\<open>txByTransferId\<close>: first the rows whose metadata names a transfer (a later row replaces an
  earlier one), then the transfers that point at a row and have no entry yet.\<close>

definition meta_link :: "transaction \<Rightarrow> string option" where
  "meta_link t = (case t_metadata t of None \<Rightarrow> None
     | Some m \<Rightarrow> if truthy_str (m_transferId m) then m_transferId m else None)"

definition meta_links :: "transaction list \<Rightarrow> (string \<times> string \<times> string) list" where
  "meta_links rows = fold (\<lambda>t m. case meta_link t of None \<Rightarrow> m
     | Some i \<Rightarrow> (i, t_id t, t_accountId t) # m) rows []"

definition linked_transfers :: "transaction list \<Rightarrow> bank \<Rightarrow> transfer list" where
  "linked_transfers rows s =
     (let txIds = map t_id rows
      in filter (\<lambda>t. map_of (meta_links rows) (tr_id t) \<noteq> None \<or>
                    (\<exists>i \<in> set txIds. tr_pendingTransactionId t = Some i \<or> tr_settledTransactionId t = Some i))
           (db_transfers s))"

definition backfill :: "transaction list \<Rightarrow> transfer \<Rightarrow> (string \<times> string \<times> string) list \<Rightarrow> (string \<times> string \<times> string) list" where
  "backfill rows t m =
     (case nullish (tr_pendingTransactionId t) (tr_settledTransactionId t) of
        None \<Rightarrow> m
      | Some x \<Rightarrow>
          (case find_unique t_id x rows of
             Some r \<Rightarrow> if x \<noteq> '''' \<and> map_of m (tr_id t) = None then (tr_id t, x, t_accountId r) # m else m
           | None \<Rightarrow> m))"

definition counterparty_of :: "bank \<Rightarrow> transfer \<Rightarrow> string \<Rightarrow> string option" where
  "counterparty_of s t accountId =
     (let other = (if accountId = tr_fromAccountId t then tr_toAccountId t
                   else if Some accountId = tr_toAccountId t then Some (tr_fromAccountId t) else None);
          otherUser = (if truthy_str other then map_option a_userId (account_of s (the other)) else None);
          owner = map_option a_userId (account_of s accountId)
      in if truthy_str otherUser \<and> otherUser \<noteq> owner
         then (case user_of s (the otherUser) of None \<Rightarrow> None
               | Some u \<Rightarrow> if display_name u = '''' then None else Some (display_name u))
         else None)"

definition resolveCounterparties :: "transaction list \<Rightarrow> bank \<Rightarrow> (string \<times> string) list" where
  "resolveCounterparties rows s =
     (let transfers = linked_transfers rows s;
          links = fold (backfill rows) transfers (meta_links rows)
      in fold (\<lambda>t out. case map_of links (tr_id t) of None \<Rightarrow> out
            | Some (txId, accountId) \<Rightarrow>
                (case counterparty_of s t accountId of None \<Rightarrow> out | Some n \<Rightarrow> (txId, n) # out))
          transfers [])"

section \<open>Handlers\<close>

definition list_transactions ::
  "(transaction \<Rightarrow> string \<Rightarrow> bool) \<Rightarrow> nat \<Rightarrow> nat \<Rightarrow> string \<Rightarrow> string option \<Rightarrow> tx_filters \<Rightarrow> (int \<times> string) option \<Rightarrow>
     nat option \<Rightarrow> bank \<Rightarrow> (transaction_view list \<times> (int \<times> string) option) result" where
  "list_transactions mc defaultLimit maxLimit userId accountId f cursor limit s =
     ebind (resolveAccountIds userId accountId s) (\<lambda>accountIds.
     if accountIds = [] then Inr ([], None)
     else
       (let lim = min (case limit of None \<Rightarrow> defaultLimit | Some l \<Rightarrow> l) maxLimit;
            (items, next) = page_of lim (repo_list mc accountIds f cursor lim s);
            visible = filter (\<lambda>t. \<not> isHidden (override_of s (t_id t))) items;
            names = resolveCounterparties visible s
        in Inr (map (\<lambda>t. toTransactionDto t (override_of s (t_id t)) (map_of names (t_id t))) visible, next)))"

definition getOne :: "string \<Rightarrow> string \<Rightarrow> bank \<Rightarrow> transaction_view result" where
  "getOne userId i s =
     (case findWithOverride i s of
        None \<Rightarrow> Inl (NotFound ''Transaction not found'')
      | Some (t, a, ov) \<Rightarrow>
          if a_userId a \<noteq> userId then Inl (NotFound ''Transaction not found'')
          else Inr (toTransactionDto t ov (map_of (resolveCounterparties [t] s) (t_id t))))"

text \<open>The administrator's list and detail view.\<close>

definition admin_matches :: "string option \<Rightarrow> string option \<Rightarrow> int option \<Rightarrow> int option \<Rightarrow> bank \<Rightarrow> transaction \<Rightarrow> bool" where
  "admin_matches userId accountId from to s t =
     ((if truthy_str accountId then t_accountId t = the accountId
       else if truthy_str userId then map_option a_userId (account_of s (t_accountId t)) = userId else True) \<and>
      (case from of None \<Rightarrow> True | Some x \<Rightarrow> x \<le> t_occurredAt t) \<and>
      (case to of None \<Rightarrow> True | Some x \<Rightarrow> t_occurredAt t \<le> x))"

definition admin_repo_list ::
  "string option \<Rightarrow> string option \<Rightarrow> int option \<Rightarrow> int option \<Rightarrow> (int \<times> string) option \<Rightarrow> nat \<Rightarrow> bank \<Rightarrow> transaction list" where
  "admin_repo_list userId accountId from to cursor limit s =
     take (limit + 1) (newest_first
       (filter (\<lambda>t. admin_matches userId accountId from to s t \<and> before_cursor cursor t) (db_transactions s)))"

record admin_tx_row =
  ar_transaction :: transaction
  ar_userId :: "string option"
  ar_effective :: effective_fields
  ar_hidden :: bool
  ar_override :: "tx_override option"

definition flatten :: "bank \<Rightarrow> transaction \<Rightarrow> admin_tx_row" where
  "flatten s t = \<lparr>ar_transaction = t, ar_userId = map_option a_userId (account_of s (t_accountId t)),
     ar_effective = effectiveOf t (override_of s (t_id t)), ar_hidden = isHidden (override_of s (t_id t)),
     ar_override = override_of s (t_id t)\<rparr>"

definition admin_list ::
  "string option \<Rightarrow> string option \<Rightarrow> int option \<Rightarrow> int option \<Rightarrow> (int \<times> string) option \<Rightarrow> nat option \<Rightarrow> bank \<Rightarrow>
     admin_tx_row list \<times> (int \<times> string) option" where
  "admin_list userId accountId from to cursor limit s =
     (let lim = (case limit of None \<Rightarrow> 50 | Some l \<Rightarrow> l);
          (items, next) = page_of lim (admin_repo_list userId accountId from to cursor lim s)
      in (map (flatten s) items, next))"

definition admin_getOne :: "string \<Rightarrow> bank \<Rightarrow> (transaction \<times> effective_fields \<times> tx_override option) result" where
  "admin_getOne i s =
     (case findWithOverride i s of
        None \<Rightarrow> Inl (NotFound ''Transaction not found'')
      | Some (t, a, ov) \<Rightarrow> Inr (t, effectiveOf t ov, ov))"

section \<open>Lemmas\<close>

lemma length_base64url: "length (base64url bs) = (4 * length bs + 2) div 3"
  by (induction bs rule: base64url.induct) simp_all

lemma before_cursor_key: "before_cursor (Some k) = (\<lambda>t. tx_key t < k)"
  by (rule ext, cases k) (auto simp: before_cursor_def tx_key_def)

lemma before_cursor_None [simp]: "before_cursor None t"
  by (simp add: before_cursor_def)

lemma sorted_newest: "distinct (map tx_key xs) \<Longrightarrow> sorted_wrt (\<lambda>x y. tx_key y < tx_key x) (newest_first xs)"
proof -
  assume d: "distinct (map tx_key xs)"
  have "distinct (map tx_key (sort_key tx_key xs))"
    using d by (simp add: distinct_map)
  then have "sorted_wrt (<) (map tx_key (sort_key tx_key xs))"
    by (simp add: strict_sorted_iff)
  then show ?thesis by (simp add: newest_first_def sorted_wrt_rev sorted_wrt_map)
qed

lemma filter_newest: "filter P (newest_first xs) = newest_first (filter P xs)"
  by (simp add: newest_first_def filter_sort flip: rev_filter)

text \<open>Keeping what lies before the n-th key of a strictly falling list drops the first n.\<close>

lemma filter_before_nth:
  assumes "sorted_wrt (\<lambda>x y. tx_key y < tx_key x) xs" "n < length xs"
  shows "filter (\<lambda>t. tx_key t < tx_key (xs ! n)) xs = drop (Suc n) xs"
proof -
  have "filter (\<lambda>t. tx_key t < tx_key (xs ! n)) (take (Suc n) xs) = []"
  proof (rule filter_False, rule ballI)
    fix t assume "t \<in> set (take (Suc n) xs)"
    then obtain k where k: "k < Suc n" "t = xs ! k" using assms(2) by (auto simp: in_set_conv_nth)
    then have "k = n \<or> tx_key (xs ! n) < tx_key t"
      using assms sorted_wrt_nth_less [OF assms(1), of k n] by (cases "k = n") auto
    then show "\<not> tx_key t < tx_key (xs ! n)" using k by auto
  qed
  moreover have "filter (\<lambda>t. tx_key t < tx_key (xs ! n)) (drop (Suc n) xs) = drop (Suc n) xs"
  proof (rule filter_True, rule ballI)
    fix t assume "t \<in> set (drop (Suc n) xs)"
    then obtain k where "k < length xs - Suc n" "t = xs ! (Suc n + k)" by (auto simp: in_set_conv_nth)
    then show "tx_key t < tx_key (xs ! n)"
      using assms(1) sorted_wrt_nth_less [OF assms(1), of n "Suc n + k"] by auto
  qed
  ultimately show ?thesis by (metis append_Nil append_take_drop_id filter_append)
qed

definition feed_rows :: "(transaction \<Rightarrow> string \<Rightarrow> bool) \<Rightarrow> string list \<Rightarrow> tx_filters \<Rightarrow> bank \<Rightarrow> transaction list" where
  "feed_rows mc accountIds f s = newest_first (filter (matches mc accountIds f) (db_transactions s))"

lemma repo_list_eq:
  "repo_list mc ids f c limit s = take (limit + 1) (filter (before_cursor c) (feed_rows mc ids f s))"
  by (simp add: repo_list_def feed_rows_def filter_newest conj_commute)

lemma feed_rows_sorted:
  "distinct (map t_id (db_transactions s)) \<Longrightarrow> sorted_wrt (\<lambda>x y. tx_key y < tx_key x) (feed_rows mc ids f s)"
proof -
  assume "distinct (map t_id (db_transactions s))"
  then have "distinct (map tx_key (filter (matches mc ids f) (db_transactions s)))"
    by (auto simp: distinct_map tx_key_def intro: inj_on_subset elim!: inj_onD intro!: inj_onI)
  then show ?thesis by (simp add: feed_rows_def sorted_newest)
qed

lemma page_of_take:
  "0 < limit \<Longrightarrow> page_of limit (take (limit + 1) xs) =
     (take limit xs, if limit < length xs then Some (tx_key (xs ! (limit - 1))) else None)"
  by (auto simp: page_of_def Let_def min_def last_conv_nth)

text \<open>Walking the pages: ask for the first page, then follow the cursors.\<close>

fun walk :: "(transaction \<Rightarrow> string \<Rightarrow> bool) \<Rightarrow> string list \<Rightarrow> tx_filters \<Rightarrow> nat \<Rightarrow> bank \<Rightarrow> nat \<Rightarrow> (int \<times> string) option \<Rightarrow> transaction list" where
  "walk mc ids f limit s 0 cursor = []"
| "walk mc ids f limit s (Suc fuel) cursor =
     (case page_of limit (repo_list mc ids f cursor limit s) of
        (items, None) \<Rightarrow> items
      | (items, Some k) \<Rightarrow> items @ walk mc ids f limit s fuel (Some k))"

lemma walk_from:
  assumes "distinct (map t_id (db_transactions s))" "0 < limit"
    and "filter (before_cursor c) (feed_rows mc ids f s) = drop n (feed_rows mc ids f s)"
    and "length (feed_rows mc ids f s) < n + fuel"
  shows "walk mc ids f limit s fuel c = drop n (feed_rows mc ids f s)"
  using assms(3,4)
proof (induction fuel arbitrary: c n)
  case (Suc fuel)
  let ?all = "feed_rows mc ids f s"
  have page: "page_of limit (repo_list mc ids f c limit s) = (take limit (drop n ?all),
      if limit < length (drop n ?all) then Some (tx_key (drop n ?all ! (limit - 1))) else None)"
    using page_of_take [OF assms(2)] Suc.prems(1) by (simp add: repo_list_eq)
  show ?case
  proof (cases "limit < length (drop n ?all)")
    case False
    then show ?thesis using page by simp
  next
    case True
    let ?k = "tx_key (?all ! (n + (limit - 1)))"
    have "filter (before_cursor (Some ?k)) ?all = drop (n + limit) ?all"
      using filter_before_nth [OF feed_rows_sorted [OF assms(1)], of "n + (limit - 1)" mc ids f] True assms(2)
      by (simp add: before_cursor_key)
    then have "walk mc ids f limit s fuel (Some ?k) = drop (n + limit) ?all"
      using Suc.prems(2) assms(2) by (intro Suc.IH) auto
    moreover have "take limit (drop n ?all) @ drop (n + limit) ?all = drop n ?all"
      by (metis add.commute append_take_drop_id drop_drop)
    ultimately show ?thesis using page True by simp
  qed
qed simp

section \<open>Properties\<close>


text \<open>The cursor a page hands out is refused when it comes back: for a row with an ISO timestamp
  and a UUID it is 114 characters long, and the query accepts at most 64.\<close>

theorem cursor_never_accepted:
  assumes "length (cur_occurredAt c) = 24" "length (cur_id c) = 36"
  shows "length (encodeCursor c) = 114 \<and> \<not> cursor_accepted (encodeCursor c)"
  using assms by (simp add: encodeCursor_def length_base64url cursor_json_def cursor_accepted_def)

text \<open>The customer's feed shows only transactions of accounts the customer owns, none that an
  administrator has hidden, and each with the amount, text, category and status that the
  administrator's view calls effective.\<close>

theorem feed_shows_own_visible_rows:
  assumes "list_transactions mc dl ml userId accountId f cursor limit s = Inr (views, next)" "v \<in> set views"
  shows "\<exists>t. t \<in> set (db_transactions s) \<and> tv_id v = t_id t \<and>
           (\<exists>a \<in> set (db_accounts s). a_id a = t_accountId t \<and> a_userId a = userId) \<and>
           \<not> isHidden (override_of s (t_id t)) \<and>
           (let e = effectiveOf t (override_of s (t_id t)) in
            tv_amountCents v = ef_amountCents e \<and> tv_description v = ef_description e \<and>
            tv_category v = ef_category e \<and> tv_occurredAt v = ef_occurredAt e \<and> tv_status v = ef_status e)"
proof -
  obtain ids where ids: "resolveAccountIds userId accountId s = Inr ids" "ids \<noteq> []"
    using assms by (auto simp: list_transactions_def err_simps split: if_splits)
  let ?lim = "min (case limit of None \<Rightarrow> dl | Some l \<Rightarrow> l) ml"
  obtain items next' where p: "page_of ?lim (repo_list mc ids f cursor ?lim s) = (items, next')" by fastforce
  obtain t c where t: "t \<in> set items" "\<not> isHidden (override_of s (t_id t))"
    and v: "v = toTransactionDto t (override_of s (t_id t)) c"
    using assms ids p by (auto simp: list_transactions_def Let_def err_simps)
  have "t \<in> set (repo_list mc ids f cursor ?lim s)"
    using p t(1) by (auto simp: page_of_def Let_def dest: in_set_takeD split: if_splits)
  then have in_db: "t \<in> set (db_transactions s)" "t_accountId t \<in> set ids"
    by (auto simp: repo_list_def newest_first_def matches_def dest!: in_set_takeD)
  have "set ids \<subseteq> a_id ` {a \<in> set (db_accounts s). a_userId a = userId}"
    using ids(1) by (auto simp: resolveAccountIds_def Let_def split: if_splits)
  then have "\<exists>a \<in> set (db_accounts s). a_id a = t_accountId t \<and> a_userId a = userId" using in_db(2) by force
  moreover have "os \<noteq> OvHidden \<Longrightarrow> dto_status os = overrideStatusToTxStatus os" for os
    by (cases os) auto
  ultimately show ?thesis using t v in_db(1)
    by (auto simp: toTransactionDto_def effectiveOf_def Let_def isHidden_def split: option.splits
        bind_splits intro!: exI [of _ t])
qed

text \<open>Reading one transaction by its identifier does not look at the override's hidden flag: a
  transaction that an administrator has just hidden is still returned to its owner.\<close>

theorem hidden_row_readable_by_id:
  assumes "hide now u i reason s = Inr s'" "findWithOverride i s = Some (t, a, ov)"
  shows "\<exists>v. getOne (a_userId a) i s' = Inr v \<and> tv_id v = i \<and> isHidden (override_of s' i)"
proof -
  have "findWithOverride i s' = Some (t, a, override_of s' i)"
    using assms(2) hide_Inr(2,6) [OF assms(1)] by (simp add: findWithOverride_Some)
  moreover have "t_id t = i" using assms(2) by (auto simp: findWithOverride_Some dest: find_unique_SomeD)
  ultimately show ?thesis using hide_Inr(7) [OF assms(1)]
    by (simp add: getOne_def toTransactionDto_def)
qed

end
