(* ===== verification/Check_Deposits.thy ===== *)
theory Check_Deposits
  imports Ledger
begin

text \<open>
  Mobile check deposits (\<^verbatim>\<open>check-deposits/check-deposits.service.ts\<close>): a customer submits two images and
  an amount, an administrator approves or rejects. The state adds the deposit table, the image store
  and the messages to administrators to the bank. The storage driver accepts every object; message
  texts are represented by the facts they state. Approval is split at its database transaction, so
  that two approvals of one deposit can interleave.
\<close>

datatype deposit_status = DepPending | DepApproved | DepRejected

record image =
  im_contentType :: string
  im_bytes :: string

record check_deposit =
  ck_id :: string
  ck_userId :: string
  ck_accountId :: string
  ck_amountCents :: int
  ck_displayAmountCents :: "int option"
  ck_displayCurrency :: "string option"
  ck_status :: deposit_status
  ck_frontKey :: string
  ck_backKey :: string
  ck_submittedAt :: int
  ck_decidedAt :: "int option"
  ck_decidedByUserId :: "string option"
  ck_decisionReason :: "string option"
  ck_transactionId :: "string option"

record submit_input =
  si_userId :: string
  si_amountCents :: int
  si_displayAmountCents :: "int option"
  si_displayCurrency :: "string option"
  si_front :: image
  si_back :: image

text \<open>What one message to an administrator says, with the names of its attachments.\<close>

record admin_notice =
  an_to :: string
  an_reference :: string
  an_depositId :: string
  an_customer :: string
  an_amount :: string
  an_attachments :: "string list"

record deposit_state =
  ds_bank :: bank
  ds_deposits :: "check_deposit list"
  ds_storage :: "(string \<times> image) list"
  ds_notices :: "admin_notice list"

record deposit_config =
  dc_maxBytes :: int
  dc_adminEmails :: "string option"
  dc_notificationEmails :: "string option"

definition ALLOWED_MIME :: "string list" where
  "ALLOWED_MIME = [''image/jpeg'', ''image/png'', ''image/webp'']"

definition DEFAULT_MAX_BYTES :: int where
  "DEFAULT_MAX_BYTES = 8 * 1024 * 1024"

section \<open>Submitting\<close>

text \<open>\<open>(n / (1024 * 1024)).toFixed(1)\<close>: the quotient by a power of two is exact.\<close>

definition megabytes :: "int \<Rightarrow> string" where
  "megabytes n = (let t = (20 * n + 1048576) div (2 * 1048576) in show_digits (t div 10) @ ''.'' @ show_digits (t mod 10))"

definition validateImage :: "deposit_config \<Rightarrow> string \<Rightarrow> image \<Rightarrow> unit result" where
  "validateImage cfg side img =
     ebind (require (im_bytes img \<noteq> []) (BadRequest (side @ '' image is required''))) (\<lambda>_.
     ebind (require (im_contentType img \<in> set ALLOWED_MIME)
              (BadRequest (side @ '' image must be JPEG, PNG, or WebP (got '' @ im_contentType img @ '')''))) (\<lambda>_.
     require (\<not> dc_maxBytes cfg < int (length (im_bytes img)))
       (BadRequest (side @ '' image exceeds '' @ megabytes (dc_maxBytes cfg) @ '' MB''))))"

definition extOf :: "string \<Rightarrow> string" where
  "extOf ct = (if ct = ''image/png'' then ''png'' else if ct = ''image/webp'' then ''webp'' else ''jpg'')"

definition side_key :: "string \<Rightarrow> string \<Rightarrow> string \<Rightarrow> image \<Rightarrow> string" where
  "side_key userId depositId side img =
     ''user/'' @ userId @ ''/check-deposits/'' @ depositId @ ''-'' @ side @ ''.'' @ extOf (im_contentType img)"

definition storeSide :: "string \<Rightarrow> string \<Rightarrow> string \<Rightarrow> image \<Rightarrow> deposit_state \<Rightarrow> string \<times> deposit_state" where
  "storeSide userId depositId side img st =
     (let key = side_key userId depositId side img
      in (key, st\<lparr>ds_storage := (key, img) # filter (\<lambda>e. fst e \<noteq> key) (ds_storage st)\<rparr>))"

definition formatDepositRef :: "string \<Rightarrow> string" where
  "formatDepositRef i = ''CHK-'' @ take 8 (to_upper (filter (\<lambda>c. c \<noteq> CHR ''-'') i))"

definition deposit_formatCents :: "int \<Rightarrow> string" where
  "deposit_formatCents c =
     (if c < 0 then ''-'' else '''') @ ''$'' @ show_digits (js_div \<bar>c\<bar> 100) @ ''.'' @ pad2 (show_digits (js_mod \<bar>c\<bar> 100))"

definition recipients :: "deposit_config \<Rightarrow> string list" where
  "recipients cfg =
     (let raw = (case dc_adminEmails cfg of Some x \<Rightarrow> x
                 | None \<Rightarrow> (case dc_notificationEmails cfg of Some x \<Rightarrow> x | None \<Rightarrow> ''''))
      in filter (\<lambda>x. x \<noteq> '''') (map js_trim (split_on (CHR '','') raw)))"

definition customer_label :: "string \<Rightarrow> bank \<Rightarrow> string" where
  "customer_label userId s =
     (case user_of s userId of
        None \<Rightarrow> userId
      | Some u \<Rightarrow> if full_name u \<noteq> '''' then full_name u
                  else if truthy_str (u_novaTag u) then the (u_novaTag u) else userId)"

definition notifyAdmins :: "deposit_config \<Rightarrow> string \<Rightarrow> submit_input \<Rightarrow> deposit_state \<Rightarrow> deposit_state" where
  "notifyAdmins cfg depositId input st =
     st\<lparr>ds_notices := ds_notices st @
        map (\<lambda>to. \<lparr>an_to = to, an_reference = formatDepositRef depositId, an_depositId = depositId,
                   an_customer = customer_label (si_userId input) (ds_bank st),
                   an_amount = deposit_formatCents (si_amountCents input),
                   an_attachments = [''check-'' @ depositId @ ''-front.'' @ extOf (im_contentType (si_front input)),
                                     ''check-'' @ depositId @ ''-back.'' @ extOf (im_contentType (si_back input))]\<rparr>)
          (recipients cfg)\<rparr>"

definition submit :: "deposit_config \<Rightarrow> int \<Rightarrow> string \<Rightarrow> submit_input \<Rightarrow> deposit_state \<Rightarrow> deposit_state result" where
  "submit cfg now newId input st =
     ebind (validateImage cfg ''front'' (si_front input)) (\<lambda>_.
     ebind (validateImage cfg ''back'' (si_back input)) (\<lambda>_.
     ebind (require (\<not> si_amountCents input \<le> 0) (BadRequest ''Amount must be positive'')) (\<lambda>_.
     ebind (require (\<not> 50000000 < si_amountCents input)
              (BadRequest ''Amount exceeds mobile-deposit limit ($500,000)'')) (\<lambda>_.
     ebind (or_throw (BadRequest ''No checking account is set up to receive the deposit.'')
              (find_first (\<lambda>a. a_userId a = si_userId input \<and> a_type a = Checking) (db_accounts (ds_bank st)))) (\<lambda>checking.
     let (frontKey, st1) = storeSide (si_userId input) newId ''front'' (si_front input) st;
         (backKey, st2) = storeSide (si_userId input) newId ''back'' (si_back input) st1
     in ebind (create_unique ''id'' ck_id
          \<lparr>ck_id = newId, ck_userId = si_userId input, ck_accountId = a_id checking,
           ck_amountCents = si_amountCents input, ck_displayAmountCents = si_displayAmountCents input,
           ck_displayCurrency = si_displayCurrency input, ck_status = DepPending, ck_frontKey = frontKey,
           ck_backKey = backKey, ck_submittedAt = now, ck_decidedAt = None, ck_decidedByUserId = None,
           ck_decisionReason = None, ck_transactionId = None\<rparr> (ds_deposits st2)) (\<lambda>ds.
        Inr (notifyAdmins cfg newId input (st2\<lparr>ds_deposits := ds\<rparr>))))))))"

section \<open>The queue\<close>

record deposit_view =
  dv_deposit :: check_deposit
  dv_reference :: string
  dv_customerName :: string
  dv_customerEmail :: "string option"
  dv_customerNovaTag :: "string option"
  dv_customerAvatarUrl :: "string option"
  dv_frontUrl :: "string option"
  dv_backUrl :: "string option"

text \<open>\<open>presign\<close> is the storage driver's link for a key, absent when it fails.\<close>

definition deposit_row :: "(string \<Rightarrow> string option) \<Rightarrow> bank \<Rightarrow> check_deposit \<Rightarrow> deposit_view" where
  "deposit_row presign s r =
     (let u = user_of s (ck_userId r)
      in \<lparr>dv_deposit = r, dv_reference = formatDepositRef (ck_id r),
          dv_customerName = (case u of None \<Rightarrow> ck_userId r
             | Some x \<Rightarrow> if display_name x \<noteq> '''' then display_name x else ck_userId r),
          dv_customerEmail = map_option u_email u, dv_customerNovaTag = Option.bind u u_novaTag,
          dv_customerAvatarUrl = Option.bind u u_avatarUrl,
          dv_frontUrl = presign (ck_frontKey r), dv_backUrl = presign (ck_backKey r)\<rparr>)"

definition deposits_for_admin ::
  "(string \<Rightarrow> string option) \<Rightarrow> deposit_status option \<Rightarrow> deposit_state \<Rightarrow> deposit_view list" where
  "deposits_for_admin presign status st =
     map (deposit_row presign (ds_bank st))
       (take 100 (sort_key (\<lambda>r. - ck_submittedAt r)
         (filter (\<lambda>r. status = None \<or> status = Some (ck_status r)) (ds_deposits st))))"

section \<open>Decisions\<close>

definition sendDepositEmail ::
  "check_deposit \<Rightarrow> review_decision \<Rightarrow> string option \<Rightarrow> string option \<Rightarrow> bank \<Rightarrow> bank" where
  "sendDepositEmail row decision reason accountLabel s =
     (case user_of s (ck_userId row) of
        None \<Rightarrow> s
      | Some u \<Rightarrow>
          (if u_email u = '''' then s
           else send_mail (MailDepositDecision (u_email u)
                  (case ck_displayAmountCents row of Some c \<Rightarrow> c | None \<Rightarrow> ck_amountCents row)
                  (case ck_displayCurrency row of Some c \<Rightarrow> c | None \<Rightarrow> ''USD'') decision
                  (case decision of
                     Approved \<Rightarrow> (case accountLabel of Some l \<Rightarrow> l | None \<Rightarrow> ''your checking account'')
                   | Rejected \<Rightarrow> the (str_or (map_option js_trim reason) (Some ''Declined after review'')))) s))"

definition status_name :: "deposit_status \<Rightarrow> string" where
  "status_name x = (case x of DepPending \<Rightarrow> ''pending'' | DepApproved \<Rightarrow> ''approved'' | DepRejected \<Rightarrow> ''rejected'')"

definition undecided :: "string \<Rightarrow> deposit_state \<Rightarrow> check_deposit result" where
  "undecided depositId st =
     ebind (or_throw (NotFound ''Deposit not found'') (find_unique ck_id depositId (ds_deposits st))) (\<lambda>row.
     ebind (require (ck_status row = DepPending)
              (Conflict (''Deposit already '' @ status_name (ck_status row)))) (\<lambda>_. Inr row))"

definition approve_check :: "string \<Rightarrow> deposit_state \<Rightarrow> (check_deposit \<times> account) result" where
  "approve_check depositId st =
     ebind (undecided depositId st) (\<lambda>row.
     ebind (or_throw (NotFound ''Destination account no longer exists'') (account_of (ds_bank st) (ck_accountId row))) (\<lambda>acc.
     Inr (row, acc)))"

definition deposit_transaction :: "int \<Rightarrow> string \<Rightarrow> string \<Rightarrow> int \<Rightarrow> transaction" where
  "deposit_transaction now txId accountId amountCents =
     \<lparr>t_id = txId, t_accountId = accountId, t_kind = KDeposit, t_status = TxPosted, t_amountCents = amountCents,
      t_description = ''Mobile check deposit'', t_category = CatIncome, t_note = None, t_occurredAt = now,
      t_postedAt = Some now, t_metadata = None\<rparr>"

definition approve_commit ::
  "int \<Rightarrow> string \<Rightarrow> string \<Rightarrow> check_deposit \<Rightarrow> account \<Rightarrow> deposit_state \<Rightarrow> deposit_state result" where
  "approve_commit now adminUserId txId row acc st =
     ebind (create_unique ''id'' t_id (deposit_transaction now txId (a_id acc) (ck_amountCents row))
              (db_transactions (ds_bank st))) (\<lambda>txs.
     ebind (credit_account (a_id acc) (ck_amountCents row) ((ds_bank st)\<lparr>db_transactions := txs\<rparr>)) (\<lambda>s1.
     ebind (update_unique ck_id (ck_id row)
              (\<lambda>d. d\<lparr>ck_status := DepApproved, ck_decidedAt := Some now, ck_decidedByUserId := Some adminUserId,
                     ck_transactionId := Some txId\<rparr>) (ds_deposits st)) (\<lambda>ds.
     Inr (st\<lparr>ds_bank := s1, ds_deposits := ds\<rparr>))))"

definition approve_finish :: "int \<Rightarrow> string \<Rightarrow> check_deposit \<Rightarrow> account \<Rightarrow> deposit_state \<Rightarrow> deposit_state" where
  "approve_finish now txId row acc st =
     (let s1 = emit (EvTransactionCreated (ck_userId row) (a_id acc) txId (ck_amountCents row) TxPosted now
                 (Some (''Mobile check deposit'', CatIncome, ''deposit''))) (ds_bank st);
          s2 = (case account_of s1 (a_id acc) of None \<Rightarrow> s1
                | Some a \<Rightarrow> emit (EvAccountBalanceChanged (ck_userId row) (a_id a) (a_balanceCents a) now) s1)
      in st\<lparr>ds_bank := sendDepositEmail row Approved None (Some (a_label acc)) s2\<rparr>)"

definition approve :: "int \<Rightarrow> string \<Rightarrow> string \<Rightarrow> string \<Rightarrow> deposit_state \<Rightarrow> deposit_state result" where
  "approve now adminUserId txId depositId st =
     ebind (approve_check depositId st) (\<lambda>(row, acc).
     ebind (approve_commit now adminUserId txId row acc st) (\<lambda>st1.
     Inr (approve_finish now txId row acc st1)))"

definition reject_deposit :: "int \<Rightarrow> string \<Rightarrow> string \<Rightarrow> string \<Rightarrow> deposit_state \<Rightarrow> deposit_state result" where
  "reject_deposit now adminUserId depositId reason st =
     ebind (undecided depositId st) (\<lambda>row.
     ebind (update_unique ck_id depositId
              (\<lambda>d. d\<lparr>ck_status := DepRejected, ck_decidedAt := Some now, ck_decidedByUserId := Some adminUserId,
                     ck_decisionReason := Some reason\<rparr>) (ds_deposits st)) (\<lambda>ds.
     Inr (st\<lparr>ds_deposits := ds, ds_bank := sendDepositEmail row Rejected (Some reason) None (ds_bank st)\<rparr>)))"

section \<open>Lemmas\<close>

lemma sendDepositEmail_frame [simp]:
  "db_accounts (sendDepositEmail r d x l s) = db_accounts s" "db_postings (sendDepositEmail r d x l s) = db_postings s"
  "db_transactions (sendDepositEmail r d x l s) = db_transactions s" "db_journal (sendDepositEmail r d x l s) = db_journal s"
  "db_ledgerAccounts (sendDepositEmail r d x l s) = db_ledgerAccounts s"
  by (simp_all add: sendDepositEmail_def split: option.splits)

lemma approve_finish_frame [simp]:
  "db_accounts (ds_bank (approve_finish n t r a st)) = db_accounts (ds_bank st)"
  "db_postings (ds_bank (approve_finish n t r a st)) = db_postings (ds_bank st)"
  "db_transactions (ds_bank (approve_finish n t r a st)) = db_transactions (ds_bank st)"
  "db_journal (ds_bank (approve_finish n t r a st)) = db_journal (ds_bank st)"
  "db_ledgerAccounts (ds_bank (approve_finish n t r a st)) = db_ledgerAccounts (ds_bank st)"
  "ds_deposits (approve_finish n t r a st) = ds_deposits st"
  by (simp_all add: approve_finish_def Let_def split: option.splits)

lemma approve_check_Inr:
  assumes "approve_check i st = Inr (row, acc)"
  shows "find_unique ck_id i (ds_deposits st) = Some row" "ck_status row = DepPending" "ck_id row = i"
    "account_of (ds_bank st) (ck_accountId row) = Some acc" "a_id acc = ck_accountId row"
  using assms by (auto simp: approve_check_def undecided_def err_simps dest: find_unique_SomeD)

lemma approve_commit_Inr:
  assumes "approve_commit now adm txId row acc st = Inr st'"
  shows "balance_of (ds_bank st') (a_id acc) = map_option (\<lambda>b. b + ck_amountCents row) (balance_of (ds_bank st) (a_id acc))"
    "balance_of (ds_bank st) (a_id acc) \<noteq> None"
    "k \<noteq> a_id acc \<Longrightarrow> balance_of (ds_bank st') k = balance_of (ds_bank st) k"
    "db_postings (ds_bank st') = db_postings (ds_bank st)" "db_journal (ds_bank st') = db_journal (ds_bank st)"
    "db_ledgerAccounts (ds_bank st') = db_ledgerAccounts (ds_bank st)"
    "db_transactions (ds_bank st') = db_transactions (ds_bank st) @
       [deposit_transaction now txId (a_id acc) (ck_amountCents row)]"
    "find_unique ck_id (ck_id row) (ds_deposits st') =
       map_option (\<lambda>d. d\<lparr>ck_status := DepApproved, ck_decidedAt := Some now, ck_decidedByUserId := Some adm,
                     ck_transactionId := Some txId\<rparr>) (find_unique ck_id (ck_id row) (ds_deposits st))"
  using assms by (auto simp: approve_commit_def err_simps balance_of_def table_simps option.map_comp comp_def)

lemma drift_balance: "drift s i = map_option (\<lambda>b. b - net_of s (accountSubLedgerCode i)) (balance_of s i)"
  by (simp add: drift_def balance_of_def option.map_comp comp_def)

lemma approve_Inr:
  assumes "approve now adm txId i st = Inr st'"
  obtains row acc st1 where "approve_check i st = Inr (row, acc)" "approve_commit now adm txId row acc st = Inr st1"
    "st' = approve_finish now txId row acc st1"
  using assms by (auto simp: approve_def err_simps)

section \<open>Properties\<close>


text \<open>Approval bypasses the ledger: it writes no posting, so the cached balance of the account
  drifts from its sub-ledger by the amount of the deposit, while the trial balance still reports
  what it reported before.\<close>

theorem approve_drifts_from_ledger:
  assumes "approve now adm txId i st = Inr st'"
  shows "\<exists>row. find_unique ck_id i (ds_deposits st) = Some row \<and>
           drift (ds_bank st') (ck_accountId row) =
             map_option (\<lambda>d. d + ck_amountCents row) (drift (ds_bank st) (ck_accountId row)) \<and>
           drift (ds_bank st) (ck_accountId row) \<noteq> None \<and>
           computeAndReport (ds_bank st') = computeAndReport (ds_bank st)"
proof -
  obtain row acc st1 where c: "approve_check i st = Inr (row, acc)"
    and m: "approve_commit now adm txId row acc st = Inr st1" and st': "st' = approve_finish now txId row acc st1"
    using assms by (rule approve_Inr)
  note c = approve_check_Inr [OF c] and m = approve_commit_Inr [OF m]
  have b: "balance_of (ds_bank st') k = balance_of (ds_bank st1) k" for k unfolding st' by (simp add: balance_of_def)
  have "net_of (ds_bank st') k = net_of (ds_bank st) k" for k unfolding st' using m(4) by (simp add: net_of_def)
  moreover have "computeAndReport (ds_bank st') = computeAndReport (ds_bank st)"
    unfolding st' using m(4,6) by (simp add: computeAndReport_def trial_balance_rows_def)
  ultimately show ?thesis using c m(1,2) b by (auto simp: drift_balance)
qed

text \<open>Two administrators who approve the same deposit at the same time credit it twice: the
  transaction does not look at the status again, so when both checks ran before either commit, both
  commits add the amount.\<close>

theorem approve_race_credits_twice:
  assumes "approve_check i st = Inr (row, acc)"
    and "approve_commit now1 adm1 tx1 row acc st = Inr st1" "approve_commit now2 adm2 tx2 row acc st1 = Inr st2"
  shows "balance_of (ds_bank st2) (ck_accountId row) =
           map_option (\<lambda>b. b + 2 * ck_amountCents row) (balance_of (ds_bank st) (ck_accountId row))"
  using approve_check_Inr [OF assms(1)] approve_commit_Inr [OF assms(2)] approve_commit_Inr [OF assms(3)]
  by (auto simp: option.map_comp comp_def)

end
