(* ===== verification/Accounts.thy ===== *)
theory Accounts
  imports Ledger
begin

text \<open>
  Accounts of a customer (\<^verbatim>\<open>accounts/accounts.service.ts\<close>, \<^verbatim>\<open>accounts.repository.ts\<close>,
  \<^verbatim>\<open>account-provisioner.service.ts\<close>, \<^verbatim>\<open>mock-account-numbers.util.ts\<close>): the checking and savings account opened when
  a customer passes the identity check. The random generator is the parameter \<open>gen\<close>, the number
  drawn at each attempt; identifiers are parameters. The table keeps rows in the order of opening.
\<close>

record account_limits =
  al_accountId :: string
  al_atmDailyCents :: int
  al_cardPurchasesDailyCents :: int
  al_cashDepositCents :: int
  al_mobileCheckCents :: int
  al_outgoingWireCents :: int

record limits_config =
  lc_apyBps :: "int option"
  lc_atm :: "int option"
  lc_purchases :: "int option"
  lc_cash :: "int option"
  lc_mobileCheck :: "int option"
  lc_outgoingWire :: "int option"

datatype account_event = AccountCreated string string account_type int

record accounts_state =
  ac_bank :: bank
  ac_limits :: "account_limits list"
  ac_events :: "account_event list"

definition listForUser_accounts :: "string \<Rightarrow> bank \<Rightarrow> account list" where
  "listForUser_accounts userId s = filter (\<lambda>a. a_userId a = userId) (db_accounts s)"

definition findByIdForUser :: "string \<Rightarrow> string \<Rightarrow> bank \<Rightarrow> account option" where
  "findByIdForUser i userId s = find_first (\<lambda>a. a_id a = i \<and> a_userId a = userId) (db_accounts s)"

definition countForUser :: "string \<Rightarrow> bank \<Rightarrow> nat" where
  "countForUser userId s = length (filter (\<lambda>a. a_userId a = userId) (db_accounts s))"

definition getForUser_account :: "string \<Rightarrow> string \<Rightarrow> bank \<Rightarrow> account result" where
  "getForUser_account i userId s = or_throw (NotFound ''Account not found'') (findByIdForUser i userId s)"

definition getLimits :: "string \<Rightarrow> string \<Rightarrow> accounts_state \<Rightarrow> account_limits result" where
  "getLimits accountId userId st =
     ebind (or_throw (Forbidden ''Account not accessible'') (findByIdForUser accountId userId (ac_bank st))) (\<lambda>_.
     or_throw (NotFound ''Limits not set'') (find_unique al_accountId accountId (ac_limits st)))"

definition generateMockRoutingNumber :: string where
  "generateMockRoutingNumber = ''021000099''"

text \<open>Twelve decimal digits from the random source.\<close>

definition generateMockAccountNumber :: "(nat \<Rightarrow> int) \<Rightarrow> string" where
  "generateMockAccountNumber rnd = concat (map (\<lambda>i. show_digits (rnd i)) [0..<12])"

text \<open>One insertion, refused when the identifier or the number is taken.\<close>

definition insert_account :: "account \<Rightarrow> account list \<Rightarrow> account list result" where
  "insert_account a t =
     ebind (create_unique ''mockAccountNumber'' a_mockAccountNumber a t) (\<lambda>_. create_unique ''id'' a_id a t)"

definition is_unique_violation :: "api_error \<Rightarrow> bool" where
  "is_unique_violation e = (case e of UniqueViolation _ \<Rightarrow> True | _ \<Rightarrow> False)"

function createAccount_from ::
  "nat \<Rightarrow> (nat \<Rightarrow> string) \<Rightarrow> (string \<Rightarrow> account) \<Rightarrow> account list \<Rightarrow> (account \<times> account list) result" where
  "createAccount_from attempt gen mk t =
     (if attempt < 5 then
        (case insert_account (mk (gen attempt)) t of
           Inr t' \<Rightarrow> Inr (mk (gen attempt), t')
         | Inl e \<Rightarrow> if is_unique_violation e \<and> attempt < 4 then createAccount_from (Suc attempt) gen mk t else Inl e)
      else Inl (PlainError ''Could not allocate unique mock account number''))"
  by pat_completeness auto
termination
  by (relation "measure (\<lambda>(attempt, _). 5 - attempt)") auto

declare createAccount_from.simps [simp del]

definition createAccount ::
  "(nat \<Rightarrow> string) \<Rightarrow> string \<Rightarrow> string \<Rightarrow> account_type \<Rightarrow> string \<Rightarrow> int option \<Rightarrow> account list \<Rightarrow>
     (account \<times> account list) result" where
  "createAccount gen newId userId ty label apyBps t =
     createAccount_from 0 gen
       (\<lambda>num. \<lparr>a_id = newId, a_userId = userId, a_type = ty, a_label = label, a_balanceCents = 0,
              a_apyBps = apyBps, a_status = AcctActive, a_mockRoutingNumber = generateMockRoutingNumber,
              a_mockAccountNumber = num\<rparr>) t"

definition limit_or :: "int \<Rightarrow> int option \<Rightarrow> int" where
  "limit_or d v = (case v of None \<Rightarrow> d | Some x \<Rightarrow> x)"

definition mk_limits :: "limits_config \<Rightarrow> string \<Rightarrow> account_limits" where
  "mk_limits lc i =
     \<lparr>al_accountId = i, al_atmDailyCents = limit_or 50000 (lc_atm lc),
      al_cardPurchasesDailyCents = limit_or 10000000 (lc_purchases lc),
      al_cashDepositCents = limit_or 5000000 (lc_cash lc),
      al_mobileCheckCents = limit_or 50000000 (lc_mobileCheck lc),
      al_outgoingWireCents = limit_or 500000000 (lc_outgoingWire lc)\<rparr>"

definition both_accounts :: "string \<Rightarrow> bank \<Rightarrow> (account \<times> account) option" where
  "both_accounts userId s =
     (case (find_first (\<lambda>a. a_type a = Checking) (listForUser_accounts userId s),
            find_first (\<lambda>a. a_type a = Savings) (listForUser_accounts userId s)) of
        (Some c, Some v) \<Rightarrow> Some (c, v) | _ \<Rightarrow> None)"

definition provision_fresh ::
  "limits_config \<Rightarrow> (nat \<Rightarrow> string) \<Rightarrow> (nat \<Rightarrow> string) \<Rightarrow> string \<times> string \<Rightarrow> string \<Rightarrow> accounts_state \<Rightarrow>
     ((account \<times> account) \<times> accounts_state) result" where
  "provision_fresh lc gen1 gen2 ids userId st =
     ebind (createAccount gen1 (fst ids) userId Checking ''Checking'' None (db_accounts (ac_bank st))) (\<lambda>(c, t1).
     ebind (create_unique ''accountId'' al_accountId (mk_limits lc (a_id c)) (ac_limits st)) (\<lambda>ls.
     ebind (createAccount gen2 (snd ids) userId Savings ''Savings'' (Some (limit_or 450 (lc_apyBps lc))) t1) (\<lambda>(v, t2).
     Inr ((c, v), st\<lparr>ac_bank := (ac_bank st)\<lparr>db_accounts := t2\<rparr>, ac_limits := ls\<rparr>))))"

definition provisionForUser ::
  "limits_config \<Rightarrow> (nat \<Rightarrow> string) \<Rightarrow> (nat \<Rightarrow> string) \<Rightarrow> string \<times> string \<Rightarrow> string \<Rightarrow> accounts_state \<Rightarrow>
     ((account \<times> account) \<times> accounts_state) result" where
  "provisionForUser lc gen1 gen2 ids userId st =
     (case (if 0 < countForUser userId (ac_bank st) then both_accounts userId (ac_bank st) else None) of
        Some p \<Rightarrow> Inr (p, st)
      | None \<Rightarrow> provision_fresh lc gen1 gen2 ids userId st)"

definition onKycApproved ::
  "limits_config \<Rightarrow> (nat \<Rightarrow> string) \<Rightarrow> (nat \<Rightarrow> string) \<Rightarrow> string \<times> string \<Rightarrow> int \<Rightarrow> string \<Rightarrow> accounts_state \<Rightarrow> accounts_state" where
  "onKycApproved lc gen1 gen2 ids now userId st =
     (case provisionForUser lc gen1 gen2 ids userId st of
        Inl _ \<Rightarrow> st
      | Inr ((c, v), st') \<Rightarrow>
          st'\<lparr>ac_events := ac_events st' @
             [AccountCreated (a_id c) userId Checking now, AccountCreated (a_id v) userId Savings now]\<rparr>)"

section \<open>Lemmas\<close>

lemma createAccount_from_Inr:
  assumes "createAccount_from n gen mk t = Inr (a, t')"
  shows "\<exists>k. a = mk (gen k) \<and> n \<le> k \<and> k < 5 \<and> insert_account a t = Inr t'"
  using assms
proof (induction n gen mk t rule: createAccount_from.induct)
  case (1 n gen mk t)
  show ?case
  proof (cases "insert_account (mk (gen n)) t")
    case (Inl e)
    then show ?thesis using 1 by (auto simp: createAccount_from.simps [of n] split: if_splits)
  next
    case (Inr u)
    then show ?thesis using 1 by (auto simp: createAccount_from.simps [of n] split: if_splits)
  qed
qed

lemma insert_account_Inr [err_simps]:
  "insert_account a t = Inr t' \<longleftrightarrow> find_unique a_mockAccountNumber (a_mockAccountNumber a) t = None \<and>
     find_unique a_id (a_id a) t = None \<and> t' = t @ [a]"
  by (auto simp: insert_account_def err_simps)

lemma createAccount_Inr:
  assumes "createAccount gen i u ty l apy t = Inr (a, t')"
  shows "t' = t @ [a]" "a_id a = i" "a_userId a = u" "a_type a = ty" "a_balanceCents a = 0" "a_status a = AcctActive"
    "find_unique a_id i t = None" "a_mockAccountNumber a \<notin> a_mockAccountNumber ` set t"
  using createAccount_from_Inr [OF assms [unfolded createAccount_def]]
  by (auto simp: insert_account_Inr find_unique_None_iff)

lemma createAccount_from_succeeds:
  assumes "n \<le> k" "k < 5" "gen k \<notin> a_mockAccountNumber ` set t"
    and "\<And>num. a_mockAccountNumber (mk num) = num" "\<And>num. find_unique a_id (a_id (mk num)) t = None"
  shows "is_ok (createAccount_from n gen mk t)"
  using assms
proof (induction n gen mk t rule: createAccount_from.induct)
  case (1 n gen mk t)
  show ?case
  proof (cases "insert_account (mk (gen n)) t")
    case (Inl e)
    then have "find_unique a_mockAccountNumber (gen n) t \<noteq> None" "is_unique_violation e"
      using "1.prems"(4,5)
      by (auto simp: insert_account_def create_unique_def is_unique_violation_def split: option.splits)
    then have e: "gen n \<in> a_mockAccountNumber ` set t" "is_unique_violation e"
      by (simp_all add: find_unique_None_iff)
    then have "Suc n \<le> k" using "1.prems"(1,3) by (metis Suc_leI le_neq_implies_less)
    then show ?thesis using "1.IH" [OF _ Inl] "1.prems" e Inl by (simp add: createAccount_from.simps [of n])
  qed (use "1.prems" in \<open>simp add: createAccount_from.simps [of n]\<close>)
qed

section \<open>Properties\<close>

text \<open>Opening an account survives four collisions: it succeeds whenever one of the five numbers
  drawn is unused, and then account numbers stay unique.\<close>

theorem create_account_retries:
  assumes "k < 5" "gen k \<notin> a_mockAccountNumber ` set t" "find_unique a_id i t = None"
    and "distinct (map a_mockAccountNumber t)"
  shows "\<exists>a t'. createAccount gen i u ty l apy t = Inr (a, t') \<and> t' = t @ [a] \<and> a_userId a = u \<and> a_type a = ty \<and>
           a_balanceCents a = 0 \<and> distinct (map a_mockAccountNumber t')"
proof -
  have "is_ok (createAccount gen i u ty l apy t)"
    unfolding createAccount_def using assms(1-3) by (intro createAccount_from_succeeds [where k = k]) simp_all
  then obtain a t' where c: "createAccount gen i u ty l apy t = Inr (a, t')"
    by (auto simp: is_ok_def split: sum.splits)
  show ?thesis using createAccount_Inr [OF c] assms(4) c by auto
qed

text \<open>Provisioning is idempotent for a new customer: it opens one checking account with its limits
  and one savings account, both empty and active, changes no other account, and when the identity
  check is approved again returns the same two accounts and changes nothing.\<close>

theorem provision_idempotent:
  assumes "provisionForUser lc gen1 gen2 ids u st = Inr ((c, v), st')" "countForUser u (ac_bank st) = 0"
  shows "provisionForUser lc' gen1' gen2' ids' u st' = Inr ((c, v), st') \<and>
         listForUser_accounts u (ac_bank st') = [c, v] \<and> a_type c = Checking \<and> a_type v = Savings \<and>
         a_balanceCents c = 0 \<and> a_balanceCents v = 0 \<and> a_status c = AcctActive \<and> a_status v = AcctActive \<and>
         is_ok (getLimits (a_id c) u st') \<and>
         (\<forall>w. w \<noteq> u \<longrightarrow> listForUser_accounts w (ac_bank st') = listForUser_accounts w (ac_bank st))"
proof -
  obtain t1 ls t2 where c: "createAccount gen1 (fst ids) u Checking ''Checking'' None (db_accounts (ac_bank st)) = Inr (c, t1)"
    and l: "create_unique ''accountId'' al_accountId (mk_limits lc (a_id c)) (ac_limits st) = Inr ls"
    and v: "createAccount gen2 (snd ids) u Savings ''Savings'' (Some (limit_or 450 (lc_apyBps lc))) t1 = Inr (v, t2)"
    and st': "st' = st\<lparr>ac_bank := (ac_bank st)\<lparr>db_accounts := t2\<rparr>, ac_limits := ls\<rparr>"
    using assms by (auto simp: provisionForUser_def provision_fresh_def err_simps)
  note C = createAccount_Inr [OF c] and V = createAccount_Inr [OF v]
  have acc: "db_accounts (ac_bank st') = db_accounts (ac_bank st) @ [c, v]" using C(1) V(1) st' by simp
  have none: "filter (\<lambda>a. a_userId a = u) (db_accounts (ac_bank st)) = []"
    using assms(2) by (simp add: countForUser_def)
  have list: "listForUser_accounts u (ac_bank st') = [c, v]"
    using none C(3) V(3) by (simp add: listForUser_accounts_def acc)
  have "find_first (\<lambda>a. a_id a = a_id c \<and> a_userId a = u) (db_accounts (ac_bank st')) \<noteq> None"
    using C(3) by (auto simp: find_first_def find_None_iff acc)
  moreover have "find_unique al_accountId (a_id c) (ac_limits st') \<noteq> None"
    using l st' by (auto simp: err_simps find_unique_None_iff mk_limits_def)
  ultimately have "is_ok (getLimits (a_id c) u st')" by (auto simp: getLimits_def findByIdForUser_def)
  moreover have "provisionForUser lc' gen1' gen2' ids' u st' = Inr ((c, v), st')"
    using list C(3,4) V(3,4) by (simp add: provisionForUser_def both_accounts_def countForUser_def acc find_first_def)
  ultimately show ?thesis using list C V by (auto simp: listForUser_accounts_def acc)
qed

end
