(* ===== verification/Samples_Services.thy ===== *)
theory Samples_Services
  imports Samples Bank_System Tx_Feed Check_Deposits Accounts
begin

text \<open>
  Concrete runs of the services built on transfers: administrative edits, the feed, schedules,
  payments, savings goals, check deposits, account opening, and histories of several of them.
\<close>

text \<open>What evaluation shows of the state after the payment holds of \<open>paid\<close>.\<close>

lemma on_paid: "(case sample_pay of Inl _ \<Rightarrow> False | Inr (r, s) \<Rightarrow> P s) \<Longrightarrow> P paid"
  using state_of_facts [where r = sample_pay and P = P] by (simp add: paid_def)

section \<open>Witnesses: ledger and histories\<close>

lemma sample_post: "\<exists>e s. post sample_entry sample_ledger = Inr (e, s)"
proof -
  have "is_ok (post sample_entry sample_ledger)" by code_simp
  then show ?thesis by (auto dest: is_okD)
qed

theorem post_refines_witness:
  "\<exists>e s. post sample_entry sample_ledger = Inr (e, s) \<and> net_of s (accountSubLedgerCode ''a1'') = 100 \<and> net_of s Cash = - 100"
proof -
  obtain e s where p: "post sample_entry sample_ledger = Inr (e, s)" using sample_post by blast
  have z: "net_of sample_ledger c = 0" for c
    by (simp add: net_of_def net_def sample_ledger_def ensureSystemAccounts_def empty_bank_def)
  have "net_of s c = abs_post (ji_postings sample_entry) (net_of sample_ledger) c" for c
    using post_refines_abs_post [OF p ledger_inv_sample] by simp
  then show ?thesis using p z by (simp add: abs_post_def sample_entry_def)
qed

lemma paid_step: "bank_step sample_bank paid"
proof -
  obtain r where "sample_pay = Inr (r, paid)" by (rule payE)
  then show ?thesis using feeMin_ok by (auto simp: sample_pay_def intro: step_initiate)
qed

theorem history_keeps_books_witness:
  "\<exists>s. bank_step\<^sup>*\<^sup>* sample_bank s \<and> s \<noteq> sample_bank \<and> fst (computeAndReport s) \<and> drift s ''c2'' = drift sample_bank ''c2''"
proof -
  obtain s where p: "process 2000 (''x2'', ''x3'') ''t1'' paid = Inr s" using is_okD [OF paid_facts(9)] by blast
  have h: "bank_step\<^sup>*\<^sup>* sample_bank s"
    using paid_step step_process [OF p] by (meson converse_rtranclp_into_rtranclp r_into_rtranclp)
  have "transfer_of s ''t1'' \<noteq> None"
    using settled_facts p by (auto simp: paid_def split: option.splits)
  then have "s \<noteq> sample_bank" by (auto simp: sample_bank_sel)
  then show ?thesis using h history_keeps_books [OF h ledger_inv_sample_bank] by (auto simp: sample_bank_sel)
qed

lemma sample_balances: "balance_of sample_bank ''c2'' = Some 5000" "balance_of sample_bank ''s1'' = Some 0"
  by code_simp+

theorem transfer_end_to_end_witness:
  "\<exists>s t. process 2000 (''x2'', ''x3'') ''t1'' paid = Inr s \<and> transfer_of paid ''t1'' = Some t \<and>
     balance_of s ''c2'' = Some (5000 + tr_amountCents t) \<and> balance_of s ''s1'' = Some 0"
proof -
  obtain r where p: "sample_pay = Inr (r, paid)" by (rule payE)
  obtain s where q: "process 2000 (''x2'', ''x3'') ''t1'' paid = Inr s" using is_okD [OF paid_facts(9)] by blast
  have "case transfer_of paid ''t1'' of None \<Rightarrow> False | Some t \<Rightarrow> \<not> tr_requiresReview t"
    by (rule on_paid [where P = "\<lambda>s. case transfer_of s ''t1'' of None \<Rightarrow> False | Some t \<Rightarrow> \<not> tr_requiresReview t"]) code_simp
  then obtain t where t: "transfer_of paid ''t1'' = Some t" "\<not> tr_requiresReview t"
    by (cases "transfer_of paid ''t1''") simp_all
  have "find_unique tr_idempotencyKey ''k1'' (db_transfers sample_bank) = None" by (simp add: sample_bank_sel)
  from transfer_end_to_end [OF p [unfolded sample_pay_def] feeMin_ok this, of "''c2''" t 2000 "(''x2'', ''x3'')" s]
  have "\<forall>k. balance_of s k = map_option (\<lambda>b. b - (if k = ''c1'' then tr_amountCents t + tr_feeCents t else 0)
      + (if k = ''c2'' then tr_amountCents t else 0)) (balance_of sample_bank k)"
    using t q by (simp add: sample_dto_def)
  from spec [OF this, of "''c2''"] spec [OF this, of "''s1''"] show ?thesis using t q sample_balances by simp
qed

section \<open>Witnesses: administrative edits\<close>

definition sample_patch :: patch_dto where
  "sample_patch = \<lparr>pd_amountCents = Some (- 500), pd_occurredAt = None, pd_description = Some ''Lunch'',
     pd_category = None, pd_status = None, pd_reason = ''typo'', pd_forceAllowNegative = False\<rparr>"

definition patched :: "bank result" where
  "patched = patch 3000 ''adm'' ''x1'' sample_patch paid"

lemma patched_ok: "is_ok patched" "override_of paid ''x1'' = None"
  "is_ok (delete_transaction 3000 ''adm'' ''x1'' ''dup'' paid)"
  "is_ok (ebind patched (\<lambda>s. clearOverride 4000 ''adm'' ''x1'' s))"
proof -
  have "is_ok (patch 3000 ''adm'' ''x1'' sample_patch paid) \<and> override_of paid ''x1'' = None \<and>
      is_ok (delete_transaction 3000 ''adm'' ''x1'' ''dup'' paid) \<and>
      is_ok (ebind (patch 3000 ''adm'' ''x1'' sample_patch paid) (\<lambda>s. clearOverride 4000 ''adm'' ''x1'' s))"
    by (rule on_paid [where P = "\<lambda>s. is_ok (patch 3000 ''adm'' ''x1'' sample_patch s) \<and> override_of s ''x1'' = None \<and>
      is_ok (delete_transaction 3000 ''adm'' ''x1'' ''dup'' s) \<and>
      is_ok (ebind (patch 3000 ''adm'' ''x1'' sample_patch s) (\<lambda>s. clearOverride 4000 ''adm'' ''x1'' s))"]) code_simp
  then show "is_ok patched" "override_of paid ''x1'' = None"
    "is_ok (delete_transaction 3000 ''adm'' ''x1'' ''dup'' paid)"
    "is_ok (ebind patched (\<lambda>s. clearOverride 4000 ''adm'' ''x1'' s))"
    by (simp_all add: patched_def)
qed

lemma patchedE: obtains s where "patch 3000 ''adm'' ''x1'' sample_patch paid = Inr s"
  using is_okD [OF patched_ok(1)] that by (auto simp: patched_def)

theorem admin_edit_keeps_books_witness: "\<exists>s. admin_edit paid s \<and> ledger_inv s"
proof -
  obtain s where "patch 3000 ''adm'' ''x1'' sample_patch paid = Inr s" by (rule patchedE)
  then have e: "admin_edit paid s" by (rule edit_patch)
  then show ?thesis using admin_edit_keeps_books [OF e ledger_inv_paid(1)] by blast
qed

theorem patch_moves_balance_witness:
  "\<exists>s t a a' ov'. patch 3000 ''adm'' ''x1'' sample_patch paid = Inr s \<and> findWithOverride ''x1'' paid = Some (t, a, None) \<and>
     findWithOverride ''x1'' s = Some (t, a', ov') \<and>
     a_balanceCents a' - a_balanceCents a = - 500 - ef_amountCents (effectiveOf t None)"
proof -
  obtain s where p: "patch 3000 ''adm'' ''x1'' sample_patch paid = Inr s" by (rule patchedE)
  from patch_moves_balance_by_shown_change [OF p] patched_ok(2)
  show ?thesis using p by (auto simp: Let_def sample_patch_def)
qed


theorem delete_rolls_back_witness:
  "\<exists>s t a ov. delete_transaction 3000 ''adm'' ''x1'' ''dup'' paid = Inr s \<and> findWithOverride ''x1'' paid = Some (t, a, ov) \<and>
     balance_of s (t_accountId t) = Some (a_balanceCents a - ef_amountCents (effectiveOf t ov))"
  using is_okD [OF patched_ok(3)] delete_rolls_back_shown_amount by blast

theorem rate_limit_witness: "int (rate_run 2 ''adm'' [0, 1, 2, 59999] []) \<le> 2"
  using rate_limit_per_minute [of "[0, 1, 2, 59999]" 0 "''adm''" "[]" 2] by (simp add: cache_get_def)

section \<open>Witnesses: the feed\<close>

definition all_rows :: tx_filters where
  "all_rows = \<lparr>fl_status = None, fl_categories = [], fl_from = None, fl_to = None, fl_q = None\<rparr>"

lemma feed_facts: "length (db_transactions paid) = 1" "distinct (map t_id (db_transactions paid))"
  "is_ok (list_transactions (\<lambda>t q. False) 20 100 ''u1'' None all_rows None None paid)"
  "case list_transactions (\<lambda>t q. False) 20 100 ''u1'' None all_rows None None paid of
     Inl _ \<Rightarrow> False | Inr (vs, n) \<Rightarrow> vs \<noteq> []"
proof -
  let ?r = "list_transactions (\<lambda>t q. False) 20 100 ''u1'' None all_rows None None"
  let ?P = "\<lambda>s. length (db_transactions s) = 1 \<and> distinct (map t_id (db_transactions s)) \<and> is_ok (?r s) \<and>
      (case ?r s of Inl _ \<Rightarrow> False | Inr (vs, n) \<Rightarrow> vs \<noteq> [])"
  have "?P paid" by (rule on_paid [where P = ?P]) code_simp
  then show "length (db_transactions paid) = 1" "distinct (map t_id (db_transactions paid))"
    "is_ok (?r paid)" "case ?r paid of Inl _ \<Rightarrow> False | Inr (vs, n) \<Rightarrow> vs \<noteq> []" by blast+
qed


theorem feed_shows_own_visible_rows_witness:
  "\<exists>vs n v t. list_transactions (\<lambda>t q. False) 20 100 ''u1'' None all_rows None None paid = Inr (vs, n) \<and> v \<in> set vs \<and>
     t \<in> set (db_transactions paid) \<and> tv_id v = t_id t \<and> \<not> isHidden (override_of paid (t_id t))"
proof -
  obtain vs n where r: "list_transactions (\<lambda>t q. False) 20 100 ''u1'' None all_rows None None paid = Inr (vs, n)"
    using is_okD [OF feed_facts(3)] by auto
  then have "vs \<noteq> []" using feed_facts(4) by simp
  then obtain v where v: "v \<in> set vs" by (meson list.set_sel(1))
  show ?thesis using feed_shows_own_visible_rows [OF r v] r v by blast
qed

theorem cursor_never_accepted_witness:
  "\<not> cursor_accepted (encodeCursor \<lparr>cur_occurredAt = ''2026-01-31T09:00:00.000Z'', cur_id = ''123e4567-e89b-12d3-a456-426614174000''\<rparr>)"
  using cursor_never_accepted [of "\<lparr>cur_occurredAt = ''2026-01-31T09:00:00.000Z'', cur_id = ''123e4567-e89b-12d3-a456-426614174000''\<rparr>"]
  by simp

section \<open>Witnesses: schedules\<close>

theorem weekly_schedule_witness: "getUTCDay (computeNextRunAt 1000 Weekly 3) = 3"
  using weekly_schedule [of 3 1000] by (simp add: Let_def)

theorem monthly_schedule_witness: "time_in_day (computeNextRunAt 1000 Monthly 31) = 9 * 3600000 \<and> getUTCDate 1000 \<le> 28"
proof -
  have d: "getUTCDate 1000 \<le> 28" by code_simp
  then show ?thesis using monthly_schedule [OF d, of 31] by (simp add: Let_def)
qed


definition sample_recurring :: recurring where
  "sample_recurring = \<lparr>rc_id = ''r1'', rc_userId = ''u1'', rc_fromAccountId = ''c1'', rc_toAccountId = ''s1'',
     rc_amountCents = 2500, rc_frequency = Weekly, rc_dayOf = 3, rc_active = True, rc_nextRunAt = 900, rc_lastRunAt = None\<rparr>"

lemma recurring_facts:
  "case initiate default_config sample_env (''t2'', ''x9'') ''u1'' (recurring_key sample_recurring)
        (recurring_dto sample_recurring) sample_bank of
     Inl _ \<Rightarrow> False
   | Inr (r, s) \<Rightarrow> (case user_of s ''u1'' of None \<Rightarrow> True | Some u \<Rightarrow> \<not> u_transfersDisabled u)"
  by code_simp

theorem recurring_retry_witness:
  "\<exists>r s. initiate default_config sample_env (''t2'', ''x9'') ''u1'' (recurring_key sample_recurring)
        (recurring_dto sample_recurring) sample_bank = Inr (r, s) \<and>
     snd (snd (run_one default_config sample_env (\<lambda>_. (''t3'', ''x10'')) sample_recurring (0, [sample_recurring], s))) = s"
proof -
  obtain r s where i: "initiate default_config sample_env (''t2'', ''x9'') ''u1'' (recurring_key sample_recurring)
        (recurring_dto sample_recurring) sample_bank = Inr (r, s)"
    and u: "\<forall>u. user_of s ''u1'' = Some u \<longrightarrow> \<not> u_transfersDisabled u"
    using recurring_facts by (auto split: sum.splits option.splits)
  have "rc_userId sample_recurring = ''u1''" by (simp add: sample_recurring_def)
  then show ?thesis
    using i u recurring_retry_moves_no_money [where ids = "\<lambda>_. (''t2'', ''x9'')" and r = sample_recurring] by auto
qed


section \<open>Witnesses: payments\<close>

definition sample_request :: payment_request where
  "sample_request = \<lparr>pq_id = ''q1'', pq_requesterUserId = ''u2'', pq_payerUserId = ''u1'', pq_amountCents = 700,
     pq_note = ''tea'', pq_status = ReqPending, pq_expiresAt = 9000, pq_createdAt = 0, pq_paidAt = None, pq_paidTransferId = None\<rparr>"

definition sample_pay_state :: pay_state where
  "sample_pay_state = \<lparr>ps_bank = sample_bank, ps_contacts = [], ps_requests = [sample_request], ps_notices = []\<rparr>"

definition sample_pay_dto :: pay_dto where
  "sample_pay_dto = \<lparr>pa_recipientHandleOrId = ''@Bob'', pa_fromAccountId = ''c1'', pa_amountCents = 1200,
     pa_note = None, pa_contactId = None\<rparr>"

lemma payment_facts:
  "is_ok (pay default_config sample_env (''t1'', ''x1'') ''ct1'' ''u1'' ''k1'' sample_pay_dto sample_pay_state)"
  "is_ok (fst (pay_request default_config sample_env (''t1'', ''x1'') ''u1'' ''q1'' ''k1'' ''c1'' sample_pay_state))"
  by code_simp+

lemma fresh_bank: "find_unique tr_idempotencyKey k (db_transfers sample_bank) = None"
  by (simp add: sample_bank_sel)

theorem pay_reaches_recipient_witness:
  "\<exists>r st t. pay default_config sample_env (''t1'', ''x1'') ''ct1'' ''u1'' ''k1'' sample_pay_dto sample_pay_state = Inr (r, st) \<and>
     transfer_of (ps_bank st) ''t1'' = Some t \<and> tr_amountCents t = 1200 \<and> tr_fromAccountId t = ''c1''"
proof -
  obtain r st where p: "pay default_config sample_env (''t1'', ''x1'') ''ct1'' ''u1'' ''k1'' sample_pay_dto sample_pay_state = Inr (r, st)"
    using is_okD [OF payment_facts(1)] by auto
  then show ?thesis using pay_reaches_recipient [OF p] fresh_bank by (auto simp: sample_pay_state_def sample_pay_dto_def)
qed

theorem request_settled_once_witness:
  "\<exists>r st. pay_request default_config sample_env (''t1'', ''x1'') ''u1'' ''q1'' ''k1'' ''c1'' sample_pay_state = (Inr r, st) \<and>
     \<not> is_ok (decline_request ''u1'' ''q1'' st)"
proof -
  obtain r where r: "fst (pay_request default_config sample_env (''t1'', ''x1'') ''u1'' ''q1'' ''k1'' ''c1'' sample_pay_state) = Inr r"
    using is_okD [OF payment_facts(2)] by blast
  then have p: "pay_request default_config sample_env (''t1'', ''x1'') ''u1'' ''q1'' ''k1'' ''c1'' sample_pay_state =
     (Inr r, snd (pay_request default_config sample_env (''t1'', ''x1'') ''u1'' ''q1'' ''k1'' ''c1'' sample_pay_state))"
    by (metis prod.collapse)
  then show ?thesis using request_settled_once [OF disjI1 [OF p]] by blast
qed

section \<open>Witnesses: savings\<close>

definition sample_splits :: "goal_split list" where
  "sample_splits = [\<lparr>gs_goalId = ''g1'', gs_percent = 33\<rparr>, \<lparr>gs_goalId = ''g2'', gs_percent = 67\<rparr>]"

definition sample_goal :: "string \<Rightarrow> bool \<Rightarrow> goal" where
  "sample_goal i d = \<lparr>g_id = i, g_userId = ''u1'', g_emoji = ''*'', g_name = i, g_targetCents = None, g_currentCents = 0,
     g_targetDate = None, g_contributePerWeek = None, g_isDefault = d, g_archivedAt = None, g_createdAt = 0\<rparr>"

definition sample_savings :: savings_state where
  "sample_savings = \<lparr>sv_bank = sample_bank, sv_goals = [sample_goal ''g1'' True, sample_goal ''g2'' False],
     sv_configs = [\<lparr>as_userId = ''u1'', as_enabled = True, as_roundUpEnabled = True, as_roundUpSourceAccountId = None,
       as_splits = sample_splits, as_weeklyContributionCents = Some 1000, as_weeklyDay = Some 4\<rparr>],
     sv_roundUps = map (\<lambda>i. \<lparr>ru_id = ''ru'' @ show_int i, ru_userId = ''u1'', ru_transactionId = ''x'' @ show_int i,
       ru_amountCents = 90, ru_appliedAt = None\<rparr>) [1..7]\<rparr>"

theorem normalize_splits_witness:
  "sum_list (map gs_percent (normalizeSplits [\<lparr>gs_goalId = ''g1'', gs_percent = 1\<rparr>, \<lparr>gs_goalId = ''g2'', gs_percent = 2\<rparr>])) = 100"
  using normalize_splits_sum [of "[\<lparr>gs_goalId = ''g1'', gs_percent = 1\<rparr>, \<lparr>gs_goalId = ''g2'', gs_percent = 2\<rparr>]"] by simp

theorem allocate_witness: "sum_list (map snd (allocateCents 101 sample_splits)) = 101"
  using allocate_exact_and_fair [of 101 sample_splits] by (simp add: sample_splits_def)

lemma sweep_facts:
  "case fst (applyForUser default_config sample_env (''t1'', ''x1'') ''u1'' 630 sample_savings) of Inl _ \<Rightarrow> False | Inr b \<Rightarrow> b"
  "case update_goal ''u1'' ''g2'' \<lparr>gd_emoji = None, gd_name = None, gd_targetCents = None, gd_targetDate = None,
      gd_contributePerWeek = None, gd_isDefault = Some True\<rparr> (sv_goals sample_savings) of
      Inl _ \<Rightarrow> False | Inr gs \<Rightarrow> map g_isDefault gs = [False, True]"
  by code_simp+

theorem round_up_sweep_witness:
  "\<exists>st. applyForUser default_config sample_env (''t1'', ''x1'') ''u1'' 630 sample_savings = (Inr True, st) \<and>
     pending_of ''u1'' (sv_roundUps st) = [] \<and> drift (sv_bank st) ''s1'' = drift sample_bank ''s1''"
proof -
  obtain st where p: "applyForUser default_config sample_env (''t1'', ''x1'') ''u1'' 630 sample_savings = (Inr True, st)"
    using sweep_facts(1) by (cases "applyForUser default_config sample_env (''t1'', ''x1'') ''u1'' 630 sample_savings")
      (simp split: sum.splits)
  then show ?thesis using round_up_sweep_settles [OF p feeMin_ok] fresh_bank by (simp add: sample_savings_def)
qed

theorem goals_one_default_witness:
  "\<exists>gs. update_goal ''u1'' ''g2'' \<lparr>gd_emoji = None, gd_name = None, gd_targetCents = None, gd_targetDate = None,
      gd_contributePerWeek = None, gd_isDefault = Some True\<rparr> (sv_goals sample_savings) = Inr gs \<and>
     one_default gs \<and> map g_isDefault gs = [False, True]"
proof -
  let ?r = "update_goal ''u1'' ''g2'' \<lparr>gd_emoji = None, gd_name = None, gd_targetCents = None, gd_targetDate = None,
      gd_contributePerWeek = None, gd_isDefault = Some True\<rparr> (sv_goals sample_savings)"
  obtain gs where g: "?r = Inr gs" and m: "map g_isDefault gs = [False, True]"
    using sweep_facts(2) by (cases ?r) (simp_all only: sum.case)
  have o: "one_default (sv_goals sample_savings)" "distinct (map g_id (sv_goals sample_savings))" by code_simp+
  have d: "one_default gs" by (rule goals_keep_one_default [OF o disjI2 [OF disjI1 [OF g]]])
  show ?thesis by (intro exI conjI) (rule g d m)+
qed

section \<open>Witnesses: check deposits and account opening\<close>

definition sample_deposits :: deposit_state where
  "sample_deposits = \<lparr>ds_bank = sample_bank, ds_deposits = [\<lparr>ck_id = ''d1'', ck_userId = ''u1'', ck_accountId = ''c1'',
     ck_amountCents = 4200, ck_displayAmountCents = None, ck_displayCurrency = None, ck_status = DepPending,
     ck_frontKey = ''f'', ck_backKey = ''b'', ck_submittedAt = 0, ck_decidedAt = None, ck_decidedByUserId = None,
     ck_decisionReason = None, ck_transactionId = None\<rparr>], ds_storage = [], ds_notices = []\<rparr>"

lemma deposit_facts: "is_ok (approve 1000 ''adm'' ''x1'' ''d1'' sample_deposits)"
  by code_simp

lemma approvedE: obtains st where "approve 1000 ''adm'' ''x1'' ''d1'' sample_deposits = Inr st"
  using is_okD [OF deposit_facts] by blast


theorem approve_drifts_witness:
  "\<exists>st. approve 1000 ''adm'' ''x1'' ''d1'' sample_deposits = Inr st \<and>
     drift (ds_bank st) ''c1'' = map_option (\<lambda>d. d + 4200) (drift sample_bank ''c1'')"
proof -
  obtain st where p: "approve 1000 ''adm'' ''x1'' ''d1'' sample_deposits = Inr st" by (rule approvedE)
  then show ?thesis using approve_drifts_from_ledger [OF p] by (auto simp: sample_deposits_def)
qed

theorem create_account_retries_witness:
  "is_ok (createAccount (\<lambda>k. if k < 2 then ''1234567890'' else ''999'') ''c9'' ''u9'' Checking ''Checking'' None
     [sample_account ''c1'' ''u1'' Checking 0])"
  using create_account_retries [of 2 "\<lambda>k. if k < 2 then ''1234567890'' else ''999''" "[sample_account ''c1'' ''u1'' Checking 0]"
    "''c9''" "''u9''" Checking "''Checking''" None] by (auto simp: sample_account_def)

definition sample_limits :: limits_config where
  "sample_limits = \<lparr>lc_apyBps = None, lc_atm = None, lc_purchases = None, lc_cash = None, lc_mobileCheck = None, lc_outgoingWire = None\<rparr>"

lemma provision_facts:
  "is_ok (provisionForUser sample_limits (\<lambda>_. ''111'') (\<lambda>_. ''222'') (''n1'', ''n2'') ''u9''
     \<lparr>ac_bank = sample_bank, ac_limits = [], ac_events = []\<rparr>)"
  "countForUser ''u9'' sample_bank = 0"
  by code_simp+

theorem provision_idempotent_witness:
  "\<exists>c v st. provisionForUser sample_limits (\<lambda>_. ''111'') (\<lambda>_. ''222'') (''n1'', ''n2'') ''u9''
     \<lparr>ac_bank = sample_bank, ac_limits = [], ac_events = []\<rparr> = Inr ((c, v), st) \<and> listForUser_accounts ''u9'' (ac_bank st) = [c, v]"
proof -
  obtain c v st where p: "provisionForUser sample_limits (\<lambda>_. ''111'') (\<lambda>_. ''222'') (''n1'', ''n2'') ''u9''
     \<lparr>ac_bank = sample_bank, ac_limits = [], ac_events = []\<rparr> = Inr ((c, v), st)" using is_okD [OF provision_facts(1)] by auto
  then show ?thesis using provision_idempotent [OF p] provision_facts(2) by auto
qed


end
