(* ===== verification/Auth_Schema.thy ===== *)
theory Auth_Schema
  imports Schema
begin

text \<open>
  The tables and libraries of sign-in: the columns of the user table the money services do not
  read, sessions with their refresh-token trail, devices, one-time codes and the in-memory attempt
  counters; signed tokens (\<^verbatim>\<open>crypto/jwt.service.ts\<close>) and the mail gateway with its kill switch
  (\<^verbatim>\<open>common/email/email.service.ts\<close>). The hash, password and token libraries are parameters,
  collected in a record; \<open>jwt_laws\<close> and \<open>argon_laws\<close> state what their documentation promises.
\<close>

section \<open>Libraries\<close>

text \<open>The payload of a token is an object whose fields may be absent.\<close>

record claims =
  jc_sub :: "string option"
  jc_sid :: "string option"
  jc_role :: "string option"
  jc_fam :: "string option"
  jc_cid :: "string option"
  jc_tid :: "string option"
  jc_scope :: "string option"
  jc_purpose :: "string option"
  jc_jti :: string

definition no_claims :: "string \<Rightarrow> claims" where
  "no_claims jti = \<lparr>jc_sub = None, jc_sid = None, jc_role = None, jc_fam = None, jc_cid = None, jc_tid = None,
     jc_scope = None, jc_purpose = None, jc_jti = jti\<rparr>"

text \<open>\<open>cr_sign payload now ttl\<close> and \<open>cr_verify now token\<close> are the token library, with times in
  milliseconds; \<open>cr_hash salt plain\<close> and \<open>cr_check hash plain\<close> the password hash.\<close>

record crypto =
  cr_sign :: "claims \<Rightarrow> int \<Rightarrow> int \<Rightarrow> string"
  cr_verify :: "int \<Rightarrow> string \<Rightarrow> claims option"
  cr_sha256 :: "string \<Rightarrow> string"
  cr_hmac :: "string \<Rightarrow> string"
  cr_hash :: "string \<Rightarrow> string \<Rightarrow> string"
  cr_check :: "string \<Rightarrow> string \<Rightarrow> bool"

text \<open>A token verifies to the payload it was signed with until its lifetime, in whole seconds, is over.\<close>

definition jwt_laws :: "crypto \<Rightarrow> bool" where
  "jwt_laws lib = (\<forall>c t d n. cr_verify lib n (cr_sign lib c t d) = (if n div 1000 < t div 1000 + d div 1000 then Some c else None))"

text \<open>A hash accepts the text it was made of.\<close>

definition argon_laws :: "crypto \<Rightarrow> bool" where
  "argon_laws lib = (\<forall>salt p. cr_check lib (cr_hash lib salt p) p)"

section \<open>Settings\<close>

record auth_config =
  av_accessTtl :: int
  av_refreshTtl :: int
  av_mfaTtl :: int
  av_recoveryTtl :: int
  av_elevationTtl :: int
  av_idleMs :: int
  av_mfaTtlSec :: int
  av_mfaMaxAttempts :: int
  av_resetTtlSec :: int
  av_resetMaxAttempts :: int
  av_codeTtlSec :: int
  av_codeMaxAttempts :: int
  av_cooldownSec :: int
  av_signupTtlDays :: int
  av_adminCopies :: "string list"
  av_smsToEmail :: bool

text \<open>The values used when the environment sets none.\<close>

definition default_auth_config :: auth_config where
  "default_auth_config = \<lparr>av_accessTtl = 900000, av_refreshTtl = 2592000000, av_mfaTtl = 300000, av_recoveryTtl = 900000,
     av_elevationTtl = 300000, av_idleMs = 900000, av_mfaTtlSec = 300, av_mfaMaxAttempts = 5, av_resetTtlSec = 600,
     av_resetMaxAttempts = 5, av_codeTtlSec = 600, av_codeMaxAttempts = 5, av_cooldownSec = 60, av_signupTtlDays = 7,
     av_adminCopies = [], av_smsToEmail = True\<rparr>"

section \<open>Tables\<close>

datatype revoked_reason = UserSignout | NewerLogin | PasswordChanged | AdminRevoke | ReuseDetected | IdleTimeout

record login_user = user +
  u_passwordHash :: string
  u_transactionPinHash :: "string option"
  u_securitySetupRequired :: bool
  u_emailNotificationsDisabled :: bool

record device =
  de_id :: string
  de_userId :: string
  de_fingerprint :: string
  de_name :: string
  de_os :: string
  de_browser :: string
  de_ipFirstSeen :: string
  de_ipLastSeen :: string
  de_locationLastSeen :: "string option"
  de_trusted :: bool
  de_lastSeenAt :: int
  de_revokedAt :: "int option"

record session =
  se_id :: string
  se_userId :: string
  se_deviceId :: string
  se_accessTokenJti :: string
  se_refreshTokenHash :: string
  se_refreshTokenFamilyId :: string
  se_createdAt :: int
  se_expiresAt :: int
  se_lastSeenAt :: int
  se_revokedAt :: "int option"
  se_revokedReason :: "revoked_reason option"

record refresh_audit =
  ra_familyId :: string
  ra_tokenHash :: string
  ra_sessionId :: string

record mfa_challenge =
  mc_id :: string
  mc_userId :: string
  mc_codeHash :: string
  mc_expiresAt :: int
  mc_attempts :: int
  mc_consumedAt :: "int option"
  mc_pendingDeviceFingerprint :: string
  mc_pendingDeviceName :: string
  mc_pendingDeviceOs :: string
  mc_pendingDeviceBrowser :: string
  mc_pendingIp :: string

record reset_challenge =
  rs_id :: string
  rs_userId :: string
  rs_emailHash :: string
  rs_codeHash :: string
  rs_expiresAt :: int
  rs_attempts :: int
  rs_consumedAt :: "int option"
  rs_supersededAt :: "int option"
  rs_createdAt :: int

record pin_attempts =
  pn_count :: nat
  pn_lockedUntil :: "int option"

datatype auth_event =
    EvSessionCreated string string string string int
      \<comment> \<open>user, session, device, address, time\<close>
  | EvSessionRevoked string string revoked_reason int
      \<comment> \<open>user, session, reason, time\<close>

text \<open>Messages that reached the provider: kind, code and lifetime in minutes.\<close>

datatype auth_mail =
    CodeMail string string int
  | AdminCodeCopy string string string int

record auth_state =
  sa_users :: "login_user list"
  sa_devices :: "device list"
  sa_sessions :: "session list"
  sa_refreshAudit :: "refresh_audit list"
  sa_challenges :: "mfa_challenge list"
  sa_resets :: "reset_challenge list"
  sa_pinAttempts :: "string \<Rightarrow> pin_attempts option"
  sa_events :: "auth_event list"
  sa_outbox :: "(string list \<times> auth_mail) list"
  sa_sms :: "(string \<times> string) list"
  sa_audit :: "audit_row list"

definition empty_auth :: auth_state where
  "empty_auth = \<lparr>sa_users = [], sa_devices = [], sa_sessions = [], sa_refreshAudit = [], sa_challenges = [], sa_resets = [],
     sa_pinAttempts = (\<lambda>_. None), sa_events = [], sa_outbox = [], sa_sms = [], sa_audit = []\<rparr>"

abbreviation session_of :: "auth_state \<Rightarrow> string \<Rightarrow> session option" where
  "session_of st i \<equiv> find_unique se_id i (sa_sessions st)"

abbreviation login_user_of :: "auth_state \<Rightarrow> string \<Rightarrow> login_user option" where
  "login_user_of st i \<equiv> find_unique u_id i (sa_users st)"

section \<open>Tokens\<close>

definition signAccess :: "crypto \<Rightarrow> auth_config \<Rightarrow> int \<Rightarrow> string \<Rightarrow> string \<Rightarrow> string \<Rightarrow> string option \<Rightarrow> string" where
  "signAccess lib cfg now jti sub sid role =
     cr_sign lib ((no_claims jti)\<lparr>jc_sub := Some sub, jc_sid := Some sid, jc_role := role\<rparr>) now (av_accessTtl cfg)"

definition signRefresh :: "crypto \<Rightarrow> auth_config \<Rightarrow> int \<Rightarrow> string \<Rightarrow> string \<Rightarrow> string \<Rightarrow> string \<Rightarrow> string" where
  "signRefresh lib cfg now jti sub sid fam =
     cr_sign lib ((no_claims jti)\<lparr>jc_sub := Some sub, jc_sid := Some sid, jc_fam := Some fam\<rparr>) now (av_refreshTtl cfg)"

definition signMfa :: "crypto \<Rightarrow> auth_config \<Rightarrow> int \<Rightarrow> string \<Rightarrow> string \<Rightarrow> string \<Rightarrow> string" where
  "signMfa lib cfg now jti sub cid =
     cr_sign lib ((no_claims jti)\<lparr>jc_sub := Some sub, jc_cid := Some cid\<rparr>) now (av_mfaTtl cfg)"

definition signRecovery :: "crypto \<Rightarrow> auth_config \<Rightarrow> int \<Rightarrow> string \<Rightarrow> string \<Rightarrow> string" where
  "signRecovery lib cfg now jti sub =
     cr_sign lib ((no_claims jti)\<lparr>jc_sub := Some sub, jc_purpose := Some ''password_reset''\<rparr>) now (av_recoveryTtl cfg)"

definition verifyRecovery :: "crypto \<Rightarrow> int \<Rightarrow> string \<Rightarrow> claims option" where
  "verifyRecovery lib now token =
     (case cr_verify lib now token of None \<Rightarrow> None
      | Some c \<Rightarrow> if jc_purpose c \<noteq> Some ''password_reset'' then None else Some c)"

definition signGuestSupport :: "crypto \<Rightarrow> int \<Rightarrow> string \<Rightarrow> string \<Rightarrow> string" where
  "signGuestSupport lib now jti threadId =
     cr_sign lib ((no_claims jti)\<lparr>jc_tid := Some threadId, jc_purpose := Some ''guest_support''\<rparr>) now 2592000000"

definition verifyGuestSupport :: "crypto \<Rightarrow> int \<Rightarrow> string \<Rightarrow> claims option" where
  "verifyGuestSupport lib now token =
     (case cr_verify lib now token of None \<Rightarrow> None
      | Some c \<Rightarrow> if jc_purpose c \<noteq> Some ''guest_support'' then None else Some c)"

section \<open>Mail\<close>

text \<open>Recipients an administrator switched off drop out unless the message is critical.\<close>

definition withoutSuppressed :: "login_user list \<Rightarrow> string list \<Rightarrow> bool \<Rightarrow> string list option" where
  "withoutSuppressed users recipients critical =
     (if critical then Some recipients
      else
        (let emails = filter (\<lambda>e. e \<noteq> '''') (map (\<lambda>e. to_lower (js_trim e)) recipients);
             suppressed = map (\<lambda>u. to_lower (u_email u))
               (filter (\<lambda>u. u_emailNotificationsDisabled u \<and> to_lower (u_email u) \<in> set emails) users);
             remaining = filter (\<lambda>e. to_lower (js_trim e) \<notin> set suppressed) recipients
         in if emails = [] \<or> suppressed = [] then Some recipients
            else if remaining = [] then None else Some remaining))"

definition email_send :: "string list \<Rightarrow> auth_mail \<Rightarrow> bool \<Rightarrow> auth_state \<Rightarrow> auth_state" where
  "email_send recipients m critical st =
     (case withoutSuppressed (sa_users st) recipients critical of
        None \<Rightarrow> st
      | Some rs \<Rightarrow> st\<lparr>sa_outbox := sa_outbox st @ [(rs, m)]\<rparr>)"

definition auth_emit :: "auth_event \<Rightarrow> auth_state \<Rightarrow> auth_state" where
  "auth_emit e st = st\<lparr>sa_events := sa_events st @ [e]\<rparr>"

definition auth_audit ::
  "int \<Rightarrow> string \<Rightarrow> string \<Rightarrow> string \<Rightarrow> string \<Rightarrow> (string \<times> audit_value) list \<Rightarrow> auth_state \<Rightarrow> auth_state" where
  "auth_audit now actorUserId action targetType targetId metadata st =
     st\<lparr>sa_audit := sa_audit st @
        [\<lparr>au_actorUserId = actorUserId, au_action = action, au_targetType = targetType,
          au_targetId = targetId, au_metadata = metadata, au_createdAt = now\<rparr>]\<rparr>"

lemma email_send_frame [simp]:
  "sa_users (email_send r m c st) = sa_users st" "sa_devices (email_send r m c st) = sa_devices st"
  "sa_sessions (email_send r m c st) = sa_sessions st" "sa_refreshAudit (email_send r m c st) = sa_refreshAudit st"
  "sa_challenges (email_send r m c st) = sa_challenges st" "sa_resets (email_send r m c st) = sa_resets st"
  "sa_pinAttempts (email_send r m c st) = sa_pinAttempts st" "sa_events (email_send r m c st) = sa_events st"
  by (simp_all add: email_send_def split: option.splits)

lemma auth_emit_frame [simp]:
  "sa_users (auth_emit e st) = sa_users st" "sa_devices (auth_emit e st) = sa_devices st"
  "sa_sessions (auth_emit e st) = sa_sessions st" "sa_refreshAudit (auth_emit e st) = sa_refreshAudit st"
  "sa_challenges (auth_emit e st) = sa_challenges st" "sa_resets (auth_emit e st) = sa_resets st"
  "sa_pinAttempts (auth_emit e st) = sa_pinAttempts st" "sa_events (auth_emit e st) = sa_events st @ [e]"
  by (simp_all add: auth_emit_def)

lemma auth_audit_frame [simp]:
  "sa_users (auth_audit n a b c d m st) = sa_users st" "sa_devices (auth_audit n a b c d m st) = sa_devices st"
  "sa_sessions (auth_audit n a b c d m st) = sa_sessions st" "sa_refreshAudit (auth_audit n a b c d m st) = sa_refreshAudit st"
  by (simp_all add: auth_audit_def)

end
