(* ===== verification/Sessions.thy ===== *)
theory Sessions
  imports Auth_Schema
begin

text \<open>
  Sessions (\<^verbatim>\<open>sessions/sessions.service.ts\<close>, \<^verbatim>\<open>sessions/session-idle.util.ts\<close>), the check every request
  passes (\<^verbatim>\<open>auth/strategies/jwt-access.strategy.ts\<close>) and the administrator's view
  (\<^verbatim>\<open>admin/sessions/admin-sessions.service.ts\<close>). One session of a user is live at a time; its refresh
  token is replaced at each use and an old one that comes again ends the session.
\<close>

section \<open>Activity\<close>

definition TOUCH_INTERVAL_MS :: int where
  "TOUCH_INTERVAL_MS = 60000"

definition isIdle :: "int \<Rightarrow> int \<Rightarrow> int \<Rightarrow> bool" where
  "isIdle lastSeenAt idleMs now = (now - lastSeenAt \<ge> idleMs)"

definition shouldTouch :: "int \<Rightarrow> int \<Rightarrow> bool" where
  "shouldTouch lastSeenAt now = (now - lastSeenAt \<ge> TOUCH_INTERVAL_MS)"

definition isActive :: "int \<Rightarrow> session \<Rightarrow> bool" where
  "isActive now s = (se_revokedAt s = None \<and> se_expiresAt s > now)"

definition live :: "session \<Rightarrow> bool" where
  "live s = (se_revokedAt s = None)"

section \<open>Revocation\<close>

definition revoke_row :: "int \<Rightarrow> revoked_reason \<Rightarrow> session \<Rightarrow> session" where
  "revoke_row now reason s = s\<lparr>se_revokedAt := Some now, se_revokedReason := Some reason\<rparr>"

text \<open>The shared shape of the bulk revocations: find the live rows that match, update them, announce each.\<close>

definition revoke_where :: "(session \<Rightarrow> bool) \<Rightarrow> int \<Rightarrow> revoked_reason \<Rightarrow> auth_state \<Rightarrow> string list \<times> auth_state" where
  "revoke_where P now reason st =
     (let hit = filter (\<lambda>s. P s \<and> live s) (sa_sessions st)
      in (map se_id hit,
          fold (\<lambda>s. auth_emit (EvSessionRevoked (se_userId s) (se_id s) reason now)) hit
            (st\<lparr>sa_sessions := update_many (\<lambda>s. P s \<and> live s) (revoke_row now reason) (sa_sessions st)\<rparr>)))"

definition revokeAllForUser :: "int \<Rightarrow> string \<Rightarrow> revoked_reason \<Rightarrow> auth_state \<Rightarrow> string list \<times> auth_state" where
  "revokeAllForUser now userId reason = revoke_where (\<lambda>s. se_userId s = userId) now reason"

definition revokeFamily :: "int \<Rightarrow> string \<Rightarrow> revoked_reason \<Rightarrow> auth_state \<Rightarrow> auth_state" where
  "revokeFamily now familyId reason st = snd (revoke_where (\<lambda>s. se_refreshTokenFamilyId s = familyId) now reason st)"

definition revokeAllOther :: "int \<Rightarrow> string \<Rightarrow> string \<Rightarrow> revoked_reason \<Rightarrow> auth_state \<Rightarrow> string list \<times> auth_state" where
  "revokeAllOther now userId currentSessionId reason =
     revoke_where (\<lambda>s. se_userId s = userId \<and> se_id s \<noteq> currentSessionId) now reason"

definition set_session :: "string \<Rightarrow> (session \<Rightarrow> session) \<Rightarrow> auth_state \<Rightarrow> auth_state" where
  "set_session i f st = st\<lparr>sa_sessions := update_many (\<lambda>s. se_id s = i) f (sa_sessions st)\<rparr>"

definition revoke_announced :: "int \<Rightarrow> revoked_reason \<Rightarrow> session \<Rightarrow> auth_state \<Rightarrow> auth_state" where
  "revoke_announced now reason s st =
     auth_emit (EvSessionRevoked (se_userId s) (se_id s) reason now) (set_session (se_id s) (revoke_row now reason) st)"

definition revokeOne :: "int \<Rightarrow> string \<Rightarrow> string \<Rightarrow> revoked_reason \<Rightarrow> auth_state \<Rightarrow> auth_state result" where
  "revokeOne now sessionId actingUserId reason st =
     ebind (or_throw (NotFound ''Session not found'') (session_of st sessionId)) (\<lambda>s.
     ebind (require (se_userId s = actingUserId) (Forbidden ''Not your session'')) (\<lambda>_.
     Inr (if \<not> live s then st else revoke_announced now reason s st)))"

section \<open>Issue and rotation\<close>

record issue_result =
  iss_session :: session
  iss_accessToken :: string
  iss_refreshToken :: string
  iss_revokedIds :: "string list"

text \<open>Identifiers drawn for a session: session, family, and one for each token.\<close>

type_synonym session_ids = "string \<times> string \<times> string \<times> string"

definition insert_session :: "session \<Rightarrow> session list \<Rightarrow> session list result" where
  "insert_session s t =
     ebind (create_unique ''accessTokenJti'' se_accessTokenJti s t) (\<lambda>_.
     ebind (create_unique ''refreshTokenHash'' se_refreshTokenHash s t) (\<lambda>_.
     create_unique ''id'' se_id s t))"

definition issueSession ::
  "crypto \<Rightarrow> auth_config \<Rightarrow> int \<Rightarrow> session_ids \<Rightarrow> string \<Rightarrow> string \<Rightarrow> string option \<Rightarrow> string \<Rightarrow> auth_state \<Rightarrow>
     (issue_result \<times> auth_state) result" where
  "issueSession lib cfg now ids userId deviceId role ip st =
     (let (sessionId, familyId, jtiA, jtiR) = ids;
          access = signAccess lib cfg now jtiA userId sessionId role;
          refresh = signRefresh lib cfg now jtiR userId sessionId familyId;
          s = \<lparr>se_id = sessionId, se_userId = userId, se_deviceId = deviceId, se_accessTokenJti = jtiA,
               se_refreshTokenHash = cr_sha256 lib refresh, se_refreshTokenFamilyId = familyId, se_createdAt = now,
               se_expiresAt = now + av_refreshTtl cfg, se_lastSeenAt = now, se_revokedAt = None, se_revokedReason = None\<rparr>
      in ebind (insert_session s (sa_sessions st)) (\<lambda>t.
         let (revokedIds, st1) =
               revoke_where (\<lambda>x. se_userId x = userId \<and> se_id x \<noteq> sessionId) now NewerLogin (st\<lparr>sa_sessions := t\<rparr>)
         in Inr (\<lparr>iss_session = s, iss_accessToken = access, iss_refreshToken = refresh, iss_revokedIds = revokedIds\<rparr>,
                 auth_emit (EvSessionCreated userId sessionId deviceId ip now) st1)))"

text \<open>The checks before rotation; a token that comes again, or belongs to no live session, ends its family.\<close>

definition rotate_check :: "crypto \<Rightarrow> auth_config \<Rightarrow> int \<Rightarrow> string \<Rightarrow> auth_state \<Rightarrow> session result \<times> auth_state" where
  "rotate_check lib cfg now presented st =
     (case cr_verify lib now presented of
        None \<Rightarrow> (Inl (Forbidden ''Invalid refresh token''), st)
      | Some c \<Rightarrow>
          (let h = cr_sha256 lib presented;
               ended = (Inl (Forbidden ''Refresh token no longer valid''),
                        if truthy_str (jc_fam c) then revokeFamily now (the (jc_fam c)) ReuseDetected st else st)
           in case find_unique ra_tokenHash h (sa_refreshAudit st) of
                Some r \<Rightarrow> (Inl (Forbidden ''Refresh reuse detected; session revoked''),
                           revokeFamily now (ra_familyId r) ReuseDetected st)
              | None \<Rightarrow>
                  (case find_unique se_refreshTokenHash h (sa_sessions st) of
                     None \<Rightarrow> ended
                   | Some s \<Rightarrow>
                       if \<not> live s then ended
                       else if isIdle (se_lastSeenAt s) (av_idleMs cfg) now
                       then (Inl (Forbidden ''Session timed out''), set_session (se_id s) (revoke_row now IdleTimeout) st)
                       else (Inr s, st))))"

definition role_name :: "user_role \<Rightarrow> string" where
  "role_name r = (case r of Customer \<Rightarrow> ''customer'' | Admin \<Rightarrow> ''admin'' | SuperAdmin \<Rightarrow> ''superadmin'')"

definition role_of :: "auth_state \<Rightarrow> string \<Rightarrow> string option" where
  "role_of st userId = map_option (\<lambda>u. role_name (u_role u)) (login_user_of st userId)"

text \<open>The database transaction: the old token is written to the trail, which refuses a second entry.\<close>

definition rotate_commit ::
  "crypto \<Rightarrow> auth_config \<Rightarrow> int \<Rightarrow> string \<times> string \<Rightarrow> string \<Rightarrow> session \<Rightarrow> auth_state \<Rightarrow> (issue_result \<times> auth_state) result" where
  "rotate_commit lib cfg now ids presented s st =
     (let (jtiA, jtiR) = ids;
          access = signAccess lib cfg now jtiA (se_userId s) (se_id s) (role_of st (se_userId s));
          refresh = signRefresh lib cfg now jtiR (se_userId s) (se_id s) (se_refreshTokenFamilyId s);
          renew = (\<lambda>x. x\<lparr>se_accessTokenJti := jtiA, se_refreshTokenHash := cr_sha256 lib refresh\<rparr>)
      in ebind (create_unique ''tokenHash'' ra_tokenHash
                  \<lparr>ra_familyId = se_refreshTokenFamilyId s, ra_tokenHash = cr_sha256 lib presented, ra_sessionId = se_id s\<rparr>
                  (sa_refreshAudit st)) (\<lambda>a.
         ebind (require (find_first (\<lambda>x. se_id x \<noteq> se_id s \<and>
                   (se_refreshTokenHash x = cr_sha256 lib refresh \<or> se_accessTokenJti x = jtiA)) (sa_sessions st) = None)
                  (UniqueViolation ''refreshTokenHash'')) (\<lambda>_.
         ebind (update_unique se_id (se_id s) renew (sa_sessions st)) (\<lambda>t.
         Inr (\<lparr>iss_session = renew s, iss_accessToken = access, iss_refreshToken = refresh, iss_revokedIds = []\<rparr>,
              st\<lparr>sa_refreshAudit := a, sa_sessions := t\<rparr>)))))"

definition rotateRefresh ::
  "crypto \<Rightarrow> auth_config \<Rightarrow> int \<Rightarrow> string \<times> string \<Rightarrow> string \<Rightarrow> auth_state \<Rightarrow> issue_result result \<times> auth_state" where
  "rotateRefresh lib cfg now ids presented st =
     (case rotate_check lib cfg now presented st of
        (Inl e, st1) \<Rightarrow> (Inl e, st1)
      | (Inr s, st1) \<Rightarrow>
          (case rotate_commit lib cfg now ids presented s st1 of
             Inl e \<Rightarrow> (Inl e, st1)
           | Inr (r, st2) \<Rightarrow> (Inr r, st2)))"

section \<open>The check of every request\<close>

record principal =
  pr_sub :: "string option"
  pr_sid :: "string option"
  pr_role :: "string option"

text \<open>\<open>geo\<close> resolves an address; the request's address is \<open>ip\<close>. A failure there is ignored.\<close>

definition refresh_device :: "(string \<Rightarrow> string option) \<Rightarrow> int \<Rightarrow> string \<Rightarrow> string \<Rightarrow> auth_state \<Rightarrow> auth_state" where
  "refresh_device geo now ip deviceId st =
     (if deviceId \<noteq> '''' \<and> ip \<noteq> '''' then
        st\<lparr>sa_devices := update_many (\<lambda>d. de_id d = deviceId)
             (\<lambda>d. d\<lparr>de_ipLastSeen := ip, de_locationLastSeen := geo ip, de_lastSeenAt := now\<rparr>) (sa_devices st)\<rparr>
      else st)"

definition validate ::
  "auth_config \<Rightarrow> (string \<Rightarrow> string option) \<Rightarrow> int \<Rightarrow> string \<Rightarrow> claims \<Rightarrow> auth_state \<Rightarrow> principal result \<times> auth_state" where
  "validate cfg geo now ip payload st =
     (case jc_sid payload of
        None \<Rightarrow> (Inl (PlainError ''Argument id is missing''), st)
      | Some sid \<Rightarrow>
          (case session_of st sid of
             None \<Rightarrow> (Inl (Unauthorized ''Session no longer active''), st)
           | Some s \<Rightarrow>
               if \<not> live s then (Inl (Unauthorized ''Session no longer active''), st)
               else if se_expiresAt s \<le> now then (Inl (Unauthorized ''Session expired''), st)
               else if isIdle (se_lastSeenAt s) (av_idleMs cfg) now
               then (Inl (Unauthorized ''Session timed out''), set_session sid (revoke_row now IdleTimeout) st)
               else
                 (Inr \<lparr>pr_sub = jc_sub payload, pr_sid = jc_sid payload, pr_role = jc_role payload\<rparr>,
                  if shouldTouch (se_lastSeenAt s) now
                  then refresh_device geo now ip (se_deviceId s) (set_session sid (\<lambda>x. x\<lparr>se_lastSeenAt := now\<rparr>) st)
                  else st)))"

text \<open>The strategy's options: a token that does not verify, or has expired, is refused first.\<close>

definition authenticate ::
  "crypto \<Rightarrow> auth_config \<Rightarrow> (string \<Rightarrow> string option) \<Rightarrow> int \<Rightarrow> string \<Rightarrow> string \<Rightarrow> auth_state \<Rightarrow> principal result \<times> auth_state" where
  "authenticate lib cfg geo now ip token st =
     (case cr_verify lib now token of
        None \<Rightarrow> (Inl (Unauthorized ''Unauthorized''), st)
      | Some c \<Rightarrow> validate cfg geo now ip c st)"

section \<open>Lists, purge and the administrator\<close>

definition sessions_of_user :: "string \<Rightarrow> auth_state \<Rightarrow> session list" where
  "sessions_of_user userId st =
     rev (sort_key se_createdAt (filter (\<lambda>s. se_userId s = userId) (sa_sessions st)))"

definition purgeForUser :: "int \<Rightarrow> string \<Rightarrow> auth_state \<Rightarrow> (nat \<times> nat \<times> nat) \<times> auth_state" where
  "purgeForUser now userId st =
     (let active = filter (\<lambda>s. se_userId s = userId \<and> isActive now s) (sa_sessions st);
          st1 = fold (\<lambda>s. auth_emit (EvSessionRevoked userId (se_id s) AdminRevoke now)) active st;
          familyIds = remdups (map se_refreshTokenFamilyId (filter (\<lambda>s. se_userId s = userId) (sa_sessions st)))
      in ((length active, length (filter (\<lambda>s. se_userId s = userId) (sa_sessions st)),
           length (filter (\<lambda>d. de_userId d = userId) (sa_devices st))),
          st1\<lparr>sa_refreshAudit := filter (\<lambda>r. ra_familyId r \<notin> set familyIds) (sa_refreshAudit st),
              sa_sessions := filter (\<lambda>s. se_userId s \<noteq> userId) (sa_sessions st),
              sa_devices := filter (\<lambda>d. de_userId d \<noteq> userId) (sa_devices st)\<rparr>))"

definition listActive :: "int \<Rightarrow> auth_state \<Rightarrow> session list" where
  "listActive now st = take 200 (rev (sort_key se_createdAt (filter (isActive now) (sa_sessions st))))"

text \<open>The administrator's revocation; the flag says whether the session was revoked before.\<close>

definition admin_revoke :: "int \<Rightarrow> string \<Rightarrow> string \<Rightarrow> auth_state \<Rightarrow> (bool \<times> auth_state) result" where
  "admin_revoke now actorUserId sessionId st =
     ebind (or_throw (NotFound ''Session not found'') (session_of st sessionId)) (\<lambda>s.
     Inr (if \<not> live s then (True, st)
          else (False, auth_audit now actorUserId ''session.admin_revoke'' ''session'' sessionId
                  [(''userId'', AvText (se_userId s)), (''deviceId'', AvText (se_deviceId s))]
                  (revoke_announced now AdminRevoke s st))))"

section \<open>How rows change\<close>

lemma fold_emit_frame [simp]:
  "sa_users (fold (\<lambda>s. auth_emit (f s)) xs st) = sa_users st" "sa_devices (fold (\<lambda>s. auth_emit (f s)) xs st) = sa_devices st"
  "sa_sessions (fold (\<lambda>s. auth_emit (f s)) xs st) = sa_sessions st"
  "sa_refreshAudit (fold (\<lambda>s. auth_emit (f s)) xs st) = sa_refreshAudit st"
  by (induction xs arbitrary: st) simp_all

lemma revoke_where_sel [simp]:
  "sa_sessions (snd (revoke_where P n r st)) = update_many (\<lambda>s. P s \<and> live s) (revoke_row n r) (sa_sessions st)"
  "sa_refreshAudit (snd (revoke_where P n r st)) = sa_refreshAudit st"
  "sa_devices (snd (revoke_where P n r st)) = sa_devices st" "sa_users (snd (revoke_where P n r st)) = sa_users st"
  by (simp_all add: revoke_where_def Let_def)

lemma set_session_sel [simp]:
  "sa_sessions (set_session i f st) = update_many (\<lambda>s. se_id s = i) f (sa_sessions st)"
  "sa_refreshAudit (set_session i f st) = sa_refreshAudit st"
  by (simp_all add: set_session_def)

text \<open>A row keeps its identity and never becomes live again.\<close>

definition ages :: "session \<Rightarrow> session \<Rightarrow> bool" where
  "ages s s' = (se_id s' = se_id s \<and> se_userId s' = se_userId s \<and> se_refreshTokenFamilyId s' = se_refreshTokenFamilyId s \<and>
     se_expiresAt s' = se_expiresAt s \<and> (live s' \<longrightarrow> live s))"

lemma ages_refl [simp]: "ages s s"
  by (simp add: ages_def)

lemma ages_revoke_row [simp]: "ages s (revoke_row n r s)" "\<not> live (revoke_row n r s)"
  by (simp_all add: ages_def revoke_row_def live_def)

lemma ages_update_many [intro]: "(\<And>s. ages s (f s)) \<Longrightarrow> list_all2 ages t (update_many P f t)"
  by (induction t) simp_all

lemma ages_revoked [simp]: "list_all2 ages t (update_many P (revoke_row n r) t)"
  by auto

lemma ages_all_refl [simp]: "list_all2 ages t t"
  by (simp add: list_all2_refl)

text \<open>What a step other than a purge does: rows age, at most one row is added, the trail grows.\<close>

definition evolves :: "auth_state \<Rightarrow> auth_state \<Rightarrow> bool" where
  "evolves st st' = (\<exists>t new. sa_sessions st' = t @ new \<and> list_all2 ages (sa_sessions st) t \<and>
     (\<exists>more. sa_refreshAudit st' = sa_refreshAudit st @ more))"

lemma evolves_aged: "list_all2 ages (sa_sessions st) (sa_sessions st') \<Longrightarrow> sa_refreshAudit st' = sa_refreshAudit st \<Longrightarrow> evolves st st'"
  unfolding evolves_def by (metis append_Nil2)

lemma find_aged:
  assumes "list_all2 ages t t'" "find_unique se_id i t = Some s"
  shows "\<exists>s'. find_unique se_id i (t' @ new) = Some s' \<and> ages s s'"
  using assms by (induction rule: list_all2_induct) (auto simp: ages_def split: if_splits)

lemma rotate_check_state:
  assumes "rotate_check lib cfg now tok st = (res, st1)"
  shows "list_all2 ages (sa_sessions st) (sa_sessions st1) \<and> sa_refreshAudit st1 = sa_refreshAudit st \<and>
         (\<forall>s. res = Inr s \<longrightarrow> st1 = st \<and> s \<in> set (sa_sessions st) \<and> live s \<and> se_refreshTokenHash s = cr_sha256 lib tok \<and>
            \<not> isIdle (se_lastSeenAt s) (av_idleMs cfg) now)"
  using assms
  by (auto simp: rotate_check_def Let_def revokeFamily_def dest: find_unique_SomeD split: option.splits if_splits)

lemma rotate_commit_Inr:
  assumes "rotate_commit lib cfg now ids tok s st = Inr (r, st')"
  shows "list_all2 ages (sa_sessions st) (sa_sessions st')"
    and "sa_refreshAudit st' = sa_refreshAudit st @
           [\<lparr>ra_familyId = se_refreshTokenFamilyId s, ra_tokenHash = cr_sha256 lib tok, ra_sessionId = se_id s\<rparr>]"
    and "find_unique ra_tokenHash (cr_sha256 lib tok) (sa_refreshAudit st) = None"
    and "se_refreshTokenFamilyId (iss_session r) = se_refreshTokenFamilyId s"
  using assms by (auto simp: rotate_commit_def Let_def err_simps ages_def live_def split: prod.splits intro!: ages_update_many)

lemma rotate_evolves:
  assumes "rotateRefresh lib cfg now ids tok st = (res, st')"
  shows "list_all2 ages (sa_sessions st) (sa_sessions st') \<and> (\<exists>more. sa_refreshAudit st' = sa_refreshAudit st @ more)"
proof (cases "rotate_check lib cfg now tok st")
  case (Pair c st1)
  note chk = rotate_check_state [OF Pair]
  show ?thesis
  proof (cases c)
    case (Inl e)
    then show ?thesis using assms Pair chk by (simp add: rotateRefresh_def)
  next
    case (Inr s)
    then have "st1 = st" using chk by blast
    then show ?thesis
      using assms Pair chk Inr
      by (cases "rotate_commit lib cfg now ids tok s st") (auto simp: rotateRefresh_def dest: rotate_commit_Inr(1,2))
  qed
qed

lemma validate_evolves:
  assumes "validate cfg geo now ip c st = (res, st')"
  shows "list_all2 ages (sa_sessions st) (sa_sessions st') \<and> sa_refreshAudit st' = sa_refreshAudit st"
  using assms
  by (auto simp: validate_def refresh_device_def ages_def live_def revoke_row_def split: option.splits if_splits intro!: ages_update_many)


lemma issue_Inr:
  assumes "issueSession lib cfg now ids u d role ip st = Inr (r, st')"
  shows "sa_sessions st' = update_many (\<lambda>x. (se_userId x = u \<and> se_id x \<noteq> fst ids) \<and> live x) (revoke_row now NewerLogin) (sa_sessions st)
           @ [iss_session r]"
    and "find_unique se_id (fst ids) (sa_sessions st) = None" "sa_refreshAudit st' = sa_refreshAudit st"
    and "se_id (iss_session r) = fst ids" "se_userId (iss_session r) = u" "live (iss_session r)"
  using assms
  by (auto simp: issueSession_def Let_def insert_session_def err_simps update_many_def live_def case_prod_beta)

lemma issue_ids_distinct:
  assumes "issueSession lib cfg now ids u d role ip st = Inr (r, st')"
  shows "fst ids \<notin> se_id ` set (sa_sessions st)"
  using issue_Inr(2) [OF assms] by (simp add: find_unique_None_iff)

lemma revoked_dead:
  assumes "x \<in> set (update_many (\<lambda>s. P s \<and> live s) (revoke_row n r) t)" "\<And>s. P (revoke_row n r s) = P s" "P x"
  shows "\<not> live x"
  using assms(1,3) by (induction t) (auto simp: assms(2) split: if_splits)

lemma issue_others_dead:
  assumes "issueSession lib cfg now ids u d role ip st = Inr (r, st')"
    and "s \<in> set (update_many (\<lambda>x. (se_userId x = u \<and> se_id x \<noteq> fst ids) \<and> live x) (revoke_row now NewerLogin) (sa_sessions st))"
    and "se_userId s = u"
  shows "\<not> live s"
proof -
  have "se_id s \<in> se_id ` set (sa_sessions st)"
    using assms(2) by (auto simp: update_many_def revoke_row_def)
  then have "se_id s \<noteq> fst ids" using issue_ids_distinct [OF assms(1)] by metis
  then show ?thesis using revoked_dead [OF assms(2)] assms(3) by (simp add: revoke_row_def)
qed

section \<open>Histories\<close>

text \<open>The steps of the session tables. A purge is allowed for the users of the set only.\<close>

inductive session_step :: "crypto \<Rightarrow> auth_config \<Rightarrow> string set \<Rightarrow> auth_state \<Rightarrow> auth_state \<Rightarrow> bool"
  for lib :: crypto and cfg :: auth_config and U :: "string set" where
  ss_issue: "issueSession lib cfg now sids u d role ip st = Inr (r, st') \<Longrightarrow> session_step lib cfg U st st'"
| ss_rotate: "rotateRefresh lib cfg now rids tok st = (res, st') \<Longrightarrow> session_step lib cfg U st st'"
| ss_request: "authenticate lib cfg geo now ip tok st = (pres, st') \<Longrightarrow> session_step lib cfg U st st'"
| ss_one: "revokeOne now i u reason st = Inr st' \<Longrightarrow> session_step lib cfg U st st'"
| ss_all: "revokeAllForUser now u reason st = (is, st') \<Longrightarrow> session_step lib cfg U st st'"
| ss_other: "revokeAllOther now u i reason st = (is, st') \<Longrightarrow> session_step lib cfg U st st'"
| ss_admin: "admin_revoke now adm i st = Inr (b, st') \<Longrightarrow> session_step lib cfg U st st'"
| ss_purge: "u \<in> U \<Longrightarrow> purgeForUser now u st = (n, st') \<Longrightarrow> session_step lib cfg U st st'"

inductive_cases session_step_cases: "session_step lib cfg U st st'"

lemma revoke_announced_ages: "list_all2 ages (sa_sessions st) (sa_sessions (revoke_announced n r s st)) \<and>
    sa_refreshAudit (revoke_announced n r s st) = sa_refreshAudit st"
  by (auto simp: revoke_announced_def)

lemma revokeOne_ages:
  assumes "revokeOne now i u reason st = Inr st'"
  shows "list_all2 ages (sa_sessions st) (sa_sessions st') \<and> sa_refreshAudit st' = sa_refreshAudit st"
  using assms revoke_announced_ages by (auto simp: revokeOne_def err_simps split: if_splits)

lemma admin_revoke_ages:
  assumes "admin_revoke now adm i st = Inr (b, st')"
  shows "list_all2 ages (sa_sessions st) (sa_sessions st') \<and> sa_refreshAudit st' = sa_refreshAudit st"
  using assms revoke_announced_ages by (auto simp: admin_revoke_def err_simps split: if_splits)

lemma revoke_where_ages:
  assumes "revoke_where P n r st = (is, st')"
  shows "list_all2 ages (sa_sessions st) (sa_sessions st') \<and> sa_refreshAudit st' = sa_refreshAudit st"
proof -
  have "st' = snd (revoke_where P n r st)" using assms by simp
  then show ?thesis by auto
qed

lemma authenticate_ages:
  assumes "authenticate lib cfg geo now ip tok st = (res, st')"
  shows "list_all2 ages (sa_sessions st) (sa_sessions st') \<and> sa_refreshAudit st' = sa_refreshAudit st"
  using assms validate_evolves by (auto simp: authenticate_def split: option.splits)

text \<open>Every step is an issue, a purge, or ageing of the rows.\<close>

lemma session_step_shape:
  assumes "session_step lib cfg U st st'"
  obtains (issue) now sids u d role ip r where "issueSession lib cfg now sids u d role ip st = Inr (r, st')"
  | (purge) u now n where "u \<in> U" "purgeForUser now u st = (n, st')"
  | (rotate) now rids tok res where "rotateRefresh lib cfg now rids tok st = (res, st')"
  | (aged) "list_all2 ages (sa_sessions st) (sa_sessions st')" "sa_refreshAudit st' = sa_refreshAudit st"
  using assms
  by (cases rule: session_step.cases)
    (use that authenticate_ages revokeOne_ages admin_revoke_ages revoke_where_ages in
      \<open>auto simp: revokeAllForUser_def revokeAllOther_def\<close>)

lemma session_step_evolves:
  assumes "session_step lib cfg {} st st'"
  shows "evolves st st'"
  using assms
proof (cases rule: session_step_shape)
  case (issue now sids u d role ip r)
  have "list_all2 ages (sa_sessions st)
      (update_many (\<lambda>x. (se_userId x = u \<and> se_id x \<noteq> fst sids) \<and> live x) (revoke_row now NewerLogin) (sa_sessions st))" by auto
  then show ?thesis using issue_Inr(1,3) [OF issue] by (auto simp: evolves_def)
next
  case (rotate now rids tok res)
  from rotate_evolves [OF this] obtain more where "list_all2 ages (sa_sessions st) (sa_sessions st')"
    "sa_refreshAudit st' = sa_refreshAudit st @ more" by blast
  then show ?thesis unfolding evolves_def by (metis append_Nil2)
qed (auto intro: evolves_aged)


text \<open>Rows are found by unique columns, and a user has at most one live session.\<close>

definition sessions_inv :: "auth_state \<Rightarrow> bool" where
  "sessions_inv st = (distinct (map se_id (sa_sessions st)) \<and> distinct (map ra_tokenHash (sa_refreshAudit st)) \<and>
     (\<forall>s \<in> set (sa_sessions st). \<forall>s' \<in> set (sa_sessions st).
        live s \<and> live s' \<and> se_userId s = se_userId s' \<longrightarrow> se_id s = se_id s'))"

definition one_live :: "session list \<Rightarrow> bool" where
  "one_live t = (\<forall>s \<in> set t. \<forall>s' \<in> set t. live s \<and> live s' \<and> se_userId s = se_userId s' \<longrightarrow> se_id s = se_id s')"

lemma aged_ids: "list_all2 ages t t' \<Longrightarrow> map se_id t' = map se_id t"
  by (induction rule: list_all2_induct) (auto simp: ages_def)

lemma aged_origin: "list_all2 ages t t' \<Longrightarrow> s' \<in> set t' \<Longrightarrow> \<exists>s \<in> set t. ages s s'"
  by (induction rule: list_all2_induct) auto

lemma one_live_aged: "list_all2 ages t t' \<Longrightarrow> one_live t \<Longrightarrow> one_live t'"
  unfolding one_live_def by (metis aged_origin ages_def)

lemma one_live_snoc:
  assumes "one_live t" "\<And>s. s \<in> set t \<Longrightarrow> se_userId s = se_userId x \<Longrightarrow> \<not> live s"
  shows "one_live (t @ [x])"
  unfolding one_live_def
proof (intro ballI impI)
  fix s s' assume "s \<in> set (t @ [x])" "s' \<in> set (t @ [x])" and l: "live s \<and> live s' \<and> se_userId s = se_userId s'"
  then consider "s \<in> set t" "s' \<in> set t" | "s = x" "s' = x" | "s \<in> set t" "s' = x" | "s = x" "s' \<in> set t" by auto
  then show "se_id s = se_id s'"
  proof cases
    case 1
    then show ?thesis using assms(1) l unfolding one_live_def by blast
  next
    case 3
    then show ?thesis using assms(2) [of s] l by simp
  next
    case 4
    then show ?thesis using assms(2) [of s'] l by simp
  qed simp
qed

lemma sessions_inv_alt: "sessions_inv st \<longleftrightarrow>
    distinct (map se_id (sa_sessions st)) \<and> distinct (map ra_tokenHash (sa_refreshAudit st)) \<and> one_live (sa_sessions st)"
  by (simp add: sessions_inv_def one_live_def)

lemma sessions_inv_aged:
  assumes "list_all2 ages (sa_sessions st) (sa_sessions st')" "distinct (map ra_tokenHash (sa_refreshAudit st'))" "sessions_inv st"
  shows "sessions_inv st'"
  using assms aged_ids [OF assms(1)] one_live_aged [OF assms(1)] by (simp add: sessions_inv_alt)

lemma sessions_inv_issue:
  assumes "issueSession lib cfg now ids u d role ip st = Inr (r, st')" "sessions_inv st"
  shows "sessions_inv st'" and "\<forall>s \<in> set (sa_sessions st'). live s \<and> se_userId s = u \<longrightarrow> s = iss_session r"
proof -
  let ?t = "update_many (\<lambda>x. (se_userId x = u \<and> se_id x \<noteq> fst ids) \<and> live x) (revoke_row now NewerLogin) (sa_sessions st)"
  note i = issue_Inr [OF assms(1)]
  have a: "list_all2 ages (sa_sessions st) ?t" by simp
  have new: "fst ids \<notin> se_id ` set (sa_sessions st)" by (rule issue_ids_distinct [OF assms(1)])
  note dead = issue_others_dead [OF assms(1)]
  have ids: "map se_id ?t = map se_id (sa_sessions st)" by (rule aged_ids [OF a])
  have "one_live ?t" using one_live_aged [OF a] assms(2) by (simp add: sessions_inv_alt)
  then have "one_live (sa_sessions st')"
    unfolding i(1) using i(5) dead by (intro one_live_snoc) simp_all
  moreover have "distinct (map se_id (sa_sessions st'))"
    using i(1) i(4) ids new assms(2) by (simp add: sessions_inv_alt)
  ultimately show "sessions_inv st'" using i(3) assms(2) by (simp add: sessions_inv_alt)
  show "\<forall>s \<in> set (sa_sessions st'). live s \<and> se_userId s = u \<longrightarrow> s = iss_session r"
  proof (intro ballI impI)
    fix s assume "s \<in> set (sa_sessions st')" and l: "live s \<and> se_userId s = u"
    then have "s \<in> set ?t \<or> s = iss_session r" by (auto simp only: i(1) set_append list.set)
    then show "s = iss_session r" using dead [of s] l by blast
  qed
qed

lemma sessions_inv_purge:
  assumes "purgeForUser now u st = (n, st')" "sessions_inv st"
  shows "sessions_inv st'"
proof -
  have "sa_sessions st' = filter (\<lambda>s. se_userId s \<noteq> u) (sa_sessions st)"
    "\<exists>P. sa_refreshAudit st' = filter P (sa_refreshAudit st)"
    using assms(1) by (auto simp: purgeForUser_def Let_def)
  then show ?thesis using assms(2) by (auto simp: sessions_inv_alt one_live_def distinct_map_filter)
qed

lemma rotate_audit_distinct:
  assumes "rotateRefresh lib cfg now ids tok st = (res, st')" "distinct (map ra_tokenHash (sa_refreshAudit st))"
  shows "distinct (map ra_tokenHash (sa_refreshAudit st'))"
proof (cases "rotate_check lib cfg now tok st")
  case (Pair c st1)
  note chk = rotate_check_state [OF Pair]
  show ?thesis
  proof (cases "\<exists>s r. c = Inr s \<and> rotate_commit lib cfg now ids tok s st = Inr (r, st')")
    case True
    then obtain s r where c: "rotate_commit lib cfg now ids tok s st = Inr (r, st')" by blast
    from rotate_commit_Inr(2,3) [OF c] show ?thesis using assms(2) by (simp add: find_unique_None_iff)
  next
    case False
    then have "sa_refreshAudit st' = sa_refreshAudit st"
      using assms(1) Pair chk
      by (cases c; cases "rotate_commit lib cfg now ids tok (projr c) st1") (auto simp: rotateRefresh_def)
    then show ?thesis using assms(2) by simp
  qed
qed

lemma session_step_inv:
  assumes "session_step lib cfg U st st'" "sessions_inv st"
  shows "sessions_inv st'"
  using assms(1)
proof (cases rule: session_step_shape)
  case (issue now sids u d role ip r)
  then show ?thesis using sessions_inv_issue(1) assms(2) by blast
next
  case (purge u now n)
  then show ?thesis using sessions_inv_purge assms(2) by blast
next
  case (rotate now rids tok res)
  then show ?thesis
    using rotate_evolves rotate_audit_distinct sessions_inv_aged assms(2) by (meson sessions_inv_alt)
next
  case aged
  then show ?thesis using sessions_inv_aged assms(2) by (simp add: sessions_inv_alt)
qed

interpretation one_session: step_invariant "session_step lib cfg U" sessions_inv for lib cfg U
  by unfold_locales (rule session_step_inv)

text \<open>Without purges, a revoked row stays revoked and a spent token stays in the trail.\<close>

definition revoked_in :: "string \<Rightarrow> auth_state \<Rightarrow> bool" where
  "revoked_in i st = (\<exists>s. session_of st i = Some s \<and> \<not> live s)"

definition spent_in :: "string \<Rightarrow> string \<Rightarrow> auth_state \<Rightarrow> bool" where
  "spent_in h fam st = (\<exists>r \<in> set (sa_refreshAudit st). ra_tokenHash r = h \<and> ra_familyId r = fam)"

interpretation stays_revoked: step_invariant "session_step lib cfg {}" "revoked_in i" for lib cfg i
proof
  fix st st' assume step: "session_step lib cfg {} st st'" and "revoked_in i st"
  then obtain s where s: "session_of st i = Some s" "\<not> live s" by (auto simp: revoked_in_def)
  from session_step_evolves [OF step] obtain t new
    where t: "sa_sessions st' = t @ new" "list_all2 ages (sa_sessions st) t" by (auto simp: evolves_def)
  from find_aged [OF t(2) s(1), of new] s(2) show "revoked_in i st'"
    using t(1) by (auto simp: revoked_in_def ages_def)
qed

interpretation stays_spent: step_invariant "session_step lib cfg {}" "spent_in h fam" for lib cfg h fam
proof
  fix st st' assume step: "session_step lib cfg {} st st'" and "spent_in h fam st"
  from session_step_evolves [OF step] obtain more where "sa_refreshAudit st' = sa_refreshAudit st @ more"
    by (auto simp: evolves_def)
  then show "spent_in h fam st'" using \<open>spent_in h fam st\<close> by (auto simp: spent_in_def)
qed


section \<open>Properties\<close>

text \<open>C9. One session at a time: along every history of sign-ins, token rotations, requests,
  revocations and purges a user has at most one session that is not revoked, and a sign-in leaves
  the new session as the only one, announcing the end of each session it revoked.\<close>

theorem single_live_session:
  assumes "(session_step lib cfg U)\<^sup>*\<^sup>* st0 st" "sessions_inv st0"
    and "issueSession lib cfg now ids u d role ip st = Inr (r, st')"
  shows "sessions_inv st' \<and> filter (\<lambda>s. live s \<and> se_userId s = u) (sa_sessions st') = [iss_session r] \<and>
         (\<forall>i \<in> set (iss_revokedIds r). revoked_in i st')"
proof -
  have inv: "sessions_inv st" by (rule one_session.history_inv [OF assms(1,2)])
  let ?P = "\<lambda>x. (se_userId x = u \<and> se_id x \<noteq> fst ids) \<and> live x"
  let ?t = "update_many ?P (revoke_row now NewerLogin) (sa_sessions st)"
  note i = issue_Inr [OF assms(3)] and only = sessions_inv_issue [OF assms(3) inv]
  have "filter (\<lambda>s. live s \<and> se_userId s = u) ?t = []"
    using issue_others_dead [OF assms(3)] unfolding filter_empty_conv by blast
  then have "filter (\<lambda>s. live s \<and> se_userId s = u) (sa_sessions st') = [iss_session r]" using i(1,5,6) by simp
  moreover have "revoked_in j st'" if j: "j \<in> set (iss_revokedIds r)" for j
  proof -
    have "iss_revokedIds r = map se_id (filter ?P (sa_sessions st @ [iss_session r]))"
      using assms(3) by (auto simp: issueSession_def Let_def insert_session_def err_simps revoke_where_def case_prod_beta)
    then obtain s where s: "s \<in> set (sa_sessions st)" "?P s" "se_id s = j" using j i(4) by auto
    have f: "session_of st j = Some s" using s inv by (auto simp: sessions_inv_alt find_unique_in_distinct)
    have "find_unique se_id j ?t = Some (if ?P s then revoke_row now NewerLogin s else s)"
      by (rule find_unique_update_where [OF f]) (simp add: revoke_row_def)
    then have "find_unique se_id j ?t = Some (revoke_row now NewerLogin s)" using s(2) by simp
    then show ?thesis using i(1) by (auto simp: revoked_in_def find_unique_append revoke_row_def live_def)
  qed
  ultimately show ?thesis using only(1) by blast
qed

text \<open>C10. A refresh token is accepted once. After a rotation, and after any further history without a
  purge, presenting the old token is refused, ends every session of its family, and the database
  refuses a second rotation that passed the checks at the same time as the first.\<close>

theorem refresh_token_single_use:
  assumes "rotateRefresh lib cfg now ids tok st = (Inr r, st1)" "sessions_inv st"
    and "(session_step lib cfg {})\<^sup>*\<^sup>* st1 st2" "rotateRefresh lib cfg now' ids' tok st2 = (res, st3)"
  shows "res \<in> range Inl \<and> \<not> is_ok (rotate_commit lib cfg now' ids' tok s st2) \<and>
         (cr_verify lib now' tok \<noteq> None \<longrightarrow>
            (\<forall>s \<in> set (sa_sessions st3). se_refreshTokenFamilyId s = se_refreshTokenFamilyId (iss_session r) \<longrightarrow> \<not> live s))"
proof -
  let ?h = "cr_sha256 lib tok" and ?fam = "se_refreshTokenFamilyId (iss_session r)"
  obtain s0 stc where chk: "rotate_check lib cfg now tok st = (Inr s0, stc)" and c0: "rotate_commit lib cfg now ids tok s0 stc = Inr (r, st1)"
    using assms(1) by (auto simp: rotateRefresh_def split: prod.splits sum.splits)
  then have c: "rotate_commit lib cfg now ids tok s0 st = Inr (r, st1)" using rotate_check_state by blast
  have "spent_in ?h ?fam st1" using rotate_commit_Inr(2,4) [OF c] by (simp add: spent_in_def)
  then have sp: "spent_in ?h ?fam st2" by (rule stays_spent.history_inv [OF assms(3)])
  have "session_step lib cfg {} st st1" by (rule ss_rotate [OF assms(1)])
  then have "sessions_inv st2"
    using assms(2,3) session_step_inv one_session.history_inv by blast
  then obtain a where a: "find_unique ra_tokenHash ?h (sa_refreshAudit st2) = Some a" "ra_familyId a = ?fam"
    using sp find_unique_in_distinct by (fastforce simp: spent_in_def sessions_inv_alt)
  have none: "\<not> is_ok (rotate_commit lib cfg now' ids' tok s st2)" for s
    using a(1) by (auto simp: rotate_commit_def Let_def create_unique_def split: prod.splits)
  show ?thesis
  proof (cases "cr_verify lib now' tok")
    case None
    then show ?thesis using assms(4) none by (auto simp: rotateRefresh_def rotate_check_def)
  next
    case (Some cl)
    then have "res = Inl (Forbidden ''Refresh reuse detected; session revoked'')" and s3: "st3 = revokeFamily now' ?fam ReuseDetected st2"
      using assms(4) a by (auto simp: rotateRefresh_def rotate_check_def Let_def)
    moreover have "\<not> live x" if x: "x \<in> set (sa_sessions st3)" "se_refreshTokenFamilyId x = ?fam" for x
      using revoked_dead [of x "\<lambda>s. se_refreshTokenFamilyId s = ?fam"] x s3 by (simp add: revokeFamily_def revoke_row_def)
    ultimately show ?thesis using none by blast
  qed
qed

text \<open>C11. A request is served only for a session that exists, is not revoked, has not expired and has seen
  activity within the idle time; a session found idle is revoked at once; and a revoked session is
  refused in every later state, by requests and by refreshes alike.\<close>

theorem request_needs_live_session:
  "(fst (validate cfg geo now ip c st) = Inr p \<longleftrightarrow>
      p = \<lparr>pr_sub = jc_sub c, pr_sid = jc_sid c, pr_role = jc_role c\<rparr> \<and>
      (\<exists>i s. jc_sid c = Some i \<and> session_of st i = Some s \<and> live s \<and> now < se_expiresAt s \<and>
         now - se_lastSeenAt s < av_idleMs cfg)) \<and>
   (session_of st i = Some s \<and> live s \<and> now < se_expiresAt s \<and> av_idleMs cfg \<le> now - se_lastSeenAt s \<and> jc_sid c = Some i \<longrightarrow>
      revoked_in i (snd (validate cfg geo now ip c st))) \<and>
   (revoked_in i st \<and> (session_step lib cfg {})\<^sup>*\<^sup>* st st' \<and> jc_sid c = Some i \<longrightarrow>
      fst (validate cfg geo now ip c st') = Inl (Unauthorized ''Session no longer active''))"
proof (intro conjI impI)
  show "fst (validate cfg geo now ip c st) = Inr p \<longleftrightarrow>
      p = \<lparr>pr_sub = jc_sub c, pr_sid = jc_sid c, pr_role = jc_role c\<rparr> \<and>
      (\<exists>i s. jc_sid c = Some i \<and> session_of st i = Some s \<and> live s \<and> now < se_expiresAt s \<and>
         now - se_lastSeenAt s < av_idleMs cfg)"
    by (auto simp: validate_def isIdle_def split: option.splits)
next
  assume "session_of st i = Some s \<and> live s \<and> now < se_expiresAt s \<and> av_idleMs cfg \<le> now - se_lastSeenAt s \<and> jc_sid c = Some i"
  then show "revoked_in i (snd (validate cfg geo now ip c st))"
    by (simp add: validate_def isIdle_def revoked_in_def find_unique_update_many revoke_row_def live_def)
next
  assume "revoked_in i st \<and> (session_step lib cfg {})\<^sup>*\<^sup>* st st' \<and> jc_sid c = Some i"
  then have "revoked_in i st'" "jc_sid c = Some i" using stays_revoked.history_inv by blast+
  then show "fst (validate cfg geo now ip c st') = Inl (Unauthorized ''Session no longer active'')"
    by (auto simp: validate_def revoked_in_def)
qed

text \<open>A refresh token works as an access token: the check of a request asks only for a verified token
  with a live session, so a bearer of the refresh token is served for as long as that token lives,
  whatever the lifetime of access tokens, and without a role.\<close>

theorem refresh_token_opens_requests:
  assumes "jwt_laws lib" "issueSession lib cfg t0 ids u d role ip st0 = Inr (r, st1)"
    and "session_of st (fst ids) = Some s" "live s" "now < se_expiresAt s" "now - se_lastSeenAt s < av_idleMs cfg"
    and "now div 1000 < t0 div 1000 + av_refreshTtl cfg div 1000"
  shows "fst (authenticate lib cfg geo now ip' (iss_refreshToken r) st) =
           Inr \<lparr>pr_sub = Some u, pr_sid = Some (fst ids), pr_role = None\<rparr>"
proof -
  have "cr_verify lib now (iss_refreshToken r) =
      Some ((no_claims (snd (snd (snd ids))))\<lparr>jc_sub := Some u, jc_sid := Some (fst ids), jc_fam := Some (fst (snd ids))\<rparr>)"
    using assms(1,2,7) by (auto simp: issueSession_def Let_def err_simps jwt_laws_def signRefresh_def case_prod_beta)
  then show ?thesis
    using assms(3-6) by (simp add: authenticate_def validate_def isIdle_def no_claims_def)
qed


end
