(* ===== verification/One_Time_Codes.thy ===== *)
theory One_Time_Codes
  imports Auth_Schema
begin

text \<open>
  Six-digit codes: the second factor of sign-in (\<^verbatim>\<open>mfa/mfa.service.ts\<close>) and the codes of password
  recovery (the first two steps of \<^verbatim>\<open>auth/signup/recovery.controller.ts\<close>). What both promise, and
  what the codes of signup promise as well, is the interface \<open>one_time_code\<close>: a code opens once,
  and only so many guesses are compared with it.
\<close>

section \<open>The interface\<close>

text \<open>\<open>guess now code s\<close> presents a code at a time and says whether it was accepted. \<open>ok\<close> is the
  invariant of the tables, \<open>closed\<close> that the code was used (or never existed), \<open>attempts\<close> the
  counter, \<open>limit\<close> its bound.\<close>

locale one_time_code =
  fixes guess :: "int \<Rightarrow> string \<Rightarrow> 's \<Rightarrow> bool \<times> 's"
    and ok :: "'s \<Rightarrow> bool" and closed :: "'s \<Rightarrow> bool" and attempts :: "'s \<Rightarrow> int" and limit :: int
  assumes guess_ok: "ok s \<Longrightarrow> ok (snd (guess now c s))"
    and guess_closed: "ok s \<Longrightarrow> closed s \<or> limit \<le> attempts s \<Longrightarrow> guess now c s = (False, s)"
    and guess_accepted: "ok s \<Longrightarrow> fst (guess now c s) \<Longrightarrow> closed (snd (guess now c s))"
    and guess_rejected: "ok s \<Longrightarrow> \<not> fst (guess now c s) \<Longrightarrow>
        snd (guess now c s) = s \<or> attempts (snd (guess now c s)) = attempts s + 1"
begin

text \<open>A run of guesses: how many were accepted, how many changed the tables, and the last state. A guess
  that is compared with the code changes the tables, since it closes the code or is counted.\<close>

fun attack :: "(int \<times> string) list \<Rightarrow> 's \<Rightarrow> nat \<times> nat \<times> 's" where
  "attack [] s = (0, 0, s)"
| "attack ((now, c) # gs) s =
     (let (b, s') = guess now c s; (a, n, s'') = attack gs s'
      in (a + (if b then 1 else 0), n + (if s' = s then 0 else 1), s''))"

lemma attack_closed: "ok s \<Longrightarrow> closed s \<or> limit \<le> attempts s \<Longrightarrow> attack gs s = (0, 0, s)"
proof (induction gs)
  case (Cons g gs)
  then show ?case by (cases g) (simp add: guess_closed)
qed simp

lemma attack_bound:
  assumes "ok s" "attempts s \<le> limit"
  shows "fst (attack gs s) \<le> 1 \<and> int (fst (snd (attack gs s))) \<le> limit - attempts s"
  using assms
proof (induction gs arbitrary: s)
  case (Cons g gs)
  obtain now c where g: "g = (now, c)" by (cases g)
  obtain b s' where gu: "guess now c s = (b, s')" by (cases "guess now c s")
  have ok': "ok s'" using guess_ok [OF Cons.prems(1), of now c] gu by simp
  show ?case
  proof (cases "attempts s < limit")
    case False
    then have "attack (g # gs) s = (0, 0, s)" using attack_closed [OF Cons.prems(1)] by simp
    then show ?thesis using Cons.prems(2) by simp
  next
    case lt: True
    show ?thesis
    proof (cases b)
      case True
      then have "attack gs s' = (0, 0, s')" using guess_accepted [OF Cons.prems(1), of now c] gu attack_closed [OF ok'] by simp
      then show ?thesis using True lt g gu by simp
    next
      case False
      then consider "s' = s" | "attempts s' = attempts s + 1" using guess_rejected [OF Cons.prems(1), of now c] gu by auto
      then show ?thesis
      proof cases
        case 1
        then show ?thesis using Cons.IH [OF Cons.prems] False g gu by (auto split: prod.splits)
      next
        case 2
        then have "attempts s' \<le> limit" using lt by simp
        from Cons.IH [OF ok' this] show ?thesis using 2 False g gu by (auto split: prod.splits)
      qed
    qed
  qed
qed simp

end

section \<open>The second factor\<close>

definition six_digits :: "int \<Rightarrow> string" where
  "six_digits n = (let d = show_int n in replicate (6 - length d) (CHR ''0'') @ d)"

record challenge_context =
  cc_fingerprint :: string
  cc_name :: string
  cc_os :: string
  cc_browser :: string
  cc_ip :: string

text \<open>The random parts of a challenge: identifier, number and salt.\<close>

type_synonym code_source = "string \<times> int \<times> string"

definition mk_challenge :: "crypto \<Rightarrow> auth_config \<Rightarrow> int \<Rightarrow> code_source \<Rightarrow> string \<Rightarrow> challenge_context \<Rightarrow> mfa_challenge" where
  "mk_challenge lib cfg now src userId ctx =
     (let (i, rnd, salt) = src in
      \<lparr>mc_id = i, mc_userId = userId, mc_codeHash = cr_hash lib salt (six_digits rnd),
       mc_expiresAt = now + av_mfaTtlSec cfg * 1000, mc_attempts = 0, mc_consumedAt = None,
       mc_pendingDeviceFingerprint = cc_fingerprint ctx, mc_pendingDeviceName = cc_name ctx,
       mc_pendingDeviceOs = cc_os ctx, mc_pendingDeviceBrowser = cc_browser ctx, mc_pendingIp = cc_ip ctx\<rparr>)"

definition add_challenge :: "mfa_challenge \<Rightarrow> auth_state \<Rightarrow> auth_state result" where
  "add_challenge c st = ebind (create_unique ''id'' mc_id c (sa_challenges st)) (\<lambda>t. Inr (st\<lparr>sa_challenges := t\<rparr>))"

definition send_sms :: "string \<Rightarrow> string \<Rightarrow> auth_state \<Rightarrow> auth_state" where
  "send_sms to_number msg st = st\<lparr>sa_sms := sa_sms st @ [(to_number, msg)]\<rparr>"

definition createSmsChallenge ::
  "crypto \<Rightarrow> auth_config \<Rightarrow> int \<Rightarrow> code_source \<Rightarrow> string \<Rightarrow> string option \<Rightarrow> challenge_context \<Rightarrow> auth_state \<Rightarrow>
     (mfa_challenge \<times> auth_state) result" where
  "createSmsChallenge lib cfg now src userId phone ctx st =
     (let c = mk_challenge lib cfg now src userId ctx in
      ebind (add_challenge c st) (\<lambda>st1.
      Inr (c, if truthy_str phone
              then send_sms (the phone) (''Your verification code is '' @ six_digits (fst (snd src)) @ ''. Expires in '' @
                     show_int (av_mfaTtlSec cfg div 60) @ '' minutes.'') st1
              else st1)))"

text \<open>Administrators get a copy when copies are configured.\<close>

definition mfa_admin_copy :: "auth_config \<Rightarrow> string \<Rightarrow> string \<Rightarrow> auth_state \<Rightarrow> auth_state" where
  "mfa_admin_copy cfg userEmail code st =
     (if av_adminCopies cfg = [] then st
      else email_send (av_adminCopies cfg) (AdminCodeCopy ''Sign-in'' userEmail code (av_mfaTtlSec cfg div 60)) True st)"

definition mail_sign_in_code :: "auth_config \<Rightarrow> string \<Rightarrow> string \<Rightarrow> auth_state \<Rightarrow> auth_state" where
  "mail_sign_in_code cfg email code st =
     mfa_admin_copy cfg email code (email_send [email] (CodeMail ''signin'' code (av_mfaTtlSec cfg div 60)) False st)"

definition createEmailChallenge ::
  "crypto \<Rightarrow> auth_config \<Rightarrow> int \<Rightarrow> code_source \<Rightarrow> string \<Rightarrow> string \<Rightarrow> challenge_context \<Rightarrow> auth_state \<Rightarrow>
     (mfa_challenge \<times> auth_state) result" where
  "createEmailChallenge lib cfg now src userId email ctx st =
     (let c = mk_challenge lib cfg now src userId ctx in
      ebind (add_challenge c st) (\<lambda>st1. Inr (c, mail_sign_in_code cfg email (six_digits (fst (snd src))) st1)))"

text \<open>The check reads the row and compares the code; the update is a separate statement.\<close>

definition mfa_check :: "crypto \<Rightarrow> auth_config \<Rightarrow> int \<Rightarrow> string \<Rightarrow> string \<Rightarrow> auth_state \<Rightarrow> (mfa_challenge \<times> bool) result" where
  "mfa_check lib cfg now challengeId code st =
     ebind (or_throw (BadRequest ''Invalid challenge'') (find_unique mc_id challengeId (sa_challenges st))) (\<lambda>c.
     ebind (require (mc_consumedAt c = None) (BadRequest ''Challenge already used'')) (\<lambda>_.
     ebind (require (\<not> mc_expiresAt c < now) (BadRequest ''Challenge expired'')) (\<lambda>_.
     ebind (require (mc_attempts c < av_mfaMaxAttempts cfg) (BadRequest ''Too many attempts'')) (\<lambda>_.
     Inr (c, cr_check lib (mc_codeHash c) code)))))"

definition set_challenge :: "string \<Rightarrow> (mfa_challenge \<Rightarrow> mfa_challenge) \<Rightarrow> auth_state \<Rightarrow> auth_state" where
  "set_challenge i f st = st\<lparr>sa_challenges := update_many (\<lambda>c. mc_id c = i) f (sa_challenges st)\<rparr>"

definition mfa_commit :: "int \<Rightarrow> mfa_challenge \<times> bool \<Rightarrow> auth_state \<Rightarrow> mfa_challenge result \<times> auth_state" where
  "mfa_commit now cb st =
     (if \<not> snd cb
      then (Inl (BadRequest ''Invalid code''), set_challenge (mc_id (fst cb)) (\<lambda>c. c\<lparr>mc_attempts := mc_attempts c + 1\<rparr>) st)
      else (Inr ((fst cb)\<lparr>mc_consumedAt := Some now\<rparr>),
            set_challenge (mc_id (fst cb)) (\<lambda>c. c\<lparr>mc_consumedAt := Some now\<rparr>) st))"

definition mfa_verify ::
  "crypto \<Rightarrow> auth_config \<Rightarrow> int \<Rightarrow> string \<Rightarrow> string \<Rightarrow> auth_state \<Rightarrow> mfa_challenge result \<times> auth_state" where
  "mfa_verify lib cfg now challengeId code st =
     (case mfa_check lib cfg now challengeId code st of
        Inl e \<Rightarrow> (Inl e, st)
      | Inr cb \<Rightarrow> mfa_commit now cb st)"

definition mfa_resend ::
  "crypto \<Rightarrow> auth_config \<Rightarrow> int \<Rightarrow> int \<times> string \<Rightarrow> string \<Rightarrow> string option \<Rightarrow> string option \<Rightarrow> auth_state \<Rightarrow> auth_state result" where
  "mfa_resend lib cfg now src challengeId email phone st =
     ebind (or_throw (BadRequest ''Invalid challenge'') (find_unique mc_id challengeId (sa_challenges st))) (\<lambda>c.
     ebind (require (mc_consumedAt c = None) (BadRequest ''Challenge already used'')) (\<lambda>_.
     let code = six_digits (fst src);
         st1 = set_challenge challengeId (\<lambda>x. x\<lparr>mc_codeHash := cr_hash lib (snd src) code,
                 mc_expiresAt := now + av_mfaTtlSec cfg * 1000, mc_attempts := 0\<rparr>) st
     in Inr (if truthy_str email then mail_sign_in_code cfg (the email) code st1
             else if truthy_str phone then send_sms (the phone) (''Your verification code is '' @ code @ ''.'') st1
             else st1)))"

section \<open>Password recovery: issue and verify\<close>

definition normal_email :: "string \<Rightarrow> string" where
  "normal_email e = to_lower (js_trim e)"

definition rs_open :: "string \<Rightarrow> reset_challenge \<Rightarrow> bool" where
  "rs_open emailHash r = (rs_emailHash r = emailHash \<and> rs_consumedAt r = None \<and> rs_supersededAt r = None)"

definition recover_request ::
  "crypto \<Rightarrow> auth_config \<Rightarrow> int \<Rightarrow> code_source \<Rightarrow> string \<Rightarrow> auth_state \<Rightarrow> auth_state result" where
  "recover_request lib cfg now src emailInput st =
     (let email = normal_email emailInput; (i, rnd, salt) = src; code = six_digits rnd in
      case find_unique u_email email (sa_users st) of
        None \<Rightarrow> Inr st
      | Some u \<Rightarrow>
          (let h = cr_hmac lib email;
               superseded = update_many (\<lambda>r. rs_userId r = u_id u \<and> rs_open h r) (\<lambda>r. r\<lparr>rs_supersededAt := Some now\<rparr>) (sa_resets st)
           in ebind (create_unique ''id'' rs_id
                \<lparr>rs_id = i, rs_userId = u_id u, rs_emailHash = h, rs_codeHash = cr_hash lib salt code,
                 rs_expiresAt = now + av_resetTtlSec cfg * 1000, rs_attempts = 0, rs_consumedAt = None,
                 rs_supersededAt = None, rs_createdAt = now\<rparr> superseded) (\<lambda>t.
              Inr (email_send [u_email u] (CodeMail ''recovery'' code (max 1 (av_resetTtlSec cfg div 60))) False
                     (st\<lparr>sa_resets := t\<rparr>)))))"

text \<open>The newest open challenge of the address.\<close>

definition current_reset :: "crypto \<Rightarrow> string \<Rightarrow> auth_state \<Rightarrow> reset_challenge option" where
  "current_reset lib email st =
     (case rev (sort_key rs_createdAt (filter (rs_open (cr_hmac lib email)) (sa_resets st))) of
        [] \<Rightarrow> None | r # _ \<Rightarrow> Some r)"

definition set_reset :: "string \<Rightarrow> (reset_challenge \<Rightarrow> reset_challenge) \<Rightarrow> auth_state \<Rightarrow> auth_state" where
  "set_reset i f st = st\<lparr>sa_resets := update_many (\<lambda>r. rs_id r = i) f (sa_resets st)\<rparr>"

definition recover_verify ::
  "crypto \<Rightarrow> auth_config \<Rightarrow> int \<Rightarrow> string \<Rightarrow> string \<Rightarrow> string \<Rightarrow> auth_state \<Rightarrow> string result \<times> auth_state" where
  "recover_verify lib cfg now jti emailInput code st =
     (let refused = (Inl (Unauthorized ''Invalid or expired code''), st) in
      case current_reset lib (normal_email emailInput) st of
        None \<Rightarrow> refused
      | Some r \<Rightarrow>
          if rs_expiresAt r < now then refused
          else if rs_attempts r \<ge> av_resetMaxAttempts cfg then refused
          else if \<not> cr_check lib (rs_codeHash r) code
          then (Inl (Unauthorized ''Invalid or expired code''), set_reset (rs_id r) (\<lambda>x. x\<lparr>rs_attempts := rs_attempts x + 1\<rparr>) st)
          else (Inr (signRecovery lib cfg now jti (rs_userId r)), set_reset (rs_id r) (\<lambda>x. x\<lparr>rs_consumedAt := Some now\<rparr>) st))"

section \<open>Both are one-time codes\<close>

lemma set_challenge_sel [simp]:
  "sa_challenges (set_challenge i f st) = update_many (\<lambda>c. mc_id c = i) f (sa_challenges st)"
  "sa_users (set_challenge i f st) = sa_users st" "sa_sessions (set_challenge i f st) = sa_sessions st"
  by (simp_all add: set_challenge_def)

definition challenge_of :: "string \<Rightarrow> auth_state \<Rightarrow> mfa_challenge option" where
  "challenge_of i st = find_unique mc_id i (sa_challenges st)"

definition mfa_guess :: "crypto \<Rightarrow> auth_config \<Rightarrow> string \<Rightarrow> int \<Rightarrow> string \<Rightarrow> auth_state \<Rightarrow> bool \<times> auth_state" where
  "mfa_guess lib cfg i now code st = (is_ok (fst (mfa_verify lib cfg now i code st)), snd (mfa_verify lib cfg now i code st))"

definition mfa_closed :: "string \<Rightarrow> auth_state \<Rightarrow> bool" where
  "mfa_closed i st = (case challenge_of i st of None \<Rightarrow> True | Some c \<Rightarrow> mc_consumedAt c \<noteq> None)"

definition mfa_attempts :: "string \<Rightarrow> auth_state \<Rightarrow> int" where
  "mfa_attempts i st = (case challenge_of i st of None \<Rightarrow> 0 | Some c \<Rightarrow> mc_attempts c)"

lemma challenge_of_set [simp]:
  assumes "\<And>c. mc_id (f c) = mc_id c"
  shows "challenge_of i (set_challenge i f st) = map_option f (challenge_of i st)"
  using assms by (simp add: challenge_of_def find_unique_update_many)

text \<open>What presenting a code does, row by row.\<close>

lemma mfa_verify_cases:
  obtains (refused) e where "mfa_verify lib cfg now i code st = (Inl e, st)"
  | (wrong) c where "challenge_of i st = Some c" "mc_consumedAt c = None" "mc_attempts c < av_mfaMaxAttempts cfg" "\<not> mc_expiresAt c < now"
      "\<not> cr_check lib (mc_codeHash c) code"
      "mfa_verify lib cfg now i code st = (Inl (BadRequest ''Invalid code''), set_challenge i (\<lambda>x. x\<lparr>mc_attempts := mc_attempts x + 1\<rparr>) st)"
  | (right) c where "challenge_of i st = Some c" "mc_consumedAt c = None" "mc_attempts c < av_mfaMaxAttempts cfg" "\<not> mc_expiresAt c < now"
      "cr_check lib (mc_codeHash c) code"
      "mfa_verify lib cfg now i code st = (Inr (c\<lparr>mc_consumedAt := Some now\<rparr>), set_challenge i (\<lambda>x. x\<lparr>mc_consumedAt := Some now\<rparr>) st)"
proof (cases "mfa_check lib cfg now i code st")
  case (Inl e)
  then show ?thesis using refused [of e] by (simp add: mfa_verify_def)
next
  case (Inr cb)
  then obtain c where c: "challenge_of i st = Some c" "mc_consumedAt c = None" "mc_attempts c < av_mfaMaxAttempts cfg"
      "\<not> mc_expiresAt c < now" "cb = (c, cr_check lib (mc_codeHash c) code)"
    by (auto simp: mfa_check_def err_simps challenge_of_def)
  have "mc_id c = i" using c(1) by (auto simp: challenge_of_def dest: find_unique_SomeD)
  then show ?thesis
    using Inr c wrong [OF c(1-4)] right [OF c(1-4)]
    by (cases "cr_check lib (mc_codeHash c) code") (simp_all add: mfa_verify_def mfa_commit_def)
qed

lemma mfa_verify_closed:
  assumes "mfa_closed i st \<or> av_mfaMaxAttempts cfg \<le> mfa_attempts i st"
  shows "\<exists>e. mfa_verify lib cfg now i code st = (Inl e, st)"
proof (cases rule: mfa_verify_cases [of lib cfg now i code st])
  case (refused e)
  then show ?thesis by blast
next
  case (wrong c)
  then show ?thesis using assms by (simp add: mfa_closed_def mfa_attempts_def)
next
  case (right c)
  then show ?thesis using assms by (simp add: mfa_closed_def mfa_attempts_def)
qed

interpretation sign_in_code: one_time_code "mfa_guess lib cfg i" "\<lambda>_. True" "mfa_closed i" "mfa_attempts i" "av_mfaMaxAttempts cfg"
  for lib cfg i
proof
  fix now c st
  show "mfa_guess lib cfg i now c st = (False, st)" if "mfa_closed i st \<or> av_mfaMaxAttempts cfg \<le> mfa_attempts i st"
    using mfa_verify_closed [OF that, of lib now c] by (auto simp: mfa_guess_def)
  show "mfa_closed i (snd (mfa_guess lib cfg i now c st))" if "fst (mfa_guess lib cfg i now c st)"
    by (cases rule: mfa_verify_cases [of lib cfg now i c st]) (use that in \<open>simp_all add: mfa_guess_def mfa_closed_def\<close>)
  show "snd (mfa_guess lib cfg i now c st) = st \<or> mfa_attempts i (snd (mfa_guess lib cfg i now c st)) = mfa_attempts i st + 1"
    if "\<not> fst (mfa_guess lib cfg i now c st)"
    by (cases rule: mfa_verify_cases [of lib cfg now i c st]) (use that in \<open>simp_all add: mfa_guess_def mfa_attempts_def\<close>)
qed simp


lemma filter_update_keep: "(\<And>x. P (f x) = P x) \<Longrightarrow> filter P (update_many Q f t) = update_many Q f (filter P t)"
  by (induction t) auto

lemma filter_update_drop: "(\<And>x. \<not> P (f x)) \<Longrightarrow> filter P (update_many Q f t) = filter (\<lambda>x. \<not> Q x) (filter P t)"
  by (induction t) auto

text \<open>At most one challenge of an address is open.\<close>

definition reset_ok :: "crypto \<Rightarrow> string \<Rightarrow> auth_state \<Rightarrow> bool" where
  "reset_ok lib email st = (length (filter (rs_open (cr_hmac lib (normal_email email))) (sa_resets st)) \<le> 1)"

definition reset_guess :: "crypto \<Rightarrow> auth_config \<Rightarrow> string \<Rightarrow> string \<Rightarrow> int \<Rightarrow> string \<Rightarrow> auth_state \<Rightarrow> bool \<times> auth_state" where
  "reset_guess lib cfg jti email now code st =
     (is_ok (fst (recover_verify lib cfg now jti email code st)), snd (recover_verify lib cfg now jti email code st))"

definition reset_closed :: "crypto \<Rightarrow> string \<Rightarrow> auth_state \<Rightarrow> bool" where
  "reset_closed lib email st = (current_reset lib (normal_email email) st = None)"

definition reset_attempts :: "crypto \<Rightarrow> string \<Rightarrow> auth_state \<Rightarrow> int" where
  "reset_attempts lib email st = (case current_reset lib (normal_email email) st of None \<Rightarrow> 0 | Some r \<Rightarrow> rs_attempts r)"

lemma set_reset_sel [simp]: "sa_resets (set_reset i f st) = update_many (\<lambda>r. rs_id r = i) f (sa_resets st)"
  by (simp add: set_reset_def)

lemma open_rows_cases:
  assumes "reset_ok lib email st"
  obtains (none) "filter (rs_open (cr_hmac lib (normal_email email))) (sa_resets st) = []" "current_reset lib (normal_email email) st = None"
  | (one) r where "filter (rs_open (cr_hmac lib (normal_email email))) (sa_resets st) = [r]" "current_reset lib (normal_email email) st = Some r"
  using assms unfolding reset_ok_def current_reset_def
  by (cases "filter (rs_open (cr_hmac lib (normal_email email))) (sa_resets st)") auto

interpretation recovery_code: one_time_code "reset_guess lib cfg jti email" "reset_ok lib email" "reset_closed lib email"
    "reset_attempts lib email" "av_resetMaxAttempts cfg" for lib cfg jti email
proof
  fix now c st assume ok: "reset_ok lib email st"
  let ?P = "rs_open (cr_hmac lib (normal_email email))" and ?g = "reset_guess lib cfg jti email now c st"
  have stays: "?P (x\<lparr>rs_attempts := a\<rparr>) = ?P x" "\<not> ?P (x\<lparr>rs_consumedAt := Some now\<rparr>)" for x a by (simp_all add: rs_open_def)
  have shape: "?g = (False, st) \<or>
      (\<exists>r. filter ?P (sa_resets st) = [r] \<and> current_reset lib (normal_email email) st = Some r \<and> rs_attempts r < av_resetMaxAttempts cfg \<and>
         (?g = (False, set_reset (rs_id r) (\<lambda>x. x\<lparr>rs_attempts := rs_attempts x + 1\<rparr>) st) \<or>
          ?g = (True, set_reset (rs_id r) (\<lambda>x. x\<lparr>rs_consumedAt := Some now\<rparr>) st)))"
    using ok by (cases rule: open_rows_cases) (auto simp: reset_guess_def recover_verify_def Let_def)
  show "reset_closed lib email (snd ?g)" if "fst ?g"
    using shape that ok by (auto simp: reset_closed_def current_reset_def filter_update_drop stays)
  show "?g = (False, st)" if "reset_closed lib email st \<or> av_resetMaxAttempts cfg \<le> reset_attempts lib email st"
    using ok that by (cases rule: open_rows_cases) (auto simp: reset_closed_def reset_attempts_def reset_guess_def recover_verify_def Let_def)
  show "snd ?g = st \<or> reset_attempts lib email (snd ?g) = reset_attempts lib email st + 1" if "\<not> fst ?g"
    using shape that by (auto simp: reset_attempts_def current_reset_def filter_update_keep stays)
  show "reset_ok lib email (snd ?g)"
    using shape ok by (auto simp: reset_ok_def filter_update_drop filter_update_keep stays)
qed

section \<open>Properties\<close>


text \<open>Guessing a recovery code: while at most one challenge of the address is open, which a request
  restores for the address of a user, any sequence of guesses is compared with the code at most as
  often as configured and yields at most one reset token.\<close>

theorem recovery_code_bounded:
  assumes "recover_request lib cfg now src email st = Inr st1" "find_unique u_email (normal_email email) (sa_users st) = Some u"
    and "\<forall>r \<in> set (sa_resets st). rs_emailHash r = cr_hmac lib (normal_email email) \<longrightarrow> rs_userId r = u_id u"
    and "0 \<le> av_resetMaxAttempts cfg"
  shows "let (accepted, compared, st2) = recovery_code.attack lib cfg jti email gs st1
         in accepted \<le> 1 \<and> int compared \<le> av_resetMaxAttempts cfg"
proof -
  let ?h = "cr_hmac lib (normal_email email)"
  let ?t = "update_many (\<lambda>r. rs_userId r = u_id u \<and> rs_open ?h r) (\<lambda>r. r\<lparr>rs_supersededAt := Some now\<rparr>) (sa_resets st)"
  obtain r where r: "sa_resets st1 = ?t @ [r]" "rs_attempts r = 0" "rs_open ?h r"
    using assms(1,2) by (auto simp: recover_request_def Let_def err_simps rs_open_def split: prod.splits)
  have "filter (rs_open ?h) ?t = []"
    using assms(3) by (auto simp: filter_empty_conv update_many_def rs_open_def)
  then have f: "filter (rs_open ?h) (sa_resets st1) = [r]" using r by simp
  then have "reset_ok lib email st1" "reset_attempts lib email st1 = 0"
    using r(2) by (simp_all add: reset_ok_def reset_attempts_def current_reset_def)
  then show ?thesis
    using recovery_code.attack_bound [of lib email st1 cfg jti gs] assms(4) by (simp add: case_prod_beta)
qed

text \<open>Guesses that arrive together escape the limit: each passes the check against the same counter, so
  all are compared, and the right code is accepted as often as it arrives.\<close>

theorem parallel_guesses_unbounded:
  assumes "challenge_of i st = Some c" "mc_consumedAt c = None" "\<not> mc_expiresAt c < now" "mc_attempts c < av_mfaMaxAttempts cfg"
  shows "mfa_check lib cfg now i code st = Inr (c, cr_check lib (mc_codeHash c) code) \<and>
         (cr_check lib (mc_codeHash c) code \<longrightarrow> is_ok (fst (mfa_commit now (c, True) st')))"
  using assms by (simp add: mfa_check_def challenge_of_def mfa_commit_def)

text \<open>A user whose stored address has capitals never receives a recovery code: the address asked for is
  lowered first and then compared exactly.\<close>

theorem recovery_ignores_capital_addresses:
  assumes "\<And>u. u \<in> set (sa_users st) \<Longrightarrow> u_email u \<noteq> to_lower (u_email u)"
  shows "recover_request lib cfg now src email st = Inr st"
proof -
  have "lower_char (lower_char c) = lower_char c" for c by (auto simp: lower_char_def Let_def)
  then have low: "to_lower (to_lower x) = to_lower x" for x by (simp add: to_lower_def)
  have "find_unique u_email (normal_email email) (sa_users st) = None"
    using assms low by (auto simp: find_unique_None_iff normal_email_def image_iff) (metis low)
  then show ?thesis by (simp add: recover_request_def Let_def split: prod.splits)
qed


end
