(* ===== verification/Elevation.thy ===== *)
theory Elevation
  imports One_Time_Codes
begin

text \<open>
  Step-up authentication: elevation tokens and the guard that asks for them
  (\<^verbatim>\<open>elevation/elevation.service.ts\<close>, \<^verbatim>\<open>elevation/elevation.guard.ts\<close>), the transaction PIN with its
  lock-out (\<^verbatim>\<open>elevation/transaction-pin.service.ts\<close>) and authenticator secrets with recovery codes
  (\<^verbatim>\<open>me-security/totp.service.ts\<close>). The time-based code check and the encryption are parameters.
\<close>

section \<open>Elevation tokens\<close>

datatype elevation_scope = CardReveal | WireCreate | TransferAuthorize | ProfileEdit | SecurityManage

definition scope_name :: "elevation_scope \<Rightarrow> string" where
  "scope_name s = (case s of CardReveal \<Rightarrow> ''card:reveal'' | WireCreate \<Rightarrow> ''wire:create''
     | TransferAuthorize \<Rightarrow> ''transfer:authorize'' | ProfileEdit \<Rightarrow> ''profile:edit'' | SecurityManage \<Rightarrow> ''security:manage'')"

definition signElevation :: "crypto \<Rightarrow> auth_config \<Rightarrow> int \<Rightarrow> string \<Rightarrow> string \<Rightarrow> elevation_scope \<Rightarrow> string" where
  "signElevation lib cfg now jti userId scope =
     cr_sign lib ((no_claims jti)\<lparr>jc_sub := Some userId, jc_scope := Some (scope_name scope), jc_purpose := Some ''elevation''\<rparr>)
       now (av_elevationTtl cfg)"

definition verifyToken :: "crypto \<Rightarrow> int \<Rightarrow> string \<Rightarrow> elevation_scope \<Rightarrow> claims result" where
  "verifyToken lib now token requiredScope =
     ebind (or_throw (Unauthorized ''Invalid elevation token'') (cr_verify lib now token)) (\<lambda>c.
     ebind (require (jc_purpose c = Some ''elevation'') (Unauthorized ''Wrong token purpose'')) (\<lambda>_.
     ebind (require (jc_scope c = Some (scope_name requiredScope)) (Unauthorized ''Elevation scope mismatch'')) (\<lambda>_.
     Inr c)))"

text \<open>The guard: \<open>scope\<close> is the scope the handler asks for, \<open>header\<close> the token the request carries.\<close>

definition canActivate ::
  "crypto \<Rightarrow> int \<Rightarrow> elevation_scope option \<Rightarrow> string option \<Rightarrow> string option \<Rightarrow> bool result" where
  "canActivate lib now scope header userId =
     (case scope of
        None \<Rightarrow> Inr True
      | Some sc \<Rightarrow>
          ebind (require (truthy_str header) (Unauthorized ''Elevation required'')) (\<lambda>_.
          ebind (verifyToken lib now (the header) sc) (\<lambda>c.
          ebind (require (jc_sub c = userId) (Unauthorized ''Elevation does not match user'')) (\<lambda>_.
          Inr True))))"

definition beginChallenge ::
  "crypto \<Rightarrow> auth_config \<Rightarrow> int \<Rightarrow> code_source \<Rightarrow> string \<Rightarrow> elevation_scope \<Rightarrow> challenge_context \<Rightarrow> auth_state \<Rightarrow>
     ((string \<times> elevation_scope) \<times> auth_state) result" where
  "beginChallenge lib cfg now src userId scope ctx st =
     ebind (or_throw (Unauthorized ''User not found'') (login_user_of st userId)) (\<lambda>u.
     ebind (createSmsChallenge lib cfg now src userId (u_phoneE164 u) ctx st) (\<lambda>(c, st1).
     Inr ((mc_id c, scope), st1)))"

definition verifyChallenge ::
  "crypto \<Rightarrow> auth_config \<Rightarrow> int \<Rightarrow> string \<Rightarrow> string \<Rightarrow> string \<Rightarrow> string \<Rightarrow> elevation_scope \<Rightarrow> auth_state \<Rightarrow> string result \<times> auth_state" where
  "verifyChallenge lib cfg now jti userId challengeId code scope st =
     (case mfa_verify lib cfg now challengeId code st of
        (Inl e, st1) \<Rightarrow> (Inl e, st1)
      | (Inr c, st1) \<Rightarrow> (Inr (signElevation lib cfg now jti userId scope), st1))"

section \<open>The transaction PIN\<close>

definition pin_digit :: "char \<Rightarrow> bool" where
  "pin_digit c = (c \<in> set ''0123456789'')"

definition PIN_RE :: "string \<Rightarrow> bool" where
  "PIN_RE p = (4 \<le> length p \<and> length p \<le> 6 \<and> list_all pin_digit p)"

definition digit_value :: "char \<Rightarrow> int" where
  "digit_value c = int (of_char c) - 48"

fun each_next :: "(int \<Rightarrow> int \<Rightarrow> bool) \<Rightarrow> int list \<Rightarrow> bool" where
  "each_next R (x # y # xs) = (R x y \<and> each_next R (y # xs))"
| "each_next R _ = True"

definition looksWeak :: "string \<Rightarrow> bool" where
  "looksWeak pin =
     (let ds = map digit_value pin in
      (2 \<le> length pin \<and> each_next (\<lambda>a b. a = b) ds) \<or>
      each_next (\<lambda>a b. b = a + 1) ds \<or> each_next (\<lambda>a b. b = a - 1) ds)"

definition MAX_ATTEMPTS :: nat where
  "MAX_ATTEMPTS = 5"

definition LOCKOUT_MS :: int where
  "LOCKOUT_MS = 15 * 60 * 1000"

definition hasPin :: "string \<Rightarrow> auth_state \<Rightarrow> bool" where
  "hasPin userId st = (case login_user_of st userId of None \<Rightarrow> False | Some u \<Rightarrow> truthy_str (u_transactionPinHash u))"

text \<open>The proof a change of PIN asks for: the old PIN or the password.\<close>

definition pin_change_allowed :: "crypto \<Rightarrow> login_user \<Rightarrow> string option \<Rightarrow> string option \<Rightarrow> unit result" where
  "pin_change_allowed lib u currentPin currentPassword =
     (if \<not> truthy_str (u_transactionPinHash u) then Inr ()
      else if truthy_str currentPin
      then require (cr_check lib (the (u_transactionPinHash u)) (the currentPin)) (Forbidden ''Current PIN is incorrect'')
      else if truthy_str currentPassword
      then require (cr_check lib (u_passwordHash u) (the currentPassword)) (Forbidden ''Current password is incorrect'')
      else Inl (BadRequest ''Provide your current PIN or password to change it''))"

definition setPin ::
  "crypto \<Rightarrow> string \<Rightarrow> string \<Rightarrow> string \<Rightarrow> string option \<Rightarrow> string option \<Rightarrow> auth_state \<Rightarrow> auth_state result" where
  "setPin lib salt userId newPin currentPin currentPassword st =
     ebind (require (PIN_RE newPin) (BadRequest ''PIN must be 4-6 digits'')) (\<lambda>_.
     ebind (require (\<not> looksWeak newPin) (BadRequest ''PIN is too predictable - pick another'')) (\<lambda>_.
     ebind (or_throw (Unauthorized ''User not found'') (login_user_of st userId)) (\<lambda>u.
     ebind (pin_change_allowed lib u currentPin currentPassword) (\<lambda>_.
     Inr (st\<lparr>sa_users := update_many (\<lambda>x. u_id x = userId)
               (\<lambda>x. x\<lparr>u_transactionPinHash := Some (cr_hash lib salt newPin), u_securitySetupRequired := False\<rparr>) (sa_users st),
             sa_pinAttempts := (sa_pinAttempts st)(userId := None)\<rparr>)))))"

definition pin_counter :: "string \<Rightarrow> auth_state \<Rightarrow> pin_attempts" where
  "pin_counter userId st = (case sa_pinAttempts st userId of None \<Rightarrow> \<lparr>pn_count = 0, pn_lockedUntil = None\<rparr> | Some a \<Rightarrow> a)"

definition pin_locked :: "int \<Rightarrow> pin_attempts \<Rightarrow> bool" where
  "pin_locked now a = (case pn_lockedUntil a of None \<Rightarrow> False | Some t \<Rightarrow> t \<noteq> 0 \<and> t > now)"

definition pin_failure :: "int \<Rightarrow> pin_attempts \<Rightarrow> pin_attempts" where
  "pin_failure now a =
     (if pn_count a + 1 \<ge> MAX_ATTEMPTS then a\<lparr>pn_lockedUntil := Some (now + LOCKOUT_MS), pn_count := 0\<rparr>
      else a\<lparr>pn_count := pn_count a + 1\<rparr>)"

definition verifyPin ::
  "crypto \<Rightarrow> auth_config \<Rightarrow> int \<Rightarrow> string \<Rightarrow> string \<Rightarrow> string \<Rightarrow> elevation_scope \<Rightarrow> auth_state \<Rightarrow> string result \<times> auth_state" where
  "verifyPin lib cfg now jti userId pin scope st =
     (let a = pin_counter userId st in
      if \<not> PIN_RE pin then (Inl (BadRequest ''PIN must be 4-6 digits''), st)
      else if pin_locked now a
      then (Inl (TooManyRequests (''Too many attempts. Try again in '' @
              show_int (- ((now - the (pn_lockedUntil a)) div 60000)) @ '' min.'')), st)
      else case (case login_user_of st userId of None \<Rightarrow> None | Some u \<Rightarrow> u_transactionPinHash u) of
        None \<Rightarrow> (Inl (BadRequest ''PIN not set''), st)
      | Some hash \<Rightarrow>
          if hash = '''' then (Inl (BadRequest ''PIN not set''), st)
          else if \<not> cr_check lib hash pin
          then (Inl (Unauthorized ''Wrong PIN''),
                st\<lparr>sa_pinAttempts := (sa_pinAttempts st)(userId \<mapsto> pin_failure now a)\<rparr>)
          else (Inr (signElevation lib cfg now jti userId scope), st\<lparr>sa_pinAttempts := (sa_pinAttempts st)(userId := None)\<rparr>))"

section \<open>Authenticator secrets\<close>

record totp_secret =
  tp_userId :: string
  tp_secretEnc :: string
  tp_activatedAt :: "int option"
  tp_recoveryCodes :: "string list"

record totp_lib =
  tl_encrypt :: "string \<Rightarrow> string"
  tl_decrypt :: "string \<Rightarrow> string"
  tl_check :: "string \<Rightarrow> string \<Rightarrow> bool"

definition totp_begin :: "totp_lib \<Rightarrow> string \<Rightarrow> string \<Rightarrow> totp_secret list \<Rightarrow> totp_secret list result" where
  "totp_begin ta secret userId t =
     (case find_unique tp_userId userId t of
        Some r \<Rightarrow> if tp_activatedAt r \<noteq> None then Inl (BadRequest ''TOTP already active'')
                  else Inr (update_many (\<lambda>x. tp_userId x = userId)
                         (\<lambda>x. x\<lparr>tp_secretEnc := tl_encrypt ta secret, tp_activatedAt := None, tp_recoveryCodes := []\<rparr>) t)
      | None \<Rightarrow> Inr (t @ [\<lparr>tp_userId = userId, tp_secretEnc = tl_encrypt ta secret, tp_activatedAt = None, tp_recoveryCodes = []\<rparr>]))"

definition totp_verify ::
  "totp_lib \<Rightarrow> int \<Rightarrow> string list \<Rightarrow> string \<Rightarrow> string \<Rightarrow> totp_secret list \<Rightarrow> (string list \<times> totp_secret list) result" where
  "totp_verify ta now newCodes userId code t =
     ebind (or_throw (NotFound ''No TOTP pending'') (find_unique tp_userId userId t)) (\<lambda>r.
     ebind (require (tl_check ta code (tl_decrypt ta (tp_secretEnc r))) (BadRequest ''Invalid code'')) (\<lambda>_.
     Inr (newCodes, update_many (\<lambda>x. tp_userId x = userId)
       (\<lambda>x. x\<lparr>tp_activatedAt := (case tp_activatedAt r of None \<Rightarrow> Some now | Some w \<Rightarrow> Some w), tp_recoveryCodes := newCodes\<rparr>) t)))"

definition totp_disable :: "totp_lib \<Rightarrow> string \<Rightarrow> string \<Rightarrow> totp_secret list \<Rightarrow> totp_secret list result" where
  "totp_disable ta userId code t =
     ebind (or_throw (BadRequest ''TOTP not active'') (find_unique tp_userId userId t)) (\<lambda>r.
     ebind (require (tp_activatedAt r \<noteq> None) (BadRequest ''TOTP not active'')) (\<lambda>_.
     ebind (require (tl_check ta code (tl_decrypt ta (tp_secretEnc r))) (BadRequest ''Invalid code'')) (\<lambda>_.
     delete_unique tp_userId userId t)))"

definition totp_isActive :: "string \<Rightarrow> totp_secret list \<Rightarrow> bool" where
  "totp_isActive userId t = (case find_unique tp_userId userId t of None \<Rightarrow> False | Some r \<Rightarrow> tp_activatedAt r \<noteq> None)"

definition verifyForLogin :: "totp_lib \<Rightarrow> string \<Rightarrow> string \<Rightarrow> totp_secret list \<Rightarrow> bool \<times> totp_secret list" where
  "verifyForLogin ta userId code t =
     (case find_unique tp_userId userId t of
        None \<Rightarrow> (False, t)
      | Some r \<Rightarrow>
          if tp_activatedAt r = None then (False, t)
          else if tl_check ta code (tl_decrypt ta (tp_secretEnc r)) then (True, t)
          else if code \<in> set (tp_recoveryCodes r)
          then (True, update_many (\<lambda>x. tp_userId x = userId) (\<lambda>x. x\<lparr>tp_recoveryCodes := filter (\<lambda>c. c \<noteq> code) (tp_recoveryCodes r)\<rparr>) t)
          else (False, t))"

section \<open>Properties\<close>

lemma scope_name_inj [simp]: "scope_name a = scope_name b \<longleftrightarrow> a = b"
  by (cases a; cases b) (simp_all add: scope_name_def)

text \<open>The guard lets an elevation token through exactly for the user and the scope it was signed for,
  while it lives; tokens of any other purpose (access, refresh, second factor, password reset) are
  refused everywhere a scope is asked for.\<close>

theorem guard_accepts_exactly:
  assumes "jwt_laws lib" "signElevation lib cfg t0 jti u sc \<noteq> ''''"
  shows "(is_ok (canActivate lib now (Some sc') (Some (signElevation lib cfg t0 jti u sc)) (Some v)) \<longleftrightarrow>
            u = v \<and> sc = sc' \<and> now div 1000 < t0 div 1000 + av_elevationTtl cfg div 1000) \<and>
         \<not> is_ok (canActivate lib now (Some sc') (Some (signAccess lib cfg t0 jti u sid role)) (Some v)) \<and>
         \<not> is_ok (canActivate lib now (Some sc') (Some (signRefresh lib cfg t0 jti u sid fam)) (Some v)) \<and>
         \<not> is_ok (canActivate lib now (Some sc') (Some (signMfa lib cfg t0 jti u cid)) (Some v)) \<and>
         \<not> is_ok (canActivate lib now (Some sc') (Some (signRecovery lib cfg t0 jti u)) (Some v))"
  using assms
  by (auto simp: canActivate_def verifyToken_def signElevation_def signAccess_def signRefresh_def signMfa_def signRecovery_def
      no_claims_def jwt_laws_def truthy_str_iff is_ok_def require_def or_throw_def ebind_def)

text \<open>A run of PIN guesses, and how many of them were compared and wrong.\<close>

fun pin_run ::
  "crypto \<Rightarrow> auth_config \<Rightarrow> string \<Rightarrow> string \<Rightarrow> (int \<times> string \<times> elevation_scope) list \<Rightarrow> auth_state \<Rightarrow> string result list \<times> auth_state" where
  "pin_run lib cfg jti u [] st = ([], st)"
| "pin_run lib cfg jti u ((now, p, sc) # gs) st =
     (let (r, st1) = verifyPin lib cfg now jti u p sc st; (rs, st2) = pin_run lib cfg jti u gs st1 in (r # rs, st2))"

definition wrong_pins :: "string result list \<Rightarrow> nat" where
  "wrong_pins rs = length (filter (\<lambda>r. r = Inl (Unauthorized ''Wrong PIN'')) rs)"

definition pin_hash :: "string \<Rightarrow> auth_state \<Rightarrow> string option" where
  "pin_hash u st = (case login_user_of st u of None \<Rightarrow> None | Some x \<Rightarrow> u_transactionPinHash x)"

lemma wrong_pins_simps [simp]:
  "wrong_pins [] = 0" "wrong_pins (r # rs) = (if r = Inl (Unauthorized ''Wrong PIN'') then 1 else 0) + wrong_pins rs"
  by (simp_all add: wrong_pins_def)

lemma verifyPin_wrong:
  assumes "pin_hash u st = Some h" "\<not> cr_check lib h p"
  shows "(\<exists>e. verifyPin lib cfg now jti u p sc st = (Inl e, st) \<and> e \<noteq> Unauthorized ''Wrong PIN'') \<or>
         \<not> pin_locked now (pin_counter u st) \<and> verifyPin lib cfg now jti u p sc st =
           (Inl (Unauthorized ''Wrong PIN''), st\<lparr>sa_pinAttempts := (sa_pinAttempts st)(u \<mapsto> pin_failure now (pin_counter u st))\<rparr>)"
  using assms by (auto simp: verifyPin_def Let_def pin_hash_def split: option.splits)

lemma verifyPin_locked:
  assumes "pin_hash u st = Some h" "\<not> cr_check lib h p" "pin_locked now (pin_counter u st)"
  shows "\<exists>e. verifyPin lib cfg now jti u p sc st = (Inl e, st) \<and> e \<noteq> Unauthorized ''Wrong PIN''"
  using verifyPin_wrong [OF assms(1,2)] assms(3) by blast

lemma pin_run_locked:
  assumes "pin_hash u st = Some h" "\<forall>(t, p, sc) \<in> set gs. \<not> cr_check lib h p \<and> pin_locked t (pin_counter u st)"
  shows "wrong_pins (fst (pin_run lib cfg jti u gs st)) = 0 \<and> list_all (\<lambda>r. \<not> is_ok r) (fst (pin_run lib cfg jti u gs st))"
  using assms(2)
proof (induction gs)
  case (Cons g gs)
  obtain t p sc where g: "g = (t, p, sc)" by (cases g)
  obtain e where "verifyPin lib cfg t jti u p sc st = (Inl e, st)" "e \<noteq> Unauthorized ''Wrong PIN''"
    using verifyPin_locked [OF assms(1), of lib p t cfg jti sc] Cons.prems g by auto
  then show ?case using Cons g by (auto split: prod.splits)
qed simp

lemma pin_run_bound:
  assumes "pin_hash u st = Some h" "0 \<le> t0" "pn_count (pin_counter u st) < MAX_ATTEMPTS"
    and "\<forall>(t, p, sc) \<in> set gs. \<not> cr_check lib h p \<and> t0 \<le> t \<and> t < t0 + LOCKOUT_MS"
  shows "wrong_pins (fst (pin_run lib cfg jti u gs st)) \<le> MAX_ATTEMPTS - pn_count (pin_counter u st) \<and>
         list_all (\<lambda>r. \<not> is_ok r) (fst (pin_run lib cfg jti u gs st))"
  using assms
proof (induction gs arbitrary: st)
  case (Cons g gs)
  obtain t p sc where g: "g = (t, p, sc)" by (cases g)
  note t = Cons.prems(4) [unfolded g, simplified]
  let ?a = "pin_counter u st"
  let ?st1 = "st\<lparr>sa_pinAttempts := (sa_pinAttempts st)(u \<mapsto> pin_failure t ?a)\<rparr>"
  have rest: "\<forall>(t, p, sc) \<in> set gs. \<not> cr_check lib h p \<and> t0 \<le> t \<and> t < t0 + LOCKOUT_MS" using t by blast
  have st1: "pin_hash u ?st1 = Some h" "pin_counter u ?st1 = pin_failure t ?a"
    using Cons.prems(1) by (simp_all add: pin_hash_def pin_counter_def)
  from verifyPin_wrong [OF Cons.prems(1), of lib p cfg t jti sc] t
  consider (same) e where "verifyPin lib cfg t jti u p sc st = (Inl e, st)" "e \<noteq> Unauthorized ''Wrong PIN''"
    | (count) "verifyPin lib cfg t jti u p sc st = (Inl (Unauthorized ''Wrong PIN''), ?st1)" by blast
  then show ?case
  proof cases
    case same
    then show ?thesis using Cons.IH [OF Cons.prems(1-3) rest] g by (auto split: prod.splits)
  next
    case count
    show ?thesis
    proof (cases "pn_count ?a + 1 \<ge> MAX_ATTEMPTS")
      case True
      then have "pn_lockedUntil (pin_failure t ?a) = Some (t + LOCKOUT_MS)" by (simp add: pin_failure_def)
      then have "\<forall>(t', p, sc) \<in> set gs. \<not> cr_check lib h p \<and> pin_locked t' (pin_counter u ?st1)"
        using rest t Cons.prems(2) st1(2) by (auto simp: pin_locked_def LOCKOUT_MS_def)
      from pin_run_locked [OF st1(1) this, of cfg jti] show ?thesis
        using count g Cons.prems(3) by (simp add: case_prod_beta)
    next
      case False
      then have c: "pn_count (pin_failure t ?a) = pn_count ?a + 1" by (simp add: pin_failure_def)
      from Cons.IH [OF st1(1) Cons.prems(2) _ rest] False c st1(2)
      have "wrong_pins (fst (pin_run lib cfg jti u gs ?st1)) \<le> MAX_ATTEMPTS - (pn_count ?a + 1)"
        "list_all (\<lambda>r. \<not> is_ok r) (fst (pin_run lib cfg jti u gs ?st1))" by auto
      then show ?thesis using count g False by (simp add: case_prod_beta)
    qed
  qed
qed simp


text \<open>Setting and using a PIN: a PIN that was set is accepted, with a token for the user and the scope
  asked for; it has four to six digits, is not a run of equal, rising or falling digits, and
  replacing an existing PIN took the old PIN or the password.\<close>

theorem set_pin_then_verify:
  assumes "argon_laws lib" "setPin lib salt u pin cur pw st = Inr st'" "cr_hash lib salt pin \<noteq> ''''"
  shows "fst (verifyPin lib cfg now jti u pin sc st') = Inr (signElevation lib cfg now jti u sc) \<and> hasPin u st' \<and>
         4 \<le> length pin \<and> length pin \<le> 6 \<and> \<not> looksWeak pin \<and>
         (hasPin u st \<longrightarrow> (\<exists>x. login_user_of st u = Some x \<and>
            ((\<exists>c h. cur = Some c \<and> u_transactionPinHash x = Some h \<and> cr_check lib h c) \<or>
             (\<exists>c. pw = Some c \<and> cr_check lib (u_passwordHash x) c))))"
proof -
  obtain x where x: "login_user_of st u = Some x" "PIN_RE pin" "\<not> looksWeak pin" "pin_change_allowed lib x cur pw = Inr ()"
    and st': "st' = st\<lparr>sa_users := update_many (\<lambda>x. u_id x = u)
        (\<lambda>x. x\<lparr>u_transactionPinHash := Some (cr_hash lib salt pin), u_securitySetupRequired := False\<rparr>) (sa_users st),
      sa_pinAttempts := (sa_pinAttempts st)(u := None)\<rparr>"
    using assms(2) by (auto simp: setPin_def err_simps)
  have u': "login_user_of st' u = Some (x\<lparr>u_transactionPinHash := Some (cr_hash lib salt pin), u_securitySetupRequired := False\<rparr>)"
    using x(1) by (simp add: st' find_unique_update_many)
  have "cr_check lib (cr_hash lib salt pin) pin" using assms(1) by (simp add: argon_laws_def)
  then have "fst (verifyPin lib cfg now jti u pin sc st') = Inr (signElevation lib cfg now jti u sc)"
    using u' x(2) assms(3) by (simp add: verifyPin_def Let_def pin_counter_def pin_locked_def st')
  moreover have "hasPin u st'" using u' assms(3) by (simp add: hasPin_def truthy_str_iff)
  moreover have "hasPin u st \<longrightarrow> (\<exists>x. login_user_of st u = Some x \<and>
            ((\<exists>c h. cur = Some c \<and> u_transactionPinHash x = Some h \<and> cr_check lib h c) \<or>
             (\<exists>c. pw = Some c \<and> cr_check lib (u_passwordHash x) c)))"
    using x(1,4) by (auto simp: hasPin_def pin_change_allowed_def truthy_str_iff require_eq_Inr split: if_splits)
  ultimately show ?thesis using x(2,3) by (simp add: PIN_RE_def)
qed

text \<open>A step-up by message asks only for a challenge that opens, not for one of the caller: with a
  challenge issued to somebody else the caller gets an elevation token of his own.\<close>

theorem elevation_accepts_foreign_challenge:
  assumes "mfa_verify lib cfg now i code st = (Inr c, st')" "mc_userId c \<noteq> caller"
  shows "verifyChallenge lib cfg now jti caller i code sc st = (Inr (signElevation lib cfg now jti caller sc), st')"
  using assms by (simp add: verifyChallenge_def)

text \<open>A recovery code opens once: the second time it is refused, unless it happens to be the current
  time-based code.\<close>

theorem recovery_code_single_use:
  assumes "verifyForLogin ta u code t = (True, t')" "verifyForLogin ta u code t' = (True, t'')"
  shows "\<exists>r. find_unique tp_userId u t = Some r \<and> tl_check ta code (tl_decrypt ta (tp_secretEnc r))"
proof (rule ccontr)
  assume n: "\<not> ?thesis"
  obtain r where r: "find_unique tp_userId u t = Some r" "tp_activatedAt r \<noteq> None"
    using assms(1) by (auto simp: verifyForLogin_def split: option.splits if_splits)
  then have t': "t' = update_many (\<lambda>x. tp_userId x = u) (\<lambda>x. x\<lparr>tp_recoveryCodes := filter (\<lambda>c. c \<noteq> code) (tp_recoveryCodes r)\<rparr>) t"
    using assms(1) n by (auto simp: verifyForLogin_def split: if_splits)
  have "find_unique tp_userId u t' = Some (r\<lparr>tp_recoveryCodes := filter (\<lambda>c. c \<noteq> code) (tp_recoveryCodes r)\<rparr>)"
    using r(1) by (simp add: t' find_unique_update_many)
  then show False using assms(2) r n by (auto simp: verifyForLogin_def split: if_splits)
qed


end
