(* ===== verification/Sign_In.thy ===== *)
theory Sign_In
  imports Sessions Elevation
begin

text \<open>
  Sign-in (\<^verbatim>\<open>auth/auth.service.ts\<close>), devices (\<^verbatim>\<open>devices/devices.service.ts\<close>,
  \<^verbatim>\<open>devices/fingerprint.util.ts\<close>) and the last step of password recovery
  (\<^verbatim>\<open>auth/signup/recovery.controller.ts\<close>): a trusted device opens a session with the password alone,
  any other device answers a mailed code first and is trusted from then on.
\<close>

section \<open>Devices\<close>

record device_context =
  dx_userAgent :: string
  dx_acceptLanguage :: string
  dx_timezone :: string
  dx_canvasHash :: "string option"
  dx_ip :: string

definition computeFingerprint :: "crypto \<Rightarrow> device_context \<Rightarrow> string" where
  "computeFingerprint lib x =
     cr_sha256 lib (dx_userAgent x @ ''|'' @ dx_acceptLanguage x @ ''|'' @ dx_timezone x @ ''|'' @
       (case dx_canvasHash x of None \<Rightarrow> '''' | Some h \<Rightarrow> h))"

record ua_summary =
  ua_os :: string
  ua_browser :: string
  ua_name :: string

definition parseUaSummary :: "string \<Rightarrow> ua_summary" where
  "parseUaSummary ua =
     (let lower = to_lower ua; has = (\<lambda>w. contains w lower);
          os = (if has ''windows'' then ''Windows'' else if has ''mac os x'' \<or> has ''macintosh'' then ''macOS''
                else if has ''android'' then ''Android'' else if has ''iphone'' \<or> has ''ipad'' \<or> has ''ios'' then ''iOS''
                else if has ''linux'' then ''Linux'' else ''Unknown'');
          browser = (if has ''edg/'' then ''Edge'' else if has ''chrome/'' then ''Chrome'' else if has ''safari/'' then ''Safari''
                     else if has ''firefox/'' then ''Firefox'' else ''Unknown'')
      in \<lparr>ua_os = os, ua_browser = browser, ua_name = browser @ '' on '' @ os\<rparr>)"

definition findKnown :: "string \<Rightarrow> string \<Rightarrow> auth_state \<Rightarrow> device option" where
  "findKnown userId fp st = find_first (\<lambda>d. de_userId d = userId \<and> de_fingerprint d = fp) (sa_devices st)"

definition upsertOnLogin ::
  "crypto \<Rightarrow> (string \<Rightarrow> string option) \<Rightarrow> int \<Rightarrow> string \<Rightarrow> string \<Rightarrow> device_context \<Rightarrow> auth_state \<Rightarrow> (device \<times> auth_state) result" where
  "upsertOnLogin lib geo now newId userId x st =
     (let fp = computeFingerprint lib x; summary = parseUaSummary (dx_userAgent x);
          seen = (\<lambda>d. d\<lparr>de_ipLastSeen := dx_ip x, de_locationLastSeen := geo (dx_ip x), de_lastSeenAt := now, de_revokedAt := None\<rparr>)
      in case findKnown userId fp st of
           Some d \<Rightarrow> Inr (seen d, st\<lparr>sa_devices := update_many (\<lambda>e. de_id e = de_id d) seen (sa_devices st)\<rparr>)
         | None \<Rightarrow>
             (let d = \<lparr>de_id = newId, de_userId = userId, de_fingerprint = fp, de_name = ua_name summary, de_os = ua_os summary,
                       de_browser = ua_browser summary, de_ipFirstSeen = dx_ip x, de_ipLastSeen = dx_ip x,
                       de_locationLastSeen = geo (dx_ip x), de_trusted = False, de_lastSeenAt = now, de_revokedAt = None\<rparr>
              in ebind (create_unique ''id'' de_id d (sa_devices st)) (\<lambda>t. Inr (d, st\<lparr>sa_devices := t\<rparr>))))"

definition markTrusted :: "string \<Rightarrow> auth_state \<Rightarrow> auth_state" where
  "markTrusted deviceId st =
     st\<lparr>sa_devices := update_many (\<lambda>d. de_id d = deviceId) (\<lambda>d. d\<lparr>de_trusted := True\<rparr>) (sa_devices st)\<rparr>"

section \<open>Sign-in\<close>

text \<open>The bullets of a masked address are written as asterisks.\<close>

definition maskEmail :: "string \<Rightarrow> string" where
  "maskEmail email =
     (case split_on (CHR ''@'') email of
        local # domain # _ \<Rightarrow>
          if local = '''' \<or> domain = '''' then email
          else take 2 local @ replicate (max (length local - 2) 1) (CHR ''*'') @ ''@'' @ domain
      | _ \<Rightarrow> email)"

datatype login_outcome =
    StageSession string string string
      \<comment> \<open>access token, refresh token, session\<close>
  | StageMfa string string
      \<comment> \<open>capability token, masked address\<close>

text \<open>What a request draws: identifiers of the session and its tokens, of a device, of a challenge and its
  code, and of the capability token.\<close>

record login_ids =
  li_session :: session_ids
  li_device :: string
  li_code :: code_source
  li_jti :: string

definition open_session ::
  "crypto \<Rightarrow> auth_config \<Rightarrow> int \<Rightarrow> login_ids \<Rightarrow> login_user \<Rightarrow> string \<Rightarrow> string \<Rightarrow> auth_state \<Rightarrow> (login_outcome \<times> auth_state) result" where
  "open_session lib cfg now ids u deviceId ip st =
     ebind (issueSession lib cfg now (li_session ids) (u_id u) deviceId (Some (role_name (u_role u))) ip st) (\<lambda>(r, st1).
     Inr (StageSession (iss_accessToken r) (iss_refreshToken r) (se_id (iss_session r)), st1))"

definition login_challenge ::
  "crypto \<Rightarrow> auth_config \<Rightarrow> int \<Rightarrow> login_ids \<Rightarrow> login_user \<Rightarrow> device_context \<Rightarrow> auth_state \<Rightarrow> (login_outcome \<times> auth_state) result" where
  "login_challenge lib cfg now ids u x st =
     (let summary = parseUaSummary (dx_userAgent x) in
      ebind (createEmailChallenge lib cfg now (li_code ids) (u_id u) (u_email u)
               \<lparr>cc_fingerprint = computeFingerprint lib x, cc_name = ua_name summary, cc_os = ua_os summary,
                cc_browser = ua_browser summary, cc_ip = dx_ip x\<rparr> st) (\<lambda>(c, st1).
      Inr (StageMfa (signMfa lib cfg now (li_jti ids) (u_id u) (mc_id c)) (maskEmail (u_email u)), st1)))"

definition trusted_here :: "crypto \<Rightarrow> login_user \<Rightarrow> device_context \<Rightarrow> auth_state \<Rightarrow> bool" where
  "trusted_here lib u x st =
     (case findKnown (u_id u) (computeFingerprint lib x) st of
        None \<Rightarrow> False | Some d \<Rightarrow> de_trusted d \<and> de_revokedAt d = None)"

definition login ::
  "crypto \<Rightarrow> auth_config \<Rightarrow> (string \<Rightarrow> string option) \<Rightarrow> int \<Rightarrow> login_ids \<Rightarrow> string \<Rightarrow> string \<Rightarrow> device_context \<Rightarrow> auth_state \<Rightarrow>
     (login_outcome \<times> auth_state) result" where
  "login lib cfg geo now ids email password x st =
     ebind (or_throw (Unauthorized ''Invalid credentials'')
              (find_first (\<lambda>u. to_lower (u_email u) = to_lower (js_trim email)) (sa_users st))) (\<lambda>u.
     ebind (require (u_status u = UserActive) (Forbidden ''Account not active'')) (\<lambda>_.
     ebind (require (cr_check lib (u_passwordHash u) password) (Unauthorized ''Invalid credentials'')) (\<lambda>_.
     if trusted_here lib u x st
     then
       ebind (upsertOnLogin lib geo now (li_device ids) (u_id u) x st) (\<lambda>(d, st1).
       open_session lib cfg now ids u (de_id d) (dx_ip x) st1)
     else login_challenge lib cfg now ids u x st)))"

text \<open>A capability token without a challenge or a subject ends in a database error.\<close>

definition mfaVerify ::
  "crypto \<Rightarrow> auth_config \<Rightarrow> (string \<Rightarrow> string option) \<Rightarrow> int \<Rightarrow> login_ids \<Rightarrow> string \<Rightarrow> string \<Rightarrow> device_context \<Rightarrow> auth_state \<Rightarrow>
     login_outcome result \<times> auth_state" where
  "mfaVerify lib cfg geo now ids mfaToken code x st =
     (case cr_verify lib now mfaToken of
        None \<Rightarrow> (Inl (Unauthorized ''Invalid or expired MFA token''), st)
      | Some cl \<Rightarrow>
          (case jc_cid cl of
             None \<Rightarrow> (Inl (PlainError ''Argument id is missing''), st)
           | Some cid \<Rightarrow>
               (case mfa_verify lib cfg now cid code st of
                  (Inl e, st1) \<Rightarrow> (Inl e, st1)
                | (Inr c, st1) \<Rightarrow>
                    (case (case jc_sub cl of None \<Rightarrow> None | Some sub \<Rightarrow> login_user_of st1 sub) of
                       None \<Rightarrow> (Inl (Unauthorized ''User no longer exists''), st1)
                     | Some u \<Rightarrow>
                         (case upsertOnLogin lib geo now (li_device ids) (u_id u)
                                 (x\<lparr>dx_ip := if dx_ip x = '''' then mc_pendingIp c else dx_ip x\<rparr>) st1 of
                            Inl e \<Rightarrow> (Inl e, st1)
                          | Inr (d, st2) \<Rightarrow>
                              (let st3 = markTrusted (de_id d) st2 in
                               case open_session lib cfg now ids u (de_id d) (dx_ip x) st3 of
                                 Inl e \<Rightarrow> (Inl e, st3)
                               | Inr (out, st4) \<Rightarrow> (Inr out, st4)))))))"

definition mfaResend ::
  "crypto \<Rightarrow> auth_config \<Rightarrow> int \<Rightarrow> int \<times> string \<Rightarrow> string \<Rightarrow> string \<Rightarrow> auth_state \<Rightarrow> (string \<times> auth_state) result" where
  "mfaResend lib cfg now src jti mfaToken st =
     ebind (or_throw (Unauthorized ''Invalid or expired MFA token'') (cr_verify lib now mfaToken)) (\<lambda>cl.
     ebind (or_throw (PlainError ''Argument id is missing'') (jc_sub cl)) (\<lambda>sub.
     ebind (or_throw (Unauthorized ''User no longer exists'') (login_user_of st sub)) (\<lambda>u.
     ebind (or_throw (PlainError ''Argument id is missing'') (jc_cid cl)) (\<lambda>cid.
     ebind (mfa_resend lib cfg now src cid (Some (u_email u)) None st) (\<lambda>st1.
     Inr (signMfa lib cfg now jti sub cid, st1))))))"

definition refresh_tokens ::
  "crypto \<Rightarrow> auth_config \<Rightarrow> int \<Rightarrow> string \<times> string \<Rightarrow> string \<Rightarrow> auth_state \<Rightarrow> issue_result result \<times> auth_state" where
  "refresh_tokens lib cfg now ids presented st =
     (if presented = '''' then (Inl (Unauthorized ''No refresh token''), st) else rotateRefresh lib cfg now ids presented st)"

definition logout :: "int \<Rightarrow> string \<Rightarrow> string \<Rightarrow> auth_state \<Rightarrow> auth_state result" where
  "logout now sessionId actingUserId st = revokeOne now sessionId actingUserId UserSignout st"

section \<open>Passwords\<close>

definition set_password :: "string \<Rightarrow> string \<Rightarrow> auth_state \<Rightarrow> auth_state" where
  "set_password userId h st =
     st\<lparr>sa_users := update_many (\<lambda>u. u_id u = userId) (\<lambda>u. u\<lparr>u_passwordHash := h\<rparr>) (sa_users st)\<rparr>"

definition changePassword ::
  "crypto \<Rightarrow> int \<Rightarrow> string \<Rightarrow> login_user \<Rightarrow> string \<Rightarrow> string \<Rightarrow> string \<Rightarrow> auth_state \<Rightarrow> auth_state result" where
  "changePassword lib now salt u currentPassword newPassword currentSessionId st =
     ebind (require (cr_check lib (u_passwordHash u) currentPassword) (BadRequest ''Current password is incorrect'')) (\<lambda>_.
     ebind (require (currentPassword \<noteq> newPassword) (BadRequest ''New password must differ from current'')) (\<lambda>_.
     Inr (snd (revokeAllOther now (u_id u) currentSessionId PasswordChanged
            (set_password (u_id u) (cr_hash lib salt newPassword) st)))))"

definition setFirstLoginPassword ::
  "crypto \<Rightarrow> int \<Rightarrow> string \<Rightarrow> login_user \<Rightarrow> string \<Rightarrow> string \<Rightarrow> auth_state \<Rightarrow> auth_state result" where
  "setFirstLoginPassword lib now salt u newPassword currentSessionId st =
     ebind (require (case login_user_of st (u_id u) of None \<Rightarrow> False | Some x \<Rightarrow> u_securitySetupRequired x)
              (BadRequest ''Account is not awaiting first-login setup'')) (\<lambda>_.
     ebind (require (\<not> cr_check lib (u_passwordHash u) newPassword)
              (BadRequest ''Choose a password different from the temporary one'')) (\<lambda>_.
     Inr (snd (revokeAllOther now (u_id u) currentSessionId PasswordChanged
            (set_password (u_id u) (cr_hash lib salt newPassword) st)))))"

definition NO_SESSION :: string where
  "NO_SESSION = ''00000000-0000-0000-0000-000000000000''"

definition recover_reset ::
  "crypto \<Rightarrow> int \<Rightarrow> string \<Rightarrow> string \<Rightarrow> string \<Rightarrow> auth_state \<Rightarrow> auth_state result" where
  "recover_reset lib now salt token newPassword st =
     ebind (or_throw (Unauthorized ''Invalid or expired token'') (verifyRecovery lib now token)) (\<lambda>cl.
     ebind (or_throw (PlainError ''Argument id is missing'') (jc_sub cl)) (\<lambda>sub.
     ebind (or_throw (Unauthorized ''Invalid token'') (login_user_of st sub)) (\<lambda>u.
     ebind (require (8 \<le> length newPassword) (BadRequest ''Password must be at least 8 characters'')) (\<lambda>_.
     Inr (snd (revokeAllOther now (u_id u) NO_SESSION PasswordChanged
            (set_password (u_id u) (cr_hash lib salt newPassword) st)))))))"

section \<open>Properties\<close>

lemma login_challenge_Inr:
  assumes "login_challenge lib cfg now ids u x st = Inr (out, st')"
  shows "sa_sessions st' = sa_sessions st \<and> (\<exists>tok hint. out = StageMfa tok hint) \<and>
    (\<exists>c. sa_challenges st' = sa_challenges st @ [c] \<and> mc_userId c = u_id u \<and> mc_consumedAt c = None)"
  using assms
  by (auto simp: login_challenge_def createEmailChallenge_def Let_def add_challenge_def err_simps mail_sign_in_code_def
      mfa_admin_copy_def mk_challenge_def split: prod.splits)


lemma set_password_sel [simp]:
  "sa_sessions (set_password u h st) = sa_sessions st" "sa_refreshAudit (set_password u h st) = sa_refreshAudit st"
  "login_user_of (set_password u h st) i =
     (if i = u then map_option (\<lambda>x. x\<lparr>u_passwordHash := h\<rparr>) (login_user_of st i) else login_user_of st i)"
  by (simp_all add: set_password_def find_unique_update_many)

text \<open>After a password change every other session of the user is revoked, and after a reset by recovery
  every session is; the new password then checks, and other users keep their sessions and passwords.\<close>

theorem new_password_ends_sessions:
  assumes "argon_laws lib" "login_user_of st (u_id u) = Some u"
    and "changePassword lib now salt u old new sid st = Inr st' \<or>
         (\<exists>cl. recover_reset lib now salt token new st = Inr st' \<and> verifyRecovery lib now token = Some cl \<and>
            jc_sub cl = Some (u_id u) \<and> sid = NO_SESSION)"
  shows "(\<forall>s \<in> set (sa_sessions st'). se_userId s = u_id u \<and> se_id s \<noteq> sid \<longrightarrow> \<not> live s) \<and>
         (\<exists>x. login_user_of st' (u_id u) = Some x \<and> cr_check lib (u_passwordHash x) new) \<and>
         (\<forall>v. v \<noteq> u_id u \<longrightarrow> login_user_of st' v = login_user_of st v \<and>
            filter (\<lambda>s. se_userId s = v) (sa_sessions st') = filter (\<lambda>s. se_userId s = v) (sa_sessions st))"
proof -
  have st': "st' = snd (revokeAllOther now (u_id u) sid PasswordChanged (set_password (u_id u) (cr_hash lib salt new) st))"
    using assms(2,3) by (auto simp: changePassword_def recover_reset_def err_simps)
  let ?P = "\<lambda>s. se_userId s = u_id u \<and> se_id s \<noteq> sid"
  have ss: "sa_sessions st' = update_many (\<lambda>s. ?P s \<and> live s) (revoke_row now PasswordChanged) (sa_sessions st)"
    by (simp add: st' revokeAllOther_def)
  have "\<not> live s" if "s \<in> set (sa_sessions st')" "?P s" for s
    using revoked_dead [of s ?P now PasswordChanged "sa_sessions st"] that ss by (simp add: revoke_row_def)
  moreover have "login_user_of st' i = login_user_of (set_password (u_id u) (cr_hash lib salt new) st) i" for i
    by (simp add: st' revokeAllOther_def)
  moreover have "filter (\<lambda>s. se_userId s = v) (sa_sessions st') = filter (\<lambda>s. se_userId s = v) (sa_sessions st)" if "v \<noteq> u_id u" for v
    unfolding ss using that by (intro filter_update_other) (auto simp: revoke_row_def)
  ultimately show ?thesis using assms(1,2) by (simp add: argon_laws_def)
qed

text \<open>The token of a password reset is not consumed: until it expires it resets the password again.\<close>

theorem recovery_token_replayable:
  assumes "recover_reset lib now salt token new st = Inr st'" "verifyRecovery lib now' token = verifyRecovery lib now token"
    and "8 \<le> length new'"
  shows "is_ok (recover_reset lib now' salt' token new' st')"
proof -
  obtain cl sub u where u: "verifyRecovery lib now token = Some cl" "jc_sub cl = Some sub" "login_user_of st sub = Some u"
    and st': "st' = snd (revokeAllOther now (u_id u) NO_SESSION PasswordChanged (set_password (u_id u) (cr_hash lib salt new) st))"
    using assms(1) by (auto simp: recover_reset_def err_simps)
  have "u_id u = sub" using u(3) by (auto dest: find_unique_SomeD)
  then have "login_user_of st' sub = Some (u\<lparr>u_passwordHash := cr_hash lib salt new\<rparr>)"
    using u(3) set_password_sel(3) by (simp add: st' revokeAllOther_def)
  then show ?thesis using u assms(2,3) by (simp add: recover_reset_def)
qed


end
