(* ===== verification/Signup.thy ===== *)
theory Signup
  imports One_Time_Codes
begin

text \<open>
  Opening a customer account (\<^verbatim>\<open>auth/signup/signup.service.ts\<close>): a session walks through stages, each
  handler asking for a least stage, with the codes that verify the address or the phone
  (\<^verbatim>\<open>auth/signup/verification.service.ts\<close>), the uploaded documents and the final step that creates
  the user. The order of the stages is the order of \<open>STAGE_ORDER\<close>; a stage missing there
  (\<open>abandoned\<close>) comes before all others, as \<open>indexOf\<close> gives -1.
\<close>

section \<open>Stages\<close>

datatype signup_stage =
    Started | ContactCollected | ChannelChosen | Verified | DobCollected | CardChosen | AddressCollected
  | PasswordSet | DetailsCollected | SsnCollected | DocsSubmitted | Completed | Abandoned

definition stage_index :: "signup_stage \<Rightarrow> int" where
  "stage_index s = (case s of Started \<Rightarrow> 0 | ContactCollected \<Rightarrow> 1 | ChannelChosen \<Rightarrow> 2 | Verified \<Rightarrow> 3
     | DobCollected \<Rightarrow> 4 | CardChosen \<Rightarrow> 5 | AddressCollected \<Rightarrow> 6 | PasswordSet \<Rightarrow> 7 | DetailsCollected \<Rightarrow> 8
     | SsnCollected \<Rightarrow> 9 | DocsSubmitted \<Rightarrow> 10 | Completed \<Rightarrow> 11 | Abandoned \<Rightarrow> - 1)"

instantiation signup_stage :: linorder
begin

definition less_eq_signup_stage :: "signup_stage \<Rightarrow> signup_stage \<Rightarrow> bool" where
  "less_eq_signup_stage a b = (stage_index a \<le> stage_index b)"

definition less_signup_stage :: "signup_stage \<Rightarrow> signup_stage \<Rightarrow> bool" where
  "less_signup_stage a b = (stage_index a < stage_index b)"

instance
proof
  fix a b :: signup_stage
  show "a = b" if "a \<le> b" "b \<le> a"
    using that by (cases a; cases b) (simp_all add: less_eq_signup_stage_def stage_index_def)
qed (auto simp: less_eq_signup_stage_def less_signup_stage_def)

end

section \<open>Tables\<close>

datatype verification_channel = ChannelEmail | ChannelSms

record signup_session =
  su_id :: string
  su_stage :: signup_stage
  su_email :: "string option"
  su_firstName :: "string option"
  su_lastName :: "string option"
  su_dob :: "string option"
  su_phoneE164 :: "string option"
  su_verifiedChannel :: "verification_channel option"
  su_verifiedAt :: "int option"
  su_cardChoice :: "string option"
  su_street :: "string option"
  su_apt :: "string option"
  su_city :: "string option"
  su_state :: "string option"
  su_zip :: "string option"
  su_passwordHash :: "string option"
  su_income :: "string option"
  su_occupation :: "string option"
  su_annualIncome :: "string option"
  su_payMethod :: "string option"
  su_foundUs :: "string option"
  su_ssnEncrypted :: "string option"
  su_ssnHash :: "string option"
  su_marketingConsent :: bool
  su_referralCode :: "string option"
  su_expiresAt :: int
  su_resolvedUserId :: "string option"

record verification =
  vf_id :: string
  vf_signupSessionId :: string
  vf_channel :: verification_channel
  vf_destination :: string
  vf_codeHash :: string
  vf_expiresAt :: int
  vf_attempts :: int
  vf_consumedAt :: "int option"
  vf_supersededAt :: "int option"
  vf_createdAt :: int

datatype document_type = IdFront | IdBack | Selfie | UtilityBill

record document =
  doc_id :: string
  doc_ownerSignupId :: "string option"
  doc_ownerUserId :: "string option"
  doc_type :: document_type
  doc_contentType :: string
  doc_sizeBytes :: int
  doc_storageKey :: string

datatype kyc_status = KycPending | KycInReview | KycApproved | KycRejected

record kyc_record =
  ky_userId :: string
  ky_status :: kyc_status
  ky_submittedAt :: int
  ky_reviewedAt :: "int option"
  ky_reviewedByUserId :: "string option"
  ky_rejectionReason :: "string option"
  ky_missingFields :: "string list"

datatype signup_event = SignedUp string string string int
  \<comment> \<open>user, signup, address, time\<close>

text \<open>Codes sent: channel, recipient, code.\<close>

record signup_state =
  sg_users :: "login_user list"
  sg_signups :: "signup_session list"
  sg_verifications :: "verification list"
  sg_documents :: "document list"
  sg_kyc :: "kyc_record list"
  sg_sent :: "(verification_channel \<times> string \<times> string) list"
  sg_events :: "signup_event list"

abbreviation signup_of :: "signup_state \<Rightarrow> string \<Rightarrow> signup_session option" where
  "signup_of st i \<equiv> find_unique su_id i (sg_signups st)"

definition set_signup :: "string \<Rightarrow> (signup_session \<Rightarrow> signup_session) \<Rightarrow> signup_state \<Rightarrow> signup_state" where
  "set_signup i f st = st\<lparr>sg_signups := update_many (\<lambda>s. su_id s = i) f (sg_signups st)\<rparr>"

definition requireStageAtLeast :: "signup_stage \<Rightarrow> signup_stage \<Rightarrow> unit result" where
  "requireStageAtLeast actual required = require (\<not> actual < required) (BadRequest ''Step requires a later stage'')"

definition load_signup :: "int \<Rightarrow> string \<Rightarrow> signup_state \<Rightarrow> signup_session result" where
  "load_signup now i st =
     ebind (or_throw (NotFound ''Signup session not found'') (signup_of st i)) (\<lambda>s.
     ebind (require (\<not> su_expiresAt s < now) (BadRequest ''Signup session expired'')) (\<lambda>_.
     ebind (require (su_stage s \<noteq> Completed) (BadRequest ''Signup already completed'')) (\<lambda>_. Inr s)))"

section \<open>The start\<close>

record begin_input =
  bi_firstName :: string
  bi_lastName :: string
  bi_email :: string
  bi_phoneE164 :: string
  bi_referralCode :: "string option"

definition new_signup :: "auth_config \<Rightarrow> int \<Rightarrow> string \<Rightarrow> begin_input \<Rightarrow> signup_session" where
  "new_signup cfg now i inp =
     \<lparr>su_id = i, su_stage = ContactCollected, su_email = Some (bi_email inp), su_firstName = Some (bi_firstName inp),
      su_lastName = Some (bi_lastName inp), su_dob = None, su_phoneE164 = Some (bi_phoneE164 inp), su_verifiedChannel = None,
      su_verifiedAt = None, su_cardChoice = None, su_street = None, su_apt = None, su_city = None, su_state = None,
      su_zip = None, su_passwordHash = None, su_income = None, su_occupation = None, su_annualIncome = None,
      su_payMethod = None, su_foundUs = None, su_ssnEncrypted = None, su_ssnHash = None, su_marketingConsent = False,
      su_referralCode = bi_referralCode inp, su_expiresAt = now + av_signupTtlDays cfg * 24 * 60 * 60 * 1000,
      su_resolvedUserId = None\<rparr>"

definition insert_signup :: "auth_config \<Rightarrow> int \<Rightarrow> string \<Rightarrow> begin_input \<Rightarrow> signup_state \<Rightarrow> (string \<times> signup_state) result" where
  "insert_signup cfg now i inp st =
     ebind (create_unique ''email'' su_email (new_signup cfg now i inp) (sg_signups st)) (\<lambda>_.
     ebind (create_unique ''id'' su_id (new_signup cfg now i inp) (sg_signups st)) (\<lambda>t.
     Inr (i, st\<lparr>sg_signups := t\<rparr>)))"

definition drop_signup :: "string \<Rightarrow> signup_state \<Rightarrow> signup_state" where
  "drop_signup i st = st\<lparr>sg_verifications := filter (\<lambda>v. vf_signupSessionId v \<noteq> i) (sg_verifications st),
     sg_documents := filter (\<lambda>d. doc_ownerSignupId d \<noteq> Some i) (sg_documents st),
     sg_signups := filter (\<lambda>s. su_id s \<noteq> i) (sg_signups st)\<rparr>"

definition restart_signup :: "begin_input \<Rightarrow> signup_session \<Rightarrow> signup_session" where
  "restart_signup inp s =
     s\<lparr>su_firstName := Some (bi_firstName inp), su_lastName := Some (bi_lastName inp), su_phoneE164 := Some (bi_phoneE164 inp),
       su_referralCode := (case bi_referralCode inp of None \<Rightarrow> su_referralCode s | Some r \<Rightarrow> Some r), su_stage := ContactCollected\<rparr>"

definition begin_signup :: "auth_config \<Rightarrow> int \<Rightarrow> string \<Rightarrow> begin_input \<Rightarrow> signup_state \<Rightarrow> (string \<times> signup_state) result" where
  "begin_signup cfg now i inp st =
     ebind (require (find_unique u_email (bi_email inp) (sg_users st) = None) (Conflict ''Email already registered'')) (\<lambda>_.
     ebind (require (bi_phoneE164 inp = '''' \<or> find_unique u_phoneE164 (Some (bi_phoneE164 inp)) (sg_users st) = None)
              (Conflict ''That phone number is already linked to a State Bank account.'')) (\<lambda>_.
     case find_unique su_email (Some (bi_email inp)) (sg_signups st) of
       None \<Rightarrow> insert_signup cfg now i inp st
     | Some s \<Rightarrow>
         if su_stage s = Completed \<or> su_expiresAt s \<le> now then insert_signup cfg now i inp (drop_signup (su_id s) st)
         else Inr (su_id s, set_signup (su_id s) (restart_signup inp) st)))"

section \<open>Steps\<close>

definition markChannelChosen :: "signup_session \<Rightarrow> signup_state \<Rightarrow> signup_state result" where
  "markChannelChosen s st =
     ebind (requireStageAtLeast (su_stage s) ContactCollected) (\<lambda>_.
     Inr (if su_stage s < ChannelChosen then set_signup (su_id s) (\<lambda>x. x\<lparr>su_stage := ChannelChosen\<rparr>) st else st))"

definition markVerified :: "int \<Rightarrow> signup_session \<Rightarrow> verification_channel \<Rightarrow> signup_state \<Rightarrow> signup_state result" where
  "markVerified now s ch st =
     ebind (requireStageAtLeast (su_stage s) ContactCollected) (\<lambda>_.
     Inr (set_signup (su_id s) (\<lambda>x. x\<lparr>su_stage := Verified, su_verifiedChannel := Some ch, su_verifiedAt := Some now\<rparr>) st))"

definition setDob :: "signup_session \<Rightarrow> string \<Rightarrow> signup_state \<Rightarrow> signup_state result" where
  "setDob s dob st =
     ebind (requireStageAtLeast (su_stage s) Verified) (\<lambda>_.
     Inr (set_signup (su_id s) (\<lambda>x. x\<lparr>su_dob := Some dob, su_stage := DobCollected\<rparr>) st))"

definition setCard :: "signup_session \<Rightarrow> string \<Rightarrow> signup_state \<Rightarrow> signup_state result" where
  "setCard s choice st =
     ebind (requireStageAtLeast (su_stage s) DobCollected) (\<lambda>_.
     Inr (set_signup (su_id s) (\<lambda>x. x\<lparr>su_cardChoice := Some choice, su_stage := CardChosen\<rparr>) st))"

record address =
  adr_street :: string
  adr_apt :: "string option"
  adr_city :: string
  adr_state :: string
  adr_zip :: string

definition setAddress :: "signup_session \<Rightarrow> address \<Rightarrow> signup_state \<Rightarrow> signup_state result" where
  "setAddress s a st =
     ebind (requireStageAtLeast (su_stage s) DobCollected) (\<lambda>_.
     Inr (set_signup (su_id s) (\<lambda>x. x\<lparr>su_street := Some (adr_street a),
            su_apt := (case adr_apt a of None \<Rightarrow> su_apt x | Some v \<Rightarrow> Some v), su_city := Some (adr_city a),
            su_state := Some (adr_state a), su_zip := Some (adr_zip a),
            su_cardChoice := (case su_cardChoice s of None \<Rightarrow> Some ''checking'' | Some c \<Rightarrow> Some c), su_stage := AddressCollected\<rparr>) st))"

definition setPassword :: "crypto \<Rightarrow> string \<Rightarrow> signup_session \<Rightarrow> string \<Rightarrow> signup_state \<Rightarrow> signup_state result" where
  "setPassword lib salt s password st =
     ebind (requireStageAtLeast (su_stage s) AddressCollected) (\<lambda>_.
     Inr (set_signup (su_id s) (\<lambda>x. x\<lparr>su_passwordHash := Some (cr_hash lib salt password), su_stage := PasswordSet\<rparr>) st))"

record details_input =
  di_income :: "string option"
  di_occupation :: "string option"
  di_annualIncome :: "string option"
  di_payMethod :: "string option"
  di_foundUs :: "string option"
  di_marketingConsent :: "bool option"

definition given :: "'a option \<Rightarrow> 'a option \<Rightarrow> 'a option" where
  "given new old = (case new of None \<Rightarrow> old | Some v \<Rightarrow> Some v)"

definition setDetails :: "signup_session \<Rightarrow> details_input \<Rightarrow> signup_state \<Rightarrow> signup_state result" where
  "setDetails s d st =
     ebind (requireStageAtLeast (su_stage s) PasswordSet) (\<lambda>_.
     Inr (set_signup (su_id s) (\<lambda>x. x\<lparr>su_income := given (di_income d) (su_income x),
            su_occupation := given (di_occupation d) (su_occupation x), su_annualIncome := given (di_annualIncome d) (su_annualIncome x),
            su_payMethod := given (di_payMethod d) (su_payMethod x), su_foundUs := given (di_foundUs d) (su_foundUs x),
            su_marketingConsent := (case di_marketingConsent d of None \<Rightarrow> su_marketingConsent x | Some b \<Rightarrow> b),
            su_stage := DetailsCollected\<rparr>) st))"

text \<open>Six to nine capitals or digits.\<close>

definition passport_char :: "char \<Rightarrow> bool" where
  "passport_char c = (c \<in> set ''ABCDEFGHIJKLMNOPQRSTUVWXYZ0123456789'')"

definition normal_passport :: "string \<Rightarrow> string" where
  "normal_passport p = filter (\<lambda>c. \<not> is_space c) (to_upper (js_trim p))"

definition setSsn :: "crypto \<Rightarrow> (string \<Rightarrow> string) \<Rightarrow> signup_session \<Rightarrow> string \<Rightarrow> signup_state \<Rightarrow> signup_state result" where
  "setSsn lib encrypt s plain st =
     (let n = normal_passport plain; h = cr_hmac lib n in
      ebind (requireStageAtLeast (su_stage s) DetailsCollected) (\<lambda>_.
      ebind (require (6 \<le> length n \<and> length n \<le> 9 \<and> list_all passport_char n)
               (BadRequest ''Passport ID must be 6-9 uppercase letters/digits'')) (\<lambda>_.
      ebind (require (find_first (\<lambda>x. su_ssnHash x = Some h \<and> su_id x \<noteq> su_id s) (sg_signups st) = None)
               (Conflict ''Passport ID already in use'')) (\<lambda>_.
      Inr (set_signup (su_id s) (\<lambda>x. x\<lparr>su_ssnEncrypted := Some (encrypt n), su_ssnHash := Some h, su_stage := SsnCollected\<rparr>) st)))))"

section \<open>Documents and the last step\<close>

definition DOC_MIME :: "string list" where
  "DOC_MIME = [''image/jpeg'', ''image/png'', ''application/pdf'']"

definition doc_type_name :: "document_type \<Rightarrow> string" where
  "doc_type_name t = (case t of IdFront \<Rightarrow> ''id_front'' | IdBack \<Rightarrow> ''id_back'' | Selfie \<Rightarrow> ''selfie'' | UtilityBill \<Rightarrow> ''utility_bill'')"

definition upload_document ::
  "int \<Rightarrow> string \<Rightarrow> document_type \<Rightarrow> string \<Rightarrow> int \<Rightarrow> string option \<Rightarrow> string option \<Rightarrow> signup_state \<Rightarrow> signup_state result" where
  "upload_document maxBytes i ty contentType bytes ownerSignupId ownerUserId st =
     ebind (require (contentType \<in> set DOC_MIME) (BadRequest (''Unsupported content type: '' @ contentType))) (\<lambda>_.
     ebind (require (bytes \<le> maxBytes) (BadRequest (''File exceeds '' @ show_int maxBytes @ '' bytes''))) (\<lambda>_.
     ebind (require (truthy_str ownerSignupId \<or> truthy_str ownerUserId) (BadRequest ''Missing owner'')) (\<lambda>_.
     let ext = (if contentType = ''application/pdf'' then ''pdf'' else if contentType = ''image/png'' then ''png'' else ''jpg'');
         owner = (if truthy_str ownerSignupId then ''signup/'' @ the ownerSignupId else ''user/'' @ the ownerUserId)
     in ebind (create_unique ''id'' doc_id
          \<lparr>doc_id = i, doc_ownerSignupId = ownerSignupId, doc_ownerUserId = ownerUserId, doc_type = ty,
           doc_contentType = contentType, doc_sizeBytes = bytes,
           doc_storageKey = owner @ ''/'' @ doc_type_name ty @ ''/'' @ i @ ''.'' @ ext\<rparr> (sg_documents st)) (\<lambda>t.
        Inr (st\<lparr>sg_documents := t\<rparr>)))))"

definition has_document :: "string \<Rightarrow> document_type \<Rightarrow> document list \<Rightarrow> bool" where
  "has_document i ty ds = list_ex (\<lambda>d. doc_ownerSignupId d = Some i \<and> doc_type d = ty) ds"

definition markDocsSubmitted :: "signup_session \<Rightarrow> signup_state \<Rightarrow> signup_state result" where
  "markDocsSubmitted s st =
     ebind (requireStageAtLeast (su_stage s) SsnCollected) (\<lambda>_.
     let missing = filter (\<lambda>t. \<not> has_document (su_id s) t (sg_documents st)) [IdFront, IdBack] in
     ebind (require (missing = []) (BadRequest (''Missing documents: '' @ join_with '', '' (map doc_type_name missing)))) (\<lambda>_.
     Inr (set_signup (su_id s) (\<lambda>x. x\<lparr>su_stage := DocsSubmitted\<rparr>) st)))"

definition signed_up_user :: "string \<Rightarrow> signup_session \<Rightarrow> login_user" where
  "signed_up_user i s =
     \<lparr>u_id = i, u_email = the (su_email s), u_phoneE164 = su_phoneE164 s, u_novaTag = None, u_firstName = su_firstName s,
      u_lastName = su_lastName s, u_avatarUrl = None, u_role = Customer, u_status = UserActive, u_transfersDisabled = False,
      u_passwordHash = the (su_passwordHash s), u_transactionPinHash = None, u_securitySetupRequired = False,
      u_emailNotificationsDisabled = False\<rparr>"

definition phone_free :: "string option \<Rightarrow> login_user list \<Rightarrow> bool" where
  "phone_free phone us = (phone = None \<or> find_unique u_phoneE164 phone us = None)"

definition conflict_of :: "string \<Rightarrow> api_error" where
  "conflict_of field = Conflict (if field = ''phoneE164'' then ''That phone number is already linked to a State Bank account.''
     else if field = ''email'' then ''Email already registered'' else ''Some of your details are already in use.'')"

text \<open>The database transaction, whose unique constraints become conflicts.\<close>

definition complete_commit :: "int \<Rightarrow> string \<Rightarrow> signup_session \<Rightarrow> signup_state \<Rightarrow> signup_state result" where
  "complete_commit now newId s st =
     ebind (require (find_unique u_email (the (su_email s)) (sg_users st) = None) (conflict_of ''email'')) (\<lambda>_.
     ebind (require (phone_free (su_phoneE164 s) (sg_users st)) (conflict_of ''phoneE164'')) (\<lambda>_.
     ebind (require (find_unique u_id newId (sg_users st) = None \<and> find_unique ky_userId newId (sg_kyc st) = None) (conflict_of ''id'')) (\<lambda>_.
     Inr (set_signup (su_id s) (\<lambda>x. x\<lparr>su_stage := Completed, su_resolvedUserId := Some newId\<rparr>)
       (st\<lparr>sg_users := sg_users st @ [signed_up_user newId s],
           sg_kyc := sg_kyc st @ [\<lparr>ky_userId = newId, ky_status = KycPending, ky_submittedAt = now, ky_reviewedAt = None,
             ky_reviewedByUserId = None, ky_rejectionReason = None, ky_missingFields = []\<rparr>],
           sg_documents := update_many (\<lambda>d. doc_ownerSignupId d = Some (su_id s))
             (\<lambda>d. d\<lparr>doc_ownerSignupId := None, doc_ownerUserId := Some newId\<rparr>) (sg_documents st)\<rparr>)))))"

definition complete_check :: "signup_session \<Rightarrow> signup_state \<Rightarrow> unit result" where
  "complete_check s st =
     ebind (require (su_stage s = DocsSubmitted) (BadRequest ''Cannot complete from this stage'')) (\<lambda>_.
     ebind (require (truthy_str (su_email s) \<and> truthy_str (su_passwordHash s) \<and> truthy_str (su_firstName s) \<and> truthy_str (su_lastName s))
              (BadRequest ''Missing required signup fields'')) (\<lambda>_.
     ebind (require (find_unique u_email (the (su_email s)) (sg_users st) = None) (Conflict ''Email already registered'')) (\<lambda>_.
     require (\<not> truthy_str (su_phoneE164 s) \<or> find_unique u_phoneE164 (su_phoneE164 s) (sg_users st) = None)
       (Conflict ''That phone number is already linked to a State Bank account.''))))"

definition complete_signup :: "int \<Rightarrow> string \<Rightarrow> string \<Rightarrow> signup_session \<Rightarrow> signup_state \<Rightarrow> signup_state result" where
  "complete_signup now newId ip s st =
     ebind (complete_check s st) (\<lambda>_.
     ebind (complete_commit now newId s st) (\<lambda>st1.
     Inr (st1\<lparr>sg_events := sg_events st1 @ [SignedUp newId (su_id s) ip now]\<rparr>)))"

section \<open>Verification codes\<close>

definition getDestination :: "signup_session \<Rightarrow> verification_channel \<Rightarrow> string result" where
  "getDestination s ch =
     (let dest = (case ch of ChannelEmail \<Rightarrow> su_email s | ChannelSms \<Rightarrow> su_phoneE164 s)
      in if truthy_str dest then Inr (the dest) else Inl (BadRequest ''No destination on signup session''))"

definition retryAfterMs :: "auth_config \<Rightarrow> int \<Rightarrow> verification \<Rightarrow> int" where
  "retryAfterMs cfg now v = max 0 (av_cooldownSec cfg * 1000 - (now - vf_createdAt v))"

text \<open>A code goes to the address, or to the phone, or, without a carrier, to the address after all;
  administrators get a copy.\<close>

definition dispatch :: "auth_config \<Rightarrow> verification_channel \<Rightarrow> string \<Rightarrow> string \<Rightarrow> string option \<Rightarrow> signup_state \<Rightarrow> signup_state" where
  "dispatch cfg ch destination code fallback st =
     (let main = (case ch of ChannelEmail \<Rightarrow> (ChannelEmail, destination, code)
                  | ChannelSms \<Rightarrow> if av_smsToEmail cfg \<and> truthy_str fallback then (ChannelEmail, the fallback, code)
                                  else (ChannelSms, destination, code))
      in st\<lparr>sg_sent := sg_sent st @ [main] @ map (\<lambda>a. (ChannelEmail, a, code)) (av_adminCopies cfg)\<rparr>)"

definition vf_open :: "string \<Rightarrow> verification \<Rightarrow> bool" where
  "vf_open i v = (vf_signupSessionId v = i \<and> vf_consumedAt v = None \<and> vf_supersededAt v = None)"

definition current_verification :: "string \<Rightarrow> signup_state \<Rightarrow> verification option" where
  "current_verification i st =
     (case rev (sort_key vf_createdAt (filter (vf_open i) (sg_verifications st))) of [] \<Rightarrow> None | v # _ \<Rightarrow> Some v)"

definition set_verification :: "string \<Rightarrow> (verification \<Rightarrow> verification) \<Rightarrow> signup_state \<Rightarrow> signup_state" where
  "set_verification i f st = st\<lparr>sg_verifications := update_many (\<lambda>v. vf_id v = i) f (sg_verifications st)\<rparr>"

definition fresh_code ::
  "crypto \<Rightarrow> auth_config \<Rightarrow> int \<Rightarrow> code_source \<Rightarrow> signup_session \<Rightarrow> verification_channel \<Rightarrow> string \<Rightarrow> signup_state \<Rightarrow>
     ((string \<times> int) \<times> signup_state) result" where
  "fresh_code lib cfg now src s ch destination st =
     (let (i, rnd, salt) = src; code = six_digits rnd in
      ebind (create_unique ''id'' vf_id
        \<lparr>vf_id = i, vf_signupSessionId = su_id s, vf_channel = ch, vf_destination = destination, vf_codeHash = cr_hash lib salt code,
         vf_expiresAt = now + av_codeTtlSec cfg * 1000, vf_attempts = 0, vf_consumedAt = None, vf_supersededAt = None,
         vf_createdAt = now\<rparr> (sg_verifications st)) (\<lambda>t.
      Inr ((i, av_cooldownSec cfg * 1000), dispatch cfg ch destination code (su_email s) (st\<lparr>sg_verifications := t\<rparr>))))"

text \<open>The result names the verification and the time to wait.\<close>

definition send_code ::
  "crypto \<Rightarrow> auth_config \<Rightarrow> int \<Rightarrow> code_source \<Rightarrow> signup_session \<Rightarrow> verification_channel \<Rightarrow> signup_state \<Rightarrow>
     ((string \<times> int) \<times> signup_state) result" where
  "send_code lib cfg now src s ch st =
     ebind (getDestination s ch) (\<lambda>destination.
     case current_verification (su_id s) st of
       None \<Rightarrow> fresh_code lib cfg now src s ch destination st
     | Some v \<Rightarrow>
         (let expired = vf_expiresAt v < now in
          if \<not> expired \<and> vf_channel v = ch then Inr ((vf_id v, retryAfterMs cfg now v), st)
          else fresh_code lib cfg now src s ch destination
                 (set_verification (vf_id v)
                    (if expired then (\<lambda>x. x\<lparr>vf_consumedAt := Some now\<rparr>) else (\<lambda>x. x\<lparr>vf_supersededAt := Some now\<rparr>)) st)))"

definition owned_verification :: "signup_session \<Rightarrow> string \<Rightarrow> signup_state \<Rightarrow> verification result" where
  "owned_verification s verificationId st =
     ebind (or_throw (NotFound ''Verification not found'') (find_unique vf_id verificationId (sg_verifications st))) (\<lambda>v.
     ebind (require (vf_signupSessionId v = su_id s) (NotFound ''Verification not found'')) (\<lambda>_. Inr v))"

definition resend_code ::
  "crypto \<Rightarrow> auth_config \<Rightarrow> int \<Rightarrow> int \<times> string \<Rightarrow> signup_session \<Rightarrow> string \<Rightarrow> signup_state \<Rightarrow> (int \<times> signup_state) result" where
  "resend_code lib cfg now src s verificationId st =
     ebind (owned_verification s verificationId st) (\<lambda>v.
     ebind (require (vf_consumedAt v = None) (BadRequest ''Verification already consumed'')) (\<lambda>_.
     ebind (require (vf_supersededAt v = None) (BadRequest ''Verification was superseded; request a new one'')) (\<lambda>_.
     if now - vf_createdAt v < av_cooldownSec cfg * 1000 then Inr (av_cooldownSec cfg * 1000 - (now - vf_createdAt v), st)
     else
       (let code = six_digits (fst src);
            st1 = set_verification verificationId (\<lambda>x. x\<lparr>vf_codeHash := cr_hash lib (snd src) code,
                    vf_expiresAt := now + av_codeTtlSec cfg * 1000, vf_attempts := 0, vf_createdAt := now\<rparr>) st
        in Inr (av_cooldownSec cfg * 1000, dispatch cfg (vf_channel v) (vf_destination v) code (su_email s) st1)))))"

definition code_check ::
  "crypto \<Rightarrow> auth_config \<Rightarrow> int \<Rightarrow> signup_session \<Rightarrow> string \<Rightarrow> string \<Rightarrow> signup_state \<Rightarrow> (verification \<times> bool) result" where
  "code_check lib cfg now s verificationId code st =
     ebind (owned_verification s verificationId st) (\<lambda>v.
     ebind (require (vf_supersededAt v = None) (BadRequest ''SUPERSEDED'')) (\<lambda>_.
     ebind (require (vf_consumedAt v = None) (BadRequest ''Already used'')) (\<lambda>_.
     ebind (require (\<not> vf_expiresAt v < now) (BadRequest ''EXPIRED'')) (\<lambda>_.
     ebind (require (vf_attempts v < av_codeMaxAttempts cfg) (BadRequest ''Too many attempts'')) (\<lambda>_.
     Inr (v, cr_check lib (vf_codeHash v) code))))))"

definition verify_code ::
  "crypto \<Rightarrow> auth_config \<Rightarrow> int \<Rightarrow> signup_session \<Rightarrow> string \<Rightarrow> string \<Rightarrow> signup_state \<Rightarrow> verification_channel result \<times> signup_state" where
  "verify_code lib cfg now s verificationId code st =
     (case code_check lib cfg now s verificationId code st of
        Inl e \<Rightarrow> (Inl e, st)
      | Inr (v, b) \<Rightarrow>
          if \<not> b then (Inl (BadRequest ''Invalid code''), set_verification verificationId (\<lambda>x. x\<lparr>vf_attempts := vf_attempts x + 1\<rparr>) st)
          else (Inr (vf_channel v), set_verification verificationId (\<lambda>x. x\<lparr>vf_consumedAt := Some now\<rparr>) st))"

section \<open>Requests\<close>

text \<open>The two requests that call both services.\<close>

definition send_request ::
  "crypto \<Rightarrow> auth_config \<Rightarrow> int \<Rightarrow> code_source \<Rightarrow> string \<Rightarrow> verification_channel \<Rightarrow> signup_state \<Rightarrow> (string \<times> int) result \<times> signup_state" where
  "send_request lib cfg now src i ch st =
     (case load_signup now i st of
        Inl e \<Rightarrow> (Inl e, st)
      | Inr s \<Rightarrow>
          (case send_code lib cfg now src s ch st of
             Inl e \<Rightarrow> (Inl e, st)
           | Inr (r, st1) \<Rightarrow> (case markChannelChosen s st1 of Inl e \<Rightarrow> (Inl e, st1) | Inr st2 \<Rightarrow> (Inr r, st2))))"

definition verify_request ::
  "crypto \<Rightarrow> auth_config \<Rightarrow> int \<Rightarrow> string \<Rightarrow> string \<Rightarrow> string \<Rightarrow> signup_state \<Rightarrow> verification_channel result \<times> signup_state" where
  "verify_request lib cfg now i verificationId code st =
     (case load_signup now i st of
        Inl e \<Rightarrow> (Inl e, st)
      | Inr s \<Rightarrow>
          (case verify_code lib cfg now s verificationId code st of
             (Inl e, st1) \<Rightarrow> (Inl e, st1)
           | (Inr ch, st1) \<Rightarrow> (case markVerified now s ch st1 of Inl e \<Rightarrow> (Inl e, st1) | Inr st2 \<Rightarrow> (Inr ch, st2))))"

definition with_signup :: "int \<Rightarrow> string \<Rightarrow> (signup_session \<Rightarrow> signup_state \<Rightarrow> signup_state result) \<Rightarrow> signup_state \<Rightarrow> signup_state result" where
  "with_signup now i h st = ebind (load_signup now i st) (\<lambda>s. h s st)"


section \<open>Histories\<close>

inductive signup_step :: "crypto \<Rightarrow> auth_config \<Rightarrow> signup_state \<Rightarrow> signup_state \<Rightarrow> bool" for lib :: crypto and cfg :: auth_config where
  sg_begin: "begin_signup cfg now i inp st = Inr (j, st') \<Longrightarrow> signup_step lib cfg st st'"
| sg_send: "send_request lib cfg now src i ch st = (res, st') \<Longrightarrow> signup_step lib cfg st st'"
| sg_resend: "load_signup now i st = Inr s \<Longrightarrow> resend_code lib cfg now rsrc s v st = Inr (w, st') \<Longrightarrow> signup_step lib cfg st st'"
| sg_verify: "verify_request lib cfg now i v code st = (vres, st') \<Longrightarrow> signup_step lib cfg st st'"
| sg_dob: "with_signup now i (\<lambda>s. setDob s d) st = Inr st' \<Longrightarrow> signup_step lib cfg st st'"
| sg_card: "with_signup now i (\<lambda>s. setCard s c) st = Inr st' \<Longrightarrow> signup_step lib cfg st st'"
| sg_address: "with_signup now i (\<lambda>s. setAddress s a) st = Inr st' \<Longrightarrow> signup_step lib cfg st st'"
| sg_password: "with_signup now i (\<lambda>s. setPassword lib salt s pw) st = Inr st' \<Longrightarrow> signup_step lib cfg st st'"
| sg_details: "with_signup now i (\<lambda>s. setDetails s dt) st = Inr st' \<Longrightarrow> signup_step lib cfg st st'"
| sg_ssn: "with_signup now i (\<lambda>s. setSsn lib enc s p) st = Inr st' \<Longrightarrow> signup_step lib cfg st st'"
| sg_upload: "with_signup now i (\<lambda>s. upload_document mb k ty ct sz (Some (su_id s)) None) st = Inr st' \<Longrightarrow> signup_step lib cfg st st'"
| sg_docs: "with_signup now i markDocsSubmitted st = Inr st' \<Longrightarrow> signup_step lib cfg st st'"
| sg_complete: "with_signup now i (complete_signup now newId ip) st = Inr st' \<Longrightarrow> signup_step lib cfg st st'"

text \<open>What a stage stands for.\<close>

definition well_staged :: "document list \<Rightarrow> signup_session \<Rightarrow> bool" where
  "well_staged ds s =
     (su_email s \<noteq> None \<and>
      (Verified \<le> su_stage s \<longrightarrow> su_verifiedAt s \<noteq> None \<and> su_verifiedChannel s \<noteq> None) \<and>
      (DobCollected \<le> su_stage s \<longrightarrow> su_dob s \<noteq> None) \<and>
      (AddressCollected \<le> su_stage s \<longrightarrow> su_street s \<noteq> None \<and> su_city s \<noteq> None \<and> su_state s \<noteq> None \<and> su_zip s \<noteq> None \<and>
         su_cardChoice s \<noteq> None) \<and>
      (PasswordSet \<le> su_stage s \<longrightarrow> su_passwordHash s \<noteq> None) \<and>
      (SsnCollected \<le> su_stage s \<longrightarrow> su_ssnHash s \<noteq> None \<and> su_ssnEncrypted s \<noteq> None) \<and>
      (su_stage s = DocsSubmitted \<longrightarrow> has_document (su_id s) IdFront ds \<and> has_document (su_id s) IdBack ds) \<and>
      (su_stage s = Completed \<longrightarrow> su_resolvedUserId s \<noteq> None))"

definition signup_inv :: "signup_state \<Rightarrow> bool" where
  "signup_inv st = (distinct (map su_id (sg_signups st)) \<and> (\<forall>s \<in> set (sg_signups st). well_staged (sg_documents st) s))"

lemmas stage_simps = less_eq_signup_stage_def less_signup_stage_def stage_index_def

lemma signup_inv_set:
  assumes "signup_inv st" "signup_of st i = Some s" "su_id (f s) = su_id s" "well_staged (sg_documents st) (f s)"
  shows "signup_inv (set_signup i f st)"
proof -
  have only: "x = s" if "x \<in> set (sg_signups st)" "su_id x = i" for x
    using assms(1,2) that find_unique_in_distinct [of su_id "sg_signups st" x] by (simp add: signup_inv_def)
  let ?t = "update_many (\<lambda>s. su_id s = i) f (sg_signups st)"
  have "map su_id ?t = map su_id (sg_signups st)"
    using only assms(3) unfolding update_many_def by (auto intro!: map_cong)
  moreover have "\<forall>x \<in> set ?t. well_staged (sg_documents st) x"
  proof
    fix x assume "x \<in> set ?t"
    from in_update_many [OF this] show "well_staged (sg_documents st) x"
    proof
      assume "\<exists>g \<in> set (sg_signups st). su_id g = i \<and> x = f g"
      then obtain g where "g \<in> set (sg_signups st)" "su_id g = i" "x = f g" by blast
      then show ?thesis using only [of g] assms(4) by simp
    qed (use assms(1) in \<open>simp add: signup_inv_def\<close>)
  qed
  ultimately show ?thesis using assms(1) by (simp add: signup_inv_def set_signup_def)
qed

lemma load_signup_Inr:
  "load_signup now i st = Inr s \<Longrightarrow> signup_of st i = Some s \<and> su_id s = i \<and> su_stage s \<noteq> Completed \<and> now \<le> su_expiresAt s"
  by (auto simp: load_signup_def err_simps dest: find_unique_SomeD)

text \<open>A handler that updates the loaded session to one that is well staged keeps the invariant.\<close>

lemma with_signup_inv:
  assumes "with_signup now i h st = Inr st'" "signup_inv st"
    and "\<And>s. well_staged (sg_documents st) s \<Longrightarrow> h s st = Inr st' \<Longrightarrow>
           \<exists>f. st' = set_signup (su_id s) f st \<and> su_id (f s) = su_id s \<and> well_staged (sg_documents st) (f s)"
  shows "signup_inv st'"
proof -
  obtain s where s: "load_signup now i st = Inr s" "h s st = Inr st'" using assms(1) by (auto simp: with_signup_def err_simps)
  note l = load_signup_Inr [OF s(1)]
  then have "well_staged (sg_documents st) s" using assms(2) by (auto simp: signup_inv_def dest: find_unique_SomeD)
  from assms(3) [OF this s(2)] l show ?thesis using signup_inv_set [OF assms(2)] by blast
qed

lemma step_handlers_inv:
  assumes "signup_inv st"
  shows "with_signup now i (\<lambda>s. setDob s d) st = Inr st' \<Longrightarrow> signup_inv st'"
    and "with_signup now i (\<lambda>s. setCard s c) st = Inr st' \<Longrightarrow> signup_inv st'"
    and "with_signup now i (\<lambda>s. setAddress s a) st = Inr st' \<Longrightarrow> signup_inv st'"
    and "with_signup now i (\<lambda>s. setPassword lib salt s pw) st = Inr st' \<Longrightarrow> signup_inv st'"
    and "with_signup now i (\<lambda>s. setDetails s dt) st = Inr st' \<Longrightarrow> signup_inv st'"
    and "with_signup now i (\<lambda>s. setSsn lib enc s p) st = Inr st' \<Longrightarrow> signup_inv st'"
    and "with_signup now i markDocsSubmitted st = Inr st' \<Longrightarrow> signup_inv st'"
proof -
  note [simp] = well_staged_def requireStageAtLeast_def err_simps Let_def
  show "with_signup now i (\<lambda>s. setDob s d) st = Inr st' \<Longrightarrow> signup_inv st'"
    by (erule with_signup_inv [OF _ assms], rule exI [where x = "\<lambda>x. x\<lparr>su_dob := Some d, su_stage := DobCollected\<rparr>"])
      (auto simp: setDob_def stage_simps)
  show "with_signup now i (\<lambda>s. setCard s c) st = Inr st' \<Longrightarrow> signup_inv st'"
    by (erule with_signup_inv [OF _ assms], rule exI [where x = "\<lambda>x. x\<lparr>su_cardChoice := Some c, su_stage := CardChosen\<rparr>"])
      (auto simp: setCard_def stage_simps)
  show "with_signup now i (\<lambda>s. setAddress s a) st = Inr st' \<Longrightarrow> signup_inv st'"
    by (erule with_signup_inv [OF _ assms]) (auto simp: setAddress_def stage_simps split: option.splits)
  show "with_signup now i (\<lambda>s. setPassword lib salt s pw) st = Inr st' \<Longrightarrow> signup_inv st'"
    by (erule with_signup_inv [OF _ assms], rule exI [where x = "\<lambda>x. x\<lparr>su_passwordHash := Some (cr_hash lib salt pw), su_stage := PasswordSet\<rparr>"])
      (auto simp: setPassword_def stage_simps)
  show "with_signup now i (\<lambda>s. setDetails s dt) st = Inr st' \<Longrightarrow> signup_inv st'"
    by (erule with_signup_inv [OF _ assms]) (auto simp: setDetails_def stage_simps)
  show "with_signup now i (\<lambda>s. setSsn lib enc s p) st = Inr st' \<Longrightarrow> signup_inv st'"
    by (erule with_signup_inv [OF _ assms]) (auto simp: setSsn_def stage_simps)
  show "with_signup now i markDocsSubmitted st = Inr st' \<Longrightarrow> signup_inv st'"
    by (erule with_signup_inv [OF _ assms], rule exI [where x = "\<lambda>x. x\<lparr>su_stage := DocsSubmitted\<rparr>"])
      (auto simp: markDocsSubmitted_def stage_simps split: if_splits)
qed


lemma signup_inv_cong: "sg_signups st' = sg_signups st \<Longrightarrow> sg_documents st' = sg_documents st \<Longrightarrow> signup_inv st' = signup_inv st"
  by (simp add: signup_inv_def)

lemma code_frames [simp]:
  "sg_signups (dispatch cfg ch d c f st) = sg_signups st" "sg_documents (dispatch cfg ch d c f st) = sg_documents st"
  "sg_signups (set_verification i g st) = sg_signups st" "sg_documents (set_verification i g st) = sg_documents st"
  by (simp_all add: dispatch_def Let_def set_verification_def)

lemma fresh_code_frame:
  "fresh_code lib cfg now src s ch dst st = Inr (r, st') \<Longrightarrow> sg_signups st' = sg_signups st \<and> sg_documents st' = sg_documents st"
  by (auto simp: fresh_code_def Let_def err_simps split: prod.splits)

lemma send_code_frame:
  assumes "send_code lib cfg now src s ch st = Inr (r, st')"
  shows "sg_signups st' = sg_signups st \<and> sg_documents st' = sg_documents st"
proof -
  obtain dst where d: "getDestination s ch = Inr dst" using assms by (auto simp: send_code_def err_simps)
  show ?thesis
  proof (cases "current_verification (su_id s) st")
    case None
    then show ?thesis using assms d fresh_code_frame by (simp add: send_code_def)
  next
    case (Some v)
    then consider "st' = st" | f where "fresh_code lib cfg now src s ch dst (set_verification (vf_id v) f st) = Inr (r, st')"
      using assms d by (auto simp: send_code_def Let_def split: if_splits)
    then show ?thesis by cases (auto dest: fresh_code_frame)
  qed
qed

lemma resend_code_frame:
  "resend_code lib cfg now src s v st = Inr (w, st') \<Longrightarrow> sg_signups st' = sg_signups st \<and> sg_documents st' = sg_documents st"
  by (auto simp: resend_code_def Let_def err_simps split: if_splits)

lemma verify_code_frame:
  "verify_code lib cfg now s v code st = (r, st') \<Longrightarrow> sg_signups st' = sg_signups st \<and> sg_documents st' = sg_documents st"
  by (auto simp: verify_code_def split: sum.splits if_splits)

lemma mark_inv:
  assumes "signup_inv st" "signup_of st (su_id s) = Some s" "markChannelChosen s st = Inr st' \<or> markVerified now s ch st = Inr st'"
  shows "signup_inv st'"
proof -
  have w: "well_staged (sg_documents st) s" using assms(1,2) by (auto simp: signup_inv_def dest: find_unique_SomeD)
  consider "st' = st" | "st' = set_signup (su_id s) (\<lambda>x. x\<lparr>su_stage := ChannelChosen\<rparr>) st"
    | "st' = set_signup (su_id s) (\<lambda>x. x\<lparr>su_stage := Verified, su_verifiedChannel := Some ch, su_verifiedAt := Some now\<rparr>) st"
    using assms(3) by (auto simp: markChannelChosen_def markVerified_def err_simps split: if_splits)
  then show ?thesis
    by cases (use assms(1) signup_inv_set [OF assms(1,2)] w in \<open>auto simp: well_staged_def stage_simps\<close>)
qed

lemma send_request_inv:
  assumes "send_request lib cfg now src i ch st = (res, st')" "signup_inv st"
  shows "signup_inv st'"
proof (cases "\<exists>s r st1. load_signup now i st = Inr s \<and> send_code lib cfg now src s ch st = Inr (r, st1)")
  case True
  then obtain s r st1 where l: "load_signup now i st = Inr s" and c: "send_code lib cfg now src s ch st = Inr (r, st1)" by blast
  note f = send_code_frame [OF c] and s = load_signup_Inr [OF l]
  have "signup_inv st1" using f assms(2) signup_inv_cong [of st1 st] by simp
  moreover have "signup_of st1 (su_id s) = Some s" using f s by simp
  ultimately have "markChannelChosen s st1 = Inr x \<Longrightarrow> signup_inv x" for x using mark_inv [of st1 s] by blast
  then show ?thesis
    using assms(1) l c \<open>signup_inv st1\<close> by (cases "markChannelChosen s st1") (auto simp: send_request_def)
next
  case False
  then have "st' = st"
    using assms(1) by (cases "load_signup now i st"; cases "send_code lib cfg now src (projr (load_signup now i st)) ch st")
      (auto simp: send_request_def)
  then show ?thesis using assms(2) by simp
qed

lemma verify_request_inv:
  assumes "verify_request lib cfg now i v code st = (res, st')" "signup_inv st"
  shows "signup_inv st'"
proof (cases "load_signup now i st")
  case (Inl e)
  then show ?thesis using assms by (simp add: verify_request_def)
next
  case (Inr s)
  obtain r st1 where c: "verify_code lib cfg now s v code st = (r, st1)" by (cases "verify_code lib cfg now s v code st")
  note f = verify_code_frame [OF c] and s = load_signup_Inr [OF Inr]
  have "signup_inv st1" "signup_of st1 (su_id s) = Some s" using f s assms(2) signup_inv_cong [of st1 st] by simp_all
  then have m: "signup_inv st1" "markVerified now s ch st1 = Inr x \<Longrightarrow> signup_inv x" for ch x using mark_inv [of st1 s] by blast+
  show ?thesis
  proof (cases r)
    case (Inl e)
    then show ?thesis using assms(1) Inr c m(1) by (simp add: verify_request_def)
  next
    case (Inr ch)
    then show ?thesis
      using assms(1) \<open>load_signup now i st = Inr s\<close> c m by (cases "markVerified now s ch st1") (auto simp: verify_request_def)
  qed
qed

lemma has_document_mono:
  "has_document i ty ds \<Longrightarrow> has_document i ty (ds @ [d])"
  "j \<noteq> i \<Longrightarrow> has_document i ty (filter (\<lambda>d. doc_ownerSignupId d \<noteq> Some j) ds) = has_document i ty ds"
  "j \<noteq> i \<Longrightarrow> has_document i ty (update_many (\<lambda>d. doc_ownerSignupId d = Some j) (\<lambda>d. d\<lparr>doc_ownerSignupId := None, doc_ownerUserId := u\<rparr>) ds) =
     has_document i ty ds"
  by (auto simp: has_document_def list_ex_iff update_many_def)

lemma upload_inv:
  assumes "upload_document mb k ty ct sz (Some i) None st = Inr st'" "signup_inv st"
  shows "signup_inv st'"
  using assms has_document_mono(1) by (auto simp: upload_document_def err_simps Let_def signup_inv_def well_staged_def)

lemma insert_signup_inv:
  assumes "insert_signup cfg now i inp st = Inr (j, st')" "signup_inv st"
  shows "signup_inv st'"
  using assms by (auto simp: insert_signup_def err_simps signup_inv_def new_signup_def well_staged_def find_unique_None_iff stage_simps)

lemma drop_signup_inv: "signup_inv st \<Longrightarrow> signup_inv (drop_signup i st)"
  by (auto simp: signup_inv_def drop_signup_def distinct_map_filter well_staged_def has_document_mono(2))

lemma begin_signup_inv:
  assumes "begin_signup cfg now i inp st = Inr (j, st')" "signup_inv st"
  shows "signup_inv st'"
proof -
  consider (new) "insert_signup cfg now i inp st = Inr (j, st')"
    | (stale) k where "insert_signup cfg now i inp (drop_signup k st) = Inr (j, st')"
    | (again) s where "find_unique su_email (Some (bi_email inp)) (sg_signups st) = Some s" "st' = set_signup (su_id s) (restart_signup inp) st"
    using assms(1) by (auto simp: begin_signup_def err_simps split: option.splits if_splits)
  then show ?thesis
  proof cases
    case new
    then show ?thesis using insert_signup_inv assms(2) by blast
  next
    case stale
    then show ?thesis using insert_signup_inv drop_signup_inv assms(2) by blast
  next
    case again
    then have "s \<in> set (sg_signups st)" by (auto dest: find_unique_SomeD)
    then have "signup_of st (su_id s) = Some s" and w: "well_staged (sg_documents st) s"
      using assms(2) by (auto simp: signup_inv_def find_unique_in_distinct)
    then show ?thesis
      unfolding again(2) using signup_inv_set [OF assms(2)] by (simp add: restart_signup_def well_staged_def stage_simps)
  qed
qed

lemma complete_inv:
  assumes "with_signup now i (complete_signup now newId ip) st = Inr st'" "signup_inv st"
  shows "signup_inv st'"
proof -
  obtain s where l: "load_signup now i st = Inr s" and c: "complete_check s st = Inr ()" "complete_signup now newId ip s st = Inr st'"
    using assms(1) by (auto simp: with_signup_def complete_signup_def err_simps)
  note s = load_signup_Inr [OF l]
  let ?ds = "update_many (\<lambda>d. doc_ownerSignupId d = Some i) (\<lambda>d. d\<lparr>doc_ownerSignupId := None, doc_ownerUserId := Some newId\<rparr>) (sg_documents st)"
  have st': "sg_documents st' = ?ds"
      "sg_signups st' = update_many (\<lambda>s. su_id s = i) (\<lambda>x. x\<lparr>su_stage := Completed, su_resolvedUserId := Some newId\<rparr>) (sg_signups st)"
    using c(2) s by (auto simp: complete_signup_def complete_commit_def err_simps set_signup_def)
  have only: "x = s" if "x \<in> set (sg_signups st)" "su_id x = i" for x
    using assms(2) s that find_unique_in_distinct [of su_id "sg_signups st" x] by (simp add: signup_inv_def)
  have w: "well_staged (sg_documents st) s" "su_stage s = DocsSubmitted"
    using assms(2) s c(1) by (auto simp: signup_inv_def complete_check_def err_simps dest: find_unique_SomeD)
  have "well_staged ?ds y" if y: "y \<in> set (sg_signups st')" for y
  proof -
    obtain x where x: "x \<in> set (sg_signups st)"
      "y = (if su_id x = i then x\<lparr>su_stage := Completed, su_resolvedUserId := Some newId\<rparr> else x)"
      using y st'(2) by (auto simp: update_many_def)
    show ?thesis
    proof (cases "su_id x = i")
      case True
      then show ?thesis using x only [of x] w by (simp add: well_staged_def stage_simps)
    next
      case False
      then have "well_staged (sg_documents st) x" using x assms(2) by (simp add: signup_inv_def)
      then show ?thesis using x False by (simp add: well_staged_def has_document_mono(3))
    qed
  qed
  moreover have "map su_id (sg_signups st') = map su_id (sg_signups st)" unfolding st' by (rule map_update_many) simp
  ultimately show ?thesis using assms(2) st'(1) by (simp add: signup_inv_def)
qed

lemma signup_step_inv: "signup_step lib cfg st st' \<Longrightarrow> signup_inv st \<Longrightarrow> signup_inv st'"
proof (induction rule: signup_step.induct)
  case (sg_upload now i mb k ty ct sz st st')
  then show ?case using upload_inv by (auto simp: with_signup_def err_simps)
next
  case (sg_resend now i st s rsrc v w st')
  then show ?case using resend_code_frame [OF sg_resend(2)] signup_inv_cong [of st' st] by simp
qed (auto intro: begin_signup_inv send_request_inv verify_request_inv step_handlers_inv complete_inv)

interpretation staged: step_invariant "signup_step lib cfg" signup_inv for lib cfg
  by unfold_locales (rule signup_step_inv)


section \<open>Properties\<close>

text \<open>C15. A signup completes only when all of it was collected: whatever order the requests came in, the
  session that completes was verified, has its date of birth, address, password, passport and both
  sides of the identity document; exactly one user is created, under an address no user had, with
  the chosen password and a pending identity review; the documents become the user's; and the
  session answers no request after that.\<close>

theorem completed_signup_is_complete:
  assumes "(signup_step lib cfg)\<^sup>*\<^sup>* st0 st" "signup_inv st0"
    and "with_signup now i (complete_signup now newId ip) st = Inr st'"
  shows "\<exists>s h. signup_of st i = Some s \<and> su_verifiedAt s \<noteq> None \<and> su_dob s \<noteq> None \<and> su_street s \<noteq> None \<and> su_ssnHash s \<noteq> None \<and>
           has_document i IdFront (sg_documents st) \<and> has_document i IdBack (sg_documents st) \<and>
           su_passwordHash s = Some h \<and> (\<exists>u. sg_users st' = sg_users st @ [u] \<and> u_id u = newId \<and> u_passwordHash u = h \<and>
             Some (u_email u) = su_email s \<and> u_email u \<notin> u_email ` set (sg_users st)) \<and>
           (\<exists>k. sg_kyc st' = sg_kyc st @ [k] \<and> ky_userId k = newId \<and> ky_status k = KycPending) \<and>
           \<not> has_document i IdFront (sg_documents st') \<and> (\<forall>h'. \<not> is_ok (with_signup now' i h' st'))"
proof -
  have inv: "signup_inv st" by (rule staged.history_inv [OF assms(1,2)])
  obtain s where l: "load_signup now i st = Inr s" and chk: "complete_check s st = Inr ()" and c: "complete_signup now newId ip s st = Inr st'"
    using assms(3) by (auto simp: with_signup_def complete_signup_def err_simps)
  note s = load_signup_Inr [OF l]
  have w: "well_staged (sg_documents st) s" "su_stage s = DocsSubmitted" "truthy_str (su_email s)" "truthy_str (su_passwordHash s)"
    using inv s chk by (auto simp: signup_inv_def complete_check_def err_simps dest: find_unique_SomeD)
  have st': "sg_users st' = sg_users st @ [signed_up_user newId s]" "\<exists>k. sg_kyc st' = sg_kyc st @ [k] \<and> ky_userId k = newId \<and> ky_status k = KycPending"
      "sg_documents st' = update_many (\<lambda>d. doc_ownerSignupId d = Some i) (\<lambda>d. d\<lparr>doc_ownerSignupId := None, doc_ownerUserId := Some newId\<rparr>) (sg_documents st)"
      "sg_signups st' = update_many (\<lambda>s. su_id s = i) (\<lambda>x. x\<lparr>su_stage := Completed, su_resolvedUserId := Some newId\<rparr>) (sg_signups st)"
      "find_unique u_email (the (su_email s)) (sg_users st) = None"
    using c s by (auto simp: complete_signup_def complete_commit_def err_simps set_signup_def)
  have "signup_of st' i = Some (s\<lparr>su_stage := Completed, su_resolvedUserId := Some newId\<rparr>)"
    using s by (simp add: st'(4) find_unique_update_many)
  then have "\<not> is_ok (with_signup now' i h' st')" for h'
    by (cases "su_expiresAt s < now'") (simp_all add: with_signup_def load_signup_def)
  moreover have "\<not> has_document i IdFront (sg_documents st')"
    by (auto simp: st'(3) has_document_def list_ex_iff update_many_def split: if_splits)
  ultimately show ?thesis
    using s w st' by (auto simp: well_staged_def stage_simps truthy_str_iff signed_up_user_def find_unique_None_iff)
qed

lemma code_check_Inr:
  "code_check lib cfg now s v code st = Inr (r, b) \<Longrightarrow>
     find_unique vf_id v (sg_verifications st) = Some r \<and> vf_consumedAt r = None \<and> vf_supersededAt r = None \<and>
     vf_attempts r < av_codeMaxAttempts cfg \<and> b = cr_check lib (vf_codeHash r) code"
  by (auto simp: code_check_def owned_verification_def err_simps)

definition code_guess :: "crypto \<Rightarrow> auth_config \<Rightarrow> signup_session \<Rightarrow> string \<Rightarrow> int \<Rightarrow> string \<Rightarrow> signup_state \<Rightarrow> bool \<times> signup_state" where
  "code_guess lib cfg s v now code st = (is_ok (fst (verify_code lib cfg now s v code st)), snd (verify_code lib cfg now s v code st))"

definition code_closed :: "string \<Rightarrow> signup_state \<Rightarrow> bool" where
  "code_closed v st = (case find_unique vf_id v (sg_verifications st) of None \<Rightarrow> True | Some r \<Rightarrow> vf_consumedAt r \<noteq> None)"

definition code_attempts :: "string \<Rightarrow> signup_state \<Rightarrow> int" where
  "code_attempts v st = (case find_unique vf_id v (sg_verifications st) of None \<Rightarrow> 0 | Some r \<Rightarrow> vf_attempts r)"

lemma code_guess_cases:
  "code_guess lib cfg s v now code st = (False, st) \<or>
   (\<exists>r. find_unique vf_id v (sg_verifications st) = Some r \<and> vf_consumedAt r = None \<and> vf_attempts r < av_codeMaxAttempts cfg \<and>
      (code_guess lib cfg s v now code st = (False, set_verification v (\<lambda>x. x\<lparr>vf_attempts := vf_attempts x + 1\<rparr>) st) \<or>
       code_guess lib cfg s v now code st = (True, set_verification v (\<lambda>x. x\<lparr>vf_consumedAt := Some now\<rparr>) st)))"
proof (cases "code_check lib cfg now s v code st")
  case (Inl e)
  then show ?thesis by (simp add: code_guess_def verify_code_def)
next
  case (Inr rb)
  then show ?thesis using code_check_Inr [of lib cfg now s v code st "fst rb" "snd rb"]
    by (cases rb) (auto simp: code_guess_def verify_code_def)
qed

interpretation signup_code: one_time_code "code_guess lib cfg s v" "\<lambda>_. True" "code_closed v" "code_attempts v" "av_codeMaxAttempts cfg"
  for lib cfg s v
proof
  fix now c st
  note cases = code_guess_cases [of lib cfg s v now c st]
  have set: "find_unique vf_id v (sg_verifications (set_verification v f st)) = map_option f (find_unique vf_id v (sg_verifications st))"
    if "\<And>x. vf_id (f x) = vf_id x" for f
    using that by (simp add: set_verification_def find_unique_update_many)
  show "code_guess lib cfg s v now c st = (False, st)" if "code_closed v st \<or> av_codeMaxAttempts cfg \<le> code_attempts v st"
    using cases that by (auto simp: code_closed_def code_attempts_def)
  show "code_closed v (snd (code_guess lib cfg s v now c st))" if "fst (code_guess lib cfg s v now c st)"
    using cases that by (auto simp: code_closed_def set)
  show "snd (code_guess lib cfg s v now c st) = st \<or>
      code_attempts v (snd (code_guess lib cfg s v now c st)) = code_attempts v st + 1"
    if "\<not> fst (code_guess lib cfg s v now c st)"
    using cases that by (auto simp: code_attempts_def set)
qed simp

text \<open>Guessing a signup code: of any sequence of codes presented for a verification at most one is
  accepted, and at most the configured number is compared with the code. Asking for codes faster
  than the cool-down neither sends a message nor renews the attempts.\<close>

theorem signup_code_bounded:
  assumes "code_attempts v st \<le> av_codeMaxAttempts cfg" "0 \<le> code_attempts v st"
  shows "(let (accepted, compared, st') = signup_code.attack lib cfg s v gs st
          in accepted \<le> 1 \<and> int compared \<le> av_codeMaxAttempts cfg) \<and>
         (find_unique vf_id v (sg_verifications st) = Some r \<and> now - vf_createdAt r < av_cooldownSec cfg * 1000 \<and>
            resend_code lib cfg now src s v st = Inr (w, st'') \<longrightarrow> st'' = st \<and> 0 < w)"
proof -
  have "fst (signup_code.attack lib cfg s v gs st) \<le> 1 \<and>
      int (fst (snd (signup_code.attack lib cfg s v gs st))) \<le> av_codeMaxAttempts cfg"
    using signup_code.attack_bound [of v st cfg lib s gs] assms by simp
  then show ?thesis by (auto simp: case_prod_beta resend_code_def owned_verification_def err_simps)
qed


end
