(* ===== verification/Samples_Security.thy ===== *)
theory Samples_Security
  imports Sign_In Signup
begin

text \<open>
  Concrete runs of sign-in, sessions, codes, PINs and signup. The libraries are replaced by small
  functions that satisfy their laws: a token is the text of its payload and expiry, a hash is its
  text.
\<close>

section \<open>A token library\<close>

text \<open>Texts are written with a mark before each character and a mark at the end, so that they can be read
  back from a longer text; numbers are written in binary.\<close>

definition put_text :: "string \<Rightarrow> string" where
  "put_text s = concat (map (\<lambda>c. [CHR ''c'', c]) s) @ ''e''"

fun get_text :: "string \<Rightarrow> string \<times> string" where
  "get_text (m # c # r) = (if m = CHR ''c'' then (let (s, rest) = get_text r in (c # s, rest)) else ([], c # r))"
| "get_text r = ([], [])"

lemma get_put_text [simp]: "get_text (put_text s @ r) = (s, r)"
proof (induction s)
  case Nil
  then show ?case by (cases r) (simp_all add: put_text_def)
next
  case (Cons a s)
  then show ?case by (simp add: put_text_def)
qed

definition put_opt :: "string option \<Rightarrow> string" where
  "put_opt v = (case v of None \<Rightarrow> ''n'' | Some s \<Rightarrow> CHR ''s'' # put_text s)"

definition get_opt :: "string \<Rightarrow> string option \<times> string" where
  "get_opt t = (case t of [] \<Rightarrow> (None, []) | m # r \<Rightarrow> if m = CHR ''n'' then (None, r) else (let (s, rest) = get_text r in (Some s, rest)))"

lemma get_put_opt [simp]: "get_opt (put_opt v @ r) = (v, r)"
  by (cases v) (simp_all add: put_opt_def get_opt_def)

function bits :: "int \<Rightarrow> string" where
  "bits n = (if n \<le> 0 then [] else (if n mod 2 = 0 then CHR ''0'' else CHR ''1'') # bits (n div 2))"
  by auto
termination by (relation "measure nat") auto

declare bits.simps [simp del]

fun unbits :: "string \<Rightarrow> int" where
  "unbits [] = 0"
| "unbits (b # bs) = (if b = CHR ''1'' then 1 else 0) + 2 * unbits bs"

lemma unbits_bits: "0 \<le> n \<Longrightarrow> unbits (bits n) = n"
proof (induction n rule: bits.induct)
  case (1 n)
  show ?case
  proof (cases "n = 0")
    case True
    then show ?thesis by (simp add: bits.simps)
  next
    case False
    then have n: "0 < n" using 1 by simp
    then have "unbits (bits (n div 2)) = n div 2" using 1 by simp
    then show ?thesis using n by (simp add: bits.simps [of n]) presburger
  qed
qed

definition put_int :: "int \<Rightarrow> string" where
  "put_int i = (if i < 0 then ''-'' else ''+'') @ put_text (bits \<bar>i\<bar>)"

definition get_int :: "string \<Rightarrow> int" where
  "get_int t = (case t of [] \<Rightarrow> 0 | m # r \<Rightarrow> (if m = CHR ''-'' then - 1 else 1) * unbits (fst (get_text r)))"

lemma get_put_int [simp]: "get_int (put_int i) = i"
  using get_put_text [of "bits \<bar>i\<bar>" "''''"] unbits_bits [of "\<bar>i\<bar>"]
  by (cases "i < 0") (simp_all add: get_int_def put_int_def)

definition put_claims :: "claims \<Rightarrow> string" where
  "put_claims c = put_opt (jc_sub c) @ put_opt (jc_sid c) @ put_opt (jc_role c) @ put_opt (jc_fam c) @ put_opt (jc_cid c) @
     put_opt (jc_tid c) @ put_opt (jc_scope c) @ put_opt (jc_purpose c) @ put_text (jc_jti c)"

definition get_claims :: "string \<Rightarrow> claims \<times> string" where
  "get_claims t0 =
     (let (a, t1) = get_opt t0; (b, t2) = get_opt t1; (c, t3) = get_opt t2; (d, t4) = get_opt t3; (e, t5) = get_opt t4;
          (f, t6) = get_opt t5; (g, t7) = get_opt t6; (h, t8) = get_opt t7; (j, t9) = get_text t8
      in (\<lparr>jc_sub = a, jc_sid = b, jc_role = c, jc_fam = d, jc_cid = e, jc_tid = f, jc_scope = g, jc_purpose = h, jc_jti = j\<rparr>, t9))"

lemma get_put_claims [simp]: "get_claims (put_claims c @ r) = (c, r)"
  by (simp add: get_claims_def put_claims_def)

definition plain_lib :: crypto where
  "plain_lib = \<lparr>cr_sign = (\<lambda>c t d. put_claims c @ put_int (t div 1000 + d div 1000)),
     cr_verify = (\<lambda>n tok. let (c, r) = get_claims tok in if n div 1000 < get_int r then Some c else None),
     cr_sha256 = (\<lambda>s. s), cr_hmac = (\<lambda>s. s), cr_hash = (\<lambda>salt p. salt @ p),
     cr_check = (\<lambda>h p. drop (length h - length p) h = p)\<rparr>"

lemma plain_lib_laws: "jwt_laws plain_lib" "argon_laws plain_lib"
  by (simp_all add: jwt_laws_def argon_laws_def plain_lib_def)

lemma is_okE: "is_ok r \<Longrightarrow> (\<And>x. r = Inr x \<Longrightarrow> thesis) \<Longrightarrow> thesis"
  by (cases r) simp_all

section \<open>A customer signs in\<close>

definition ann :: login_user where
  "ann = \<lparr>u_id = ''u1'', u_email = ''ann@x'', u_phoneE164 = Some ''+100'', u_novaTag = None, u_firstName = Some ''Ann'', u_lastName = None,
     u_avatarUrl = None, u_role = Customer, u_status = UserActive, u_transfersDisabled = False, u_passwordHash = ''secret'',
     u_transactionPinHash = Some ''4071'', u_securitySetupRequired = False, u_emailNotificationsDisabled = False\<rparr>"

definition desk :: device_context where
  "desk = \<lparr>dx_userAgent = ''Firefox/1'', dx_acceptLanguage = ''en'', dx_timezone = '''', dx_canvasHash = None, dx_ip = ''1.2.3.4''\<rparr>"

definition ann_at_home :: auth_state where
  "ann_at_home = empty_auth\<lparr>sa_users := [ann]\<rparr>"

definition ids1 :: login_ids where
  "ids1 = \<lparr>li_session = (''s1'', ''f1'', ''a1'', ''r1''), li_device = ''d1'', li_code = (''c1'', 7, ''salt''), li_jti = ''j1''\<rparr>"

definition issued :: "(issue_result \<times> auth_state) result" where
  "issued = issueSession plain_lib default_auth_config 1000 (''s1'', ''f1'', ''a1'', ''r1'') ''u1'' ''d1'' (Some ''customer'') ''1.2.3.4'' ann_at_home"

lemma issued_facts:
  "case issued of Inl _ \<Rightarrow> False
   | Inr (r, st) \<Rightarrow> is_ok (fst (rotateRefresh plain_lib default_auth_config 5000 (''a2'', ''r2'') (iss_refreshToken r) st)) \<and>
       (case session_of st ''s1'' of None \<Rightarrow> False
        | Some s \<Rightarrow> live s \<and> se_expiresAt s = 2592001000 \<and> se_lastSeenAt s = 1000)"
  by code_simp

lemma ann_inv: "sessions_inv ann_at_home"
  by (simp add: sessions_inv_def ann_at_home_def empty_auth_def)

lemma issuedE:
  obtains r st s where "issued = Inr (r, st)" "is_ok (fst (rotateRefresh plain_lib default_auth_config 5000 (''a2'', ''r2'') (iss_refreshToken r) st))"
    "session_of st ''s1'' = Some s" "live s" "se_expiresAt s = 2592001000" "se_lastSeenAt s = 1000"
proof (cases issued)
  case (Inl e)
  show ?thesis using issued_facts unfolding Inl by simp
next
  case (Inr p)
  obtain r st where "p = (r, st)" by (cases p)
  with Inr have i: "issued = Inr (r, st)" by simp
  note f = issued_facts [unfolded i, simplified]
  show ?thesis
  proof (cases "session_of st ''s1''")
    case None
    then show ?thesis using f by simp
  next
    case (Some s)
    then show ?thesis using that [OF i] f by simp
  qed
qed

lemma idle_and_ttl: "av_idleMs default_auth_config = 900000" "av_refreshTtl default_auth_config = 2592000000"
    "av_mfaTtlSec default_auth_config = 300" "av_elevationTtl default_auth_config = 300000"
    "av_mfaMaxAttempts default_auth_config = 5"
  by (simp_all add: default_auth_config_def)

theorem single_live_session_witness:
  "\<exists>r st. issued = Inr (r, st) \<and> filter (\<lambda>s. live s \<and> se_userId s = ''u1'') (sa_sessions st) = [iss_session r]"
proof -
  obtain r st s where i: "issued = Inr (r, st)" by (rule issuedE)
  from single_live_session [OF rtranclp.rtrancl_refl ann_inv i [unfolded issued_def]] i show ?thesis by blast
qed

theorem refresh_token_single_use_witness:
  "\<exists>r st r2 st2. issued = Inr (r, st) \<and>
     rotateRefresh plain_lib default_auth_config 5000 (''a2'', ''r2'') (iss_refreshToken r) st = (Inr r2, st2) \<and>
     \<not> is_ok (fst (rotateRefresh plain_lib default_auth_config 6000 (''a3'', ''r3'') (iss_refreshToken r) st2))"
proof -
  obtain r st s where i: "issued = Inr (r, st)"
    and ok: "is_ok (fst (rotateRefresh plain_lib default_auth_config 5000 (''a2'', ''r2'') (iss_refreshToken r) st))" by (rule issuedE)
  have inv: "sessions_inv st" by (rule sessions_inv_issue(1) [OF i [unfolded issued_def] ann_inv])
  obtain r2 st2 where q: "rotateRefresh plain_lib default_auth_config 5000 (''a2'', ''r2'') (iss_refreshToken r) st = (Inr r2, st2)"
    using ok by (cases "rotateRefresh plain_lib default_auth_config 5000 (''a2'', ''r2'') (iss_refreshToken r) st") (auto simp: is_ok_def split: sum.splits)
  obtain res st3 where p: "rotateRefresh plain_lib default_auth_config 6000 (''a3'', ''r3'') (iss_refreshToken r) st2 = (res, st3)"
    by (cases "rotateRefresh plain_lib default_auth_config 6000 (''a3'', ''r3'') (iss_refreshToken r) st2")
  from refresh_token_single_use [OF q inv rtranclp.rtrancl_refl p] have "res \<in> range Inl" by blast
  then have "\<not> is_ok res" by auto
  then have "\<not> is_ok (fst (rotateRefresh plain_lib default_auth_config 6000 (''a3'', ''r3'') (iss_refreshToken r) st2))" unfolding p by simp
  with i q show ?thesis by blast
qed

theorem request_needs_live_session_witness:
  "\<exists>r st. issued = Inr (r, st) \<and>
     fst (validate default_auth_config (\<lambda>_. None) 2000 '''' ((no_claims ''a1'')\<lparr>jc_sub := Some ''u1'', jc_sid := Some ''s1''\<rparr>) st) =
       Inr \<lparr>pr_sub = Some ''u1'', pr_sid = Some ''s1'', pr_role = None\<rparr>"
proof -
  obtain r st s where i: "issued = Inr (r, st)" and s: "session_of st ''s1'' = Some s" "live s" "se_expiresAt s = 2592001000" "se_lastSeenAt s = 1000"
    by (rule issuedE)
  let ?c = "(no_claims ''a1'')\<lparr>jc_sub := Some ''u1'', jc_sid := Some ''s1''\<rparr>"
  have "fst (validate default_auth_config (\<lambda>_. None) 2000 '''' ?c st) = Inr \<lparr>pr_sub = Some ''u1'', pr_sid = Some ''s1'', pr_role = None\<rparr>"
    by (rule request_needs_live_session [THEN conjunct1, THEN iffD2]) (simp add: no_claims_def idle_and_ttl s)
  with i show ?thesis by blast
qed

theorem refresh_token_opens_requests_witness:
  "\<exists>r st. issued = Inr (r, st) \<and>
     fst (authenticate plain_lib default_auth_config (\<lambda>_. None) 2000 '''' (iss_refreshToken r) st) =
       Inr \<lparr>pr_sub = Some ''u1'', pr_sid = Some ''s1'', pr_role = None\<rparr>"
proof -
  obtain r st s where i: "issued = Inr (r, st)" and s: "session_of st ''s1'' = Some s" "live s" "se_expiresAt s = 2592001000" "se_lastSeenAt s = 1000"
    by (rule issuedE)
  have "fst (authenticate plain_lib default_auth_config (\<lambda>_. None) 2000 '''' (iss_refreshToken r) st) =
      Inr \<lparr>pr_sub = Some ''u1'', pr_sid = Some ''s1'', pr_role = None\<rparr>"
    using refresh_token_opens_requests [OF plain_lib_laws(1) i [unfolded issued_def], of st s 2000 "\<lambda>_. None" "''''"] s
    by (simp add: idle_and_ttl)
  with i show ?thesis by blast
qed

definition challenged :: "(mfa_challenge \<times> auth_state) result" where
  "challenged = createEmailChallenge plain_lib default_auth_config 1000 (''c1'', 7, ''salt'') ''u1'' ''ann@x''
     \<lparr>cc_fingerprint = ''fp'', cc_name = ''n'', cc_os = ''o'', cc_browser = ''b'', cc_ip = ''i''\<rparr> ann_at_home"

lemma challenged_ok: "is_ok challenged"
  by code_simp


section \<open>PINs and elevation\<close>


theorem guard_accepts_exactly_witness:
  "is_ok (canActivate plain_lib 2000 (Some CardReveal) (Some (signElevation plain_lib default_auth_config 1000 ''j'' ''u1'' CardReveal)) (Some ''u1'')) \<and>
   \<not> is_ok (canActivate plain_lib 2000 (Some WireCreate) (Some (signElevation plain_lib default_auth_config 1000 ''j'' ''u1'' CardReveal)) (Some ''u1''))"
proof -
  have n: "signElevation plain_lib default_auth_config 1000 ''j'' ''u1'' CardReveal \<noteq> ''''"
    by (simp add: signElevation_def plain_lib_def put_int_def)
  show ?thesis using guard_accepts_exactly [OF plain_lib_laws(1) n] by (simp add: idle_and_ttl)
qed

lemma set_pin_ok: "is_ok (setPin plain_lib ''salt'' ''u1'' ''8302'' (Some ''4071'') None ann_at_home)"
  by code_simp

theorem set_pin_then_verify_witness:
  "\<exists>st. setPin plain_lib ''salt'' ''u1'' ''8302'' (Some ''4071'') None ann_at_home = Inr st \<and>
     fst (verifyPin plain_lib default_auth_config 0 ''j'' ''u1'' ''8302'' CardReveal st) =
       Inr (signElevation plain_lib default_auth_config 0 ''j'' ''u1'' CardReveal)"
proof -
  obtain st where s: "setPin plain_lib ''salt'' ''u1'' ''8302'' (Some ''4071'') None ann_at_home = Inr st"
    using set_pin_ok by (rule is_okE) blast
  show ?thesis using set_pin_then_verify [OF plain_lib_laws(2) s] s by (simp add: plain_lib_def)
qed

section \<open>Passwords and devices\<close>

lemma login_ok: "is_ok (login plain_lib default_auth_config (\<lambda>_. None) 1000 ids1 ''Ann@x'' ''secret'' desk ann_at_home)"
  by code_simp


theorem new_password_ends_sessions_witness:
  "\<exists>st. changePassword plain_lib 2000 ''salt'' ann ''secret'' ''newsecret'' ''s9'' ann_at_home = Inr st \<and>
     (\<exists>x. login_user_of st ''u1'' = Some x \<and> cr_check plain_lib (u_passwordHash x) ''newsecret'')"
proof -
  have u: "login_user_of ann_at_home (u_id ann) = Some ann" by (simp add: ann_at_home_def)
  have c: "\<exists>st. changePassword plain_lib 2000 ''salt'' ann ''secret'' ''newsecret'' ''s9'' ann_at_home = Inr st"
    by (simp add: changePassword_def ann_def plain_lib_def)
  then obtain st where st: "changePassword plain_lib 2000 ''salt'' ann ''secret'' ''newsecret'' ''s9'' ann_at_home = Inr st" by blast
  from new_password_ends_sessions [OF plain_lib_laws(2) u disjI1 [OF st]] st show ?thesis by (auto simp: ann_def)
qed


section \<open>Signup\<close>

definition ready_signup :: signup_session where
  "ready_signup = (new_signup default_auth_config 0 ''s1''
      \<lparr>bi_firstName = ''Bea'', bi_lastName = ''Roe'', bi_email = ''b@x'', bi_phoneE164 = ''+200'', bi_referralCode = None\<rparr>)
     \<lparr>su_stage := DocsSubmitted, su_verifiedAt := Some 1, su_verifiedChannel := Some ChannelEmail, su_dob := Some ''1990-01-01'',
      su_street := Some ''Elm'', su_city := Some ''Ada'', su_state := Some ''OH'', su_zip := Some ''45810'', su_cardChoice := Some ''checking'',
      su_passwordHash := Some ''hash'', su_ssnHash := Some ''h'', su_ssnEncrypted := Some ''e''\<rparr>"

definition id_document :: "string \<Rightarrow> document_type \<Rightarrow> document" where
  "id_document i ty = \<lparr>doc_id = i, doc_ownerSignupId = Some ''s1'', doc_ownerUserId = None, doc_type = ty,
     doc_contentType = ''image/png'', doc_sizeBytes = 10, doc_storageKey = i\<rparr>"

definition ready_state :: signup_state where
  "ready_state = \<lparr>sg_users = [], sg_signups = [ready_signup], sg_verifications = [],
     sg_documents = [id_document ''d1'' IdFront, id_document ''d2'' IdBack], sg_kyc = [], sg_sent = [], sg_events = []\<rparr>"

lemma ready_facts: "signup_inv ready_state" "is_ok (with_signup 1000 ''s1'' (complete_signup 1000 ''u7'' ''ip'') ready_state)"
  by code_simp+

theorem completed_signup_witness:
  "\<exists>st. with_signup 1000 ''s1'' (complete_signup 1000 ''u7'' ''ip'') ready_state = Inr st \<and>
     (\<exists>u. sg_users st = [u] \<and> u_id u = ''u7'') \<and> \<not> has_document ''s1'' IdFront (sg_documents st)"
proof -
  obtain st where c: "with_signup 1000 ''s1'' (complete_signup 1000 ''u7'' ''ip'') ready_state = Inr st"
    using ready_facts(2) by (rule is_okE) blast
  have e: "sg_users ready_state = []" by (simp add: ready_state_def)
  from completed_signup_is_complete [OF rtranclp.rtrancl_refl ready_facts(1) c] show ?thesis using c e by auto
qed


text \<open>A phone number is taken over unverified: when the contact step is repeated with another number, a
  code that went to the first number still verifies the session, and nothing was sent to the second.\<close>

definition takeover :: "crypto \<Rightarrow> auth_config \<Rightarrow> (signup_session \<times> (verification_channel \<times> string \<times> string) list) option" where
  "takeover lib cfg =
     (let contact = (\<lambda>p. \<lparr>bi_firstName = ''Ann'', bi_lastName = ''Lee'', bi_email = ''a@x'', bi_phoneE164 = p, bi_referralCode = None\<rparr>);
          st0 = \<lparr>sg_users = [], sg_signups = [], sg_verifications = [], sg_documents = [], sg_kyc = [], sg_sent = [], sg_events = []\<rparr>
      in case begin_signup cfg 0 ''s1'' (contact ''+100'') st0 of
           Inl _ \<Rightarrow> None
         | Inr (_, st1) \<Rightarrow>
             (case begin_signup cfg 2000 ''s2'' (contact ''+999'') (snd (send_request lib cfg 1000 (''v1'', 42, ''salt'') ''s1'' ChannelSms st1)) of
                Inl _ \<Rightarrow> None
              | Inr (_, st2) \<Rightarrow>
                  (let st3 = snd (send_request lib cfg 3000 (''v2'', 77, ''salt'') ''s1'' ChannelSms st2);
                       st4 = snd (verify_request lib cfg 4000 ''s1'' ''v1'' (six_digits 42) st3)
                   in map_option (\<lambda>s. (s, sg_sent st4)) (signup_of st4 ''s1''))))"

theorem phone_taken_over_unverified:
  "case takeover plain_lib (default_auth_config\<lparr>av_smsToEmail := False\<rparr>) of
     None \<Rightarrow> False
   | Some (s, sent) \<Rightarrow> su_stage s = Verified \<and> su_verifiedChannel s = Some ChannelSms \<and> su_phoneE164 s = Some ''+999'' \<and>
       (\<forall>m \<in> set sent. fst (snd m) \<noteq> ''+999'')"
  by code_simp


end
