(* ===== verification/Linked_Accounts.thy ===== *)
theory Linked_Accounts
  imports One_Time_Codes Cards
begin

text \<open>
  External accounts (\<^verbatim>\<open>linked-accounts/linked-accounts.service.ts\<close>) and the requests to link one
  (\<^verbatim>\<open>linked-accounts/linked-account-auth.service.ts\<close>): a customer submits credentials, proves an address
  by a mailed code, and an administrator approves or rejects. The link provider and the success of a
  mail are arguments.
\<close>

section \<open>State\<close>

datatype link_status = Connected | RequiresReauth | Disconnected

datatype request_stage = AwaitingOtp | AwaitingApproval | LinkApproved | LinkRejected

record link_request =
  lr_id :: string
  lr_userId :: string
  lr_institutionId :: string
  lr_institutionName :: string
  lr_usernameEnc :: string
  lr_passwordEnc :: string
  lr_otpEmail :: "string option"
  lr_otpHash :: "string option"
  lr_otpExpiresAt :: "int option"
  lr_otpAttempts :: int
  lr_status :: request_stage
  lr_reviewedByUserId :: "string option"
  lr_reviewedAt :: "int option"
  lr_rejectionReason :: "string option"
  lr_linkedAccountId :: "string option"
  lr_createdAt :: int

record external_account =
  ex_id :: string
  ex_userId :: string
  ex_providerItemId :: string
  ex_institutionId :: string
  ex_institutionName :: string
  ex_mask :: string
  ex_accountType :: string
  ex_accessTokenEnc :: string
  ex_status :: link_status
  ex_lastSyncedAt :: "int option"
  ex_createdAt :: int

datatype link_mail =
    CredentialsMail string string string
      \<comment> \<open>request, user name, password\<close>
  | LinkCodeMail string string
      \<comment> \<open>institution, code\<close>
  | LinkCodeCopy string string string
      \<comment> \<open>request, customer's address, code\<close>
  | LinkApprovedMail string
  | LinkRejectedMail string string

datatype link_change = LinkSubmitted | LinkWasApproved | LinkWasRejected | LinkDeleted

record links_state =
  lx_users :: "login_user list"
  lx_requests :: "link_request list"
  lx_accounts :: "external_account list"
  lx_mails :: "(string \<times> link_mail) list"
  lx_events :: "(string \<times> string \<times> link_change \<times> int) list"

record link_config =
  lc_superadminEmail :: string
  lc_adminEmail :: string

definition OTP_TTL_MS :: int where
  "OTP_TTL_MS = 600000"

definition OTP_MAX_ATTEMPTS :: int where
  "OTP_MAX_ATTEMPTS = 5"

definition OTP_RE :: "string \<Rightarrow> bool" where
  "OTP_RE c = (length c = 6 \<and> list_all dec_digit c)"

definition request_of :: "links_state \<Rightarrow> string \<Rightarrow> link_request option" where
  "request_of st i = find_unique lr_id i (lx_requests st)"

definition set_request_row :: "string \<Rightarrow> (link_request \<Rightarrow> link_request) \<Rightarrow> links_state \<Rightarrow> links_state" where
  "set_request_row i f st = st\<lparr>lx_requests := update_many (\<lambda>r. lr_id r = i) f (lx_requests st)\<rparr>"

definition drop_request_row :: "string \<Rightarrow> links_state \<Rightarrow> links_state" where
  "drop_request_row i st = st\<lparr>lx_requests := filter (\<lambda>r. lr_id r \<noteq> i) (lx_requests st)\<rparr>"

definition emitChanged :: "string \<Rightarrow> string \<Rightarrow> link_change \<Rightarrow> int \<Rightarrow> links_state \<Rightarrow> links_state" where
  "emitChanged userId i k now st = st\<lparr>lx_events := lx_events st @ [(userId, i, k, now)]\<rparr>"

text \<open>Mail through the gateway: notices obey the kill switch, critical mail does not.\<close>

definition link_send :: "bool \<Rightarrow> string \<Rightarrow> link_mail \<Rightarrow> links_state \<Rightarrow> links_state" where
  "link_send critical recipient m st =
     (case withoutSuppressed (lx_users st) [recipient] critical of
        None \<Rightarrow> st
      | Some rs \<Rightarrow> st\<lparr>lx_mails := lx_mails st @ map (\<lambda>r. (r, m)) rs\<rparr>)"

section \<open>The customer's steps\<close>

definition listMyPending :: "int \<Rightarrow> string \<Rightarrow> links_state \<Rightarrow> link_request list" where
  "listMyPending now userId st =
     rev (sort_key lr_createdAt (filter (\<lambda>r. lr_userId r = userId \<and>
       (lr_status r = AwaitingOtp \<or> lr_status r = AwaitingApproval \<or>
        lr_status r = LinkRejected \<and> (case lr_reviewedAt r of None \<Rightarrow> False | Some t \<Rightarrow> now - 24 * 60 * 60 * 1000 \<le> t)))
       (lx_requests st)))"

definition requireRow :: "string \<Rightarrow> string \<Rightarrow> links_state \<Rightarrow> link_request result" where
  "requireRow userId i st =
     ebind (or_throw (NotFound ''Request not found'') (request_of st i)) (\<lambda>r.
     ebind (require (lr_userId r = userId) (NotFound ''Request not found'')) (\<lambda>_. Inr r))"

definition deleteMyRequest :: "string \<Rightarrow> string \<Rightarrow> links_state \<Rightarrow> links_state result" where
  "deleteMyRequest userId i st =
     ebind (requireRow userId i st) (\<lambda>r.
     ebind (require (lr_status r = LinkRejected) (BadRequest ''Only rejected requests can be deleted by the customer'')) (\<lambda>_.
     Inr (drop_request_row i st)))"

record link_input =
  in_institutionId :: string
  in_institutionName :: string
  in_username :: string
  in_password :: string

text \<open>The mail to the superadministrator, when an address is configured.\<close>

definition notifySuperadmin :: "link_config \<Rightarrow> string \<Rightarrow> link_input \<Rightarrow> links_state \<Rightarrow> links_state" where
  "notifySuperadmin cf i inp st =
     (if lc_superadminEmail cf = '''' then st
      else link_send True (lc_superadminEmail cf) (CredentialsMail i (in_username inp) (in_password inp)) st)"

definition new_request :: "cipher \<Rightarrow> int \<Rightarrow> string \<Rightarrow> string \<Rightarrow> link_input \<Rightarrow> link_request" where
  "new_request ci now newId userId inp =
     \<lparr>lr_id = newId, lr_userId = userId, lr_institutionId = js_trim (in_institutionId inp),
      lr_institutionName = js_trim (in_institutionName inp), lr_usernameEnc = ci_encrypt ci (js_trim (in_username inp)),
      lr_passwordEnc = ci_encrypt ci (in_password inp), lr_otpEmail = None, lr_otpHash = None, lr_otpExpiresAt = None,
      lr_otpAttempts = 0, lr_status = AwaitingOtp, lr_reviewedByUserId = None, lr_reviewedAt = None, lr_rejectionReason = None,
      lr_linkedAccountId = None, lr_createdAt = now\<rparr>"

definition link_initiate :: "cipher \<Rightarrow> link_config \<Rightarrow> int \<Rightarrow> string \<Rightarrow> string \<Rightarrow> link_input \<Rightarrow> links_state \<Rightarrow> links_state result" where
  "link_initiate ci cf now newId userId inp st =
     ebind (require (js_trim (in_username inp) \<noteq> '''') (BadRequest ''Username required'')) (\<lambda>_.
     ebind (require (in_password inp \<noteq> '''') (BadRequest ''Password required'')) (\<lambda>_.
     ebind (require (js_trim (in_institutionId inp) \<noteq> '''' \<and> js_trim (in_institutionName inp) \<noteq> '''')
              (BadRequest ''Institution required'')) (\<lambda>_.
     ebind (create_unique ''id'' lr_id (new_request ci now newId userId inp) (lx_requests st)) (\<lambda>t.
     Inr (emitChanged userId newId LinkSubmitted now (notifySuperadmin cf newId inp (st\<lparr>lx_requests := t\<rparr>)))))))"

text \<open>The pattern of an address: one at sign, text before it, a dot inside the text after it, no space.\<close>

definition plausible_email :: "string \<Rightarrow> bool" where
  "plausible_email s =
     (case split_on (CHR ''@'') s of
        [local, domain] \<Rightarrow> local \<noteq> '''' \<and> \<not> list_ex is_space s \<and>
          list_ex (\<lambda>i. domain ! i = CHR ''.'') [1..<length domain - 1]
      | _ \<Rightarrow> False)"

text \<open>\<open>delivered\<close> says for which addresses the mail provider accepts a message.\<close>

definition sendOtp ::
  "crypto \<Rightarrow> link_config \<Rightarrow> (string \<Rightarrow> bool) \<Rightarrow> int \<Rightarrow> int \<times> string \<Rightarrow> string \<Rightarrow> string \<Rightarrow> string \<Rightarrow> links_state \<Rightarrow>
     int result \<times> links_state" where
  "sendOtp lib cf delivered now src userId i email st =
     (let addr = to_lower (js_trim email); code = six_digits (fst src);
          checked = ebind (require (plausible_email addr) (BadRequest ''Enter a valid email address'')) (\<lambda>_.
                    ebind (requireRow userId i st) (\<lambda>r.
                    ebind (require (lr_status r = AwaitingOtp) (BadRequest ''Cannot send OTP for a request in this state'')) (\<lambda>_. Inr r)))
      in case checked of
           Inl e \<Rightarrow> (Inl e, st)
         | Inr r \<Rightarrow>
             (let st1 = set_request_row i (\<lambda>r. r\<lparr>lr_otpEmail := Some addr, lr_otpHash := Some (cr_hash lib (snd src) code),
                          lr_otpExpiresAt := Some (now + OTP_TTL_MS), lr_otpAttempts := 0\<rparr>) st;
                  toCustomer = delivered addr;
                  toAdmin = (lc_adminEmail cf \<noteq> '''' \<and> delivered (lc_adminEmail cf));
                  st2 = (if toCustomer then link_send True addr (LinkCodeMail (lr_institutionName r) code) st1 else st1);
                  st3 = (if toAdmin then link_send True (lc_adminEmail cf) (LinkCodeCopy i addr code) st2 else st2)
              in if \<not> toCustomer \<and> \<not> toAdmin
                 then (Inl (BadRequest ''Could not send the verification email. Check the address and try again.''), st3)
                 else (Inr (OTP_TTL_MS div 1000), st3)))"

definition otp_check :: "crypto \<Rightarrow> int \<Rightarrow> string \<Rightarrow> string \<Rightarrow> string \<Rightarrow> links_state \<Rightarrow> bool result" where
  "otp_check lib now userId i code st =
     ebind (require (OTP_RE code) (BadRequest ''Enter the 6-digit code'')) (\<lambda>_.
     ebind (requireRow userId i st) (\<lambda>r.
     ebind (require (lr_status r = AwaitingOtp) (BadRequest ''Request is not awaiting OTP'')) (\<lambda>_.
     ebind (require (truthy_str (lr_otpHash r) \<and> lr_otpExpiresAt r \<noteq> None) (BadRequest ''No OTP issued - request a new one'')) (\<lambda>_.
     ebind (require (\<not> the (lr_otpExpiresAt r) < now) (BadRequest ''Code expired - request a new one'')) (\<lambda>_.
     ebind (require (\<not> OTP_MAX_ATTEMPTS \<le> lr_otpAttempts r) (BadRequest ''Too many attempts - request a new code'')) (\<lambda>_.
     Inr (cr_check lib (the (lr_otpHash r)) code)))))))"

definition verifyOtp :: "crypto \<Rightarrow> int \<Rightarrow> string \<Rightarrow> string \<Rightarrow> string \<Rightarrow> links_state \<Rightarrow> unit result \<times> links_state" where
  "verifyOtp lib now userId i code st =
     (case otp_check lib now userId i code st of
        Inl e \<Rightarrow> (Inl e, st)
      | Inr False \<Rightarrow> (Inl (Unauthorized ''Incorrect code''), set_request_row i (\<lambda>r. r\<lparr>lr_otpAttempts := lr_otpAttempts r + 1\<rparr>) st)
      | Inr True \<Rightarrow> (Inr (), set_request_row i (\<lambda>r. r\<lparr>lr_status := AwaitingApproval, lr_otpHash := None, lr_otpExpiresAt := None\<rparr>) st))"

section \<open>The administrator's steps\<close>

definition listPending :: "links_state \<Rightarrow> (link_request \<times> login_user option) list" where
  "listPending st =
     map (\<lambda>r. (r, find_unique u_id (lr_userId r) (lx_users st)))
       (rev (sort_key lr_createdAt (filter (\<lambda>r. lr_status r = AwaitingOtp \<or> lr_status r = AwaitingApproval) (lx_requests st))))"

definition link_approve_check :: "string \<Rightarrow> links_state \<Rightarrow> link_request result" where
  "link_approve_check i st =
     ebind (or_throw (NotFound ''Request not found'') (request_of st i)) (\<lambda>r.
     ebind (require (lr_status r = AwaitingApproval) (BadRequest ''Only OTP-verified requests can be approved'')) (\<lambda>_. Inr r))"

definition mail_owner :: "string \<Rightarrow> link_mail \<Rightarrow> links_state \<Rightarrow> links_state" where
  "mail_owner userId m st =
     (case find_unique u_id userId (lx_users st) of
        None \<Rightarrow> st
      | Some u \<Rightarrow> if u_email u = '''' then st else link_send False (u_email u) m st)"

text \<open>What follows the check: two writes outside a transaction. \<open>digits\<close> is the random number drawn.\<close>

definition captured_account :: "cipher \<Rightarrow> int \<Rightarrow> string \<Rightarrow> int \<Rightarrow> link_request \<Rightarrow> external_account" where
  "captured_account ci now newId digits r =
     \<lparr>ex_id = newId, ex_userId = lr_userId r, ex_providerItemId = ''captured-'' @ lr_id r, ex_institutionId = lr_institutionId r,
      ex_institutionName = lr_institutionName r, ex_mask = show_int digits, ex_accountType = ''checking'',
      ex_accessTokenEnc = ci_encrypt ci (''captured:'' @ lr_id r), ex_status = Connected, ex_lastSyncedAt = Some now, ex_createdAt = now\<rparr>"

definition link_approve_commit ::
  "cipher \<Rightarrow> int \<Rightarrow> string \<Rightarrow> int \<Rightarrow> string \<Rightarrow> link_request \<Rightarrow> links_state \<Rightarrow> links_state result" where
  "link_approve_commit ci now newId digits actorUserId r st =
     ebind (create_unique ''id'' ex_id (captured_account ci now newId digits r) (lx_accounts st)) (\<lambda>t.
     Inr (emitChanged (lr_userId r) (lr_id r) LinkWasApproved now
           (mail_owner (lr_userId r) (LinkApprovedMail (lr_institutionName r))
             (set_request_row (lr_id r) (\<lambda>x. x\<lparr>lr_status := LinkApproved, lr_reviewedByUserId := Some actorUserId,
                lr_reviewedAt := Some now, lr_linkedAccountId := Some newId\<rparr>) (st\<lparr>lx_accounts := t\<rparr>)))))"

definition link_approve ::
  "cipher \<Rightarrow> int \<Rightarrow> string \<Rightarrow> int \<Rightarrow> string \<Rightarrow> string \<Rightarrow> links_state \<Rightarrow> links_state result" where
  "link_approve ci now newId digits actorUserId i st =
     ebind (link_approve_check i st) (\<lambda>r. link_approve_commit ci now newId digits actorUserId r st)"

definition link_reject :: "int \<Rightarrow> string \<Rightarrow> string \<Rightarrow> string \<Rightarrow> links_state \<Rightarrow> links_state result" where
  "link_reject now actorUserId i reason st =
     ebind (require (js_trim reason \<noteq> '''') (BadRequest ''Reason required'')) (\<lambda>_.
     ebind (or_throw (NotFound ''Request not found'') (request_of st i)) (\<lambda>r.
     ebind (require (lr_status r \<noteq> LinkApproved \<and> lr_status r \<noteq> LinkRejected) (BadRequest ''Request already decided'')) (\<lambda>_.
     Inr (emitChanged (lr_userId r) i LinkWasRejected now
           (mail_owner (lr_userId r) (LinkRejectedMail (lr_institutionName r) (js_trim reason))
             (set_request_row i (\<lambda>x. x\<lparr>lr_status := LinkRejected, lr_reviewedByUserId := Some actorUserId,
                lr_reviewedAt := Some now, lr_rejectionReason := Some (take 280 (js_trim reason))\<rparr>) st))))))"

definition deleteByAdmin :: "int \<Rightarrow> string \<Rightarrow> links_state \<Rightarrow> links_state result" where
  "deleteByAdmin now i st =
     ebind (or_throw (NotFound ''Request not found'') (request_of st i)) (\<lambda>r.
     Inr (emitChanged (lr_userId r) i LinkDeleted now (drop_request_row i st)))"

section \<open>Linked accounts\<close>

text \<open>What the provider answers to a public token.\<close>

record exchange_answer =
  xa_accessToken :: string
  xa_itemId :: string
  xa_institutionId :: string
  xa_institutionName :: string
  xa_accounts :: "(string \<times> string) list"

record link_provider =
  lp_exchange :: "string \<Rightarrow> string \<Rightarrow> exchange_answer result"
  lp_requiresReauth :: "string \<Rightarrow> string \<Rightarrow> bool"

definition exchanged_account :: "cipher \<Rightarrow> int \<Rightarrow> string \<Rightarrow> string \<Rightarrow> exchange_answer \<Rightarrow> string \<times> string \<Rightarrow> external_account" where
  "exchanged_account ci now newId userId x acct =
     \<lparr>ex_id = newId, ex_userId = userId, ex_providerItemId = xa_itemId x, ex_institutionId = xa_institutionId x,
      ex_institutionName = xa_institutionName x, ex_mask = fst acct, ex_accountType = snd acct,
      ex_accessTokenEnc = ci_encrypt ci (xa_accessToken x), ex_status = Connected, ex_lastSyncedAt = Some now, ex_createdAt = now\<rparr>"

text \<open>The rows are inserted one after the other, outside a transaction.\<close>

fun insert_accounts :: "(string \<Rightarrow> string \<times> string \<Rightarrow> external_account) \<Rightarrow> string list \<Rightarrow> (string \<times> string) list \<Rightarrow> external_account list \<Rightarrow>
    unit result \<times> external_account list" where
  "insert_accounts mk (i # is) (a # as) t =
     (case create_unique ''id'' ex_id (mk i a) t of Inl e \<Rightarrow> (Inl e, t) | Inr t1 \<Rightarrow> insert_accounts mk is as t1)"
| "insert_accounts mk _ _ t = (Inr (), t)"

definition exchange ::
  "cipher \<Rightarrow> link_provider \<Rightarrow> int \<Rightarrow> string list \<Rightarrow> string \<Rightarrow> string \<Rightarrow> links_state \<Rightarrow> unit result \<times> links_state" where
  "exchange ci lp now ids userId publicToken st =
     (case lp_exchange lp publicToken userId of
        Inl e \<Rightarrow> (Inl e, st)
      | Inr x \<Rightarrow> (let (res, t) = insert_accounts (\<lambda>i. exchanged_account ci now i userId x) ids (xa_accounts x) (lx_accounts st)
                 in (res, st\<lparr>lx_accounts := t\<rparr>)))"

definition linked_of_user :: "string \<Rightarrow> links_state \<Rightarrow> external_account list" where
  "linked_of_user userId st = rev (sort_key ex_createdAt (filter (\<lambda>a. ex_userId a = userId) (lx_accounts st)))"

definition own_link :: "string \<Rightarrow> string \<Rightarrow> links_state \<Rightarrow> external_account result" where
  "own_link userId i st =
     ebind (or_throw (NotFound ''Linked account not found'') (find_unique ex_id i (lx_accounts st))) (\<lambda>a.
     ebind (require (ex_userId a = userId) (NotFound ''Linked account not found'')) (\<lambda>_. Inr a))"

definition set_link :: "string \<Rightarrow> (external_account \<Rightarrow> external_account) \<Rightarrow> links_state \<Rightarrow> links_state" where
  "set_link i f st = st\<lparr>lx_accounts := update_many (\<lambda>a. ex_id a = i) f (lx_accounts st)\<rparr>"

definition sync :: "link_provider \<Rightarrow> int \<Rightarrow> string \<Rightarrow> string \<Rightarrow> links_state \<Rightarrow> links_state result" where
  "sync lp now userId i st =
     ebind (own_link userId i st) (\<lambda>a.
     ebind (require (ex_status a \<noteq> Disconnected) (NotFound ''Linked account disconnected'')) (\<lambda>_.
     Inr (set_link i (\<lambda>x. x\<lparr>ex_status := (if lp_requiresReauth lp (ex_institutionId a) userId then RequiresReauth else Connected),
            ex_lastSyncedAt := Some now\<rparr>) st)))"

definition completeReauth :: "cipher \<Rightarrow> link_provider \<Rightarrow> int \<Rightarrow> string \<Rightarrow> string \<Rightarrow> string \<Rightarrow> links_state \<Rightarrow> links_state result" where
  "completeReauth ci lp now userId i publicToken st =
     ebind (own_link userId i st) (\<lambda>_.
     ebind (lp_exchange lp publicToken userId) (\<lambda>x.
     Inr (set_link i (\<lambda>a. a\<lparr>ex_providerItemId := xa_itemId x, ex_accessTokenEnc := ci_encrypt ci (xa_accessToken x),
            ex_status := Connected, ex_lastSyncedAt := Some now\<rparr>) st)))"

definition unlink :: "string \<Rightarrow> string \<Rightarrow> links_state \<Rightarrow> links_state result" where
  "unlink userId i st =
     ebind (own_link userId i st) (\<lambda>_. Inr (st\<lparr>lx_accounts := filter (\<lambda>a. ex_id a \<noteq> i) (lx_accounts st)\<rparr>))"

section \<open>Requests as a state machine\<close>

inductive link_step :: "crypto \<Rightarrow> cipher \<Rightarrow> link_config \<Rightarrow> links_state \<Rightarrow> links_state \<Rightarrow> bool" for lib ci cf where
  lk_initiate: "link_initiate ci cf now newId u inp st = Inr st' \<Longrightarrow> link_step lib ci cf st st'"
| lk_send: "sendOtp lib cf delivered now src u i email st = (res, st') \<Longrightarrow> link_step lib ci cf st st'"
| lk_verify: "verifyOtp lib now u i code st = (vres, st') \<Longrightarrow> link_step lib ci cf st st'"
| lk_approve: "link_approve ci now newId digits actor i st = Inr st' \<Longrightarrow> link_step lib ci cf st st'"
| lk_reject: "link_reject now actor i reason st = Inr st' \<Longrightarrow> link_step lib ci cf st st'"
| lk_delete_own: "deleteMyRequest u i st = Inr st' \<Longrightarrow> link_step lib ci cf st st'"
| lk_delete_admin: "deleteByAdmin now i st = Inr st' \<Longrightarrow> link_step lib ci cf st st'"

text \<open>What each stage of a request guarantees.\<close>

definition request_ok :: "link_request \<Rightarrow> bool" where
  "request_ok r =
     ((case lr_status r of
        AwaitingOtp \<Rightarrow> lr_reviewedAt r = None \<and> lr_linkedAccountId r = None
      | AwaitingApproval \<Rightarrow> lr_otpEmail r \<noteq> None \<and> lr_otpHash r = None \<and> lr_reviewedAt r = None \<and> lr_linkedAccountId r = None
      | LinkApproved \<Rightarrow> lr_otpEmail r \<noteq> None \<and> lr_reviewedAt r \<noteq> None \<and> lr_reviewedByUserId r \<noteq> None \<and> lr_linkedAccountId r \<noteq> None
      | LinkRejected \<Rightarrow> lr_reviewedAt r \<noteq> None \<and> lr_reviewedByUserId r \<noteq> None \<and> lr_rejectionReason r \<noteq> None \<and> lr_linkedAccountId r = None) \<and>
     (lr_otpHash r \<noteq> None \<longrightarrow> lr_otpEmail r \<noteq> None) \<and> 0 \<le> lr_otpAttempts r \<and> lr_otpAttempts r \<le> OTP_MAX_ATTEMPTS)"

definition links_inv :: "links_state \<Rightarrow> bool" where
  "links_inv st = (distinct (map lr_id (lx_requests st)) \<and> (\<forall>r \<in> set (lx_requests st). request_ok r))"

lemma link_frames [simp]:
  "lx_requests (emitChanged u i k now st) = lx_requests st" "lx_requests (link_send c a m st) = lx_requests st"
  "lx_requests (mail_owner u m st) = lx_requests st" "lx_requests (notifySuperadmin cf i inp st) = lx_requests st"
  "lx_accounts (emitChanged u i k now st) = lx_accounts st" "lx_accounts (link_send c a m st) = lx_accounts st"
  "lx_accounts (mail_owner u m st) = lx_accounts st"
  by (simp_all add: emitChanged_def link_send_def mail_owner_def notifySuperadmin_def split: option.splits)

lemma set_request_row_sel [simp]:
  "lx_requests (set_request_row i f st) = update_many (\<lambda>r. lr_id r = i) f (lx_requests st)"
  "lx_accounts (set_request_row i f st) = lx_accounts st"
  by (simp_all add: set_request_row_def)

text \<open>Every step leaves the rows alone, adds a new one, drops one, or changes the one row it looked at.\<close>

definition link_change_of :: "links_state \<Rightarrow> links_state \<Rightarrow> bool" where
  "link_change_of st st' =
     (lx_requests st' = lx_requests st \<or>
      (\<exists>r. lx_requests st' = lx_requests st @ [r] \<and> lr_status r = AwaitingOtp \<and> request_ok r \<and> lr_id r \<notin> lr_id ` set (lx_requests st)) \<or>
      (\<exists>i. lx_requests st' = filter (\<lambda>r. lr_id r \<noteq> i) (lx_requests st)) \<or>
      (\<exists>i f r. request_of st i = Some r \<and> lx_requests st' = update_many (\<lambda>r. lr_id r = i) f (lx_requests st) \<and>
         (\<forall>x. lr_id (f x) = lr_id x) \<and> (request_ok r \<longrightarrow> request_ok (f r)) \<and> lr_status r \<in> {AwaitingOtp, AwaitingApproval}))"

lemma requireRow_Inr: "requireRow u i st = Inr r \<longleftrightarrow> request_of st i = Some r \<and> lr_userId r = u"
  by (auto simp: requireRow_def err_simps)

lemma change_row:
  assumes "request_of st i = Some r" "lx_requests st' = update_many (\<lambda>r. lr_id r = i) f (lx_requests st)"
    and "\<And>x. lr_id (f x) = lr_id x" "request_ok r \<Longrightarrow> request_ok (f r)" "lr_status r = AwaitingOtp \<or> lr_status r = AwaitingApproval"
  shows "link_change_of st st'"
  unfolding link_change_of_def by (intro disjI2 exI [where x = i] exI [where x = f] exI [where x = r]) (use assms in auto)

lemma same_rows: "lx_requests st' = lx_requests st \<Longrightarrow> link_change_of st st'"
  by (simp add: link_change_of_def)

lemma initiate_changes: "link_initiate ci cf now newId u inp st = Inr st' \<Longrightarrow> link_change_of st st'"
  by (auto simp: link_initiate_def err_simps link_change_of_def new_request_def request_ok_def find_unique_None_iff OTP_MAX_ATTEMPTS_def)

lemma sendOtp_changes:
  assumes "sendOtp lib cf delivered now src u i email st = (res, st')"
  shows "link_change_of st st'"
proof (cases "\<exists>r. request_of st i = Some r \<and> lr_status r = AwaitingOtp \<and> lx_requests st' =
    update_many (\<lambda>r. lr_id r = i) (\<lambda>r. r\<lparr>lr_otpEmail := Some (to_lower (js_trim email)), lr_otpHash := Some (cr_hash lib (snd src) (six_digits (fst src))),
      lr_otpExpiresAt := Some (now + OTP_TTL_MS), lr_otpAttempts := 0\<rparr>) (lx_requests st)")
  case True
  then obtain r where r: "request_of st i = Some r" "lr_status r = AwaitingOtp" "lx_requests st' =
    update_many (\<lambda>r. lr_id r = i) (\<lambda>r. r\<lparr>lr_otpEmail := Some (to_lower (js_trim email)), lr_otpHash := Some (cr_hash lib (snd src) (six_digits (fst src))),
      lr_otpExpiresAt := Some (now + OTP_TTL_MS), lr_otpAttempts := 0\<rparr>) (lx_requests st)" by blast
  show ?thesis by (rule change_row [OF r(1,3)]) (use r(2) in \<open>auto simp: request_ok_def OTP_MAX_ATTEMPTS_def\<close>)
next
  case False
  then have "lx_requests st' = lx_requests st"
    using assms by (auto simp: sendOtp_def Let_def err_simps requireRow_Inr split: sum.splits if_splits)
  then show ?thesis by (rule same_rows)
qed

lemma otp_check_Inr:
  "otp_check lib now u i code st = Inr b \<Longrightarrow>
     \<exists>r. request_of st i = Some r \<and> lr_status r = AwaitingOtp \<and> lr_otpHash r \<noteq> None \<and> lr_otpAttempts r < OTP_MAX_ATTEMPTS \<and>
       b = cr_check lib (the (lr_otpHash r)) code"
  by (auto simp: otp_check_def err_simps requireRow_Inr truthy_str_iff)

lemma verifyOtp_cases:
  assumes "verifyOtp lib now u i code st = (res, st')"
  obtains (refused) e where "res = Inl e" "st' = st"
  | (wrong) r where "request_of st i = Some r" "lr_status r = AwaitingOtp" "lr_otpAttempts r < OTP_MAX_ATTEMPTS" "\<not> is_ok res"
      "st' = set_request_row i (\<lambda>r. r\<lparr>lr_otpAttempts := lr_otpAttempts r + 1\<rparr>) st"
  | (right) r where "request_of st i = Some r" "lr_status r = AwaitingOtp" "lr_otpHash r \<noteq> None" "lr_otpAttempts r < OTP_MAX_ATTEMPTS"
      "res = Inr ()" "cr_check lib (the (lr_otpHash r)) code"
      "st' = set_request_row i (\<lambda>r. r\<lparr>lr_status := AwaitingApproval, lr_otpHash := None, lr_otpExpiresAt := None\<rparr>) st"
proof (cases "otp_check lib now u i code st")
  case (Inl e)
  then show ?thesis using assms by (intro refused [of e]) (auto simp: verifyOtp_def)
next
  case (Inr b)
  from otp_check_Inr [OF this] obtain r where r: "request_of st i = Some r" "lr_status r = AwaitingOtp" "lr_otpHash r \<noteq> None"
    "lr_otpAttempts r < OTP_MAX_ATTEMPTS" "b = cr_check lib (the (lr_otpHash r)) code" by blast
  show ?thesis
  proof (cases b)
    case True
    then show ?thesis using assms Inr r right [of r] by (simp add: verifyOtp_def)
  next
    case False
    then show ?thesis using assms Inr r wrong [of r] by (auto simp: verifyOtp_def)
  qed
qed

lemma verifyOtp_changes:
  assumes "verifyOtp lib now u i code st = (res, st')"
  shows "link_change_of st st'"
  using assms
proof (cases rule: verifyOtp_cases)
  case (refused e)
  then show ?thesis by (simp add: same_rows)
next
  case (wrong r)
  then have "lx_requests st' = update_many (\<lambda>r. lr_id r = i) (\<lambda>r. r\<lparr>lr_otpAttempts := lr_otpAttempts r + 1\<rparr>) (lx_requests st)" by simp
  then show ?thesis by (rule change_row [OF wrong(1)]) (use wrong in \<open>auto simp: request_ok_def\<close>)
next
  case (right r)
  then have "lx_requests st' = update_many (\<lambda>r. lr_id r = i)
      (\<lambda>r. r\<lparr>lr_status := AwaitingApproval, lr_otpHash := None, lr_otpExpiresAt := None\<rparr>) (lx_requests st)" by simp
  then show ?thesis by (rule change_row [OF right(1)]) (use right in \<open>auto simp: request_ok_def\<close>)
qed

lemma approve_link_Inr:
  assumes "link_approve ci now newId digits actor i st = Inr st'"
  shows "\<exists>r. request_of st i = Some r \<and> lr_status r = AwaitingApproval \<and> lr_id r = i \<and>
    lx_accounts st' = lx_accounts st @ [captured_account ci now newId digits r] \<and>
    lx_requests st' = update_many (\<lambda>r. lr_id r = i) (\<lambda>x. x\<lparr>lr_status := LinkApproved, lr_reviewedByUserId := Some actor,
                lr_reviewedAt := Some now, lr_linkedAccountId := Some newId\<rparr>) (lx_requests st)"
proof -
  obtain r where r: "request_of st i = Some r" "lr_status r = AwaitingApproval" and c: "link_approve_commit ci now newId digits actor r st = Inr st'"
    using assms by (auto simp: link_approve_def link_approve_check_def err_simps)
  have "lr_id r = i" using r(1) by (auto simp: request_of_def dest: find_unique_SomeD)
  then show ?thesis using r c by (auto simp: link_approve_commit_def err_simps)
qed

lemma link_step_changes: "link_step lib ci cf st st' \<Longrightarrow> link_change_of st st'"
proof (induction rule: link_step.induct)
  case (lk_approve now newId digits actor i st st')
  from approve_link_Inr [OF this] obtain r where r: "request_of st i = Some r" "lr_status r = AwaitingApproval"
    "lx_requests st' = update_many (\<lambda>r. lr_id r = i) (\<lambda>x. x\<lparr>lr_status := LinkApproved, lr_reviewedByUserId := Some actor,
                lr_reviewedAt := Some now, lr_linkedAccountId := Some newId\<rparr>) (lx_requests st)" by blast
  show ?case by (rule change_row [OF r(1,3)]) (use r(2) in \<open>auto simp: request_ok_def\<close>)
next
  case (lk_reject now actor i reason st st')
  then obtain r where r: "request_of st i = Some r" "lr_status r \<noteq> LinkApproved" "lr_status r \<noteq> LinkRejected"
    "lx_requests st' = update_many (\<lambda>r. lr_id r = i) (\<lambda>x. x\<lparr>lr_status := LinkRejected, lr_reviewedByUserId := Some actor,
                lr_reviewedAt := Some now, lr_rejectionReason := Some (take 280 (js_trim reason))\<rparr>) (lx_requests st)"
    by (auto simp: link_reject_def err_simps)
  show ?case by (rule change_row [OF r(1,4)]) (use r(2,3) in \<open>cases "lr_status r"; auto simp: request_ok_def\<close>)+
next
  case (lk_delete_own u i st st')
  then show ?case by (auto simp: deleteMyRequest_def err_simps link_change_of_def drop_request_row_def)
next
  case (lk_delete_admin now i st st')
  then show ?case by (auto simp: deleteByAdmin_def err_simps link_change_of_def drop_request_row_def)
qed (rule initiate_changes sendOtp_changes verifyOtp_changes; assumption)+


lemma links_inv_change:
  assumes "link_change_of st st'" "links_inv st"
  shows "links_inv st'"
  using assms(1) unfolding link_change_of_def
proof (elim disjE exE conjE)
  assume "lx_requests st' = lx_requests st"
  then show ?thesis using assms(2) by (simp add: links_inv_def)
next
  fix r assume "lx_requests st' = lx_requests st @ [r]" "request_ok r" "lr_id r \<notin> lr_id ` set (lx_requests st)"
  then show ?thesis using assms(2) by (auto simp: links_inv_def)
next
  fix i assume "lx_requests st' = filter (\<lambda>r. lr_id r \<noteq> i) (lx_requests st)"
  then show ?thesis using assms(2) by (auto simp: links_inv_def distinct_map_filter)
next
  fix i f r
  assume r: "request_of st i = Some r" "lx_requests st' = update_many (\<lambda>r. lr_id r = i) f (lx_requests st)"
    "\<forall>x. lr_id (f x) = lr_id x" "request_ok r \<longrightarrow> request_ok (f r)"
  have only: "x = r" if "x \<in> set (lx_requests st)" "lr_id x = i" for x
    using assms(2) r(1) that find_unique_in_distinct [of lr_id "lx_requests st" x] by (simp add: links_inv_def request_of_def)
  have "r \<in> set (lx_requests st)" using r(1) by (auto simp: request_of_def dest: find_unique_SomeD)
  then have ok: "request_ok (f r)" using assms(2) r(4) by (simp add: links_inv_def)
  have "request_ok y" if "y \<in> set (lx_requests st')" for y
    using in_update_many [OF that [unfolded r(2)]] only ok assms(2) by (auto simp: links_inv_def)
  moreover have "map lr_id (lx_requests st') = map lr_id (lx_requests st)"
    unfolding r(2) by (rule map_update_many) (use r(3) in simp)
  ultimately show ?thesis using assms(2) by (simp add: links_inv_def)
qed

interpretation links: step_invariant "link_step lib ci cf" links_inv for lib ci cf
  by unfold_locales (blast intro: links_inv_change link_step_changes)

lemma captured_account_id [simp]:
  "ex_id (captured_account ci now newId digits r) = newId" "ex_userId (captured_account ci now newId digits r) = lr_userId r"
  by (simp_all add: captured_account_def)

lemma approve_ok_iff:
  "is_ok (link_approve ci now newId digits actor i st) \<longleftrightarrow>
     (\<exists>r. request_of st i = Some r \<and> lr_status r = AwaitingApproval) \<and> newId \<notin> ex_id ` set (lx_accounts st)"
proof -
  have "is_ok (create_unique ''id'' ex_id a (lx_accounts st)) \<longleftrightarrow> ex_id a \<notin> ex_id ` set (lx_accounts st)" for a
    using find_unique_None_iff [of ex_id "ex_id a" "lx_accounts st"]
    by (cases "find_unique ex_id (ex_id a) (lx_accounts st)") (auto simp: create_unique_def is_ok_def)
  note fresh = this [of "captured_account ci now newId digits r" for r, unfolded captured_account_id]
  show ?thesis
  proof (cases "request_of st i")
    case None
    then show ?thesis by (simp add: link_approve_def link_approve_check_def or_throw_def ebind_def is_ok_def)
  next
    case (Some r)
    then show ?thesis using fresh [of r]
      by (cases "create_unique ''id'' ex_id (captured_account ci now newId digits r) (lx_accounts st)")
         (auto simp: link_approve_def link_approve_check_def link_approve_commit_def or_throw_def require_def ebind_def is_ok_def)
  qed
qed

section \<open>Properties\<close>


text \<open>A request is approved exactly when it has passed its code and waits for the administrator (and the
  identifier drawn for the account is free); approval links one account for the customer of that request and marks the request,
  and a decided request can be neither approved nor rejected again.\<close>

theorem link_needs_code_and_approval:
  "(is_ok (link_approve ci now newId digits actor i st) \<longleftrightarrow>
      (\<exists>r. request_of st i = Some r \<and> lr_status r = AwaitingApproval) \<and> newId \<notin> ex_id ` set (lx_accounts st)) \<and>
   (link_approve ci now newId digits actor i st = Inr st' \<longrightarrow>
      (\<exists>r a. request_of st i = Some r \<and> lx_accounts st' = lx_accounts st @ [a] \<and> ex_userId a = lr_userId r \<and> ex_id a = newId \<and>
         (\<exists>r'. request_of st' i = Some r' \<and> lr_status r' = LinkApproved \<and> lr_linkedAccountId r' = Some newId \<and>
            lr_reviewedByUserId r' = Some actor)) \<and>
      \<not> is_ok (link_approve ci now' newId' digits' actor' i st') \<and> \<not> is_ok (link_reject now' actor' i reason st'))"
proof (intro conjI impI)
  show "is_ok (link_approve ci now newId digits actor i st) \<longleftrightarrow>
      (\<exists>r. request_of st i = Some r \<and> lr_status r = AwaitingApproval) \<and> newId \<notin> ex_id ` set (lx_accounts st)"
    by (rule approve_ok_iff)
next
  assume a: "link_approve ci now newId digits actor i st = Inr st'"
  from approve_link_Inr [OF this] obtain r where r: "request_of st i = Some r"
    "lx_accounts st' = lx_accounts st @ [captured_account ci now newId digits r]"
    "lx_requests st' = update_many (\<lambda>r. lr_id r = i) (\<lambda>x. x\<lparr>lr_status := LinkApproved, lr_reviewedByUserId := Some actor,
                lr_reviewedAt := Some now, lr_linkedAccountId := Some newId\<rparr>) (lx_requests st)" by blast
  have r': "request_of st' i = Some (r\<lparr>lr_status := LinkApproved, lr_reviewedByUserId := Some actor,
                lr_reviewedAt := Some now, lr_linkedAccountId := Some newId\<rparr>)"
    using r(1,3) by (simp add: request_of_def find_unique_update_many)
  show "\<exists>r a. request_of st i = Some r \<and> lx_accounts st' = lx_accounts st @ [a] \<and> ex_userId a = lr_userId r \<and> ex_id a = newId \<and>
         (\<exists>r'. request_of st' i = Some r' \<and> lr_status r' = LinkApproved \<and> lr_linkedAccountId r' = Some newId \<and>
            lr_reviewedByUserId r' = Some actor)"
    using r r' by simp
  show "\<not> is_ok (link_approve ci now' newId' digits' actor' i st')" "\<not> is_ok (link_reject now' actor' i reason st')"
    using r' by (auto simp: is_ok_def link_approve_def link_approve_check_def link_reject_def err_simps require_def ebind_def split: sum.splits)
qed

text \<open>Two approvals that both passed the check link two accounts for one request.\<close>

lemma approve_race_links_two:
  assumes "link_approve_check i st = Inr r" "link_approve_commit ci now n1 d1 actor r st = Inr st1"
    and "n2 \<notin> ex_id ` set (lx_accounts st1)"
  shows "\<exists>st2. link_approve_commit ci now' n2 d2 actor' r st1 = Inr st2 \<and>
           lx_accounts st2 = lx_accounts st @ [captured_account ci now n1 d1 r, captured_account ci now' n2 d2 r]"
proof -
  have "find_unique ex_id n2 (lx_accounts st1) = None" using assms(3) by (simp add: find_unique_None_iff)
  moreover have "lx_accounts st1 = lx_accounts st @ [captured_account ci now n1 d1 r]"
    using assms(2) by (auto simp: link_approve_commit_def err_simps)
  ultimately show ?thesis by (simp add: link_approve_commit_def create_unique_def ebind_def)
qed

text \<open>Guesses of the code, as the contract of one-time codes states them.\<close>

definition otp_guess :: "crypto \<Rightarrow> string \<Rightarrow> string \<Rightarrow> int \<Rightarrow> string \<Rightarrow> links_state \<Rightarrow> bool \<times> links_state" where
  "otp_guess lib u i now code st = (is_ok (fst (verifyOtp lib now u i code st)), snd (verifyOtp lib now u i code st))"

definition otp_closed :: "string \<Rightarrow> links_state \<Rightarrow> bool" where
  "otp_closed i st = ((case request_of st i of None \<Rightarrow> True | Some r \<Rightarrow> lr_status r \<noteq> AwaitingOtp))"

definition otp_attempts :: "string \<Rightarrow> links_state \<Rightarrow> int" where
  "otp_attempts i st = (case request_of st i of None \<Rightarrow> 0 | Some r \<Rightarrow> lr_otpAttempts r)"

interpretation link_code: one_time_code "otp_guess lib u i" "\<lambda>_. True" "otp_closed i" "otp_attempts i" OTP_MAX_ATTEMPTS for lib u i
proof
  fix now c st
  obtain res st' where v: "verifyOtp lib now u i c st = (res, st')" by (cases "verifyOtp lib now u i c st")
  then have g: "otp_guess lib u i now c st = (is_ok res, st')" by (simp add: otp_guess_def)
  have row: "request_of (set_request_row i f st) i = map_option f (request_of st i)" if "\<And>x. lr_id (f x) = lr_id x" for f
    using that by (simp add: request_of_def find_unique_update_many)
  show "otp_guess lib u i now c st = (False, st)" if "otp_closed i st \<or> OTP_MAX_ATTEMPTS \<le> otp_attempts i st"
    using v by (cases rule: verifyOtp_cases) (use that g in \<open>auto simp: otp_closed_def otp_attempts_def\<close>)
  show "otp_closed i (snd (otp_guess lib u i now c st))" if "fst (otp_guess lib u i now c st)"
    using v by (cases rule: verifyOtp_cases) (use that g in \<open>auto simp: otp_closed_def row\<close>)
  show "snd (otp_guess lib u i now c st) = st \<or> otp_attempts i (snd (otp_guess lib u i now c st)) = otp_attempts i st + 1"
    if "\<not> fst (otp_guess lib u i now c st)"
    using v by (cases rule: verifyOtp_cases) (use that g in \<open>auto simp: otp_attempts_def row\<close>)
qed simp

lemma link_code_bounded:
  assumes "otp_attempts i st = 0"
  shows "fst (link_code.attack lib u i gs st) \<le> 1 \<and> fst (snd (link_code.attack lib u i gs st)) \<le> 5"
  using link_code.attack_bound [of i st lib u gs] assms by (simp add: OTP_MAX_ATTEMPTS_def)

lemma password_mailed_in_clear:
  assumes "link_initiate ci cf now newId u inp st = Inr st'" "lc_superadminEmail cf \<noteq> ''''"
  shows "(lc_superadminEmail cf, CredentialsMail newId (in_username inp) (in_password inp)) \<in> set (lx_mails st')"
  using assms by (auto simp: link_initiate_def err_simps notifySuperadmin_def link_send_def withoutSuppressed_def emitChanged_def)


end
