(* ===== verification/Samples_Products.thy ===== *)
theory Samples_Products
  imports Samples_Services Samples_Security Admin_Wires Notifications Linked_Accounts
begin

text \<open>
  Concrete runs of the products around the accounts: cards, wires, notifications and linked accounts.
\<close>

lemma okE_case: "(case r of Inl _ \<Rightarrow> False | Inr x \<Rightarrow> P x) \<Longrightarrow> \<exists>x. r = Inr x \<and> P x"
  by (cases r) simp_all

definition plain_cipher :: cipher where
  "plain_cipher = \<lparr>ci_encrypt = rev, ci_decrypt = rev\<rparr>"

lemma plain_cipher_laws: "aes_laws plain_cipher"
  by (simp add: aes_laws_def plain_cipher_def)

section \<open>Cards\<close>

theorem pan_detects_typos_witness:
  "generatePan [1, 2, 3, 4, 5, 6, 7, 8, 9] ''499999'' = Inr ''4999991234567894'' \<and> \<not> luhn_valid (''4999991234567894''[3 := CHR ''7''])"
proof -
  have g: "generatePan [1, 2, 3, 4, 5, 6, 7, 8, 9] ''499999'' = Inr ''4999991234567894''" by code_simp
  have "\<not> luhn_valid (''4999991234567894''[3 := CHR ''7''])"
  proof -
    have "\<forall>i < 16. \<forall>d. dec_digit d \<and> d \<noteq> ''4999991234567894'' ! i \<longrightarrow> \<not> luhn_valid (''4999991234567894''[i := d])"
      using pan_detects_typos [OF g] by (simp only: list.set ball_simps length_Cons list.size) simp
    from this [rule_format, of 3 "CHR ''7''"] show ?thesis by (simp only: dec_digit_def) simp
  qed
  with g show ?thesis by blast
qed

definition card_office :: cards_state where
  "card_office = \<lparr>cs_accounts = [sample_account ''c1'' ''u1'' Checking 0], cs_cards = [], cs_orders = [], cs_events = []\<rparr>"

definition first_card :: "(card \<times> cards_state) result" where
  "first_card = issue plain_cipher default_card_config 0 (''k1'', [1, 2, 3, 4, 5, 6, 7, 8, 9], 42) ''c1'' Virtual None card_office"

lemma first_card_facts:
  "case first_card of Inl _ \<Rightarrow> False
   | Inr x \<Rightarrow> is_ok (replaceVirtual plain_cipher default_card_config 1000 (''k2'', [9, 8, 7, 6, 5, 4, 3, 2, 1], 7) ''u1'' ''k1'' (snd x))"
  by code_simp

theorem issued_card_reveals_witness:
  "\<exists>c st. first_card = Inr (c, st) \<and>
     reveal plain_cipher ''u1'' ''k1'' st = Inr (''4999991234567894'', ''042'', 1, 1974) \<and> \<not> is_ok (reveal plain_cipher ''u2'' ''k1'' st)"
proof -
  obtain c st where i: "first_card = Inr (c, st)" using okE_case [OF first_card_facts] by auto
  have a: "find_unique a_id ''c1'' (cs_accounts card_office) = Some (sample_account ''c1'' ''u1'' Checking 0)"
    by (simp add: card_office_def sample_account_def)
  have g: "generatePan [1, 2, 3, 4, 5, 6, 7, 8, 9] (cc_bin default_card_config) = Inr ''4999991234567894''" by code_simp
  have e: "generateCvv 42 = ''042''" "getUTCMonth 0 + 1 = 1" "getUTCFullYear 0 + 4 = 1974" by code_simp+
  from issued_card_reveals [OF plain_cipher_laws i [unfolded first_card_def] a, of "''u2''"]
  have "reveal plain_cipher ''u1'' ''k1'' st = Inr (''4999991234567894'', ''042'', 1, 1974)"
    "reveal plain_cipher ''u2'' ''k1'' st = Inl (NotFound ''Card not found'')"
    unfolding g e by (auto simp: sample_account_def)
  then show ?thesis using i by (intro exI [of _ c] exI [of _ st]) simp
qed

theorem replaced_card_stays_dead_witness:
  "\<exists>c st1 d st2. first_card = Inr (c, st1) \<and>
     replaceVirtual plain_cipher default_card_config 1000 (''k2'', [9, 8, 7, 6, 5, 4, 3, 2, 1], 7) ''u1'' ''k1'' st1 = Inr (d, st2) \<and>
     ca_status d = CardActive \<and> \<not> is_ok (reveal plain_cipher ''u1'' ''k1'' st2)"
proof -
  obtain c st1 where i: "first_card = Inr (c, st1)"
    and r: "is_ok (replaceVirtual plain_cipher default_card_config 1000 (''k2'', [9, 8, 7, 6, 5, 4, 3, 2, 1], 7) ''u1'' ''k1'' st1)"
    using okE_case [OF first_card_facts] by auto
  obtain d st2 where q: "replaceVirtual plain_cipher default_card_config 1000 (''k2'', [9, 8, 7, 6, 5, 4, 3, 2, 1], 7) ''u1'' ''k1'' st1 = Inr (d, st2)"
    using is_okD [OF r] by auto
  from replaced_card_stays_dead [OF q rtranclp.rtrancl_refl] i q show ?thesis by blast
qed

section \<open>Wires\<close>

definition wire_dto :: transfer_dto where
  "wire_dto = (sample_dto WireOut ''c1'' None 100000)\<lparr>d_wireDetails := Some \<lparr>wd_type = WireInternational, wd_beneficiaryName = ''Bo'',
     wd_bankName = ''B'', wd_swiftBic = Some ''ABCDEF12'', wd_iban = Some ''GB1''\<rparr>\<rparr>"

definition wired :: "(initiate_result \<times> bank) result" where
  "wired = initiate default_config sample_env (''t1'', ''x1'') ''u1'' ''k1'' wire_dto sample_bank"

definition no_notes :: notes_state where
  "no_notes = \<lparr>nn_rows = [], nn_prefs = [], nn_events = []\<rparr>"

lemma wired_facts:
  "case wired of Inl _ \<Rightarrow> False
   | Inr x \<Rightarrow> is_ok (reverse_wire 2000 (''x2'', ''n1'') ''adm'' ''t1'' ''typo'' (snd x, no_notes)) \<and>
       (case transfer_of (snd x) ''t1'' of None \<Rightarrow> False
        | Some t \<Rightarrow> tr_requiresReview t \<and> tr_reviewedAt t = None \<and> tr_fromAccountId t = ''c1'')"
  by code_simp

lemma wiredE:
  obtains r s s1 n1 t where "wired = Inr (r, s)" "reverse_wire 2000 (''x2'', ''n1'') ''adm'' ''t1'' ''typo'' (s, no_notes) = Inr (s1, n1)"
    "transfer_of s ''t1'' = Some t" "tr_requiresReview t" "tr_reviewedAt t = None" "tr_fromAccountId t = ''c1''"
proof -
  obtain r s where i: "wired = Inr (r, s)" and ok: "is_ok (reverse_wire 2000 (''x2'', ''n1'') ''adm'' ''t1'' ''typo'' (s, no_notes))"
    and t: "case transfer_of s ''t1'' of None \<Rightarrow> False
        | Some t \<Rightarrow> tr_requiresReview t \<and> tr_reviewedAt t = None \<and> tr_fromAccountId t = ''c1''"
    using okE_case [OF wired_facts] by auto
  obtain s1 n1 where "reverse_wire 2000 (''x2'', ''n1'') ''adm'' ''t1'' ''typo'' (s, no_notes) = Inr (s1, n1)" using is_okD [OF ok] by auto
  with i t that show ?thesis by (cases "transfer_of s ''t1''") auto
qed


theorem reversed_wire_witness:
  "\<exists>r s s1 n1 s2 x. wired = Inr (r, s) \<and> reverse_wire 2000 (''x2'', ''n1'') ''adm'' ''t1'' ''typo'' (s, no_notes) = Inr (s1, n1) \<and>
     approve_wire 3000 True (''x4'', ''x5'') ''ops'' ''t1'' None s1 = Inr s2 \<and> settle_check ''t1'' s2 = Some x"
proof -
  obtain r s s1 n1 t where w: "wired = Inr (r, s)" "reverse_wire 2000 (''x2'', ''n1'') ''adm'' ''t1'' ''typo'' (s, no_notes) = Inr (s1, n1)"
    "transfer_of s ''t1'' = Some t" "tr_requiresReview t" "tr_reviewedAt t = None" by (rule wiredE)
  from reversed_wire_still_approvable [OF w(2-5), of 3000 "(''x4'', ''x5'')" "''ops''" None] w show ?thesis by blast
qed

definition dairy :: beneficiary_dto where
  "dairy = \<lparr>bd_type = WireLocal, bd_name = ''Awal Dairy'', bd_bankName = ''NBB'', bd_routingNumber = None, bd_accountNumber = None,
     bd_swiftBic = None, bd_iban = Some ''bh67 BMAG 0000 1299 1234 56'', bd_country = None, bd_beneficiaryAddress = None, bd_notes = None\<rparr>"

theorem curated_beneficiary_witness:
  "\<exists>s. createBeneficiary 0 ''b1'' ''adm'' dairy sample_bank = Inr s \<and>
     fst (verifyBeneficiary WireLocal None (Some ''  awal dairy'') None (Some ''BH67BMAG00001299123456'') s)"
proof -
  have "is_ok (createBeneficiary 0 ''b1'' ''adm'' dairy sample_bank)" by code_simp
  then obtain s where c: "createBeneficiary 0 ''b1'' ''adm'' dairy sample_bank = Inr s" by (auto dest: is_okD)
  have "norm_iban (Some ''BH67BMAG00001299123456'') = norm_iban (bd_iban dairy)"
    "norm_label (Some ''  awal dairy'') = norm_label (Some (bd_name dairy))" by code_simp+
  from curated_beneficiary_accepted [OF c _ this] have "fst (verifyBeneficiary WireLocal None (Some ''  awal dairy'') None (Some ''BH67BMAG00001299123456'') s)"
    by (simp add: dairy_def)
  with c show ?thesis by blast
qed

section \<open>Linked accounts\<close>

definition link_office :: links_state where
  "link_office = \<lparr>lx_users = [ann], lx_requests = [], lx_accounts = [], lx_mails = [], lx_events = []\<rparr>"

definition link_cf :: link_config where
  "link_cf = \<lparr>lc_superadminEmail = ''s@x'', lc_adminEmail = ''''\<rparr>"

definition link_verified :: "links_state result" where
  "link_verified =
     ebind (link_initiate plain_cipher link_cf 1000 ''q1'' ''u1''
             \<lparr>in_institutionId = ''i'', in_institutionName = ''Bank'', in_username = ''ann'', in_password = ''pw''\<rparr> link_office) (\<lambda>s1.
     let (r2, s2) = sendOtp plain_lib link_cf (\<lambda>_. True) 2000 (7, ''z'') ''u1'' ''q1'' ''ann@home.org'' s1;
         (r3, s3) = verifyOtp plain_lib 3000 ''u1'' ''q1'' (six_digits 7) s2
     in ebind r2 (\<lambda>_. ebind r3 (\<lambda>_. Inr s3)))"

lemma link_facts:
  "case link_verified of Inl _ \<Rightarrow> False
   | Inr s \<Rightarrow> is_ok (link_approve plain_cipher 4000 ''e1'' 4321 ''adm'' ''q1'' s)"
  by code_simp

lemma link_verified_reachable:
  assumes "link_verified = Inr s"
  shows "(link_step plain_lib plain_cipher link_cf)\<^sup>*\<^sup>* link_office s"
proof -
  obtain s1 where 1: "link_initiate plain_cipher link_cf 1000 ''q1'' ''u1''
             \<lparr>in_institutionId = ''i'', in_institutionName = ''Bank'', in_username = ''ann'', in_password = ''pw''\<rparr> link_office = Inr s1"
    and 2: "(let (r2, s2) = sendOtp plain_lib link_cf (\<lambda>_. True) 2000 (7, ''z'') ''u1'' ''q1'' ''ann@home.org'' s1;
         (r3, s3) = verifyOtp plain_lib 3000 ''u1'' ''q1'' (six_digits 7) s2
     in ebind r2 (\<lambda>_. ebind r3 (\<lambda>_. Inr s3))) = Inr s"
    using assms unfolding link_verified_def ebind_eq_Inr by blast
  obtain r2 s2 where s2: "sendOtp plain_lib link_cf (\<lambda>_. True) 2000 (7, ''z'') ''u1'' ''q1'' ''ann@home.org'' s1 = (r2, s2)"
    by (cases "sendOtp plain_lib link_cf (\<lambda>_. True) 2000 (7, ''z'') ''u1'' ''q1'' ''ann@home.org'' s1")
  obtain r3 s3 where s3: "verifyOtp plain_lib 3000 ''u1'' ''q1'' (six_digits 7) s2 = (r3, s3)"
    by (cases "verifyOtp plain_lib 3000 ''u1'' ''q1'' (six_digits 7) s2")
  have "s = s3" using 2 unfolding s2 by (simp add: s3 err_simps)
  then show ?thesis
    using lk_initiate [OF 1] lk_send [OF s2] lk_verify [OF s3] by (meson rtranclp.rtrancl_into_rtrancl rtranclp.rtrancl_refl)
qed

lemma link_approvedE:
  obtains s s' r where "link_verified = Inr s" "link_approve plain_cipher 4000 ''e1'' 4321 ''adm'' ''q1'' s = Inr s'"
    "request_of s' ''q1'' = Some r" "lr_status r = LinkApproved"
proof -
  obtain s where s: "link_verified = Inr s" "is_ok (link_approve plain_cipher 4000 ''e1'' 4321 ''adm'' ''q1'' s)"
    using okE_case [OF link_facts] by auto
  then obtain s' where a: "link_approve plain_cipher 4000 ''e1'' 4321 ''adm'' ''q1'' s = Inr s'" by (auto dest: is_okD)
  from approve_link_Inr [OF a] obtain r where "request_of s ''q1'' = Some r" "lx_requests s' = update_many (\<lambda>r. lr_id r = ''q1'')
      (\<lambda>x. x\<lparr>lr_status := LinkApproved, lr_reviewedByUserId := Some ''adm'', lr_reviewedAt := Some 4000, lr_linkedAccountId := Some ''e1''\<rparr>) (lx_requests s)"
    by blast
  then have "request_of s' ''q1'' = Some (r\<lparr>lr_status := LinkApproved, lr_reviewedByUserId := Some ''adm'', lr_reviewedAt := Some 4000,
      lr_linkedAccountId := Some ''e1''\<rparr>)" by (simp add: request_of_def find_unique_update_many)
  then show ?thesis using that [OF s(1) a] by simp
qed


theorem link_needs_code_witness:
  "\<exists>s s'. link_verified = Inr s \<and> link_approve plain_cipher 4000 ''e1'' 4321 ''adm'' ''q1'' s = Inr s' \<and>
     \<not> is_ok (link_approve plain_cipher 5000 ''e2'' 1111 ''ops'' ''q1'' s') \<and> \<not> is_ok (link_reject 5000 ''ops'' ''q1'' ''no'' s')"
proof -
  obtain s s' r where s: "link_verified = Inr s" "link_approve plain_cipher 4000 ''e1'' 4321 ''adm'' ''q1'' s = Inr s'" by (rule link_approvedE)
  with link_needs_code_and_approval [of plain_cipher 4000 "''e1''" 4321 "''adm''" "''q1''" s s' 5000 "''e2''" 1111 "''ops''" "''no''"]
  show ?thesis by blast
qed

end
