(* ===== verification/User_Admin.thy ===== *)
theory User_Admin
  imports Sign_In Accounts Notifications
begin

text \<open>
  The administrator's view of users (\<^verbatim>\<open>admin/users/admin-users.service.ts\<close>): search, edits, status, passwords,
  roles, blocks, messages. The table of users is \<open>sf_users\<close>; the security services and the bank see
  its columns through \<open>auth_view\<close> and \<open>bank_view\<close>.
\<close>

section \<open>State\<close>

record staff_user = login_user +
  u_dob :: "int option"
  u_createdAt :: int
  u_transfersDisabledReason :: "string option"
  u_transfersDisabledAt :: "int option"
  u_transfersDisabledByUserId :: "string option"
  u_emailNotificationsDisabledReason :: "string option"
  u_emailNotificationsDisabledAt :: "int option"

text \<open>A message shown at once in the customer's application: user, message, title, body, time.\<close>

type_synonym popup = "string \<times> string \<times> string \<times> string \<times> int"

record staff_state =
  sf_users :: "staff_user list"
  sf_auth :: auth_state
  sf_accounts :: accounts_state
  sf_notes :: notes_state
  sf_popups :: "popup list"
  sf_resetLinks :: "(string \<times> string \<times> int) list"
    \<comment> \<open>address, token of the link, minutes\<close>

definition auth_view :: "staff_state \<Rightarrow> auth_state" where
  "auth_view st = (sf_auth st)\<lparr>sa_users := map login_user.truncate (sf_users st)\<rparr>"

definition bank_view :: "staff_state \<Rightarrow> bank" where
  "bank_view st = (ac_bank (sf_accounts st))\<lparr>db_users := map user.truncate (sf_users st)\<rparr>"

abbreviation staff_user_of :: "staff_state \<Rightarrow> string \<Rightarrow> staff_user option" where
  "staff_user_of st i \<equiv> find_unique u_id i (sf_users st)"

definition set_user :: "string \<Rightarrow> (staff_user \<Rightarrow> staff_user) \<Rightarrow> staff_state \<Rightarrow> staff_state" where
  "set_user i f st = st\<lparr>sf_users := update_many (\<lambda>u. u_id u = i) f (sf_users st)\<rparr>"

definition staff_audit :: "int \<Rightarrow> string \<Rightarrow> string \<Rightarrow> string \<Rightarrow> (string \<times> audit_value) list \<Rightarrow> staff_state \<Rightarrow> staff_state" where
  "staff_audit now actor action target md st = st\<lparr>sf_auth := auth_audit now actor action ''user'' target md (sf_auth st)\<rparr>"

definition end_sessions :: "int \<Rightarrow> string \<Rightarrow> staff_state \<Rightarrow> staff_state" where
  "end_sessions now userId st = st\<lparr>sf_auth := snd (revokeAllForUser now userId AdminRevoke (sf_auth st))\<rparr>"

definition user_status_name :: "user_status \<Rightarrow> string" where
  "user_status_name s = (case s of UserActive \<Rightarrow> ''active'' | UserFrozen \<Rightarrow> ''frozen'' | UserClosed \<Rightarrow> ''closed'')"

definition av_opt :: "string option \<Rightarrow> audit_value" where
  "av_opt v = (case v of None \<Rightarrow> AvNull | Some s \<Rightarrow> AvText s)"

definition av_bool :: "bool \<Rightarrow> audit_value" where
  "av_bool b = AvText (if b then ''true'' else ''false'')"

section \<open>Reading\<close>

definition search_users :: "string option \<Rightarrow> nat option \<Rightarrow> staff_state \<Rightarrow> staff_user list" where
  "search_users qry limit st =
     (let q = js_trim (opt_or qry '''')
      in take (opt_or limit 25) (rev (sort_key u_createdAt
           (filter (\<lambda>u. q = '''' \<or> contains_ci q (Some (u_email u)) \<or> contains_ci q (u_novaTag u) \<or>
                        (case u_phoneE164 u of None \<Rightarrow> False | Some p \<Rightarrow> contains q p) \<or>
                        contains_ci q (u_firstName u) \<or> contains_ci q (u_lastName u)) (sf_users st)))))"

definition user_detail :: "string \<Rightarrow> staff_state \<Rightarrow> (staff_user \<times> account list) result" where
  "user_detail i st =
     ebind (or_throw (NotFound ''User not found'') (staff_user_of st i)) (\<lambda>u.
     Inr (u, listForUser_accounts i (ac_bank (sf_accounts st))))"

definition listSessions :: "string \<Rightarrow> int \<Rightarrow> staff_state \<Rightarrow> (session \<times> device option) list" where
  "listSessions userId limit st =
     map (\<lambda>s. (s, find_unique de_id (se_deviceId s) (sa_devices (sf_auth st))))
       (take (nat (min (max limit 1) 20)) (rev (sort_key se_createdAt (filter (\<lambda>s. se_userId s = userId) (sa_sessions (sf_auth st))))))"

section \<open>Editing\<close>

definition normalizeEmail :: "string \<Rightarrow> string" where
  "normalizeEmail raw = to_lower (js_trim raw)"

definition normalizeNovaTag :: "string \<Rightarrow> string option" where
  "normalizeNovaTag raw =
     (let cleaned = to_lower (dropWhile (\<lambda>c. c = CHR ''@'') (js_trim raw))
      in if cleaned = '''' then None else Some (CHR ''@'' # cleaned))"

definition trim_or_null :: "string \<Rightarrow> string option" where
  "trim_or_null s = (if js_trim s = '''' then None else Some (js_trim s))"

text \<open>The date of birth is an outer option for its presence and an inner one for its validity.\<close>

record update_dto =
  ud_firstName :: "string option"
  ud_lastName :: "string option"
  ud_novaTag :: "string option"
  ud_phoneE164 :: "string option"
  ud_dob :: "int option option"
  ud_email :: "string option"
  ud_role :: "user_role option"
  ud_status :: "user_status option"
  ud_reason :: string

text \<open>One changed field: its name, its value before and after, and the write.\<close>

type_synonym user_change = "string \<times> audit_value \<times> audit_value \<times> (staff_user \<Rightarrow> staff_user)"

definition name_changes :: "update_dto \<Rightarrow> staff_user \<Rightarrow> user_change list" where
  "name_changes dto u =
     (case ud_firstName dto of None \<Rightarrow> []
      | Some n \<Rightarrow> if Some (js_trim n) = u_firstName u then []
                 else [(''firstName'', av_opt (u_firstName u), AvText (js_trim n), \<lambda>x. x\<lparr>u_firstName := Some (js_trim n)\<rparr>)]) @
     (case ud_lastName dto of None \<Rightarrow> []
      | Some n \<Rightarrow> if Some (js_trim n) = u_lastName u then []
                 else [(''lastName'', av_opt (u_lastName u), AvText (js_trim n), \<lambda>x. x\<lparr>u_lastName := Some (js_trim n)\<rparr>)])"

definition taken_by_other :: "(staff_user \<Rightarrow> 'k) \<Rightarrow> 'k \<Rightarrow> string \<Rightarrow> staff_state \<Rightarrow> bool" where
  "taken_by_other key v i st = list_ex (\<lambda>x. key x = v \<and> u_id x \<noteq> i) (sf_users st)"

definition tag_changes :: "update_dto \<Rightarrow> staff_user \<Rightarrow> staff_state \<Rightarrow> user_change list result" where
  "tag_changes dto u st =
     (case ud_novaTag dto of None \<Rightarrow> Inr []
      | Some raw \<Rightarrow>
          (let v = normalizeNovaTag raw
           in if v = u_novaTag u then Inr []
              else ebind (require (v = None \<or> \<not> taken_by_other u_novaTag v (u_id u) st) (Conflict ''novaTag already taken'')) (\<lambda>_.
                   Inr [(''novaTag'', av_opt (u_novaTag u), av_opt v, \<lambda>x. x\<lparr>u_novaTag := v\<rparr>)])))"

definition phone_changes :: "update_dto \<Rightarrow> staff_user \<Rightarrow> staff_state \<Rightarrow> user_change list result" where
  "phone_changes dto u st =
     (case ud_phoneE164 dto of None \<Rightarrow> Inr []
      | Some raw \<Rightarrow>
          (let v = trim_or_null raw
           in if v = u_phoneE164 u then Inr []
              else ebind (require (v = None \<or> \<not> taken_by_other u_phoneE164 v (u_id u) st) (Conflict ''phone already in use'')) (\<lambda>_.
                   Inr [(''phoneE164'', av_opt (u_phoneE164 u), av_opt v, \<lambda>x. x\<lparr>u_phoneE164 := v\<rparr>)])))"

definition dob_changes :: "update_dto \<Rightarrow> staff_user \<Rightarrow> user_change list result" where
  "dob_changes dto u =
     (case ud_dob dto of None \<Rightarrow> Inr []
      | Some v \<Rightarrow>
          ebind (or_throw (BadRequest ''Invalid DOB'') v) (\<lambda>t.
          Inr (if u_dob u = Some t then []
               else [(''dob'', av_opt (map_option toISOString (u_dob u)), AvText (toISOString t), \<lambda>x. x\<lparr>u_dob := Some t\<rparr>)])))"

definition wantsEmailChange :: "update_dto \<Rightarrow> staff_user \<Rightarrow> bool" where
  "wantsEmailChange dto u = (case ud_email dto of None \<Rightarrow> False | Some e \<Rightarrow> normalizeEmail e \<noteq> u_email u)"

definition wantsRoleChange :: "update_dto \<Rightarrow> staff_user \<Rightarrow> bool" where
  "wantsRoleChange dto u = (case ud_role dto of None \<Rightarrow> False | Some r \<Rightarrow> r \<noteq> u_role u)"

definition wantsStatusChange :: "update_dto \<Rightarrow> staff_user \<Rightarrow> bool" where
  "wantsStatusChange dto u = (case ud_status dto of None \<Rightarrow> False | Some s \<Rightarrow> s \<noteq> u_status u)"

definition email_changes :: "update_dto \<Rightarrow> staff_user \<Rightarrow> staff_state \<Rightarrow> user_change list result" where
  "email_changes dto u st =
     (if \<not> wantsEmailChange dto u then Inr []
      else (let v = normalizeEmail (the (ud_email dto))
            in ebind (require (\<not> taken_by_other u_email v (u_id u) st) (Conflict ''email already in use'')) (\<lambda>_.
               Inr [(''email'', AvText (u_email u), AvText v, \<lambda>x. x\<lparr>u_email := v\<rparr>)])))"

definition role_status_changes :: "update_dto \<Rightarrow> staff_user \<Rightarrow> user_change list" where
  "role_status_changes dto u =
     (if wantsRoleChange dto u
      then [(''role'', AvText (role_name (u_role u)), AvText (role_name (the (ud_role dto))), \<lambda>x. x\<lparr>u_role := the (ud_role dto)\<rparr>)] else []) @
     (if wantsStatusChange dto u
      then [(''status'', AvText (user_status_name (u_status u)), AvText (user_status_name (the (ud_status dto))), \<lambda>x. x\<lparr>u_status := the (ud_status dto)\<rparr>)] else [])"

definition user_changes :: "update_dto \<Rightarrow> staff_user \<Rightarrow> staff_state \<Rightarrow> user_change list result" where
  "user_changes dto u st =
     ebind (tag_changes dto u st) (\<lambda>tags.
     ebind (phone_changes dto u st) (\<lambda>phones.
     ebind (dob_changes dto u) (\<lambda>dobs.
     ebind (email_changes dto u st) (\<lambda>emails.
     Inr (name_changes dto u @ tags @ phones @ dobs @ emails @ role_status_changes dto u)))))"

definition apply_changes :: "user_change list \<Rightarrow> staff_user \<Rightarrow> staff_user" where
  "apply_changes cs u = fold (\<lambda>(_, _, _, f). f) cs u"

definition change_log :: "user_change list \<Rightarrow> string \<Rightarrow> (string \<times> audit_value) list" where
  "change_log cs reason =
     map (\<lambda>(n, b, _, _). (''before.'' @ n, b)) cs @ map (\<lambda>(n, _, a, _). (''after.'' @ n, a)) cs @ [(''reason'', AvText reason)]"

text \<open>The flag of the answer says that nothing changed.\<close>

definition update_user :: "int \<Rightarrow> string \<Rightarrow> string \<Rightarrow> update_dto \<Rightarrow> staff_state \<Rightarrow> (bool \<times> staff_state) result" where
  "update_user now actor target dto st =
     ebind (or_throw (NotFound ''User not found'') (staff_user_of st target)) (\<lambda>u.
     ebind (require (\<not> (actor = target \<and> wantsRoleChange dto u)) (BadRequest ''Cannot change your own role'')) (\<lambda>_.
     ebind (require (\<not> (actor = target \<and> wantsStatusChange dto u \<and> ud_status dto \<noteq> Some UserActive))
              (BadRequest ''Cannot suspend / un-verify your own account'')) (\<lambda>_.
     ebind (user_changes dto u st) (\<lambda>cs.
     if cs = [] then Inr (True, st)
     else
       (let st1 = set_user target (apply_changes cs) st;
            st2 = (if wantsEmailChange dto u \<or> wantsRoleChange dto u \<or> (wantsStatusChange dto u \<and> ud_status dto \<noteq> Some UserActive)
                   then end_sessions now target st1 else st1)
        in Inr (False, staff_audit now actor ''user.update'' target (change_log cs (ud_reason dto)) st2))))))"

definition set_user_status :: "int \<Rightarrow> string \<Rightarrow> string \<Rightarrow> bool \<Rightarrow> string \<Rightarrow> staff_state \<Rightarrow> (bool \<times> staff_state) result" where
  "set_user_status now actor target freeze reason st =
     (let nextStatus = (if freeze then UserFrozen else UserActive) in
      ebind (require (\<not> (actor = target \<and> freeze)) (BadRequest ''Cannot freeze your own account'')) (\<lambda>_.
      ebind (or_throw (NotFound ''User not found'') (staff_user_of st target)) (\<lambda>u.
      if u_status u = nextStatus then Inr (True, st)
      else
        (let st1 = set_user target (\<lambda>x. x\<lparr>u_status := nextStatus\<rparr>) st;
             st2 = (if freeze then end_sessions now target st1 else st1)
         in Inr (False, staff_audit now actor (if freeze then ''user.deactivate'' else ''user.activate'') target
                   [(''before'', AvText (user_status_name (u_status u))), (''after'', AvText (user_status_name nextStatus)), (''reason'', AvText reason)] st2)))))"

definition forcePasswordReset ::
  "crypto \<Rightarrow> auth_config \<Rightarrow> int \<Rightarrow> string \<Rightarrow> bool \<Rightarrow> string \<Rightarrow> string \<Rightarrow> string \<Rightarrow> staff_state \<Rightarrow> staff_state result" where
  "forcePasswordReset lib cfg now jti delivered actor target reason st =
     ebind (or_throw (NotFound ''User not found'') (staff_user_of st target)) (\<lambda>u.
     let st1 = (if delivered then st\<lparr>sf_resetLinks := sf_resetLinks st @ [(u_email u, signRecovery lib cfg now jti (u_id u), 15)]\<rparr> else st)
     in Inr (staff_audit now actor ''user.password.force_reset'' target [(''email'', AvText (u_email u)), (''reason'', AvText reason)] st1))"

definition admin_setPassword ::
  "crypto \<Rightarrow> int \<Rightarrow> string \<Rightarrow> string \<Rightarrow> string \<Rightarrow> string \<Rightarrow> bool \<Rightarrow> string \<Rightarrow> staff_state \<Rightarrow> staff_state result" where
  "admin_setPassword lib now salt actor target password requireSecuritySetup reason st =
     ebind (require (10 \<le> length password) (BadRequest ''Password must be at least 10 characters'')) (\<lambda>_.
     ebind (or_throw (NotFound ''User not found'') (staff_user_of st target)) (\<lambda>u.
     Inr (staff_audit now actor ''user.password.set'' target
            [(''requireSecuritySetup'', av_bool requireSecuritySetup), (''reason'', AvText reason)]
            (end_sessions now target
              (set_user target (\<lambda>x. x\<lparr>u_passwordHash := cr_hash lib salt password, u_securitySetupRequired := requireSecuritySetup\<rparr>) st)))))"

section \<open>Creating\<close>

record create_user_dto =
  cd_email :: string
  cd_password :: string
  cd_firstName :: "string option"
  cd_lastName :: "string option"
  cd_novaTag :: "string option"
  cd_phoneE164 :: "string option"
  cd_role :: "user_role option"
  cd_status :: "user_status option"
  cd_requireSecuritySetup :: bool
  cd_reason :: string

definition opt_trim :: "string option \<Rightarrow> string option" where
  "opt_trim v = (case v of None \<Rightarrow> None | Some s \<Rightarrow> trim_or_null s)"

definition new_user :: "crypto \<Rightarrow> int \<Rightarrow> string \<Rightarrow> string \<Rightarrow> create_user_dto \<Rightarrow> staff_user" where
  "new_user lib now newId salt dto =
     \<lparr>u_id = newId, u_email = normalizeEmail (cd_email dto), u_phoneE164 = opt_trim (cd_phoneE164 dto),
      u_novaTag = (case cd_novaTag dto of None \<Rightarrow> None | Some t \<Rightarrow> normalizeNovaTag t),
      u_firstName = opt_trim (cd_firstName dto), u_lastName = opt_trim (cd_lastName dto), u_avatarUrl = None,
      u_role = opt_or (cd_role dto) Customer, u_status = opt_or (cd_status dto) UserActive, u_transfersDisabled = False,
      u_passwordHash = cr_hash lib salt (cd_password dto), u_transactionPinHash = None,
      u_securitySetupRequired = cd_requireSecuritySetup dto, u_emailNotificationsDisabled = False,
      u_dob = None, u_createdAt = now, u_transfersDisabledReason = None, u_transfersDisabledAt = None,
      u_transfersDisabledByUserId = None, u_emailNotificationsDisabledReason = None, u_emailNotificationsDisabledAt = None\<rparr>"

definition free_or_null :: "(staff_user \<Rightarrow> string option) \<Rightarrow> string option \<Rightarrow> staff_state \<Rightarrow> bool" where
  "free_or_null key v st = (v = None \<or> \<not> list_ex (\<lambda>x. key x = v) (sf_users st))"

definition create_user ::
  "crypto \<Rightarrow> limits_config \<Rightarrow> (nat \<Rightarrow> string) \<Rightarrow> (nat \<Rightarrow> string) \<Rightarrow> string \<times> string \<Rightarrow> int \<Rightarrow> string \<Rightarrow> string \<Rightarrow>
     string \<Rightarrow> user_role \<Rightarrow> create_user_dto \<Rightarrow> staff_state \<Rightarrow> staff_state result" where
  "create_user lib lc gen1 gen2 ids now newId salt actor actorRole dto st =
     (let role = opt_or (cd_role dto) Customer; u = new_user lib now newId salt dto in
      ebind (require (\<not> (role \<noteq> Customer \<and> actorRole \<noteq> SuperAdmin)) (Forbidden ''Only superadmin can create admin accounts'')) (\<lambda>_.
      ebind (require (10 \<le> length (cd_password dto)) (BadRequest ''Password must be at least 10 characters'')) (\<lambda>_.
      ebind (require (find_unique u_email (u_email u) (sf_users st) = None) (Conflict ''email already in use'')) (\<lambda>_.
      ebind (require (free_or_null u_novaTag (u_novaTag u) st) (Conflict ''novaTag already taken'')) (\<lambda>_.
      ebind (require (free_or_null u_phoneE164 (u_phoneE164 u) st) (Conflict ''phone already in use'')) (\<lambda>_.
      ebind (create_unique ''id'' u_id u (sf_users st)) (\<lambda>t.
      let st1 = staff_audit now actor ''user.create'' newId
                  [(''email'', AvText (u_email u)), (''role'', AvText (role_name role)),
                   (''requireSecuritySetup'', av_bool (cd_requireSecuritySetup dto)), (''reason'', AvText (cd_reason dto))] (st\<lparr>sf_users := t\<rparr>)
      in Inr (if role = Customer \<and> u_status u = UserActive
              then st1\<lparr>sf_accounts := onKycApproved lc gen1 gen2 ids now newId (sf_accounts st1)\<rparr>
              else st1))))))))"

section \<open>Sessions, blocks, roles and messages\<close>

definition revokeAllSessions :: "int \<Rightarrow> string \<Rightarrow> string \<Rightarrow> staff_state \<Rightarrow> nat \<times> staff_state" where
  "revokeAllSessions now actor target st =
     (let (ids, a) = revokeAllForUser now target AdminRevoke (sf_auth st)
      in (length ids, staff_audit now actor ''user.sessions.revoke_all'' target (map (\<lambda>i. (''revokedSessionIds'', AvText i)) ids) (st\<lparr>sf_auth := a\<rparr>)))"

definition resetLoginHistory :: "int \<Rightarrow> string \<Rightarrow> string \<Rightarrow> staff_state \<Rightarrow> ((nat \<times> nat \<times> nat) \<times> staff_state) result" where
  "resetLoginHistory now actor target st =
     ebind (or_throw (NotFound ''User not found'') (staff_user_of st target)) (\<lambda>_.
     let (r, a) = purgeForUser now target (sf_auth st)
     in Inr (r, staff_audit now actor ''user.sessions.reset'' target
               [(''revoked'', AvInt (int (fst r))), (''sessions'', AvInt (int (fst (snd r)))), (''devices'', AvInt (int (snd (snd r))))]
               (st\<lparr>sf_auth := a\<rparr>)))"

definition block_row :: "int \<Rightarrow> string \<Rightarrow> bool \<Rightarrow> string option \<Rightarrow> staff_user \<Rightarrow> staff_user" where
  "block_row now actor disabled reason u =
     u\<lparr>u_transfersDisabled := disabled, u_transfersDisabledReason := (if disabled then opt_trim reason else None),
       u_transfersDisabledAt := (if disabled then Some now else None), u_transfersDisabledByUserId := (if disabled then Some actor else None)\<rparr>"

definition setTransfersDisabled :: "int \<Rightarrow> string \<Rightarrow> string \<Rightarrow> bool \<Rightarrow> string option \<Rightarrow> staff_state \<Rightarrow> staff_state result" where
  "setTransfersDisabled now actor target disabled reason st =
     ebind (require (target \<noteq> actor) (BadRequest ''Cannot block your own transfers'')) (\<lambda>_.
     ebind (or_throw (NotFound ''User not found'') (staff_user_of st target)) (\<lambda>_.
     Inr (staff_audit now actor (if disabled then ''user.transfers.block'' else ''user.transfers.unblock'') target [(''reason'', av_opt reason)]
            (set_user target (block_row now actor disabled reason) st))))"

definition setEmailNotificationsDisabled :: "int \<Rightarrow> string \<Rightarrow> string \<Rightarrow> bool \<Rightarrow> string option \<Rightarrow> staff_state \<Rightarrow> staff_state result" where
  "setEmailNotificationsDisabled now actor target disabled reason st =
     ebind (or_throw (NotFound ''User not found'') (staff_user_of st target)) (\<lambda>_.
     Inr (staff_audit now actor (if disabled then ''user.email_notifications.disable'' else ''user.email_notifications.enable'') target
            [(''reason'', av_opt reason)]
            (set_user target (\<lambda>u. u\<lparr>u_emailNotificationsDisabled := disabled,
               u_emailNotificationsDisabledReason := (if disabled then opt_trim reason else None),
               u_emailNotificationsDisabledAt := (if disabled then Some now else None)\<rparr>) st)))"

definition changeRole :: "int \<Rightarrow> string \<Rightarrow> user_role \<Rightarrow> string \<Rightarrow> user_role \<Rightarrow> string \<Rightarrow> staff_state \<Rightarrow> staff_state result" where
  "changeRole now actor actorRole target role reason st =
     ebind (require (actorRole = SuperAdmin) (Forbidden ''Only superadmin can change roles'')) (\<lambda>_.
     ebind (require (target \<noteq> actor) (BadRequest ''Cannot change your own role'')) (\<lambda>_.
     ebind (or_throw (NotFound ''Target user not found'') (staff_user_of st target)) (\<lambda>u.
     Inr (staff_audit now actor ''user.role.change'' target
            [(''before'', AvText (role_name (u_role u))), (''after'', AvText (role_name role)), (''reason'', AvText reason)]
            (end_sessions now target (set_user target (\<lambda>x. x\<lparr>u_role := role\<rparr>) st))))))"

datatype channel = ChNotification | ChPopup | ChBoth

definition sendDirectMessage ::
  "int \<Rightarrow> string \<Rightarrow> string \<Rightarrow> string \<Rightarrow> string \<times> string \<Rightarrow> channel \<Rightarrow> string \<Rightarrow> staff_state \<Rightarrow> staff_state result" where
  "sendDirectMessage now newId actor target msg ch reason st =
     ebind (or_throw (NotFound ''User not found'') (staff_user_of st target)) (\<lambda>_.
     ebind (if ch = ChNotification \<or> ch = ChBoth
            then create_note now newId \<lparr>ni_userId = target, ni_category = NcSecurity, ni_title = fst msg, ni_body = snd msg, ni_ctaUrl = None\<rparr> (sf_notes st)
            else Inr (sf_notes st)) (\<lambda>ns.
     let st1 = st\<lparr>sf_notes := ns\<rparr>;
         messageId = (if ch = ChBoth then newId else ''msg_'' @ show_int now);
         st2 = (if ch = ChPopup \<or> ch = ChBoth then st1\<lparr>sf_popups := sf_popups st1 @ [(target, messageId, fst msg, snd msg, now)]\<rparr> else st1)
     in Inr (staff_audit now actor ''user.message.send'' target [(''title'', AvText (fst msg)), (''reason'', AvText reason)] st2)))"

section \<open>History\<close>

text \<open>The reset of a customer's history: its transactions go and its balances become zero; the journal stays.\<close>

definition reset_rows :: "string list \<Rightarrow> bank \<Rightarrow> bank" where
  "reset_rows accountIds s =
     s\<lparr>db_overrides := filter (\<lambda>o'. \<not> list_ex (\<lambda>t. t_id t = o_transactionId o' \<and> t_accountId t \<in> set accountIds) (db_transactions s)) (db_overrides s),
       db_transactions := filter (\<lambda>t. t_accountId t \<notin> set accountIds) (db_transactions s),
       db_accounts := update_many (\<lambda>a. a_id a \<in> set accountIds) (\<lambda>a. a\<lparr>a_balanceCents := 0\<rparr>) (db_accounts s)\<rparr>"

definition resetHistory :: "int \<Rightarrow> string \<Rightarrow> string \<Rightarrow> string \<Rightarrow> staff_state \<Rightarrow> ((nat \<times> nat \<times> nat) \<times> staff_state) result" where
  "resetHistory now actor target reason st =
     ebind (require (actor \<noteq> target) (BadRequest ''Cannot reset your own history'')) (\<lambda>_.
     ebind (or_throw (NotFound ''User not found'') (staff_user_of st target)) (\<lambda>_.
     let s = ac_bank (sf_accounts st);
         accountIds = map a_id (listForUser_accounts target s);
         s1 = reset_rows accountIds s;
         counts = (length (db_transactions s) - length (db_transactions s1), length (db_overrides s) - length (db_overrides s1), length accountIds);
         s2 = fold (\<lambda>i. emit (EvAccountBalanceChanged target i 0 now)) accountIds s1;
         md = [(''deletedTransactions'', AvInt (int (fst counts))), (''deletedOverrides'', AvInt (int (fst (snd counts)))),
               (''accountsZeroed'', AvInt (int (snd (snd counts)))), (''reason'', AvText reason)]
     in if accountIds = [] then Inr ((0, 0, 0), staff_audit now actor ''user.history.reset'' target md st)
        else Inr (counts, staff_audit now actor ''user.history.reset'' target md (st\<lparr>sf_accounts := (sf_accounts st)\<lparr>ac_bank := s2\<rparr>\<rparr>))))"

section \<open>Frames\<close>

lemma set_user_sel [simp]:
  "sf_users (set_user i f st) = update_many (\<lambda>u. u_id u = i) f (sf_users st)" "sf_auth (set_user i f st) = sf_auth st"
  "sf_accounts (set_user i f st) = sf_accounts st"
  by (simp_all add: set_user_def)

lemma staff_audit_sel [simp]:
  "sf_users (staff_audit n a b c m st) = sf_users st" "sf_accounts (staff_audit n a b c m st) = sf_accounts st"
  "sa_sessions (sf_auth (staff_audit n a b c m st)) = sa_sessions (sf_auth st)"
  by (simp_all add: staff_audit_def)

lemma end_sessions_sel [simp]:
  "sf_users (end_sessions n i st) = sf_users st" "sf_accounts (end_sessions n i st) = sf_accounts st"
  "sa_sessions (sf_auth (end_sessions n i st)) = update_many (\<lambda>s. se_userId s = i \<and> live s) (revoke_row n AdminRevoke) (sa_sessions (sf_auth st))"
  by (simp_all add: end_sessions_def revokeAllForUser_def)

lemma view_sessions [simp]: "sa_sessions (auth_view st) = sa_sessions (sf_auth st)"
  by (simp add: auth_view_def)

lemma view_user:
  "user_of (bank_view st) i = map_option user.truncate (staff_user_of st i)"
  "find_first P (sa_users (auth_view st)) = map_option login_user.truncate (find_first (P \<circ> login_user.truncate) (sf_users st))"
proof -
  have "find_unique u_id i (map user.truncate t) = map_option user.truncate (find_unique u_id i t)" for t :: "staff_user list"
    by (induction t) (auto simp: user.truncate_def)
  then show "user_of (bank_view st) i = map_option user.truncate (staff_user_of st i)" by (simp add: bank_view_def)
  have "find_first P (map login_user.truncate t) = map_option login_user.truncate (find_first (P \<circ> login_user.truncate) t)" for t :: "staff_user list"
    by (induction t) (auto simp: find_first_def)
  then show "find_first P (sa_users (auth_view st)) = map_option login_user.truncate (find_first (P \<circ> login_user.truncate) (sf_users st))"
    by (simp add: auth_view_def)
qed

section \<open>What an edit changes\<close>

lemma apply_changes_append [simp]: "apply_changes (as @ bs) u = apply_changes bs (apply_changes as u)"
  by (simp add: apply_changes_def)

lemma apply_changes_simps [simp]: "apply_changes [] u = u" "apply_changes ((n, b, a, f) # cs) u = apply_changes cs (f u)"
  by (simp_all add: apply_changes_def)

lemma name_changes_keep:
  "apply_changes (name_changes dto u) x =
     x\<lparr>u_firstName := (case ud_firstName dto of None \<Rightarrow> u_firstName x | Some n \<Rightarrow> if Some (js_trim n) = u_firstName u then u_firstName x else Some (js_trim n)),
       u_lastName := (case ud_lastName dto of None \<Rightarrow> u_lastName x | Some n \<Rightarrow> if Some (js_trim n) = u_lastName u then u_lastName x else Some (js_trim n))\<rparr>"
  by (cases "ud_firstName dto"; cases "ud_lastName dto") (simp_all add: name_changes_def)

lemma tag_changes_Inr:
  assumes "tag_changes dto u st = Inr cs"
  shows "apply_changes cs = (\<lambda>x. x) \<or>
    (\<exists>v. apply_changes cs = (\<lambda>x. x\<lparr>u_novaTag := v\<rparr>) \<and> (v = None \<or> \<not> taken_by_other u_novaTag v (u_id u) st))"
  using assms by (auto simp: tag_changes_def err_simps Let_def fun_eq_iff split: option.splits if_splits)

lemma phone_changes_Inr:
  assumes "phone_changes dto u st = Inr cs"
  shows "apply_changes cs = (\<lambda>x. x) \<or>
    (\<exists>v. apply_changes cs = (\<lambda>x. x\<lparr>u_phoneE164 := v\<rparr>) \<and> (v = None \<or> \<not> taken_by_other u_phoneE164 v (u_id u) st))"
  using assms by (auto simp: phone_changes_def err_simps Let_def fun_eq_iff split: option.splits if_splits)

lemma dob_changes_Inr:
  "dob_changes dto u = Inr cs \<Longrightarrow> apply_changes cs = (\<lambda>x. x) \<or> (\<exists>v. apply_changes cs = (\<lambda>x. x\<lparr>u_dob := v\<rparr>))"
  by (auto simp: dob_changes_def err_simps fun_eq_iff split: option.splits if_splits)

lemma email_changes_Inr:
  assumes "email_changes dto u st = Inr cs"
  shows "apply_changes cs = (\<lambda>x. if wantsEmailChange dto u then x\<lparr>u_email := normalizeEmail (the (ud_email dto))\<rparr> else x)"
    and "wantsEmailChange dto u \<longrightarrow> \<not> taken_by_other u_email (normalizeEmail (the (ud_email dto))) (u_id u) st"
  using assms by (auto simp: email_changes_def err_simps Let_def fun_eq_iff split: if_splits)

lemma role_status_changes_apply:
  "apply_changes (role_status_changes dto u) x =
     x\<lparr>u_role := (if wantsRoleChange dto u then the (ud_role dto) else u_role x),
       u_status := (if wantsStatusChange dto u then the (ud_status dto) else u_status x)\<rparr>"
  by (simp add: role_status_changes_def)

lemma user_changes_Inr:
  assumes "user_changes dto u st = Inr cs"
  shows "u_id (apply_changes cs x) = u_id x"
    and "u_role (apply_changes cs x) = (if wantsRoleChange dto u then the (ud_role dto) else u_role x)"
    and "u_status (apply_changes cs x) = (if wantsStatusChange dto u then the (ud_status dto) else u_status x)"
    and "u_email (apply_changes cs x) = (if wantsEmailChange dto u then normalizeEmail (the (ud_email dto)) else u_email x)"
    and "u_novaTag (apply_changes cs x) = u_novaTag x \<or> u_novaTag (apply_changes cs x) = None \<or>
           \<not> taken_by_other u_novaTag (u_novaTag (apply_changes cs x)) (u_id u) st"
    and "u_phoneE164 (apply_changes cs x) = u_phoneE164 x \<or> u_phoneE164 (apply_changes cs x) = None \<or>
           \<not> taken_by_other u_phoneE164 (u_phoneE164 (apply_changes cs x)) (u_id u) st"
    and "wantsEmailChange dto u \<longrightarrow> \<not> taken_by_other u_email (normalizeEmail (the (ud_email dto))) (u_id u) st"
proof -
  obtain tags phones dobs emails where c: "tag_changes dto u st = Inr tags" "phone_changes dto u st = Inr phones"
    "dob_changes dto u = Inr dobs" "email_changes dto u st = Inr emails"
    and cs: "cs = name_changes dto u @ tags @ phones @ dobs @ emails @ role_status_changes dto u"
    using assms unfolding user_changes_def ebind_eq_Inr by blast
  note e = email_changes_Inr [OF c(4)]
  show "u_id (apply_changes cs x) = u_id x"
    "u_role (apply_changes cs x) = (if wantsRoleChange dto u then the (ud_role dto) else u_role x)"
    "u_status (apply_changes cs x) = (if wantsStatusChange dto u then the (ud_status dto) else u_status x)"
    "u_email (apply_changes cs x) = (if wantsEmailChange dto u then normalizeEmail (the (ud_email dto)) else u_email x)"
    "u_novaTag (apply_changes cs x) = u_novaTag x \<or> u_novaTag (apply_changes cs x) = None \<or>
       \<not> taken_by_other u_novaTag (u_novaTag (apply_changes cs x)) (u_id u) st"
    "u_phoneE164 (apply_changes cs x) = u_phoneE164 x \<or> u_phoneE164 (apply_changes cs x) = None \<or>
       \<not> taken_by_other u_phoneE164 (u_phoneE164 (apply_changes cs x)) (u_id u) st"
    using tag_changes_Inr [OF c(1)] phone_changes_Inr [OF c(2)] dob_changes_Inr [OF c(3)]
    unfolding cs apply_changes_append name_changes_keep e(1) role_status_changes_apply by (elim disjE exE conjE; simp)+
  show "wantsEmailChange dto u \<longrightarrow> \<not> taken_by_other u_email (normalizeEmail (the (ud_email dto))) (u_id u) st" by (rule e(2))
qed

lemma update_user_cases:
  assumes "update_user now actor target dto st = Inr (b, st')"
  obtains (same) "st' = st" | (changed) u cs where "staff_user_of st target = Some u"
    "\<not> (actor = target \<and> wantsRoleChange dto u)" "\<not> (actor = target \<and> wantsStatusChange dto u \<and> ud_status dto \<noteq> Some UserActive)"
    "user_changes dto u st = Inr cs" "sf_users st' = update_many (\<lambda>x. u_id x = target) (apply_changes cs) (sf_users st)"
  using assms by (auto simp: update_user_def err_simps Let_def split: if_splits)


section \<open>Steps of an administrator\<close>

inductive staff_step :: "crypto \<Rightarrow> auth_config \<Rightarrow> string \<Rightarrow> user_role \<Rightarrow> staff_state \<Rightarrow> staff_state \<Rightarrow> bool" for lib cfg actor role where
  sf_update: "update_user now actor target dto st = Inr (b, st') \<Longrightarrow> staff_step lib cfg actor role st st'"
| sf_status: "set_user_status now actor target freeze reason st = Inr (b, st') \<Longrightarrow> staff_step lib cfg actor role st st'"
| sf_reset_link: "forcePasswordReset lib cfg now jti delivered actor target reason st = Inr st' \<Longrightarrow> staff_step lib cfg actor role st st'"
| sf_password: "admin_setPassword lib now salt actor target pw must reason st = Inr st' \<Longrightarrow> staff_step lib cfg actor role st st'"
| sf_create: "create_user lib lc gen1 gen2 ids now newId salt actor role dto st = Inr st' \<Longrightarrow> staff_step lib cfg actor role st st'"
| sf_revoke: "revokeAllSessions now actor target st = (n, st') \<Longrightarrow> staff_step lib cfg actor role st st'"
| sf_purge: "resetLoginHistory now actor target st = Inr (r, st') \<Longrightarrow> staff_step lib cfg actor role st st'"
| sf_block: "setTransfersDisabled now actor target disabled why st = Inr st' \<Longrightarrow> staff_step lib cfg actor role st st'"
| sf_mute: "setEmailNotificationsDisabled now actor target disabled why st = Inr st' \<Longrightarrow> staff_step lib cfg actor role st st'"
| sf_role: "changeRole now actor role target newRole reason st = Inr st' \<Longrightarrow> staff_step lib cfg actor role st st'"
| sf_message: "sendDirectMessage now newId actor target msg ch reason st = Inr st' \<Longrightarrow> staff_step lib cfg actor role st st'"
| sf_history: "resetHistory now actor target reason st = Inr (counts, st') \<Longrightarrow> staff_step lib cfg actor role st st'"

text \<open>The unique columns of the table.\<close>

definition unique_or_null :: "('r \<Rightarrow> 'k option) \<Rightarrow> 'r list \<Rightarrow> bool" where
  "unique_or_null key t = distinct (filter (\<lambda>v. v \<noteq> None) (map key t))"

definition users_inv :: "staff_state \<Rightarrow> bool" where
  "users_inv st = (distinct (map u_id (sf_users st)) \<and> distinct (map u_email (sf_users st)) \<and>
     unique_or_null u_novaTag (sf_users st) \<and> unique_or_null u_phoneE164 (sf_users st))"

text \<open>Every step leaves the table, adds a user with free keys, or changes the row it looked at: its identifier stays,
  its keys stay free, and the actor's own row keeps its role and is not suspended.\<close>

definition keys_free :: "staff_state \<Rightarrow> staff_user \<Rightarrow> staff_user \<Rightarrow> bool" where
  "keys_free st u v =
     ((u_email v = u_email u \<or> \<not> taken_by_other u_email (u_email v) (u_id u) st) \<and>
      (u_novaTag v = u_novaTag u \<or> u_novaTag v = None \<or> \<not> taken_by_other u_novaTag (u_novaTag v) (u_id u) st) \<and>
      (u_phoneE164 v = u_phoneE164 u \<or> u_phoneE164 v = None \<or> \<not> taken_by_other u_phoneE164 (u_phoneE164 v) (u_id u) st))"

definition staff_change :: "string \<Rightarrow> staff_state \<Rightarrow> staff_state \<Rightarrow> bool" where
  "staff_change actor st st' =
     (sf_users st' = sf_users st \<or>
      (\<exists>u. sf_users st' = sf_users st @ [u] \<and> u_id u \<notin> u_id ` set (sf_users st) \<and> u_email u \<notin> u_email ` set (sf_users st) \<and>
         free_or_null u_novaTag (u_novaTag u) st \<and> free_or_null u_phoneE164 (u_phoneE164 u) st) \<or>
      (\<exists>i f u. staff_user_of st i = Some u \<and> sf_users st' = update_many (\<lambda>x. u_id x = i) f (sf_users st) \<and>
         (\<forall>x. u_id (f x) = u_id x) \<and> keys_free st u (f u) \<and>
         (i = actor \<longrightarrow> u_role (f u) = u_role u \<and> (u_status u = UserActive \<longrightarrow> u_status (f u) = UserActive))))"

lemma staff_same: "sf_users st' = sf_users st \<Longrightarrow> staff_change actor st st'"
  by (simp add: staff_change_def)

lemma staff_row:
  assumes "staff_user_of st i = Some u" "sf_users st' = update_many (\<lambda>x. u_id x = i) f (sf_users st)"
    and "\<And>x. u_id (f x) = u_id x" "keys_free st u (f u)"
    and "i = actor \<Longrightarrow> u_role (f u) = u_role u" "i = actor \<Longrightarrow> u_status u = UserActive \<Longrightarrow> u_status (f u) = UserActive"
  shows "staff_change actor st st'"
  unfolding staff_change_def by (intro disjI2 exI [where x = i] exI [where x = f] exI [where x = u]) (use assms in simp)

lemma keys_free_same [simp]:
  "u_email v = u_email u \<Longrightarrow> u_novaTag v = u_novaTag u \<Longrightarrow> u_phoneE164 v = u_phoneE164 u \<Longrightarrow> keys_free st u v"
  by (simp add: keys_free_def)

lemma update_user_change:
  assumes "update_user now actor target dto st = Inr (b, st')"
  shows "staff_change actor st st'"
  using assms
proof (cases rule: update_user_cases)
  case same
  then show ?thesis by (simp add: staff_same)
next
  case (changed u cs)
  note c = user_changes_Inr [OF changed(4)]
  show ?thesis
  proof (rule staff_row [OF changed(1,5)])
    show "u_id (apply_changes cs x) = u_id x" for x by (rule c(1))
    show "keys_free st u (apply_changes cs u)" using c(4) [of u] c(5) [of u] c(6) [of u] c(7) by (simp add: keys_free_def)
    show "u_role (apply_changes cs u) = u_role u" if "target = actor" using changed(2) that c(2) by simp
    show "u_status (apply_changes cs u) = UserActive" if "target = actor" "u_status u = UserActive"
      using changed(3) that c(3) [of u] by (auto split: if_splits)
  qed
qed

lemma staff_step_change: "staff_step lib cfg actor role st st' \<Longrightarrow> staff_change actor st st'"
proof (induction rule: staff_step.induct)
  case (sf_update now target dto st b st')
  then show ?case by (rule update_user_change)
next
  case (sf_status now target freeze reason st b st')
  then obtain u where u: "staff_user_of st target = Some u" "\<not> (actor = target \<and> freeze)"
    "st' = st \<or> sf_users st' = update_many (\<lambda>x. u_id x = target) (\<lambda>x. x\<lparr>u_status := if freeze then UserFrozen else UserActive\<rparr>) (sf_users st)"
    by (auto simp: set_user_status_def err_simps Let_def split: if_splits)
  from u(3) show ?case
  proof
    assume "sf_users st' = update_many (\<lambda>x. u_id x = target) (\<lambda>x. x\<lparr>u_status := if freeze then UserFrozen else UserActive\<rparr>) (sf_users st)"
    from staff_row [OF u(1) this] show ?thesis using u(2) by simp
  qed (simp add: staff_same)
next
  case (sf_reset_link now jti delivered target reason st st')
  then show ?case by (auto simp: forcePasswordReset_def err_simps Let_def intro!: staff_same)
next
  case (sf_password now salt target pw must reason st st')
  then obtain u where u: "staff_user_of st target = Some u" "sf_users st' = update_many (\<lambda>x. u_id x = target)
      (\<lambda>x. x\<lparr>u_passwordHash := cr_hash lib salt pw, u_securitySetupRequired := must\<rparr>) (sf_users st)"
    by (auto simp: admin_setPassword_def err_simps)
  show ?case by (rule staff_row [OF u]) simp_all
next
  case (sf_create lc gen1 gen2 ids now newId salt dto st st')
  then have "sf_users st' = sf_users st @ [new_user lib now newId salt dto]" "find_unique u_id newId (sf_users st) = None"
    "find_unique u_email (u_email (new_user lib now newId salt dto)) (sf_users st) = None"
    "free_or_null u_novaTag (u_novaTag (new_user lib now newId salt dto)) st"
    "free_or_null u_phoneE164 (u_phoneE164 (new_user lib now newId salt dto)) st" "u_id (new_user lib now newId salt dto) = newId"
    by (auto simp: create_user_def err_simps Let_def new_user_def split: if_splits)
  then show ?case unfolding staff_change_def find_unique_None_iff by (intro disjI2 disjI1 exI) auto
next
  case (sf_revoke now target st n st')
  then show ?case by (auto simp: revokeAllSessions_def Let_def split: prod.splits intro!: staff_same)
next
  case (sf_purge now target st r st')
  then show ?case by (auto simp: resetLoginHistory_def err_simps Let_def split: prod.splits intro!: staff_same)
next
  case (sf_block now target disabled why st st')
  then obtain u where u: "staff_user_of st target = Some u"
    "sf_users st' = update_many (\<lambda>x. u_id x = target) (block_row now actor disabled why) (sf_users st)"
    by (auto simp: setTransfersDisabled_def err_simps)
  show ?case by (rule staff_row [OF u]) (simp_all add: block_row_def)
next
  case (sf_mute now target disabled why st st')
  then obtain u where u: "staff_user_of st target = Some u" "sf_users st' = update_many (\<lambda>x. u_id x = target)
      (\<lambda>u. u\<lparr>u_emailNotificationsDisabled := disabled, u_emailNotificationsDisabledReason := (if disabled then opt_trim why else None),
        u_emailNotificationsDisabledAt := (if disabled then Some now else None)\<rparr>) (sf_users st)"
    by (auto simp: setEmailNotificationsDisabled_def err_simps)
  show ?case by (rule staff_row [OF u]) simp_all
next
  case (sf_role now target newRole reason st st')
  then obtain u where u: "staff_user_of st target = Some u" "target \<noteq> actor"
    "sf_users st' = update_many (\<lambda>x. u_id x = target) (\<lambda>x. x\<lparr>u_role := newRole\<rparr>) (sf_users st)"
    by (auto simp: changeRole_def err_simps)
  show ?case by (rule staff_row [OF u(1,3)]) (use u(2) in simp_all)
next
  case (sf_message now newId target msg ch reason st st')
  then show ?case by (auto simp: sendDirectMessage_def err_simps Let_def split: if_splits intro!: staff_same)
next
  case (sf_history now target reason st counts st')
  then show ?case by (auto simp: resetHistory_def err_simps Let_def split: if_splits intro!: staff_same)
qed

lemma users_inv_row:
  assumes inv: "users_inv st" and u: "staff_user_of st i = Some u" and f: "\<forall>x. u_id (f x) = u_id x" and k: "keys_free st u (f u)"
    and st': "sf_users st' = update_many (\<lambda>x. u_id x = i) f (sf_users st)"
  shows "users_inv st'"
proof -
  obtain as bs where s: "sf_users st = as @ u # bs" "sf_users st' = as @ f u # bs" "i \<notin> u_id ` set as" "i \<notin> u_id ` set bs" "u_id u = i"
    using row_split [of u_id "sf_users st" i u f] inv u st' by (auto simp: users_inv_def)
  have other: "v \<notin> key ` set as \<and> v \<notin> key ` set bs" if "\<not> taken_by_other key v (u_id u) st" for v :: 'k and key
    using that s(1,3-5) unfolding taken_by_other_def list_ex_iff by (fastforce simp: image_iff)
  have email: "u_email (f u) = u_email u \<or> u_email (f u) \<notin> u_email ` set as \<and> u_email (f u) \<notin> u_email ` set bs"
    using k other [of u_email] by (auto simp: keys_free_def)
  have opt: "unique_or_null key (as @ f u # bs)"
    if "key (f u) = key u \<or> key (f u) = None \<or> \<not> taken_by_other key (key (f u)) (u_id u) st" "unique_or_null key (as @ u # bs)"
    for key :: "staff_user \<Rightarrow> string option"
    using that(1)
  proof (elim disjE)
    assume "\<not> taken_by_other key (key (f u)) (u_id u) st"
    from other [OF this] that(2) show ?thesis unfolding unique_or_null_def by (auto split: if_splits)
  qed (use that(2) in \<open>auto simp: unique_or_null_def split: if_splits\<close>)
  have "distinct (map u_id (as @ f u # bs))" "distinct (map u_email (as @ f u # bs))"
    using inv f email unfolding users_inv_def s(1) by (auto simp: image_iff)
  moreover have "unique_or_null u_novaTag (as @ f u # bs)" "unique_or_null u_phoneE164 (as @ f u # bs)"
    by (rule opt; use inv k in \<open>simp add: users_inv_def keys_free_def s(1)\<close>)+
  ultimately show ?thesis by (simp add: users_inv_def s(2))
qed

lemma users_inv_change:
  assumes "staff_change actor st st'" "users_inv st"
  shows "users_inv st'"
  using assms(1) unfolding staff_change_def
proof (elim disjE exE conjE)
  assume "sf_users st' = sf_users st"
  then show ?thesis using assms(2) by (simp add: users_inv_def)
next
  fix u assume "sf_users st' = sf_users st @ [u]" "u_id u \<notin> u_id ` set (sf_users st)" "u_email u \<notin> u_email ` set (sf_users st)"
    "free_or_null u_novaTag (u_novaTag u) st" "free_or_null u_phoneE164 (u_phoneE164 u) st"
  then show ?thesis using assms(2) by (auto simp: users_inv_def unique_or_null_def free_or_null_def list_ex_iff)
qed (blast intro: users_inv_row [OF assms(2)])

interpretation user_keys: step_invariant "staff_step lib cfg actor role" users_inv for lib cfg actor role
  by unfold_locales (blast intro: users_inv_change staff_step_change)

text \<open>What the actor keeps of the own row.\<close>

definition keeps_powers :: "string \<Rightarrow> user_role \<Rightarrow> staff_state \<Rightarrow> bool" where
  "keeps_powers actor r st = ((case staff_user_of st actor of None \<Rightarrow> False | Some u \<Rightarrow> u_role u = r \<and> u_status u = UserActive))"

lemma keeps_powers_change:
  assumes "staff_change actor st st'" "keeps_powers actor r st"
  shows "keeps_powers actor r st'"
proof -
  obtain u where u: "staff_user_of st actor = Some u" "u_role u = r" "u_status u = UserActive"
    using assms(2) by (auto simp: keeps_powers_def split: option.splits)
  from assms(1) consider "sf_users st' = sf_users st" | v where "sf_users st' = sf_users st @ [v]" "u_id v \<notin> u_id ` set (sf_users st)"
    | i f w where "staff_user_of st i = Some w" "sf_users st' = update_many (\<lambda>x. u_id x = i) f (sf_users st)" "\<forall>x. u_id (f x) = u_id x"
        "i = actor \<longrightarrow> u_role (f w) = u_role w \<and> (u_status w = UserActive \<longrightarrow> u_status (f w) = UserActive)"
    unfolding staff_change_def by blast
  then show ?thesis
  proof cases
    case 1
    then show ?thesis using u by (simp add: keeps_powers_def)
  next
    case 2
    then have "staff_user_of st' actor = Some u" using u(1) by (simp add: find_unique_append)
    then show ?thesis using u by (simp add: keeps_powers_def)
  next
    case 3
    then show ?thesis using u by (cases "i = actor") (simp_all add: keeps_powers_def find_unique_update_many)
  qed
qed

interpretation own_powers: step_invariant "staff_step lib cfg actor role" "keeps_powers actor r" for lib cfg actor role r
  by unfold_locales (blast intro: keeps_powers_change staff_step_change)

section \<open>Properties\<close>

text \<open>C25. In every history of administrative requests no two users share an identifier, an address, a tag or
  a phone number.\<close>

theorem user_keys_stay_unique:
  assumes "(\<lambda>a b. \<exists>actor role. staff_step lib cfg actor role a b)\<^sup>*\<^sup>* st st'" "users_inv st"
  shows "distinct (map u_id (sf_users st')) \<and> distinct (map u_email (sf_users st')) \<and>
         (\<forall>u \<in> set (sf_users st'). \<forall>v \<in> set (sf_users st'). u_id u \<noteq> u_id v \<longrightarrow>
            (u_novaTag u \<noteq> None \<longrightarrow> u_novaTag u \<noteq> u_novaTag v) \<and> (u_phoneE164 u \<noteq> None \<longrightarrow> u_phoneE164 u \<noteq> u_phoneE164 v))"
proof -
  have inv: "users_inv st'" using assms
    by (induction rule: rtranclp_induct) (auto intro: user_keys.step_inv)
  have opt: "key u \<noteq> key v" if "unique_or_null key t" "u \<in> set t" "v \<in> set t" "u_id u \<noteq> u_id v" "key u \<noteq> None"
    for key :: "staff_user \<Rightarrow> string option" and t u v
  proof -
    have "inj_on key (set (filter (\<lambda>x. key x \<noteq> None) t))"
      using that(1) by (simp add: unique_or_null_def filter_map o_def distinct_map)
    then show ?thesis using that(2-5) inj_onD [of key _ u v] by fastforce
  qed
  show ?thesis using inv opt [of u_novaTag] opt [of u_phoneE164] unfolding users_inv_def by blast
qed

text \<open>No administrator can lock the own account out or change its role: in any history of requests of one
  actor the actor's row keeps its role and stays active.\<close>

theorem staff_keep_own_powers:
  assumes "(staff_step lib cfg actor role)\<^sup>*\<^sup>* st st'" "staff_user_of st actor = Some u" "u_status u = UserActive"
  shows "\<exists>v. staff_user_of st' actor = Some v \<and> u_role v = u_role u \<and> u_status v = UserActive"
proof -
  have "keeps_powers actor (u_role u) st'" by (rule own_powers.history_inv [OF assms(1)]) (simp add: keeps_powers_def assms(2,3))
  then show ?thesis by (auto simp: keeps_powers_def split: option.splits)
qed


lemma dead_session_refused:
  assumes "session_of a i = Some s" "\<not> live s" "jc_sid c = Some i"
  shows "\<not> is_ok (fst (validate cfg geo now ip c a))"
  using assms by (auto simp: validate_def is_ok_def split: option.splits)

lemma set_status_changed:
  assumes "set_user_status now actor target True reason st = Inr (False, st')"
  shows "\<exists>u. staff_user_of st target = Some u \<and> staff_user_of st' target = Some (u\<lparr>u_status := UserFrozen\<rparr>) \<and>
    sf_users st' = update_many (\<lambda>x. u_id x = target) (\<lambda>x. x\<lparr>u_status := UserFrozen\<rparr>) (sf_users st) \<and>
    sa_sessions (sf_auth st') = update_many (\<lambda>s. se_userId s = target \<and> live s) (revoke_row now AdminRevoke) (sa_sessions (sf_auth st))"
  using assms by (auto simp: set_user_status_def err_simps Let_def find_unique_update_many split: if_splits)

text \<open>A frozen customer is out at once: every session the customer had is refused on its next
  request, and a sign-in that reaches the frozen row is refused whatever the password.\<close>

theorem frozen_user_is_out:
  assumes "set_user_status now actor target True reason st = Inr (False, st')"
  shows "(session_of (auth_view st') i = Some s \<and> se_userId s = target \<and> jc_sid c = Some i \<longrightarrow>
            \<not> is_ok (fst (validate cfg geo now' ip c (auth_view st')))) \<and>
         (find_first (\<lambda>u. to_lower (u_email u) = to_lower (js_trim email)) (sa_users (auth_view st')) = Some v \<and>
            u_id v = target \<and> distinct (map u_id (sf_users st)) \<longrightarrow>
            login lib cfg geo now' ids email password x (auth_view st') = Inl (Forbidden ''Account not active''))"
proof (intro conjI impI)
  assume h: "session_of (auth_view st') i = Some s \<and> se_userId s = target \<and> jc_sid c = Some i"
  then have "s \<in> set (sa_sessions (sf_auth st'))" by (auto dest: find_unique_SomeD)
  then have "\<not> live s" using set_status_changed [OF assms] h by (auto simp: update_many_def split: if_splits)
  then show "\<not> is_ok (fst (validate cfg geo now' ip c (auth_view st')))" using dead_session_refused h by blast
next
  assume f: "find_first (\<lambda>u. to_lower (u_email u) = to_lower (js_trim email)) (sa_users (auth_view st')) = Some v \<and>
            u_id v = target \<and> distinct (map u_id (sf_users st))"
  obtain u where u: "staff_user_of st' target = Some (u\<lparr>u_status := UserFrozen\<rparr>)" "sf_users st' = update_many (\<lambda>x. u_id x = target) (\<lambda>x. x\<lparr>u_status := UserFrozen\<rparr>) (sf_users st)"
    using set_status_changed [OF assms] by blast
  from f obtain w where w: "w \<in> set (sf_users st')" "v = login_user.truncate w"
    unfolding view_user(2) by (auto dest: find_first_SomeD)
  have "u_id w = target" using f w by (simp add: login_user.truncate_def)
  moreover have "distinct (map u_id (sf_users st'))" using f u(2) by (simp add: map_update_many)
  ultimately have "w = u\<lparr>u_status := UserFrozen\<rparr>" using u(1) w(1) find_unique_in_distinct [of u_id "sf_users st'" w] by simp
  then have "u_status v = UserFrozen" using w(2) by (simp add: login_user.truncate_def)
  then show "login lib cfg geo now' ids email password x (auth_view st') = Inl (Forbidden ''Account not active'')"
    using f by (simp add: login_def or_throw_def require_def)
qed

text \<open>A block on transfers holds on the next request: every initiation of the blocked user is refused, whatever
  its kind and even when it repeats an old key, and lifting the block lifts exactly this refusal; nobody can block himself.\<close>

theorem blocked_user_moves_no_money:
  assumes "setTransfersDisabled now actor target disabled why st = Inr st'"
  shows "actor \<noteq> target \<and>
         (disabled \<longrightarrow> \<not> is_ok (initiate cf env ids target key dto (bank_view st'))) \<and>
         (\<not> disabled \<longrightarrow> transfers_enabled target (bank_view st')) \<and>
         (u \<noteq> target \<longrightarrow> user_of (bank_view st') u = user_of (bank_view st) u)"
proof -
  obtain x where x: "staff_user_of st target = Some x" "target \<noteq> actor"
    "sf_users st' = update_many (\<lambda>x. u_id x = target) (block_row now actor disabled why) (sf_users st)"
    using assms by (auto simp: setTransfersDisabled_def err_simps)
  have row: "staff_user_of st' v = (if v = target then Some (block_row now actor disabled why x) else staff_user_of st v)" for v
    unfolding x(3) using x(1) by (simp add: find_unique_update_many block_row_def)
  have view: "user_of (bank_view st') target = Some (user.truncate (block_row now actor disabled why x))"
    by (simp add: view_user(1) row)
  have d: "u_transfersDisabled (user.truncate (block_row now actor b why x)) = b" for b
    by (simp add: block_row_def user.truncate_def)
  have "disabled \<longrightarrow> \<not> is_ok (initiate cf env ids target key dto (bank_view st'))"
    using view d [of disabled] by (auto simp: initiate_def initiate_check_def is_ok_def require_def ebind_def split: if_splits)
  moreover have "\<not> disabled \<longrightarrow> transfers_enabled target (bank_view st')" using view by (simp add: transfers_enabled_def d)
  moreover have "u \<noteq> target \<longrightarrow> user_of (bank_view st') u = user_of (bank_view st) u" by (simp add: view_user(1) row)
  ultimately show ?thesis using x(2) by blast
qed

text \<open>C36. The rule that only a superadministrator hands out administrative roles is not kept: creating an
  administrator and the role endpoint refuse an ordinary administrator, but the general edit gives any other user any role.\<close>

theorem admin_mints_superadmin:
  assumes "staff_user_of st target = Some u" "target \<noteq> actor" "u_role u \<noteq> SuperAdmin"
    and "dto = \<lparr>ud_firstName = None, ud_lastName = None, ud_novaTag = None, ud_phoneE164 = None, ud_dob = None, ud_email = None,
           ud_role = Some SuperAdmin, ud_status = None, ud_reason = reason\<rparr>"
  shows "\<not> is_ok (changeRole now actor Admin target SuperAdmin reason st) \<and>
         (cd_role c = Some SuperAdmin \<longrightarrow> \<not> is_ok (create_user lib lc gen1 gen2 ids now newId salt actor Admin c st)) \<and>
         (\<exists>st' v. update_user now actor target dto st = Inr (False, st') \<and> staff_user_of st' target = Some v \<and> u_role v = SuperAdmin)"
proof (intro conjI impI)
  show "\<not> is_ok (changeRole now actor Admin target SuperAdmin reason st)"
    by (simp add: changeRole_def require_def is_ok_def)
  show "\<not> is_ok (create_user lib lc gen1 gen2 ids now newId salt actor Admin c st)" if "cd_role c = Some SuperAdmin"
    using that by (simp add: create_user_def require_def is_ok_def opt_or_def)
  define cs :: "user_change list" where "cs = role_status_changes dto u"
  have w: "wantsRoleChange dto u" "\<not> wantsStatusChange dto u" "\<not> wantsEmailChange dto u" "user_changes dto u st = Inr cs" "cs \<noteq> []"
    using assms(3) by (simp_all add: assms(4) wantsRoleChange_def wantsStatusChange_def wantsEmailChange_def user_changes_def tag_changes_def
        phone_changes_def dob_changes_def email_changes_def name_changes_def cs_def role_status_changes_def)
  define st' where "st' = staff_audit now actor ''user.update'' target (change_log cs (ud_reason dto))
      (end_sessions now target (set_user target (apply_changes cs) st))"
  have "update_user now actor target dto st = Inr (False, st')"
    using assms(1,2) w by (simp add: update_user_def or_throw_def require_def st'_def)
  moreover have "staff_user_of st' target = Some (apply_changes cs u)"
    using assms(1) user_changes_Inr(1) [OF w(4)] by (simp add: st'_def find_unique_update_many)
  moreover have "u_role (apply_changes cs u) = SuperAdmin" using user_changes_Inr(2) [OF w(4)] w(1) by (simp add: assms(4))
  ultimately show "\<exists>st' v. update_user now actor target dto st = Inr (False, st') \<and> staff_user_of st' target = Some v \<and> u_role v = SuperAdmin"
    by blast
qed


text \<open>A new password of the administrator replaces the old one and ends every session of the customer.\<close>

lemma admin_password_replaces:
  assumes "admin_setPassword lib now salt actor target pw must reason st = Inr st'" "argon_laws lib"
  shows "\<exists>u. staff_user_of st' target = Some u \<and> cr_check lib (u_passwordHash u) pw \<and> u_securitySetupRequired u = must \<and>
    (\<forall>s \<in> set (sa_sessions (sf_auth st')). se_userId s = target \<longrightarrow> \<not> live s)"
proof -
  obtain u where u: "staff_user_of st target = Some u"
    and st': "sf_users st' = update_many (\<lambda>x. u_id x = target) (\<lambda>x. x\<lparr>u_passwordHash := cr_hash lib salt pw, u_securitySetupRequired := must\<rparr>) (sf_users st)"
      "sa_sessions (sf_auth st') = update_many (\<lambda>s. se_userId s = target \<and> live s) (revoke_row now AdminRevoke) (sa_sessions (sf_auth st))"
    using assms(1) by (auto simp: admin_setPassword_def err_simps)
  have "staff_user_of st' target = Some (u\<lparr>u_passwordHash := cr_hash lib salt pw, u_securitySetupRequired := must\<rparr>)"
    unfolding st'(1) using u by (simp add: find_unique_update_many)
  moreover have "\<forall>s \<in> set (sa_sessions (sf_auth st')). se_userId s = target \<longrightarrow> \<not> live s"
    unfolding st'(2) by (auto simp: update_many_def)
  ultimately show ?thesis using assms(2) by (simp add: argon_laws_def)
qed

text \<open>The reset of a history leaves the journal, so every account of the customer is off its sub-ledger by the
  balance it had.\<close>

lemma reset_history_drifts:
  assumes "resetHistory now actor target reason st = Inr (counts, st')" "account_of (ac_bank (sf_accounts st)) k = Some a" "a_userId a = target"
  shows "drift (ac_bank (sf_accounts st')) k = map_option (\<lambda>d. d - a_balanceCents a) (drift (ac_bank (sf_accounts st)) k)"
proof -
  let ?s = "ac_bank (sf_accounts st)" and ?s' = "ac_bank (sf_accounts st')"
  define ids where "ids = map a_id (listForUser_accounts target ?s)"
  have k: "a_id a = k" "k \<in> set ids" using assms(2,3) by (auto simp: ids_def listForUser_accounts_def dest: find_unique_SomeD)
  then have ne: "listForUser_accounts target ?s \<noteq> []" by (auto simp: ids_def)
  have fold: "db_accounts (fold (\<lambda>i. emit (EvAccountBalanceChanged target i 0 now)) is s) = db_accounts s \<and>
      db_postings (fold (\<lambda>i. emit (EvAccountBalanceChanged target i 0 now)) is s) = db_postings s" for "is" s
    by (induction "is" arbitrary: s) simp_all
  have s': "db_postings ?s' = db_postings ?s"
    "db_accounts ?s' = update_many (\<lambda>a. a_id a \<in> set ids) (\<lambda>a. a\<lparr>a_balanceCents := 0\<rparr>) (db_accounts ?s)"
    using assms(1) ne fold by (auto simp: resetHistory_def err_simps Let_def reset_rows_def ids_def [symmetric] split: if_splits)
  have "account_of ?s' k = Some (a\<lparr>a_balanceCents := 0\<rparr>)"
    unfolding s'(2) using assms(2) k by (simp add: find_unique_update_where)
  then show ?thesis using assms(2) s'(1) by (simp add: drift_def net_of_def)
qed


end
