(* ===== verification/Samples_Admin.thy ===== *)
theory Samples_Admin
  imports Samples_Products User_Admin
begin

text \<open>
  Concrete runs of the administration: a customer and an administrator, a freeze, a block and an edit.
\<close>

definition staff_member :: "login_user \<Rightarrow> string \<Rightarrow> string \<Rightarrow> user_role \<Rightarrow> staff_user" where
  "staff_member l i e r = login_user.extend (l\<lparr>u_id := i, u_email := e, u_phoneE164 := None, u_role := r\<rparr>)
     \<lparr>u_dob = None, u_createdAt = 0, u_transfersDisabledReason = None, u_transfersDisabledAt = None, u_transfersDisabledByUserId = None,
      u_emailNotificationsDisabledReason = None, u_emailNotificationsDisabledAt = None\<rparr>"

definition ann_session :: session where
  "ann_session = \<lparr>se_id = ''s1'', se_userId = ''u1'', se_deviceId = ''d1'', se_accessTokenJti = ''a'', se_refreshTokenHash = ''h'',
     se_refreshTokenFamilyId = ''f'', se_createdAt = 0, se_expiresAt = 100000, se_lastSeenAt = 0, se_revokedAt = None, se_revokedReason = None\<rparr>"

definition office :: staff_state where
  "office = \<lparr>sf_users = [staff_member ann ''u1'' ''ann@x'' Customer, staff_member ann ''u9'' ''boss@x'' Admin],
     sf_auth = empty_auth\<lparr>sa_sessions := [ann_session]\<rparr>,
     sf_accounts = \<lparr>ac_bank = sample_bank, ac_limits = [], ac_events = []\<rparr>, sf_notes = no_notes, sf_popups = [], sf_resetLinks = []\<rparr>"

lemma office_users [simp]:
  "sf_users office = [staff_member ann ''u1'' ''ann@x'' Customer, staff_member ann ''u9'' ''boss@x'' Admin]"
  "u_id (staff_member l i e r) = i" "u_email (staff_member l i e r) = e" "u_role (staff_member l i e r) = r"
  "u_status (staff_member l i e r) = u_status l" "u_novaTag (staff_member l i e r) = u_novaTag l" "u_phoneE164 (staff_member l i e r) = None"
  by (simp_all add: office_def staff_member_def login_user.extend_def)

definition freeze_ann :: "(bool \<times> staff_state) result" where
  "freeze_ann = set_user_status 50 ''u9'' ''u1'' True ''fraud'' office"

definition frozen_office :: staff_state where
  "frozen_office = (case freeze_ann of Inl _ \<Rightarrow> office | Inr (_, s) \<Rightarrow> s)"

lemma freeze_ann: "freeze_ann = Inr (False, frozen_office)"
proof -
  have "\<exists>s. freeze_ann = Inr (False, s)"
    by (simp add: freeze_ann_def set_user_status_def or_throw_def require_def ann_def)
  then obtain s where f: "freeze_ann = Inr (False, s)" by blast
  show ?thesis unfolding frozen_office_def f by simp
qed

lemma freeze_step: "staff_step plain_lib default_auth_config ''u9'' Admin office frozen_office"
  by (rule sf_status [OF freeze_ann [unfolded freeze_ann_def]])

theorem user_keys_witness:
  "frozen_office \<noteq> office \<and> distinct (map u_email (sf_users frozen_office))"
proof -
  have inv: "users_inv office" by (simp add: users_inv_def unique_or_null_def ann_def)
  have h: "(\<lambda>a b. \<exists>actor role. staff_step plain_lib default_auth_config actor role a b)\<^sup>*\<^sup>* office frozen_office"
    using freeze_step by blast
  have "map u_status (sf_users frozen_office) \<noteq> map u_status (sf_users office)"
    using set_status_changed [OF freeze_ann [unfolded freeze_ann_def]] by (auto simp: ann_def)
  then show ?thesis using user_keys_stay_unique [OF h inv] by auto
qed

theorem staff_keep_own_powers_witness:
  "\<exists>v. staff_user_of frozen_office ''u9'' = Some v \<and> u_role v = Admin \<and> u_status v = UserActive"
proof -
  have "staff_user_of office ''u9'' = Some (staff_member ann ''u9'' ''boss@x'' Admin)" by simp
  from staff_keep_own_powers [OF r_into_rtranclp [where r = "staff_step plain_lib default_auth_config ''u9'' Admin", OF freeze_step] this]
  show ?thesis by (simp add: ann_def)
qed

theorem frozen_user_witness:
  "\<not> is_ok (fst (validate default_auth_config (\<lambda>_. None) 60 '''' ((no_claims ''j'')\<lparr>jc_sub := Some ''u1'', jc_sid := Some ''s1''\<rparr>) (auth_view frozen_office))) \<and>
   login plain_lib default_auth_config (\<lambda>_. None) 60 ids1 ''Ann@x'' ''secret'' desk (auth_view frozen_office) = Inl (Forbidden ''Account not active'')"
proof -
  let ?c = "(no_claims ''j'')\<lparr>jc_sub := Some ''u1'', jc_sid := Some ''s1''\<rparr>"
  have s: "sa_sessions (auth_view frozen_office) = [revoke_row 50 AdminRevoke ann_session]" "sf_users frozen_office =
      [(staff_member ann ''u1'' ''ann@x'' Customer)\<lparr>u_status := UserFrozen\<rparr>, staff_member ann ''u9'' ''boss@x'' Admin]"
    using set_status_changed [OF freeze_ann [unfolded freeze_ann_def]] by (auto simp: office_def ann_session_def live_def)
  then have a: "session_of (auth_view frozen_office) ''s1'' = Some (revoke_row 50 AdminRevoke ann_session)"
    by (simp add: revoke_row_def ann_session_def)
  have "to_lower ''ann@x'' = to_lower (js_trim ''Ann@x'')" by code_simp
  then have b: "find_first (\<lambda>u. to_lower (u_email u) = to_lower (js_trim ''Ann@x'')) (sa_users (auth_view frozen_office)) =
      Some (login_user.truncate ((staff_member ann ''u1'' ''ann@x'' Customer)\<lparr>u_status := UserFrozen\<rparr>))"
    by (simp add: auth_view_def s(2) find_first_def login_user.truncate_def)
  note f = frozen_user_is_out [OF freeze_ann [unfolded freeze_ann_def]]
  have "\<not> is_ok (fst (validate default_auth_config (\<lambda>_. None) 60 '''' ?c (auth_view frozen_office)))"
    by (rule f [THEN conjunct1, rule_format, of "''s1''" "revoke_row 50 AdminRevoke ann_session"]) (use a in \<open>simp add: revoke_row_def ann_session_def\<close>)
  moreover have "login plain_lib default_auth_config (\<lambda>_. None) 60 ids1 ''Ann@x'' ''secret'' desk (auth_view frozen_office) = Inl (Forbidden ''Account not active'')"
    by (rule f [THEN conjunct2, rule_format, OF conjI, OF b]) (simp add: login_user.truncate_def)
  ultimately show ?thesis by blast
qed

theorem blocked_user_witness:
  "\<exists>st. setTransfersDisabled 50 ''u9'' ''u1'' True (Some ''audit'') office = Inr st \<and>
     \<not> is_ok (initiate default_config sample_env (''t1'', ''x1'') ''u1'' ''k1'' (sample_dto P2P ''c1'' (Some ''c2'') 1000) (bank_view st))"
proof -
  obtain st where s: "setTransfersDisabled 50 ''u9'' ''u1'' True (Some ''audit'') office = Inr st"
    by (simp add: setTransfersDisabled_def or_throw_def require_def)
  from blocked_user_moves_no_money [OF s] s show ?thesis by blast
qed

theorem admin_mints_witness:
  "\<exists>st v. update_user 50 ''u9'' ''u1'' \<lparr>ud_firstName = None, ud_lastName = None, ud_novaTag = None, ud_phoneE164 = None, ud_dob = None,
       ud_email = None, ud_role = Some SuperAdmin, ud_status = None, ud_reason = ''x''\<rparr> office = Inr (False, st) \<and>
     staff_user_of st ''u1'' = Some v \<and> u_role v = SuperAdmin"
proof -
  have "staff_user_of office ''u1'' = Some (staff_member ann ''u1'' ''ann@x'' Customer)" by simp
  from admin_mints_superadmin [OF this, of "''u9''", OF _ _ refl] show ?thesis by simp
qed

end
