(* ===== verification/Biometric.thy ===== *)
theory Biometric
  imports Sign_In Notifications
begin

text \<open>
  Passkeys (\<^verbatim>\<open>biometric/biometric.service.ts\<close>) and the passwordless sign-in
  (\<^verbatim>\<open>biometric/biometric-auth.controller.ts\<close>). The verification of registrations and assertions is a library,
  the record \<open>webauthn\<close>; a response of the browser is given by the fields the service reads from it.
\<close>

section \<open>State\<close>

record enrollment =
  be_id :: string
  be_userId :: string
  be_deviceId :: string
  be_credentialId :: string
  be_publicKey :: string
  be_signCount :: int
  be_transports :: "string list"
  be_createdAt :: int
  be_lastUsedAt :: "int option"
  be_disabledAt :: "int option"

record bio_challenge =
  bc_id :: string
  bc_userId :: string
  bc_challenge :: string
  bc_type :: string
  bc_expiresAt :: int
  bc_consumedAt :: "int option"

record bio_state =
  bs_auth :: auth_state
  bs_enrollments :: "enrollment list"
  bs_challenges :: "bio_challenge list"
  bs_pending :: "(string \<times> string \<times> int) list"
    \<comment> \<open>handle, challenge, expiry; kept in memory\<close>
  bs_notes :: notes_state

text \<open>The response: the challenge its client data carries, the identifier of the credential, the
  transports, and the rest that only the library reads.\<close>

record ceremony =
  ce_challenge :: "string option"
  ce_credentialId :: "string option"
  ce_transports :: "string list"
  ce_payload :: string

text \<open>The library: expected challenge, origins and relying parties, then the response; an assertion is
  checked against a public key and a counter and answers with the new counter.\<close>

record webauthn =
  wa_register :: "string \<Rightarrow> string list \<Rightarrow> string list \<Rightarrow> ceremony \<Rightarrow> (string \<times> string \<times> int) option result"
  wa_assert :: "string \<Rightarrow> string list \<Rightarrow> string list \<Rightarrow> string \<Rightarrow> int \<Rightarrow> ceremony \<Rightarrow> int option result"

record bio_config =
  bf_rpIds :: "string list"
  bf_origins :: "string list"

definition PASSWORDLESS_CHALLENGE_TTL_MS :: int where
  "PASSWORDLESS_CHALLENGE_TTL_MS = 300000"

definition splitCsv :: "string \<Rightarrow> string list" where
  "splitCsv s = filter (\<lambda>v. v \<noteq> '''') (map js_trim (split_on (CHR '','') s))"

definition default_bio_config :: bio_config where
  "default_bio_config = \<lparr>bf_rpIds = splitCsv ''localhost'', bf_origins = splitCsv ''http://localhost:3000''\<rparr>"

fun index_of :: "'a \<Rightarrow> 'a list \<Rightarrow> nat option" where
  "index_of x [] = None"
| "index_of x (y # ys) = (if y = x then Some 0 else map_option Suc (index_of x ys))"

definition nth_or :: "'a list \<Rightarrow> nat \<Rightarrow> 'a \<Rightarrow> 'a" where
  "nth_or xs n d = (if n < length xs then xs ! n else d)"

text \<open>The pair of relying party and origin; \<open>host\<close> is the host name of a URL, when it is one.\<close>

definition resolveRp :: "(string \<Rightarrow> string option) \<Rightarrow> bio_config \<Rightarrow> string option \<Rightarrow> string \<times> string" where
  "resolveRp host cf requestOrigin =
     (let dflt = (nth_or (bf_rpIds cf) 0 '''', nth_or (bf_origins cf) 0 '''') in
      case requestOrigin of
        None \<Rightarrow> dflt
      | Some o' \<Rightarrow>
          if o' = '''' then dflt
          else case index_of o' (bf_origins cf) of
            Some n \<Rightarrow> (nth_or (bf_rpIds cf) n (nth_or (bf_rpIds cf) 0 ''''), bf_origins cf ! n)
          | None \<Rightarrow>
              (case host o' of
                 None \<Rightarrow> dflt
               | Some h \<Rightarrow>
                   (case index_of h (bf_rpIds cf) of
                      None \<Rightarrow> dflt
                    | Some n \<Rightarrow> (bf_rpIds cf ! n, nth_or (bf_origins cf) n o'))))"

definition expected_origins :: "(string \<Rightarrow> string option) \<Rightarrow> bio_config \<Rightarrow> string option \<Rightarrow> string list" where
  "expected_origins host cf ro = (if 1 < length (bf_origins cf) then bf_origins cf else [snd (resolveRp host cf ro)])"

definition expected_rpIds :: "(string \<Rightarrow> string option) \<Rightarrow> bio_config \<Rightarrow> string option \<Rightarrow> string list" where
  "expected_rpIds host cf ro = (if 1 < length (bf_rpIds cf) then bf_rpIds cf else [fst (resolveRp host cf ro)])"

definition notifySecurity :: "int \<Rightarrow> string \<Rightarrow> string \<Rightarrow> string \<Rightarrow> string \<Rightarrow> bio_state \<Rightarrow> bio_state" where
  "notifySecurity now noteId userId title body st =
     st\<lparr>bs_notes := try_note now noteId
        \<lparr>ni_userId = userId, ni_category = NcSecurity, ni_title = title, ni_body = body, ni_ctaUrl = Some ''/profile/security''\<rparr> (bs_notes st)\<rparr>"

section \<open>Enrolment\<close>

definition add_bio_challenge :: "int \<Rightarrow> string \<Rightarrow> string \<Rightarrow> string \<Rightarrow> string \<Rightarrow> bio_state \<Rightarrow> bio_state result" where
  "add_bio_challenge now newId userId challenge ty st =
     ebind (create_unique ''id'' bc_id
              \<lparr>bc_id = newId, bc_userId = userId, bc_challenge = challenge, bc_type = ty, bc_expiresAt = now + 5 * 60 * 1000, bc_consumedAt = None\<rparr>
              (bs_challenges st)) (\<lambda>t. Inr (st\<lparr>bs_challenges := t\<rparr>))"

text \<open>The options carry the names shown by the authenticator; \<open>challenge\<close> is the library's random value.\<close>

definition beginRegistration :: "int \<Rightarrow> string \<Rightarrow> string \<Rightarrow> string \<Rightarrow> bio_state \<Rightarrow> ((string \<times> string \<times> string) \<times> bio_state) result" where
  "beginRegistration now newId challenge userId st =
     (let user = login_user_of (bs_auth st) userId;
          userName = (case user of None \<Rightarrow> userId | Some u \<Rightarrow> u_email u);
          shown = (case user of None \<Rightarrow> userId
                   | Some u \<Rightarrow> (let n = js_trim (join_with '' '' (filter (\<lambda>s. s \<noteq> '''') [opt_or (u_firstName u) '''', opt_or (u_lastName u) '''']))
                                in if n \<noteq> '''' then n else if u_email u \<noteq> '''' then u_email u else userId))
      in ebind (add_bio_challenge now newId userId challenge ''registration'' st) (\<lambda>st1. Inr ((challenge, userName, shown), st1)))"

text \<open>The row of the challenge the browser signed, not yet used.\<close>

definition signed_challenge :: "string \<Rightarrow> string \<Rightarrow> ceremony \<Rightarrow> bio_state \<Rightarrow> bio_challenge option" where
  "signed_challenge userId ty r st =
     (if truthy_str (ce_challenge r)
      then find_first (\<lambda>c. bc_userId c = userId \<and> bc_type c = ty \<and> bc_challenge c = the (ce_challenge r) \<and> bc_consumedAt c = None) (bs_challenges st)
      else None)"

definition consume_challenge :: "int \<Rightarrow> string \<Rightarrow> bio_state \<Rightarrow> bio_state" where
  "consume_challenge now i st = st\<lparr>bs_challenges := update_many (\<lambda>c. bc_id c = i) (\<lambda>c. c\<lparr>bc_consumedAt := Some now\<rparr>) (bs_challenges st)\<rparr>"

definition enrollment_at :: "string \<Rightarrow> string \<Rightarrow> enrollment list \<Rightarrow> enrollment option" where
  "enrollment_at userId deviceId t = find_unique (\<lambda>e. (be_userId e, be_deviceId e)) (userId, deviceId) t"

text \<open>The unique columns: an update that would give two rows the same user and device fails.\<close>

definition move_enrollment :: "string \<Rightarrow> (enrollment \<Rightarrow> enrollment) \<Rightarrow> enrollment list \<Rightarrow> enrollment list result" where
  "move_enrollment i f t =
     ebind (require (\<not> list_ex (\<lambda>e. be_id e = i \<and> list_ex (\<lambda>e'. be_id e' \<noteq> i \<and> (be_userId e', be_deviceId e') = (be_userId (f e), be_deviceId (f e))) t) t)
              (UniqueViolation ''userId_deviceId'')) (\<lambda>_.
     Inr (update_many (\<lambda>e. be_id e = i) f t))"

definition insert_enrollment :: "enrollment \<Rightarrow> enrollment list \<Rightarrow> enrollment list result" where
  "insert_enrollment e t =
     ebind (create_unique ''userId_deviceId'' (\<lambda>e. (be_userId e, be_deviceId e)) e t) (\<lambda>_.
     ebind (create_unique ''credentialId'' be_credentialId e t) (\<lambda>_. create_unique ''id'' be_id e t))"

text \<open>The row of a user and device: written over when it exists, created otherwise.\<close>

definition upsert_enrollment :: "(enrollment \<Rightarrow> enrollment) \<Rightarrow> enrollment \<Rightarrow> enrollment list \<Rightarrow> enrollment list result" where
  "upsert_enrollment f e t =
     (case enrollment_at (be_userId e) (be_deviceId e) t of
        Some old \<Rightarrow>
          ebind (require (find_unique be_credentialId (be_credentialId (f old)) (filter (\<lambda>x. be_id x \<noteq> be_id old) t) = None)
                   (UniqueViolation ''credentialId'')) (\<lambda>_.
          Inr (update_many (\<lambda>x. be_id x = be_id old) f t))
      | None \<Rightarrow> insert_enrollment e t)"

definition enabled_title :: string where "enabled_title = ''Biometric sign-in enabled''"

definition enabled_body :: string where
  "enabled_body = ''A passkey was added to your account. If this wasn't you, remove it and change your password right away.''"

definition finishRegistration ::
  "webauthn \<Rightarrow> (string \<Rightarrow> string option) \<Rightarrow> bio_config \<Rightarrow> int \<Rightarrow> string \<times> string \<Rightarrow> string \<Rightarrow> string \<Rightarrow> ceremony \<Rightarrow> string option \<Rightarrow> bio_state \<Rightarrow>
     bio_state result" where
  "finishRegistration wa host cf now ids userId deviceId r ro st =
     ebind (or_throw (NotFound ''No matching registration challenge (expired or already used)'') (signed_challenge userId ''registration'' r st)) (\<lambda>c.
     ebind (require (\<not> bc_expiresAt c < now) (BadRequest ''Challenge expired'')) (\<lambda>_.
     ebind (wa_register wa (bc_challenge c) (expected_origins host cf ro) (expected_rpIds host cf ro) r) (\<lambda>v.
     ebind (or_throw (BadRequest ''Verification failed'') v) (\<lambda>(credentialId, publicKey, counter).
     let existing = find_unique be_credentialId credentialId (bs_enrollments st) in
     ebind (require (case existing of None \<Rightarrow> True | Some e \<Rightarrow> be_userId e = userId)
              (BadRequest ''Credential already registered to another account'')) (\<lambda>_.
     ebind (case existing of
              Some e \<Rightarrow> move_enrollment (be_id e) (\<lambda>x. x\<lparr>be_deviceId := deviceId, be_publicKey := publicKey, be_signCount := counter,
                          be_transports := ce_transports r, be_lastUsedAt := Some now, be_disabledAt := None\<rparr>) (bs_enrollments st)
            | None \<Rightarrow> upsert_enrollment (\<lambda>x. x\<lparr>be_credentialId := credentialId, be_publicKey := publicKey, be_signCount := counter,
                          be_transports := ce_transports r, be_lastUsedAt := Some now, be_disabledAt := None\<rparr>)
                        \<lparr>be_id = fst ids, be_userId = userId, be_deviceId = deviceId, be_credentialId = credentialId, be_publicKey = publicKey,
                         be_signCount = counter, be_transports = ce_transports r, be_createdAt = now, be_lastUsedAt = None, be_disabledAt = None\<rparr>
                        (bs_enrollments st)) (\<lambda>t.
     Inr (notifySecurity now (snd ids) userId enabled_title enabled_body ((consume_challenge now (bc_id c) st)\<lparr>bs_enrollments := t\<rparr>))))))))"

definition list_passkeys :: "string \<Rightarrow> bio_state \<Rightarrow> (enrollment \<times> device option) list" where
  "list_passkeys userId st =
     map (\<lambda>e. (e, find_unique de_id (be_deviceId e) (sa_devices (bs_auth st))))
       (rev (sort_key be_createdAt (filter (\<lambda>e. be_userId e = userId \<and> be_disabledAt e = None) (bs_enrollments st))))"

definition set_enrollment :: "string \<Rightarrow> (enrollment \<Rightarrow> enrollment) \<Rightarrow> bio_state \<Rightarrow> bio_state" where
  "set_enrollment i f st = st\<lparr>bs_enrollments := update_many (\<lambda>e. be_id e = i) f (bs_enrollments st)\<rparr>"

definition remove_passkey :: "int \<Rightarrow> string \<Rightarrow> string \<Rightarrow> string \<Rightarrow> bio_state \<Rightarrow> bio_state result" where
  "remove_passkey now noteId userId i st =
     ebind (or_throw (NotFound ''Enrollment not found'') (find_unique be_id i (bs_enrollments st))) (\<lambda>e.
     ebind (require (be_userId e = userId) (NotFound ''Enrollment not found'')) (\<lambda>_.
     Inr (if be_disabledAt e \<noteq> None then st
          else notifySecurity now noteId userId ''Biometric sign-in disabled''
                 ''A passkey was removed from your account. If this wasn't you, change your password and review your active sessions.''
                 (set_enrollment i (\<lambda>e. e\<lparr>be_disabledAt := Some now\<rparr>) st))))"

definition beginRebind :: "int \<Rightarrow> string \<Rightarrow> string \<Rightarrow> string \<Rightarrow> bio_state \<Rightarrow> ((string \<times> string list) \<times> bio_state) result" where
  "beginRebind now newId challenge userId st =
     (let allow = map be_credentialId (filter (\<lambda>e. be_userId e = userId) (bs_enrollments st))
      in ebind (add_bio_challenge now newId userId challenge ''rebind'' st) (\<lambda>st1. Inr ((challenge, allow), st1)))"

definition finishRebind ::
  "webauthn \<Rightarrow> (string \<Rightarrow> string option) \<Rightarrow> bio_config \<Rightarrow> int \<Rightarrow> string \<times> string \<Rightarrow> string \<Rightarrow> string \<Rightarrow> ceremony \<Rightarrow> string option \<Rightarrow> bio_state \<Rightarrow>
     bio_state result" where
  "finishRebind wa host cf now ids userId deviceId r ro st =
     ebind (or_throw (NotFound ''No pending rebind'') (signed_challenge userId ''rebind'' r st)) (\<lambda>c.
     ebind (require (\<not> bc_expiresAt c < now) (BadRequest ''Rebind challenge expired'')) (\<lambda>_.
     ebind (require (truthy_str (ce_credentialId r)) (BadRequest ''Malformed rebind assertion'')) (\<lambda>_.
     let cid = the (ce_credentialId r); existing = find_unique be_credentialId cid (bs_enrollments st) in
     ebind (require (case existing of None \<Rightarrow> True | Some e \<Rightarrow> be_userId e = userId) (Unauthorized ''Credential belongs to another account'')) (\<lambda>_.
     ebind (case existing of
              Some e \<Rightarrow>
                ebind (wa_assert wa (bc_challenge c) (expected_origins host cf ro) (expected_rpIds host cf ro) (be_publicKey e) (be_signCount e) r) (\<lambda>v.
                ebind (or_throw (Unauthorized ''Rebind verification failed'') v) (\<lambda>counter.
                move_enrollment (be_id e) (\<lambda>x. x\<lparr>be_deviceId := deviceId, be_signCount := counter, be_lastUsedAt := Some now, be_disabledAt := None\<rparr>)
                  (bs_enrollments st)))
            | None \<Rightarrow>
                upsert_enrollment (\<lambda>x. x\<lparr>be_credentialId := cid, be_transports := ce_transports r, be_lastUsedAt := Some now, be_disabledAt := None\<rparr>)
                  \<lparr>be_id = fst ids, be_userId = userId, be_deviceId = deviceId, be_credentialId = cid, be_publicKey = '''', be_signCount = 0,
                   be_transports = ce_transports r, be_createdAt = now, be_lastUsedAt = None, be_disabledAt = None\<rparr> (bs_enrollments st)) (\<lambda>t.
     Inr (notifySecurity now (snd ids) userId enabled_title enabled_body ((consume_challenge now (bc_id c) st)\<lparr>bs_enrollments := t\<rparr>)))))))"

definition reactivate :: "int \<Rightarrow> string \<Rightarrow> string \<Rightarrow> string \<Rightarrow> bio_state \<Rightarrow> bool \<times> bio_state" where
  "reactivate now noteId userId deviceId st =
     (case enrollment_at userId deviceId (bs_enrollments st) of
        None \<Rightarrow> (False, st)
      | Some e \<Rightarrow>
          if be_disabledAt e = None then (False, st)
          else (True, notifySecurity now noteId userId enabled_title
                  ''A passkey was re-enabled on your account. If this wasn't you, remove it and change your password right away.''
                  (set_enrollment (be_id e) (\<lambda>x. x\<lparr>be_disabledAt := None, be_lastUsedAt := Some now\<rparr>) st)))"

section \<open>Passwordless sign-in\<close>

definition sweepExpiredChallenges :: "int \<Rightarrow> bio_state \<Rightarrow> bio_state" where
  "sweepExpiredChallenges now st = st\<lparr>bs_pending := filter (\<lambda>p. \<not> snd (snd p) < now) (bs_pending st)\<rparr>"

definition allowed_credentials :: "string option \<Rightarrow> bio_state \<Rightarrow> (string \<times> string list) list option" where
  "allowed_credentials email st =
     (if truthy_str email
      then case find_unique u_email (to_lower (js_trim (the email))) (sa_users (bs_auth st)) of
             None \<Rightarrow> None
           | Some u \<Rightarrow>
               (let es = filter (\<lambda>e. be_userId e = u_id u \<and> be_disabledAt e = None) (bs_enrollments st)
                in if es = [] then None else Some (map (\<lambda>e. (be_credentialId e, be_transports e)) es))
      else None)"

definition beginAuthentication :: "int \<Rightarrow> string \<Rightarrow> string \<Rightarrow> string option \<Rightarrow> bio_state \<Rightarrow> (string \<times> (string \<times> string list) list option) \<times> bio_state" where
  "beginAuthentication now handle challenge email st =
     (let allow = allowed_credentials email st; st1 = sweepExpiredChallenges now st
      in ((handle, allow), st1\<lparr>bs_pending := filter (\<lambda>p. fst p \<noteq> handle) (bs_pending st1) @ [(handle, challenge, now + PASSWORDLESS_CHALLENGE_TTL_MS)]\<rparr>))"

definition auth_check ::
  "webauthn \<Rightarrow> (string \<Rightarrow> string option) \<Rightarrow> bio_config \<Rightarrow> int \<Rightarrow> string \<times> int \<Rightarrow> ceremony \<Rightarrow> string option \<Rightarrow> bio_state \<Rightarrow> (enrollment \<times> int) result" where
  "auth_check wa host cf now pending r ro st =
     ebind (require (\<not> snd pending < now) (BadRequest ''Biometric challenge expired'')) (\<lambda>_.
     ebind (require (truthy_str (ce_credentialId r)) (BadRequest ''Malformed biometric assertion'')) (\<lambda>_.
     let found = find_unique be_credentialId (the (ce_credentialId r)) (bs_enrollments st) in
     ebind (require (case found of None \<Rightarrow> True | Some e \<Rightarrow> be_disabledAt e = None) (Unauthorized ''Biometric is disabled for this account'')) (\<lambda>_.
     ebind (or_throw (Unauthorized ''Unknown biometric credential'') found) (\<lambda>e.
     ebind (wa_assert wa (fst pending) (expected_origins host cf ro) (expected_rpIds host cf ro) (be_publicKey e) (be_signCount e) r) (\<lambda>v.
     ebind (or_throw (Unauthorized ''Biometric verification failed'') v) (\<lambda>counter. Inr (e, counter)))))))"

text \<open>The handle is spent whatever follows.\<close>

definition finishAuthentication ::
  "webauthn \<Rightarrow> (string \<Rightarrow> string option) \<Rightarrow> bio_config \<Rightarrow> int \<Rightarrow> string \<Rightarrow> ceremony \<Rightarrow> string option \<Rightarrow> bio_state \<Rightarrow>
     (string \<times> string) result \<times> bio_state" where
  "finishAuthentication wa host cf now handle r ro st =
     (case map_of (bs_pending st) handle of
        None \<Rightarrow> (Inl (BadRequest ''No pending biometric challenge''), st)
      | Some pending \<Rightarrow>
          (let st1 = st\<lparr>bs_pending := filter (\<lambda>p. fst p \<noteq> handle) (bs_pending st)\<rparr>
           in case auth_check wa host cf now pending r ro st1 of
                Inl e \<Rightarrow> (Inl e, st1)
              | Inr (e, counter) \<Rightarrow>
                  (Inr (be_userId e, be_deviceId e),
                   set_enrollment (be_id e) (\<lambda>x. x\<lparr>be_signCount := counter, be_lastUsedAt := Some now\<rparr>) st1)))"

definition bio_login ::
  "webauthn \<Rightarrow> (string \<Rightarrow> string option) \<Rightarrow> bio_config \<Rightarrow> crypto \<Rightarrow> auth_config \<Rightarrow> (string \<Rightarrow> string option) \<Rightarrow> int \<Rightarrow> login_ids \<Rightarrow> string \<Rightarrow> ceremony \<Rightarrow>
     string option \<Rightarrow> device_context \<Rightarrow> bio_state \<Rightarrow> issue_result result \<times> bio_state" where
  "bio_login wa host cf lib cfg geo now ids handle r ro x st =
     (case finishAuthentication wa host cf now handle r ro st of
        (Inl e, st1) \<Rightarrow> (Inl e, st1)
      | (Inr (userId, _), st1) \<Rightarrow>
          (case login_user_of (bs_auth st1) userId of
             None \<Rightarrow> (Inl (Unauthorized ''Account not available''), st1)
           | Some u \<Rightarrow>
               if u_status u \<noteq> UserActive then (Inl (Unauthorized ''Account not available''), st1)
               else case upsertOnLogin lib geo now (li_device ids) userId (x\<lparr>dx_canvasHash := None\<rparr>) (bs_auth st1) of
                 Inl e \<Rightarrow> (Inl e, st1)
               | Inr (d, a) \<Rightarrow>
                   (let a1 = markTrusted (de_id d) a in
                    case issueSession lib cfg now (li_session ids) userId (de_id d) (Some (role_name (u_role u))) (dx_ip x) a1 of
                      Inl e \<Rightarrow> (Inl e, st1\<lparr>bs_auth := a1\<rparr>)
                    | Inr (res, a2) \<Rightarrow> (Inr res, st1\<lparr>bs_auth := a2\<rparr>))))"

section \<open>The table of passkeys\<close>

definition enrollments_ok :: "enrollment list \<Rightarrow> bool" where
  "enrollments_ok t = (distinct (map be_id t) \<and> distinct (map be_credentialId t) \<and> distinct (map (\<lambda>e. (be_userId e, be_deviceId e)) t))"

lemma insert_enrollment_ok: "insert_enrollment e t = Inr t' \<Longrightarrow> enrollments_ok t \<Longrightarrow> enrollments_ok t' \<and> t' = t @ [e]"
  by (auto simp: insert_enrollment_def err_simps enrollments_ok_def find_unique_None_iff)

lemma row_ok:
  assumes "enrollments_ok t" "find_unique be_id i t = Some e" "\<And>x. be_id (f x) = be_id x"
    and "be_credentialId (f e) = be_credentialId e \<or> (\<forall>x \<in> set t. be_credentialId x = be_credentialId (f e) \<longrightarrow> be_id x = i)"
    and "(be_userId (f e), be_deviceId (f e)) = (be_userId e, be_deviceId e) \<or>
         (\<forall>x \<in> set t. (be_userId x, be_deviceId x) = (be_userId (f e), be_deviceId (f e)) \<longrightarrow> be_id x = i)"
  shows "enrollments_ok (update_many (\<lambda>x. be_id x = i) f t)"
proof -
  obtain as bs where s: "t = as @ e # bs" "update_many (\<lambda>x. be_id x = i) f t = as @ f e # bs" "i \<notin> be_id ` set as" "i \<notin> be_id ` set bs" "be_id e = i"
    using row_split [of be_id t i e f] assms(1,2) by (auto simp: enrollments_ok_def)
  have c: "be_credentialId (f e) \<notin> be_credentialId ` set as \<and> be_credentialId (f e) \<notin> be_credentialId ` set bs"
    using assms(1,4) s(1,3,4) unfolding enrollments_ok_def by (auto simp: image_iff)
  have d: "(be_userId (f e), be_deviceId (f e)) \<notin> (\<lambda>e. (be_userId e, be_deviceId e)) ` set as \<and>
      (be_userId (f e), be_deviceId (f e)) \<notin> (\<lambda>e. (be_userId e, be_deviceId e)) ` set bs"
    using assms(1,5) s(1,3,4) unfolding enrollments_ok_def by (auto simp: image_iff)
  show ?thesis using assms(1) c d s(5) assms(3) [of e] unfolding s(2) unfolding s(1) enrollments_ok_def by simp
qed

lemma move_enrollment_ok:
  assumes "move_enrollment i f t = Inr t'" "enrollments_ok t" "find_unique be_id i t = Some e" "\<And>x. be_id (f x) = be_id x" "be_credentialId (f e) = be_credentialId e"
  shows "enrollments_ok t'"
proof -
  have e: "e \<in> set t" "be_id e = i" using find_unique_SomeD [OF assms(3)] by auto
  have t': "t' = update_many (\<lambda>x. be_id x = i) f t"
    and free: "\<not> list_ex (\<lambda>e'. be_id e' \<noteq> i \<and> (be_userId e', be_deviceId e') = (be_userId (f e), be_deviceId (f e))) t"
    using assms(1) e unfolding move_enrollment_def ebind_eq_Inr require_eq_Inr list_ex_iff by blast+
  have "\<forall>x \<in> set t. (be_userId x, be_deviceId x) = (be_userId (f e), be_deviceId (f e)) \<longrightarrow> be_id x = i"
    using free unfolding list_ex_iff by blast
  then show ?thesis unfolding t' by (intro row_ok [OF assms(2,3,4)]) (use assms(5) in auto)
qed

lemma upsert_enrollment_ok:
  assumes "upsert_enrollment f e t = Inr t'" "enrollments_ok t" "\<And>x. be_id (f x) = be_id x" "\<And>x. be_userId (f x) = be_userId x" "\<And>x. be_deviceId (f x) = be_deviceId x"
  shows "enrollments_ok t'"
proof (cases "enrollment_at (be_userId e) (be_deviceId e) t")
  case None
  then have "insert_enrollment e t = Inr t'" using assms(1) by (simp add: upsert_enrollment_def)
  then show ?thesis using insert_enrollment_ok assms(2) by blast
next
  case (Some old)
  then have old: "old \<in> set t" by (auto simp: enrollment_at_def dest: find_unique_SomeD)
  then have row: "find_unique be_id (be_id old) t = Some old" using assms(2) find_unique_in_distinct [of be_id t old] by (simp add: enrollments_ok_def)
  have t': "t' = update_many (\<lambda>x. be_id x = be_id old) f t" "be_credentialId (f old) \<notin> be_credentialId ` set (filter (\<lambda>x. be_id x \<noteq> be_id old) t)"
    using assms(1) Some by (auto simp: upsert_enrollment_def err_simps find_unique_None_iff)
  have "\<forall>x \<in> set t. be_credentialId x = be_credentialId (f old) \<longrightarrow> be_id x = be_id old"
    using t'(2) by (auto simp: image_iff)
  then show ?thesis unfolding t'(1) by (intro row_ok [OF assms(2) row assms(3)]) (use assms(4,5) in auto)
qed

definition bio_inv :: "bio_state \<Rightarrow> bool" where
  "bio_inv st = (enrollments_ok (bs_enrollments st) \<and> distinct (map bc_id (bs_challenges st)))"

lemma notify_frame [simp]:
  "bs_enrollments (notifySecurity n i u t b st) = bs_enrollments st" "bs_challenges (notifySecurity n i u t b st) = bs_challenges st"
  "bs_pending (notifySecurity n i u t b st) = bs_pending st" "bs_auth (notifySecurity n i u t b st) = bs_auth st"
  by (simp_all add: notifySecurity_def)

lemma consume_frame [simp]:
  "bs_enrollments (consume_challenge n i st) = bs_enrollments st"
  "map bc_id (bs_challenges (consume_challenge n i st)) = map bc_id (bs_challenges st)"
  by (simp_all add: consume_challenge_def map_update_many)

lemma set_enrollment_ok:
  assumes "enrollments_ok (bs_enrollments st)" "\<And>x. be_id (f x) = be_id x" "\<And>x. be_credentialId (f x) = be_credentialId x"
    "\<And>x. be_userId (f x) = be_userId x" "\<And>x. be_deviceId (f x) = be_deviceId x"
  shows "enrollments_ok (bs_enrollments (set_enrollment i f st))"
  using assms(1) by (simp add: set_enrollment_def enrollments_ok_def map_update_many assms(2-5))

inductive bio_step ::
  "webauthn \<Rightarrow> (string \<Rightarrow> string option) \<Rightarrow> bio_config \<Rightarrow> crypto \<Rightarrow> auth_config \<Rightarrow> bio_state \<Rightarrow> bio_state \<Rightarrow> bool" for wa host cf lib cfg where
  bio_begin: "beginRegistration now newId ch u st = Inr (out, st') \<Longrightarrow> bio_step wa host cf lib cfg st st'"
| bio_finish: "finishRegistration wa host cf now ids u d r ro st = Inr st' \<Longrightarrow> bio_step wa host cf lib cfg st st'"
| bio_remove: "remove_passkey now n u i st = Inr st' \<Longrightarrow> bio_step wa host cf lib cfg st st'"
| bio_begin_rebind: "beginRebind now newId ch u st = Inr (o2, st') \<Longrightarrow> bio_step wa host cf lib cfg st st'"
| bio_finish_rebind: "finishRebind wa host cf now ids u d r ro st = Inr st' \<Longrightarrow> bio_step wa host cf lib cfg st st'"
| bio_reactivate: "reactivate now n u d st = (b, st') \<Longrightarrow> bio_step wa host cf lib cfg st st'"
| bio_begin_auth: "beginAuthentication now h ch email st = (o3, st') \<Longrightarrow> bio_step wa host cf lib cfg st st'"
| bio_sign_in: "bio_login wa host cf lib cfg geo now lids h r ro x st = (res, st') \<Longrightarrow> bio_step wa host cf lib cfg st st'"

lemma add_challenge_ok: "add_bio_challenge now i u c ty st = Inr st' \<Longrightarrow> bio_inv st \<Longrightarrow> bio_inv st'"
  by (auto simp: add_bio_challenge_def err_simps bio_inv_def find_unique_None_iff)

lemma existing_row:
  assumes "enrollments_ok t" "find_unique be_credentialId c t = Some e"
  shows "find_unique be_id (be_id e) t = Some e"
  using assms find_unique_in_distinct [of be_id t e] by (auto simp: enrollments_ok_def dest: find_unique_SomeD)

text \<open>What a finished ceremony writes: one row of the table, checked by one of the two writers.\<close>

definition passkey_written :: "bio_state \<Rightarrow> enrollment list \<Rightarrow> bool" where
  "passkey_written st t =
     ((\<exists>cid e f. find_unique be_credentialId cid (bs_enrollments st) = Some e \<and> move_enrollment (be_id e) f (bs_enrollments st) = Inr t \<and>
         (\<forall>x. be_id (f x) = be_id x \<and> be_credentialId (f x) = be_credentialId x)) \<or>
      (\<exists>e f. upsert_enrollment f e (bs_enrollments st) = Inr t \<and>
         (\<forall>x. be_id (f x) = be_id x \<and> be_userId (f x) = be_userId x \<and> be_deviceId (f x) = be_deviceId x)))"

lemma written_ok:
  assumes "passkey_written st t" "enrollments_ok (bs_enrollments st)"
  shows "enrollments_ok t"
  using assms(1) unfolding passkey_written_def
proof (elim disjE exE conjE)
  fix cid e f assume e: "find_unique be_credentialId cid (bs_enrollments st) = Some e" "move_enrollment (be_id e) f (bs_enrollments st) = Inr t"
    "\<forall>x. be_id (f x) = be_id x \<and> be_credentialId (f x) = be_credentialId x"
  show ?thesis by (rule move_enrollment_ok [OF e(2) assms(2) existing_row [OF assms(2) e(1)]]) (use e(3) in auto)
next
  fix e f assume e: "upsert_enrollment f e (bs_enrollments st) = Inr t"
    "\<forall>x. be_id (f x) = be_id x \<and> be_userId (f x) = be_userId x \<and> be_deviceId (f x) = be_deviceId x"
  show ?thesis by (rule upsert_enrollment_ok [OF e(1) assms(2)]) (use e(2) in auto)
qed

lemma written_move: "find_unique be_credentialId cid (bs_enrollments st) = Some e \<Longrightarrow> move_enrollment (be_id e) f (bs_enrollments st) = Inr t \<Longrightarrow>
    (\<And>x. be_id (f x) = be_id x) \<Longrightarrow> (\<And>x. be_credentialId (f x) = be_credentialId x) \<Longrightarrow> passkey_written st t"
  unfolding passkey_written_def by blast

lemma written_upsert: "upsert_enrollment f e (bs_enrollments st) = Inr t \<Longrightarrow>
    (\<And>x. be_id (f x) = be_id x) \<Longrightarrow> (\<And>x. be_userId (f x) = be_userId x) \<Longrightarrow> (\<And>x. be_deviceId (f x) = be_deviceId x) \<Longrightarrow> passkey_written st t"
  unfolding passkey_written_def by blast

lemma finishRegistration_Inr:
  assumes "finishRegistration wa host cf now ids u d r ro st = Inr st'"
  shows "map bc_id (bs_challenges st') = map bc_id (bs_challenges st) \<and> passkey_written st (bs_enrollments st')"
  using assms unfolding finishRegistration_def Let_def ebind_eq_Inr
  by (clarsimp simp: err_simps split: option.splits) (auto intro: written_upsert, (erule (1) written_move; simp)+)

lemma finishRebind_Inr:
  assumes "finishRebind wa host cf now ids u d r ro st = Inr st'"
  shows "map bc_id (bs_challenges st') = map bc_id (bs_challenges st) \<and> passkey_written st (bs_enrollments st')"
  using assms unfolding finishRebind_def Let_def ebind_eq_Inr
  by (clarsimp simp: err_simps split: option.splits) (auto simp: err_simps intro: written_upsert written_move)

lemma finishRegistration_ok: "finishRegistration wa host cf now ids u d r ro st = Inr st' \<Longrightarrow> bio_inv st \<Longrightarrow> bio_inv st'"
  using finishRegistration_Inr written_ok unfolding bio_inv_def by metis

lemma finishRebind_ok: "finishRebind wa host cf now ids u d r ro st = Inr st' \<Longrightarrow> bio_inv st \<Longrightarrow> bio_inv st'"
  using finishRebind_Inr written_ok unfolding bio_inv_def by metis

lemma finishAuthentication_ok:
  "finishAuthentication wa host cf now h r ro st = (res, st') \<Longrightarrow> bio_inv st \<Longrightarrow> bio_inv st'"
  by (auto simp: finishAuthentication_def Let_def bio_inv_def set_enrollment_def enrollments_ok_def map_update_many split: option.splits sum.splits)

lemma bio_login_tables:
  assumes "bio_login wa host cf lib cfg geo now lids h r ro x st = (res, st')"
  shows "\<exists>res1 st1. finishAuthentication wa host cf now h r ro st = (res1, st1) \<and> bs_enrollments st' = bs_enrollments st1 \<and>
    bs_challenges st' = bs_challenges st1 \<and> bs_pending st' = bs_pending st1"
  using assms by (cases "finishAuthentication wa host cf now h r ro st")
    (auto simp: bio_login_def Let_def split: sum.splits option.splits prod.splits if_splits)

interpretation passkeys: step_invariant "bio_step wa host cf lib cfg" bio_inv for wa host cf lib cfg
proof
  fix st st' assume "bio_step wa host cf lib cfg st st'" "bio_inv st"
  then show "bio_inv st'"
  proof (induction rule: bio_step.induct)
    case (bio_begin now newId ch u st out st')
    then show ?case by (auto simp: beginRegistration_def Let_def err_simps intro: add_challenge_ok)
  next
    case (bio_begin_rebind now newId ch u st o2 st')
    then show ?case by (auto simp: beginRebind_def Let_def err_simps intro: add_challenge_ok)
  next
    case (bio_remove now n u i st st')
    then show ?case by (auto simp: remove_passkey_def err_simps bio_inv_def set_enrollment_def enrollments_ok_def map_update_many split: if_splits)
  next
    case (bio_reactivate now n u d st b st')
    then show ?case by (auto simp: reactivate_def bio_inv_def set_enrollment_def enrollments_ok_def map_update_many split: option.splits if_splits)
  next
    case (bio_begin_auth now h ch email st o3 st')
    then show ?case by (auto simp: beginAuthentication_def sweepExpiredChallenges_def Let_def bio_inv_def)
  next
    case (bio_sign_in geo now lids h r ro x st res st')
    then show ?case using bio_login_tables [OF bio_sign_in(1)] finishAuthentication_ok by (fastforce simp: bio_inv_def)
  qed (rule finishRegistration_ok finishRebind_ok; assumption)+
qed


section \<open>Properties\<close>

text \<open>Passkeys stay unique in every history of enrolments, rebinds, removals and sign-ins: no credential
  belongs to two rows, and a user has at most one passkey on a device.\<close>

theorem passkeys_stay_unique:
  assumes "(bio_step wa host cf lib cfg)\<^sup>*\<^sup>* st st'" "bio_inv st" "e \<in> set (bs_enrollments st')" "e' \<in> set (bs_enrollments st')"
  shows "(be_credentialId e = be_credentialId e' \<longrightarrow> e = e') \<and> (be_userId e = be_userId e' \<and> be_deviceId e = be_deviceId e' \<longrightarrow> e = e')"
proof -
  have "enrollments_ok (bs_enrollments st')" using passkeys.history_inv [OF assms(1,2)] by (simp add: bio_inv_def)
  then have "inj_on be_credentialId (set (bs_enrollments st'))" "inj_on (\<lambda>e. (be_userId e, be_deviceId e)) (set (bs_enrollments st'))"
    by (simp_all add: enrollments_ok_def distinct_map)
  then show ?thesis using assms(3,4) by (auto dest: inj_onD)
qed

lemma auth_check_Inr:
  "auth_check wa host cf now p r ro st = Inr (e, cnt) \<longleftrightarrow>
     now \<le> snd p \<and> truthy_str (ce_credentialId r) \<and> find_unique be_credentialId (the (ce_credentialId r)) (bs_enrollments st) = Some e \<and>
     be_disabledAt e = None \<and>
     wa_assert wa (fst p) (expected_origins host cf ro) (expected_rpIds host cf ro) (be_publicKey e) (be_signCount e) r = Inr (Some cnt)"
  by (auto simp: auth_check_def err_simps Let_def)

lemma finishAuthentication_Inr:
  assumes "finishAuthentication wa host cf now h r ro st = (Inr out, st')"
  shows "\<exists>ch ex e cnt. map_of (bs_pending st) h = Some (ch, ex) \<and>
    auth_check wa host cf now (ch, ex) r ro (st\<lparr>bs_pending := filter (\<lambda>p. fst p \<noteq> h) (bs_pending st)\<rparr>) = Inr (e, cnt) \<and>
    out = (be_userId e, be_deviceId e) \<and> bs_auth st' = bs_auth st"
  using assms by (auto simp: finishAuthentication_def Let_def set_enrollment_def split: option.splits sum.splits)

lemma handle_spent:
  "finishAuthentication wa host cf now h r ro st = (res, st') \<Longrightarrow> map_of (bs_pending st') h = None"
  by (auto simp: finishAuthentication_def Let_def set_enrollment_def map_of_eq_None_iff split: option.splits sum.splits)

lemma issue_user: "issueSession lib cfg now ids u d role ip st = Inr (r, st') \<Longrightarrow> se_userId (iss_session r) = u"
  by (cases ids) (auto simp: issueSession_def err_simps Let_def case_prod_beta)

text \<open>C26. A passwordless sign-in opens a session only for an active user whose passkey is enrolled, not removed, and
  signed the challenge of this very handle before it expired, as the library checks it against the stored key; and
  an attempt spends the handle whether it succeeds or not.\<close>

theorem passkey_sign_in_sound:
  "(bio_login wa host cf lib cfg geo now lids h r ro x st = (Inr res, st') \<longrightarrow>
      (\<exists>ch ex e u cnt. map_of (bs_pending st) h = Some (ch, ex) \<and> now \<le> ex \<and>
         ce_credentialId r = Some (be_credentialId e) \<and> e \<in> set (bs_enrollments st) \<and> be_disabledAt e = None \<and>
         wa_assert wa ch (expected_origins host cf ro) (expected_rpIds host cf ro) (be_publicKey e) (be_signCount e) r = Inr (Some cnt) \<and>
         login_user_of (bs_auth st) (be_userId e) = Some u \<and> u_status u = UserActive \<and> se_userId (iss_session res) = be_userId e)) \<and>
   \<not> is_ok (fst (bio_login wa host cf lib cfg geo now' lids' h r' ro' x' (snd (bio_login wa host cf lib cfg geo now lids h r ro x st))))"
proof (intro conjI impI)
  assume b: "bio_login wa host cf lib cfg geo now lids h r ro x st = (Inr res, st')"
  then obtain uid dev st1 where f: "finishAuthentication wa host cf now h r ro st = (Inr (uid, dev), st1)"
    by (cases "finishAuthentication wa host cf now h r ro st") (auto simp: bio_login_def split: sum.splits)
  from finishAuthentication_Inr [OF f] obtain ch ex e cnt where e: "map_of (bs_pending st) h = Some (ch, ex)"
    "auth_check wa host cf now (ch, ex) r ro (st\<lparr>bs_pending := filter (\<lambda>p. fst p \<noteq> h) (bs_pending st)\<rparr>) = Inr (e, cnt)"
    "uid = be_userId e" "bs_auth st1 = bs_auth st" by auto
  from e(2) have c: "now \<le> ex" "truthy_str (ce_credentialId r)" "find_unique be_credentialId (the (ce_credentialId r)) (bs_enrollments st) = Some e"
    "be_disabledAt e = None"
    "wa_assert wa ch (expected_origins host cf ro) (expected_rpIds host cf ro) (be_publicKey e) (be_signCount e) r = Inr (Some cnt)"
    by (simp_all add: auth_check_Inr)
  obtain u where u: "login_user_of (bs_auth st) uid = Some u" "u_status u = UserActive" "se_userId (iss_session res) = uid"
    using b f e(4) issue_user
    by (fastforce simp: bio_login_def Let_def split: option.splits if_splits sum.splits prod.splits)
  have "ce_credentialId r = Some (be_credentialId e)" "e \<in> set (bs_enrollments st)"
    using c(2,3) by (auto simp: truthy_str_iff dest: find_unique_SomeD)
  then show "\<exists>ch ex e u cnt. map_of (bs_pending st) h = Some (ch, ex) \<and> now \<le> ex \<and>
         ce_credentialId r = Some (be_credentialId e) \<and> e \<in> set (bs_enrollments st) \<and> be_disabledAt e = None \<and>
         wa_assert wa ch (expected_origins host cf ro) (expected_rpIds host cf ro) (be_publicKey e) (be_signCount e) r = Inr (Some cnt) \<and>
         login_user_of (bs_auth st) (be_userId e) = Some u \<and> u_status u = UserActive \<and> se_userId (iss_session res) = be_userId e"
    using c e u by blast
next
  obtain res0 st0 where b: "bio_login wa host cf lib cfg geo now lids h r ro x st = (res0, st0)"
    by (cases "bio_login wa host cf lib cfg geo now lids h r ro x st")
  then have "map_of (bs_pending st0) h = None" using bio_login_tables [OF b] handle_spent by fastforce
  then show "\<not> is_ok (fst (bio_login wa host cf lib cfg geo now' lids' h r' ro' x' (snd (bio_login wa host cf lib cfg geo now lids h r ro x st))))"
    unfolding b by (simp add: bio_login_def finishAuthentication_def is_ok_def)
qed

text \<open>A removed passkey does not sign in: whatever the authenticator answers, the next sign-in with its
  credential is refused, and the list of passkeys no longer shows it.\<close>

theorem removed_passkey_refused:
  assumes "remove_passkey now n u i st = Inr st'" "find_unique be_id i (bs_enrollments st) = Some e" "bio_inv st"
    and "ce_credentialId r = Some (be_credentialId e)"
  shows "\<not> is_ok (fst (bio_login wa host cf lib cfg geo now' lids h r ro x st')) \<and> i \<notin> (be_id \<circ> fst) ` set (list_passkeys u st')"
proof -
  have e: "e \<in> set (bs_enrollments st)" "be_id e = i" using find_unique_SomeD [OF assms(2)] by auto
  define e' where "e' = (if be_disabledAt e \<noteq> None then e else e\<lparr>be_disabledAt := Some now\<rparr>)"
  have row: "find_unique be_id i (bs_enrollments st') = Some e'"
    using assms(1,2) by (auto simp: remove_passkey_def err_simps e'_def set_enrollment_def find_unique_update_many split: if_splits)
  have ok: "enrollments_ok (bs_enrollments st')"
    using passkeys.step_inv [OF bio_remove [OF assms(1)] assms(3)] by (simp add: bio_inv_def)
  have e'_in: "e' \<in> set (bs_enrollments st')" "be_disabledAt e' \<noteq> None" "be_credentialId e' = be_credentialId e" "be_id e' = i"
    using row e by (auto simp: e'_def dest: find_unique_SomeD)
  have "find_unique be_credentialId (be_credentialId e) (bs_enrollments st') = Some e'"
    using find_unique_in_distinct [of be_credentialId "bs_enrollments st'" e'] ok e'_in by (simp add: enrollments_ok_def)
  then have "auth_check wa host cf now' p r ro s \<noteq> Inr y" if "bs_enrollments s = bs_enrollments st'" for p s y
    using that assms(4) e'_in(2) by (cases y) (auto simp: auth_check_Inr)
  then have "fst (finishAuthentication wa host cf now' h r ro st') \<noteq> Inr y" for y
    using finishAuthentication_Inr [of wa host cf now' h r ro st' y] by (cases "finishAuthentication wa host cf now' h r ro st'") auto
  then have "\<not> is_ok (fst (bio_login wa host cf lib cfg geo now' lids h r ro x st'))"
    by (cases "finishAuthentication wa host cf now' h r ro st'") (auto simp: bio_login_def is_ok_def split: sum.splits)
  moreover have "i \<notin> (be_id \<circ> fst) ` set (list_passkeys u st')"
  proof
    assume "i \<in> (be_id \<circ> fst) ` set (list_passkeys u st')"
    then obtain y where y: "y \<in> set (bs_enrollments st')" "be_id y = i" "be_disabledAt y = None" by (auto simp: list_passkeys_def)
    then have "y = e'" using ok find_unique_in_distinct [of be_id "bs_enrollments st'" y] row by (simp add: enrollments_ok_def)
    then show False using y e'_in by simp
  qed
  ultimately show ?thesis by blast
qed

text \<open>A rebind of a credential the server has never seen is not verified: it succeeds whatever the library would
  say, and when the user already has a passkey on the device it overwrites the identifier and keeps the old public
  key, so the working passkey is unknown from then on.\<close>

theorem orphan_rebind_unverified:
  assumes "signed_challenge u ''rebind'' r st = Some c" "now \<le> bc_expiresAt c" "ce_credentialId r = Some cid" "cid \<noteq> ''''"
    and "find_unique be_credentialId cid (bs_enrollments st) = None" "enrollment_at u d (bs_enrollments st) = Some old" "bio_inv st"
  shows "\<exists>st' e. finishRebind wa host cf now ids u d r ro st = Inr st' \<and> find_unique be_id (be_id old) (bs_enrollments st') = Some e \<and>
           be_credentialId e = cid \<and> be_publicKey e = be_publicKey old \<and>
           find_unique be_credentialId (be_credentialId old) (bs_enrollments st') = None"
proof -
  let ?f = "\<lambda>x. x\<lparr>be_credentialId := cid, be_transports := ce_transports r, be_lastUsedAt := Some now, be_disabledAt := None\<rparr>"
  let ?t = "update_many (\<lambda>x. be_id x = be_id old) ?f (bs_enrollments st)"
  have ok: "enrollments_ok (bs_enrollments st)" using assms(7) by (simp add: bio_inv_def)
  have old: "old \<in> set (bs_enrollments st)" using assms(6) by (auto simp: enrollment_at_def dest: find_unique_SomeD)
  then have row: "find_unique be_id (be_id old) (bs_enrollments st) = Some old"
    using ok find_unique_in_distinct [of be_id "bs_enrollments st" old] by (simp add: enrollments_ok_def)
  have fresh: "cid \<notin> be_credentialId ` set (bs_enrollments st)" using assms(5) by (simp add: find_unique_None_iff)
  then have "find_unique be_credentialId cid (filter (\<lambda>x. be_id x \<noteq> be_id old) (bs_enrollments st)) = None"
    by (auto simp: find_unique_None_iff)
  then have up: "finishRebind wa host cf now ids u d r ro st =
      Inr (notifySecurity now (snd ids) u enabled_title enabled_body ((consume_challenge now (bc_id c) st)\<lparr>bs_enrollments := ?t\<rparr>))"
    using assms(1-6) by (simp add: finishRebind_def or_throw_def require_def truthy_str_iff upsert_enrollment_def Let_def)
  have "distinct (map be_id (bs_enrollments st))" using ok by (simp add: enrollments_ok_def)
  then obtain as bs where s: "bs_enrollments st = as @ old # bs" "?t = as @ ?f old # bs" "be_id old \<notin> be_id ` set as" "be_id old \<notin> be_id ` set bs"
    by (rule row_split [OF _ row, where f = ?f])
  have "be_credentialId old \<notin> be_credentialId ` set ?t"
    using ok fresh unfolding s(2) unfolding s(1) enrollments_ok_def by auto
  then have "find_unique be_credentialId (be_credentialId old) ?t = None" by (simp add: find_unique_None_iff)
  moreover have "find_unique be_id (be_id old) ?t = Some (?f old)" using row by (simp add: find_unique_update_many)
  ultimately show ?thesis unfolding up
    by (intro exI [of _ "notifySecurity now (snd ids) u enabled_title enabled_body ((consume_challenge now (bc_id c) st)\<lparr>bs_enrollments := ?t\<rparr>)"]
      exI [of _ "?f old"]) (simp add: notifySecurity_def)
qed

text \<open>Registering a synced passkey again on a device that already has one fails with a database error.\<close>

lemma registration_collides:
  assumes "signed_challenge u ''registration'' r st = Some c" "now \<le> bc_expiresAt c"
    and "wa_register wa (bc_challenge c) (expected_origins host cf ro) (expected_rpIds host cf ro) r = Inr (Some (cid, key, cnt))"
    and "find_unique be_credentialId cid (bs_enrollments st) = Some e" "be_userId e = u" "enrollment_at u d (bs_enrollments st) = Some e'" "be_id e' \<noteq> be_id e"
  shows "finishRegistration wa host cf now ids u d r ro st = Inl (UniqueViolation ''userId_deviceId'')"
proof -
  let ?f = "\<lambda>x. x\<lparr>be_deviceId := d, be_publicKey := key, be_signCount := cnt, be_transports := ce_transports r, be_lastUsedAt := Some now, be_disabledAt := None\<rparr>"
  have "e \<in> set (bs_enrollments st)" "e' \<in> set (bs_enrollments st)" "be_userId e' = u" "be_deviceId e' = d"
    using assms(4,6) by (auto simp: enrollment_at_def dest: find_unique_SomeD)
  then have "list_ex (\<lambda>x. be_id x = be_id e \<and> list_ex (\<lambda>y. be_id y \<noteq> be_id e \<and> (be_userId y, be_deviceId y) = (be_userId (?f x), be_deviceId (?f x)))
      (bs_enrollments st)) (bs_enrollments st)"
    using assms(5,7) unfolding list_ex_iff by (intro bexI [of _ e] conjI bexI [of _ e']) simp_all
  then have "move_enrollment (be_id e) ?f (bs_enrollments st) = Inl (UniqueViolation ''userId_deviceId'')"
    unfolding move_enrollment_def require_def by simp
  then show ?thesis using assms(1-5) by (simp add: finishRegistration_def or_throw_def require_def Let_def)
qed


end
