(* ===== verification/Support.thy ===== *)
theory Support
  imports Sign_In "HOL-Library.Product_Lexorder"
begin

text \<open>
  The support desk (\<^verbatim>\<open>support/support.service.ts\<close>): conversations of customers and of visitors who are not
  signed in, the administrators' side, and the files sent along (\<^verbatim>\<open>support/support-attachment.service.ts\<close>).
  The image library is the record \<open>imaging\<close>; the file store is a list.
\<close>

section \<open>State\<close>

datatype thread_status = ThreadOpen | ThreadClosed

datatype sender_role = FromCustomer | FromAdmin | FromGuest

record attachment =
  at_key :: string
  at_name :: string
  at_type :: string
  at_size :: nat
  at_image :: bool

record support_thread =
  sp_id :: string
  sp_userId :: "string option"
  sp_guestId :: "string option"
  sp_guestName :: "string option"
  sp_guestEmail :: "string option"
  sp_status :: thread_status
  sp_lastMessageAt :: "int option"
  sp_unreadForAdmins :: bool
  sp_createdAt :: int

record support_message =
  sm_id :: string
  sm_threadId :: string
  sm_senderId :: "string option"
  sm_senderRole :: sender_role
  sm_body :: string
  sm_createdAt :: int
  sm_readAt :: "int option"
  sm_attachment :: "attachment option"

datatype support_event =
    SupportMessageCreated string "string option" support_message int
  | SupportMessagesRead string string "string list" int
  | SupportThreadClosed string "string option" string int
  | SupportQueueChanged int

datatype support_mail =
    NewChatMail string string string string
      \<comment> \<open>customer, address, text, thread\<close>
  | GuestChatMail string string string string

record support_state =
  so_users :: "login_user list"
  so_devices :: "device list"
  so_threads :: "support_thread list"
  so_messages :: "support_message list"
  so_files :: "(string \<times> string \<times> string) list"
    \<comment> \<open>key, content type, bytes\<close>
  so_events :: "support_event list"
  so_mails :: "(string \<times> support_mail) list"

section \<open>Files\<close>

text \<open>What the image library answers: format and transparency of a file it can read, and the re-encoded bytes.\<close>

record imaging =
  im_metadata :: "string \<Rightarrow> (string option \<times> bool) option"
  im_png :: "string \<Rightarrow> string option"
  im_jpeg :: "string \<Rightarrow> string option"

definition DOCX_MIME :: string where
  "DOCX_MIME = ''application/vnd.openxmlformats-officedocument.wordprocessingml.document''"

definition word_char :: "char \<Rightarrow> bool" where
  "word_char c = (let n = (of_char c :: nat) in 48 \<le> n \<and> n \<le> 57 \<or> 65 \<le> n \<and> n \<le> 90 \<or> 97 \<le> n \<and> n \<le> 122 \<or> n = 95)"

definition name_char :: "char \<Rightarrow> bool" where
  "name_char c = (word_char c \<or> c = CHR ''.'' \<or> c = CHR ''-'' \<or> c = CHR '' '')"

text \<open>Every run of characters with a property becomes one given character.\<close>

function squash :: "(char \<Rightarrow> bool) \<Rightarrow> char \<Rightarrow> string \<Rightarrow> string" where
  "squash P r [] = []"
| "squash P r (c # cs) = (if P c then r # squash P r (dropWhile P cs) else c # squash P r cs)"
  by pat_completeness auto
termination
  by (relation "measure (\<lambda>(_, _, s). length s)") (auto simp: le_imp_less_Suc length_dropWhile_le)

fun last_segment :: "string \<Rightarrow> string" where
  "last_segment [] = []"
| "last_segment (c # cs) = (if list_ex (\<lambda>d. d = CHR ''/'' \<or> d = CHR 0x5C) (c # cs) then last_segment cs else c # cs)"

definition sanitizeName :: "string option \<Rightarrow> string" where
  "sanitizeName name =
     (let base = last_segment (case name of None \<Rightarrow> ''file'' | Some n \<Rightarrow> n);
          cleaned = take 120 (js_trim (squash is_space (CHR '' '') (squash (\<lambda>c. \<not> name_char c) (CHR ''_'') base)))
      in if cleaned = '''' then ''file'' else cleaned)"

text \<open>The name without its last extension; a name that is only an extension is kept.\<close>

definition stripExt :: "string \<Rightarrow> string" where
  "stripExt name =
     (let ext = takeWhile (\<lambda>c. c \<noteq> CHR ''.'') (rev name); rest = drop (Suc (length ext)) (rev name)
      in if CHR ''.'' \<in> set name \<and> ext \<noteq> '''' \<and> rest \<noteq> '''' then rev rest else name)"

definition ensureExt :: "string \<Rightarrow> string \<Rightarrow> string" where
  "ensureExt name ext = (if ends_with (CHR ''.'' # ext) (to_lower name) then name else name @ CHR ''.'' # ext)"

definition tryProcessImage :: "imaging \<Rightarrow> string \<Rightarrow> (string \<times> string \<times> string) option" where
  "tryProcessImage im buf =
     (case im_metadata im buf of
        None \<Rightarrow> None
      | Some (None, _) \<Rightarrow> None
      | Some (Some format, hasAlpha) \<Rightarrow>
          if format \<notin> set [''jpeg'', ''png'', ''webp'', ''gif'', ''avif'', ''tiff''] then None
          else if hasAlpha then map_option (\<lambda>b. (b, ''image/png'', ''png'')) (im_png im buf)
          else map_option (\<lambda>b. (b, ''image/jpeg'', ''jpg'')) (im_jpeg im buf))"

definition matchDocument :: "string \<Rightarrow> string option \<Rightarrow> string \<Rightarrow> (string \<times> string) option" where
  "matchDocument buf mimetype name =
     (let mt = to_lower (case mimetype of None \<Rightarrow> '''' | Some m \<Rightarrow> m); lname = to_lower name;
          isZip = (4 \<le> length buf \<and> take 2 buf = ''PK'' \<and> buf ! 2 \<in> set [CHR 0x03, CHR 0x05, CHR 0x07]);
          isOle = (take 8 buf = [CHR 0xD0, CHR 0xCF, CHR 0x11, CHR 0xE0, CHR 0xA1, CHR 0xB1, CHR 0x1A, CHR 0xE1])
      in if take 5 buf = ''%PDF-'' then Some (''application/pdf'', ''pdf'')
         else if isZip \<and> (mt = DOCX_MIME \<or> ends_with ''.docx'' lname) then Some (DOCX_MIME, ''docx'')
         else if isOle \<and> (mt = ''application/msword'' \<or> ends_with ''.doc'' lname) then Some (''application/msword'', ''doc'')
         else None)"

record incoming_file =
  if_originalname :: "string option"
  if_mimetype :: "string option"
  if_buffer :: string

definition default_maxBytes :: nat where
  "default_maxBytes = 10 * 1024 * 1024"

definition process_attachment :: "imaging \<Rightarrow> nat \<Rightarrow> string \<Rightarrow> string \<Rightarrow> incoming_file \<Rightarrow> support_state \<Rightarrow> (attachment \<times> support_state) result" where
  "process_attachment im maxBytes uuid threadId file st =
     (let buf = if_buffer file; displayName = sanitizeName (if_originalname file) in
      ebind (require (buf \<noteq> '''') (BadRequest ''Empty file'')) (\<lambda>_.
      ebind (require (length buf \<le> maxBytes)
               (BadRequest (''File exceeds the '' @ show_int ((int maxBytes * 2 + 1048576) div 2097152) @ ''MB limit''))) (\<lambda>_.
      case tryProcessImage im buf of
        Some (body, ty, ext) \<Rightarrow>
          (let key = ''support/'' @ threadId @ ''/'' @ uuid @ ''.'' @ ext
           in Inr (\<lparr>at_key = key, at_name = stripExt displayName @ ''.'' @ ext, at_type = ty, at_size = length body, at_image = True\<rparr>,
                   st\<lparr>so_files := so_files st @ [(key, ty, body)]\<rparr>))
      | None \<Rightarrow>
          (case matchDocument buf (if_mimetype file) displayName of
             Some (ty, ext) \<Rightarrow>
               (let key = ''support/'' @ threadId @ ''/'' @ uuid @ ''.'' @ ext
                in Inr (\<lparr>at_key = key, at_name = ensureExt displayName ext, at_type = ty, at_size = length buf, at_image = False\<rparr>,
                        st\<lparr>so_files := so_files st @ [(key, ty, buf)]\<rparr>))
           | None \<Rightarrow> Inl (BadRequest ''Unsupported file. Allowed: images (PNG, JPG, WebP, GIF), PDF, or Word (.doc/.docx).'')))))"

section \<open>Conversations\<close>

definition thread_of :: "support_state \<Rightarrow> string \<Rightarrow> support_thread option" where
  "thread_of st i = find_unique sp_id i (so_threads st)"

definition own_thread :: "string \<Rightarrow> string \<Rightarrow> support_state \<Rightarrow> support_thread result" where
  "own_thread userId i st =
     ebind (or_throw (NotFound ''Thread not found'') (thread_of st i)) (\<lambda>t.
     ebind (require (sp_userId t = Some userId) (NotFound ''Thread not found'')) (\<lambda>_. Inr t))"

definition set_thread :: "string \<Rightarrow> (support_thread \<Rightarrow> support_thread) \<Rightarrow> support_state \<Rightarrow> support_state" where
  "set_thread i f st = st\<lparr>so_threads := update_many (\<lambda>t. sp_id t = i) f (so_threads st)\<rparr>"

definition support_emit :: "support_event \<Rightarrow> support_state \<Rightarrow> support_state" where
  "support_emit e st = st\<lparr>so_events := so_events st @ [e]\<rparr>"

definition messages_of :: "string \<Rightarrow> support_state \<Rightarrow> support_message list" where
  "messages_of i st = sort_key sm_createdAt (filter (\<lambda>m. sm_threadId m = i) (so_messages st))"

definition emitMessageCreated :: "int \<Rightarrow> support_thread \<Rightarrow> support_message \<Rightarrow> support_state \<Rightarrow> support_state" where
  "emitMessageCreated now t m st =
     (let st1 = support_emit (SupportMessageCreated (sp_id t) (sp_userId t) m now) st
      in if sm_senderRole m = FromCustomer \<or> sm_senderRole m = FromGuest then support_emit (SupportQueueChanged 1) st1 else st1)"

text \<open>One database transaction: the message and the thread's summary.\<close>

definition add_message :: "int \<Rightarrow> support_thread \<Rightarrow> support_message \<Rightarrow> (support_thread \<Rightarrow> support_thread) \<Rightarrow> support_state \<Rightarrow> (support_message \<times> support_state) result" where
  "add_message now t m f st =
     ebind (create_unique ''id'' sm_id m (so_messages st)) (\<lambda>ms.
     Inr (m, emitMessageCreated now t m (set_thread (sp_id t) f (st\<lparr>so_messages := ms\<rparr>))))"

definition new_message :: "int \<Rightarrow> string \<Rightarrow> string \<Rightarrow> string option \<Rightarrow> sender_role \<Rightarrow> string \<Rightarrow> attachment option \<Rightarrow> support_message" where
  "new_message now newId threadId sender role body att =
     \<lparr>sm_id = newId, sm_threadId = threadId, sm_senderId = sender, sm_senderRole = role, sm_body = body, sm_createdAt = now,
      sm_readAt = None, sm_attachment = att\<rparr>"

definition support_send :: "string \<Rightarrow> support_mail \<Rightarrow> support_state \<Rightarrow> support_state" where
  "support_send recipient m st =
     (case withoutSuppressed (so_users st) [recipient] False of None \<Rightarrow> st
      | Some rs \<Rightarrow> st\<lparr>so_mails := so_mails st @ map (\<lambda>r. (r, m)) rs\<rparr>)"

text \<open>Descending order puts the threads without a message first.\<close>

definition activity :: "support_thread \<Rightarrow> nat \<times> int" where
  "activity t = (case sp_lastMessageAt t of None \<Rightarrow> (1, 0) | Some w \<Rightarrow> (0, w))"

definition openOrGetCustomerThread :: "int \<Rightarrow> string \<Rightarrow> string \<Rightarrow> support_state \<Rightarrow> (support_thread \<times> support_state) result" where
  "openOrGetCustomerThread now newId userId st =
     (case rev (sort_key activity
             (filter (\<lambda>t. sp_userId t = Some userId \<and> sp_status t = ThreadOpen) (so_threads st))) of
        t # _ \<Rightarrow> Inr (t, st)
      | [] \<Rightarrow>
          (let t = \<lparr>sp_id = newId, sp_userId = Some userId, sp_guestId = None, sp_guestName = None, sp_guestEmail = None, sp_status = ThreadOpen,
                    sp_lastMessageAt = None, sp_unreadForAdmins = True, sp_createdAt = now\<rparr>
           in ebind (create_unique ''id'' sp_id t (so_threads st)) (\<lambda>ts. Inr (t, st\<lparr>so_threads := ts\<rparr>))))"

definition listCustomerMessages :: "string \<Rightarrow> string \<Rightarrow> support_state \<Rightarrow> support_message list result" where
  "listCustomerMessages userId i st =
     ebind (or_throw (NotFound ''Thread not found'') (thread_of st i)) (\<lambda>t.
     ebind (require (sp_userId t = Some userId) (Forbidden ''Not your thread'')) (\<lambda>_. Inr (messages_of i st)))"

definition notifyAdminsByEmail :: "string \<Rightarrow> string \<Rightarrow> string \<Rightarrow> string \<Rightarrow> support_state \<Rightarrow> support_state" where
  "notifyAdminsByEmail adminEmail threadId body userId st =
     (let user = find_unique u_id userId (so_users st);
          name = (case user of None \<Rightarrow> ''A customer''
                  | Some u \<Rightarrow> (let n = js_trim (join_with '' '' (filter (\<lambda>s. s \<noteq> '''') (map (\<lambda>v. case v of None \<Rightarrow> '''' | Some s \<Rightarrow> s) [u_firstName u, u_lastName u])))
                              in if n \<noteq> '''' then n else if u_email u \<noteq> '''' then u_email u else ''A customer''))
      in support_send adminEmail (NewChatMail name (case user of None \<Rightarrow> ''unknown'' | Some u \<Rightarrow> u_email u) body threadId) st)"

definition touch_customer :: "int \<Rightarrow> support_thread \<Rightarrow> support_thread" where
  "touch_customer now t = t\<lparr>sp_lastMessageAt := Some now, sp_unreadForAdmins := True, sp_status := ThreadOpen\<rparr>"

definition postCustomerMessage ::
  "string \<Rightarrow> int \<Rightarrow> string \<Rightarrow> string \<Rightarrow> string \<Rightarrow> string \<Rightarrow> support_state \<Rightarrow> (support_message \<times> support_state) result" where
  "postCustomerMessage adminEmail now newId userId i body st =
     ebind (require (js_trim body \<noteq> '''') (Forbidden ''Empty message'')) (\<lambda>_.
     ebind (own_thread userId i st) (\<lambda>t.
     ebind (require (sp_status t \<noteq> ThreadClosed) (Forbidden ''THREAD_CLOSED'')) (\<lambda>_.
     let first = (messages_of i st = []) in
     ebind (add_message now t (new_message now newId i (Some userId) FromCustomer (js_trim body) None) (touch_customer now) st) (\<lambda>(m, st1).
     Inr (m, if first then notifyAdminsByEmail adminEmail i (js_trim body) userId st1 else st1)))))"

definition createAttachmentMessage ::
  "int \<Rightarrow> string \<Rightarrow> support_thread \<Rightarrow> sender_role \<Rightarrow> string \<Rightarrow> string \<Rightarrow> attachment \<Rightarrow> bool \<Rightarrow> support_state \<Rightarrow> (support_message \<times> support_state) result" where
  "createAttachmentMessage now newId t role senderId caption a unread st =
     add_message now t (new_message now newId (sp_id t) (Some senderId) role (take 4000 (js_trim caption)) (Some a))
       (\<lambda>t. t\<lparr>sp_lastMessageAt := Some now, sp_unreadForAdmins := unread, sp_status := ThreadOpen\<rparr>) st"

definition postCustomerAttachment ::
  "imaging \<Rightarrow> nat \<Rightarrow> int \<Rightarrow> string \<times> string \<Rightarrow> string \<Rightarrow> string \<Rightarrow> string \<Rightarrow> incoming_file \<Rightarrow> support_state \<Rightarrow> (support_message \<times> support_state) result" where
  "postCustomerAttachment im maxBytes now ids userId i caption file st =
     ebind (own_thread userId i st) (\<lambda>t.
     ebind (require (sp_status t \<noteq> ThreadClosed) (Forbidden ''THREAD_CLOSED'')) (\<lambda>_.
     ebind (process_attachment im maxBytes (snd ids) i file st) (\<lambda>(a, st1).
     createAttachmentMessage now (fst ids) t FromCustomer userId caption a True st1)))"

section \<open>The administrators' side\<close>

record inbox_row =
  ib_thread :: support_thread
  ib_customerName :: "string option"
  ib_customerEmail :: string
  ib_lastBody :: "string option"
  ib_lastIp :: "string option"
  ib_lastGeo :: "string option"

text \<open>The previews open with a picture, four bytes; a location is an opaque text.\<close>

definition preview :: "support_message \<Rightarrow> string" where
  "preview m = (if sm_body m \<noteq> '''' then sm_body m
     else case sm_attachment m of None \<Rightarrow> '''' | Some a \<Rightarrow> [CHR 0xF0, CHR 0x9F, CHR 0x93] @ (if at_image a then CHR 0xB7 # '' Photo'' else CHR 0x8E # '' Attachment''))"

definition inbox_row_of :: "support_state \<Rightarrow> support_thread \<Rightarrow> inbox_row" where
  "inbox_row_of st t =
     (let user = (case sp_userId t of None \<Rightarrow> None | Some u \<Rightarrow> find_unique u_id u (so_users st));
          dev = (case sp_userId t of None \<Rightarrow> None
                 | Some u \<Rightarrow> (case rev (sort_key de_lastSeenAt (filter (\<lambda>d. de_userId d = u \<and> de_revokedAt d = None) (so_devices st))) of [] \<Rightarrow> None | d # _ \<Rightarrow> Some d))
      in \<lparr>ib_thread = t,
          ib_customerName = (case user of
             None \<Rightarrow> Some (case sp_guestName t of None \<Rightarrow> ''Guest'' | Some n \<Rightarrow> n)
           | Some u \<Rightarrow> (let n = js_trim (join_with '' '' (filter (\<lambda>s. s \<noteq> '''') (map (\<lambda>v. case v of None \<Rightarrow> '''' | Some s \<Rightarrow> s) [u_firstName u, u_lastName u])))
                       in if n = '''' then None else Some n)),
          ib_customerEmail = (case user of None \<Rightarrow> (case sp_guestEmail t of None \<Rightarrow> '''' | Some e \<Rightarrow> e) | Some u \<Rightarrow> u_email u),
          ib_lastBody = (case rev (messages_of (sp_id t) st) of [] \<Rightarrow> None | m # _ \<Rightarrow> Some (preview m)),
          ib_lastIp = map_option de_ipLastSeen dev, ib_lastGeo = Option.bind dev de_locationLastSeen\<rparr>)"

definition listAdminThreads :: "support_state \<Rightarrow> inbox_row list" where
  "listAdminThreads st =
     map (inbox_row_of st) (take 200 (rev (sort_key (\<lambda>t. (if sp_unreadForAdmins t then 1 else 0 :: nat, activity t)) (so_threads st))))"

definition listAdminMessages :: "string \<Rightarrow> support_state \<Rightarrow> (support_message list \<times> support_state) result" where
  "listAdminMessages i st =
     ebind (or_throw (NotFound ''Thread not found'') (thread_of st i)) (\<lambda>t.
     let st1 = (if sp_unreadForAdmins t then support_emit (SupportQueueChanged (-1)) (set_thread i (\<lambda>t. t\<lparr>sp_unreadForAdmins := False\<rparr>) st) else st)
     in Inr (messages_of i st1, st1))"

definition postAdminMessage :: "int \<Rightarrow> string \<Rightarrow> string \<Rightarrow> string \<Rightarrow> string \<Rightarrow> support_state \<Rightarrow> (support_message \<times> support_state) result" where
  "postAdminMessage now newId adminUserId i body st =
     ebind (require (js_trim body \<noteq> '''') (Forbidden ''Empty message'')) (\<lambda>_.
     ebind (or_throw (NotFound ''Thread not found'') (thread_of st i)) (\<lambda>t.
     add_message now t (new_message now newId i (Some adminUserId) FromAdmin (js_trim body) None)
       (\<lambda>t. t\<lparr>sp_lastMessageAt := Some now, sp_unreadForAdmins := False\<rparr>) st))"

definition postAdminAttachment ::
  "imaging \<Rightarrow> nat \<Rightarrow> int \<Rightarrow> string \<times> string \<Rightarrow> string \<Rightarrow> string \<Rightarrow> string \<Rightarrow> incoming_file \<Rightarrow> support_state \<Rightarrow> (support_message \<times> support_state) result" where
  "postAdminAttachment im maxBytes now ids adminUserId i caption file st =
     ebind (or_throw (NotFound ''Thread not found'') (thread_of st i)) (\<lambda>t.
     ebind (require (truthy_str (sp_userId t)) (Forbidden ''Attachments are not available in guest chats'')) (\<lambda>_.
     ebind (process_attachment im maxBytes (snd ids) i file st) (\<lambda>(a, st1).
     createAttachmentMessage now (fst ids) t FromAdmin adminUserId caption a False st1)))"

definition requireAttachmentMessage :: "string \<Rightarrow> string \<Rightarrow> support_state \<Rightarrow> attachment result" where
  "requireAttachmentMessage i messageId st =
     ebind (or_throw (NotFound ''Attachment not found'') (find_unique sm_id messageId (so_messages st))) (\<lambda>m.
     ebind (require (sm_threadId m = i) (NotFound ''Attachment not found'')) (\<lambda>_.
     or_throw (NotFound ''Attachment not found'') (sm_attachment m)))"

text \<open>The bytes of an attachment and what is shown of it; a file missing from the store is an error.\<close>

definition readAttachment :: "attachment \<Rightarrow> support_state \<Rightarrow> (string \<times> attachment) result" where
  "readAttachment a st =
     ebind (or_throw (PlainError ''NoSuchKey'') (map_of (so_files st) (at_key a))) (\<lambda>(_, bytes). Inr (bytes, a))"

definition loadAttachmentForUser :: "string \<Rightarrow> string \<Rightarrow> string \<Rightarrow> support_state \<Rightarrow> (string \<times> attachment) result" where
  "loadAttachmentForUser userId i messageId st =
     ebind (requireAttachmentMessage i messageId st) (\<lambda>a.
     ebind (or_throw (NotFound ''Attachment not found'') (thread_of st i)) (\<lambda>t.
     ebind (require (sp_userId t = Some userId) (NotFound ''Attachment not found'')) (\<lambda>_. readAttachment a st)))"

definition loadAttachmentForAdmin :: "string \<Rightarrow> string \<Rightarrow> support_state \<Rightarrow> (string \<times> attachment) result" where
  "loadAttachmentForAdmin i messageId st = ebind (requireAttachmentMessage i messageId st) (\<lambda>a. readAttachment a st)"

definition unread_reply :: "string \<Rightarrow> support_message \<Rightarrow> bool" where
  "unread_reply i m = (sm_threadId m = i \<and> sm_senderRole m = FromAdmin \<and> sm_readAt m = None)"

definition markAdminMessagesRead :: "int \<Rightarrow> string \<Rightarrow> string \<Rightarrow> support_state \<Rightarrow> (string list \<times> support_state) result" where
  "markAdminMessagesRead now userId i st =
     ebind (own_thread userId i st) (\<lambda>_.
     let ids = map sm_id (filter (unread_reply i) (so_messages st))
     in if ids = [] then Inr ([], st)
        else Inr (ids, support_emit (SupportMessagesRead i userId ids now)
                         (st\<lparr>so_messages := update_many (\<lambda>m. sm_id m \<in> set ids) (\<lambda>m. m\<lparr>sm_readAt := Some now\<rparr>) (so_messages st)\<rparr>)))"

definition closeThread :: "int \<Rightarrow> string \<Rightarrow> string option \<Rightarrow> support_state \<Rightarrow> support_state result" where
  "closeThread now i closedBy st =
     ebind (or_throw RecordMissing (thread_of st i)) (\<lambda>t.
     Inr (support_emit (SupportThreadClosed i (sp_userId t) (case closedBy of None \<Rightarrow> '''' | Some c \<Rightarrow> c) now)
            (set_thread i (\<lambda>t. t\<lparr>sp_status := ThreadClosed\<rparr>) st)))"

definition reopenThread :: "string \<Rightarrow> support_state \<Rightarrow> support_state result" where
  "reopenThread i st = ebind (or_throw RecordMissing (thread_of st i)) (\<lambda>_. Inr (set_thread i (\<lambda>t. t\<lparr>sp_status := ThreadOpen\<rparr>) st))"

section \<open>Visitors\<close>

definition openGuestThread :: "int \<Rightarrow> string \<times> string \<Rightarrow> string \<Rightarrow> string \<Rightarrow> support_state \<Rightarrow> (support_thread \<times> support_state) result" where
  "openGuestThread now ids name email st =
     (let n = take 120 (js_trim name);
          t = \<lparr>sp_id = fst ids, sp_userId = None, sp_guestId = Some (snd ids), sp_guestName = Some (if n = '''' then ''Guest'' else n),
               sp_guestEmail = Some (take 200 (js_trim email)), sp_status = ThreadOpen, sp_lastMessageAt = None, sp_unreadForAdmins = True, sp_createdAt = now\<rparr>
      in ebind (create_unique ''id'' sp_id t (so_threads st)) (\<lambda>ts. Inr (t, st\<lparr>so_threads := ts\<rparr>)))"

definition getGuestThread :: "string \<Rightarrow> support_state \<Rightarrow> support_thread result" where
  "getGuestThread i st =
     ebind (or_throw (NotFound ''Thread not found'') (thread_of st i)) (\<lambda>t.
     ebind (require (truthy_str (sp_guestId t)) (NotFound ''Thread not found'')) (\<lambda>_. Inr t))"

definition listGuestMessages :: "string \<Rightarrow> support_state \<Rightarrow> support_message list result" where
  "listGuestMessages i st = ebind (getGuestThread i st) (\<lambda>_. Inr (messages_of i st))"

definition notifyAdminsGuestEmail :: "string \<Rightarrow> support_thread \<Rightarrow> string \<Rightarrow> support_state \<Rightarrow> support_state" where
  "notifyAdminsGuestEmail adminEmail t body st =
     support_send adminEmail (GuestChatMail (if truthy_str (sp_guestName t) then the (sp_guestName t) else ''A visitor'')
       (case sp_guestEmail t of None \<Rightarrow> ''no email'' | Some e \<Rightarrow> e) body (sp_id t)) st"

definition postGuestMessage :: "string \<Rightarrow> int \<Rightarrow> string \<Rightarrow> string \<Rightarrow> string \<Rightarrow> support_state \<Rightarrow> (support_message \<times> support_state) result" where
  "postGuestMessage adminEmail now newId i body st =
     ebind (require (js_trim body \<noteq> '''') (Forbidden ''Empty message'')) (\<lambda>_.
     ebind (getGuestThread i st) (\<lambda>t.
     ebind (require (sp_status t \<noteq> ThreadClosed) (Forbidden ''THREAD_CLOSED'')) (\<lambda>_.
     let first = (messages_of i st = []) in
     ebind (add_message now t (new_message now newId i None FromGuest (js_trim body) None) (touch_customer now) st) (\<lambda>(m, st1).
     Inr (m, if first then notifyAdminsGuestEmail adminEmail t (js_trim body) st1 else st1)))))"

text \<open>The endpoints for visitors: possession of a token for the thread is the authorisation.\<close>

definition assertOwns :: "crypto \<Rightarrow> int \<Rightarrow> string \<Rightarrow> string option \<Rightarrow> unit result" where
  "assertOwns lib now i token =
     ebind (require (truthy_str token) (Unauthorized ''Missing guest token'')) (\<lambda>_.
     ebind (or_throw (Unauthorized ''Invalid guest token'') (verifyGuestSupport lib now (the token))) (\<lambda>c.
     require (jc_tid c = Some i) (Unauthorized ''Token does not match thread'')))"

definition guest_open :: "crypto \<Rightarrow> int \<Rightarrow> string \<times> string \<Rightarrow> string \<Rightarrow> string \<Rightarrow> string \<Rightarrow> support_state \<Rightarrow> ((support_thread \<times> string) \<times> support_state) result" where
  "guest_open lib now ids jti name email st =
     ebind (openGuestThread now ids name email st) (\<lambda>(t, st1). Inr ((t, signGuestSupport lib now jti (sp_id t)), st1))"

definition guest_messages :: "crypto \<Rightarrow> int \<Rightarrow> string \<Rightarrow> string option \<Rightarrow> support_state \<Rightarrow> support_message list result" where
  "guest_messages lib now i token st = ebind (assertOwns lib now i token) (\<lambda>_. listGuestMessages i st)"

definition guest_send :: "crypto \<Rightarrow> string \<Rightarrow> int \<Rightarrow> string \<Rightarrow> string \<Rightarrow> string option \<Rightarrow> string \<Rightarrow> support_state \<Rightarrow> (support_message \<times> support_state) result" where
  "guest_send lib adminEmail now newId i token body st = ebind (assertOwns lib now i token) (\<lambda>_. postGuestMessage adminEmail now newId i body st)"

section \<open>File names\<close>

lemma squash_chars: "set (squash P r s) \<subseteq> insert r {c \<in> set s. \<not> P c}"
proof (induction P r s rule: squash.induct)
  case (2 P r c cs)
  have "set (dropWhile P cs) \<subseteq> set cs" by (auto dest: set_dropWhileD)
  then show ?case using 2 by (cases "P c") auto
qed simp

lemma js_trim_chars: "set (js_trim s) \<subseteq> set s"
  by (auto simp: js_trim_def dest!: set_dropWhileD)

lemma sanitizeName_safe: "set (sanitizeName n) \<subseteq> Collect name_char" "sanitizeName n \<noteq> ''''" "length (sanitizeName n) \<le> 120"
proof -
  let ?a = "squash (\<lambda>c. \<not> name_char c) (CHR ''_'') (last_segment (case n of None \<Rightarrow> ''file'' | Some n \<Rightarrow> n))"
  have "set ?a \<subseteq> Collect name_char" using squash_chars [of "\<lambda>c. \<not> name_char c"] by (fastforce simp: name_char_def word_char_def)
  moreover have "set (squash is_space (CHR '' '') ?a) \<subseteq> insert (CHR '' '') (set ?a)" using squash_chars [of is_space "CHR '' ''" ?a] by blast
  ultimately have "set (js_trim (squash is_space (CHR '' '') ?a)) \<subseteq> Collect name_char"
    using js_trim_chars [of "squash is_space (CHR '' '') ?a"] by (auto simp: name_char_def)
  then have "set (take 120 (js_trim (squash is_space (CHR '' '') ?a))) \<subseteq> Collect name_char"
    using set_take_subset by fastforce
  then show "set (sanitizeName n) \<subseteq> Collect name_char"
    by (simp add: sanitizeName_def Let_def name_char_def word_char_def del: set_take_subset)
  show "sanitizeName n \<noteq> ''''" "length (sanitizeName n) \<le> 120" by (simp_all add: sanitizeName_def Let_def)
qed

lemma stripExt_chars: "set (stripExt n) \<subseteq> set n"
  by (auto simp: stripExt_def Let_def dest: in_set_dropD)

lemma tryProcessImage_Some:
  "tryProcessImage im buf = Some (body, ty, ext) \<Longrightarrow>
     (ty, ext) = (''image/png'', ''png'') \<and> im_png im buf = Some body \<or> (ty, ext) = (''image/jpeg'', ''jpg'') \<and> im_jpeg im buf = Some body"
  by (auto simp: tryProcessImage_def split: option.splits prod.splits if_splits)

lemma matchDocument_Some:
  "matchDocument buf mt n = Some y \<Longrightarrow> y \<in> set [(''application/pdf'', ''pdf''), (DOCX_MIME, ''docx''), (''application/msword'', ''doc'')]"
  unfolding matchDocument_def Let_def by (simp only: split: if_splits) simp_all

text \<open>The five formats, and the bytes behind a stored file.\<close>

definition stored_types :: "(string \<times> string) list" where
  "stored_types = [(''image/png'', ''png''), (''image/jpeg'', ''jpg''), (''application/pdf'', ''pdf''), (DOCX_MIME, ''docx''), (''application/msword'', ''doc'')]"

definition clean_bytes :: "imaging \<Rightarrow> incoming_file \<Rightarrow> attachment \<Rightarrow> string \<Rightarrow> bool" where
  "clean_bytes im file a bytes =
     (if at_image a then Some bytes \<in> {im_png im (if_buffer file), im_jpeg im (if_buffer file)}
      else tryProcessImage im (if_buffer file) = None \<and> bytes = if_buffer file \<and>
           map_option fst (matchDocument bytes (if_mimetype file) (sanitizeName (if_originalname file))) = Some (at_type a))"

lemma process_attachment_Inr:
  assumes "process_attachment im maxBytes uuid i file st = Inr (a, st')"
  shows "\<exists>ext bytes. (at_type a, ext) \<in> set stored_types \<and> at_key a = ''support/'' @ i @ ''/'' @ uuid @ ''.'' @ ext \<and>
    st' = st\<lparr>so_files := so_files st @ [(at_key a, at_type a, bytes)]\<rparr> \<and> at_size a = length bytes \<and> clean_bytes im file a bytes \<and>
    (at_name a = stripExt (sanitizeName (if_originalname file)) @ ''.'' @ ext \<or> at_name a = ensureExt (sanitizeName (if_originalname file)) ext)"
proof (cases "tryProcessImage im (if_buffer file)")
  case None
  then obtain ty ext where d: "matchDocument (if_buffer file) (if_mimetype file) (sanitizeName (if_originalname file)) = Some (ty, ext)"
    and a: "a = \<lparr>at_key = ''support/'' @ i @ ''/'' @ uuid @ ''.'' @ ext, at_name = ensureExt (sanitizeName (if_originalname file)) ext,
      at_type = ty, at_size = length (if_buffer file), at_image = False\<rparr>" "st' = st\<lparr>so_files := so_files st @ [(at_key a, ty, if_buffer file)]\<rparr>"
    using assms by (auto simp: process_attachment_def Let_def err_simps split: option.splits)
  show ?thesis
    by (rule exI [of _ ext], rule exI [of _ "if_buffer file"]) (use a d None matchDocument_Some [OF d] in \<open>auto simp: stored_types_def clean_bytes_def\<close>)
next
  case (Some y)
  obtain body ty ext where y: "y = (body, ty, ext)" by (cases y)
  have a: "a = \<lparr>at_key = ''support/'' @ i @ ''/'' @ uuid @ ''.'' @ ext, at_name = stripExt (sanitizeName (if_originalname file)) @ ''.'' @ ext,
      at_type = ty, at_size = length body, at_image = True\<rparr>" "st' = st\<lparr>so_files := so_files st @ [(at_key a, ty, body)]\<rparr>"
    using assms Some y by (auto simp: process_attachment_def Let_def err_simps)
  show ?thesis
    by (rule exI [of _ ext], rule exI [of _ body])
      (use a y tryProcessImage_Some [OF Some [unfolded y]] in \<open>auto simp: stored_types_def clean_bytes_def\<close>)
qed

section \<open>Who writes in a conversation\<close>

text \<open>What no operation changes of a thread, and of a message.\<close>

definition parties :: "support_state \<Rightarrow> (string \<times> string option \<times> string option) list" where
  "parties st = map (\<lambda>t. (sp_id t, sp_userId t, sp_guestId t)) (so_threads st)"

definition written :: "support_state \<Rightarrow> support_message list" where
  "written st = map (\<lambda>m. m\<lparr>sm_readAt := None\<rparr>) (so_messages st)"

definition message_ok :: "(string \<times> string option \<times> string option) list \<Rightarrow> support_message \<Rightarrow> bool" where
  "message_ok ps m = (\<exists>u g. (sm_threadId m, u, g) \<in> set ps \<and>
     (case sm_senderRole m of FromCustomer \<Rightarrow> u \<noteq> None \<and> sm_senderId m = u
      | FromGuest \<Rightarrow> g \<noteq> None \<and> sm_senderId m = None \<and> sm_attachment m = None
      | FromAdmin \<Rightarrow> sm_senderId m \<noteq> None) \<and>
     (\<forall>a. sm_attachment m = Some a \<longrightarrow> u \<noteq> None \<and> starts_with (''support/'' @ sm_threadId m @ ''/'') (at_key a)))"

definition support_inv :: "support_state \<Rightarrow> bool" where
  "support_inv st = (distinct (map fst (parties st)) \<and> (\<forall>(i, u, g) \<in> set (parties st). (u = None) \<noteq> (g = None)) \<and>
     distinct (map sm_id (written st)) \<and> (\<forall>m \<in> set (written st). message_ok (parties st) m))"

inductive support_step :: "crypto \<Rightarrow> imaging \<Rightarrow> nat \<Rightarrow> string \<Rightarrow> support_state \<Rightarrow> support_state \<Rightarrow> bool" for lib im maxBytes adminEmail where
  su_open: "openOrGetCustomerThread now i u st = Inr (t, st') \<Longrightarrow> support_step lib im maxBytes adminEmail st st'"
| su_post: "postCustomerMessage adminEmail now mi u i body st = Inr (m, st') \<Longrightarrow> support_step lib im maxBytes adminEmail st st'"
| su_attach: "postCustomerAttachment im maxBytes now ids u i caption file st = Inr (m, st') \<Longrightarrow> support_step lib im maxBytes adminEmail st st'"
| su_list: "listAdminMessages i st = Inr (ms, st') \<Longrightarrow> support_step lib im maxBytes adminEmail st st'"
| su_reply: "postAdminMessage now mi u i body st = Inr (m, st') \<Longrightarrow> support_step lib im maxBytes adminEmail st st'"
| su_admin_attach: "postAdminAttachment im maxBytes now ids u i caption file st = Inr (m, st') \<Longrightarrow> support_step lib im maxBytes adminEmail st st'"
| su_read: "markAdminMessagesRead now u i st = Inr (is, st') \<Longrightarrow> support_step lib im maxBytes adminEmail st st'"
| su_close: "closeThread now i c st = Inr st' \<Longrightarrow> support_step lib im maxBytes adminEmail st st'"
| su_reopen: "reopenThread i st = Inr st' \<Longrightarrow> support_step lib im maxBytes adminEmail st st'"
| su_guest: "guest_open lib now ids jti name email st = Inr (o1, st') \<Longrightarrow> support_step lib im maxBytes adminEmail st st'"
| su_guest_send: "guest_send lib adminEmail now mi i token body st = Inr (m, st') \<Longrightarrow> support_step lib im maxBytes adminEmail st st'"

lemma support_frames [simp]:
  "parties (support_emit e st) = parties st" "written (support_emit e st) = written st"
  "parties (support_send r m st) = parties st" "written (support_send r m st) = written st"
  "written (set_thread i f st) = written st"
  "parties (st\<lparr>so_messages := ms\<rparr>) = parties st" "parties (st\<lparr>so_files := fs\<rparr>) = parties st" "written (st\<lparr>so_files := fs\<rparr>) = written st"
  "written (st\<lparr>so_threads := ts\<rparr>) = written st"
  by (simp_all add: parties_def written_def support_emit_def support_send_def set_thread_def split: option.splits)

lemma parties_set_thread:
  "(\<And>t. (sp_id (f t), sp_userId (f t), sp_guestId (f t)) = (sp_id t, sp_userId t, sp_guestId t)) \<Longrightarrow> parties (set_thread i f st) = parties st"
  by (simp add: parties_def set_thread_def map_update_many)

lemma emitMessageCreated_frames [simp]: "parties (emitMessageCreated now t m st) = parties st" "written (emitMessageCreated now t m st) = written st"
  by (simp_all add: emitMessageCreated_def Let_def)

lemma notify_frames [simp]:
  "parties (notifyAdminsByEmail a i b u st) = parties st" "written (notifyAdminsByEmail a i b u st) = written st"
  "parties (notifyAdminsGuestEmail a t b st) = parties st" "written (notifyAdminsGuestEmail a t b st) = written st"
  by (simp_all add: notifyAdminsByEmail_def notifyAdminsGuestEmail_def Let_def)

lemma thread_party: "thread_of st i = Some t \<Longrightarrow> (i, sp_userId t, sp_guestId t) \<in> set (parties st)"
  by (auto simp: thread_of_def parties_def dest!: find_unique_SomeD)

lemma inv_same: "support_inv st \<Longrightarrow> parties st' = parties st \<Longrightarrow> written st' = written st \<Longrightarrow> support_inv st'"
  by (simp add: support_inv_def)

lemma inv_new_thread:
  assumes "support_inv st" "create_unique ''id'' sp_id t (so_threads st) = Inr ts" "(sp_userId t = None) \<noteq> (sp_guestId t = None)"
  shows "support_inv (st\<lparr>so_threads := ts\<rparr>)"
proof -
  have p: "parties (st\<lparr>so_threads := ts\<rparr>) = parties st @ [(sp_id t, sp_userId t, sp_guestId t)]" "sp_id t \<notin> fst ` set (parties st)"
    using assms(2) by (force simp: parties_def err_simps find_unique_None_iff)+
  have "message_ok (parties st @ [x]) m" if "message_ok (parties st) m" for m x
    using that unfolding message_ok_def by auto
  then show ?thesis using assms(1,3) unfolding support_inv_def p(1) using p(2) by auto
qed

lemma written_append: "sm_readAt m = None \<Longrightarrow> written (st\<lparr>so_messages := so_messages st @ [m]\<rparr>) = written st @ [m]"
  by (cases m) (simp add: written_def)

lemma written_ids: "sm_id ` set (written st) = sm_id ` set (so_messages st)"
  by (simp add: written_def image_image)

lemma inv_add_message:
  assumes "support_inv st" "add_message now t m f st = Inr (m', st')" "message_ok (parties st) m" "sm_readAt m = None"
    and "\<And>t. (sp_id (f t), sp_userId (f t), sp_guestId (f t)) = (sp_id t, sp_userId t, sp_guestId t)"
  shows "support_inv st'"
proof -
  have "parties st' = parties st" "written st' = written st @ [m]" "sm_id m \<notin> sm_id ` set (written st)"
    using assms(2,4) parties_set_thread [OF assms(5)]
    by (auto simp: add_message_def err_simps find_unique_None_iff written_append written_ids)
  then show ?thesis using assms(1,3) by (auto simp: support_inv_def)
qed

lemma attachment_frame:
  assumes "process_attachment im maxBytes uuid i file st = Inr (a, st1)"
  shows "parties st1 = parties st" "written st1 = written st" "starts_with (''support/'' @ i @ ''/'') (at_key a)"
  using process_attachment_Inr [OF assms] by (auto simp: starts_with_def)

lemma inv_attachment:
  assumes "support_inv st" "process_attachment im maxBytes uuid i file st = Inr (a, st1)" "thread_of st i = Some t" "sp_userId t \<noteq> None"
    and "createAttachmentMessage now mi t role sender caption a unread st1 = Inr (m, st')" "role = FromAdmin \<or> role = FromCustomer \<and> sp_userId t = Some sender"
  shows "support_inv st'"
proof -
  have t: "sp_id t = i" "(i, sp_userId t, sp_guestId t) \<in> set (parties st1)"
    using thread_party [OF assms(3)] attachment_frame(1) [OF assms(2)] assms(3) by (auto simp: thread_of_def dest: find_unique_SomeD)
  have ok: "message_ok (parties st1) (new_message now mi (sp_id t) (Some sender) role (take 4000 (js_trim caption)) (Some a))"
    unfolding message_ok_def by (rule exI [of _ "sp_userId t"], rule exI [of _ "sp_guestId t"])
      (use t assms(4,6) attachment_frame(3) [OF assms(2)] in \<open>auto simp: new_message_def\<close>)
  show ?thesis
    by (rule inv_add_message [OF inv_same [OF assms(1) attachment_frame(1,2) [OF assms(2)]] assms(5) [unfolded createAttachmentMessage_def]])
      (simp_all add: ok, simp add: new_message_def)
qed

lemma inv_text:
  assumes "support_inv st" "thread_of st i = Some t" "add_message now t (new_message now mi i sender role body None) f st = Inr (m, st')"
    and "case role of FromCustomer \<Rightarrow> sender \<noteq> None \<and> sp_userId t = sender | FromGuest \<Rightarrow> sp_guestId t \<noteq> None \<and> sender = None | FromAdmin \<Rightarrow> sender \<noteq> None"
    and "\<And>t. (sp_id (f t), sp_userId (f t), sp_guestId (f t)) = (sp_id t, sp_userId t, sp_guestId t)"
  shows "support_inv st'"
proof (rule inv_add_message [OF assms(1,3) _ _ assms(5)])
  show "message_ok (parties st) (new_message now mi i sender role body None)"
    using thread_party [OF assms(2)] assms(4) by (cases role) (auto simp: message_ok_def new_message_def)
qed (simp add: new_message_def)

lemma touch_keys: "(sp_id (touch_customer now t), sp_userId (touch_customer now t), sp_guestId (touch_customer now t)) = (sp_id t, sp_userId t, sp_guestId t)"
  by (simp add: touch_customer_def)

lemma own_thread_Inr: "own_thread u i st = Inr t \<longleftrightarrow> thread_of st i = Some t \<and> sp_userId t = Some u"
  by (auto simp: own_thread_def err_simps)

lemma read_written: "written (st\<lparr>so_messages := update_many P (\<lambda>m. m\<lparr>sm_readAt := Some now\<rparr>) (so_messages st)\<rparr>) = written st"
  by (simp add: written_def map_update_many)

lemma customer_step_inv:
  "openOrGetCustomerThread now i u st = Inr (t, st') \<Longrightarrow> support_inv st \<Longrightarrow> support_inv st'"
  "postCustomerMessage adminEmail now mi u i body st = Inr (m, st') \<Longrightarrow> support_inv st \<Longrightarrow> support_inv st'"
  "postCustomerAttachment im maxBytes now ids u i caption file st = Inr (m, st') \<Longrightarrow> support_inv st \<Longrightarrow> support_inv st'"
  "markAdminMessagesRead now u i st = Inr (is, st') \<Longrightarrow> support_inv st \<Longrightarrow> support_inv st'"
proof -
  show "support_inv st'" if "openOrGetCustomerThread now i u st = Inr (t, st')" "support_inv st"
    using that by (auto simp: openOrGetCustomerThread_def Let_def ebind_eq_Inr intro!: inv_new_thread split: list.splits)
  show "support_inv st'" if "postCustomerMessage adminEmail now mi u i body st = Inr (m, st')" "support_inv st"
  proof -
    from that(1) obtain t st1 where t: "thread_of st i = Some t" "sp_userId t = Some u"
        "add_message now t (new_message now mi i (Some u) FromCustomer (js_trim body) None) (touch_customer now) st = Inr (m, st1)"
      and s: "parties st' = parties st1" "written st' = written st1"
      by (auto simp: postCustomerMessage_def err_simps own_thread_Inr Let_def split: if_splits)
    show ?thesis by (rule inv_same [OF inv_text [OF that(2) t(1,3)] s]) (use t touch_keys in auto)
  qed
  show "support_inv st'" if "postCustomerAttachment im maxBytes now ids u i caption file st = Inr (m, st')" "support_inv st"
    using that by (auto simp: postCustomerAttachment_def err_simps own_thread_Inr intro: inv_attachment)
  show "support_inv st'" if "markAdminMessagesRead now u i st = Inr (is, st')" "support_inv st"
    using that by (auto simp: markAdminMessagesRead_def err_simps Let_def read_written intro: inv_same split: if_splits)
qed

lemma desk_step_inv:
  "listAdminMessages i st = Inr (ms, st') \<Longrightarrow> support_inv st \<Longrightarrow> support_inv st'"
  "postAdminMessage now mi u i body st = Inr (m, st') \<Longrightarrow> support_inv st \<Longrightarrow> support_inv st'"
  "postAdminAttachment im maxBytes now ids u i caption file st = Inr (m, st') \<Longrightarrow> support_inv st \<Longrightarrow> support_inv st'"
  "closeThread now i c st = Inr s1 \<Longrightarrow> support_inv st \<Longrightarrow> support_inv s1"
  "reopenThread i st = Inr s1 \<Longrightarrow> support_inv st \<Longrightarrow> support_inv s1"
proof -
  show "support_inv st'" if "listAdminMessages i st = Inr (ms, st')" "support_inv st"
    using that by (auto simp: listAdminMessages_def err_simps Let_def parties_set_thread intro: inv_same)
  show "support_inv st'" if "postAdminMessage now mi u i body st = Inr (m, st')" "support_inv st"
    using that by (auto simp: postAdminMessage_def err_simps intro: inv_text)
  show "support_inv st'" if "postAdminAttachment im maxBytes now ids u i caption file st = Inr (m, st')" "support_inv st"
    using that by (auto simp: postAdminAttachment_def err_simps truthy_str_iff intro: inv_attachment)
  show "support_inv s1" if "closeThread now i c st = Inr s1" "support_inv st"
    using that by (auto simp: closeThread_def err_simps parties_set_thread intro: inv_same)
  show "support_inv s1" if "reopenThread i st = Inr s1" "support_inv st"
    using that by (auto simp: reopenThread_def err_simps parties_set_thread intro: inv_same)
qed

lemma getGuestThread_Inr: "getGuestThread i st = Inr t \<longleftrightarrow> thread_of st i = Some t \<and> truthy_str (sp_guestId t)"
  by (auto simp: getGuestThread_def err_simps)

lemma guest_step_inv:
  "guest_open lib now ids jti name email st = Inr (o1, st') \<Longrightarrow> support_inv st \<Longrightarrow> support_inv st'"
  "guest_send lib adminEmail now mi i token body st = Inr (m, st') \<Longrightarrow> support_inv st \<Longrightarrow> support_inv st'"
proof -
  show "support_inv st'" if "guest_open lib now ids jti name email st = Inr (o1, st')" "support_inv st"
    using that by (auto simp: guest_open_def openGuestThread_def Let_def ebind_eq_Inr intro!: inv_new_thread)
  show "support_inv st'" if "guest_send lib adminEmail now mi i token body st = Inr (m, st')" "support_inv st"
  proof -
    from that(1) obtain t st1 where t: "thread_of st i = Some t" "truthy_str (sp_guestId t)"
        "add_message now t (new_message now mi i None FromGuest (js_trim body) None) (touch_customer now) st = Inr (m, st1)"
      and s: "parties st' = parties st1" "written st' = written st1"
      by (auto simp: guest_send_def postGuestMessage_def err_simps getGuestThread_Inr Let_def split: if_splits)
    show ?thesis by (rule inv_same [OF inv_text [OF that(2) t(1,3)] s]) (use t touch_keys in \<open>auto simp: truthy_str_iff\<close>)
  qed
qed

interpretation support_desk: step_invariant "support_step lib im maxBytes adminEmail" support_inv for lib im maxBytes adminEmail
proof
  fix st st' assume "support_step lib im maxBytes adminEmail st st'" "support_inv st"
  then show "support_inv st'"
    by (induction rule: support_step.induct) (rule customer_step_inv desk_step_inv guest_step_inv; assumption)+
qed

lemma inv_message:
  assumes "support_inv st" "m \<in> set (so_messages st)" "thread_of st (sm_threadId m) = Some t"
  shows "case sm_senderRole m of FromCustomer \<Rightarrow> sp_userId t \<noteq> None \<and> sm_senderId m = sp_userId t
      | FromGuest \<Rightarrow> sp_guestId t \<noteq> None \<and> sm_senderId m = None \<and> sm_attachment m = None | FromAdmin \<Rightarrow> sm_senderId m \<noteq> None"
    and "sm_attachment m = Some a \<Longrightarrow> sp_userId t \<noteq> None \<and> starts_with (''support/'' @ sm_threadId m @ ''/'') (at_key a)"
    and "(sp_userId t = None) \<noteq> (sp_guestId t = None)"
proof -
  have "m\<lparr>sm_readAt := None\<rparr> \<in> set (written st)" using assms(2) by (auto simp: written_def)
  then have ok: "message_ok (parties st) (m\<lparr>sm_readAt := None\<rparr>)" using assms(1) unfolding support_inv_def by blast
  have t: "(sm_threadId m, sp_userId t, sp_guestId t) \<in> set (parties st)" by (rule thread_party [OF assms(3)])
  have "u = sp_userId t \<and> g = sp_guestId t" if "(sm_threadId m, u, g) \<in> set (parties st)" for u g
    using assms(1) t that unfolding support_inv_def by (metis eq_key_imp_eq_value prod.inject)
  then show "case sm_senderRole m of FromCustomer \<Rightarrow> sp_userId t \<noteq> None \<and> sm_senderId m = sp_userId t
      | FromGuest \<Rightarrow> sp_guestId t \<noteq> None \<and> sm_senderId m = None \<and> sm_attachment m = None | FromAdmin \<Rightarrow> sm_senderId m \<noteq> None"
    "sm_attachment m = Some a \<Longrightarrow> sp_userId t \<noteq> None \<and> starts_with (''support/'' @ sm_threadId m @ ''/'') (at_key a)"
    using ok by (cases "sm_senderRole m"; auto simp: message_ok_def)+
  show "(sp_userId t = None) \<noteq> (sp_guestId t = None)" using assms(1) t by (auto simp: support_inv_def)
qed

section \<open>Properties\<close>

text \<open>C27. Whatever the desk, its customers and its visitors do, a customer reads of a conversation only what he wrote
  himself and what administrators answered, and every file in it lies in the folder of that conversation; a visitor
  reads only visitors' messages and answers, and no files.\<close>

theorem conversations_stay_private:
  assumes "(support_step lib im maxBytes adminEmail)\<^sup>*\<^sup>* st st'" "support_inv st"
  shows "(listCustomerMessages u i st' = Inr ms \<and> m \<in> set ms \<longrightarrow>
       (sm_senderId m = Some u \<and> sm_senderRole m = FromCustomer \<or> sm_senderRole m = FromAdmin) \<and>
       (\<forall>a. sm_attachment m = Some a \<longrightarrow> starts_with (''support/'' @ i @ ''/'') (at_key a))) \<and>
     (guest_messages lib now i token st' = Inr ms \<and> m \<in> set ms \<longrightarrow> sm_senderRole m \<noteq> FromCustomer \<and> sm_attachment m = None)"
proof (intro conjI impI)
  have inv: "support_inv st'" using support_desk.history_inv [OF assms] .
  {
    assume a: "listCustomerMessages u i st' = Inr ms \<and> m \<in> set ms"
    then obtain t where t: "thread_of st' i = Some t" "sp_userId t = Some u" "m \<in> set (so_messages st')" "sm_threadId m = i"
      by (auto simp: listCustomerMessages_def err_simps messages_of_def)
    show "sm_senderId m = Some u \<and> sm_senderRole m = FromCustomer \<or> sm_senderRole m = FromAdmin"
      "\<forall>a. sm_attachment m = Some a \<longrightarrow> starts_with (''support/'' @ i @ ''/'') (at_key a)"
      using t inv_message [OF inv t(3)] by (cases "sm_senderRole m"; auto)+
  next
    assume a: "guest_messages lib now i token st' = Inr ms \<and> m \<in> set ms"
    then obtain t where t: "thread_of st' i = Some t" "truthy_str (sp_guestId t)" "m \<in> set (so_messages st')" "sm_threadId m = i"
      by (auto simp: guest_messages_def listGuestMessages_def getGuestThread_Inr err_simps messages_of_def)
    then have "sp_userId t = None" using inv_message(3) [OF inv t(3)] by (auto simp: truthy_str_iff)
    then show "sm_senderRole m \<noteq> FromCustomer" "sm_attachment m = None"
      using t inv_message(1,2) [OF inv t(3)] by (cases "sm_senderRole m"; cases "sm_attachment m"; auto)+
  }
qed

text \<open>A file that is accepted is stored as one of five formats under the folder of its conversation, reads back as
  the bytes that were stored, and those are the re-encoded image or a document whose first bytes were recognised;
  its display name has only letters, digits, and the characters of a plain file name.\<close>

theorem stored_file_is_safe:
  assumes "process_attachment im maxBytes uuid i file st = Inr (a, st')" "\<forall>f \<in> set (so_files st). fst f \<noteq> at_key a"
  shows "\<exists>ext bytes. readAttachment a st' = Inr (bytes, a) \<and> (at_type a, ext) \<in> set stored_types \<and>
    at_key a = ''support/'' @ i @ ''/'' @ uuid @ ''.'' @ ext \<and> at_size a = length bytes \<and> clean_bytes im file a bytes \<and>
    set (at_name a) \<subseteq> Collect name_char"
proof -
  obtain ext bytes where p: "(at_type a, ext) \<in> set stored_types" "at_key a = ''support/'' @ i @ ''/'' @ uuid @ ''.'' @ ext"
      "st' = st\<lparr>so_files := so_files st @ [(at_key a, at_type a, bytes)]\<rparr>" "at_size a = length bytes" "clean_bytes im file a bytes"
      "at_name a = stripExt (sanitizeName (if_originalname file)) @ ''.'' @ ext \<or> at_name a = ensureExt (sanitizeName (if_originalname file)) ext"
    using process_attachment_Inr [OF assms(1)] by blast
  have "map_of (so_files st) (at_key a) = None" using assms(2) by (auto simp: map_of_eq_None_iff)
  then have r: "readAttachment a st' = Inr (bytes, a)" by (simp add: readAttachment_def p(3) map_add_def)
  let ?n = "sanitizeName (if_originalname file)"
  have ext: "set (''.'' @ ext) \<subseteq> Collect name_char" using p(1) by (auto simp: stored_types_def name_char_def word_char_def)
  have n: "set ?n \<subseteq> Collect name_char" "set (stripExt ?n) \<subseteq> Collect name_char"
    using sanitizeName_safe(1) [of "if_originalname file"] stripExt_chars [of ?n] by (blast, blast)
  have "at_name a \<in> {stripExt ?n @ ''.'' @ ext, ?n, ?n @ ''.'' @ ext}" using p(6) by (auto simp: ensureExt_def split: if_splits)
  then have "set (at_name a) \<subseteq> set (stripExt ?n) \<union> set ?n \<union> set (''.'' @ ext)" by auto
  then have "set (at_name a) \<subseteq> Collect name_char" using n ext by blast
  then show ?thesis using r p by blast
qed

lemma not_ok_ebind: "\<not> is_ok m \<Longrightarrow> \<not> is_ok (ebind m f)"
  by (cases m) auto

text \<open>The token a visitor gets with a conversation opens that conversation for thirty days, as long as it exists,
  and never another one.\<close>

theorem guest_token_opens_its_thread:
  assumes "jwt_laws lib" "guest_open lib now ids jti name email st = Inr ((t, token), st1)" "token \<noteq> ''''" "snd ids \<noteq> ''''" "support_inv st"
  shows "(now' div 1000 < now div 1000 + 30 * 86400 \<longrightarrow> is_ok (guest_messages lib now' (sp_id t) (Some token) st1)) \<and>
    (i \<noteq> sp_id t \<longrightarrow> \<not> is_ok (guest_messages lib now' i (Some token) st2) \<and> \<not> is_ok (guest_send lib adminEmail now' mi i (Some token) body st2))"
proof -
  have tok: "token = signGuestSupport lib now jti (sp_id t)" and t: "sp_guestId t = Some (snd ids)" "sp_id t = fst ids"
    and st1: "so_threads st1 = so_threads st @ [t]" "find_unique sp_id (fst ids) (so_threads st) = None"
    using assms(2) by (auto simp: guest_open_def openGuestThread_def Let_def err_simps)
  have v: "verifyGuestSupport lib now' token = (if now' div 1000 < now div 1000 + 2592000
      then Some ((no_claims jti)\<lparr>jc_tid := Some (sp_id t), jc_purpose := Some ''guest_support''\<rparr>) else None)"
    using assms(1) unfolding jwt_laws_def by (simp add: tok signGuestSupport_def verifyGuestSupport_def)
  have own: "assertOwns lib now' j (Some token) = Inr () \<longleftrightarrow> now' div 1000 < now div 1000 + 2592000 \<and> j = sp_id t" for j
    using assms(3) by (auto simp: assertOwns_def err_simps truthy_str_def v)
  have "getGuestThread (sp_id t) st1 = Inr t"
    using st1 t assms(4) by (simp add: getGuestThread_Inr thread_of_def find_unique_append truthy_str_def)
  then have "is_ok (guest_messages lib now' (sp_id t) (Some token) st1)" if "now' div 1000 < now div 1000 + 30 * 86400"
    using own [of "sp_id t"] that by (simp add: guest_messages_def listGuestMessages_def)
  moreover have "\<not> is_ok (assertOwns lib now' i (Some token))" if "i \<noteq> sp_id t"
    using own [of i] that by (cases "assertOwns lib now' i (Some token)") auto
  ultimately show ?thesis by (simp add: guest_messages_def guest_send_def not_ok_ebind)
qed

text \<open>An administrator's file reopens a closed conversation, which an administrator's message does not.\<close>

theorem admin_file_reopens:
  assumes "thread_of st i = Some t" "sp_status t = ThreadClosed" "distinct (map sp_id (so_threads st))"
  shows "(postAdminMessage now mi u i body st = Inr (m, st1) \<longrightarrow> map_option sp_status (thread_of st1 i) = Some ThreadClosed) \<and>
     (postAdminAttachment im maxBytes now ids u i caption file st = Inr (m, st1) \<longrightarrow> map_option sp_status (thread_of st1 i) = Some ThreadOpen)"
proof -
  have i: "sp_id t = i" using assms(1) by (auto simp: thread_of_def dest: find_unique_SomeD)
  have th: "thread_of (emitMessageCreated now t m (set_thread i f (s\<lparr>so_messages := ms\<rparr>))) i = map_option f (thread_of s i)"
    if "\<And>x. sp_id (f x) = sp_id x" for f :: "support_thread \<Rightarrow> support_thread" and s ms m
    using that by (simp add: thread_of_def emitMessageCreated_def Let_def support_emit_def set_thread_def find_unique_update_many)
  show ?thesis
  proof (intro conjI impI)
    assume "postAdminMessage now mi u i body st = Inr (m, st1)"
    then show "map_option sp_status (thread_of st1 i) = Some ThreadClosed"
      using assms(1,2) by (auto simp: postAdminMessage_def add_message_def err_simps i th)
  next
    assume "postAdminAttachment im maxBytes now ids u i caption file st = Inr (m, st1)"
    then obtain a s where "process_attachment im maxBytes (snd ids) i file st = Inr (a, s)"
        "createAttachmentMessage now (fst ids) t FromAdmin u caption a False s = Inr (m, st1)"
      using assms(1) by (auto simp: postAdminAttachment_def err_simps)
    moreover from this(1) have "thread_of s i = Some t" using process_attachment_Inr assms(1) by (fastforce simp: thread_of_def)
    ultimately show "map_option sp_status (thread_of st1 i) = Some ThreadOpen"
      by (auto simp: createAttachmentMessage_def add_message_def err_simps i th)
  qed
qed

end
