(* ===== verification/Mail_Desk.thy ===== *)
theory Mail_Desk
  imports Bank_Prelude "HOL-Library.Product_Lexorder"
begin

text \<open>
  The mail desk (\<^verbatim>\<open>mail/mail.service.ts\<close>): administrators write mails from one of three identities, and the answers
  of the recipients arrive at a webhook and are filed in the conversation their reply address names. The mail
  provider, its webhook signatures and the HTML sanitizer are the record \<open>mail_provider\<close>; files are a list.
\<close>

section \<open>State\<close>

datatype mail_desk = CustomerCare | Administrator | BankManager

datatype mail_status = MailOpen | MailClosed

datatype mail_direction = Outbound | Inbound

record mail_thread =
  mt_id :: string
  mt_userId :: "string option"
  mt_toEmail :: string
  mt_toName :: "string option"
  mt_desk :: mail_desk
  mt_subject :: string
  mt_status :: mail_status
  mt_replyToken :: string
  mt_references :: "string option"
  mt_lastMessageAt :: "int option"
  mt_unreadForAdmins :: bool
  mt_createdAt :: int

record mail_message =
  mm_id :: string
  mm_threadId :: string
  mm_direction :: mail_direction
  mm_desk :: mail_desk
  mm_fromEmail :: string
  mm_fromName :: "string option"
  mm_toEmail :: string
  mm_subject :: string
  mm_bodyHtml :: string
  mm_bodyText :: string
  mm_providerMessageId :: "string option"
  mm_rfcMessageId :: "string option"
  mm_inReplyTo :: "string option"
  mm_authoredByAdminId :: "string option"
  mm_createdAt :: int

record mail_attachment =
  ma_id :: string
  ma_messageId :: string
  ma_filename :: string
  ma_contentType :: string
  ma_sizeBytes :: int
  ma_storageKey :: "string option"
  ma_resendAttachmentId :: "string option"

datatype mail_event = MailMessageCreated string mail_direction string int | MailQueueChanged int

record outgoing =
  og_to :: string
  og_from :: string
  og_replyTo :: string
  og_subject :: string
  og_html :: string
  og_text :: string
  og_headers :: "(string \<times> string) list"
  og_attachments :: "(string \<times> string \<times> string) list"
    \<comment> \<open>name, content type, bytes\<close>

record mail_state =
  ms_threads :: "mail_thread list"
  ms_messages :: "mail_message list"
  ms_attachments :: "mail_attachment list"
  ms_files :: "(string \<times> string \<times> string) list"
  ms_sent :: "outgoing list"
  ms_events :: "mail_event list"

text \<open>A received mail as the provider returns it, and the notice that announces it.\<close>

record received_mail =
  rm_html :: "string option"
  rm_text :: "string option"
  rm_messageId :: "string option"
  rm_headers :: "(string \<times> string) list option"

record announced =
  an_id :: string
  an_filename :: "string option"
  an_contentType :: "string option"
  an_size :: "int option"

record inbound_notice =
  in_emailId :: string
  in_from :: string
  in_to :: "string list"
  in_cc :: "string list"
  in_subject :: string
  in_messageId :: string
  in_attachments :: "announced list"

datatype webhook_event = EmailReceived inbound_notice | OtherEvent string

text \<open>The libraries: sanitizer with the desk's options, sanitizer that keeps no tag, the bank's page around a title and body, sending (the
  identifier or an error), signature check, the received mail, and an attachment's name and bytes when it has a
  download link.\<close>

record mail_provider =
  mp_sanitize :: "string \<Rightarrow> string"
  mp_strip :: "string \<Rightarrow> string"
  mp_wrap :: "string \<Rightarrow> string \<Rightarrow> string"
  mp_send :: "outgoing \<Rightarrow> string result"
  mp_verify :: "string \<Rightarrow> string \<Rightarrow> string \<times> string \<times> string \<Rightarrow> webhook_event option"
  mp_receive :: "string \<Rightarrow> received_mail option result"
  mp_download :: "string \<Rightarrow> string \<Rightarrow> (string option \<times> string) option result"

section \<open>Identities and texts\<close>

definition env_value :: "(string \<Rightarrow> string option) \<Rightarrow> string \<Rightarrow> string option" where
  "env_value env k = (case env k of None \<Rightarrow> None | Some v \<Rightarrow> if js_trim v = '''' then None else Some (js_trim v))"

definition em_dash :: string where
  "em_dash = [CHR 0xE2, CHR 0x80, CHR 0x94]"

definition desk_prefix :: "mail_desk \<Rightarrow> string" where
  "desk_prefix d = (case d of CustomerCare \<Rightarrow> ''MAIL_DESK_CARE'' | Administrator \<Rightarrow> ''MAIL_DESK_ADMIN'' | BankManager \<Rightarrow> ''MAIL_DESK_MANAGER'')"

text \<open>Address and name of a desk.\<close>

definition getDeskIdentity :: "(string \<Rightarrow> string option) \<Rightarrow> mail_desk \<Rightarrow> string \<times> string" where
  "getDeskIdentity env d =
     (let email = (case d of CustomerCare \<Rightarrow> ''care@secure-access.site'' | Administrator \<Rightarrow> ''admin@secure-access.site'' | BankManager \<Rightarrow> ''manager@secure-access.site'');
          name = ''State Bank '' @ em_dash @ (case d of CustomerCare \<Rightarrow> '' Customer Care'' | Administrator \<Rightarrow> '' Administration'' | BankManager \<Rightarrow> '' Office of the Manager'')
      in (case env_value env (desk_prefix d @ ''_FROM'') of None \<Rightarrow> email | Some v \<Rightarrow> v,
          case env_value env (desk_prefix d @ ''_NAME'') of None \<Rightarrow> name | Some v \<Rightarrow> v))"

definition deskFromHeader :: "(string \<Rightarrow> string option) \<Rightarrow> mail_desk \<Rightarrow> string" where
  "deskFromHeader env d = snd (getDeskIdentity env d) @ '' <'' @ fst (getDeskIdentity env d) @ ''>''"

definition replace_char :: "char \<Rightarrow> string \<Rightarrow> string \<Rightarrow> string" where
  "replace_char c r s = concat (map (\<lambda>x. if x = c then r else [x]) s)"

function replace_all :: "string \<Rightarrow> string \<Rightarrow> string \<Rightarrow> string" where
  "replace_all p r s =
     (case s of [] \<Rightarrow> [] | c # cs \<Rightarrow> if p \<noteq> [] \<and> starts_with p s then r @ replace_all p r (drop (length p) s) else c # replace_all p r cs)"
  by auto
termination
  by (relation "measure (\<lambda>(_, _, s). length s)") auto

declare replace_all.simps [simp del]

text \<open>Three or more line feeds become two.\<close>

function squeeze_lines :: "string \<Rightarrow> string" where
  "squeeze_lines [] = []"
| "squeeze_lines (c # cs) =
     (if c = CHR 0x0A then replicate (min 2 (Suc (length (takeWhile (\<lambda>x. x = CHR 0x0A) cs)))) c @ squeeze_lines (dropWhile (\<lambda>x. x = CHR 0x0A) cs)
      else c # squeeze_lines cs)"
  by pat_completeness auto
termination
  by (relation "measure length") (auto simp: le_imp_less_Suc length_dropWhile_le)

definition htmlToText :: "mail_provider \<Rightarrow> string \<Rightarrow> string" where
  "htmlToText mp html = js_trim (squeeze_lines (replace_all ''&nbsp;'' '' '' (mp_strip mp html)))"

definition escapeText :: "string \<Rightarrow> string" where
  "escapeText s = replace_char (CHR ''>'') ''&gt;'' (replace_char (CHR ''<'') ''&lt;'' (replace_char (CHR ''&'') ''&amp;'' s))"

definition escapeHtml :: "string \<Rightarrow> string" where
  "escapeHtml s = replace_char (CHR 0x27) ''&#39;'' (replace_char (CHR ''\"'') ''&quot;'' (escapeText s))"

definition INK_STYLE :: string where
  "INK_STYLE = ''font-family:Georgia,'' @ [CHR 0x27] @ ''Times New Roman'' @ [CHR 0x27] @ '',serif;font-size:15px;line-height:1.62;color:#514D45;''"

definition composeMailBody :: "string option \<Rightarrow> string \<Rightarrow> string option \<Rightarrow> string" where
  "composeMailBody greeting bodyHtml signature =
     (let g = (case greeting of None \<Rightarrow> '''' | Some g \<Rightarrow> js_trim g); s = (case signature of None \<Rightarrow> '''' | Some s \<Rightarrow> js_trim s) in
      (if g = '''' then '''' else ''<p class=\"body-text\" style=\"'' @ INK_STYLE @ ''margin:0 0 16px;\">'' @ escapeHtml g @ ''</p>'') @
      ''<div class=\"body-text\" style=\"'' @ INK_STYLE @ ''\">'' @ bodyHtml @ ''</div>'' @
      (if s = '''' then ''''
       else ''<div class=\"body-text\" style=\"'' @ INK_STYLE @ ''margin-top:22px;\">'' @
            join_with ''<br />'' (map escapeHtml (split_on (CHR 0x0A) s)) @ ''</div>''))"

section \<open>Addresses\<close>

fun angle_part :: "string \<Rightarrow> string option" where
  "angle_part [] = None"
| "angle_part (c # cs) =
     (if c = CHR ''<'' \<and> CHR ''>'' \<in> set cs \<and> takeWhile (\<lambda>x. x \<noteq> CHR ''>'') cs \<noteq> []
      then Some (takeWhile (\<lambda>x. x \<noteq> CHR ''>'') cs) else angle_part cs)"

definition extractEmail :: "string \<Rightarrow> string" where
  "extractEmail addr = js_trim (case angle_part addr of None \<Rightarrow> addr | Some e \<Rightarrow> e)"

text \<open>The name before the first angle bracket, in quotes or not.\<close>

definition extractName :: "string \<Rightarrow> string option" where
  "extractName addr =
     (if CHR ''<'' \<notin> set addr then None
      else case split_on (CHR ''\"'') (takeWhile (\<lambda>x. x \<noteq> CHR ''<'') addr) of
        [a] \<Rightarrow> if a = [] then None else Some (js_trim a)
      | [a, b] \<Rightarrow> if list_all is_space a \<and> b \<noteq> [] then Some (js_trim b)
                  else if a \<noteq> [] \<and> list_all is_space b then Some (js_trim a) else None
      | [a, b, c] \<Rightarrow> if list_all is_space a \<and> list_all is_space c \<and> b \<noteq> [] then Some (js_trim b) else None
      | _ \<Rightarrow> None)"

definition filename_char :: "char \<Rightarrow> bool" where
  "filename_char c = (let n = (of_char c :: nat) in 48 \<le> n \<and> n \<le> 57 \<or> 65 \<le> n \<and> n \<le> 90 \<or> 97 \<le> n \<and> n \<le> 122 \<or> c \<in> set ''._-'')"

definition sanitizeFilename :: "string \<Rightarrow> string" where
  "sanitizeFilename name = (let n = take 120 (map (\<lambda>c. if filename_char c then c else CHR ''_'') name) in if n = '''' then ''file'' else n)"

definition token_char :: "char \<Rightarrow> bool" where
  "token_char c = (let n = (of_char c :: nat) in 48 \<le> n \<and> n \<le> 57 \<or> 97 \<le> n \<and> n \<le> 122)"

definition replyAddress :: "string \<Rightarrow> string \<Rightarrow> string" where
  "replyAddress replyDomain token = ''t-'' @ token @ ''@'' @ replyDomain"

text \<open>The pattern is a token between \<open>t-\<close> and the domain, without regard to case. The domain is a host name:
  apart from its dots it has no character with a meaning in a pattern.\<close>

definition parseToken :: "string \<Rightarrow> string \<Rightarrow> string option" where
  "parseToken replyDomain address =
     (let email = to_lower (extractEmail address); token = takeWhile token_char (drop 2 email) in
      if take 2 email = ''t-'' \<and> token \<noteq> '''' \<and> drop (2 + length token) email = ''@'' @ to_lower replyDomain then Some token else None)"

definition replySubject :: "string \<Rightarrow> string" where
  "replySubject subject = (if to_lower (take 3 subject) = ''re:'' then subject else ''Re: '' @ subject)"

section \<open>Sending\<close>

record staged =
  sg_key :: string
  sg_filename :: string
  sg_contentType :: string
  sg_sizeBytes :: int

record mail_config =
  mf_env :: "string \<Rightarrow> string option"
  mf_replyDomain :: string
  mf_webhookSecret :: string
  mf_resend :: bool
    \<comment> \<open>an API key is configured\<close>

definition default_replyDomain :: string where
  "default_replyDomain = ''secure-access.site''"

definition mail_emit :: "mail_event \<Rightarrow> mail_state \<Rightarrow> mail_state" where
  "mail_emit e st = st\<lparr>ms_events := ms_events st @ [e]\<rparr>"

definition set_mail_thread :: "string \<Rightarrow> (mail_thread \<Rightarrow> mail_thread) \<Rightarrow> mail_state \<Rightarrow> mail_state" where
  "set_mail_thread i f st = st\<lparr>ms_threads := update_many (\<lambda>t. mt_id t = i) f (ms_threads st)\<rparr>"

definition mail_thread_of :: "mail_state \<Rightarrow> string \<Rightarrow> mail_thread option" where
  "mail_thread_of st i = find_unique mt_id i (ms_threads st)"

definition storage_get :: "string \<Rightarrow> mail_state \<Rightarrow> string result" where
  "storage_get key st = ebind (or_throw (PlainError ''NoSuchKey'') (map_of (ms_files st) key)) (\<lambda>f. Inr (snd f))"

definition storage_put :: "string \<Rightarrow> string \<Rightarrow> string \<Rightarrow> mail_state \<Rightarrow> mail_state" where
  "storage_put key ty bytes st = st\<lparr>ms_files := (key, ty, bytes) # filter (\<lambda>f. fst f \<noteq> key) (ms_files st)\<rparr>"

fun staged_bytes :: "mail_state \<Rightarrow> staged list \<Rightarrow> (string \<times> string \<times> string) list result" where
  "staged_bytes st [] = Inr []"
| "staged_bytes st (a # as) =
     ebind (storage_get (sg_key a) st) (\<lambda>b. ebind (staged_bytes st as) (\<lambda>bs. Inr ((sg_filename a, sg_contentType a, b) # bs)))"

fun attach_staged :: "(nat \<Rightarrow> string) \<Rightarrow> nat \<Rightarrow> string \<Rightarrow> staged list \<Rightarrow> mail_attachment list \<Rightarrow> mail_attachment list result" where
  "attach_staged aid n messageId [] t = Inr t"
| "attach_staged aid n messageId (a # as) t =
     ebind (create_unique ''id'' ma_id
              \<lparr>ma_id = aid n, ma_messageId = messageId, ma_filename = sg_filename a, ma_contentType = sg_contentType a, ma_sizeBytes = sg_sizeBytes a,
               ma_storageKey = Some (sg_key a), ma_resendAttachmentId = None\<rparr> t) (\<lambda>t1.
     attach_staged aid (Suc n) messageId as t1)"

text \<open>The row of a sent message and its attachments, one statement.\<close>

definition store_message :: "(nat \<Rightarrow> string) \<Rightarrow> mail_message \<Rightarrow> staged list \<Rightarrow> mail_state \<Rightarrow> mail_state result" where
  "store_message aid m as st =
     ebind (create_unique ''id'' mm_id m (ms_messages st)) (\<lambda>ms.
     ebind (attach_staged aid 0 (mm_id m) as (ms_attachments st)) (\<lambda>ats.
     Inr (st\<lparr>ms_messages := ms, ms_attachments := ats\<rparr>)))"

record delivery =
  dl_subject :: string
  dl_greeting :: "string option"
  dl_bodyHtml :: string
  dl_signature :: "string option"
  dl_attachments :: "staged list"
  dl_admin :: string
  dl_inReplyTo :: "string option"

definition outgoing_of :: "mail_provider \<Rightarrow> mail_config \<Rightarrow> mail_thread \<Rightarrow> delivery \<Rightarrow> (string \<times> string \<times> string) list \<Rightarrow> outgoing" where
  "outgoing_of mp cf t a files =
     \<lparr>og_to = mt_toEmail t, og_from = deskFromHeader (mf_env cf) (mt_desk t), og_replyTo = replyAddress (mf_replyDomain cf) (mt_replyToken t),
      og_subject = dl_subject a, og_html = mp_wrap mp (dl_subject a) (composeMailBody (dl_greeting a) (dl_bodyHtml a) (dl_signature a)),
      og_text = htmlToText mp (dl_bodyHtml a),
      og_headers = (if truthy_str (dl_inReplyTo a) then [(''In-Reply-To'', the (dl_inReplyTo a))] else []) @
        (if truthy_str (mt_references t) then [(''References'', the (mt_references t))] else []),
      og_attachments = files\<rparr>"

definition outbound_row :: "mail_provider \<Rightarrow> mail_config \<Rightarrow> int \<Rightarrow> string \<Rightarrow> mail_thread \<Rightarrow> delivery \<Rightarrow> string \<Rightarrow> mail_message" where
  "outbound_row mp cf now newId t a messageId =
     \<lparr>mm_id = newId, mm_threadId = mt_id t, mm_direction = Outbound, mm_desk = mt_desk t,
      mm_fromEmail = fst (getDeskIdentity (mf_env cf) (mt_desk t)), mm_fromName = Some (snd (getDeskIdentity (mf_env cf) (mt_desk t))),
      mm_toEmail = mt_toEmail t, mm_subject = dl_subject a, mm_bodyHtml = dl_bodyHtml a, mm_bodyText = htmlToText mp (dl_bodyHtml a),
      mm_providerMessageId = (if messageId = '''' then None else Some messageId), mm_rfcMessageId = None, mm_inReplyTo = dl_inReplyTo a,
      mm_authoredByAdminId = Some (dl_admin a), mm_createdAt = now\<rparr>"

text \<open>Render, send, persist, announce: what was done before an error stays done.\<close>

definition mail_deliver ::
  "mail_provider \<Rightarrow> mail_config \<Rightarrow> int \<Rightarrow> string \<Rightarrow> (nat \<Rightarrow> string) \<Rightarrow> mail_thread \<Rightarrow> delivery \<Rightarrow> mail_state \<Rightarrow> mail_message result \<times> mail_state" where
  "mail_deliver mp cf now newId aid t a st =
     (case staged_bytes st (dl_attachments a) of
        Inl e \<Rightarrow> (Inl e, st)
      | Inr files \<Rightarrow>
          (let o1 = outgoing_of mp cf t a files in
           case mp_send mp o1 of
             Inl e \<Rightarrow> (Inl e, st)
           | Inr messageId \<Rightarrow>
               (let st1 = st\<lparr>ms_sent := ms_sent st @ [o1]\<rparr>; m = outbound_row mp cf now newId t a messageId in
                case store_message aid m (dl_attachments a) st1 of
                  Inl e \<Rightarrow> (Inl e, st1)
                | Inr st2 \<Rightarrow>
                    (Inr m, mail_emit (MailMessageCreated (mt_id t) Outbound newId now)
                              (set_mail_thread (mt_id t) (\<lambda>t. t\<lparr>mt_lastMessageAt := Some now, mt_unreadForAdmins := False\<rparr>) st2)))))"

record compose_input =
  co_adminId :: string
  co_desk :: mail_desk
  co_toUserId :: "string option"
  co_toEmail :: string
  co_toName :: "string option"
  co_subject :: string
  co_greeting :: "string option"
  co_bodyHtml :: string
  co_signature :: "string option"
  co_attachments :: "staged list"

text \<open>\<open>ids\<close> are the identifiers of thread and message and the random reply token.\<close>

definition compose_mail ::
  "mail_provider \<Rightarrow> mail_config \<Rightarrow> int \<Rightarrow> string \<times> string \<times> string \<Rightarrow> (nat \<Rightarrow> string) \<Rightarrow> compose_input \<Rightarrow> mail_state \<Rightarrow>
     (mail_thread \<times> mail_message) result \<times> mail_state" where
  "compose_mail mp cf now ids aid x st =
     (let (threadId, messageId, token) = ids; subject = js_trim (co_subject x); toEmail = to_lower (js_trim (co_toEmail x)) in
      if subject = '''' then (Inl (BadRequest ''Subject is required''), st)
      else if toEmail = '''' then (Inl (BadRequest ''Recipient is required''), st)
      else
        (let t = \<lparr>mt_id = threadId, mt_userId = co_toUserId x, mt_toEmail = toEmail, mt_toName = co_toName x, mt_desk = co_desk x, mt_subject = subject,
                  mt_status = MailOpen, mt_replyToken = token, mt_references = None, mt_lastMessageAt = None, mt_unreadForAdmins = False, mt_createdAt = now\<rparr>
         in case ebind (create_unique ''replyToken'' mt_replyToken t (ms_threads st)) (\<lambda>_. create_unique ''id'' mt_id t (ms_threads st)) of
              Inl e \<Rightarrow> (Inl e, st)
            | Inr ts \<Rightarrow>
                (case mail_deliver mp cf now messageId aid t
                        \<lparr>dl_subject = subject, dl_greeting = co_greeting x, dl_bodyHtml = mp_sanitize mp (co_bodyHtml x), dl_signature = co_signature x,
                         dl_attachments = co_attachments x, dl_admin = co_adminId x, dl_inReplyTo = None\<rparr> (st\<lparr>ms_threads := ts\<rparr>) of
                   (Inl e, st1) \<Rightarrow> (Inl e, st1)
                 | (Inr m, st1) \<Rightarrow> (Inr (t, m), st1))))"

definition last_inbound :: "string \<Rightarrow> mail_state \<Rightarrow> mail_message option" where
  "last_inbound i st =
     (case rev (sort_key mm_createdAt (filter (\<lambda>m. mm_threadId m = i \<and> mm_direction m = Inbound) (ms_messages st))) of [] \<Rightarrow> None | m # _ \<Rightarrow> Some m)"

definition reply_mail ::
  "mail_provider \<Rightarrow> mail_config \<Rightarrow> int \<Rightarrow> string \<Rightarrow> (nat \<Rightarrow> string) \<Rightarrow> string \<Rightarrow> string \<Rightarrow> string \<Rightarrow> string option \<Rightarrow> staged list \<Rightarrow> mail_state \<Rightarrow>
     mail_message result \<times> mail_state" where
  "reply_mail mp cf now newId aid adminId threadId bodyHtml signature attachments st =
     (case mail_thread_of st threadId of
        None \<Rightarrow> (Inl (NotFound ''Thread not found''), st)
      | Some t \<Rightarrow>
          mail_deliver mp cf now newId aid t
            \<lparr>dl_subject = replySubject (mt_subject t), dl_greeting = None, dl_bodyHtml = mp_sanitize mp bodyHtml, dl_signature = signature,
             dl_attachments = attachments, dl_admin = adminId, dl_inReplyTo = Option.bind (last_inbound threadId st) mm_rfcMessageId\<rparr> st)"

section \<open>Reading\<close>

definition mail_activity :: "mail_thread \<Rightarrow> nat \<times> nat \<times> int" where
  "mail_activity t = (if mt_unreadForAdmins t then 1 else 0, case mt_lastMessageAt t of None \<Rightarrow> (1, 0) | Some w \<Rightarrow> (0, w))"

definition mail_match :: "mail_desk option \<Rightarrow> mail_status option \<Rightarrow> string option \<Rightarrow> mail_thread \<Rightarrow> bool" where
  "mail_match desk status q t =
     ((case desk of None \<Rightarrow> True | Some d \<Rightarrow> mt_desk t = d) \<and> (case status of None \<Rightarrow> True | Some s \<Rightarrow> mt_status t = s) \<and>
      (case q of None \<Rightarrow> True
       | Some s \<Rightarrow> js_trim s = '''' \<or>
           (let n = to_lower (js_trim s) in
            contains n (to_lower (mt_toEmail t)) \<or> (case mt_toName t of None \<Rightarrow> False | Some x \<Rightarrow> contains n (to_lower x)) \<or> contains n (to_lower (mt_subject t)))))"

definition last_message :: "string \<Rightarrow> mail_state \<Rightarrow> mail_message option" where
  "last_message i st = (case rev (sort_key mm_createdAt (filter (\<lambda>m. mm_threadId m = i) (ms_messages st))) of [] \<Rightarrow> None | m # _ \<Rightarrow> Some m)"

definition listThreads :: "mail_desk option \<Rightarrow> mail_status option \<Rightarrow> string option \<Rightarrow> mail_state \<Rightarrow> (mail_thread \<times> string option \<times> mail_direction option) list" where
  "listThreads desk status q st =
     map (\<lambda>t. (t, map_option (\<lambda>m. take 140 (mm_bodyText m)) (last_message (mt_id t) st), map_option mm_direction (last_message (mt_id t) st)))
       (take 200 (rev (sort_key mail_activity (filter (mail_match desk status q) (ms_threads st)))))"

definition mail_getThread :: "string \<Rightarrow> mail_state \<Rightarrow> mail_thread result" where
  "mail_getThread i st = or_throw (NotFound ''Thread not found'') (mail_thread_of st i)"

definition mail_getMessages :: "string \<Rightarrow> mail_state \<Rightarrow> ((mail_message \<times> mail_attachment list) list \<times> mail_state) result" where
  "mail_getMessages i st =
     ebind (mail_getThread i st) (\<lambda>t.
     let st1 = (if mt_unreadForAdmins t then mail_emit (MailQueueChanged (-1)) (set_mail_thread i (\<lambda>t. t\<lparr>mt_unreadForAdmins := False\<rparr>) st) else st)
     in Inr (map (\<lambda>m. (m, filter (\<lambda>a. ma_messageId a = mm_id m) (ms_attachments st1)))
               (sort_key mm_createdAt (filter (\<lambda>m. mm_threadId m = i) (ms_messages st1))), st1))"

definition mail_setStatus :: "mail_status \<Rightarrow> string \<Rightarrow> mail_state \<Rightarrow> mail_state result" where
  "mail_setStatus s i st = ebind (update_unique mt_id i (\<lambda>t. t\<lparr>mt_status := s\<rparr>) (ms_threads st)) (\<lambda>ts. Inr (st\<lparr>ms_threads := ts\<rparr>))"

definition stageAttachment :: "string \<Rightarrow> string \<Rightarrow> string \<Rightarrow> string \<Rightarrow> mail_state \<Rightarrow> staged \<times> mail_state" where
  "stageAttachment rnd originalname mimetype buffer st =
     (let key = ''mail/outbound/'' @ rnd @ ''/'' @ sanitizeFilename originalname; ty = (if mimetype = '''' then ''application/octet-stream'' else mimetype)
      in (\<lparr>sg_key = key, sg_filename = originalname, sg_contentType = ty, sg_sizeBytes = int (length buffer)\<rparr>, storage_put key ty buffer st))"

definition getAttachmentForDownload :: "string \<Rightarrow> mail_state \<Rightarrow> (string \<times> string \<times> string) result" where
  "getAttachmentForDownload i st =
     ebind (or_throw (NotFound ''Attachment not found'') (find_unique ma_id i (ms_attachments st))) (\<lambda>a.
     ebind (require (truthy_str (ma_storageKey a)) (NotFound ''Attachment not found'')) (\<lambda>_.
     ebind (storage_get (the (ma_storageKey a)) st) (\<lambda>b. Inr (ma_filename a, ma_contentType a, b))))"

section \<open>Receiving\<close>

fun resolve_addresses :: "string \<Rightarrow> string list \<Rightarrow> mail_state \<Rightarrow> mail_thread option" where
  "resolve_addresses domain [] st = None"
| "resolve_addresses domain (a # as) st =
     (case parseToken domain a of
        None \<Rightarrow> resolve_addresses domain as st
      | Some token \<Rightarrow>
          (case find_unique mt_replyToken token (ms_threads st) of None \<Rightarrow> resolve_addresses domain as st | Some t \<Rightarrow> Some t))"

definition resolveThreadByToken :: "string \<Rightarrow> string list \<Rightarrow> string list \<Rightarrow> mail_state \<Rightarrow> mail_thread option" where
  "resolveThreadByToken domain to cc st = resolve_addresses domain (to @ cc) st"

fun words :: "string \<Rightarrow> string list" where
  "words [] = [[]]"
| "words (c # cs) = (if is_space c then [] # words cs else case words cs of [] \<Rightarrow> [[c]] | w # ws \<Rightarrow> (c # w) # ws)"

definition reference_header :: "(string \<times> string) list \<Rightarrow> string option" where
  "reference_header hs =
     (case map_of hs ''in-reply-to'' of Some r \<Rightarrow> Some r
      | None \<Rightarrow> (case map_of hs ''In-Reply-To'' of Some r \<Rightarrow> Some r
                | None \<Rightarrow> (case map_of hs ''references'' of Some r \<Rightarrow> Some r | None \<Rightarrow> map_of hs ''References'')))"

definition resolveThreadByReferences :: "(string \<times> string) list option \<Rightarrow> mail_state \<Rightarrow> mail_thread option" where
  "resolveThreadByReferences headers st =
     (case headers of None \<Rightarrow> None
      | Some hs \<Rightarrow>
          (case reference_header hs of None \<Rightarrow> None
           | Some raw \<Rightarrow>
               (let ids = filter (\<lambda>w. w \<noteq> '''') (words raw) in
                case rev (sort_key mm_createdAt (filter (\<lambda>m. \<exists>i \<in> set ids. mm_rfcMessageId m = Some i) (ms_messages st))) of
                  [] \<Rightarrow> None
                | m # _ \<Rightarrow> mail_thread_of st (mm_threadId m))))"

text \<open>Attachments are fetched one by one; one that fails is skipped.\<close>

fun persistInboundAttachments :: "mail_provider \<Rightarrow> (nat \<Rightarrow> string) \<Rightarrow> nat \<Rightarrow> string \<Rightarrow> string \<Rightarrow> announced list \<Rightarrow> mail_state \<Rightarrow> mail_state" where
  "persistInboundAttachments mp aid n emailId messageId [] st = st"
| "persistInboundAttachments mp aid n emailId messageId (a # as) st =
     persistInboundAttachments mp aid (Suc n) emailId messageId as
       (case mp_download mp emailId (an_id a) of
          Inl _ \<Rightarrow> st
        | Inr None \<Rightarrow> st
        | Inr (Some (metaName, bytes)) \<Rightarrow>
            (let filename = (case an_filename a of Some f \<Rightarrow> f | None \<Rightarrow> (case metaName of Some f \<Rightarrow> f | None \<Rightarrow> ''attachment''));
                 ty = (case an_contentType a of Some t \<Rightarrow> t | None \<Rightarrow> ''application/octet-stream'');
                 key = ''mail/inbound/'' @ emailId @ ''/'' @ an_id a @ ''/'' @ sanitizeFilename filename;
                 st1 = storage_put key ty bytes st
             in case create_unique ''id'' ma_id
                       \<lparr>ma_id = aid n, ma_messageId = messageId, ma_filename = filename, ma_contentType = ty,
                        ma_sizeBytes = (case an_size a of Some s \<Rightarrow> s | None \<Rightarrow> int (length bytes)), ma_storageKey = Some key,
                        ma_resendAttachmentId = Some (an_id a)\<rparr> (ms_attachments st1) of
                  Inl _ \<Rightarrow> st1
                | Inr t \<Rightarrow> st1\<lparr>ms_attachments := t\<rparr>))"

definition inbound_row :: "mail_provider \<Rightarrow> int \<Rightarrow> string \<Rightarrow> inbound_notice \<Rightarrow> received_mail \<Rightarrow> mail_thread \<Rightarrow> mail_message" where
  "inbound_row mp now newId d r t =
     (let html = mp_sanitize mp (case rm_html r of None \<Rightarrow> '''' | Some h \<Rightarrow> h);
          txt = (case rm_text r of Some x \<Rightarrow> x | None \<Rightarrow> if html \<noteq> '''' then htmlToText mp html else '''')
      in \<lparr>mm_id = newId, mm_threadId = mt_id t, mm_direction = Inbound, mm_desk = mt_desk t, mm_fromEmail = extractEmail (in_from d),
          mm_fromName = extractName (in_from d), mm_toEmail = mt_toEmail t, mm_subject = (if in_subject d \<noteq> '''' then in_subject d else mt_subject t),
          mm_bodyHtml = (if html \<noteq> '''' then html else ''<p>'' @ escapeText txt @ ''</p>''), mm_bodyText = txt,
          mm_providerMessageId = Some (in_emailId d), mm_rfcMessageId = Some (case rm_messageId r of None \<Rightarrow> in_messageId d | Some i \<Rightarrow> i),
          mm_inReplyTo = None, mm_authoredByAdminId = None, mm_createdAt = now\<rparr>)"

definition references_with :: "mail_thread \<Rightarrow> received_mail \<Rightarrow> string option" where
  "references_with t r =
     (let s = join_with '' '' (map the (filter truthy_str [mt_references t, rm_messageId r])) in if s = '''' then None else Some s)"

definition file_inbound ::
  "mail_provider \<Rightarrow> int \<Rightarrow> string \<Rightarrow> (nat \<Rightarrow> string) \<Rightarrow> inbound_notice \<Rightarrow> received_mail \<Rightarrow> mail_thread \<Rightarrow> mail_state \<Rightarrow> mail_state result" where
  "file_inbound mp now newId aid d r t st =
     ebind (create_unique ''id'' mm_id (inbound_row mp now newId d r t) (ms_messages st)) (\<lambda>ms.
     Inr (mail_emit (MailQueueChanged 1) (mail_emit (MailMessageCreated (mt_id t) Inbound newId now)
       (set_mail_thread (mt_id t) (\<lambda>x. x\<lparr>mt_lastMessageAt := Some now, mt_unreadForAdmins := True, mt_status := MailOpen, mt_references := references_with t r\<rparr>)
         (persistInboundAttachments mp aid 0 (in_emailId d) newId (in_attachments d) (st\<lparr>ms_messages := ms\<rparr>))))))"

definition handleInbound ::
  "mail_provider \<Rightarrow> mail_config \<Rightarrow> int \<Rightarrow> string \<Rightarrow> (nat \<Rightarrow> string) \<Rightarrow> inbound_notice \<Rightarrow> mail_state \<Rightarrow> mail_state result" where
  "handleInbound mp cf now newId aid d st =
     (if \<not> mf_resend cf then Inr st
      else ebind (mp_receive mp (in_emailId d)) (\<lambda>received.
        case received of None \<Rightarrow> Inr st
        | Some r \<Rightarrow>
            (case (case resolveThreadByToken (mf_replyDomain cf) (in_to d) (in_cc d) st of
                     Some t \<Rightarrow> Some t | None \<Rightarrow> resolveThreadByReferences (rm_headers r) st) of
               None \<Rightarrow> Inr st
             | Some t \<Rightarrow> file_inbound mp now newId aid d r t st)))"

definition verifyWebhook :: "mail_provider \<Rightarrow> mail_config \<Rightarrow> string \<Rightarrow> string \<times> string \<times> string \<Rightarrow> webhook_event option" where
  "verifyWebhook mp cf raw headers =
     (if \<not> mf_resend cf \<or> mf_webhookSecret cf = '''' then None else mp_verify mp (mf_webhookSecret cf) raw headers)"

text \<open>The webhook answers with success whatever happens.\<close>

definition inbound_webhook ::
  "mail_provider \<Rightarrow> mail_config \<Rightarrow> int \<Rightarrow> string \<Rightarrow> (nat \<Rightarrow> string) \<Rightarrow> string \<Rightarrow> string \<times> string \<times> string \<Rightarrow> mail_state \<Rightarrow> bool \<times> mail_state" where
  "inbound_webhook mp cf now newId aid raw headers st =
     (case verifyWebhook mp cf raw headers of
        None \<Rightarrow> (False, st)
      | Some (OtherEvent _) \<Rightarrow> (True, st)
      | Some (EmailReceived d) \<Rightarrow> (case handleInbound mp cf now newId aid d st of Inl _ \<Rightarrow> (True, st) | Inr st1 \<Rightarrow> (True, st1)))"

section \<open>Addresses round trip\<close>

definition host_name :: "string \<Rightarrow> bool" where
  "host_name d = list_all (\<lambda>c. token_char (lower_char c) \<or> c = CHR ''.'' \<or> c = CHR ''-'') d"

lemma lower_token: "token_char c \<Longrightarrow> lower_char c = c"
  by (auto simp: token_char_def lower_char_def Let_def)

lemma token_not: "token_char c \<Longrightarrow> c \<noteq> CHR ''<'' \<and> c \<noteq> CHR ''>'' \<and> c \<noteq> CHR ''@'' \<and> \<not> is_space c"
  by (auto simp: token_char_def is_space_def Let_def)

lemma lower_not: "token_char (lower_char c) \<Longrightarrow> c \<noteq> CHR ''<'' \<and> c \<noteq> CHR ''>'' \<and> \<not> is_space c"
  by (auto simp: token_char_def lower_char_def is_space_def Let_def split: if_splits)

lemma angle_part_mid: "CHR ''<'' \<notin> set n \<Longrightarrow> CHR ''>'' \<notin> set a \<Longrightarrow> a \<noteq> [] \<Longrightarrow> angle_part (n @ CHR ''<'' # a @ CHR ''>'' # r) = Some a"
proof (induction n)
  case Nil
  have "takeWhile (\<lambda>x. x \<noteq> CHR ''>'') (a @ CHR ''>'' # r) = a" using Nil.prems(2) by (induction a) auto
  then show ?case using Nil.prems(3) by simp
qed auto

lemma trim_clean: "list_all (\<lambda>c. \<not> is_space c) s \<Longrightarrow> js_trim s = s"
proof -
  assume s: "list_all (\<lambda>c. \<not> is_space c) s"
  have drop: "dropWhile is_space xs = xs" if "list_all (\<lambda>c. \<not> is_space c) xs" for xs using that by (cases xs) auto
  show "js_trim s = s" using s drop [of s] drop [of "rev s"] by (simp add: js_trim_def)
qed

lemma reply_address_clean:
  assumes "list_all token_char tok" "host_name d"
  shows "list_all (\<lambda>c. \<not> is_space c) (replyAddress d tok)" "CHR ''>'' \<notin> set (replyAddress d tok)"
proof -
  have t: "\<forall>c \<in> set tok. \<not> is_space c \<and> c \<noteq> CHR ''>''" using assms(1) token_not by (auto simp: list_all_iff)
  have dot: "\<not> is_space (CHR ''.'')" "\<not> is_space (CHR ''-'')" by (simp_all add: is_space_def)
  have d: "\<forall>c \<in> set d. \<not> is_space c \<and> c \<noteq> CHR ''>''"
  proof
    fix c assume "c \<in> set d"
    then consider "token_char (lower_char c)" | "c = CHR ''.''" | "c = CHR ''-''" using assms(2) unfolding host_name_def list_all_iff by blast
    then show "\<not> is_space c \<and> c \<noteq> CHR ''>''" using lower_not dot by cases auto
  qed
  show "list_all (\<lambda>c. \<not> is_space c) (replyAddress d tok)" "CHR ''>'' \<notin> set (replyAddress d tok)"
    using t d by (auto simp: replyAddress_def list_all_iff is_space_def)
qed

lemma parse_reply_address:
  assumes "list_all token_char tok" "tok \<noteq> ''''" "host_name d" "CHR ''<'' \<notin> set n"
  shows "parseToken d (n @ ''<'' @ replyAddress d tok @ ''>'') = Some tok"
proof -
  have "extractEmail (n @ ''<'' @ replyAddress d tok @ ''>'') = replyAddress d tok"
    using angle_part_mid [OF assms(4), of "replyAddress d tok" "[]"] reply_address_clean [OF assms(1,3)] trim_clean
    by (simp add: extractEmail_def replyAddress_def)
  moreover have lower: "map lower_char tok = tok" using assms(1) lower_token by (simp add: list_all_iff map_idI)
  moreover have "to_lower (replyAddress d tok) = ''t-'' @ tok @ ''@'' @ to_lower d"
    using lower by (simp add: replyAddress_def to_lower_def) (simp add: lower_char_def)
  moreover have "takeWhile token_char (tok @ ''@'' @ to_lower d) = tok"
    using assms(1) by (simp add: takeWhile_append2 list_all_iff token_char_def)
  ultimately show ?thesis using assms(2) by (simp add: parseToken_def Let_def)
qed

section \<open>What the desk keeps\<close>

text \<open>The part of a thread no operation changes, and what is true of the rows.\<close>

definition envelope :: "mail_state \<Rightarrow> (string \<times> string \<times> mail_desk \<times> string) list" where
  "envelope st = map (\<lambda>t. (mt_id t, mt_replyToken t, mt_desk t, mt_toEmail t)) (ms_threads st)"

definition mail_row_ok :: "(string \<times> string \<times> mail_desk \<times> string) list \<Rightarrow> mail_message \<Rightarrow> bool" where
  "mail_row_ok ts m =
     ((\<exists>tok. (mm_threadId m, tok, mm_desk m, mm_toEmail m) \<in> set ts) \<and>
      (case mm_direction m of Outbound \<Rightarrow> mm_authoredByAdminId m \<noteq> None \<and> mm_rfcMessageId m = None
       | Inbound \<Rightarrow> mm_authoredByAdminId m = None \<and> mm_rfcMessageId m \<noteq> None))"

definition mail_inv :: "mail_state \<Rightarrow> bool" where
  "mail_inv st = (distinct (map mt_id (ms_threads st)) \<and> distinct (map mt_replyToken (ms_threads st)) \<and> distinct (map mm_id (ms_messages st)) \<and>
     (\<forall>m \<in> set (ms_messages st). mail_row_ok (envelope st) m) \<and> (\<forall>a \<in> set (ms_attachments st). ma_messageId a \<in> mm_id ` set (ms_messages st)))"

inductive mail_step :: "mail_provider \<Rightarrow> mail_config \<Rightarrow> mail_state \<Rightarrow> mail_state \<Rightarrow> bool" for mp cf where
  ml_compose: "compose_mail mp cf now ids aid x st = (res, st') \<Longrightarrow> mail_step mp cf st st'"
| ml_reply: "reply_mail mp cf now mi aid admin i html sig ats st = (res2, st') \<Longrightarrow> mail_step mp cf st st'"
| ml_read: "mail_getMessages i st = Inr (out, st') \<Longrightarrow> mail_step mp cf st st'"
| ml_status: "mail_setStatus s i st = Inr st' \<Longrightarrow> mail_step mp cf st st'"
| ml_stage: "stageAttachment rnd name ty buf st = (a, st') \<Longrightarrow> mail_step mp cf st st'"
| ml_webhook: "inbound_webhook mp cf now mi aid raw hs st = (b, st') \<Longrightarrow> mail_step mp cf st st'"

text \<open>Every operation adds threads and messages, and attachments of its messages, at the end.\<close>

definition mail_grows :: "mail_state \<Rightarrow> mail_state \<Rightarrow> bool" where
  "mail_grows st st' = (\<exists>ts ms as. envelope st' = envelope st @ ts \<and> ms_messages st' = ms_messages st @ ms \<and> ms_attachments st' = ms_attachments st @ as \<and>
     (\<forall>x \<in> set ts. fst x \<notin> fst ` set (envelope st) \<and> fst (snd x) \<notin> (fst \<circ> snd) ` set (envelope st)) \<and> length ts \<le> 1 \<and>
     (\<forall>m \<in> set ms. mm_id m \<notin> mm_id ` set (ms_messages st) \<and> mail_row_ok (envelope st') m) \<and> length ms \<le> 1 \<and>
     (\<forall>a \<in> set as. ma_messageId a \<in> mm_id ` set ms))"

lemma mail_frames [simp]:
  "envelope (mail_emit e st) = envelope st" "ms_messages (mail_emit e st) = ms_messages st" "ms_attachments (mail_emit e st) = ms_attachments st"
  "ms_messages (set_mail_thread i f st) = ms_messages st" "ms_attachments (set_mail_thread i f st) = ms_attachments st"
  "envelope (storage_put k ty b st) = envelope st" "ms_messages (storage_put k ty b st) = ms_messages st" "ms_attachments (storage_put k ty b st) = ms_attachments st"
  "envelope (st\<lparr>ms_messages := ms\<rparr>) = envelope st" "envelope (st\<lparr>ms_attachments := as\<rparr>) = envelope st" "envelope (st\<lparr>ms_sent := os\<rparr>) = envelope st"
  by (simp_all add: envelope_def mail_emit_def set_mail_thread_def storage_put_def)

lemma envelope_set_thread:
  "(\<And>t. (mt_id (f t), mt_replyToken (f t), mt_desk (f t), mt_toEmail (f t)) = (mt_id t, mt_replyToken t, mt_desk t, mt_toEmail t)) \<Longrightarrow>
     envelope (set_mail_thread i f st) = envelope st"
  by (simp add: envelope_def set_mail_thread_def map_update_many)

lemma mail_row_ok_mono: "mail_row_ok ts m \<Longrightarrow> mail_row_ok (ts @ us) m"
  by (auto simp: mail_row_ok_def)

lemma distinct_snoc: "distinct xs \<Longrightarrow> length ys \<le> 1 \<Longrightarrow> set ys \<inter> set xs = {} \<Longrightarrow> distinct (xs @ ys)"
  by (cases ys) auto

lemma mail_inv_alt:
  "mail_inv st = (distinct (map fst (envelope st)) \<and> distinct (map (fst \<circ> snd) (envelope st)) \<and> distinct (map mm_id (ms_messages st)) \<and>
     (\<forall>m \<in> set (ms_messages st). mail_row_ok (envelope st) m) \<and> (\<forall>a \<in> set (ms_attachments st). ma_messageId a \<in> mm_id ` set (ms_messages st)))"
  by (simp add: mail_inv_def envelope_def comp_def)

lemma mail_inv_grows:
  assumes "mail_grows st st'" "mail_inv st"
  shows "mail_inv st'"
proof -
  obtain ts ms as where g: "envelope st' = envelope st @ ts" "ms_messages st' = ms_messages st @ ms" "ms_attachments st' = ms_attachments st @ as"
      "\<forall>x \<in> set ts. fst x \<notin> fst ` set (envelope st) \<and> fst (snd x) \<notin> (fst \<circ> snd) ` set (envelope st)" "length ts \<le> 1"
      "\<forall>m \<in> set ms. mm_id m \<notin> mm_id ` set (ms_messages st) \<and> mail_row_ok (envelope st') m" "length ms \<le> 1"
      "\<forall>a \<in> set as. ma_messageId a \<in> mm_id ` set ms"
    using assms(1) unfolding mail_grows_def by blast
  have i: "distinct (map fst (envelope st))" "distinct (map (fst \<circ> snd) (envelope st))" "distinct (map mm_id (ms_messages st))"
      "\<forall>m \<in> set (ms_messages st). mail_row_ok (envelope st) m" "\<forall>a \<in> set (ms_attachments st). ma_messageId a \<in> mm_id ` set (ms_messages st)"
    using assms(2) unfolding mail_inv_alt by blast+
  have "distinct (map fst (envelope st'))" "distinct (map (fst \<circ> snd) (envelope st'))" "distinct (map mm_id (ms_messages st'))"
    unfolding g(1,2) map_append by (rule distinct_snoc; use i(1-3) g(4-7) in auto)+
  moreover have "\<forall>m \<in> set (ms_messages st'). mail_row_ok (envelope st') m"
    using i(4) g(6) mail_row_ok_mono unfolding g(2) g(1) by auto
  moreover have "\<forall>a \<in> set (ms_attachments st'). ma_messageId a \<in> mm_id ` set (ms_messages st')"
    using i(5) g(8) unfolding g(2,3) by auto
  ultimately show ?thesis unfolding mail_inv_alt by blast
qed

lemma grows_same: "envelope st' = envelope st \<Longrightarrow> ms_messages st' = ms_messages st \<Longrightarrow> ms_attachments st' = ms_attachments st \<Longrightarrow> mail_grows st st'"
  unfolding mail_grows_def by (intro exI [of _ "[]"]) simp

lemma attach_staged_Inr:
  "attach_staged aid n i as t = Inr t' \<Longrightarrow> \<exists>us. t' = t @ us \<and> (\<forall>a \<in> set us. ma_messageId a = i)"
proof (induction as arbitrary: n t)
  case (Cons a as)
  then show ?case by (fastforce simp: err_simps)
qed simp

lemma persist_frame:
  "\<exists>us. ms_attachments (persistInboundAttachments mp aid n e i as st) = ms_attachments st @ us \<and> (\<forall>a \<in> set us. ma_messageId a = i)"
  "envelope (persistInboundAttachments mp aid n e i as st) = envelope st" "ms_messages (persistInboundAttachments mp aid n e i as st) = ms_messages st"
  "ms_threads (persistInboundAttachments mp aid n e i as st) = ms_threads st"
proof -
  have "(\<exists>us. ms_attachments (persistInboundAttachments mp aid n e i as st) = ms_attachments st @ us \<and> (\<forall>a \<in> set us. ma_messageId a = i)) \<and>
    ms_messages (persistInboundAttachments mp aid n e i as st) = ms_messages st \<and> ms_threads (persistInboundAttachments mp aid n e i as st) = ms_threads st"
  proof (induction as arbitrary: n st)
    case (Cons a as)
    define s where "s = (case mp_download mp e (an_id a) of Inl _ \<Rightarrow> st | Inr None \<Rightarrow> st | Inr (Some (metaName, bytes)) \<Rightarrow>
        (let filename = (case an_filename a of Some f \<Rightarrow> f | None \<Rightarrow> (case metaName of Some f \<Rightarrow> f | None \<Rightarrow> ''attachment''));
             ty = (case an_contentType a of Some t \<Rightarrow> t | None \<Rightarrow> ''application/octet-stream'');
             key = ''mail/inbound/'' @ e @ ''/'' @ an_id a @ ''/'' @ sanitizeFilename filename; st1 = storage_put key ty bytes st
         in case create_unique ''id'' ma_id \<lparr>ma_id = aid n, ma_messageId = i, ma_filename = filename, ma_contentType = ty,
                 ma_sizeBytes = (case an_size a of Some s \<Rightarrow> s | None \<Rightarrow> int (length bytes)), ma_storageKey = Some key, ma_resendAttachmentId = Some (an_id a)\<rparr> (ms_attachments st1) of
              Inl _ \<Rightarrow> st1 | Inr t \<Rightarrow> st1\<lparr>ms_attachments := t\<rparr>))"
    have s: "(\<exists>us. ms_attachments s = ms_attachments st @ us \<and> (\<forall>a \<in> set us. ma_messageId a = i)) \<and> ms_messages s = ms_messages st \<and> ms_threads s = ms_threads st"
      unfolding s_def by (auto simp: Let_def err_simps storage_put_def split: sum.splits option.splits prod.splits)
    have r: "persistInboundAttachments mp aid n e i (a # as) st = persistInboundAttachments mp aid (Suc n) e i as s" by (simp add: s_def)
    show ?case unfolding r using Cons [of "Suc n" s] s by auto
  qed simp
  then show "\<exists>us. ms_attachments (persistInboundAttachments mp aid n e i as st) = ms_attachments st @ us \<and> (\<forall>a \<in> set us. ma_messageId a = i)"
    "envelope (persistInboundAttachments mp aid n e i as st) = envelope st" "ms_messages (persistInboundAttachments mp aid n e i as st) = ms_messages st"
    "ms_threads (persistInboundAttachments mp aid n e i as st) = ms_threads st"
    by (auto simp: envelope_def)
qed

lemma grows_message:
  assumes "envelope st' = envelope st" "ms_messages st' = ms_messages st @ [m]" "ms_attachments st' = ms_attachments st @ as"
    "mm_id m \<notin> mm_id ` set (ms_messages st)" "mail_row_ok (envelope st) m" "\<forall>a \<in> set as. ma_messageId a = mm_id m"
  shows "mail_grows st st'"
  unfolding mail_grows_def by (rule exI [of _ "[]"], rule exI [of _ "[m]"], rule exI [of _ as]) (use assms in auto)

lemma store_message_Inr:
  assumes "store_message aid m as st = Inr st'"
  shows "ms_messages st' = ms_messages st @ [m]" "ms_threads st' = ms_threads st" "envelope st' = envelope st" "mm_id m \<notin> mm_id ` set (ms_messages st)"
    "\<exists>us. ms_attachments st' = ms_attachments st @ us \<and> (\<forall>a \<in> set us. ma_messageId a = mm_id m)"
  using assms attach_staged_Inr [of aid 0 "mm_id m" as "ms_attachments st"] by (auto simp: store_message_def err_simps find_unique_None_iff envelope_def)

lemma touched_envelope: "envelope (set_mail_thread i (\<lambda>t. t\<lparr>mt_lastMessageAt := w, mt_unreadForAdmins := b\<rparr>) st) = envelope st"
  by (simp add: envelope_set_thread)

lemma deliver_cases:
  assumes "mail_deliver mp cf now mi aid t a st = (res, st')"
  shows "(\<exists>e. res = Inl e \<and> (st' = st \<or> (\<exists>o1. st' = st\<lparr>ms_sent := ms_sent st @ [o1]\<rparr>))) \<or>
    (\<exists>files messageId st2. staged_bytes st (dl_attachments a) = Inr files \<and> mp_send mp (outgoing_of mp cf t a files) = Inr messageId \<and>
       res = Inr (outbound_row mp cf now mi t a messageId) \<and>
       store_message aid (outbound_row mp cf now mi t a messageId) (dl_attachments a) (st\<lparr>ms_sent := ms_sent st @ [outgoing_of mp cf t a files]\<rparr>) = Inr st2 \<and>
       st' = mail_emit (MailMessageCreated (mt_id t) Outbound mi now)
               (set_mail_thread (mt_id t) (\<lambda>t. t\<lparr>mt_lastMessageAt := Some now, mt_unreadForAdmins := False\<rparr>) st2))"
  using assms unfolding mail_deliver_def Let_def
  by (cases "staged_bytes st (dl_attachments a)"; cases "mp_send mp (outgoing_of mp cf t a (case staged_bytes st (dl_attachments a) of Inr f \<Rightarrow> f))")
    (auto split: sum.splits)

lemma deliver_grows:
  assumes "mail_deliver mp cf now mi aid t a st = (res, st')" "(mt_id t, mt_replyToken t, mt_desk t, mt_toEmail t) \<in> set (envelope st)"
  shows "mail_grows st st'"
proof -
  consider (none) "envelope st' = envelope st" "ms_messages st' = ms_messages st" "ms_attachments st' = ms_attachments st"
    | (sent) o1 messageId st2 where "store_message aid (outbound_row mp cf now mi t a messageId) (dl_attachments a) (st\<lparr>ms_sent := o1\<rparr>) = Inr st2"
        "st' = mail_emit (MailMessageCreated (mt_id t) Outbound mi now)
               (set_mail_thread (mt_id t) (\<lambda>t. t\<lparr>mt_lastMessageAt := Some now, mt_unreadForAdmins := False\<rparr>) st2)"
    using deliver_cases [OF assms(1)] by fastforce
  then show ?thesis
  proof cases
    case none
    then show ?thesis by (rule grows_same)
  next
    case sent
    note s = store_message_Inr [OF sent(1)]
    obtain us where u: "ms_attachments st2 = ms_attachments st @ us" "\<forall>a \<in> set us. ma_messageId a = mi"
      using s(5) by (auto simp: outbound_row_def)
    have row: "mail_row_ok (envelope st) (outbound_row mp cf now mi t a messageId)"
      using assms(2) by (auto simp: mail_row_ok_def outbound_row_def)
    show ?thesis
      by (rule grows_message [OF _ _ _ _ row]) (use s u in \<open>auto simp: sent(2) touched_envelope outbound_row_def\<close>)
  qed
qed

lemma grows_new_thread:
  assumes "mail_grows (st\<lparr>ms_threads := ms_threads st @ [t]\<rparr>) st'" "find_unique mt_id (mt_id t) (ms_threads st) = None"
    "find_unique mt_replyToken (mt_replyToken t) (ms_threads st) = None" "envelope st' = envelope (st\<lparr>ms_threads := ms_threads st @ [t]\<rparr>)"
  shows "mail_grows st st'"
proof -
  have e: "envelope (st\<lparr>ms_threads := ms_threads st @ [t]\<rparr>) = envelope st @ [(mt_id t, mt_replyToken t, mt_desk t, mt_toEmail t)]" by (simp add: envelope_def)
  have free: "mt_id t \<notin> fst ` set (envelope st)" "mt_replyToken t \<notin> (fst \<circ> snd) ` set (envelope st)"
    using assms(2,3) by (force simp: find_unique_None_iff envelope_def)+
  obtain ms as where g: "ms_messages st' = ms_messages st @ ms" "ms_attachments st' = ms_attachments st @ as"
      "\<forall>m \<in> set ms. mm_id m \<notin> mm_id ` set (ms_messages st) \<and> mail_row_ok (envelope st') m" "length ms \<le> 1" "\<forall>a \<in> set as. ma_messageId a \<in> mm_id ` set ms"
    using assms(1) unfolding mail_grows_def by auto
  show ?thesis unfolding mail_grows_def
    by (rule exI [of _ "[(mt_id t, mt_replyToken t, mt_desk t, mt_toEmail t)]"], rule exI [of _ ms], rule exI [of _ as])
      (use g free assms(4) e in auto)
qed

lemma deliver_envelope: "mail_deliver mp cf now mi aid t a st = (res, st') \<Longrightarrow> envelope st' = envelope st"
  using deliver_cases [of mp cf now mi aid t a st res st'] store_message_Inr(3) by (fastforce simp: touched_envelope)

lemma compose_cases:
  assumes "compose_mail mp cf now (ti, mi, tok) aid x st = (res, st')"
  shows "(\<exists>e. res = Inl e \<and> st' = st) \<or>
    (\<exists>t a res1. mt_id t = ti \<and> mt_replyToken t = tok \<and> find_unique mt_id ti (ms_threads st) = None \<and> find_unique mt_replyToken tok (ms_threads st) = None \<and>
       dl_attachments a = co_attachments x \<and> mail_deliver mp cf now mi aid t a (st\<lparr>ms_threads := ms_threads st @ [t]\<rparr>) = (res1, st') \<and>
       (case res1 of Inl e \<Rightarrow> res = Inl e | Inr m \<Rightarrow> res = Inr (t, m)))"
proof -
  let ?t = "\<lparr>mt_id = ti, mt_userId = co_toUserId x, mt_toEmail = to_lower (js_trim (co_toEmail x)), mt_toName = co_toName x, mt_desk = co_desk x, mt_subject = js_trim (co_subject x),
      mt_status = MailOpen, mt_replyToken = tok, mt_references = None, mt_lastMessageAt = None, mt_unreadForAdmins = False, mt_createdAt = now\<rparr>"
  let ?a = "\<lparr>dl_subject = js_trim (co_subject x), dl_greeting = co_greeting x, dl_bodyHtml = mp_sanitize mp (co_bodyHtml x), dl_signature = co_signature x,
      dl_attachments = co_attachments x, dl_admin = co_adminId x, dl_inReplyTo = None\<rparr>"
  show ?thesis
  proof (cases "js_trim (co_subject x) = '''' \<or> to_lower (js_trim (co_toEmail x)) = '''' \<or> find_unique mt_id ti (ms_threads st) \<noteq> None \<or>
      find_unique mt_replyToken tok (ms_threads st) \<noteq> None")
    case True
    then show ?thesis using assms by (cases "find_unique mt_replyToken tok (ms_threads st)"; cases "find_unique mt_id ti (ms_threads st)")
      (auto simp: compose_mail_def Let_def create_unique_def split: if_splits)
  next
    case False
    obtain res1 st1 where d: "mail_deliver mp cf now mi aid ?t ?a (st\<lparr>ms_threads := ms_threads st @ [?t]\<rparr>) = (res1, st1)" by (cases rule: prod.exhaust)
    have "(res, st') = (case res1 of Inl e \<Rightarrow> (Inl e, st1) | Inr m \<Rightarrow> (Inr (?t, m), st1))"
      using False assms d by (simp add: compose_mail_def Let_def create_unique_def)
    then show ?thesis using False d
      by (intro disjI2 exI [of _ ?t] exI [of _ ?a] exI [of _ res1]) (auto split: sum.splits)
  qed
qed

lemma file_inbound_Inr:
  assumes "file_inbound mp now mi aid d r t st = Inr st'"
  shows "ms_messages st' = ms_messages st @ [inbound_row mp now mi d r t]" "envelope st' = envelope st" "mi \<notin> mm_id ` set (ms_messages st)"
    "\<exists>us. ms_attachments st' = ms_attachments st @ us \<and> (\<forall>a \<in> set us. ma_messageId a = mi)"
    "ms_threads st' = update_many (\<lambda>x. mt_id x = mt_id t) (\<lambda>x. x\<lparr>mt_lastMessageAt := Some now, mt_unreadForAdmins := True, mt_status := MailOpen,
        mt_references := references_with t r\<rparr>) (ms_threads st)"
proof -
  let ?m = "inbound_row mp now mi d r t"
  let ?p = "persistInboundAttachments mp aid 0 (in_emailId d) mi (in_attachments d) (st\<lparr>ms_messages := ms_messages st @ [?m]\<rparr>)"
  let ?f = "\<lambda>x. x\<lparr>mt_lastMessageAt := Some now, mt_unreadForAdmins := True, mt_status := MailOpen, mt_references := references_with t r\<rparr>"
  have i: "mm_id ?m = mi" by (simp add: inbound_row_def Let_def)
  have s: "st' = mail_emit (MailQueueChanged 1) (mail_emit (MailMessageCreated (mt_id t) Inbound mi now) (set_mail_thread (mt_id t) ?f ?p))"
    and "mi \<notin> mm_id ` set (ms_messages st)"
    using assms i by (auto simp: file_inbound_def err_simps find_unique_None_iff)
  then show "mi \<notin> mm_id ` set (ms_messages st)" by simp
  show "ms_messages st' = ms_messages st @ [?m]" "\<exists>us. ms_attachments st' = ms_attachments st @ us \<and> (\<forall>a \<in> set us. ma_messageId a = mi)"
    using persist_frame(1) [of mp aid 0 "in_emailId d" mi "in_attachments d" "st\<lparr>ms_messages := ms_messages st @ [?m]\<rparr>"] by (simp_all add: s persist_frame(3))
  show "envelope st' = envelope st" by (simp add: s envelope_set_thread persist_frame(2))
  show "ms_threads st' = update_many (\<lambda>x. mt_id x = mt_id t) ?f (ms_threads st)" by (simp add: s mail_emit_def set_mail_thread_def persist_frame(4))
qed

lemma webhook_cases:
  assumes "inbound_webhook mp cf now mi aid raw hs st = (b, st')"
  shows "st' = st \<or> (\<exists>d r t. t \<in> set (ms_threads st) \<and> file_inbound mp now mi aid d r t st = Inr st')"
proof -
  have ref: "t \<in> set (ms_threads st)" if "resolveThreadByReferences h st = Some t" for h t
    using that by (auto simp: resolveThreadByReferences_def mail_thread_of_def Let_def dest: find_unique_SomeD split: option.splits list.splits)
  have tok: "t \<in> set (ms_threads st)" if "resolve_addresses d as st = Some t" for d as t
    using that by (induction as) (auto dest: find_unique_SomeD split: option.splits)
  have handle: "s = st \<or> (\<exists>d r t. t \<in> set (ms_threads st) \<and> file_inbound mp now mi aid d r t st = Inr s)"
    if h: "handleInbound mp cf now mi aid d st = Inr s" for d s
  proof -
    let ?route = "\<lambda>r. case resolveThreadByToken (mf_replyDomain cf) (in_to d) (in_cc d) st of Some t \<Rightarrow> Some t | None \<Rightarrow> resolveThreadByReferences (rm_headers r) st"
    have "s = st \<or> (\<exists>r t. ?route r = Some t \<and> file_inbound mp now mi aid d r t st = Inr s)"
    proof (cases "mf_resend cf \<and> (\<exists>r. mp_receive mp (in_emailId d) = Inr (Some r))")
      case True
      then obtain r where r: "mf_resend cf" "mp_receive mp (in_emailId d) = Inr (Some r)" by blast
      have "(case ?route r of None \<Rightarrow> Inr st | Some t \<Rightarrow> file_inbound mp now mi aid d r t st) = Inr s" using h r by (simp add: handleInbound_def)
      then show ?thesis by (cases "?route r") auto
    next
      case False
      have "s = st"
      proof (cases "mf_resend cf")
        case True
        with False h have "mp_receive mp (in_emailId d) = Inr None"
          by (cases "mp_receive mp (in_emailId d)"; cases "projr (mp_receive mp (in_emailId d))") (simp_all add: handleInbound_def)
        then show ?thesis using h True by (simp add: handleInbound_def)
      qed (use h in \<open>simp add: handleInbound_def\<close>)
      then show ?thesis by blast
    qed
    moreover have "t \<in> set (ms_threads st)" if "?route r = Some t" for r t
      using that ref tok by (auto simp: resolveThreadByToken_def split: option.splits)
    ultimately show ?thesis by blast
  qed
  show ?thesis
  proof (cases "verifyWebhook mp cf raw hs")
    case (Some e)
    then show ?thesis using assms handle by (cases e) (auto simp: inbound_webhook_def split: sum.splits)
  qed (use assms in \<open>simp add: inbound_webhook_def\<close>)
qed

lemma in_envelope: "t \<in> set (ms_threads st) \<Longrightarrow> (mt_id t, mt_replyToken t, mt_desk t, mt_toEmail t) \<in> set (envelope st)"
  by (auto simp: envelope_def)

lemma mail_step_grows: "mail_step mp cf st st' \<Longrightarrow> mail_grows st st'"
proof (induction rule: mail_step.induct)
  case (ml_compose now ids aid x st res st')
  obtain ti mi tok where ids: "ids = (ti, mi, tok)" by (cases ids)
  from compose_cases [OF ml_compose [unfolded ids]] show ?case
  proof (elim disjE exE conjE)
    fix t a res1 assume k: "mt_id t = ti" "mt_replyToken t = tok" "find_unique mt_id ti (ms_threads st) = None" "find_unique mt_replyToken tok (ms_threads st) = None"
      and d: "mail_deliver mp cf now mi aid t a (st\<lparr>ms_threads := ms_threads st @ [t]\<rparr>) = (res1, st')"
    have "(mt_id t, mt_replyToken t, mt_desk t, mt_toEmail t) \<in> set (envelope (st\<lparr>ms_threads := ms_threads st @ [t]\<rparr>))" by (simp add: envelope_def)
    then show ?thesis using k by (intro grows_new_thread [OF deliver_grows [OF d] _ _ deliver_envelope [OF d]]) simp_all
  qed (auto intro: grows_same)
next
  case (ml_reply now mi aid admin i html sig ats st res2 st')
  then show ?case
    by (cases "mail_thread_of st i") (auto simp: reply_mail_def mail_thread_of_def intro: grows_same elim!: deliver_grows dest!: find_unique_SomeD intro!: in_envelope)
next
  case (ml_read i st out st')
  then show ?case by (auto simp: mail_getMessages_def err_simps Let_def envelope_set_thread intro: grows_same)
next
  case (ml_status s i st st')
  then show ?case by (auto simp: mail_setStatus_def err_simps envelope_def map_update_many intro!: grows_same)
next
  case (ml_stage rnd name ty buf st a st')
  then show ?case by (auto simp: stageAttachment_def Let_def intro: grows_same)
next
  case (ml_webhook now mi aid raw hs st b st')
  from webhook_cases [OF ml_webhook] show ?case
  proof (elim disjE exE conjE)
    fix d r t assume t: "t \<in> set (ms_threads st)" and f: "file_inbound mp now mi aid d r t st = Inr st'"
    note s = file_inbound_Inr [OF f]
    obtain us where u: "ms_attachments st' = ms_attachments st @ us" "\<forall>a \<in> set us. ma_messageId a = mi" using s(4) by blast
    show ?thesis
      by (rule grows_message [OF s(2,1) u(1)]) (use s(3) u(2) in_envelope [OF t] in \<open>auto simp: inbound_row_def mail_row_ok_def Let_def\<close>)
  qed (auto intro: grows_same)
qed

interpretation mail_rows: step_invariant "mail_step mp cf" mail_inv for mp cf
  by unfold_locales (rule mail_inv_grows [OF mail_step_grows])

lemma envelope_history: "(mail_step mp cf)\<^sup>*\<^sup>* st st' \<Longrightarrow> set (envelope st) \<subseteq> set (envelope st')"
proof (induction rule: rtranclp_induct)
  case (step y z)
  then show ?case using mail_step_grows [OF step(2)] unfolding mail_grows_def by auto
qed simp

section \<open>Properties\<close>

text \<open>C28. An answer comes back to its conversation: after a mail was sent, and whatever happened in the desk
  since, a received mail addressed to the reply address of that mail is filed as a new message of the thread of
  that mail, which is open and unread again.\<close>

theorem answer_is_filed:
  assumes "compose_mail mp cf now (ti, mi, tok) aid x st = (Inr (t, m), st1)" "(mail_step mp cf)\<^sup>*\<^sup>* st1 st2" "mail_inv st"
    and "list_all token_char tok" "tok \<noteq> ''''" "host_name (mf_replyDomain cf)"
    and "mf_resend cf" "mp_receive mp (in_emailId d) = Inr (Some r)" "ni \<notin> mm_id ` set (ms_messages st2)"
    and "in_to d = [name @ ''<'' @ og_replyTo (last (ms_sent st1)) @ ''>'']" "CHR ''<'' \<notin> set name"
  shows "\<exists>st3 t'. handleInbound mp cf now' ni aid' d st2 = Inr st3 \<and> mail_thread_of st3 ti = Some t' \<and> mt_status t' = MailOpen \<and> mt_unreadForAdmins t' \<and>
    (\<exists>row. ms_messages st3 = ms_messages st2 @ [row] \<and> mm_threadId row = ti \<and> mm_fromEmail row = extractEmail (in_from d) \<and> mm_id row = ni)"
proof -
  have inj: "(case res1 of Inl e \<Rightarrow> Inr (t, m) = Inl e | Inr y \<Rightarrow> Inr (t, m) = Inr (t', y)) \<longleftrightarrow> res1 = Inr m \<and> t' = t"
    for res1 :: "mail_message result" and t' by (cases res1) auto
  from compose_cases [OF assms(1), unfolded inj] obtain a where tt: "mt_id t = ti" "mt_replyToken t = tok"
    and d: "mail_deliver mp cf now mi aid t a (st\<lparr>ms_threads := ms_threads st @ [t]\<rparr>) = (Inr m, st1)"
    by auto
  from deliver_cases [OF d] obtain files st2' where
      s: "store_message aid m (dl_attachments a) (st\<lparr>ms_threads := ms_threads st @ [t], ms_sent := ms_sent st @ [outgoing_of mp cf t a files]\<rparr>) = Inr st2'"
      "st1 = mail_emit (MailMessageCreated (mt_id t) Outbound mi now)
               (set_mail_thread (mt_id t) (\<lambda>t. t\<lparr>mt_lastMessageAt := Some now, mt_unreadForAdmins := False\<rparr>) st2')" by auto
  have "ms_sent st2' = ms_sent st @ [outgoing_of mp cf t a files]" using s(1) by (auto simp: store_message_def err_simps)
  then have sent: "og_replyTo (last (ms_sent st1)) = replyAddress (mf_replyDomain cf) tok"
    by (simp add: s(2) mail_emit_def set_mail_thread_def outgoing_of_def tt)
  have "(ti, tok, mt_desk t, mt_toEmail t) \<in> set (envelope st1)" using deliver_envelope [OF d] tt by (simp add: envelope_def)
  then have in2: "(ti, tok, mt_desk t, mt_toEmail t) \<in> set (envelope st2)" using envelope_history [OF assms(2)] by blast
  have inv2: "mail_inv st2" using mail_rows.history_inv [OF assms(2)] mail_rows.step_inv [OF ml_compose [OF assms(1)] assms(3)] by blast
  obtain t2 where t2: "t2 \<in> set (ms_threads st2)" "mt_id t2 = ti" "mt_replyToken t2 = tok" using in2 by (auto simp: envelope_def)
  have "find_unique mt_replyToken tok (ms_threads st2) = Some t2"
    using inv2 t2 find_unique_in_distinct [of mt_replyToken "ms_threads st2" t2] by (simp add: mail_inv_def)
  then have route: "resolveThreadByToken (mf_replyDomain cf) (in_to d) (in_cc d) st2 = Some t2"
    using parse_reply_address [OF assms(4,5,6,11)] by (simp add: resolveThreadByToken_def assms(10) sent)
  have "find_unique mm_id ni (ms_messages st2) = None" using assms(9) by (simp add: find_unique_None_iff)
  then obtain st3 where f: "file_inbound mp now' ni aid' d r t2 st2 = Inr st3"
    by (simp add: file_inbound_def create_unique_def inbound_row_def Let_def)
  have h: "handleInbound mp cf now' ni aid' d st2 = Inr st3" using f assms(7,8) route by (simp add: handleInbound_def)
  have u: "find_unique mt_id ti (ms_threads st2) = Some t2"
    using inv2 t2 find_unique_in_distinct [of mt_id "ms_threads st2" t2] by (simp add: mail_inv_def)
  let ?g = "\<lambda>x. x\<lparr>mt_lastMessageAt := Some now', mt_unreadForAdmins := True, mt_status := MailOpen, mt_references := references_with t2 r\<rparr>"
  have "mail_thread_of st3 ti = Some (?g t2)"
    using u t2(2) unfolding mail_thread_of_def file_inbound_Inr(5) [OF f] by (simp add: find_unique_update_many)
  then show ?thesis using h file_inbound_Inr(1) [OF f] t2(2)
    by (intro exI [of _ st3] exI [of _ "?g t2"] conjI exI [of _ "inbound_row mp now' ni d r t2"]) (simp_all add: inbound_row_def Let_def)
qed

lemma last_of_sorted: "sort_key k (filter P xs) = ys @ [m] \<Longrightarrow> m \<in> set xs \<and> P m"
proof -
  assume "sort_key k (filter P xs) = ys @ [m]"
  then have "m \<in> set (sort_key k (filter P xs))" by simp
  then show ?thesis by simp
qed

text \<open>The fall-back on the References headers cannot find a conversation before its first answer was filed: sent
  messages are stored without their message identifier, so no header names them.\<close>

theorem references_miss_first_answer:
  assumes "(mail_step mp cf)\<^sup>*\<^sup>* st st'" "mail_inv st" "\<forall>m \<in> set (ms_messages st'). mm_direction m = Inbound \<longrightarrow> mm_threadId m \<noteq> ti"
    and "resolveThreadByReferences headers st' = Some t"
  shows "mt_id t \<noteq> ti"
proof -
  have inv: "mail_inv st'" using mail_rows.history_inv [OF assms(1,2)] .
  obtain m where t: "mail_thread_of st' (mm_threadId m) = Some t" and m: "m \<in> set (ms_messages st')" "mm_rfcMessageId m \<noteq> None"
    using assms(4) by (auto simp: resolveThreadByReferences_def Let_def dest!: last_of_sorted split: option.splits list.splits)
  then have "mm_direction m = Inbound" using inv by (cases "mm_direction m") (auto simp: mail_inv_def mail_row_ok_def)
  then show ?thesis using assms(3) m(1) find_unique_SomeD [OF t [unfolded mail_thread_of_def]] by auto
qed

text \<open>A notice that the provider delivers twice is filed twice: nothing compares the identifier of the received
  mail with the messages already stored.\<close>

theorem notice_filed_twice:
  assumes "handleInbound mp cf now n1 aid d st = Inr st1" "mf_resend cf" "mp_receive mp (in_emailId d) = Inr (Some r)"
    and "resolveThreadByToken (mf_replyDomain cf) (in_to d) (in_cc d) st = Some t" "n2 \<notin> mm_id ` set (ms_messages st1)"
  shows "\<exists>st2 m1 m2. handleInbound mp cf now' n2 aid' d st1 = Inr st2 \<and> ms_messages st2 = ms_messages st @ [m1, m2] \<and>
    mm_providerMessageId m1 = Some (in_emailId d) \<and> mm_providerMessageId m2 = Some (in_emailId d) \<and> mm_threadId m1 = mt_id t \<and> mm_threadId m2 = mt_id t"
proof -
  have f1: "file_inbound mp now n1 aid d r t st = Inr st1" using assms(1-4) by (simp add: handleInbound_def)
  let ?g = "\<lambda>x. x\<lparr>mt_lastMessageAt := Some now, mt_unreadForAdmins := True, mt_status := MailOpen, mt_references := references_with t r\<rparr>"
  have again: "\<exists>t1. resolve_addresses (mf_replyDomain cf) as st1 = Some t1 \<and> mt_id t1 = mt_id t"
    if "resolve_addresses (mf_replyDomain cf) as st = Some t" for as
    using that
  proof (induction as)
    case (Cons a as)
    have up: "find_unique mt_replyToken k (ms_threads st1) = (case find_unique mt_replyToken k (ms_threads st) of None \<Rightarrow> None
        | Some y \<Rightarrow> Some (if mt_id y = mt_id t then ?g y else y))" for k
    proof (cases "find_unique mt_replyToken k (ms_threads st)")
      case None
      then have "k \<notin> mt_replyToken ` set (ms_threads st)" by (simp add: find_unique_None_iff)
      then have "k \<notin> mt_replyToken ` set (ms_threads st1)" by (auto simp: file_inbound_Inr(5) [OF f1] update_many_def)
      then have "find_unique mt_replyToken k (ms_threads st1) = None" by (simp add: find_unique_None_iff)
      then show ?thesis using None by simp
    next
      case (Some y)
      then show ?thesis unfolding file_inbound_Inr(5) [OF f1] using find_unique_update_where [OF Some, of ?g "\<lambda>x. mt_id x = mt_id t"] by simp
    qed
    show ?case using Cons by (auto simp: up split: option.splits)
  qed simp
  then obtain t1 where t1: "resolveThreadByToken (mf_replyDomain cf) (in_to d) (in_cc d) st1 = Some t1" "mt_id t1 = mt_id t"
    using assms(4) by (auto simp: resolveThreadByToken_def)
  have "find_unique mm_id n2 (ms_messages st1) = None" using assms(5) by (simp add: find_unique_None_iff)
  then obtain st2 where f2: "file_inbound mp now' n2 aid' d r t1 st1 = Inr st2" by (simp add: file_inbound_def create_unique_def inbound_row_def Let_def)
  have "handleInbound mp cf now' n2 aid' d st1 = Inr st2" using f2 assms(2,3) t1(1) by (simp add: handleInbound_def)
  then show ?thesis using file_inbound_Inr(1) [OF f1] file_inbound_Inr(1) [OF f2] t1(2)
    by (intro exI [of _ st2] exI [of _ "inbound_row mp now n1 d r t"] exI [of _ "inbound_row mp now' n2 d r t1"]) (simp add: inbound_row_def Let_def)
qed

text \<open>The storage key of a staged file is taken from the request: the file behind any key can be mailed.\<close>

lemma any_stored_file_is_mailed:
  assumes "compose_mail mp cf now (ti, mi, tok) aid x st = (Inr (t, m), st1)" "co_attachments x = [a]" "map_of (ms_files st) (sg_key a) = Some (ty, bytes)"
  shows "og_attachments (last (ms_sent st1)) = [(sg_filename a, sg_contentType a, bytes)]"
proof -
  have inj: "(case res1 of Inl e \<Rightarrow> Inr (t, m) = Inl e | Inr y \<Rightarrow> Inr (t, m) = Inr (t', y)) \<longleftrightarrow> res1 = Inr m \<and> t' = t"
    for res1 :: "mail_message result" and t' by (cases res1) auto
  from compose_cases [OF assms(1), unfolded inj] obtain dl where dl: "dl_attachments dl = [a]"
      "mail_deliver mp cf now mi aid t dl (st\<lparr>ms_threads := ms_threads st @ [t]\<rparr>) = (Inr m, st1)" using assms(2) by auto
  from deliver_cases [OF dl(2)] obtain files st2 where
      s: "staged_bytes (st\<lparr>ms_threads := ms_threads st @ [t]\<rparr>) [a] = Inr files"
      "store_message aid m [a] (st\<lparr>ms_threads := ms_threads st @ [t], ms_sent := ms_sent st @ [outgoing_of mp cf t dl files]\<rparr>) = Inr st2"
      "st1 = mail_emit (MailMessageCreated (mt_id t) Outbound mi now)
               (set_mail_thread (mt_id t) (\<lambda>t. t\<lparr>mt_lastMessageAt := Some now, mt_unreadForAdmins := False\<rparr>) st2)" using dl(1) by auto
  have "ms_sent st2 = ms_sent st @ [outgoing_of mp cf t dl files]" using s(2) by (auto simp: store_message_def err_simps)
  then show ?thesis using s(1) assms(3) by (simp add: s(3) mail_emit_def set_mail_thread_def outgoing_of_def storage_get_def)
qed

end
