(* ===== verification/Kyc_Review.thy ===== *)
theory Kyc_Review
  imports Signup Accounts Cards "HOL-Library.Product_Lexorder"
begin

text \<open>
  The review of identities (\<^verbatim>\<open>kyc/kyc.service.ts\<close>, \<^verbatim>\<open>admin/kyc/admin-kyc.service.ts\<close>) with what follows from an approval:
  the listener that opens the accounts and the listener that issues a card for a new checking account. The
  listeners are called in the order of the events.
\<close>

section \<open>State\<close>

record kyc_row = kyc_record +
  ky_id :: string

datatype document_status = DocPending | DocApproved | DocRejected

record review_document = document +
  rd_subtype :: "string option"
  rd_status :: document_status
  rd_uploadedAt :: int
  rd_reviewedAt :: "int option"
  rd_reviewedByUserId :: "string option"
  rd_rejectionReason :: "string option"

record review_state =
  rv_users :: "login_user list"
  rv_signups :: "signup_session list"
  rv_kyc :: "kyc_row list"
  rv_documents :: "review_document list"
  rv_accounts :: accounts_state
  rv_cards :: cards_state
  rv_audit :: "audit_row list"
  rv_queue :: "int list"
    \<comment> \<open>changes of the number of waiting reviews, as announced\<close>

section \<open>Operations\<close>

definition statusForUser :: "string \<Rightarrow> review_state \<Rightarrow> kyc_row result" where
  "statusForUser userId st = or_throw (NotFound ''No KYC record'') (find_unique ky_userId userId (rv_kyc st))"

text \<open>The first page of the waiting records; the pages after it are not modelled.\<close>

definition listPending_kyc :: "nat \<Rightarrow> review_state \<Rightarrow> kyc_row list" where
  "listPending_kyc limit st = take limit (sort_key ky_submittedAt (filter (\<lambda>k. ky_status k = KycPending \<or> ky_status k = KycInReview) (rv_kyc st)))"

definition kyc_order :: "kyc_status \<Rightarrow> int" where
  "kyc_order s = (case s of KycPending \<Rightarrow> 0 | KycInReview \<Rightarrow> 1 | KycApproved \<Rightarrow> 2 | KycRejected \<Rightarrow> 3)"

definition listAll_kyc :: "kyc_status list option \<Rightarrow> int option \<Rightarrow> int option \<Rightarrow> int option \<Rightarrow> review_state \<Rightarrow> kyc_row list" where
  "listAll_kyc statuses from until limit st =
     (let n = min (max (case limit of None \<Rightarrow> 200 | Some l \<Rightarrow> l) 1) 500;
          wanted = (case statuses of None \<Rightarrow> [KycPending, KycInReview, KycApproved, KycRejected]
                    | Some [] \<Rightarrow> [KycPending, KycInReview, KycApproved, KycRejected] | Some ss \<Rightarrow> ss)
      in take (nat n) (sort_key (\<lambda>k. (kyc_order (ky_status k), - ky_submittedAt k))
           (filter (\<lambda>k. ky_status k \<in> set wanted \<and> (case from of None \<Rightarrow> True | Some w \<Rightarrow> w \<le> ky_submittedAt k) \<and>
                        (case until of None \<Rightarrow> True | Some w \<Rightarrow> ky_submittedAt k \<le> w)) (rv_kyc st))))"

definition kyc_status_of_text :: "string \<Rightarrow> kyc_status option" where
  "kyc_status_of_text s = map_of [(''pending'', KycPending), (''in_review'', KycInReview), (''approved'', KycApproved), (''rejected'', KycRejected)] s"

text \<open>The filters of the queue as the request carries them; \<open>parse\<close> is the date of a text, when it is one.\<close>

definition listQueue :: "(string \<Rightarrow> int option) \<Rightarrow> int option \<Rightarrow> string option \<Rightarrow> string option \<Rightarrow> string option \<Rightarrow> review_state \<Rightarrow> kyc_row list" where
  "listQueue parse limit statuses from until st =
     listAll_kyc (if truthy_str statuses then Some (List.map_filter (\<lambda>s. kyc_status_of_text (js_trim s)) (split_on (CHR '','') (the statuses))) else None)
       (if truthy_str from then parse (the from) else None) (if truthy_str until then parse (the until) else None) limit st"

definition set_kyc :: "string \<Rightarrow> (kyc_row \<Rightarrow> kyc_row) \<Rightarrow> review_state \<Rightarrow> review_state" where
  "set_kyc i f st = st\<lparr>rv_kyc := update_many (\<lambda>k. ky_id k = i) f (rv_kyc st)\<rparr>"

text \<open>What the listeners need: limits, account numbers and identifiers, cipher and card parameters.\<close>

record approval_env =
  ae_limits :: limits_config
  ae_gen1 :: "nat \<Rightarrow> string"
  ae_gen2 :: "nat \<Rightarrow> string"
  ae_ids :: "string \<times> string"
  ae_cipher :: cipher
  ae_cards :: card_config
  ae_source :: card_source

fun on_account_event :: "approval_env \<Rightarrow> int \<Rightarrow> account_event \<Rightarrow> cards_state \<Rightarrow> cards_state" where
  "on_account_event en now (AccountCreated i u ty w) st = onAccountCreated (ae_cipher en) (ae_cards en) now (ae_source en) i ty st"

text \<open>The event of an approval, its listener, and the listener of the events that one emits.\<close>

definition kyc_approved :: "approval_env \<Rightarrow> int \<Rightarrow> string \<Rightarrow> review_state \<Rightarrow> review_state" where
  "kyc_approved en now userId st =
     (let acc = rv_accounts st;
          acc1 = onKycApproved (ae_limits en) (ae_gen1 en) (ae_gen2 en) (ae_ids en) now userId acc;
          news = drop (length (ac_events acc)) (ac_events acc1)
      in st\<lparr>rv_accounts := acc1, rv_cards := fold (on_account_event en now) news ((rv_cards st)\<lparr>cs_accounts := db_accounts (ac_bank acc1)\<rparr>)\<rparr>)"

definition kyc_approve :: "approval_env \<Rightarrow> int \<Rightarrow> string \<Rightarrow> string \<Rightarrow> review_state \<Rightarrow> (kyc_row \<times> review_state) result" where
  "kyc_approve en now kycId reviewer st =
     ebind (or_throw RecordMissing (find_unique ky_id kycId (rv_kyc st))) (\<lambda>k.
     let f = (\<lambda>k. k\<lparr>ky_status := KycApproved, ky_reviewedAt := Some now, ky_reviewedByUserId := Some reviewer, ky_rejectionReason := None\<rparr>)
     in Inr (f k, kyc_approved en now (ky_userId k) (set_kyc kycId f st)))"

definition kyc_reject :: "int \<Rightarrow> string \<Rightarrow> string \<Rightarrow> string \<Rightarrow> string list \<Rightarrow> review_state \<Rightarrow> (kyc_row \<times> review_state) result" where
  "kyc_reject now kycId reviewer reason missing st =
     ebind (or_throw RecordMissing (find_unique ky_id kycId (rv_kyc st))) (\<lambda>k.
     let f = (\<lambda>k. k\<lparr>ky_status := KycRejected, ky_reviewedAt := Some now, ky_reviewedByUserId := Some reviewer,
                    ky_rejectionReason := Some reason, ky_missingFields := missing\<rparr>)
     in Inr (f k, set_kyc kycId f st))"

definition review_audit :: "int \<Rightarrow> string \<Rightarrow> string \<Rightarrow> string \<Rightarrow> string \<Rightarrow> (string \<times> audit_value) list \<Rightarrow> review_state \<Rightarrow> review_state" where
  "review_audit now actor action targetType targetId metadata st =
     st\<lparr>rv_audit := rv_audit st @ [\<lparr>au_actorUserId = actor, au_action = action, au_targetType = targetType, au_targetId = targetId,
        au_metadata = metadata, au_createdAt = now\<rparr>]\<rparr>"

definition text_field :: "string \<Rightarrow> string option \<Rightarrow> (string \<times> audit_value) list" where
  "text_field name v = (case v of None \<Rightarrow> [] | Some s \<Rightarrow> [(name, AvText s)])"

definition kyc_decide ::
  "approval_env \<Rightarrow> int \<Rightarrow> string \<Rightarrow> string \<Rightarrow> bool \<Rightarrow> string option \<Rightarrow> string list option \<Rightarrow> review_state \<Rightarrow> (kyc_row \<times> review_state) result" where
  "kyc_decide en now actor kycId approve reason missing st =
     (if approve
      then ebind (kyc_approve en now kycId actor st) (\<lambda>(k, st1).
        Inr (k, (review_audit now actor ''kyc.approve'' ''kyc_record'' kycId
                   [(''previousStatus'', AvText ''pending''), (''userId'', AvText (ky_userId k))] st1)\<lparr>rv_queue := rv_queue st1 @ [-1]\<rparr>))
      else
        (let ms = (case missing of None \<Rightarrow> [] | Some m \<Rightarrow> m) in
         ebind (kyc_reject now kycId actor (case reason of None \<Rightarrow> ''rejected'' | Some r \<Rightarrow> r) ms st) (\<lambda>(k, st1).
         Inr (k, (review_audit now actor ''kyc.reject'' ''kyc_record'' kycId
                    (text_field ''reason'' reason @ [(''missingFields'', AvText (join_with '','' ms)), (''userId'', AvText (ky_userId k))]) st1)
                   \<lparr>rv_queue := rv_queue st1 @ [-1]\<rparr>))))"

text \<open>The review page of a user: the record and every document of the user or of the signup with his address;
  \<open>presign\<close> is the link to a file, absent when it cannot be made.\<close>

definition kyc_detail ::
  "(string \<Rightarrow> string option) \<Rightarrow> string \<Rightarrow> review_state \<Rightarrow> (login_user \<times> kyc_row option \<times> (review_document \<times> string option) list) result" where
  "kyc_detail presign userId st =
     ebind (or_throw (NotFound ''USER_NOT_FOUND'') (find_unique u_id userId (rv_users st))) (\<lambda>u.
     let signup = (if u_email u = '''' then None else find_unique su_email (Some (u_email u)) (rv_signups st));
         docs = filter (\<lambda>d. doc_ownerUserId d = Some userId \<or> (case signup of None \<Rightarrow> False | Some s \<Rightarrow> doc_ownerSignupId d = Some (su_id s))) (rv_documents st)
     in Inr (u, find_unique ky_userId userId (rv_kyc st), map (\<lambda>d. (d, presign (doc_storageKey d))) (sort_key rd_uploadedAt docs)))"

definition decideDocument :: "int \<Rightarrow> string \<Rightarrow> string \<Rightarrow> bool \<Rightarrow> string option \<Rightarrow> review_state \<Rightarrow> review_state result" where
  "decideDocument now actor documentId approve reason st =
     ebind (or_throw (NotFound ''DOCUMENT_NOT_FOUND'') (find_unique doc_id documentId (rv_documents st))) (\<lambda>d.
     ebind (require (approve \<or> (case reason of None \<Rightarrow> False | Some r \<Rightarrow> js_trim r \<noteq> '''')) (BadRequest ''reason required when rejecting'')) (\<lambda>_.
     Inr (review_audit now actor (if approve then ''kyc.document.approve'' else ''kyc.document.reject'') ''document'' documentId
            [(''reason'', case reason of None \<Rightarrow> AvNull | Some r \<Rightarrow> AvText r),
             (''ownerUserId'', case doc_ownerUserId d of None \<Rightarrow> AvNull | Some u \<Rightarrow> AvText u),
             (''ownerSignupId'', case doc_ownerSignupId d of None \<Rightarrow> AvNull | Some u \<Rightarrow> AvText u)]
            (st\<lparr>rv_documents := update_many (\<lambda>d. doc_id d = documentId)
               (\<lambda>d. d\<lparr>rd_status := (if approve then DocApproved else DocRejected), rd_reviewedAt := Some now, rd_reviewedByUserId := Some actor,
                     rd_rejectionReason := (if approve then None else reason)\<rparr>) (rv_documents st)\<rparr>))))"

section \<open>Properties\<close>

lemma onKycApproved_events:
  assumes "provisionForUser lc g1 g2 ids u acc = Inr ((c, v), acc1)"
  shows "onKycApproved lc g1 g2 ids now u acc = acc1\<lparr>ac_events := ac_events acc1 @ [AccountCreated (a_id c) u Checking now, AccountCreated (a_id v) u Savings now]\<rparr>"
  by (simp add: onKycApproved_def assms)

lemma provision_events: "provisionForUser lc g1 g2 ids u acc = Inr (p, acc1) \<Longrightarrow> ac_events acc1 = ac_events acc"
  by (auto simp: provisionForUser_def provision_fresh_def err_simps split: if_splits option.splits)

lemma issued_row:
  "issue ci cf now src acc ty l st = Inr (c, st1) \<Longrightarrow> st1 = st\<lparr>cs_cards := cs_cards st @ [c]\<rparr> \<and> ca_accountId c = acc \<and> ca_type c = ty \<and> ca_status c = CardActive"
  using issue_card_Inr [of ci cf now "fst src" "fst (snd src)" "snd (snd src)" acc ty l st c st1] by auto

lemma provisioned_rows:
  assumes "provisionForUser lc g1 g2 ids u st = Inr ((c, v), st')" "countForUser u (ac_bank st) = 0"
  shows "db_accounts (ac_bank st') = db_accounts (ac_bank st) @ [c, v]" "find_unique a_id (a_id c) (db_accounts (ac_bank st)) = None" "a_userId c = u"
proof -
  obtain t1 ls t2 apy where c: "createAccount g1 (fst ids) u Checking ''Checking'' None (db_accounts (ac_bank st)) = Inr (c, t1)"
    and v: "createAccount g2 (snd ids) u Savings ''Savings'' apy t1 = Inr (v, t2)"
    and st': "st' = st\<lparr>ac_bank := (ac_bank st)\<lparr>db_accounts := t2\<rparr>, ac_limits := ls\<rparr>"
    using assms by (auto simp: provisionForUser_def provision_fresh_def err_simps)
  show "db_accounts (ac_bank st') = db_accounts (ac_bank st) @ [c, v]" "find_unique a_id (a_id c) (db_accounts (ac_bank st)) = None" "a_userId c = u"
    using createAccount_Inr [OF c] createAccount_Inr [OF v] st' by simp_all
qed

text \<open>What an approval does once the accounts are there: one card is issued for the checking account.\<close>

lemma kyc_approved_cards:
  assumes "provisionForUser (ae_limits en) (ae_gen1 en) (ae_gen2 en) (ae_ids en) u (rv_accounts st) = Inr ((c, v), acc1)"
    and "issue (ae_cipher en) (ae_cards en) now (ae_source en) (a_id c) Virtual None ((rv_cards st)\<lparr>cs_accounts := db_accounts (ac_bank acc1)\<rparr>) = Inr (k, cs)"
  shows "rv_cards (kyc_approved en now u st) = cs" "ac_bank (rv_accounts (kyc_approved en now u st)) = ac_bank acc1"
    "ac_limits (rv_accounts (kyc_approved en now u st)) = ac_limits acc1" "rv_kyc (kyc_approved en now u st) = rv_kyc st"
  using assms(2) by (simp_all add: kyc_approved_def Let_def onKycApproved_events [OF assms(1)] provision_events [OF assms(1)] onAccountCreated_def)

lemma kyc_decide_approved:
  assumes "kyc_decide en now actor i True reason missing st = Inr (k, st')"
  shows "ky_status k = KycApproved" "\<exists>s. s\<lparr>rv_kyc := rv_kyc st\<rparr> = st \<and> rv_cards st' = rv_cards (kyc_approved en now (ky_userId k) s) \<and>
      rv_accounts st' = rv_accounts (kyc_approved en now (ky_userId k) s)" "find_unique ky_id i (rv_kyc st') = Some k" "last (rv_audit st') = \<lparr>au_actorUserId = actor,
      au_action = ''kyc.approve'', au_targetType = ''kyc_record'', au_targetId = i,
      au_metadata = [(''previousStatus'', AvText ''pending''), (''userId'', AvText (ky_userId k))], au_createdAt = now\<rparr>"
proof -
  let ?f = "\<lambda>k. k\<lparr>ky_status := KycApproved, ky_reviewedAt := Some now, ky_reviewedByUserId := Some actor, ky_rejectionReason := None\<rparr>"
  obtain k0 where k0: "find_unique ky_id i (rv_kyc st) = Some k0" "k = ?f k0"
    and s: "st' = (review_audit now actor ''kyc.approve'' ''kyc_record'' i [(''previousStatus'', AvText ''pending''), (''userId'', AvText (ky_userId k))]
        (kyc_approved en now (ky_userId k) (set_kyc i ?f st)))\<lparr>rv_queue := rv_queue (kyc_approved en now (ky_userId k) (set_kyc i ?f st)) @ [-1]\<rparr>"
    using assms by (auto simp: kyc_decide_def kyc_approve_def err_simps Let_def)
  show "ky_status k = KycApproved" using k0(2) by simp
  show "\<exists>s. s\<lparr>rv_kyc := rv_kyc st\<rparr> = st \<and> rv_cards st' = rv_cards (kyc_approved en now (ky_userId k) s) \<and>
      rv_accounts st' = rv_accounts (kyc_approved en now (ky_userId k) s)"
    by (rule exI [of _ "set_kyc i ?f st"]) (simp add: s review_audit_def set_kyc_def)
  have "rv_kyc st' = rv_kyc (set_kyc i ?f st)" by (simp add: s review_audit_def kyc_approved_def Let_def)
  then show "find_unique ky_id i (rv_kyc st') = Some k" using k0 by (simp add: set_kyc_def find_unique_update_many)
  show "last (rv_audit st') = \<lparr>au_actorUserId = actor, au_action = ''kyc.approve'', au_targetType = ''kyc_record'', au_targetId = i,
      au_metadata = [(''previousStatus'', AvText ''pending''), (''userId'', AvText (ky_userId k))], au_createdAt = now\<rparr>"
    by (simp add: s review_audit_def)
qed

lemma decide_cards:
  assumes "kyc_decide en now actor i True reason missing st = Inr (k, st')"
    and "provisionForUser (ae_limits en) (ae_gen1 en) (ae_gen2 en) (ae_ids en) (ky_userId k) (rv_accounts st) = Inr ((c, v), acc1)"
    and "issue (ae_cipher en) (ae_cards en) now (ae_source en) (a_id c) Virtual None ((rv_cards st)\<lparr>cs_accounts := db_accounts (ac_bank acc1)\<rparr>) = Inr (card1, cs)"
  shows "rv_cards st' = cs" "ac_bank (rv_accounts st') = ac_bank acc1" "ac_limits (rv_accounts st') = ac_limits acc1"
proof -
  obtain s where s: "s\<lparr>rv_kyc := rv_kyc st\<rparr> = st" "rv_cards st' = rv_cards (kyc_approved en now (ky_userId k) s)"
      "rv_accounts st' = rv_accounts (kyc_approved en now (ky_userId k) s)" using kyc_decide_approved(2) [OF assms(1)] by blast
  have same: "rv_accounts s = rv_accounts st" "rv_cards s = rv_cards st"
    using arg_cong [OF s(1), of rv_accounts] arg_cong [OF s(1), of rv_cards] by simp_all
  note a = kyc_approved_cards [of en "ky_userId k" s c v acc1 now card1 cs, unfolded same, OF assms(2,3)]
  show "rv_cards st' = cs" "ac_bank (rv_accounts st') = ac_bank acc1" "ac_limits (rv_accounts st') = ac_limits acc1"
    using a s(2,3) by simp_all
qed

text \<open>The approval of a new customer's identity gives him one checking and one savings account, empty and active,
  and one active virtual card of the checking account, and is on the audit trail.\<close>

theorem approval_opens_customer:
  assumes "kyc_decide en now actor i True reason missing st = Inr (k, st')" "countForUser (ky_userId k) (ac_bank (rv_accounts st)) = 0"
    and "provisionForUser (ae_limits en) (ae_gen1 en) (ae_gen2 en) (ae_ids en) (ky_userId k) (rv_accounts st) = Inr ((c, v), acc1)"
    and "issue (ae_cipher en) (ae_cards en) now (ae_source en) (a_id c) Virtual None ((rv_cards st)\<lparr>cs_accounts := db_accounts (ac_bank acc1)\<rparr>) = Inr (card1, cs)"
  shows "map_option ky_status (find_unique ky_id i (rv_kyc st')) = Some KycApproved \<and> listForUser_accounts (ky_userId k) (ac_bank (rv_accounts st')) = [c, v] \<and>
    a_type c = Checking \<and> a_type v = Savings \<and> a_balanceCents c = 0 \<and> a_balanceCents v = 0 \<and> a_status c = AcctActive \<and> a_status v = AcctActive \<and>
    cs_cards (rv_cards st') = cs_cards (rv_cards st) @ [card1] \<and> ca_accountId card1 = a_id c \<and> ca_type card1 = Virtual \<and> ca_status card1 = CardActive \<and>
    card_owner (rv_cards st') card1 = Some (ky_userId k) \<and> au_action (last (rv_audit st')) = ''kyc.approve''"
proof -
  note d = decide_cards [OF assms(1,3,4)] and p = provision_idempotent [OF assms(3,2), of undefined undefined undefined undefined]
  have card: "cs = (rv_cards st)\<lparr>cs_accounts := db_accounts (ac_bank acc1), cs_cards := cs_cards (rv_cards st) @ [card1]\<rparr>" "ca_accountId card1 = a_id c"
      "ca_type card1 = Virtual" "ca_status card1 = CardActive"
    using issued_row [OF assms(4)] by simp_all
  have acc: "db_accounts (ac_bank acc1) = db_accounts (ac_bank (rv_accounts st)) @ [c, v]" "find_unique a_id (a_id c) (db_accounts (ac_bank (rv_accounts st))) = None"
      "a_userId c = ky_userId k"
    using provisioned_rows [OF assms(3,2)] by simp_all
  have "card_owner cs card1 = Some (ky_userId k)" by (simp add: card_owner_def card acc find_unique_append)
  then show ?thesis using d p card kyc_decide_approved [OF assms(1)] by simp
qed

text \<open>Approving an identity again opens no further account but issues another active card for the same
  checking account: the event of the approval is sent again, and the issuer does not look for a card.\<close>

theorem second_approval_second_card:
  assumes "kyc_decide en now actor i True reason missing st = Inr (k, st')" "listForUser_accounts (ky_userId k) (ac_bank (rv_accounts st)) = [c, v]"
    and "a_type c = Checking" "a_type v = Savings" "generatePan (fst (snd (ae_source en))) (cc_bin (ae_cards en)) = Inr pan"
    and "fst (ae_source en) \<notin> ca_id ` set (cs_cards (rv_cards st))" "find_unique a_id (a_id c) (db_accounts (ac_bank (rv_accounts st))) = Some c"
  shows "ac_bank (rv_accounts st') = ac_bank (rv_accounts st) \<and>
    (\<exists>card2. cs_cards (rv_cards st') = cs_cards (rv_cards st) @ [card2] \<and> ca_accountId card2 = a_id c \<and> ca_type card2 = Virtual \<and> ca_status card2 = CardActive)"
proof -
  have n: "0 < countForUser (ky_userId k) (ac_bank (rv_accounts st))" and b: "both_accounts (ky_userId k) (ac_bank (rv_accounts st)) = Some (c, v)"
    using assms(2-4) by (auto simp: countForUser_def both_accounts_def listForUser_accounts_def find_first_def)
  have p: "provisionForUser (ae_limits en) (ae_gen1 en) (ae_gen2 en) (ae_ids en) (ky_userId k) (rv_accounts st) = Inr ((c, v), rv_accounts st)"
    using n b by (simp add: provisionForUser_def)
  have "is_ok (issue (ae_cipher en) (ae_cards en) now (ae_source en) (a_id c) Virtual None ((rv_cards st)\<lparr>cs_accounts := db_accounts (ac_bank (rv_accounts st))\<rparr>))"
    using assms(5-7) by (simp add: issue_def case_prod_beta Let_def create_unique_def require_def find_unique_None_iff [THEN iffD2])
  then obtain card2 cs where c2: "issue (ae_cipher en) (ae_cards en) now (ae_source en) (a_id c) Virtual None ((rv_cards st)\<lparr>cs_accounts := db_accounts (ac_bank (rv_accounts st))\<rparr>) = Inr (card2, cs)"
    by (auto simp: is_ok_def split: sum.splits)
  have card: "cs_cards cs = cs_cards (rv_cards st) @ [card2]" "ca_accountId card2 = a_id c" "ca_type card2 = Virtual" "ca_status card2 = CardActive"
    using issued_row [OF c2] by simp_all
  show ?thesis using decide_cards [OF assms(1) p c2] card by auto
qed

text \<open>A decision can be taken back at any time: the accounts and cards of an approved customer stay when he is rejected.\<close>

lemma rejection_leaves_accounts:
  assumes "kyc_decide en now actor i False reason missing st = Inr (k, st')"
  shows "rv_accounts st' = rv_accounts st \<and> rv_cards st' = rv_cards st \<and> ky_status k = KycRejected"
  using assms by (auto simp: kyc_decide_def kyc_reject_def err_simps Let_def review_audit_def set_kyc_def)

text \<open>The queue of the review page never has more than 500 rows, and only rows with a requested status.\<close>

lemma queue_bounded:
  "length (listAll_kyc ss from until limit st) \<le> 500 \<and> (k \<in> set (listAll_kyc (Some (s # ts)) from until limit st) \<longrightarrow> ky_status k \<in> set (s # ts))"
proof -
  have "nat (min x 500) \<le> 500" for x :: int by simp
  then show ?thesis unfolding listAll_kyc_def Let_def by (auto simp: le_trans [OF min.cobounded2] dest!: in_set_takeD)
qed

end
