(* ===== verification/Samples_Desk.thy ===== *)
theory Samples_Desk
  imports Samples_Admin Biometric Support Mail_Desk Kyc_Review
begin

text \<open>
  Concrete runs of the support desk, the passkeys, the mail desk and the identity review: a customer's and a
  visitor's conversation, a file, a sign-in with a passkey and its removal, a mail and its answer, an approval.
\<close>

section \<open>Support\<close>

definition chat :: support_thread where
  "chat = \<lparr>sp_id = ''t1'', sp_userId = Some ''u1'', sp_guestId = None, sp_guestName = None, sp_guestEmail = None, sp_status = ThreadOpen,
     sp_lastMessageAt = None, sp_unreadForAdmins = True, sp_createdAt = 0\<rparr>"

definition desk0 :: support_state where
  "desk0 = \<lparr>so_users = [ann], so_devices = [], so_threads = [chat], so_messages = [], so_files = [], so_events = [], so_mails = []\<rparr>"

definition plain_images :: imaging where
  "plain_images = \<lparr>im_metadata = (\<lambda>b. if take 3 b = ''GIF'' then Some (Some ''gif'', False) else None), im_png = (\<lambda>b. Some (''png:'' @ b)), im_jpeg = (\<lambda>b. Some (''jpg:'' @ b))\<rparr>"

definition asked :: "(support_message \<times> support_state) result" where
  "asked = postCustomerMessage ''help@x'' 50 ''m1'' ''u1'' ''t1'' '' hello '' desk0"

lemma desk0_inv: "support_inv desk0"
  by (simp add: support_inv_def desk0_def parties_def written_def chat_def)

lemma asked_facts: "case asked of Inl _ \<Rightarrow> False | Inr (m, st) \<Rightarrow> listCustomerMessages ''u1'' ''t1'' st = Inr [m] \<and> sm_senderRole m \<noteq> FromAdmin \<and> so_mails st \<noteq> []"
  by code_simp

theorem conversations_witness:
  "\<exists>m st. asked = Inr (m, st) \<and> listCustomerMessages ''u1'' ''t1'' st = Inr [m] \<and> sm_senderId m = Some ''u1''"
proof -
  obtain m st where a: "asked = Inr (m, st)" using okE_case [OF asked_facts] by auto
  have l: "listCustomerMessages ''u1'' ''t1'' st = Inr [m]" "sm_senderRole m \<noteq> FromAdmin" using asked_facts unfolding a by simp_all
  have "support_step plain_lib plain_images 100 ''help@x'' desk0 st" by (rule su_post [OF a [unfolded asked_def]])
  from conversations_stay_private [OF r_into_rtranclp [where r = "support_step plain_lib plain_images 100 ''help@x''", OF this] desk0_inv, of "''u1''" "''t1''" "[m]" m] a l
  show ?thesis by auto
qed

definition picture :: incoming_file where
  "picture = \<lparr>if_originalname = Some ''../me and <you>.gif'', if_mimetype = Some ''text/html'', if_buffer = ''GIF89''\<rparr>"

definition uploaded :: "(attachment \<times> support_state) result" where
  "uploaded = process_attachment plain_images 100 ''x1'' ''t1'' picture desk0"

lemma uploaded_facts: "case uploaded of Inl _ \<Rightarrow> False | Inr (a, st) \<Rightarrow> at_name a = ''me and _you_.jpg''"
  by code_simp

theorem stored_file_witness:
  "\<exists>a st ext bytes. uploaded = Inr (a, st) \<and> readAttachment a st = Inr (bytes, a) \<and> at_key a = ''support/t1/x1.'' @ ext \<and> clean_bytes plain_images picture a bytes"
proof -
  obtain a st where a: "uploaded = Inr (a, st)" using okE_case [OF uploaded_facts] by auto
  from stored_file_is_safe [OF a [unfolded uploaded_def]] a show ?thesis by (fastforce simp: desk0_def)
qed

definition visited :: "((support_thread \<times> string) \<times> support_state) result" where
  "visited = guest_open plain_lib 50 (''t2'', ''g2'') ''j'' ''Zed'' ''zed@x'' desk0"

lemma visited_facts: "case visited of Inl _ \<Rightarrow> False | Inr ((t, token), st) \<Rightarrow> sp_id t = ''t2'' \<and> token \<noteq> ''''"
  by code_simp

theorem guest_token_witness:
  "\<exists>t token st. visited = Inr ((t, token), st) \<and> is_ok (guest_messages plain_lib 5000 ''t2'' (Some token) st) \<and>
     \<not> is_ok (guest_messages plain_lib 5000 ''t1'' (Some token) st)"
proof -
  obtain t token st where v: "visited = Inr ((t, token), st)" using okE_case [OF visited_facts] by auto
  have f: "sp_id t = ''t2''" "token \<noteq> ''''" using visited_facts unfolding v by simp_all
  note g = guest_token_opens_its_thread [OF plain_lib_laws(1) v [unfolded visited_def] f(2) _ desk0_inv, of 5000 "''t1''" st]
  have "is_ok (guest_messages plain_lib 5000 ''t2'' (Some token) st)" using g f(1) by simp
  moreover have "\<not> is_ok (guest_messages plain_lib 5000 ''t1'' (Some token) st)" using g f(1) by simp
  ultimately show ?thesis using v by blast
qed

section \<open>Passkeys\<close>

definition passkey :: enrollment where
  "passkey = \<lparr>be_id = ''e1'', be_userId = ''u1'', be_deviceId = ''d1'', be_credentialId = ''cred'', be_publicKey = ''key'', be_signCount = 0,
     be_transports = [], be_createdAt = 0, be_lastUsedAt = None, be_disabledAt = None\<rparr>"

definition passkeys0 :: bio_state where
  "passkeys0 = \<lparr>bs_auth = ann_at_home, bs_enrollments = [passkey], bs_challenges = [], bs_pending = [(''h1'', ''nonce'', 1000)], bs_notes = no_notes\<rparr>"

text \<open>An authenticator that answers with the key and the challenge in clear.\<close>

definition plain_keys :: webauthn where
  "plain_keys = \<lparr>wa_register = (\<lambda>_ _ _ _. Inr None), wa_assert = (\<lambda>ch _ _ key cnt r. Inr (if ce_payload r = key @ ch then Some (cnt + 1) else None))\<rparr>"

definition key_touch :: ceremony where
  "key_touch = \<lparr>ce_challenge = Some ''nonce'', ce_credentialId = Some ''cred'', ce_transports = [], ce_payload = ''keynonce''\<rparr>"

definition touched :: "issue_result result \<times> bio_state" where
  "touched = bio_login plain_keys (\<lambda>_. None) default_bio_config plain_lib default_auth_config (\<lambda>_. None) 500 ids1 ''h1'' key_touch None desk passkeys0"

lemma touched_ok: "is_ok (fst touched)"
  by code_simp

theorem passkey_sign_in_witness:
  "\<exists>res st. touched = (Inr res, st) \<and> se_userId (iss_session res) = ''u1'' \<and>
     \<not> is_ok (fst (bio_login plain_keys (\<lambda>_. None) default_bio_config plain_lib default_auth_config (\<lambda>_. None) 600 ids1 ''h1'' key_touch None desk st))"
proof -
  obtain res where r: "fst touched = Inr res" using touched_ok by (rule is_okE)
  obtain st where t: "touched = (Inr res, st)" using r by (metis prod.collapse)
  note p = passkey_sign_in_sound [of plain_keys "\<lambda>_. None" default_bio_config plain_lib default_auth_config "\<lambda>_. None" 500 ids1 "''h1''" key_touch None desk passkeys0 res st
      600 ids1 key_touch None desk, folded touched_def, unfolded t, simplified]
  have "se_userId (iss_session res) = ''u1''" using p by (auto simp: passkeys0_def passkey_def)
  then show ?thesis using p t by blast
qed

theorem removed_passkey_witness:
  "\<exists>st. remove_passkey 100 ''n1'' ''u1'' ''e1'' passkeys0 = Inr st \<and>
     \<not> is_ok (fst (bio_login plain_keys (\<lambda>_. None) default_bio_config plain_lib default_auth_config (\<lambda>_. None) 500 ids1 ''h1'' key_touch None desk st))"
proof -
  have e: "find_unique be_id ''e1'' (bs_enrollments passkeys0) = Some passkey" by (simp add: passkeys0_def passkey_def)
  have inv: "bio_inv passkeys0" by (simp add: bio_inv_def enrollments_ok_def passkeys0_def)
  have "is_ok (remove_passkey 100 ''n1'' ''u1'' ''e1'' passkeys0)"
    unfolding remove_passkey_def e by (simp add: passkey_def or_throw_def require_def)
  then obtain st where r: "remove_passkey 100 ''n1'' ''u1'' ''e1'' passkeys0 = Inr st" by (rule is_okE)
  from removed_passkey_refused [OF r e inv, of key_touch] r show ?thesis by (simp add: key_touch_def passkey_def)
qed

theorem orphan_rebind_witness:
  "\<exists>st e. finishRebind plain_keys (\<lambda>_. None) default_bio_config 100 (''e9'', ''n9'') ''u1'' ''d1'' (key_touch\<lparr>ce_credentialId := Some ''other'', ce_payload := ''''\<rparr>) None
       (passkeys0\<lparr>bs_challenges := [\<lparr>bc_id = ''q'', bc_userId = ''u1'', bc_challenge = ''nonce'', bc_type = ''rebind'', bc_expiresAt = 500, bc_consumedAt = None\<rparr>]\<rparr>) = Inr st \<and>
     find_unique be_id ''e1'' (bs_enrollments st) = Some e \<and> be_credentialId e = ''other'' \<and> be_publicKey e = ''key''"
proof -
  let ?c = "\<lparr>bc_id = ''q'', bc_userId = ''u1'', bc_challenge = ''nonce'', bc_type = ''rebind'', bc_expiresAt = 500, bc_consumedAt = None\<rparr>"
  let ?st = "passkeys0\<lparr>bs_challenges := [?c]\<rparr>"
  let ?r = "key_touch\<lparr>ce_credentialId := Some ''other'', ce_payload := ''''\<rparr>"
  have c: "signed_challenge ''u1'' ''rebind'' ?r ?st = Some ?c" by (simp add: signed_challenge_def key_touch_def truthy_str_def find_first_def)
  have f: "find_unique be_credentialId ''other'' (bs_enrollments ?st) = None" "enrollment_at ''u1'' ''d1'' (bs_enrollments ?st) = Some passkey"
    by (simp_all add: passkeys0_def passkey_def enrollment_at_def)
  have inv: "bio_inv ?st" by (simp add: bio_inv_def enrollments_ok_def passkeys0_def)
  from orphan_rebind_unverified [OF c _ _ _ f inv, of 100 plain_keys "\<lambda>_. None" default_bio_config "(''e9'', ''n9'')" None] show ?thesis
    by (simp add: passkey_def) blast
qed

section \<open>Mail\<close>

definition plain_mail :: mail_provider where
  "plain_mail = \<lparr>mp_sanitize = id, mp_strip = id, mp_wrap = (\<lambda>t b. b), mp_send = (\<lambda>_. Inr ''p1''), mp_verify = (\<lambda>_ _ _. None),
     mp_receive = (\<lambda>_. Inr (Some \<lparr>rm_html = None, rm_text = Some ''thanks'', rm_messageId = Some ''<m@x>'', rm_headers = None\<rparr>)), mp_download = (\<lambda>_ _. Inr None)\<rparr>"

definition mail_cf :: mail_config where
  "mail_cf = \<lparr>mf_env = (\<lambda>_. None), mf_replyDomain = default_replyDomain, mf_webhookSecret = ''s'', mf_resend = True\<rparr>"

definition letter :: compose_input where
  "letter = \<lparr>co_adminId = ''adm'', co_desk = CustomerCare, co_toUserId = None, co_toEmail = ''Ann@x'', co_toName = None, co_subject = ''Hello'', co_greeting = None,
     co_bodyHtml = ''<p>hi</p>'', co_signature = None, co_attachments = []\<rparr>"

definition no_mail :: mail_state where
  "no_mail = \<lparr>ms_threads = [], ms_messages = [], ms_attachments = [], ms_files = [], ms_sent = [], ms_events = []\<rparr>"

definition mailed :: "(mail_thread \<times> mail_message) result \<times> mail_state" where
  "mailed = compose_mail plain_mail mail_cf 10 (''w1'', ''m1'', ''ab12'') (\<lambda>_. ''a'') letter no_mail"

definition answer_to :: "string \<Rightarrow> inbound_notice" where
  "answer_to addr = \<lparr>in_emailId = ''e1'', in_from = ''Ann <ann@x>'', in_to = [''Bank '' @ ''<'' @ addr @ ''>''], in_cc = [], in_subject = ''Re: Hello'',
     in_messageId = ''i'', in_attachments = []\<rparr>"

lemma mailed_ok: "is_ok (fst mailed)" "map mm_id (ms_messages (snd mailed)) = [''m1'']"
  by code_simp+

theorem answer_is_filed_witness:
  "\<exists>st3. handleInbound plain_mail mail_cf 20 ''m2'' (\<lambda>_. ''a'') (answer_to (og_replyTo (last (ms_sent (snd mailed))))) (snd mailed) = Inr st3 \<and>
     map mm_id (ms_messages st3) = [''m1'', ''m2'']"
proof -
  obtain p where "fst mailed = Inr p" using mailed_ok(1) by (rule is_okE)
  then obtain t m where m: "compose_mail plain_mail mail_cf 10 (''w1'', ''m1'', ''ab12'') (\<lambda>_. ''a'') letter no_mail = (Inr (t, m), snd mailed)"
    unfolding mailed_def by (cases p) (metis prod.collapse)
  have inv: "mail_inv no_mail" by (simp add: mail_inv_def no_mail_def)
  have tok: "list_all token_char ''ab12''" "host_name (mf_replyDomain mail_cf)"
    by (simp_all add: token_char_def host_name_def mail_cf_def default_replyDomain_def lower_char_def)
  have fresh: "''m2'' \<notin> mm_id ` set (ms_messages (snd mailed))"
    using arg_cong [OF mailed_ok(2), of set] by simp
  have lib: "mf_resend mail_cf" "mp_receive plain_mail (in_emailId (answer_to y)) =
      Inr (Some \<lparr>rm_html = None, rm_text = Some ''thanks'', rm_messageId = Some ''<m@x>'', rm_headers = None\<rparr>)"
    "in_to (answer_to y) = [''Bank '' @ ''<'' @ y @ ''>'']" for y by (simp_all add: mail_cf_def plain_mail_def answer_to_def)
  from answer_is_filed [OF m rtranclp.rtrancl_refl inv tok(1) _ tok(2) lib(1,2) fresh lib(3), of 20 "\<lambda>_. ''a''"] mailed_ok(2)
  show ?thesis by fastforce
qed

theorem notice_filed_twice_witness:
  "\<exists>st1 st2. handleInbound plain_mail mail_cf 20 ''m2'' (\<lambda>_. ''a'') (answer_to ''t-ab12@secure-access.site'') (snd mailed) = Inr st1 \<and>
     handleInbound plain_mail mail_cf 30 ''m3'' (\<lambda>_. ''a'') (answer_to ''t-ab12@secure-access.site'') st1 = Inr st2 \<and>
     length (ms_messages st2) = length (ms_messages (snd mailed)) + 2"
proof -
  let ?d = "answer_to ''t-ab12@secure-access.site''"
  have facts: "case handleInbound plain_mail mail_cf 20 ''m2'' (\<lambda>_. ''a'') ?d (snd mailed) of Inl _ \<Rightarrow> False | Inr s \<Rightarrow> ''m3'' \<notin> mm_id ` set (ms_messages s)"
    "case resolveThreadByToken (mf_replyDomain mail_cf) (in_to ?d) (in_cc ?d) (snd mailed) of None \<Rightarrow> False | Some _ \<Rightarrow> True" by code_simp+
  obtain st1 where h: "handleInbound plain_mail mail_cf 20 ''m2'' (\<lambda>_. ''a'') ?d (snd mailed) = Inr st1" "''m3'' \<notin> mm_id ` set (ms_messages st1)"
    using okE_case [OF facts(1)] by blast
  obtain t where r: "resolveThreadByToken (mf_replyDomain mail_cf) (in_to ?d) (in_cc ?d) (snd mailed) = Some t"
    using facts(2) by (auto split: option.splits)
  have lib: "mf_resend mail_cf" "mp_receive plain_mail (in_emailId ?d) =
      Inr (Some \<lparr>rm_html = None, rm_text = Some ''thanks'', rm_messageId = Some ''<m@x>'', rm_headers = None\<rparr>)" by (simp_all add: mail_cf_def plain_mail_def)
  from notice_filed_twice [OF h(1) lib r h(2), of 30 "\<lambda>_. ''a''"] h(1) show ?thesis by fastforce
qed

section \<open>Identity review\<close>

definition review0 :: review_state where
  "review0 = \<lparr>rv_users = [], rv_signups = [], rv_kyc = [\<lparr>ky_userId = ''u9'', ky_status = KycPending, ky_submittedAt = 0, ky_reviewedAt = None,
       ky_reviewedByUserId = None, ky_rejectionReason = None, ky_missingFields = [], ky_id = ''q1''\<rparr>],
     rv_documents = [], rv_accounts = \<lparr>ac_bank = sample_bank, ac_limits = [], ac_events = []\<rparr>, rv_cards = card_office, rv_audit = [], rv_queue = []\<rparr>"

definition approve_env :: "string \<Rightarrow> approval_env" where
  "approve_env cardId = \<lparr>ae_limits = sample_limits, ae_gen1 = (\<lambda>_. ''111''), ae_gen2 = (\<lambda>_. ''222''), ae_ids = (''n1'', ''n2''), ae_cipher = plain_cipher,
     ae_cards = default_card_config, ae_source = (cardId, [1, 2, 3, 4, 5, 6, 7, 8, 9], 42)\<rparr>"

definition approved0 :: "(kyc_row \<times> review_state) result" where
  "approved0 = kyc_decide (approve_env ''k8'') 0 ''adm'' ''q1'' True None None review0"

lemma approved0_facts:
  "case approved0 of Inl _ \<Rightarrow> False
   | Inr (k, st) \<Rightarrow> ky_userId k = ''u9'' \<and> is_ok (kyc_decide (approve_env ''k9'') 0 ''adm'' ''q1'' True None None st) \<and> ''k9'' \<notin> ca_id ` set (cs_cards (rv_cards st)) \<and>
       length (listForUser_accounts ''u9'' (ac_bank (rv_accounts st))) = 2"
  "case provisionForUser sample_limits (\<lambda>_. ''111'') (\<lambda>_. ''222'') (''n1'', ''n2'') ''u9'' (rv_accounts review0) of Inl _ \<Rightarrow> False
   | Inr (p, acc) \<Rightarrow> is_ok (issue plain_cipher default_card_config 0 (''k8'', [1, 2, 3, 4, 5, 6, 7, 8, 9], 42) (a_id (fst p)) Virtual None
       ((rv_cards review0)\<lparr>cs_accounts := db_accounts (ac_bank acc)\<rparr>))"
  "countForUser ''u9'' (ac_bank (rv_accounts review0)) = 0"
  by code_simp+

lemma env_sel: "ae_limits (approve_env i) = sample_limits" "ae_gen1 (approve_env i) = (\<lambda>_. ''111'')" "ae_gen2 (approve_env i) = (\<lambda>_. ''222'')"
  "ae_ids (approve_env i) = (''n1'', ''n2'')" "ae_cipher (approve_env i) = plain_cipher" "ae_cards (approve_env i) = default_card_config"
  "ae_source (approve_env i) = (i, [1, 2, 3, 4, 5, 6, 7, 8, 9], 42)"
  by (simp_all add: approve_env_def)

theorem approval_witness:
  "\<exists>k st c v. approved0 = Inr (k, st) \<and> listForUser_accounts ''u9'' (ac_bank (rv_accounts st)) = [c, v] \<and> a_type c = Checking \<and>
     length (cs_cards (rv_cards st)) = Suc (length (cs_cards (rv_cards review0)))"
proof -
  obtain k st where a: "approved0 = Inr (k, st)" "ky_userId k = ''u9''" using okE_case [OF approved0_facts(1)] by auto
  obtain c v acc where p: "provisionForUser sample_limits (\<lambda>_. ''111'') (\<lambda>_. ''222'') (''n1'', ''n2'') ''u9'' (rv_accounts review0) = Inr ((c, v), acc)"
    and i: "is_ok (issue plain_cipher default_card_config 0 (''k8'', [1, 2, 3, 4, 5, 6, 7, 8, 9], 42) (a_id c) Virtual None
       ((rv_cards review0)\<lparr>cs_accounts := db_accounts (ac_bank acc)\<rparr>))" using okE_case [OF approved0_facts(2)] by auto
  obtain card1 cs where j: "issue plain_cipher default_card_config 0 (''k8'', [1, 2, 3, 4, 5, 6, 7, 8, 9], 42) (a_id c) Virtual None
       ((rv_cards review0)\<lparr>cs_accounts := db_accounts (ac_bank acc)\<rparr>) = Inr (card1, cs)" using is_okD [OF i] by auto
  from approval_opens_customer [OF a(1) [unfolded approved0_def], unfolded env_sel a(2), OF approved0_facts(3) p j] a(1)
  show ?thesis by (intro exI [of _ k] exI [of _ st] exI [of _ c] exI [of _ v]) simp
qed

end
