(* ===== verification/User_Deletion.thy ===== *)
theory User_Deletion
  imports Schema
begin

text \<open>
  The deletion of a user with every row that points at him (\<^verbatim>\<open>admin/users/admin-users.service.ts\<close>, \<^verbatim>\<open>hardDelete\<close>). It touches
  most tables of the schema, so here the database is a list of rows with their table, identifier and text columns, and
  the foreign keys of the schema act on every deletion: a restricting key makes it fail, a cascading key deletes
  the child, a nullable key clears the column.
\<close>

section \<open>Rows and foreign keys\<close>

record db_row =
  rw_table :: string
  rw_id :: string
  rw_cols :: "(string \<times> string option) list"

type_synonym db = "db_row list"

definition col :: "string \<Rightarrow> db_row \<Rightarrow> string option" where
  "col c r = (case map_of (rw_cols r) c of None \<Rightarrow> None | Some v \<Rightarrow> v)"

datatype on_delete = Restrict | SetNull | Cascade

text \<open>Child table, column, parent table, action.\<close>

type_synonym foreign_key = "string \<times> string \<times> string \<times> on_delete"

definition foreign_keys :: "foreign_key list" where
  "foreign_keys =
     [(''DirectDeposit'', ''employerId'', ''Employer'', SetNull), (''Deal'', ''merchantId'', ''Merchant'', SetNull),
      (''ActivatedDeal'', ''dealId'', ''Deal'', Restrict), (''Contact'', ''ownerUserId'', ''User'', Restrict),
      (''Card'', ''accountId'', ''Account'', Restrict), (''Goal'', ''userId'', ''User'', Restrict),
      (''AutosaveConfig'', ''userId'', ''User'', Restrict), (''Account'', ''userId'', ''User'', Restrict),
      (''Transaction'', ''accountId'', ''Account'', Restrict), (''Transaction'', ''merchantId'', ''Merchant'', SetNull),
      (''AccountLimits'', ''accountId'', ''Account'', Restrict), (''Posting'', ''journalEntryId'', ''JournalEntry'', Restrict),
      (''Posting'', ''ledgerAccountId'', ''LedgerAccount'', Restrict), (''Device'', ''userId'', ''User'', Restrict),
      (''Session'', ''userId'', ''User'', Restrict), (''Session'', ''deviceId'', ''Device'', Restrict),
      (''MfaChallenge'', ''userId'', ''User'', Restrict), (''PasswordResetChallenge'', ''userId'', ''User'', Restrict),
      (''Verification'', ''signupSessionId'', ''SignupSession'', Restrict), (''Document'', ''ownerSignupId'', ''SignupSession'', SetNull),
      (''Document'', ''ownerUserId'', ''User'', SetNull), (''KycRecord'', ''userId'', ''User'', Restrict),
      (''TransactionOverride'', ''transactionId'', ''Transaction'', Restrict), (''SupportMessage'', ''threadId'', ''SupportThread'', Cascade),
      (''MailMessage'', ''threadId'', ''MailThread'', Cascade), (''MailAttachment'', ''messageId'', ''MailMessage'', Cascade)]"

text \<open>A column of a row names one of the given rows, by a key with the given action.\<close>

definition names_in :: "on_delete \<Rightarrow> db \<Rightarrow> string \<Rightarrow> db_row \<Rightarrow> bool" where
  "names_in act vs c r =
     list_ex (\<lambda>(child, k, parent, a). a = act \<and> rw_table r = child \<and> k = c \<and> list_ex (\<lambda>v. rw_table v = parent \<and> col c r = Some (rw_id v)) vs) foreign_keys"

definition refers :: "on_delete \<Rightarrow> db \<Rightarrow> db_row \<Rightarrow> bool" where
  "refers act vs r = list_ex (\<lambda>(child, k, parent, a). names_in act vs k r) foreign_keys"

fun cascaded :: "nat \<Rightarrow> db \<Rightarrow> db \<Rightarrow> db" where
  "cascaded 0 db vs = vs"
| "cascaded (Suc n) db vs =
     (let more = filter (\<lambda>r. r \<notin> set vs \<and> refers Cascade vs r) db in if more = [] then vs else cascaded n db (vs @ more))"

definition clear_names :: "db \<Rightarrow> db_row \<Rightarrow> db_row" where
  "clear_names vs r = r\<lparr>rw_cols := map (\<lambda>(c, v). (c, if names_in SetNull vs c r then None else v)) (rw_cols r)\<rparr>"

text \<open>One deletion: the number of rows that were selected, and the rows that remain.\<close>

definition delete_rows :: "(db_row \<Rightarrow> bool) \<Rightarrow> db \<Rightarrow> (nat \<times> db) result" where
  "delete_rows P db =
     (let vs = cascaded (length db) db (filter P db); rest = filter (\<lambda>r. r \<notin> set vs) db in
      ebind (require (\<not> list_ex (refers Restrict vs) rest) (PlainError ''Foreign key constraint violated'')) (\<lambda>_.
      Inr (length (filter P db), map (clear_names vs) rest)))"

section \<open>The deletion of a user\<close>

text \<open>A statement: the name its count has in the log, the table, and the columns one of which has to have one of
  the values. A statement with no value deletes nothing.\<close>

type_synonym statement = "string \<times> string \<times> string list \<times> string list"

definition selects :: "statement \<Rightarrow> db_row \<Rightarrow> bool" where
  "selects s r =
     (case s of (_, tb, cs, vs) \<Rightarrow> rw_table r = tb \<and> list_ex (\<lambda>c. (if c = ''id'' then Some (rw_id r) else col c r) \<in> Some ` set vs) cs)"

fun run_deletes :: "statement list \<Rightarrow> db \<Rightarrow> ((string \<times> nat) list \<times> db) result" where
  "run_deletes [] db = Inr ([], db)"
| "run_deletes (s # ss) db =
     ebind (delete_rows (selects s) db) (\<lambda>(n, db1). ebind (run_deletes ss db1) (\<lambda>(ns, db2). Inr ((fst s, n) # ns, db2)))"

definition ids_where :: "string \<Rightarrow> string \<Rightarrow> string list \<Rightarrow> db \<Rightarrow> string list" where
  "ids_where tb c vs db = map rw_id (filter (\<lambda>r. rw_table r = tb \<and> col c r \<in> Some ` set vs) db)"

definition account_deletes :: "string list \<Rightarrow> string list \<Rightarrow> statement list" where
  "account_deletes accountIds txnIds =
     [(''transactionOverrides'', ''TransactionOverride'', [''transactionId''], txnIds), (''transfers'', ''Transfer'', [''fromAccountId'', ''toAccountId''], accountIds),
      (''transactions'', ''Transaction'', [''accountId''], accountIds), (''statements'', ''Statement'', [''accountId''], accountIds),
      (''cards'', ''Card'', [''accountId''], accountIds), (''accountLimits'', ''AccountLimits'', [''accountId''], accountIds)]"

definition owned_deletes :: "string \<Rightarrow> statement list" where
  "owned_deletes u =
     [(''cardOrders'', ''CardOrder'', [''userId''], [u]), (''activatedDeals'', ''ActivatedDeal'', [''userId''], [u]), (''autosaveConfigs'', ''AutosaveConfig'', [''userId''], [u]),
      (''biometricChallenges'', ''BiometricChallenge'', [''userId''], [u]), (''biometricEnrollments'', ''BiometricEnrollment'', [''userId''], [u]),
      (''checkDeposits'', ''CheckDeposit'', [''userId''], [u]), (''contacts'', ''Contact'', [''ownerUserId''], [u]), (''directDeposits'', ''DirectDeposit'', [''userId''], [u]),
      (''documents'', ''Document'', [''ownerUserId''], [u]), (''goals'', ''Goal'', [''userId''], [u]), (''idempotencyKeys'', ''IdempotencyKey'', [''userId''], [u]),
      (''kycRecords'', ''KycRecord'', [''userId''], [u]), (''linkedAccounts'', ''LinkedAccount'', [''userId''], [u]), (''mfaChallenges'', ''MfaChallenge'', [''userId''], [u]),
      (''notifications'', ''Notification'', [''userId''], [u]), (''notificationPreferences'', ''NotificationPreference'', [''userId''], [u]),
      (''paymentRequests'', ''PaymentRequest'', [''requesterUserId'', ''payerUserId''], [u]), (''recurringTransfers'', ''RecurringTransfer'', [''userId''], [u]),
      (''referrals'', ''Referral'', [''referrerUserId''], [u]), (''roundUpLedger'', ''RoundUpLedger'', [''userId''], [u]), (''taxForms'', ''TaxForm'', [''userId''], [u]),
      (''totpSecrets'', ''TotpSecret'', [''userId''], [u]), (''userPreferences'', ''UserPreference'', [''userId''], [u]), (''supportThreads'', ''SupportThread'', [''userId''], [u])]"

definition identity_deletes :: "string \<Rightarrow> statement list" where
  "identity_deletes u =
     [(''accounts'', ''Account'', [''userId''], [u]), (''sessions'', ''Session'', [''userId''], [u]), (''devices'', ''Device'', [''userId''], [u]),
      (''user'', ''User'', [''id''], [u])]"

definition signup_deletes :: "string \<Rightarrow> string list \<Rightarrow> statement list" where
  "signup_deletes email stale = [(''verifications'', ''Verification'', [''signupSessionId''], stale), (''signupSessions'', ''SignupSession'', [''email''], [email])]"

text \<open>The transaction. The identifiers of stale signups are read after the row of the user is gone; the row of the
  user itself is not counted.\<close>

definition delete_user_rows :: "string list \<Rightarrow> string \<Rightarrow> string \<Rightarrow> db \<Rightarrow> ((string \<times> nat) list \<times> db) result" where
  "delete_user_rows accountIds u email db =
     ebind (run_deletes (account_deletes accountIds (ids_where ''Transaction'' ''accountId'' accountIds db) @ owned_deletes u @ identity_deletes u) db) (\<lambda>(ns, db1).
     ebind (run_deletes (signup_deletes email (ids_where ''SignupSession'' ''email'' [email] db1)) db1) (\<lambda>(ms, db2).
     Inr (filter (\<lambda>p. fst p \<noteq> ''user'') (ns @ ms), db2)))"

record deletion_state =
  dd_rows :: db
  dd_audit :: "audit_row list"

definition text_col :: "string \<Rightarrow> db_row \<Rightarrow> string" where
  "text_col c r = (case col c r of None \<Rightarrow> '''' | Some v \<Rightarrow> v)"

definition hardDelete :: "int \<Rightarrow> string \<Rightarrow> string \<Rightarrow> string \<Rightarrow> string option \<Rightarrow> string \<Rightarrow> deletion_state \<Rightarrow> ((string \<times> nat) list \<times> deletion_state) result" where
  "hardDelete now actor actorRole u confirmation reason st =
     ebind (require (actorRole = ''admin'' \<or> actorRole = ''superadmin'') (Forbidden ''Only admins can delete users'')) (\<lambda>_.
     ebind (require (actor \<noteq> u) (BadRequest ''Cannot delete your own account'')) (\<lambda>_.
     ebind (or_throw (NotFound ''User not found'') (find_first (\<lambda>r. rw_table r = ''User'' \<and> rw_id r = u) (dd_rows st))) (\<lambda>t.
     ebind (require (\<not> (actorRole \<noteq> ''superadmin'' \<and> (text_col ''role'' t = ''admin'' \<or> text_col ''role'' t = ''superadmin'')))
              (Forbidden ''Only a superadmin can delete an admin or superadmin account'')) (\<lambda>_.
     let expected = to_lower (js_trim (text_col ''email'' t)); given = to_lower (js_trim (case confirmation of None \<Rightarrow> '''' | Some c \<Rightarrow> c)) in
     ebind (require (given \<noteq> '''' \<and> given = expected)
              (BadRequest (''Confirmation must match the user's email ('' @ text_col ''email'' t @ '') exactly''))) (\<lambda>_.
     ebind (delete_user_rows (ids_where ''Account'' ''userId'' [u] (dd_rows st)) u (text_col ''email'' t) (dd_rows st)) (\<lambda>(counts, db).
     Inr (counts, st\<lparr>dd_rows := db, dd_audit := dd_audit st @ [\<lparr>au_actorUserId = actor, au_action = ''user.delete'', au_targetType = ''user'', au_targetId = u,
        au_metadata = map (\<lambda>c. (c, case col c t of None \<Rightarrow> AvNull | Some v \<Rightarrow> AvText v)) [''email'', ''novaTag'', ''firstName'', ''lastName'', ''role'', ''status'', ''createdAt''] @
          map (\<lambda>(l, n). (l, AvInt (int n))) counts @ [(''reason'', AvText reason)], au_createdAt = now\<rparr>]\<rparr>)))))))"

section \<open>What a deletion does to the other rows\<close>

lemma names_in_iff:
  "names_in act vs c r \<longleftrightarrow> (\<exists>parent v. (rw_table r, c, parent, act) \<in> set foreign_keys \<and> v \<in> set vs \<and> rw_table v = parent \<and> col c r = Some (rw_id v))"
  unfolding names_in_def list_ex_iff by fastforce

lemma refers_iff:
  "refers act vs r \<longleftrightarrow> (\<exists>c parent v. (rw_table r, c, parent, act) \<in> set foreign_keys \<and> v \<in> set vs \<and> rw_table v = parent \<and> col c r = Some (rw_id v))"
  unfolding refers_def list_ex_iff using names_in_iff by fastforce

lemma clear_names_sel [simp]: "rw_table (clear_names vs r) = rw_table r" "rw_id (clear_names vs r) = rw_id r"
  by (simp_all add: clear_names_def)

lemma col_clear: "col c (clear_names vs r) = (if names_in SetNull vs c r then None else col c r)"
proof -
  have "map_of (map (\<lambda>(k, v). (k, f k v)) xs) c = map_option (f c) (map_of xs c)" for f :: "string \<Rightarrow> string option \<Rightarrow> string option" and xs
    by (induction xs) auto
  from this [of "\<lambda>k v. if names_in SetNull vs k r then None else v" "rw_cols r"] show ?thesis
    by (simp add: clear_names_def col_def split: option.splits)
qed

definition nullable :: "string \<Rightarrow> string \<Rightarrow> bool" where
  "nullable tb c = (\<exists>parent. (tb, c, parent, SetNull) \<in> set foreign_keys)"

text \<open>Every row that is left was there before, with the same columns but for cleared nullable keys.\<close>

definition descends :: "db \<Rightarrow> db \<Rightarrow> bool" where
  "descends db' db = (\<forall>r' \<in> set db'. \<exists>r \<in> set db. rw_table r' = rw_table r \<and> rw_id r' = rw_id r \<and>
     (\<forall>c. col c r' = col c r \<or> nullable (rw_table r) c \<and> col c r' = None))"

lemma descends_refl [simp]: "descends db db"
  by (auto simp: descends_def)

lemma descends_trans:
  assumes "descends a b" "descends b c"
  shows "descends a c"
  unfolding descends_def
proof
  fix x assume "x \<in> set a"
  then obtain y where y: "y \<in> set b" "rw_table x = rw_table y" "rw_id x = rw_id y" "\<forall>c. col c x = col c y \<or> nullable (rw_table y) c \<and> col c x = None"
    using assms(1) unfolding descends_def by blast
  then obtain z where z: "z \<in> set c" "rw_table y = rw_table z" "rw_id y = rw_id z" "\<forall>c. col c y = col c z \<or> nullable (rw_table z) c \<and> col c y = None"
    using assms(2) unfolding descends_def by blast
  have "col k x = col k z \<or> nullable (rw_table z) k \<and> col k x = None" for k using y(4) [rule_format, of k] z(4) [rule_format, of k] z(2) by auto
  then show "\<exists>r \<in> set c. rw_table x = rw_table r \<and> rw_id x = rw_id r \<and> (\<forall>c. col c x = col c r \<or> nullable (rw_table r) c \<and> col c x = None)"
    using y(2,3) z(1-3) by auto
qed

lemma delete_rows_Inr:
  assumes "delete_rows P db = Inr (n, db')"
  obtains vs where "vs = cascaded (length db) db (filter P db)" "db' = map (clear_names vs) (filter (\<lambda>r. r \<notin> set vs) db)"
    "\<forall>r \<in> set db. r \<notin> set vs \<longrightarrow> \<not> refers Restrict vs r"
proof -
  let ?vs = "cascaded (length db) db (filter P db)"
  have "db' = map (clear_names ?vs) (filter (\<lambda>r. r \<notin> set ?vs) db)" "\<forall>r \<in> set db. r \<notin> set ?vs \<longrightarrow> \<not> refers Restrict ?vs r"
    using assms by (auto simp: delete_rows_def Let_def err_simps list_ex_iff)
  then show ?thesis using that by blast
qed

lemma delete_descends: "delete_rows P db = Inr (n, db') \<Longrightarrow> descends db' db"
proof (elim delete_rows_Inr)
  fix vs assume d: "db' = map (clear_names vs) (filter (\<lambda>r. r \<notin> set vs) db)"
  have "col c (clear_names vs r) = col c r \<or> nullable (rw_table r) c \<and> col c (clear_names vs r) = None" for c r
    by (auto simp: col_clear names_in_iff nullable_def)
  then show "descends db' db" unfolding d descends_def by force
qed

lemma cascaded_superset: "set vs \<subseteq> set (cascaded n db vs)"
  by (induction n db vs rule: cascaded.induct) (auto simp: Let_def)

lemma selected_gone:
  assumes "delete_rows P db = Inr (n, db')" "r' \<in> set db'"
  shows "\<exists>r \<in> set db. \<not> P r \<and> r' = clear_names (cascaded (length db) db (filter P db)) r"
  using assms(1)
proof (elim delete_rows_Inr)
  fix vs assume v: "vs = cascaded (length db) db (filter P db)" "db' = map (clear_names vs) (filter (\<lambda>r. r \<notin> set vs) db)"
  then obtain r where r: "r \<in> set db" "r \<notin> set vs" "r' = clear_names vs r" using assms(2) by auto
  have "\<not> P r" using r(1,2) cascaded_superset [of "filter P db" "length db" db] v(1) by auto
  then show ?thesis using r v(1) by blast
qed

text \<open>No row of a table has one of the values in a column.\<close>

definition absent :: "string \<Rightarrow> string \<Rightarrow> string list \<Rightarrow> db \<Rightarrow> bool" where
  "absent tb c vs db = (\<forall>r \<in> set db. rw_table r = tb \<longrightarrow> col c r \<notin> Some ` set vs)"

lemma absent_descends: "descends db' db \<Longrightarrow> absent tb c vs db \<Longrightarrow> absent tb c vs db'"
proof -
  assume d: "descends db' db" and a: "absent tb c vs db"
  have "col c r' \<notin> Some ` set vs" if r': "r' \<in> set db'" "rw_table r' = tb" for r'
  proof -
    obtain r where "r \<in> set db" "rw_table r' = rw_table r" "col c r' = col c r \<or> col c r' = None" using d r'(1) unfolding descends_def by blast
    then show ?thesis using a r'(2) unfolding absent_def by auto
  qed
  then show ?thesis unfolding absent_def by blast
qed

lemma absent_after:
  assumes "delete_rows (selects (l, tb, cs, vs)) db = Inr (n, db')" "c \<in> set cs" "c \<noteq> ''id''"
  shows "absent tb c vs db'"
  unfolding absent_def
proof (intro ballI impI)
  fix r' assume r': "r' \<in> set db'" "rw_table r' = tb"
  from selected_gone [OF assms(1) r'(1)] obtain r ws where r: "\<not> selects (l, tb, cs, vs) r" "r' = clear_names ws r" by blast
  then have "col c r \<notin> Some ` set vs" using assms(2,3) r'(2) by (auto simp: selects_def list_ex_iff)
  then show "col c r' \<notin> Some ` set vs" unfolding r(2) col_clear by auto
qed

lemma run_descends: "run_deletes ss db = Inr (ns, db') \<Longrightarrow> descends db' db"
proof (induction ss arbitrary: ns db)
  case (Cons s ss)
  then obtain n db1 ns1 where "delete_rows (selects s) db = Inr (n, db1)" "run_deletes ss db1 = Inr (ns1, db')" by (auto simp: err_simps)
  then show ?case using Cons.IH delete_descends descends_trans by blast
qed simp

lemma run_absent:
  assumes "run_deletes ss db = Inr (ns, db')" "(l, tb, cs, vs) \<in> set ss" "c \<in> set cs" "c \<noteq> ''id''"
  shows "absent tb c vs db'"
  using assms(1,2)
proof (induction ss arbitrary: ns db)
  case (Cons s ss)
  then obtain n db1 ns1 where d: "delete_rows (selects s) db = Inr (n, db1)" "run_deletes ss db1 = Inr (ns1, db')" by (auto simp: err_simps)
  show ?case
  proof (cases "s = (l, tb, cs, vs)")
    case True
    then show ?thesis using absent_after [OF d(1) [unfolded True] assms(3,4)] absent_descends [OF run_descends [OF d(2)]] by blast
  next
    case False
    then show ?thesis using Cons.IH [OF d(2)] Cons.prems(2) by auto
  qed
qed simp

lemma run_append: "run_deletes (ss @ ts) db = ebind (run_deletes ss db) (\<lambda>(ns, db1). ebind (run_deletes ts db1) (\<lambda>(ms, db2). Inr (ns @ ms, db2)))"
  by (induction ss arbitrary: db) (auto simp: ebind_def split: sum.splits prod.splits)

section \<open>Referential integrity\<close>

definition integrity :: "db \<Rightarrow> bool" where
  "integrity db = (\<forall>r \<in> set db. \<forall>(child, c, parent, a) \<in> set foreign_keys. rw_table r = child \<longrightarrow>
     (\<forall>k. col c r = Some k \<longrightarrow> (\<exists>p \<in> set db. rw_table p = parent \<and> rw_id p = k)))"

lemma integrity_code:
  "integrity db = (\<forall>r \<in> set db. \<forall>(child, c, parent, a) \<in> set foreign_keys. rw_table r = child \<longrightarrow>
     (case col c r of None \<Rightarrow> True | Some k \<Rightarrow> \<exists>p \<in> set db. rw_table p = parent \<and> rw_id p = k))"
  unfolding integrity_def by (intro ball_cong refl) (auto split: option.splits)

lemma integrityD:
  "integrity db \<Longrightarrow> r \<in> set db \<Longrightarrow> (rw_table r, c, parent, a) \<in> set foreign_keys \<Longrightarrow> col c r = Some k \<Longrightarrow> \<exists>p \<in> set db. rw_table p = parent \<and> rw_id p = k"
  unfolding integrity_def by fastforce

lemma cascaded_closed:
  "card (set db - set vs) \<le> n \<Longrightarrow> r \<in> set db \<Longrightarrow> refers Cascade (cascaded n db vs) r \<Longrightarrow> r \<in> set (cascaded n db vs)"
proof (induction n arbitrary: vs)
  case 0
  then have "set db \<subseteq> set vs" by simp
  then show ?case using 0 by auto
next
  case (Suc n)
  let ?more = "filter (\<lambda>r. r \<notin> set vs \<and> refers Cascade vs r) db"
  show ?case
  proof (cases "?more = []")
    case True
    then show ?thesis using Suc.prems by (auto simp: filter_empty_conv)
  next
    case False
    then obtain x where x: "x \<in> set ?more" by (cases ?more) auto
    have "set db - set (vs @ ?more) \<subset> set db - set vs" using x by auto
    then have "card (set db - set (vs @ ?more)) < card (set db - set vs)" by (intro psubset_card_mono) auto
    then show ?thesis using Suc.IH [of "vs @ ?more"] Suc.prems False by (simp add: Let_def)
  qed
qed

text \<open>Whatever is deleted, no key is left dangling.\<close>

lemma delete_integrity:
  assumes "delete_rows P db = Inr (n, db')" "integrity db"
  shows "integrity db'"
proof -
  obtain vs where v: "vs = cascaded (length db) db (filter P db)" "db' = map (clear_names vs) (filter (\<lambda>r. r \<notin> set vs) db)"
      "\<forall>r \<in> set db. r \<notin> set vs \<longrightarrow> \<not> refers Restrict vs r"
    using assms(1) by (rule delete_rows_Inr)
  have closed: "r \<in> set vs" if "r \<in> set db" "refers Cascade vs r" for r
  proof -
    have "card (set db - set (filter P db)) \<le> length db" by (rule le_trans [OF card_mono card_length]) auto
    then show ?thesis using that cascaded_closed [of db "filter P db" "length db" r] unfolding v(1) by blast
  qed
  have "\<exists>p \<in> set db'. rw_table p = parent \<and> rw_id p = k"
    if r: "r \<in> set db" "r \<notin> set vs" and fk: "(rw_table r, c, parent, a) \<in> set foreign_keys" and k: "col c (clear_names vs r) = Some k" for r c parent a k
  proof -
    have k': "col c r = Some k" "\<not> names_in SetNull vs c r" using k by (auto simp: col_clear split: if_splits)
    obtain p where p: "p \<in> set db" "rw_table p = parent" "rw_id p = k" using integrityD [OF assms(2) r(1) fk k'(1)] by blast
    have "p \<notin> set vs"
    proof
      assume pv: "p \<in> set vs"
      then have "refers a vs r" "names_in a vs c r" using fk k'(1) p unfolding refers_iff names_in_iff by blast+
      then show False using v(3) closed r k'(2) by (cases a) auto
    qed
    then have "clear_names vs p \<in> set db'" using p(1) unfolding v(2) by auto
    then show ?thesis using p(2,3) by (intro bexI [of _ "clear_names vs p"]) auto
  qed
  then show ?thesis unfolding integrity_def v(2) by fastforce
qed

lemma run_integrity: "run_deletes ss db = Inr (ns, db') \<Longrightarrow> integrity db \<Longrightarrow> integrity db'"
proof (induction ss arbitrary: ns db)
  case (Cons s ss)
  then obtain n db1 ns1 where "delete_rows (selects s) db = Inr (n, db1)" "run_deletes ss db1 = Inr (ns1, db')" by (auto simp: err_simps)
  then show ?case using Cons.IH Cons.prems(2) delete_integrity by blast
qed simp

section \<open>When a deletion succeeds\<close>

lemma cascaded_tables: "v \<in> set (cascaded n db vs) \<Longrightarrow> v \<in> set vs \<or> (\<exists>c parent. (rw_table v, c, parent, Cascade) \<in> set foreign_keys)"
  by (induction n db vs rule: cascaded.induct) (fastforce simp: Let_def refers_iff split: if_splits)+

lemma cascade_no_parent: "(tb, c, p, Cascade) \<in> set foreign_keys \<Longrightarrow> (ch, c', tb, Restrict) \<notin> set foreign_keys"
  by (auto simp: foreign_keys_def)

text \<open>The children of a table that restrict the deletion of its rows.\<close>

definition blockers :: "string \<Rightarrow> (string \<times> string) list" where
  "blockers tb = [(child, c). (child, c, parent, a) \<leftarrow> foreign_keys, a = Restrict \<and> parent = tb]"

lemma delete_ok:
  assumes "\<forall>v \<in> set db. P v \<longrightarrow> rw_table v = tb \<and> rw_id v \<in> set ids" "\<forall>(child, c) \<in> set (blockers tb). absent child c ids db"
  shows "\<exists>n db'. delete_rows P db = Inr (n, db')"
proof -
  let ?vs = "cascaded (length db) db (filter P db)"
  have "\<not> refers Restrict ?vs r" if r: "r \<in> set db" for r
  proof
    assume "refers Restrict ?vs r"
    then obtain c v where v: "(rw_table r, c, rw_table v, Restrict) \<in> set foreign_keys" "v \<in> set ?vs" "col c r = Some (rw_id v)" by (auto simp: refers_iff)
    then have "v \<in> set (filter P db)" using cascaded_tables [OF v(2)] cascade_no_parent by blast
    then have t: "rw_table v = tb" "rw_id v \<in> set ids" using assms(1) by auto
    then have "(rw_table r, c) \<in> set (blockers tb)" using v(1) by (force simp: blockers_def)
    then have "absent (rw_table r) c ids db" using assms(2) by blast
    then show False using r v(3) t(2) unfolding absent_def by auto
  qed
  then show ?thesis by (auto simp: delete_rows_def Let_def require_def list_ex_iff)
qed

lemma run_snoc:
  assumes "run_deletes ss db = Inr (ns, db1)" "delete_rows (selects s) db1 = Inr (n, db2)"
  shows "run_deletes (ss @ [s]) db = Inr (ns @ [(fst s, n)], db2)"
  using assms by (simp add: run_append)

lemma selects_table: "selects (l, tb, cs, vs) r \<Longrightarrow> rw_table r = tb"
  by (simp add: selects_def)

lemma run_harmless:
  assumes "run_deletes ss db = Inr (ns, db1)" "\<forall>(l, tb, cs, vs) \<in> set ts. blockers tb = []"
  shows "\<exists>ms db2. run_deletes (ss @ ts) db = Inr (ms, db2)"
  using assms
proof (induction ts arbitrary: ss ns db1)
  case (Cons t ts)
  obtain l tb cs vs where t: "t = (l, tb, cs, vs)" by (cases t)
  have b: "blockers tb = []" using Cons.prems(2) t by simp
  obtain n db2 where d: "delete_rows (selects t) db1 = Inr (n, db2)"
    using delete_ok [of db1 "selects t" tb "map rw_id db1"] selects_table b unfolding t by auto
  from Cons.IH [OF run_snoc [OF Cons.prems(1) d]] Cons.prems(2) show ?case by auto
qed auto

text \<open>The rows that would block a statement are deleted by an earlier one, through a column that cannot be cleared.\<close>

definition deletes_row :: "statement list \<Rightarrow> db_row \<Rightarrow> bool" where
  "deletes_row ss r = (\<exists>(l, tb, cs, vs) \<in> set ss. rw_table r = tb \<and> (\<exists>c \<in> set cs. c \<noteq> ''id'' \<and> \<not> nullable tb c \<and> col c r \<in> Some ` set vs))"

definition unblocked :: "statement list \<Rightarrow> statement \<Rightarrow> db \<Rightarrow> bool" where
  "unblocked pre s db = (\<forall>(child, c) \<in> set (blockers (fst (snd s))). \<forall>r \<in> set db. \<forall>v \<in> set db.
     rw_table r = child \<and> selects s v \<and> col c r = Some (rw_id v) \<longrightarrow> deletes_row pre r)"

fun in_order :: "statement list \<Rightarrow> statement list \<Rightarrow> db \<Rightarrow> bool" where
  "in_order pre [] db = True"
| "in_order pre (s # ss) db = (unblocked pre s db \<and> in_order (pre @ [s]) ss db)"

lemma selects_descends:
  assumes "descends db' db" "v' \<in> set db'" "selects s v'"
  shows "\<exists>v \<in> set db. selects s v \<and> rw_id v = rw_id v'"
proof -
  obtain v where v: "v \<in> set db" "rw_table v' = rw_table v" "rw_id v' = rw_id v"
      and cols: "\<forall>c. col c v' = col c v \<or> nullable (rw_table v) c \<and> col c v' = None"
    using bspec [OF assms(1) [unfolded descends_def] assms(2)] by blast
  have "(if c = ''id'' then Some (rw_id v) else col c v) \<in> Some ` ws" if "(if c = ''id'' then Some (rw_id v') else col c v') \<in> Some ` ws" for c ws
    using that v(3) cols [rule_format, of c] by (auto split: if_splits)
  note moves = this
  obtain l tb cs ws where t: "s = (l, tb, cs, ws)" by (cases s)
  obtain c where c: "c \<in> set cs" "(if c = ''id'' then Some (rw_id v') else col c v') \<in> Some ` set ws" "rw_table v' = tb"
    using assms(3) unfolding t selects_def by (auto simp: list_ex_iff)
  have "\<exists>c \<in> set cs. (if c = ''id'' then Some (rw_id v) else col c v) \<in> Some ` set ws" using c(1) moves [OF c(2)] by (rule rev_bexI)
  moreover have "rw_table v = tb" using c(3) v(2) by (rule trans [OF sym, rotated])
  ultimately have "selects s v" unfolding t selects_def list_ex_iff prod.case by (rule conjI [rotated])
  then show ?thesis using v(1,3) by auto
qed

lemma deleted_row_absent:
  assumes "run_deletes pre db = Inr (ns, db')" "r' \<in> set db'"
  shows "\<exists>r \<in> set db. rw_table r' = rw_table r \<and> (\<forall>c. col c r' = col c r \<or> col c r' = None) \<and> \<not> deletes_row pre r"
proof -
  obtain r where r: "r \<in> set db" "rw_table r' = rw_table r" "\<forall>c. col c r' = col c r \<or> nullable (rw_table r) c \<and> col c r' = None"
    using run_descends [OF assms(1)] assms(2) unfolding descends_def by blast
  have "\<not> deletes_row pre r"
  proof
    assume "deletes_row pre r"
    then obtain l tb cs vs c where d: "(l, tb, cs, vs) \<in> set pre" "rw_table r = tb" "c \<in> set cs" "c \<noteq> ''id''" "\<not> nullable tb c" "col c r \<in> Some ` set vs"
      unfolding deletes_row_def by (elim bexE) (simp only: split_paired_all split_beta fst_conv snd_conv, blast)
    note s = d(1,3-6) [folded d(2)]
    have "col c r' = col c r" using r(3) s(4) by blast
    moreover have "absent (rw_table r) c vs db'" using run_absent [OF assms(1) s(1-3)] .
    ultimately show False using assms(2) r(2) s(5) unfolding absent_def by metis
  qed
  moreover have "\<forall>c. col c r' = col c r \<or> col c r' = None"
    by (rule allI, rule disj_forward [OF spec [OF r(3)]], assumption, erule conjunct2)
  ultimately show ?thesis using r(2) by - (rule bexI [OF _ r(1)], intro conjI)
qed

lemma unblocked_ok:
  assumes "run_deletes pre db = Inr (ns, db1)" "unblocked pre s db"
  shows "\<exists>n db2. delete_rows (selects s) db1 = Inr (n, db2)"
proof -
  obtain l tb cs vs where s: "s = (l, tb, cs, vs)" by (cases s)
  let ?ids = "map rw_id (filter (selects s) db1)"
  have "absent child c ?ids db1" if b: "(child, c) \<in> set (blockers tb)" for child c
    unfolding absent_def
  proof (intro ballI impI notI)
    fix r' assume r': "r' \<in> set db1" "rw_table r' = child" "col c r' \<in> Some ` set ?ids"
    then obtain v' where v': "v' \<in> set db1" "selects s v'" "col c r' = Some (rw_id v')" by auto
    obtain v where v: "v \<in> set db" "selects s v" "rw_id v = rw_id v'" using selects_descends [OF run_descends [OF assms(1)] v'(1,2)] by blast
    obtain r where r: "r \<in> set db" "rw_table r' = rw_table r" "col c r' = col c r \<or> col c r' = None" "\<not> deletes_row pre r"
      using deleted_row_absent [OF assms(1) r'(1)] by blast
    then have "rw_table r = child" "col c r = Some (rw_id v)" using r'(2) v'(3) v(3) by auto
    then show False using assms(2) b r(1,4) v(1,2) unfolding unblocked_def s by fastforce
  qed
  then show ?thesis using selects_table unfolding s by (intro delete_ok [of db1 _ tb ?ids]) (auto simp: s)
qed

lemma in_order_ok: "run_deletes pre db = Inr (ns, db1) \<Longrightarrow> in_order pre ss db \<Longrightarrow> \<exists>ms db2. run_deletes (pre @ ss) db = Inr (ms, db2)"
proof (induction ss arbitrary: pre ns db1)
  case (Cons s ss)
  have "unblocked pre s db" using Cons.prems(2) by simp
  then obtain n db2 where "delete_rows (selects s) db1 = Inr (n, db2)" using unblocked_ok [OF Cons.prems(1)] by blast
  from Cons.IH [OF run_snoc [OF Cons.prems(1) this]] Cons.prems(2) show ?case by simp
qed auto

lemmas run_in_order = in_order_ok [of "[]" db "[]" db for db, simplified]

lemma blockers_of:
  "blockers ''User'' = [(''Contact'', ''ownerUserId''), (''Goal'', ''userId''), (''AutosaveConfig'', ''userId''), (''Account'', ''userId''),
     (''Device'', ''userId''), (''Session'', ''userId''), (''MfaChallenge'', ''userId''), (''PasswordResetChallenge'', ''userId''), (''KycRecord'', ''userId'')]"
  "blockers ''Account'' = [(''Card'', ''accountId''), (''Transaction'', ''accountId''), (''AccountLimits'', ''accountId'')]"
  "blockers ''Device'' = [(''Session'', ''deviceId'')]" "blockers ''SignupSession'' = [(''Verification'', ''signupSessionId'')]"
  "blockers ''Transaction'' = [(''TransactionOverride'', ''transactionId'')]"
  by code_simp+

lemma blockers_none:
  "blockers ''TransactionOverride'' = []" "blockers ''Transfer'' = []" "blockers ''Statement'' = []" "blockers ''Card'' = []" "blockers ''AccountLimits'' = []"
  "blockers ''Session'' = []" "blockers ''Verification'' = []"
  by code_simp+

lemma owned_free: "list_all (\<lambda>s. blockers (fst (snd s)) = []) (owned_deletes u)"
proof -
  have "list_all (\<lambda>tb. blockers tb = []) [''CardOrder'', ''ActivatedDeal'', ''AutosaveConfig'', ''BiometricChallenge'', ''BiometricEnrollment'', ''CheckDeposit'', ''Contact'',
      ''DirectDeposit'', ''Document'', ''Goal'', ''IdempotencyKey'', ''KycRecord'', ''LinkedAccount'', ''MfaChallenge'', ''Notification'', ''NotificationPreference'',
      ''PaymentRequest'', ''RecurringTransfer'', ''Referral'', ''RoundUpLedger'', ''TaxForm'', ''TotpSecret'', ''UserPreference'', ''SupportThread'']"
    by code_simp
  then show ?thesis by (simp add: owned_deletes_def)
qed

lemma nullable_cases:
  "nullable tb c \<Longrightarrow> (tb, c) \<in> set [(''DirectDeposit'', ''employerId''), (''Deal'', ''merchantId''), (''Transaction'', ''merchantId''), (''Document'', ''ownerSignupId''), (''Document'', ''ownerUserId'')]"
proof -
  have "list_all (\<lambda>(t, k, p, a). a = SetNull \<longrightarrow> (t, k) \<in> set [(''DirectDeposit'', ''employerId''), (''Deal'', ''merchantId''), (''Transaction'', ''merchantId''),
      (''Document'', ''ownerSignupId''), (''Document'', ''ownerUserId'')]) foreign_keys"
    by code_simp
  then show "nullable tb c \<Longrightarrow> ?thesis" unfolding nullable_def list_all_iff by fastforce
qed

lemma not_nullable [simp]: "\<not> nullable tb ''userId''" "\<not> nullable tb ''accountId''" "\<not> nullable tb ''transactionId''" "\<not> nullable tb ''signupSessionId''" "\<not> nullable ''Contact'' c"
  by (auto dest: nullable_cases)

lemma in_order_append: "in_order pre (ss @ ts) db \<longleftrightarrow> in_order pre ss db \<and> in_order (pre @ ss) ts db"
  by (induction ss arbitrary: pre) auto

lemma unblocked_free [simp]: "blockers (fst (snd s)) = [] \<Longrightarrow> unblocked pre s db"
  by (simp add: unblocked_def)

lemma in_order_free: "\<forall>s \<in> set ss. blockers (fst (snd s)) = [] \<Longrightarrow> in_order pre ss db"
  by (induction ss arbitrary: pre) auto

lemma deletes_rowI: "(l, rw_table r, cs, vs) \<in> set ss \<Longrightarrow> c \<in> set cs \<Longrightarrow> c \<noteq> ''id'' \<Longrightarrow> \<not> nullable (rw_table r) c \<Longrightarrow> col c r = Some v \<Longrightarrow> v \<in> set vs \<Longrightarrow> deletes_row ss r"
  unfolding deletes_row_def by blast

lemma ids_where_iff: "k \<in> set (ids_where tb c vs db) \<longleftrightarrow> (\<exists>r \<in> set db. rw_table r = tb \<and> col c r \<in> Some ` set vs \<and> rw_id r = k)"
  by (auto simp: ids_where_def)

text \<open>A session belongs to the owner of its device.\<close>

definition device_owner :: "db \<Rightarrow> bool" where
  "device_owner db = (\<forall>s \<in> set db. \<forall>d \<in> set db. rw_table s = ''Session'' \<and> rw_table d = ''Device'' \<and> col ''deviceId'' s = Some (rw_id d) \<longrightarrow> col ''userId'' s = col ''userId'' d)"

lemma account_rows_in_order: "in_order [] (account_deletes accountIds (ids_where ''Transaction'' ''accountId'' accountIds db)) db"
proof -
  let ?o = "(''transactionOverrides'', ''TransactionOverride'', [''transactionId''], ids_where ''Transaction'' ''accountId'' accountIds db)"
  have "unblocked [?o, t] (''transactions'', ''Transaction'', [''accountId''], accountIds) db" for t
    unfolding unblocked_def
    by (auto simp: blockers_of selects_def ids_where_iff intro!: deletes_rowI [of "fst ?o" _ "[''transactionId'']" "snd (snd (snd ?o))" _ "''transactionId''"] bexI)
  then show ?thesis by (simp add: account_deletes_def blockers_none)
qed

lemma owned_rows_in_order: "in_order pre (owned_deletes u) db"
  using owned_free by (intro in_order_free) (auto simp: list_all_iff)

lemma accounts_unblocked:
  assumes "set (account_deletes (ids_where ''Account'' ''userId'' [u] db) txnIds) \<subseteq> set pre"
  shows "unblocked pre (''accounts'', ''Account'', [''userId''], [u]) db"
proof -
  let ?ids = "ids_where ''Account'' ''userId'' [u] db"
  have s: "(''cards'', ''Card'', [''accountId''], ?ids) \<in> set pre" "(''transactions'', ''Transaction'', [''accountId''], ?ids) \<in> set pre"
      "(''accountLimits'', ''AccountLimits'', [''accountId''], ?ids) \<in> set pre"
    using assms by (auto simp: account_deletes_def)
  have "deletes_row pre r"
    if "(rw_table r, c) \<in> set (blockers ''Account'')" "v \<in> set db" "selects (''accounts'', ''Account'', [''userId''], [u]) v" "col c r = Some (rw_id v)" for r c v
  proof -
    have "rw_id v \<in> set ?ids" using that(2,3) by (auto simp: selects_def ids_where_iff)
    then show ?thesis using s that(1,4) by (auto simp: blockers_of intro: deletes_rowI)
  qed
  then show ?thesis unfolding unblocked_def by auto
qed

lemma devices_unblocked:
  assumes "(''sessions'', ''Session'', [''userId''], [u]) \<in> set pre" "device_owner db"
  shows "unblocked pre (''devices'', ''Device'', [''userId''], [u]) db"
proof -
  have "deletes_row pre r"
    if "r \<in> set db" "rw_table r = ''Session''" "v \<in> set db" "selects (''devices'', ''Device'', [''userId''], [u]) v" "col ''deviceId'' r = Some (rw_id v)" for r v
  proof -
    have "col ''userId'' r = Some u" using that assms(2) unfolding device_owner_def by (auto simp: selects_def)
    then show ?thesis using assms(1) that(2) by (auto simp: intro: deletes_rowI)
  qed
  then show ?thesis unfolding unblocked_def by (auto simp: blockers_of)
qed

lemma user_unblocked:
  assumes "set (owned_deletes u) \<subseteq> set pre" "{(''accounts'', ''Account'', [''userId''], [u]), (''sessions'', ''Session'', [''userId''], [u]), (''devices'', ''Device'', [''userId''], [u])} \<subseteq> set pre"
    "absent ''PasswordResetChallenge'' ''userId'' [u] db"
  shows "unblocked pre (''user'', ''User'', [''id''], [u]) db"
proof -
  have s: "(''contacts'', ''Contact'', [''ownerUserId''], [u]) \<in> set pre" "(''goals'', ''Goal'', [''userId''], [u]) \<in> set pre"
      "(''autosaveConfigs'', ''AutosaveConfig'', [''userId''], [u]) \<in> set pre" "(''mfaChallenges'', ''MfaChallenge'', [''userId''], [u]) \<in> set pre"
      "(''kycRecords'', ''KycRecord'', [''userId''], [u]) \<in> set pre"
    using assms(1) by (auto simp: owned_deletes_def)
  have "deletes_row pre r"
    if "r \<in> set db" "(rw_table r, c) \<in> set (blockers ''User'')" "selects (''user'', ''User'', [''id''], [u]) v" "col c r = Some (rw_id v)" for r c v
  proof -
    have "rw_id v = u" using that(3) by (auto simp: selects_def)
    then show ?thesis using that(1,2,4) s assms(2,3) by (auto simp: blockers_of absent_def intro: deletes_rowI)
  qed
  then show ?thesis unfolding unblocked_def by auto
qed

lemma user_rows_in_order:
  assumes "device_owner db" "absent ''PasswordResetChallenge'' ''userId'' [u] db"
  shows "in_order [] (account_deletes (ids_where ''Account'' ''userId'' [u] db) (ids_where ''Transaction'' ''accountId'' (ids_where ''Account'' ''userId'' [u] db) db) @
           owned_deletes u @ identity_deletes u) db"
proof -
  let ?as = "account_deletes (ids_where ''Account'' ''userId'' [u] db) (ids_where ''Transaction'' ''accountId'' (ids_where ''Account'' ''userId'' [u] db) db)"
  let ?a = "(''accounts'', ''Account'', [''userId''], [u])" and ?s = "(''sessions'', ''Session'', [''userId''], [u])" and ?d = "(''devices'', ''Device'', [''userId''], [u])"
  have "unblocked (?as @ owned_deletes u) ?a db"
    by (rule accounts_unblocked [of u db "ids_where ''Transaction'' ''accountId'' (ids_where ''Account'' ''userId'' [u] db) db"]) simp
  moreover have "unblocked (?as @ owned_deletes u @ [?a, ?s]) ?d db" by (rule devices_unblocked [OF _ assms(1)]) simp
  moreover have "unblocked (?as @ owned_deletes u @ [?a, ?s, ?d]) (''user'', ''User'', [''id''], [u]) db" by (rule user_unblocked [OF _ _ assms(2)]) auto
  ultimately show ?thesis using account_rows_in_order owned_rows_in_order by (simp add: in_order_append identity_deletes_def blockers_none)
qed

lemma signups_in_order: "in_order [] (signup_deletes email (ids_where ''SignupSession'' ''email'' [email] db)) db"
proof -
  let ?v = "(''verifications'', ''Verification'', [''signupSessionId''], ids_where ''SignupSession'' ''email'' [email] db)"
  have "deletes_row [?v] r"
    if "rw_table r = ''Verification''" "v \<in> set db" "selects (''signupSessions'', ''SignupSession'', [''email''], [email]) v" "col ''signupSessionId'' r = Some (rw_id v)" for r v
  proof -
    have "rw_id v \<in> set (ids_where ''SignupSession'' ''email'' [email] db)" using that(2,3) by (auto simp: selects_def ids_where_iff)
    then show ?thesis using that(1,4) by (auto intro: deletes_rowI)
  qed
  then have "unblocked [?v] (''signupSessions'', ''SignupSession'', [''email''], [email]) db" unfolding unblocked_def by (auto simp: blockers_of)
  then show ?thesis by (simp add: signup_deletes_def blockers_none)
qed

lemma delete_user_rows_ok:
  assumes "device_owner db" "absent ''PasswordResetChallenge'' ''userId'' [u] db"
  shows "is_ok (delete_user_rows (ids_where ''Account'' ''userId'' [u] db) u email db)"
proof -
  obtain ns db1 where 1: "run_deletes (account_deletes (ids_where ''Account'' ''userId'' [u] db) (ids_where ''Transaction'' ''accountId'' (ids_where ''Account'' ''userId'' [u] db) db) @
      owned_deletes u @ identity_deletes u) db = Inr (ns, db1)"
    using run_in_order [OF user_rows_in_order [OF assms]] by blast
  obtain ms db2 where "run_deletes (signup_deletes email (ids_where ''SignupSession'' ''email'' [email] db1)) db1 = Inr (ms, db2)"
    using run_in_order [OF signups_in_order] by blast
  then show ?thesis using 1 by (simp add: delete_user_rows_def is_ok_def)
qed

section \<open>What stays\<close>

text \<open>A row of a table that no statement names and no cascade reaches stays, with its keys.\<close>

definition stays :: "db_row \<Rightarrow> db \<Rightarrow> bool" where
  "stays r db = (\<exists>r' \<in> set db. rw_table r' = rw_table r \<and> (\<forall>c. \<not> nullable (rw_table r) c \<longrightarrow> col c r' = col c r))"

lemma delete_stays:
  assumes "delete_rows P db = Inr (n, db')" "stays r db" "\<And>x. P x \<Longrightarrow> rw_table x \<noteq> rw_table r" "\<And>c p. (rw_table r, c, p, Cascade) \<notin> set foreign_keys"
  shows "stays r db'"
proof -
  obtain vs where v: "vs = cascaded (length db) db (filter P db)" "db' = map (clear_names vs) (filter (\<lambda>r. r \<notin> set vs) db)"
    using assms(1) by (rule delete_rows_Inr)
  obtain x where x: "x \<in> set db" "rw_table x = rw_table r" "\<And>c. \<not> nullable (rw_table r) c \<Longrightarrow> col c x = col c r" using assms(2) unfolding stays_def by blast
  have "x \<notin> set vs" using cascaded_tables [of x "length db" db "filter P db"] assms(3,4) x(2) unfolding v(1) by auto
  then have "clear_names vs x \<in> set db'" using x(1) unfolding v(2) by simp
  moreover have "col c (clear_names vs x) = col c r" if "\<not> nullable (rw_table r) c" for c
    using that x(2) x(3) [OF that] unfolding col_clear names_in_iff nullable_def by auto
  ultimately show ?thesis unfolding stays_def using x(2) by (intro bexI [of _ "clear_names vs x"]) simp_all
qed

lemma run_stays:
  assumes "run_deletes ss db = Inr (ns, db')" "stays r db" "\<And>s. s \<in> set ss \<Longrightarrow> fst (snd s) \<noteq> rw_table r" "\<And>c p. (rw_table r, c, p, Cascade) \<notin> set foreign_keys"
  shows "stays r db'"
  using assms(1-3)
proof (induction ss arbitrary: ns db)
  case (Cons s ss)
  obtain l tb cs vs where s: "s = (l, tb, cs, vs)" by (cases s)
  obtain n db1 ns1 where d: "delete_rows (selects s) db = Inr (n, db1)" "run_deletes ss db1 = Inr (ns1, db')" using Cons.prems(1) by (auto simp: err_simps)
  have "rw_table x \<noteq> rw_table r" if "selects s x" for x using that selects_table Cons.prems(3) [of s] unfolding s by auto
  then have "stays r db1" using delete_stays [OF d(1) Cons.prems(2)] assms(4) by blast
  then show ?case using Cons.IH [OF d(2)] Cons.prems(3) by simp
qed simp

lemma reset_untouched:
  "s \<in> set (account_deletes as ts @ owned_deletes u @ identity_deletes u) \<Longrightarrow> fst (snd s) \<noteq> ''PasswordResetChallenge''"
  "s \<in> set (signup_deletes email ids) \<Longrightarrow> fst (snd s) \<noteq> ''PasswordResetChallenge''"
  by (auto simp: account_deletes_def owned_deletes_def identity_deletes_def signup_deletes_def)

lemma reset_key: "(''PasswordResetChallenge'', ''userId'', ''User'', Restrict) \<in> set foreign_keys" "(''PasswordResetChallenge'', c, p, Cascade) \<notin> set foreign_keys"
  by (auto simp: foreign_keys_def)

text \<open>After a successful deletion the row of the user is gone and no key dangles.\<close>

lemma delete_user_rows_done:
  assumes "delete_user_rows accountIds u email db = Inr (counts, db')"
  shows "integrity db \<Longrightarrow> integrity db'" "\<forall>r \<in> set db'. \<not> (rw_table r = ''User'' \<and> rw_id r = u)"
    "stays r db \<Longrightarrow> rw_table r = ''PasswordResetChallenge'' \<Longrightarrow> stays r db'"
proof -
  let ?ss = "account_deletes accountIds (ids_where ''Transaction'' ''accountId'' accountIds db) @ owned_deletes u @ identity_deletes u"
  obtain ns db1 ms where 1: "run_deletes ?ss db = Inr (ns, db1)" and 2: "run_deletes (signup_deletes email (ids_where ''SignupSession'' ''email'' [email] db1)) db1 = Inr (ms, db')"
    using assms unfolding delete_user_rows_def by (auto simp: err_simps)
  show "integrity db \<Longrightarrow> integrity db'" using run_integrity [OF 1] run_integrity [OF 2] by blast
  show "stays r db \<Longrightarrow> rw_table r = ''PasswordResetChallenge'' \<Longrightarrow> stays r db'"
    using run_stays [OF 1, of r] run_stays [OF 2, of r] reset_untouched reset_key(2) by metis
  obtain ps db0 n where 3: "delete_rows (selects (''user'', ''User'', [''id''], [u])) db0 = Inr (n, db1)"
  proof -
    have "?ss = (account_deletes accountIds (ids_where ''Transaction'' ''accountId'' accountIds db) @ owned_deletes u @
        [(''accounts'', ''Account'', [''userId''], [u]), (''sessions'', ''Session'', [''userId''], [u]), (''devices'', ''Device'', [''userId''], [u])]) @ [(''user'', ''User'', [''id''], [u])]"
      by (simp add: identity_deletes_def)
    from 1 [unfolded this run_append [of "_ @ _" "[_]"]] show ?thesis using that by (auto simp: err_simps)
  qed
  have "descends db' db1" using run_descends [OF 2] .
  have gone: "\<not> (rw_table x = ''User'' \<and> rw_id x = u)" if "x \<in> set db1" for x
    using selected_gone [OF 3 that] by (auto simp: selects_def)
  show "\<forall>r \<in> set db'. \<not> (rw_table r = ''User'' \<and> rw_id r = u)"
  proof
    fix x assume "x \<in> set db'"
    then obtain y where "y \<in> set db1" "rw_table x = rw_table y" "rw_id x = rw_id y" using \<open>descends db' db1\<close> unfolding descends_def by blast
    then show "\<not> (rw_table x = ''User'' \<and> rw_id x = u)" using gone [of y] by simp
  qed
qed

lemma open_reset_blocks:
  assumes "delete_user_rows accountIds u email db = Inr (counts, db')" "integrity db"
  shows "absent ''PasswordResetChallenge'' ''userId'' [u] db"
  unfolding absent_def
proof (intro ballI impI notI)
  fix r assume r: "r \<in> set db" "rw_table r = ''PasswordResetChallenge''" "col ''userId'' r \<in> Some ` set [u]"
  have "stays r db" using r(1) unfolding stays_def by blast
  then have "stays r db'" using delete_user_rows_done(3) [OF assms(1)] r(2) by blast
  then obtain x where x: "x \<in> set db'" "rw_table x = ''PasswordResetChallenge''" "col ''userId'' x = Some u" using r(2,3) unfolding stays_def by auto
  have "\<exists>p \<in> set db'. rw_table p = ''User'' \<and> rw_id p = u"
    using integrityD [OF delete_user_rows_done(1) [OF assms(1,2)] x(1) _ x(3), of "''User''" Restrict] reset_key(1) x(2) by simp
  then show False using delete_user_rows_done(2) [OF assms(1)] by blast
qed

section \<open>The outcome of a deletion\<close>

lemma hardDelete_ok_iff:
  assumes "integrity (dd_rows st)" "device_owner (dd_rows st)" "actorRole = ''admin'' \<or> actorRole = ''superadmin''" "actor \<noteq> u"
    "find_first (\<lambda>r. rw_table r = ''User'' \<and> rw_id r = u) (dd_rows st) = Some t"
    "actorRole = ''superadmin'' \<or> text_col ''role'' t \<noteq> ''admin'' \<and> text_col ''role'' t \<noteq> ''superadmin''"
    "to_lower (js_trim confirmation) = to_lower (js_trim (text_col ''email'' t))" "to_lower (js_trim confirmation) \<noteq> ''''"
  shows "is_ok (hardDelete now actor actorRole u (Some confirmation) reason st) \<longleftrightarrow> absent ''PasswordResetChallenge'' ''userId'' [u] (dd_rows st)"
proof -
  let ?d = "delete_user_rows (ids_where ''Account'' ''userId'' [u] (dd_rows st)) u (text_col ''email'' t) (dd_rows st)"
  have "is_ok (hardDelete now actor actorRole u (Some confirmation) reason st) \<longleftrightarrow> is_ok ?d"
    using assms(3-8) by (cases ?d) (auto simp: hardDelete_def Let_def is_ok_def require_def or_throw_def)
  also have "\<dots> \<longleftrightarrow> absent ''PasswordResetChallenge'' ''userId'' [u] (dd_rows st)"
    using delete_user_rows_ok [OF assms(2), of u "text_col ''email'' t"] open_reset_blocks [OF _ assms(1)] by (cases ?d) (auto simp: is_ok_def)
  finally show ?thesis .
qed

text \<open>C38. An administrator who may delete the user and confirms with his e-mail succeeds exactly when the user never asked for a
  password reset: every other row that points at the user, at his accounts, their transactions or his devices is deleted
  in an order that no foreign key blocks, but no statement names the reset challenges, whose key to the user restricts.\<close>

theorem deletion_succeeds_iff_no_reset:
  assumes "integrity (dd_rows st)" "device_owner (dd_rows st)" "actorRole = ''admin'' \<or> actorRole = ''superadmin''" "actor \<noteq> u"
    "find_first (\<lambda>r. rw_table r = ''User'' \<and> rw_id r = u) (dd_rows st) = Some t"
    "actorRole = ''superadmin'' \<or> text_col ''role'' t \<noteq> ''admin'' \<and> text_col ''role'' t \<noteq> ''superadmin''"
    "to_lower (js_trim confirmation) = to_lower (js_trim (text_col ''email'' t))" "to_lower (js_trim confirmation) \<noteq> ''''"
  shows "is_ok (hardDelete now actor actorRole u (Some confirmation) reason st) \<longleftrightarrow> absent ''PasswordResetChallenge'' ''userId'' [u] (dd_rows st)"
  using assms by (rule hardDelete_ok_iff)

text \<open>A deletion that succeeds leaves no dangling key: the user's row is gone, and no remaining row has a foreign key that names him.\<close>

theorem deleted_user_leaves_no_key:
  assumes "hardDelete now actor actorRole u confirmation reason st = Inr (counts, st')" "integrity (dd_rows st)"
  shows "integrity (dd_rows st') \<and> (\<forall>r \<in> set (dd_rows st'). \<not> (rw_table r = ''User'' \<and> rw_id r = u)) \<and>
    (\<forall>r \<in> set (dd_rows st'). \<forall>(child, c, parent, a) \<in> set foreign_keys. rw_table r = child \<and> parent = ''User'' \<longrightarrow> col c r \<noteq> Some u)"
proof -
  obtain as email where d: "delete_user_rows as u email (dd_rows st) = Inr (counts, dd_rows st')"
    using assms(1) unfolding hardDelete_def Let_def by (auto simp: err_simps)
  note finished = delete_user_rows_done [OF d]
  have i: "integrity (dd_rows st')" using finished(1) assms(2) .
  have g: "\<forall>r \<in> set (dd_rows st'). \<not> (rw_table r = ''User'' \<and> rw_id r = u)" by (rule finished(2))
  have "\<forall>r \<in> set (dd_rows st'). \<forall>(child, c, parent, a) \<in> set foreign_keys. rw_table r = child \<and> parent = ''User'' \<longrightarrow> col c r \<noteq> Some u"
    using integrityD [OF i] g by blast
  then show ?thesis using i g by blast
qed

end
