(* ===== verification/Realtime.thy ===== *)
theory Realtime
  imports Auth_Schema Js_Date
begin

text \<open>
  The realtime gateway (\<^verbatim>\<open>realtime/realtime.gateway.ts\<close>): sockets connect with a token, are put into rooms
  that are named after their user, session or guest thread, and receive what the event handlers emit to a room. The
  state is the set of connected sockets with their rooms, the presence of administrators, and what has been sent to
  which socket. Which sockets are in a room is what socket.io keeps; the gateway only joins.
\<close>

section \<open>Sockets, rooms and presence\<close>

text \<open>The handshake: the two tokens of the \<open>auth\<close> object, the authorization header and the cookie header.\<close>

record handshake =
  hs_guestToken :: "string option"
  hs_token :: "string option"
  hs_authorization :: "string option"
  hs_cookie :: "string option"

record socket =
  sk_id :: string
  sk_userId :: "string option"
  sk_sessionId :: "string option"
  sk_role :: "string option"
  sk_guest :: bool
  sk_guestThreadId :: "string option"
  sk_rooms :: "string list"

datatype presence = Online | Away | Offline

record presence_entry =
  pe_status :: presence
  pe_sockets :: "string list"
  pe_updatedAt :: int

text \<open>What goes over the wire; times are printed as ISO strings.\<close>

datatype wire =
    WPresenceChanged presence
  | WSessionRevoked string string string string
      \<comment> \<open>session, user, reason, time\<close>
  | WTransactionCreated string string string int tx_status string "(string \<times> tx_category \<times> string) option"
      \<comment> \<open>user, account, transaction, amount, status, time, display fields\<close>
  | WTransactionSettled string string string string int string
  | WTransactionUpdated string string string "effective_fields option" bool string
  | WBalanceChanged string string int string
  | WLinkedAccountChanged string string string string
      \<comment> \<open>user, request, what happened, time\<close>
  | WNotificationCreated string string string string string "string option" string
      \<comment> \<open>user, notification, category, title, body, link, time\<close>
  | WNotificationRead string "string list" string
  | WAdminMessage string string string string string
      \<comment> \<open>user, message, title, body, time\<close>
  | WSupportMessage string string string
      \<comment> \<open>thread, message, time\<close>
  | WThreadClosed string string
  | WMessagesRead string "string option" "string list" string
  | WTyping string bool string string
      \<comment> \<open>thread, typing, role of the sender, time\<close>
  | WQueueChanged int int string
      \<comment> \<open>change of the identity queue, of the review queue, time\<close>

record gateway =
  gw_sockets :: "socket list"
  gw_presence :: "(string option \<times> presence_entry) list"
  gw_sent :: "(socket \<times> wire) list"

text \<open>The rooms. A claim that is absent prints as \<open>undefined\<close>.\<close>

definition tpl :: "string option \<Rightarrow> string" where
  "tpl v = (case v of None \<Rightarrow> ''undefined'' | Some x \<Rightarrow> x)"

definition user_room :: "string option \<Rightarrow> string" where "user_room u = ''user:'' @ tpl u"
definition session_room :: "string option \<Rightarrow> string" where "session_room s = ''session:'' @ tpl s"
definition guest_room :: "string option \<Rightarrow> string" where "guest_room t = ''support:guest:'' @ tpl t"
definition admins_room :: string where "admins_room = ''support:admins''"

text \<open>\<open>server.to(room).emit\<close>, \<open>server.emit\<close>, \<open>client.emit\<close>.\<close>

definition emit_to :: "string \<Rightarrow> wire \<Rightarrow> gateway \<Rightarrow> gateway" where
  "emit_to room w g = g\<lparr>gw_sent := gw_sent g @ map (\<lambda>s. (s, w)) (filter (\<lambda>s. room \<in> set (sk_rooms s)) (gw_sockets g))\<rparr>"

definition emit_all :: "wire \<Rightarrow> gateway \<Rightarrow> gateway" where
  "emit_all w g = g\<lparr>gw_sent := gw_sent g @ map (\<lambda>s. (s, w)) (gw_sockets g)\<rparr>"

section \<open>Presence\<close>

definition is_admin_role :: "string option \<Rightarrow> bool" where
  "is_admin_role r = (r = Some ''admin'' \<or> r = Some ''superadmin'')"

text \<open>The aggregate is computed in a loop that returns at the first administrator who is online.\<close>

fun scan_presence :: "bool \<Rightarrow> (string option \<times> presence_entry) list \<Rightarrow> presence" where
  "scan_presence hasAway [] = (if hasAway then Away else Offline)"
| "scan_presence hasAway (e # es) = (if pe_status (snd e) = Online then Online else scan_presence True es)"

definition computePresence :: "gateway \<Rightarrow> presence" where
  "computePresence g = (if gw_presence g = [] then Offline else scan_presence False (gw_presence g))"

definition broadcastPresence :: "gateway \<Rightarrow> gateway" where
  "broadcastPresence g = emit_all (WPresenceChanged (computePresence g)) g"

text \<open>A JavaScript map: a new key goes to the end, an old one keeps its place.\<close>

fun map_put :: "'k \<Rightarrow> 'v \<Rightarrow> ('k \<times> 'v) list \<Rightarrow> ('k \<times> 'v) list" where
  "map_put k v [] = [(k, v)]"
| "map_put k v (e # es) = (if fst e = k then (k, v) # es else e # map_put k v es)"

definition map_drop :: "'k \<Rightarrow> ('k \<times> 'v) list \<Rightarrow> ('k \<times> 'v) list" where
  "map_drop k es = filter (\<lambda>e. fst e \<noteq> k) es"

section \<open>Connections\<close>

text \<open>The cookie \<open>access_token\<close>: the text after the first occurrence that stands at the start or after a semicolon
  and white space, up to the next semicolon, at least one character.\<close>

definition cookie_here :: "string \<Rightarrow> string option" where
  "cookie_here s = (if starts_with ''access_token='' s \<and> takeWhile (\<lambda>c. c \<noteq> CHR '';'') (drop 13 s) \<noteq> ''''
     then Some (takeWhile (\<lambda>c. c \<noteq> CHR '';'') (drop 13 s)) else None)"

fun cookie_after :: "string \<Rightarrow> string option" where
  "cookie_after [] = None"
| "cookie_after (c # s) =
     (if c = CHR '';'' then (case cookie_here (dropWhile is_space s) of Some v \<Rightarrow> Some v | None \<Rightarrow> cookie_after s) else cookie_after s)"

definition access_cookie :: "string \<Rightarrow> string option" where
  "access_cookie s = (case cookie_here s of Some v \<Rightarrow> Some v | None \<Rightarrow> cookie_after s)"

text \<open>\<open>decodeURIComponent\<close> is a parameter; it raises on a malformed escape.\<close>

definition extractToken :: "(string \<Rightarrow> string option) \<Rightarrow> handshake \<Rightarrow> string option result" where
  "extractToken decode hs =
     (if hs_authorization hs \<noteq> None \<and> starts_with ''Bearer '' (the (hs_authorization hs)) then Inr (Some (drop 7 (the (hs_authorization hs))))
      else if truthy_str (hs_token hs) then Inr (hs_token hs)
      else if truthy_str (hs_cookie hs) then
        (case access_cookie (the (hs_cookie hs)) of
           None \<Rightarrow> Inr None
         | Some v \<Rightarrow> or_throw (PlainError ''URI malformed'') (map_option Some (decode v)))
      else Inr None)"

definition bare_socket :: "string \<Rightarrow> socket" where
  "bare_socket i = \<lparr>sk_id = i, sk_userId = None, sk_sessionId = None, sk_role = None, sk_guest = False, sk_guestThreadId = None, sk_rooms = []\<rparr>"

definition join :: "string \<Rightarrow> socket \<Rightarrow> socket" where
  "join room s = s\<lparr>sk_rooms := sk_rooms s @ [room]\<rparr>"

text \<open>The socket of an accepted guest, \<open>None\<close> where the code returns false.\<close>

definition tryGuestConnection :: "crypto \<Rightarrow> int \<Rightarrow> handshake \<Rightarrow> socket \<Rightarrow> socket option" where
  "tryGuestConnection lib now hs s =
     (if \<not> truthy_str (hs_guestToken hs) then None
      else case verifyGuestSupport lib now (the (hs_guestToken hs)) of
        None \<Rightarrow> None
      | Some c \<Rightarrow> Some (join (guest_room (jc_tid c)) (s\<lparr>sk_guest := True, sk_guestThreadId := jc_tid c\<rparr>)))"

definition set_add :: "'a \<Rightarrow> 'a list \<Rightarrow> 'a list" where
  "set_add x xs = (if x \<in> set xs then xs else xs @ [x])"

text \<open>A refused socket is disconnected (\<open>client.disconnect(true)\<close>) and leaves no trace.\<close>

definition accept :: "socket \<Rightarrow> gateway \<Rightarrow> gateway" where
  "accept s g = g\<lparr>gw_sockets := gw_sockets g @ [s]\<rparr>"

definition handleConnection :: "crypto \<Rightarrow> (string \<Rightarrow> string option) \<Rightarrow> int \<Rightarrow> string \<Rightarrow> handshake \<Rightarrow> gateway \<Rightarrow> gateway" where
  "handleConnection lib decode now i hs g =
     (let s = bare_socket i; guest = (case tryGuestConnection lib now hs s of None \<Rightarrow> g | Some s' \<Rightarrow> accept s' g) in
      if truthy_str (hs_guestToken hs) then guest
      else case extractToken decode hs of
        Inl _ \<Rightarrow> g
      | Inr token \<Rightarrow>
          if \<not> truthy_str token then guest
          else case cr_verify lib now (the token) of
            None \<Rightarrow> guest
          | Some c \<Rightarrow>
              let s1 = join (session_room (jc_sid c)) (join (user_room (jc_sub c)) (s\<lparr>sk_userId := jc_sub c, sk_sessionId := jc_sid c, sk_role := jc_role c\<rparr>)) in
              if is_admin_role (jc_role c) then
                (let g1 = accept (join admins_room s1) g;
                     entry = (case map_of (gw_presence g) (jc_sub c) of Some e \<Rightarrow> e | None \<Rightarrow> \<lparr>pe_status = Away, pe_sockets = [], pe_updatedAt = now\<rparr>) in
                 broadcastPresence (g1\<lparr>gw_presence := map_put (jc_sub c) (entry\<lparr>pe_sockets := set_add i (pe_sockets entry)\<rparr>) (gw_presence g)\<rparr>))
              else accept s1 g)"

text \<open>The socket has left its rooms when the handler runs.\<close>

definition handleDisconnect :: "socket \<Rightarrow> gateway \<Rightarrow> gateway" where
  "handleDisconnect s g0 =
     (let g = g0\<lparr>gw_sockets := filter (\<lambda>x. sk_id x \<noteq> sk_id s) (gw_sockets g0)\<rparr> in
      if truthy_str (sk_userId s) \<and> is_admin_role (sk_role s) then
        (case map_of (gw_presence g) (sk_userId s) of
           None \<Rightarrow> g
         | Some e \<Rightarrow>
             (let left = filter (\<lambda>x. x \<noteq> sk_id s) (pe_sockets e) in
              if left = [] then broadcastPresence (g\<lparr>gw_presence := map_drop (sk_userId s) (gw_presence g)\<rparr>)
              else g\<lparr>gw_presence := map_put (sk_userId s) (e\<lparr>pe_sockets := left\<rparr>) (gw_presence g)\<rparr>))
      else g)"

definition onAdminPresence :: "int \<Rightarrow> socket \<Rightarrow> string option \<Rightarrow> gateway \<Rightarrow> gateway" where
  "onAdminPresence now s status g =
     (if \<not> truthy_str (sk_userId s) \<or> \<not> is_admin_role (sk_role s) then g
      else if status \<noteq> Some ''online'' \<and> status \<noteq> Some ''away'' then g
      else
        (let new = (if status = Some ''online'' then Online else Away);
             e = (case map_of (gw_presence g) (sk_userId s) of Some e \<Rightarrow> e | None \<Rightarrow> \<lparr>pe_status = Away, pe_sockets = [sk_id s], pe_updatedAt = now\<rparr>) in
         if pe_status e = new then g
         else broadcastPresence (g\<lparr>gw_presence := map_put (sk_userId s) (e\<lparr>pe_status := new, pe_updatedAt := now\<rparr>) (gw_presence g)\<rparr>)))"

definition onPresenceQuery :: "socket \<Rightarrow> gateway \<Rightarrow> gateway" where
  "onPresenceQuery s g = g\<lparr>gw_sent := gw_sent g @ [(s, WPresenceChanged (computePresence g))]\<rparr>"

section \<open>Events of the services\<close>

definition onSessionRevoked :: "string \<Rightarrow> string \<Rightarrow> string \<Rightarrow> int \<Rightarrow> gateway \<Rightarrow> gateway" where
  "onSessionRevoked userId sessionId reason tm = emit_to (session_room (Some sessionId)) (WSessionRevoked sessionId userId reason (toISOString tm))"

definition onTransactionCreated :: "string \<Rightarrow> string \<Rightarrow> string \<Rightarrow> int \<Rightarrow> tx_status \<Rightarrow> int \<Rightarrow> (string \<times> tx_category \<times> string) option \<Rightarrow> gateway \<Rightarrow> gateway" where
  "onTransactionCreated u acct tx amount status tm display =
     emit_to (user_room (Some u)) (WTransactionCreated u acct tx amount status (toISOString tm) display)"

definition onTransactionSettled :: "string \<Rightarrow> string \<Rightarrow> string \<Rightarrow> string \<Rightarrow> int \<Rightarrow> int \<Rightarrow> gateway \<Rightarrow> gateway" where
  "onTransactionSettled u acct tx transferId amount tm = emit_to (user_room (Some u)) (WTransactionSettled u acct tx transferId amount (toISOString tm))"

definition onTransactionUpdated :: "string \<Rightarrow> string \<Rightarrow> string \<Rightarrow> effective_fields option \<Rightarrow> bool \<Rightarrow> int \<Rightarrow> gateway \<Rightarrow> gateway" where
  "onTransactionUpdated u acct tx eff hidden tm = emit_to (user_room (Some u)) (WTransactionUpdated u acct tx eff hidden (toISOString tm))"

definition onAccountBalanceChanged :: "string \<Rightarrow> string \<Rightarrow> int \<Rightarrow> int \<Rightarrow> gateway \<Rightarrow> gateway" where
  "onAccountBalanceChanged u acct balance tm = emit_to (user_room (Some u)) (WBalanceChanged u acct balance (toISOString tm))"

definition onLinkedAccountChanged :: "string \<Rightarrow> string \<Rightarrow> string \<Rightarrow> int \<Rightarrow> gateway \<Rightarrow> gateway" where
  "onLinkedAccountChanged u requestId kind tm = emit_to (user_room (Some u)) (WLinkedAccountChanged u requestId kind (toISOString tm))"

definition onNotificationCreated :: "string \<Rightarrow> string \<Rightarrow> string \<Rightarrow> string \<Rightarrow> string \<Rightarrow> string option \<Rightarrow> int \<Rightarrow> gateway \<Rightarrow> gateway" where
  "onNotificationCreated u n category title body cta tm =
     emit_to (user_room (Some u)) (WNotificationCreated u n category title body cta (toISOString tm))"

definition onNotificationRead :: "string \<Rightarrow> string list \<Rightarrow> int \<Rightarrow> gateway \<Rightarrow> gateway" where
  "onNotificationRead u ns tm = emit_to (user_room (Some u)) (WNotificationRead u ns (toISOString tm))"

definition onAdminMessage :: "string \<Rightarrow> string \<Rightarrow> string \<Rightarrow> string \<Rightarrow> int \<Rightarrow> gateway \<Rightarrow> gateway" where
  "onAdminMessage u m title body tm = emit_to (user_room (Some u)) (WAdminMessage u m title body (toISOString tm))"

text \<open>The customer's side of a thread: his own room, or the room of the guest.\<close>

definition customer_side :: "string option \<Rightarrow> string \<Rightarrow> string" where
  "customer_side customer threadId = (if truthy_str customer then user_room customer else guest_room (Some threadId))"

definition onSupportMessageCreated :: "string \<Rightarrow> string option \<Rightarrow> string \<Rightarrow> int \<Rightarrow> gateway \<Rightarrow> gateway" where
  "onSupportMessageCreated threadId customer message tm g =
     (let w = WSupportMessage threadId message (toISOString tm) in emit_to admins_room w (emit_to (customer_side customer threadId) w g))"

definition onSupportThreadClosed :: "string \<Rightarrow> string option \<Rightarrow> string \<Rightarrow> gateway \<Rightarrow> gateway" where
  "onSupportThreadClosed threadId customer closedAt g =
     (let w = WThreadClosed threadId closedAt in emit_to admins_room w (emit_to (customer_side customer threadId) w g))"

definition onSupportMessagesRead :: "string \<Rightarrow> string option \<Rightarrow> string list \<Rightarrow> string \<Rightarrow> gateway \<Rightarrow> gateway" where
  "onSupportMessagesRead threadId customer ms readAt = emit_to admins_room (WMessagesRead threadId customer ms readAt)"

text \<open>The payload of a typing message is what the client sent: the thread is \<open>None\<close> when it is missing or not a
  string, and the customer is the one an administrator names.\<close>

definition typing_role :: "socket \<Rightarrow> string" where
  "typing_role s = (if sk_guest s then ''guest'' else if is_admin_role (sk_role s) then ''admin'' else ''customer'')"

definition onTyping :: "int \<Rightarrow> socket \<Rightarrow> string option \<Rightarrow> bool \<Rightarrow> string option \<Rightarrow> gateway \<Rightarrow> gateway" where
  "onTyping now s thread isTyping customer g =
     (case thread of None \<Rightarrow> g
      | Some threadId \<Rightarrow>
          if \<not> sk_guest s \<and> (\<not> truthy_str (sk_role s) \<or> \<not> truthy_str (sk_userId s)) then g
          else
            (let w = WTyping threadId isTyping (typing_role s) (toISOString now) in
             if typing_role s = ''admin'' then emit_to (customer_side customer threadId) w g else emit_to admins_room w g))"

definition onAdminQueueChanged :: "int \<Rightarrow> int option \<Rightarrow> int option \<Rightarrow> gateway \<Rightarrow> gateway" where
  "onAdminQueueChanged now kyc review =
     emit_to admins_room (WQueueChanged (case kyc of None \<Rightarrow> 0 | Some d \<Rightarrow> d) (case review of None \<Rightarrow> 0 | Some d \<Rightarrow> d) (toISOString now))"

section \<open>Who hears what\<close>

text \<open>The rooms of a socket are those of the identity it connected with.\<close>

definition rooms_of :: "socket \<Rightarrow> string list" where
  "rooms_of s = (if sk_guest s then [guest_room (sk_guestThreadId s)]
     else [user_room (sk_userId s), session_room (sk_sessionId s)] @ (if is_admin_role (sk_role s) then [admins_room] else []))"

definition rooms_ok :: "gateway \<Rightarrow> bool" where
  "rooms_ok g = (\<forall>s \<in> set (gw_sockets g). sk_rooms s = rooms_of s)"

text \<open>To whom a message may go. A claim that was absent is read as the text it prints as.\<close>

definition hears :: "socket \<Rightarrow> wire \<Rightarrow> bool" where
  "hears s w = (case w of
       WPresenceChanged p \<Rightarrow> True
     | WSessionRevoked sid u r a \<Rightarrow> \<not> sk_guest s \<and> tpl (sk_sessionId s) = sid
     | WTransactionCreated u a t c st tm d \<Rightarrow> \<not> sk_guest s \<and> tpl (sk_userId s) = u
     | WTransactionSettled u a t tr c tm \<Rightarrow> \<not> sk_guest s \<and> tpl (sk_userId s) = u
     | WTransactionUpdated u a t e h tm \<Rightarrow> \<not> sk_guest s \<and> tpl (sk_userId s) = u
     | WBalanceChanged u a b tm \<Rightarrow> \<not> sk_guest s \<and> tpl (sk_userId s) = u
     | WLinkedAccountChanged u r k tm \<Rightarrow> \<not> sk_guest s \<and> tpl (sk_userId s) = u
     | WNotificationCreated u n c t b l tm \<Rightarrow> \<not> sk_guest s \<and> tpl (sk_userId s) = u
     | WNotificationRead u ns tm \<Rightarrow> \<not> sk_guest s \<and> tpl (sk_userId s) = u
     | WAdminMessage u m t b tm \<Rightarrow> \<not> sk_guest s \<and> tpl (sk_userId s) = u
     | WSupportMessage th m tm \<Rightarrow> sk_guest s \<longrightarrow> tpl (sk_guestThreadId s) = th
     | WThreadClosed th tm \<Rightarrow> sk_guest s \<longrightarrow> tpl (sk_guestThreadId s) = th
     | WTyping th b r tm \<Rightarrow> sk_guest s \<longrightarrow> tpl (sk_guestThreadId s) = th
     | WMessagesRead th c ms tm \<Rightarrow> \<not> sk_guest s \<and> is_admin_role (sk_role s)
     | WQueueChanged k r tm \<Rightarrow> \<not> sk_guest s \<and> is_admin_role (sk_role s))"

definition sent_ok :: "gateway \<Rightarrow> bool" where
  "sent_ok g = (\<forall>(s, w) \<in> set (gw_sent g). hears s w)"

lemmas room_names = user_room_def session_room_def guest_room_def admins_room_def

lemma room_members:
  "user_room (Some u) \<in> set (rooms_of s) \<longleftrightarrow> \<not> sk_guest s \<and> tpl (sk_userId s) = u"
  "session_room (Some u) \<in> set (rooms_of s) \<longleftrightarrow> \<not> sk_guest s \<and> tpl (sk_sessionId s) = u"
  "guest_room (Some u) \<in> set (rooms_of s) \<longleftrightarrow> sk_guest s \<and> tpl (sk_guestThreadId s) = u"
  "admins_room \<in> set (rooms_of s) \<longleftrightarrow> \<not> sk_guest s \<and> is_admin_role (sk_role s)"
  by (auto simp: rooms_of_def room_names tpl_def)

lemma customer_room_members:
  "customer_side c t \<in> set (rooms_of s) \<longleftrightarrow> (if truthy_str c then \<not> sk_guest s \<and> tpl (sk_userId s) = the c else sk_guest s \<and> tpl (sk_guestThreadId s) = t)"
  by (auto simp: customer_side_def truthy_str_iff room_members)

lemma emit_to_sel [simp]:
  "gw_sockets (emit_to r w g) = gw_sockets g" "gw_presence (emit_to r w g) = gw_presence g"
  "gw_sent (emit_to r w g) = gw_sent g @ map (\<lambda>s. (s, w)) (filter (\<lambda>s. r \<in> set (sk_rooms s)) (gw_sockets g))"
  by (simp_all add: emit_to_def)

lemma broadcast_sel [simp]:
  "gw_sockets (broadcastPresence g) = gw_sockets g" "gw_presence (broadcastPresence g) = gw_presence g"
  "gw_sent (broadcastPresence g) = gw_sent g @ map (\<lambda>s. (s, WPresenceChanged (computePresence g))) (gw_sockets g)"
  by (simp_all add: broadcastPresence_def emit_all_def)

lemma sent_ok_emit:
  assumes "rooms_ok g" "sent_ok g" "\<And>s. r \<in> set (rooms_of s) \<Longrightarrow> hears s w"
  shows "sent_ok (emit_to r w g)"
  using assms by (auto simp: sent_ok_def rooms_ok_def)

lemma rooms_ok_emit [simp]: "rooms_ok (emit_to r w g) = rooms_ok g"
  by (simp add: rooms_ok_def)

section \<open>Histories of the gateway\<close>

text \<open>Only access tokens carry a role, and they name their user.\<close>

definition admins_named :: "crypto \<Rightarrow> bool" where
  "admins_named lib = (\<forall>n t c. cr_verify lib n t = Some c \<and> is_admin_role (jc_role c) \<longrightarrow> truthy_str (jc_sub c))"

inductive gateway_step :: "crypto \<Rightarrow> (string \<Rightarrow> string option) \<Rightarrow> gateway \<Rightarrow> gateway \<Rightarrow> bool" for lib decode where
  gConnect: "admins_named lib \<Longrightarrow> i \<notin> sk_id ` set (gw_sockets g) \<Longrightarrow> gateway_step lib decode g (handleConnection lib decode now i hs g)"
| gDisconnect: "s \<in> set (gw_sockets g) \<Longrightarrow> gateway_step lib decode g (handleDisconnect s g)"
| gPresence: "s \<in> set (gw_sockets g) \<Longrightarrow> gateway_step lib decode g (onAdminPresence now s status g)"
| gQuery: "s \<in> set (gw_sockets g) \<Longrightarrow> gateway_step lib decode g (onPresenceQuery s g)"
| gTyping: "s \<in> set (gw_sockets g) \<Longrightarrow> gateway_step lib decode g (onTyping now s thread b customer g)"
| gSession: "gateway_step lib decode g (onSessionRevoked u sid reason tm g)"
| gCreated: "gateway_step lib decode g (onTransactionCreated u acct tx amount status tm display g)"
| gSettled: "gateway_step lib decode g (onTransactionSettled u acct tx transferId amount tm g)"
| gUpdated: "gateway_step lib decode g (onTransactionUpdated u acct tx eff hidden tm g)"
| gBalance: "gateway_step lib decode g (onAccountBalanceChanged u acct balance tm g)"
| gLinked: "gateway_step lib decode g (onLinkedAccountChanged u requestId kind tm g)"
| gNotified: "gateway_step lib decode g (onNotificationCreated u n category title body cta tm g)"
| gRead: "gateway_step lib decode g (onNotificationRead u ns tm g)"
| gAdminMessage: "gateway_step lib decode g (onAdminMessage u m title body tm g)"
| gMessage: "gateway_step lib decode g (onSupportMessageCreated threadId customer message tm g)"
| gClosed: "gateway_step lib decode g (onSupportThreadClosed threadId customer closedAt g)"
| gMessagesRead: "gateway_step lib decode g (onSupportMessagesRead threadId customer ms readAt g)"
| gQueue: "gateway_step lib decode g (onAdminQueueChanged now kyc review g)"

lemmas handlers = onSessionRevoked_def onTransactionCreated_def onTransactionSettled_def onTransactionUpdated_def onAccountBalanceChanged_def
  onLinkedAccountChanged_def onNotificationCreated_def onNotificationRead_def onAdminMessage_def onSupportMessageCreated_def onSupportThreadClosed_def
  onSupportMessagesRead_def onAdminQueueChanged_def onTyping_def

text \<open>What a connection can do to the state.\<close>

lemma connection_cases:
  obtains (refused) "handleConnection lib decode now i hs g = g"
  | (guest) c where "verifyGuestSupport lib now (the (hs_guestToken hs)) = Some c"
      "handleConnection lib decode now i hs g = accept ((bare_socket i)\<lparr>sk_guest := True, sk_guestThreadId := jc_tid c, sk_rooms := [guest_room (jc_tid c)]\<rparr>) g"
  | (user) t c where "cr_verify lib now t = Some c" "\<not> is_admin_role (jc_role c)"
      "handleConnection lib decode now i hs g = accept ((bare_socket i)\<lparr>sk_userId := jc_sub c, sk_sessionId := jc_sid c, sk_role := jc_role c,
         sk_rooms := [user_room (jc_sub c), session_room (jc_sid c)]\<rparr>) g"
  | (admin) t c e where "cr_verify lib now t = Some c" "is_admin_role (jc_role c)"
      "e = (case map_of (gw_presence g) (jc_sub c) of Some e \<Rightarrow> e | None \<Rightarrow> \<lparr>pe_status = Away, pe_sockets = [], pe_updatedAt = now\<rparr>)"
      "handleConnection lib decode now i hs g = broadcastPresence ((accept ((bare_socket i)\<lparr>sk_userId := jc_sub c, sk_sessionId := jc_sid c, sk_role := jc_role c,
         sk_rooms := [user_room (jc_sub c), session_room (jc_sid c), admins_room]\<rparr>) g)\<lparr>gw_presence := map_put (jc_sub c) (e\<lparr>pe_sockets := set_add i (pe_sockets e)\<rparr>) (gw_presence g)\<rparr>)"
proof -
  let ?g = "handleConnection lib decode now i hs g"
  let ?guest = "tryGuestConnection lib now hs (bare_socket i)"
  have guests: thesis if "?g = (case ?guest of None \<Rightarrow> g | Some s' \<Rightarrow> accept s' g)"
    using that refused guest by (cases "hs_guestToken hs") (auto simp: tryGuestConnection_def join_def bare_socket_def split: if_splits option.splits)
  show thesis
  proof (cases "truthy_str (hs_guestToken hs)")
    case True
    then show thesis by (intro guests) (simp add: handleConnection_def Let_def)
  next
    case False
    show thesis
    proof (cases "extractToken decode hs")
      case (Inl e)
      then show thesis using refused False by (simp add: handleConnection_def Let_def)
    next
      case (Inr token)
      show thesis
      proof (cases "truthy_str token \<and> cr_verify lib now (the token) \<noteq> None")
        case True
        then obtain c where c: "cr_verify lib now (the token) = Some c" by blast
        show thesis
        proof (cases "is_admin_role (jc_role c)")
          case adm: True
          show thesis by (rule admin [OF c adm refl]) (use False True Inr c adm in \<open>simp add: handleConnection_def Let_def join_def bare_socket_def\<close>)
        next
          case adm: False
          show thesis by (rule user [OF c adm]) (use False True Inr c adm in \<open>simp add: handleConnection_def Let_def join_def bare_socket_def\<close>)
        qed
      next
        case no: False
        then show thesis by (intro guests) (use False Inr in \<open>auto simp: handleConnection_def Let_def\<close>)
      qed
    qed
  qed
qed

subsection \<open>Deliveries\<close>

definition delivery_inv :: "gateway \<Rightarrow> bool" where
  "delivery_inv g = (rooms_ok g \<and> sent_ok g)"

lemma delivery_emit:
  "delivery_inv g \<Longrightarrow> (\<And>s. r \<in> set (rooms_of s) \<Longrightarrow> hears s w) \<Longrightarrow> delivery_inv (emit_to r w g)"
  by (simp add: delivery_inv_def sent_ok_emit)

lemma delivery_broadcast: "delivery_inv g \<Longrightarrow> delivery_inv (broadcastPresence g)"
  by (auto simp: delivery_inv_def sent_ok_def rooms_ok_def hears_def)

lemma delivery_presence [simp]: "delivery_inv (g\<lparr>gw_presence := p\<rparr>) = delivery_inv g"
  by (simp add: delivery_inv_def sent_ok_def rooms_ok_def)

lemma delivery_accept: "delivery_inv g \<Longrightarrow> sk_rooms s = rooms_of s \<Longrightarrow> delivery_inv (accept s g)"
  by (auto simp: delivery_inv_def accept_def sent_ok_def rooms_ok_def)

lemma connection_delivers: "delivery_inv g \<Longrightarrow> delivery_inv (handleConnection lib decode now i hs g)"
  by (rule connection_cases [of lib decode now i hs g])
     (auto intro!: delivery_accept delivery_broadcast simp: rooms_of_def bare_socket_def)

lemma disconnection_delivers: "delivery_inv g \<Longrightarrow> delivery_inv (handleDisconnect s g)"
proof -
  assume d: "delivery_inv g"
  then have "delivery_inv (g\<lparr>gw_sockets := filter (\<lambda>x. sk_id x \<noteq> sk_id s) (gw_sockets g)\<rparr>)" by (auto simp: delivery_inv_def rooms_ok_def sent_ok_def)
  then show ?thesis using delivery_broadcast by (auto simp: handleDisconnect_def Let_def split: option.splits)
qed

lemma presence_delivers: "delivery_inv g \<Longrightarrow> delivery_inv (onAdminPresence now s status g)"
  using delivery_broadcast by (simp add: onAdminPresence_def Let_def)

lemma query_delivers: "delivery_inv g \<Longrightarrow> delivery_inv (onPresenceQuery s g)"
  by (auto simp: onPresenceQuery_def delivery_inv_def rooms_ok_def sent_ok_def hears_def)

lemma customer_side_hears:
  "customer_side c t \<in> set (rooms_of s) \<Longrightarrow> sk_guest s \<longrightarrow> tpl (sk_guestThreadId s) = t"
  by (auto simp: customer_room_members split: if_splits)

lemma handlers_deliver:
  assumes "delivery_inv g"
  shows "delivery_inv (onTyping now s thread b customer g)" "delivery_inv (onSessionRevoked u sid reason tm g)"
    "delivery_inv (onTransactionCreated u acct tx amount status tm display g)" "delivery_inv (onTransactionSettled u acct tx transferId amount tm g)"
    "delivery_inv (onTransactionUpdated u acct tx eff hidden tm g)" "delivery_inv (onAccountBalanceChanged u acct balance tm g)"
    "delivery_inv (onLinkedAccountChanged u requestId kind tm g)" "delivery_inv (onNotificationCreated u n category title body cta tm g)"
    "delivery_inv (onNotificationRead u ns tm g)" "delivery_inv (onAdminMessage u m title body tm g)"
    "delivery_inv (onSupportMessageCreated threadId customer message tm g)" "delivery_inv (onSupportThreadClosed threadId customer closedAt g)"
    "delivery_inv (onSupportMessagesRead threadId customer ms readAt g)" "delivery_inv (onAdminQueueChanged now kyc review g)"
  using assms
  by (auto simp: handlers Let_def hears_def room_members split: option.splits intro!: delivery_emit dest: customer_side_hears)

lemma gateway_delivers: "gateway_step lib decode g g' \<Longrightarrow> delivery_inv g \<Longrightarrow> delivery_inv g'"
  by (induction rule: gateway_step.induct)
     (simp_all add: connection_delivers disconnection_delivers presence_delivers query_delivers handlers_deliver)

interpretation deliveries: step_invariant "gateway_step lib decode" delivery_inv
  by unfold_locales (rule gateway_delivers)

definition empty_gateway :: gateway where
  "empty_gateway = \<lparr>gw_sockets = [], gw_presence = [], gw_sent = []\<rparr>"


subsection \<open>Presence of the support desk\<close>

lemma map_of_put [simp]: "map_of (map_put k v es) = (map_of es)(k \<mapsto> v)"
  by (induction es) auto

lemma map_of_drop [simp]: "map_of (map_drop k es) = (map_of es)(k := None)"
  unfolding map_drop_def by (induction es) auto

lemma keys_put: "fst ` set (map_put k v es) = insert k (fst ` set es)"
  by (induction es) auto

lemma distinct_put: "distinct (map fst es) \<Longrightarrow> distinct (map fst (map_put k v es))"
  using keys_put [of k v] by (induction es) auto

lemma distinct_drop: "distinct (map fst es) \<Longrightarrow> distinct (map fst (map_drop k es))"
  unfolding map_drop_def by (induction es) auto

text \<open>An administrator has an entry exactly as long as one of his sockets is connected.\<close>

definition backed :: "gateway \<Rightarrow> string option \<Rightarrow> presence_entry \<Rightarrow> bool" where
  "backed g u e = (pe_status e \<noteq> Offline \<and> pe_sockets e \<noteq> [] \<and>
     (\<forall>i \<in> set (pe_sockets e). \<exists>s \<in> set (gw_sockets g). sk_id s = i \<and> sk_userId s = u \<and> is_admin_role (sk_role s)))"

definition listed :: "gateway \<Rightarrow> socket \<Rightarrow> bool" where
  "listed g s = (truthy_str (sk_userId s) \<and> (\<exists>e. map_of (gw_presence g) (sk_userId s) = Some e \<and> sk_id s \<in> set (pe_sockets e)))"

definition presence_inv :: "gateway \<Rightarrow> bool" where
  "presence_inv g = (distinct (map fst (gw_presence g)) \<and> distinct (map sk_id (gw_sockets g)) \<and>
     (\<forall>u e. map_of (gw_presence g) u = Some e \<longrightarrow> backed g u e) \<and> (\<forall>s \<in> set (gw_sockets g). is_admin_role (sk_role s) \<longrightarrow> listed g s))"

lemma presence_inv_same:
  "presence_inv g \<Longrightarrow> gw_sockets g' = gw_sockets g \<Longrightarrow> gw_presence g' = gw_presence g \<Longrightarrow> presence_inv g'"
proof -
  assume eq: "gw_sockets g' = gw_sockets g" "gw_presence g' = gw_presence g"
  have "presence_inv g' = presence_inv g" unfolding presence_inv_def backed_def listed_def eq by (rule refl)
  then show "presence_inv g \<Longrightarrow> presence_inv g'" by simp
qed

lemma presence_accept:
  assumes "presence_inv g" "sk_id s \<notin> sk_id ` set (gw_sockets g)" "\<not> is_admin_role (sk_role s)"
  shows "presence_inv (accept s g)"
  using assms unfolding presence_inv_def backed_def listed_def accept_def by fastforce

lemma backed_accept: "backed g u e \<Longrightarrow> backed (accept s g) u e"
  unfolding backed_def accept_def by auto

lemma presence_accept_admin:
  assumes "presence_inv g" "sk_id s \<notin> sk_id ` set (gw_sockets g)" "is_admin_role (sk_role s)" "truthy_str (sk_userId s)"
    "e = (case map_of (gw_presence g) (sk_userId s) of Some e \<Rightarrow> e | None \<Rightarrow> \<lparr>pe_status = Away, pe_sockets = [], pe_updatedAt = now\<rparr>)"
  shows "presence_inv ((accept s g)\<lparr>gw_presence := map_put (sk_userId s) (e\<lparr>pe_sockets := set_add (sk_id s) (pe_sockets e)\<rparr>) (gw_presence g)\<rparr>)"
    (is "presence_inv ?g")
proof -
  have old: "pe_status e \<noteq> Offline" "\<forall>i \<in> set (pe_sockets e). \<exists>x \<in> set (gw_sockets g). sk_id x = i \<and> sk_userId x = sk_userId s \<and> is_admin_role (sk_role x)"
    using assms(1) unfolding assms(5) presence_inv_def backed_def by (auto split: option.splits)
  have "backed ?g (sk_userId s) (e\<lparr>pe_sockets := set_add (sk_id s) (pe_sockets e)\<rparr>)"
    using old assms(3) unfolding backed_def accept_def set_add_def by auto
  moreover have "backed ?g u x" if "map_of (gw_presence g) u = Some x" for u x
  proof -
    have "backed g u x" using that assms(1) unfolding presence_inv_def by blast
    then show ?thesis using backed_accept [of g u x s] unfolding backed_def by simp
  qed
  moreover have "listed ?g x" if x: "x \<in> set (gw_sockets g)" "is_admin_role (sk_role x)" for x
  proof -
    have l: "listed g x" using x assms(1) unfolding presence_inv_def by blast
    show ?thesis
    proof (cases "sk_userId x = sk_userId s")
      case True
      then show ?thesis using l unfolding listed_def assms(5) by (auto simp: set_add_def)
    next
      case False
      then show ?thesis using l unfolding listed_def by simp
    qed
  qed
  moreover have "listed ?g s" using assms(4) unfolding listed_def by (simp add: set_add_def)
  ultimately show ?thesis
    using assms(1,2) unfolding presence_inv_def by (auto simp: distinct_put accept_def split: if_splits)
qed

lemma connection_presence:
  assumes "presence_inv g" "i \<notin> sk_id ` set (gw_sockets g)" "admins_named lib"
  shows "presence_inv (handleConnection lib decode now i hs g)"
proof (rule connection_cases [of lib decode now i hs g])
  fix t c e
  assume c: "cr_verify lib now t = Some c" "is_admin_role (jc_role c)" and e: "e = (case map_of (gw_presence g) (jc_sub c) of Some e \<Rightarrow> e | None \<Rightarrow> \<lparr>pe_status = Away, pe_sockets = [], pe_updatedAt = now\<rparr>)"
    and h: "handleConnection lib decode now i hs g = broadcastPresence ((accept ((bare_socket i)\<lparr>sk_userId := jc_sub c, sk_sessionId := jc_sid c, sk_role := jc_role c,
         sk_rooms := [user_room (jc_sub c), session_room (jc_sid c), admins_room]\<rparr>) g)\<lparr>gw_presence := map_put (jc_sub c) (e\<lparr>pe_sockets := set_add i (pe_sockets e)\<rparr>) (gw_presence g)\<rparr>)"
  let ?s = "(bare_socket i)\<lparr>sk_userId := jc_sub c, sk_sessionId := jc_sid c, sk_role := jc_role c, sk_rooms := [user_room (jc_sub c), session_room (jc_sid c), admins_room]\<rparr>"
  have n: "truthy_str (jc_sub c)" using c assms(3) unfolding admins_named_def by blast
  have "presence_inv ((accept ?s g)\<lparr>gw_presence := map_put (jc_sub c) (e\<lparr>pe_sockets := set_add i (pe_sockets e)\<rparr>) (gw_presence g)\<rparr>)"
    using presence_accept_admin [OF assms(1), of ?s e now] assms(2) c(2) n e by (simp add: bare_socket_def)
  then show ?thesis unfolding h by (rule presence_inv_same) simp_all
qed (use assms in \<open>auto intro!: presence_accept simp: bare_socket_def is_admin_role_def\<close>)

lemma presence_update:
  assumes "presence_inv g" "map_of (gw_presence g) u = Some e" "backed g u e'" "set (pe_sockets e) \<subseteq> set (pe_sockets e')"
  shows "presence_inv (g\<lparr>gw_presence := map_put u e' (gw_presence g)\<rparr>)"
proof -
  let ?g = "g\<lparr>gw_presence := map_put u e' (gw_presence g)\<rparr>"
  have b: "backed ?g v x = backed g v x" for v x by (simp add: backed_def)
  have "listed ?g s" if "listed g s" for s using that assms(2,4) unfolding listed_def by auto
  then show ?thesis using assms(1,3) unfolding presence_inv_def by (auto simp: b distinct_put)
qed

lemma presence_set:
  assumes "presence_inv g" "s \<in> set (gw_sockets g)"
  shows "presence_inv (onAdminPresence now s status g)"
proof (cases "truthy_str (sk_userId s) \<and> is_admin_role (sk_role s)")
  case True
  then obtain e where e: "map_of (gw_presence g) (sk_userId s) = Some e" using assms unfolding presence_inv_def listed_def by blast
  then have b: "backed g (sk_userId s) e" using assms(1) unfolding presence_inv_def by blast
  have p: "presence_inv (g\<lparr>gw_presence := map_put (sk_userId s) (e\<lparr>pe_status := n, pe_updatedAt := now\<rparr>) (gw_presence g)\<rparr>)" if "n \<noteq> Offline" for n
    using b that by (intro presence_update [OF assms(1) e]) (simp_all add: backed_def)
  have "presence_inv (broadcastPresence (g\<lparr>gw_presence := map_put (sk_userId s) (e\<lparr>pe_status := n, pe_updatedAt := now\<rparr>) (gw_presence g)\<rparr>))" if "n \<noteq> Offline" for n
    by (rule presence_inv_same [OF p [OF that]]) simp_all
  then show ?thesis using True e assms(1) by (simp add: onAdminPresence_def Let_def)
qed (use assms in \<open>auto simp: onAdminPresence_def\<close>)

text \<open>A socket that leaves takes its entry along when it was the last one of its administrator.\<close>

lemma disconnection_presence:
  assumes "presence_inv g" "s \<in> set (gw_sockets g)"
  shows "presence_inv (handleDisconnect s g)"
proof -
  let ?g = "g\<lparr>gw_sockets := filter (\<lambda>x. sk_id x \<noteq> sk_id s) (gw_sockets g)\<rparr>"
  have uniq: "x = s" if "x \<in> set (gw_sockets g)" "sk_id x = sk_id s" for x
    using that assms unfolding presence_inv_def by (auto simp: distinct_map inj_on_def)
  have other: "backed ?g u x" if "map_of (gw_presence g) u = Some x" "sk_id s \<notin> set (pe_sockets x)" for u x
    using that assms(1) unfolding presence_inv_def backed_def by fastforce
  have keep: "distinct (map fst (gw_presence g))" "distinct (map sk_id (gw_sockets ?g))" using assms(1) unfolding presence_inv_def by (auto simp: distinct_map_filter)
  have mine: "sk_userId s = u" if "map_of (gw_presence g) u = Some x" "sk_id s \<in> set (pe_sockets x)" for u x
    using that assms(1) uniq unfolding presence_inv_def backed_def by metis
  show ?thesis
  proof (cases "is_admin_role (sk_role s)")
    case False
    then have "sk_id s \<notin> set (pe_sockets x)" if "map_of (gw_presence g) u = Some x" for u x
      using that assms(1) uniq unfolding presence_inv_def backed_def by metis
    then have "presence_inv ?g" using other keep assms(1) unfolding presence_inv_def listed_def by auto
    then show ?thesis using False by (simp add: handleDisconnect_def Let_def)
  next
    case True
    then obtain e where t: "truthy_str (sk_userId s)" and e: "map_of (gw_presence g) (sk_userId s) = Some e"
      using assms unfolding presence_inv_def listed_def by blast
    let ?left = "filter (\<lambda>x. x \<noteq> sk_id s) (pe_sockets e)"
    let ?h = "if ?left = [] then ?g\<lparr>gw_presence := map_drop (sk_userId s) (gw_presence g)\<rparr>
              else ?g\<lparr>gw_presence := map_put (sk_userId s) (e\<lparr>pe_sockets := ?left\<rparr>) (gw_presence g)\<rparr>"
    have be: "backed g (sk_userId s) e" using e assms(1) unfolding presence_inv_def by blast
    have b: "backed ?h u x = backed ?g u x" for u x by (simp add: backed_def)
    have left: "?left \<noteq> [] \<Longrightarrow> backed ?g (sk_userId s) (e\<lparr>pe_sockets := ?left\<rparr>)" using be unfolding backed_def by auto
    have rest: "backed ?g u x" if "map_of (gw_presence g) u = Some x" "u \<noteq> sk_userId s" for u x using that other mine by blast
    have l: "listed ?h x" if x: "x \<in> set (gw_sockets ?g)" "is_admin_role (sk_role x)" for x
    proof -
      have xs: "sk_id x \<noteq> sk_id s" and "listed g x" using x assms(1) unfolding presence_inv_def by auto
      then obtain f where f: "truthy_str (sk_userId x)" "map_of (gw_presence g) (sk_userId x) = Some f" "sk_id x \<in> set (pe_sockets f)" unfolding listed_def by blast
      show ?thesis
      proof (cases "sk_userId x = sk_userId s")
        case True
        then have "sk_id x \<in> set ?left" using f(2,3) e xs by simp
        then have "?left \<noteq> []" by (rule list.set_cases) auto
        then show ?thesis using f(1) True \<open>sk_id x \<in> set ?left\<close> unfolding listed_def by simp
      next
        case False
        then show ?thesis using f unfolding listed_def by simp
      qed
    qed
    have "backed ?h u x" if "map_of (gw_presence ?h) u = Some x" for u x
      using that left rest unfolding b by (auto split: if_splits)
    moreover have "distinct (map fst (gw_presence ?h))" "distinct (map sk_id (gw_sockets ?h))" using keep by (simp_all add: distinct_put distinct_drop)
    moreover have "listed ?h x" if "x \<in> set (gw_sockets ?h)" "is_admin_role (sk_role x)" for x using that l by (simp split: if_splits)
    ultimately have "presence_inv ?h" unfolding presence_inv_def by blast
    moreover have "gw_sockets (handleDisconnect s g) = gw_sockets ?h" "gw_presence (handleDisconnect s g) = gw_presence ?h"
      using True t e by (simp_all add: handleDisconnect_def Let_def)
    ultimately show ?thesis by (rule presence_inv_same)
  qed
qed


lemma gateway_presence:
  assumes "gateway_step lib decode g g'" "presence_inv g"
  shows "presence_inv g'"
  using assms
proof (induction rule: gateway_step.induct)
  case (gConnect i g now hs)
  then show ?case using connection_presence by blast
next
  case (gDisconnect s g)
  then show ?case using disconnection_presence by blast
next
  case (gPresence s g now status)
  then show ?case using presence_set by blast
qed (auto elim!: presence_inv_same simp: handlers Let_def onPresenceQuery_def split: option.splits)

interpretation presences: step_invariant "gateway_step lib decode" presence_inv
  by unfold_locales (rule gateway_presence)

lemma scan_presence_eq:
  "(\<forall>e \<in> set es. pe_status (snd e) \<noteq> Offline) \<Longrightarrow>
   scan_presence b es = (if \<exists>e \<in> set es. pe_status (snd e) = Online then Online else if b \<or> es \<noteq> [] then Away else Offline)"
  by (induction es arbitrary: b) auto


section \<open>What the gateway does not check\<close>

lemma balance_reaches:
  assumes "s \<in> set (gw_sockets g)" "user_room (Some u) \<in> set (sk_rooms s)"
  shows "(s, WBalanceChanged u acct b (toISOString tm)) \<in> set (gw_sent (onAccountBalanceChanged u acct b tm g))"
  using assms by (simp add: onAccountBalanceChanged_def)

text \<open>A revoked session is told so and nothing else: its sockets stay in the room of the user and go on receiving his balances.\<close>

theorem revoked_session_keeps_listening:
  assumes "(gateway_step lib decode)\<^sup>*\<^sup>* empty_gateway g" "s \<in> set (gw_sockets g)" "\<not> sk_guest s" "sk_userId s = Some u" "sk_sessionId s = Some sid"
  shows "(s, WSessionRevoked sid u reason (toISOString t0)) \<in> set (gw_sent (onSessionRevoked u sid reason t0 g)) \<and>
    (s, WBalanceChanged u acct b (toISOString t1)) \<in> set (gw_sent (onAccountBalanceChanged u acct b t1 (onSessionRevoked u sid reason t0 g)))"
proof -
  have "delivery_inv empty_gateway" by (simp add: delivery_inv_def empty_gateway_def rooms_ok_def sent_ok_def)
  from deliveries.history_inv [OF assms(1) this] have r: "sk_rooms s = rooms_of s" using assms(2) by (simp add: delivery_inv_def rooms_ok_def)
  have "s \<in> set (gw_sockets (onSessionRevoked u sid reason t0 g))" "user_room (Some u) \<in> set (sk_rooms s)"
    using assms(2-4) by (simp_all add: onSessionRevoked_def r rooms_of_def)
  then show ?thesis using balance_reaches assms(2-5) by (auto simp: onSessionRevoked_def r rooms_of_def)
qed

text \<open>C39. A token that only proves the password, the one that is handed out before the second factor, opens the feed of the user: the
  gateway verifies the signature of a token but not what it was issued for.\<close>

theorem pending_sign_in_opens_feed:
  assumes "jwt_laws lib" "now div 1000 < t0 div 1000 + av_mfaTtl cfg div 1000" "signMfa lib cfg t0 jti u cid \<noteq> ''''"
    "hs = \<lparr>hs_guestToken = None, hs_token = Some (signMfa lib cfg t0 jti u cid), hs_authorization = None, hs_cookie = None\<rparr>"
  shows "\<exists>s. sk_id s = i \<and> (s, WBalanceChanged u acct b (toISOString tm)) \<in> set (gw_sent (onAccountBalanceChanged u acct b tm (handleConnection lib decode now i hs g)))"
proof -
  let ?c = "(no_claims jti)\<lparr>jc_sub := Some u, jc_cid := Some cid\<rparr>"
  let ?s = "(bare_socket i)\<lparr>sk_userId := Some u, sk_rooms := [user_room (Some u), session_room None]\<rparr>"
  have v: "cr_verify lib now (signMfa lib cfg t0 jti u cid) = Some ?c" using assms(1,2) unfolding jwt_laws_def signMfa_def by simp
  have "extractToken decode hs = Inr (Some (signMfa lib cfg t0 jti u cid))" using assms(3) by (simp add: extractToken_def assms(4) truthy_str_def)
  then have "?s \<in> set (gw_sockets (handleConnection lib decode now i hs g))"
    using v assms(3) by (simp add: handleConnection_def Let_def assms(4) truthy_str_def is_admin_role_def no_claims_def accept_def join_def bare_socket_def)
  then show ?thesis by (intro exI [of _ ?s] conjI balance_reaches) (simp_all add: bare_socket_def)
qed

end
