(* ===== verification/Statements.thy ===== *)
theory Statements
  imports Schema Js_Date "HOL-Library.Char_ord" "HOL-Library.List_Lexorder" "HOL-Library.Product_Lexorder" "HOL-Library.Multiset"
begin

text \<open>
  Account statements and tax forms (\<^verbatim>\<open>statements/statements.service.ts\<close>, \<^verbatim>\<open>tax-forms/tax-forms.service.ts\<close>) and the
  parts of the statement renderer that compute what is printed (\<^verbatim>\<open>statements/statement.renderer.ts\<close>): amounts, dates, the
  summary and the page breaks of the table. The drawing itself is a parameter: a function from the values of a
  statement to the bytes of its document, which may fail.
\<close>

section \<open>What a statement says\<close>

record stmt_line =
  sl_occurredAt :: int
  sl_description :: string
  sl_amountCents :: int
  sl_runningBalanceCents :: int

record statement_vars =
  sv_accountLabel :: string
  sv_accountLast4 :: string
  sv_routingNumber :: string
  sv_userFullName :: string
  sv_periodStart :: int
  sv_periodEnd :: int
  sv_openingBalanceCents :: int
  sv_closingBalanceCents :: int
  sv_totalInCents :: int
  sv_totalOutCents :: int
  sv_transactions :: "stmt_line list"

type_synonym renderer = "statement_vars \<Rightarrow> string result"

definition balanceAt :: "string \<Rightarrow> int \<Rightarrow> transaction list \<Rightarrow> int" where
  "balanceAt acct atOrBefore ts =
     sum_list (map t_amountCents (filter (\<lambda>t. t_accountId t = acct \<and> t_status t = TxPosted \<and> t_occurredAt t < atOrBefore) ts))"

definition posted_between :: "string \<Rightarrow> int \<Rightarrow> int \<Rightarrow> transaction list \<Rightarrow> transaction list" where
  "posted_between acct start fin ts =
     sort_key (\<lambda>t. (t_occurredAt t, t_id t))
       (filter (\<lambda>t. t_accountId t = acct \<and> t_status t = TxPosted \<and> start \<le> t_occurredAt t \<and> t_occurredAt t < fin) ts)"

text \<open>The loop over the transactions: lines, running balance, money in, money out.\<close>

fun tally :: "int \<Rightarrow> int \<Rightarrow> int \<Rightarrow> transaction list \<Rightarrow> stmt_line list \<times> int \<times> int \<times> int" where
  "tally running totalIn totalOut [] = ([], running, totalIn, totalOut)"
| "tally running totalIn totalOut (t # ts) =
     (let run1 = running + t_amountCents t;
          rest = tally run1 (if 0 < t_amountCents t then totalIn + t_amountCents t else totalIn)
                   (if 0 < t_amountCents t then totalOut else totalOut + (- t_amountCents t)) ts in
      (\<lparr>sl_occurredAt = t_occurredAt t, sl_description = t_description t, sl_amountCents = t_amountCents t, sl_runningBalanceCents = run1\<rparr> # fst rest, snd rest))"

text \<open>The last four characters, as \<open>slice(-4)\<close> takes them, and the name on a document.\<close>

definition last4 :: "string \<Rightarrow> string" where
  "last4 s = drop (length s - 4) s"

definition holder_name :: "user \<Rightarrow> string" where
  "holder_name u = (let n = join_with '' '' (map the (filter truthy_str [u_firstName u, u_lastName u])) in if n = '''' then u_email u else n)"

definition statement_of :: "account \<Rightarrow> user \<Rightarrow> int \<Rightarrow> int \<Rightarrow> int \<Rightarrow> transaction list \<Rightarrow> statement_vars" where
  "statement_of a u start fin shownEnd ts =
     (let opening = balanceAt (a_id a) start ts; (ls, running, totalIn, totalOut) = tally opening 0 0 (posted_between (a_id a) start fin ts) in
      \<lparr>sv_accountLabel = a_label a, sv_accountLast4 = last4 (a_mockAccountNumber a), sv_routingNumber = a_mockRoutingNumber a, sv_userFullName = holder_name u,
       sv_periodStart = start, sv_periodEnd = shownEnd, sv_openingBalanceCents = opening, sv_closingBalanceCents = running,
       sv_totalInCents = totalIn, sv_totalOutCents = totalOut, sv_transactions = ls\<rparr>)"

section \<open>The service\<close>

record statement_row =
  sr_id :: string
  sr_accountId :: string
  sr_periodStart :: int
  sr_periodEnd :: int
  sr_storageKey :: string
  sr_sizeBytes :: nat
  sr_generatedAt :: int

record statement_state =
  ss_bank :: bank
  ss_statements :: "statement_row list"
  ss_store :: "(string \<times> string) list"

definition startOfPriorMonthUTC :: "int \<Rightarrow> int \<times> int" where
  "startOfPriorMonthUTC now = (date_UTC (getUTCFullYear now) (getUTCMonth now - 1) 1, date_UTC (getUTCFullYear now) (getUTCMonth now) 1)"

text \<open>\<open>storage.put\<close> writes or overwrites the object under its key.\<close>

definition store_put :: "string \<Rightarrow> string \<Rightarrow> (string \<times> string) list \<Rightarrow> (string \<times> string) list" where
  "store_put key body fs = filter (\<lambda>f. fst f \<noteq> key) fs @ [(key, body)]"

definition statement_key :: "string \<Rightarrow> string \<Rightarrow> int \<Rightarrow> string" where
  "statement_key userId acct start = ''statements/'' @ userId @ ''/'' @ acct @ ''/'' @ take 7 (toISOString start) @ ''.pdf''"

definition account_with_user :: "string \<Rightarrow> statement_state \<Rightarrow> (account \<times> user) option" where
  "account_with_user acct st =
     (case account_of (ss_bank st) acct of None \<Rightarrow> None
      | Some a \<Rightarrow> (case user_of (ss_bank st) (a_userId a) of None \<Rightarrow> None | Some u \<Rightarrow> Some (a, u)))"

definition generateOne :: "renderer \<Rightarrow> int \<Rightarrow> string \<Rightarrow> string \<Rightarrow> int \<Rightarrow> int \<Rightarrow> statement_state \<Rightarrow> (statement_row \<times> statement_state) result" where
  "generateOne render now rid acct start fin st =
     (case find_unique (\<lambda>r. (sr_accountId r, sr_periodStart r)) (acct, start) (ss_statements st) of
        Some r \<Rightarrow> Inr (r, st)
      | None \<Rightarrow>
          ebind (or_throw (NotFound ''Account not found'') (account_with_user acct st)) (\<lambda>(a, u).
          ebind (render (statement_of a u start fin (fin - 1) (db_transactions (ss_bank st)))) (\<lambda>pdf.
          let key = statement_key (a_userId a) acct start;
              r = \<lparr>sr_id = rid, sr_accountId = acct, sr_periodStart = start, sr_periodEnd = fin, sr_storageKey = key, sr_sizeBytes = length pdf, sr_generatedAt = now\<rparr> in
          ebind (create_unique ''accountId_periodStart'' (\<lambda>r. (sr_accountId r, sr_periodStart r)) r (ss_statements st)) (\<lambda>rs.
          Inr (r, st\<lparr>ss_statements := rs, ss_store := store_put key pdf (ss_store st)\<rparr>)))))"

text \<open>The monthly job goes on after a failure.\<close>

fun generate_each :: "renderer \<Rightarrow> int \<Rightarrow> int \<Rightarrow> int \<Rightarrow> (string \<times> string) list \<Rightarrow> statement_state \<Rightarrow> statement_state" where
  "generate_each render now start fin [] st = st"
| "generate_each render now start fin ((acct, rid) # as) st =
     generate_each render now start fin as (case generateOne render now rid acct start fin st of Inl _ \<Rightarrow> st | Inr p \<Rightarrow> snd p)"

definition monthlyRun :: "renderer \<Rightarrow> int \<Rightarrow> (string \<Rightarrow> string) \<Rightarrow> statement_state \<Rightarrow> statement_state" where
  "monthlyRun render now new_id st =
     (let (start, fin) = startOfPriorMonthUTC now;
          accounts = map a_id (filter (\<lambda>a. a_status a = AcctActive) (db_accounts (ss_bank st))) in
      generate_each render now start fin (map (\<lambda>i. (i, new_id i)) accounts) st)"

text \<open>Each stored statement is rendered again from what the tables now hold, and counted as regenerated or failed.\<close>

fun regenerate_rows :: "renderer \<Rightarrow> statement_row list \<Rightarrow> nat \<times> nat \<Rightarrow> statement_state \<Rightarrow> (nat \<times> nat) \<times> statement_state" where
  "regenerate_rows render [] (ok, failed) st = ((ok, failed), st)"
| "regenerate_rows render (r # rs) (ok, failed) st =
     (case account_with_user (sr_accountId r) st of
        None \<Rightarrow> regenerate_rows render rs (ok, failed + 1) st
      | Some (a, u) \<Rightarrow>
          (case render (statement_of a u (sr_periodStart r) (sr_periodEnd r) (sr_periodEnd r - 1) (db_transactions (ss_bank st))) of
             Inl _ \<Rightarrow> regenerate_rows render rs (ok, failed + 1) st
           | Inr pdf \<Rightarrow> regenerate_rows render rs (ok + 1, failed)
               (st\<lparr>ss_store := store_put (sr_storageKey r) pdf (ss_store st),
                   ss_statements := update_many (\<lambda>x. sr_id x = sr_id r) (\<lambda>x. x\<lparr>sr_sizeBytes := length pdf\<rparr>) (ss_statements st)\<rparr>)))"

definition regenerateAllStored :: "renderer \<Rightarrow> statement_state \<Rightarrow> (nat \<times> nat) \<times> statement_state" where
  "regenerateAllStored render st = regenerate_rows render (ss_statements st) (0, 0) st"

record statement_listing =
  sg_id :: string
  sg_accountId :: string
  sg_accountLabel :: string
  sg_periodStart :: string
  sg_periodEnd :: string
  sg_sizeBytes :: nat
  sg_generatedAt :: string

definition listForUser_statements :: "string \<Rightarrow> statement_state \<Rightarrow> statement_listing list" where
  "listForUser_statements userId st =
     (let accounts = filter (\<lambda>a. a_userId a = userId) (db_accounts (ss_bank st)); ids = map a_id accounts in
      if ids = [] then []
      else map (\<lambda>r. \<lparr>sg_id = sr_id r, sg_accountId = sr_accountId r,
                sg_accountLabel = (case find_unique a_id (sr_accountId r) accounts of None \<Rightarrow> '''' | Some a \<Rightarrow> a_label a),
                sg_periodStart = toISOString (sr_periodStart r), sg_periodEnd = toISOString (sr_periodEnd r), sg_sizeBytes = sr_sizeBytes r,
                sg_generatedAt = toISOString (sr_generatedAt r)\<rparr>)
             (sort_key (\<lambda>r. - sr_periodStart r) (filter (\<lambda>r. sr_accountId r \<in> set ids) (ss_statements st))))"

text \<open>\<open>[^a-z0-9]+\<close> becomes one dash; a dash at either end goes.\<close>

definition slug_char :: "char \<Rightarrow> bool" where
  "slug_char c = (let n = of_char c :: nat in 97 \<le> n \<and> n \<le> 122 \<or> 48 \<le> n \<and> n \<le> 57)"

fun dash_runs :: "bool \<Rightarrow> string \<Rightarrow> string" where
  "dash_runs gap [] = []"
| "dash_runs gap (c # cs) = (if slug_char c then c # dash_runs False cs else if gap then dash_runs True cs else CHR ''-'' # dash_runs True cs)"

definition label_slug :: "string \<Rightarrow> string" where
  "label_slug label =
     (let s = dash_runs False (to_lower label); s1 = (if starts_with ''-'' s then drop 1 s else s);
          s2 = (if ends_with ''-'' s1 then butlast s1 else s1) in
      if s2 = '''' then ''account'' else s2)"

text \<open>The dates of a custom period are \<open>None\<close> when they are not valid dates.\<close>

definition renderCustom :: "renderer \<Rightarrow> string \<Rightarrow> string \<Rightarrow> int option \<Rightarrow> int option \<Rightarrow> statement_state \<Rightarrow> (string \<times> string) result" where
  "renderCustom render userId acct periodStart periodEnd st =
     ebind (or_throw (BadRequest ''PERIOD_START_INVALID'') periodStart) (\<lambda>start.
     ebind (or_throw (BadRequest ''PERIOD_END_INVALID'') periodEnd) (\<lambda>shownEnd.
     ebind (require (start < shownEnd) (BadRequest ''PERIOD_RANGE_INVALID'')) (\<lambda>_.
     ebind (require (shownEnd - start \<le> 366 * 24 * 60 * 60 * 1000) (BadRequest ''PERIOD_TOO_WIDE'')) (\<lambda>_.
     ebind (or_throw (NotFound ''Account not found'') (account_with_user acct st)) (\<lambda>(a, u).
     ebind (require (a_userId a = userId) (NotFound ''Account not found'')) (\<lambda>_.
     let endExclusive = date_UTC (getUTCFullYear shownEnd) (getUTCMonth shownEnd) (getUTCDate shownEnd + 1) in
     ebind (render (statement_of a u start endExclusive shownEnd (db_transactions (ss_bank st)))) (\<lambda>pdf.
     Inr (pdf, ''State Bank-Statement-'' @ label_slug (a_label a) @ ''-'' @ take 10 (toISOString start) @ ''_to_'' @ take 10 (toISOString shownEnd) @ ''.pdf''))))))))"

text \<open>The link is made by the storage driver from the key.\<close>

definition downloadUrl :: "(string \<Rightarrow> string) \<Rightarrow> string \<Rightarrow> string \<Rightarrow> statement_state \<Rightarrow> string result" where
  "downloadUrl url_of userId rid st =
     ebind (or_throw (NotFound ''Statement not found'') (find_unique sr_id rid (ss_statements st))) (\<lambda>r.
     ebind (or_throw (NotFound ''Statement not found'') (account_of (ss_bank st) (sr_accountId r))) (\<lambda>a.
     ebind (require (a_userId a = userId) (NotFound ''Statement not found'')) (\<lambda>_.
     Inr (url_of (sr_storageKey r)))))"

section \<open>The printed document\<close>

text \<open>\<open>\B(?=(\d{3})+(?!\d))\<close> puts a comma before every group of three digits counted from the right.\<close>

fun group3 :: "string \<Rightarrow> string" where
  "group3 [] = []"
| "group3 (c # cs) = (if cs \<noteq> [] \<and> length cs mod 3 = 0 then c # CHR '','' # group3 cs else c # group3 cs)"

definition fmtCents :: "bool \<Rightarrow> int \<Rightarrow> string" where
  "fmtCents sign cents =
     (let absv = (if cents < 0 then - cents else cents);
          body = ''$'' @ group3 (show_digits (js_div absv 100)) @ ''.'' @ pad2 (show_digits (js_mod absv 100)) in
      if cents < 0 then ''-'' @ body else if sign \<and> 0 < cents then ''+'' @ body else body)"

definition month_names :: "string list" where
  "month_names = [''January'', ''February'', ''March'', ''April'', ''May'', ''June'', ''July'', ''August'', ''September'', ''October'', ''November'', ''December'']"

definition fmtDate :: "int \<Rightarrow> string" where
  "fmtDate d = take 3 (month_names ! nat (getUTCMonth d)) @ '' '' @ show_int (getUTCDate d) @ '', '' @ show_int (getUTCFullYear d)"

text \<open>The four cards. A total is never negative, so that the sign in front of it is the only one.\<close>

definition drop_minus :: "string \<Rightarrow> string" where
  "drop_minus s = (if starts_with ''-'' s then drop 1 s else s)"

definition summary_cards :: "statement_vars \<Rightarrow> (string \<times> string) list" where
  "summary_cards v =
     [(''OPENING BALANCE'', fmtCents False (sv_openingBalanceCents v)), (''MONEY IN'', ''+'' @ drop_minus (fmtCents False (sv_totalInCents v))),
      (''MONEY OUT'', ''-'' @ drop_minus (fmtCents False (sv_totalOutCents v))), (''CLOSING BALANCE'', fmtCents False (sv_closingBalanceCents v))]"

text \<open>The table: a row of 22 points that would pass the limit of the page opens a new page, whose first row comes below the
  top margin and the header row. Each row is placed on a page at a height; the first height is where the drawing above ended.\<close>

definition row_height :: rat where "row_height = 22"
definition bottom_limit :: rat where "bottom_limit = 792 - 90"
definition top_margin :: rat where "top_margin = 56"

fun place_rows :: "nat \<Rightarrow> rat \<Rightarrow> 'a list \<Rightarrow> (nat \<times> rat \<times> 'a) list" where
  "place_rows page y [] = []"
| "place_rows page y (t # ts) =
     (if bottom_limit < y + row_height then (page + 1, top_margin + row_height, t) # place_rows (page + 1) (top_margin + row_height + row_height) ts
      else (page, y, t) # place_rows page (y + row_height) ts)"

definition table_rows :: "nat \<Rightarrow> rat \<Rightarrow> statement_vars \<Rightarrow> (nat \<times> rat \<times> (string \<times> string \<times> string \<times> string)) list" where
  "table_rows page y v = place_rows page (y + row_height)
     (map (\<lambda>l. (fmtDate (sl_occurredAt l), sl_description l, fmtCents True (sl_amountCents l), fmtCents False (sl_runningBalanceCents l))) (sv_transactions v))"

section \<open>Tax forms\<close>

record tax_form =
  tf_id :: string
  tf_userId :: string
  tf_formType :: string
  tf_taxYear :: int
  tf_storageKey :: string
  tf_sizeBytes :: nat
  tf_generatedAt :: int

record tax_vars =
  tv_formType :: string
  tv_taxYear :: int
  tv_recipientName :: string
  tv_amountCents :: int

record tax_state =
  tx_bank :: bank
  tx_forms :: "tax_form list"
  tx_store :: "(string \<times> string) list"

definition listForUser_tax :: "string \<Rightarrow> tax_state \<Rightarrow> tax_form list" where
  "listForUser_tax userId st = sort_key (\<lambda>f. (- tf_taxYear f, tf_formType f)) (filter (\<lambda>f. tf_userId f = userId) (tx_forms st))"

definition downloadUrl_tax :: "(string \<Rightarrow> string) \<Rightarrow> string \<Rightarrow> string \<Rightarrow> tax_state \<Rightarrow> string result" where
  "downloadUrl_tax url_of userId i st =
     (case find_unique tf_id i (tx_forms st) of
        None \<Rightarrow> Inl (NotFound ''Form not found'')
      | Some f \<Rightarrow> if tf_userId f \<noteq> userId then Inl (NotFound ''Form not found'') else Inr (url_of (tf_storageKey f)))"

definition interest_paid :: "string \<Rightarrow> int \<Rightarrow> bank \<Rightarrow> int" where
  "interest_paid userId year b =
     sum_list (map t_amountCents (filter (\<lambda>t. t_accountId t \<in> a_id ` set (filter (\<lambda>a. a_userId a = userId) (db_accounts b)) \<and>
       t_status t = TxPosted \<and> t_kind t = KInterest \<and> date_UTC year 0 1 \<le> t_occurredAt t \<and> t_occurredAt t < date_UTC (year + 1) 0 1) (db_transactions b)))"

definition generate_tax :: "(tax_vars \<Rightarrow> string result) \<Rightarrow> int \<Rightarrow> string \<Rightarrow> string \<Rightarrow> string \<Rightarrow> int \<Rightarrow> tax_state \<Rightarrow> (tax_form \<times> tax_state) result" where
  "generate_tax render now fid userId formType taxYear st =
     ebind (require (formType \<in> {''1099-INT'', ''1099-MISC''}) (BadRequest ''Unsupported form type'')) (\<lambda>_.
     ebind (or_throw (NotFound ''User not found'') (user_of (tx_bank st) userId)) (\<lambda>u.
     ebind (render \<lparr>tv_formType = formType, tv_taxYear = taxYear, tv_recipientName = holder_name u, tv_amountCents = interest_paid userId taxYear (tx_bank st)\<rparr>) (\<lambda>pdf.
     let key = ''tax/'' @ userId @ ''/'' @ show_int taxYear @ ''/'' @ formType @ ''.pdf''; store = store_put key pdf (tx_store st);
         mine = (\<lambda>f. (tf_userId f, tf_formType f, tf_taxYear f)) in
     (case find_unique mine (userId, formType, taxYear) (tx_forms st) of
        Some f \<Rightarrow> (let f1 = f\<lparr>tf_storageKey := key, tf_sizeBytes := length pdf, tf_generatedAt := now\<rparr> in
          Inr (f1, st\<lparr>tx_store := store, tx_forms := update_many (\<lambda>x. mine x = (userId, formType, taxYear)) (\<lambda>x. x\<lparr>tf_storageKey := key, tf_sizeBytes := length pdf, tf_generatedAt := now\<rparr>) (tx_forms st)\<rparr>))
      | None \<Rightarrow> (let f1 = \<lparr>tf_id = fid, tf_userId = userId, tf_formType = formType, tf_taxYear = taxYear, tf_storageKey = key, tf_sizeBytes = length pdf, tf_generatedAt = now\<rparr> in
          Inr (f1, st\<lparr>tx_store := store, tx_forms := tx_forms st @ [f1]\<rparr>))))))"

section \<open>The arithmetic of a statement\<close>

lemma tally_eq:
  "snd (tally running totalIn totalOut ts) = (running + sum_list (map t_amountCents ts),
     totalIn + sum_list (map (\<lambda>t. if 0 < t_amountCents t then t_amountCents t else 0) ts),
     totalOut + sum_list (map (\<lambda>t. if 0 < t_amountCents t then 0 else - t_amountCents t) ts))"
  by (induction ts arbitrary: running totalIn totalOut) (auto simp: Let_def)

lemma tally_lines:
  "length (fst (tally running i q ts)) = length ts"
  "k < length ts \<Longrightarrow> sl_runningBalanceCents (fst (tally running i q ts) ! k) = running + sum_list (map t_amountCents (take (Suc k) ts))"
  "map sl_amountCents (fst (tally running i q ts)) = map t_amountCents ts"
  "map sl_occurredAt (fst (tally running i q ts)) = map t_occurredAt ts"
  by (induction ts arbitrary: running i q k) (auto simp: Let_def nth_Cons split: nat.splits)

lemma sum_posted: "sum_list (map t_amountCents (posted_between acct start fin ts)) =
    sum_list (map t_amountCents (filter (\<lambda>t. t_accountId t = acct \<and> t_status t = TxPosted \<and> start \<le> t_occurredAt t \<and> t_occurredAt t < fin) ts))"
proof -
  have "mset (map t_amountCents (sort_key k xs)) = mset (map t_amountCents xs)" for k :: "transaction \<Rightarrow> int \<times> string" and xs by simp
  from arg_cong [OF this, of sum_mset] show ?thesis unfolding posted_between_def sum_mset_sum_list .
qed

lemma sum_list_split: "(\<And>x. R x \<longleftrightarrow> P x \<or> Q x) \<Longrightarrow> (\<And>x. \<not> (P x \<and> Q x)) \<Longrightarrow>
    sum_list (map f (filter R xs)) = sum_list (map f (filter P xs)) + (sum_list (map f (filter Q xs)) :: int)"
  by (induction xs) auto

lemma balance_moves:
  "start \<le> fin \<Longrightarrow> balanceAt acct fin ts = balanceAt acct start ts + sum_list (map t_amountCents (posted_between acct start fin ts))"
  unfolding balanceAt_def sum_posted by (rule sum_list_split) auto

lemma statement_sel:
  "sv_openingBalanceCents (statement_of a u start fin e ts) = balanceAt (a_id a) start ts"
  "sv_closingBalanceCents (statement_of a u start fin e ts) = balanceAt (a_id a) start ts + sum_list (map t_amountCents (posted_between (a_id a) start fin ts))"
  "sv_transactions (statement_of a u start fin e ts) = fst (tally (balanceAt (a_id a) start ts) 0 0 (posted_between (a_id a) start fin ts))"
  by (simp_all add: statement_of_def Let_def case_prod_beta tally_eq)

text \<open>A statement adds up: the closing balance is the opening balance plus the money in less the money out, both of which are
  never negative, and every line carries the balance after it, so that the last line carries the closing balance.\<close>

theorem statement_adds_up:
  "sv_closingBalanceCents (statement_of a u start fin e ts) =
     sv_openingBalanceCents (statement_of a u start fin e ts) + sv_totalInCents (statement_of a u start fin e ts) - sv_totalOutCents (statement_of a u start fin e ts) \<and>
   0 \<le> sv_totalInCents (statement_of a u start fin e ts) \<and> 0 \<le> sv_totalOutCents (statement_of a u start fin e ts) \<and>
   (\<forall>k < length (sv_transactions (statement_of a u start fin e ts)). sl_runningBalanceCents (sv_transactions (statement_of a u start fin e ts) ! k) =
      sv_openingBalanceCents (statement_of a u start fin e ts) + sum_list (take (Suc k) (map sl_amountCents (sv_transactions (statement_of a u start fin e ts)))))"
proof -
  let ?ps = "posted_between (a_id a) start fin ts"
  have 1: "sum_list (map t_amountCents xs) = sum_list (map (\<lambda>t. if 0 < t_amountCents t then t_amountCents t else 0) xs) -
      sum_list (map (\<lambda>t. if 0 < t_amountCents t then 0 else - t_amountCents t) xs)" for xs
    by (induction xs) auto
  have 2: "0 \<le> sum_list (map (\<lambda>t. if 0 < t_amountCents t then t_amountCents t else 0) xs)"
      "0 \<le> sum_list (map (\<lambda>t. if 0 < t_amountCents t then 0 else - t_amountCents t) xs)" for xs
    by (induction xs) auto
  show ?thesis using 1 [of ?ps] 2 [of ?ps]
    by (simp add: statement_of_def Let_def case_prod_beta tally_eq tally_lines take_map)
qed

text \<open>Statements of adjoining periods fit together: the second opens with the balance the first closed with.\<close>

theorem statements_chain:
  "start \<le> fin \<Longrightarrow> sv_openingBalanceCents (statement_of a u fin fin' e' ts) = sv_closingBalanceCents (statement_of a u start fin e ts)"
  by (simp add: statement_sel balance_moves)

section \<open>The monthly job\<close>

abbreviation period_key :: "statement_row \<Rightarrow> string \<times> int" where
  "period_key r \<equiv> (sr_accountId r, sr_periodStart r)"

definition periods_unique :: "statement_state \<Rightarrow> bool" where
  "periods_unique st = distinct (map period_key (ss_statements st))"

text \<open>A run of the job for one account leaves the state alone or appends one row for a new period.\<close>

lemma generateOne_step:
  fixes st render now rid acct start fin
  defines "st' \<equiv> case generateOne render now rid acct start fin st of Inl _ \<Rightarrow> st | Inr p \<Rightarrow> snd p"
  obtains (same) "st' = st" | (made) r where "period_key r = (acct, start)" "period_key r \<notin> period_key ` set (ss_statements st)"
    "ss_statements st' = ss_statements st @ [r]" "ss_bank st' = ss_bank st"
proof (cases "find_unique period_key (acct, start) (ss_statements st)")
  case (Some x)
  then show thesis by (intro same) (simp add: st'_def generateOne_def)
next
  case None
  show thesis
  proof (cases "account_with_user acct st")
    case no: None
    then show thesis using None by (intro same) (simp add: st'_def generateOne_def or_throw_def)
  next
    case (Some au)
    obtain a u where au: "au = (a, u)" by (cases au)
    show thesis
    proof (cases "render (statement_of a u start fin (fin - 1) (db_transactions (ss_bank st)))")
      case (Inl e)
      then show thesis using None Some au by (intro same) (simp add: st'_def generateOne_def or_throw_def)
    next
      case (Inr pdf)
      let ?r = "\<lparr>sr_id = rid, sr_accountId = acct, sr_periodStart = start, sr_periodEnd = fin, sr_storageKey = statement_key (a_userId a) acct start, sr_sizeBytes = length pdf, sr_generatedAt = now\<rparr>"
      have "st' = st\<lparr>ss_statements := ss_statements st @ [?r], ss_store := store_put (statement_key (a_userId a) acct start) pdf (ss_store st)\<rparr>"
        using None Some au Inr by (simp add: st'_def generateOne_def or_throw_def Let_def create_unique_def)
      moreover have "period_key ?r \<notin> period_key ` set (ss_statements st)" using None unfolding find_unique_None_iff by simp
      ultimately show thesis by (intro made [of ?r]) simp_all
    qed
  qed
qed

lemma generate_each_bank: "ss_bank (generate_each render now start fin as st) = ss_bank st"
proof (induction as arbitrary: st)
  case (Cons x as)
  obtain acct rid where x: "x = (acct, rid)" by (cases x)
  show ?case unfolding x by (rule generateOne_step [of st render now rid acct start fin]) (simp_all add: Cons.IH)
qed simp

lemma generate_each_keeps: "r \<in> set (ss_statements st) \<Longrightarrow> r \<in> set (ss_statements (generate_each render now start fin as st))"
proof (induction as arbitrary: st)
  case (Cons x as)
  obtain acct rid where x: "x = (acct, rid)" by (cases x)
  show ?case unfolding x by (rule generateOne_step [of st render now rid acct start fin]) (simp_all add: Cons.IH Cons.prems)
qed simp

lemma generate_each_unique: "periods_unique st \<Longrightarrow> periods_unique (generate_each render now start fin as st)"
proof (induction as arbitrary: st)
  case (Cons x as)
  obtain acct rid where x: "x = (acct, rid)" by (cases x)
  have "periods_unique (case generateOne render now rid acct start fin st of Inl _ \<Rightarrow> st | Inr p \<Rightarrow> snd p)"
    by (rule generateOne_step [of st render now rid acct start fin]) (use Cons.prems in \<open>simp_all add: periods_unique_def\<close>)
  then show ?case using Cons.IH unfolding x by simp
qed simp

text \<open>Rendering works for an account of the list, so it has its statement afterwards.\<close>

lemma generateOne_makes:
  assumes "account_with_user acct st = Some (a, u)" "is_ok (render (statement_of a u start fin (fin - 1) (db_transactions (ss_bank st))))"
  shows "\<exists>r \<in> set (ss_statements (case generateOne render now rid acct start fin st of Inl _ \<Rightarrow> st | Inr p \<Rightarrow> snd p)). period_key r = (acct, start)"
proof (cases "find_unique period_key (acct, start) (ss_statements st)")
  case (Some x)
  then show ?thesis using find_unique_SomeD [OF Some] by (intro bexI [of _ x]) (simp_all add: generateOne_def)
next
  case None
  obtain pdf where "render (statement_of a u start fin (fin - 1) (db_transactions (ss_bank st))) = Inr pdf" using assms(2) by (auto simp: is_ok_def split: sum.splits)
  then show ?thesis using None assms(1) by (simp add: generateOne_def or_throw_def Let_def create_unique_def)
qed

lemma generate_each_makes:
  assumes "(acct, rid) \<in> set as" "account_with_user acct st = Some (a, u)" "is_ok (render (statement_of a u start fin (fin - 1) (db_transactions (ss_bank st))))"
  shows "\<exists>r \<in> set (ss_statements (generate_each render now start fin as st)). period_key r = (acct, start)"
  using assms
proof (induction as arbitrary: st)
  case (Cons x as)
  obtain acct' rid' where x: "x = (acct', rid')" by (cases x)
  let ?st = "case generateOne render now rid' acct' start fin st of Inl _ \<Rightarrow> st | Inr p \<Rightarrow> snd p"
  have g: "generate_each render now start fin (x # as) st = generate_each render now start fin as ?st" unfolding x by simp
  show ?case
  proof (cases "acct' = acct")
    case True
    obtain r where "r \<in> set (ss_statements ?st)" "period_key r = (acct, start)" using generateOne_makes [OF Cons.prems(2), of render start fin now rid'] Cons.prems(3) unfolding True by blast
    then show ?thesis unfolding g using generate_each_keeps by blast
  next
    case False
    have b: "ss_bank ?st = ss_bank st" using generate_each_bank [of render now start fin "[(acct', rid')]" st] by simp
    have "account_with_user acct ?st = Some (a, u)" using Cons.prems(2) unfolding account_with_user_def b .
    moreover have "is_ok (render (statement_of a u start fin (fin - 1) (db_transactions (ss_bank ?st))))" using Cons.prems(3) unfolding b .
    moreover have "(acct, rid) \<in> set as" using False Cons.prems(1) unfolding x by auto
    ultimately show ?thesis unfolding g by (rule Cons.IH [rotated])
  qed
qed simp

text \<open>C31. After a monthly run every active account whose document could be rendered has a statement for the month before, and no
  account has two statements for one month, however often the job ran.\<close>

theorem monthly_run_complete:
  assumes "periods_unique st" "startOfPriorMonthUTC now = (start, fin)" "account_of (ss_bank st) acct = Some a" "a_status a = AcctActive"
    "user_of (ss_bank st) (a_userId a) = Some u" "is_ok (render (statement_of a u start fin (fin - 1) (db_transactions (ss_bank st))))"
  shows "periods_unique (monthlyRun render now new_id st) \<and> (\<exists>!r. r \<in> set (ss_statements (monthlyRun render now new_id st)) \<and> period_key r = (acct, start))"
proof -
  let ?as = "map (\<lambda>i. (i, new_id i)) (map a_id (filter (\<lambda>a. a_status a = AcctActive) (db_accounts (ss_bank st))))"
  let ?st = "generate_each render now start fin ?as st"
  have m: "monthlyRun render now new_id st = ?st" by (simp add: monthlyRun_def assms(2))
  have "a \<in> set (db_accounts (ss_bank st))" "a_id a = acct" using assms(3) by (auto dest: find_unique_SomeD)
  then have "(acct, new_id acct) \<in> set ?as" using assms(4) by force
  moreover have "account_with_user acct st = Some (a, u)" using assms(3,5) by (simp add: account_with_user_def)
  ultimately obtain r where r: "r \<in> set (ss_statements ?st)" "period_key r = (acct, start)" using generate_each_makes assms(6) by blast
  have u: "periods_unique ?st" using assms(1) by (rule generate_each_unique)
  then have "inj_on period_key (set (ss_statements ?st))" unfolding periods_unique_def distinct_map by blast
  then have "q = r" if "q \<in> set (ss_statements ?st)" "period_key q = (acct, start)" for q
    by (rule inj_onD) (use that r in simp_all)
  then show ?thesis unfolding m using u r by blast
qed

lemma generate_each_idle:
  "(\<And>acct rid. (acct, rid) \<in> set as \<Longrightarrow> \<exists>r \<in> set (ss_statements st). period_key r = (acct, start)) \<Longrightarrow> generate_each render now start fin as st = st"
proof (induction as)
  case (Cons x as)
  obtain acct rid where x: "x = (acct, rid)" by (cases x)
  have "find_unique period_key (acct, start) (ss_statements st) \<noteq> None" using Cons.prems [of acct rid] unfolding x find_unique_None_iff by auto
  then have "(case generateOne render now rid acct start fin st of Inl _ \<Rightarrow> st | Inr p \<Rightarrow> snd p) = st" by (auto simp: generateOne_def)
  moreover have "generate_each render now start fin as st = st" using Cons.prems by (intro Cons.IH) auto
  ultimately show ?case unfolding x by simp
qed simp

section \<open>Months\<close>

lemma make_day_month: "12 * y + m = 12 * y' + m' \<Longrightarrow> make_day y m d = make_day y' m' d"
proof -
  assume eq: "12 * y + m = 12 * y' + m'"
  have "y + m div 12 = y' + m' div 12" using arg_cong [OF eq, of "\<lambda>x. x div 12"] by simp
  moreover have "m mod 12 = m' mod 12" using arg_cong [OF eq, of "\<lambda>x. x mod 12"] by simp
  ultimately show ?thesis unfolding make_day_def Let_def by metis
qed

lemma month_before: "make_day y (m - 1) 1 \<le> make_day y m 1"
proof -
  define y' m' where "y' = y + (m - 1) div 12" and "m' = (m - 1) mod 12"
  have "0 \<le> m'" "m' < 12" unfolding m'_def by simp_all
  moreover have "12 * y' + m' = 12 * y + (m - 1)" unfolding y'_def m'_def using mult_div_mod_eq [of 12 "m - 1"] by (simp only: distrib_left)
  ultimately have r: "0 \<le> m'" "m' \<le> 11" "12 * y' + m' = 12 * y + (m - 1)" by simp_all
  have "make_day y (m - 1) 1 = make_day y' m' 1" "make_day y m 1 = make_day y' (m' + 1) 1" using r(3) by (auto intro: make_day_month)
  then show ?thesis using next_month_start [OF r(1,2), of y'] month_length_pos [OF r(1,2), of y'] by simp
qed

text \<open>C32. The runs of two successive months fit together: the second statement opens with the balance the first closed with, when
  the table of transactions is the same.\<close>

theorem monthly_statements_chain:
  assumes "12 * getUTCFullYear now' + getUTCMonth now' = 12 * getUTCFullYear now + getUTCMonth now + 1"
    "startOfPriorMonthUTC now = (start, fin)" "startOfPriorMonthUTC now' = (start', fin')"
  shows "start' = fin \<and> start \<le> fin \<and> sv_openingBalanceCents (statement_of a u start' fin' e' ts) = sv_closingBalanceCents (statement_of a u start fin e ts)"
proof -
  have "make_day (getUTCFullYear now') (getUTCMonth now' - 1) 1 = make_day (getUTCFullYear now) (getUTCMonth now) 1" using assms(1) by (intro make_day_month) simp
  then have f: "start' = fin" using assms(2,3) by (auto simp: startOfPriorMonthUTC_def date_UTC_def)
  have s: "start \<le> fin" using assms(2) month_before by (auto simp: startOfPriorMonthUTC_def date_UTC_def)
  show ?thesis using f s by (simp add: statement_sel balance_moves)
qed

section \<open>Transactions that post late\<close>

definition post_late :: "int \<Rightarrow> string \<Rightarrow> transaction list \<Rightarrow> transaction list" where
  "post_late now i ts = update_many (\<lambda>x. t_id x = i) (\<lambda>x. x\<lparr>t_status := TxPosted, t_postedAt := Some now\<rparr>) ts"


section \<open>What is printed can be read back\<close>

definition digit_step :: "int \<Rightarrow> char \<Rightarrow> int" where
  "digit_step n c = 10 * n + (of_char c - 48)"

definition is_digit_char :: "char \<Rightarrow> bool" where
  "is_digit_char c = (48 \<le> (of_char c :: int) \<and> (of_char c :: int) \<le> 57)"

text \<open>The amount a printed amount stands for: its digits, and the sign in front.\<close>

definition read_cents :: "string \<Rightarrow> int" where
  "read_cents s = (let v = foldl digit_step 0 (filter is_digit_char s) in if starts_with ''-'' s then - v else v)"

lemma digit_step_digit: "0 \<le> d \<Longrightarrow> d < 10 \<Longrightarrow> digit_step n (digit_char d) = 10 * n + d"
  by (simp add: digit_step_def digit_char_def)

lemma digit_is_digit: "0 \<le> d \<Longrightarrow> d < 10 \<Longrightarrow> is_digit_char (digit_char d)"
  by (simp add: is_digit_char_def digit_char_def)

lemma show_digits_digits: "0 \<le> n \<Longrightarrow> filter is_digit_char (show_digits n) = show_digits n"
proof (induction n rule: show_digits.induct)
  case (1 n)
  then show ?case by (cases "n < 10") (simp_all add: show_digits.simps [of n] digit_is_digit)
qed

lemma read_show: "0 \<le> n \<Longrightarrow> foldl digit_step 0 (show_digits n) = n"
proof (induction n rule: show_digits.induct)
  case (1 n)
  then show ?case by (cases "n < 10") (simp_all add: show_digits.simps [of n] digit_step_digit)
qed

lemma read_pad2:
  assumes "0 \<le> c" "c < 100"
  shows "filter is_digit_char (pad2 (show_digits c)) = pad2 (show_digits c)" "foldl digit_step n (pad2 (show_digits c)) = 100 * n + c"
proof -
  have z: "is_digit_char (CHR ''0'')" "digit_step m (CHR ''0'') = 10 * m" for m by (simp_all add: is_digit_char_def digit_step_def)
  show "filter is_digit_char (pad2 (show_digits c)) = pad2 (show_digits c)" using assms z by (simp add: pad2_def show_digits_digits filter_replicate)
  show "foldl digit_step n (pad2 (show_digits c)) = 100 * n + c"
  proof (cases "c < 10")
    case True
    then show ?thesis using assms z by (simp add: pad2_def show_digits.simps [of c] digit_step_digit)
  next
    case False
    then have "c div 10 < 10" using assms by simp
    then have "show_digits c = [digit_char (c div 10), digit_char (c mod 10)]" using False by (simp add: show_digits.simps [of c] show_digits.simps [of "c div 10"])
    then show ?thesis using assms \<open>c div 10 < 10\<close> by (simp add: pad2_def digit_step_digit)
  qed
qed

lemma group3_digits: "filter is_digit_char (group3 s) = filter is_digit_char s"
  by (induction s) (auto simp: is_digit_char_def)


lemma place_rows_facts:
  "map (\<lambda>r. snd (snd r)) (place_rows page y ts) = ts \<and>
   (\<forall>r \<in> set (place_rows page y ts). fst (snd r) + row_height \<le> bottom_limit \<and> (page = fst r \<and> y \<le> fst (snd r) \<or> page < fst r)) \<and>
   sorted_wrt (\<lambda>r s. fst r < fst s \<or> fst r = fst s \<and> fst (snd r) + row_height \<le> fst (snd s)) (place_rows page y ts)"
proof (induction page y ts rule: place_rows.induct)
  case (2 page y t ts)
  show ?case
  proof (cases "bottom_limit < y + row_height")
    case True
    have "top_margin + row_height + row_height \<le> bottom_limit" by (simp add: top_margin_def row_height_def bottom_limit_def)
    then show ?thesis using "2.IH"(1) [OF True] True by (auto simp: row_height_def)
  next
    case False
    then show ?thesis using "2.IH"(2) [OF False] by (auto simp: row_height_def)
  qed
qed simp

text \<open>No row of a statement is lost or cut by a page: the table prints one row per transaction in their order, each ends above the limit
  of its page, and two rows never overlap.\<close>

theorem table_rows_fit:
  "length (table_rows page y v) = length (sv_transactions v) \<and>
   map (\<lambda>r. fst (snd (snd r))) (table_rows page y v) = map (\<lambda>l. fmtDate (sl_occurredAt l)) (sv_transactions v) \<and>
   list_all (\<lambda>r. fst (snd r) + row_height \<le> bottom_limit) (table_rows page y v) \<and>
   sorted_wrt (\<lambda>r s. fst r < fst s \<or> fst r = fst s \<and> fst (snd r) + row_height \<le> fst (snd s)) (table_rows page y v)"
proof -
  let ?rs = "map (\<lambda>l. (fmtDate (sl_occurredAt l), sl_description l, fmtCents True (sl_amountCents l), fmtCents False (sl_runningBalanceCents l))) (sv_transactions v)"
  note f = place_rows_facts [of page "y + row_height" ?rs]
  have m: "map (\<lambda>r. snd (snd r)) (table_rows page y v) = ?rs" using f unfolding table_rows_def by blast
  have "length (table_rows page y v) = length (sv_transactions v)" using arg_cong [OF m, of length] by simp
  moreover have "map (\<lambda>r. fst (snd (snd r))) (table_rows page y v) = map (\<lambda>l. fmtDate (sl_occurredAt l)) (sv_transactions v)"
    using arg_cong [OF m, of "map fst"] by (simp add: comp_def)
  moreover have "list_all (\<lambda>r. fst (snd r) + row_height \<le> bottom_limit) (table_rows page y v)" using f unfolding table_rows_def list_all_iff by blast
  ultimately show ?thesis using f unfolding table_rows_def by blast
qed

section \<open>Custom periods\<close>

lemma next_midnight: "date_UTC (getUTCFullYear e) (getUTCMonth e) (getUTCDate e + 1) = (day_of e + 1) * msPerDay"
proof -
  obtain y m d where ymd: "ymd (day_of e) = (y, m, d)" by (cases "ymd (day_of e)")
  then show ?thesis using ymd_valid(5) [OF ymd] make_day_shift [of y m d 1] by (simp add: date_UTC_def getUTCFullYear_def getUTCMonth_def getUTCDate_def)
qed

text \<open>A document for a custom period is only made for the owner of the account and for at most 366 days, and it lists exactly the posted
  transactions from its start to the end of its last day, in the order they occurred.\<close>

theorem custom_statement_covers_days:
  assumes "renderCustom render userId acct (Some start) (Some e) st = Inr (pdf, name)"
  shows "\<exists>a u. account_of (ss_bank st) acct = Some a \<and> a_userId a = userId \<and> start < e \<and> e - start \<le> 366 * msPerDay \<and>
    render (statement_of a u start ((day_of e + 1) * msPerDay) e (db_transactions (ss_bank st))) = Inr pdf \<and>
    set (posted_between acct start ((day_of e + 1) * msPerDay) (db_transactions (ss_bank st))) =
      {t \<in> set (db_transactions (ss_bank st)). t_accountId t = acct \<and> t_status t = TxPosted \<and> start \<le> t_occurredAt t \<and> day_of (t_occurredAt t) \<le> day_of e}"
proof -
  obtain a u where au: "account_with_user acct st = Some (a, u)" "a_userId a = userId" "start < e" "e - start \<le> 366 * msPerDay"
      "render (statement_of a u start ((day_of e + 1) * msPerDay) e (db_transactions (ss_bank st))) = Inr pdf"
    using assms unfolding renderCustom_def next_midnight Let_def by (auto simp: err_simps msPerDay_def)
  have d: "x < (day_of e + 1) * msPerDay \<longleftrightarrow> day_of x \<le> day_of e" for x
  proof -
    have "86400000 * q + r < (p + 1) * 86400000 \<longleftrightarrow> q \<le> p" if "0 \<le> r" "r < 86400000" for p q r :: int using that by auto
    from this [of "x mod 86400000" "x div 86400000" "e div 86400000"] show ?thesis unfolding day_of_def msPerDay_def mult_div_mod_eq by simp
  qed
  have "account_of (ss_bank st) acct = Some a" using au(1) by (auto simp: account_with_user_def split: option.splits)
  then show ?thesis using au by (auto simp: posted_between_def d)
qed

text \<open>A period of one day is refused, although its end is meant to be inclusive.\<close>

lemma one_day_refused: "renderCustom render userId acct (Some d) (Some d) st = Inl (BadRequest ''PERIOD_RANGE_INVALID'')"
  by (simp add: renderCustom_def or_throw_def require_def)

section \<open>Tax forms\<close>

text \<open>Either form reports the interest of the year.\<close>

lemma misc_form_reports_interest:
  assumes "generate_tax render now fid userId ''1099-MISC'' y st = Inr (f, st')"
  shows "\<exists>u pdf. render \<lparr>tv_formType = ''1099-MISC'', tv_taxYear = y, tv_recipientName = holder_name u, tv_amountCents = interest_paid userId y (tx_bank st)\<rparr> = Inr pdf"
  using assms unfolding generate_tax_def Let_def by (auto simp: err_simps)

end
