(* ===== verification/Insights.thy ===== *)
theory Insights
  imports Statements
begin

text \<open>
  Spending insights (\<^verbatim>\<open>insights/insights.service.ts\<close>): totals per month and per category over posted and pending
  transactions, computed by an SQL aggregate and kept in a cache whose entries for a user are dropped when his
  transactions or balances change. The aggregates are written out over the rows, with the database session in UTC. The
  cache is the part of Redis the service uses: keys with a value and an expiry, and deletion by a glob pattern.
\<close>

section \<open>The aggregates\<close>

definition month_of :: "int \<Rightarrow> int" where
  "month_of t = date_UTC (getUTCFullYear t) (getUTCMonth t) 1"

definition counted_status :: "tx_status \<Rightarrow> bool" where
  "counted_status s = (s = TxPosted \<or> s = TxPending)"

record monthly_totals =
  mt_yearMonth :: string
  mt_monthStart :: string
  mt_totalInCents :: int
  mt_totalOutCents :: int
  mt_txCount :: nat

record category_totals =
  ct_monthStart :: string
  ct_category :: tx_category
  ct_totalSpentCents :: int
  ct_txCount :: nat

text \<open>The lower end of the window: the start of the month \<open>months\<close> before the current one.\<close>

definition window_start :: "int \<Rightarrow> int \<Rightarrow> int" where
  "window_start now months = date_UTC (getUTCFullYear now) (getUTCMonth now - months) 1"

definition in_window :: "string list \<Rightarrow> int \<Rightarrow> int \<Rightarrow> transaction list \<Rightarrow> transaction list" where
  "in_window ids now months ts =
     filter (\<lambda>t. t_accountId t \<in> set ids \<and> counted_status (t_status t) \<and> window_start now months \<le> t_occurredAt t) ts"

definition money_in :: "transaction list \<Rightarrow> int" where
  "money_in ts = sum_list (map (\<lambda>t. if 0 < t_amountCents t then t_amountCents t else 0) ts)"

definition money_out :: "transaction list \<Rightarrow> int" where
  "money_out ts = sum_list (map (\<lambda>t. if t_amountCents t < 0 then - t_amountCents t else 0) ts)"

text \<open>\<open>GROUP BY\<close> the month, newest month first.\<close>

definition months_desc :: "transaction list \<Rightarrow> int list" where
  "months_desc ts = rev (sort (remdups (map (\<lambda>t. month_of (t_occurredAt t)) ts)))"

definition monthly_rows :: "string list \<Rightarrow> int \<Rightarrow> int \<Rightarrow> transaction list \<Rightarrow> monthly_totals list" where
  "monthly_rows ids now months ts =
     (let rows = in_window ids now months ts in
      map (\<lambda>m. let g = filter (\<lambda>t. month_of (t_occurredAt t) = m) rows in
                \<lparr>mt_yearMonth = take 7 (toISOString m), mt_monthStart = toISOString m, mt_totalInCents = money_in g, mt_totalOutCents = money_out g,
                 mt_txCount = length g\<rparr>) (months_desc rows))"

definition category_rows :: "string list \<Rightarrow> int \<Rightarrow> transaction list \<Rightarrow> category_totals list" where
  "category_rows ids start ts =
     (let rows = filter (\<lambda>t. t_accountId t \<in> set ids \<and> counted_status (t_status t) \<and> month_of (t_occurredAt t) = month_of start) ts in
      sort_key (\<lambda>c. - ct_totalSpentCents c)
        (map (\<lambda>cat. let g = filter (\<lambda>t. t_category t = cat) rows in
               \<lparr>ct_monthStart = toISOString (month_of start), ct_category = cat, ct_totalSpentCents = money_out g, ct_txCount = length g\<rparr>)
          (remdups (map t_category rows))))"

section \<open>The cache\<close>

datatype cached = CachedMonths "monthly_totals list" | CachedCategories "category_totals list"

record insights_state =
  is_bank :: bank
  is_cache :: "(string \<times> cached \<times> int) list"

text \<open>Redis may be down: then nothing is read, written or deleted.\<close>

definition safeCacheGet :: "bool \<Rightarrow> int \<Rightarrow> string \<Rightarrow> insights_state \<Rightarrow> cached option" where
  "safeCacheGet up now key st = (if up then (case map_of (is_cache st) key of None \<Rightarrow> None | Some (v, fin) \<Rightarrow> if now < fin then Some v else None) else None)"

definition safeCacheSet :: "bool \<Rightarrow> int \<Rightarrow> int \<Rightarrow> string \<Rightarrow> cached \<Rightarrow> insights_state \<Rightarrow> insights_state" where
  "safeCacheSet up now ttlSec key v st = (if up then st\<lparr>is_cache := (key, v, now + ttlSec * 1000) # filter (\<lambda>e. fst e \<noteq> key) (is_cache st)\<rparr> else st)"

text \<open>Glob matching; the patterns of the service have no special character but the star.\<close>

fun glob :: "string \<Rightarrow> string \<Rightarrow> bool" where
  "glob [] [] = True"
| "glob [] (c # cs) = False"
| "glob (p # ps) [] = (p = CHR ''*'' \<and> glob ps [])"
| "glob (p # ps) (c # cs) = (if p = CHR ''*'' then glob ps (c # cs) \<or> glob (p # ps) cs else p = c \<and> glob ps cs)"

definition delByPattern :: "bool \<Rightarrow> string \<Rightarrow> insights_state \<Rightarrow> insights_state" where
  "delByPattern up pat st = (if up then st\<lparr>is_cache := filter (\<lambda>e. \<not> glob pat (fst e)) (is_cache st)\<rparr> else st)"

definition invalidateForUser :: "bool \<Rightarrow> string \<Rightarrow> insights_state \<Rightarrow> insights_state" where
  "invalidateForUser up userId st = delByPattern up (''insights:*:'' @ userId @ '':*'') st"

text \<open>The four events that drop the entries of a user.\<close>

definition on_insights_event :: "bool \<Rightarrow> event \<Rightarrow> insights_state \<Rightarrow> insights_state" where
  "on_insights_event up e st =
     (case e of
        EvTransactionCreated u a t c s tm d \<Rightarrow> invalidateForUser up u st
      | EvTransactionSettled u a t tr c tm \<Rightarrow> invalidateForUser up u st
      | EvTransactionUpdated u a t f h tm \<Rightarrow> invalidateForUser up u st
      | EvAccountBalanceChanged u a b tm \<Rightarrow> invalidateForUser up u st
      | _ \<Rightarrow> st)"

section \<open>The service\<close>

definition accounts_in_reach :: "string \<Rightarrow> string option \<Rightarrow> bank \<Rightarrow> string list result" where
  "accounts_in_reach userId accountId b =
     (let allIds = map a_id (filter (\<lambda>a. a_userId a = userId) (db_accounts b)) in
      if \<not> truthy_str accountId then Inr allIds
      else if the accountId \<notin> set allIds then Inl (Forbidden ''Account not accessible'')
      else Inr [the accountId])"

definition or_all :: "string option \<Rightarrow> string" where
  "or_all a = (case a of None \<Rightarrow> ''all'' | Some x \<Rightarrow> x)"

definition monthly_key :: "string \<Rightarrow> string option \<Rightarrow> int \<Rightarrow> string" where
  "monthly_key userId accountId months = ''insights:monthly:'' @ userId @ '':'' @ or_all accountId @ '':'' @ show_int months"

definition category_key :: "string \<Rightarrow> string option \<Rightarrow> int \<Rightarrow> string" where
  "category_key userId accountId start = ''insights:byCategory:'' @ userId @ '':'' @ or_all accountId @ '':'' @ toISOString start"

definition monthly :: "bool \<Rightarrow> int \<Rightarrow> int \<Rightarrow> string \<Rightarrow> string option \<Rightarrow> int \<Rightarrow> insights_state \<Rightarrow> (monthly_totals list \<times> insights_state) result" where
  "monthly up ttlSec now userId accountId months st =
     ebind (accounts_in_reach userId accountId (is_bank st)) (\<lambda>ids.
     if ids = [] then Inr ([], st)
     else case safeCacheGet up now (monthly_key userId accountId months) st of
       Some (CachedMonths v) \<Rightarrow> Inr (v, st)
     | _ \<Rightarrow> (let r = monthly_rows ids now months (db_transactions (is_bank st)) in
              Inr (r, safeCacheSet up now ttlSec (monthly_key userId accountId months) (CachedMonths r) st)))"

definition byCategory :: "bool \<Rightarrow> int \<Rightarrow> int \<Rightarrow> string \<Rightarrow> string option \<Rightarrow> int option \<Rightarrow> insights_state \<Rightarrow> (category_totals list \<times> insights_state) result" where
  "byCategory up ttlSec now userId accountId monthStart st =
     ebind (accounts_in_reach userId accountId (is_bank st)) (\<lambda>ids.
     if ids = [] then Inr ([], st)
     else let start = (case monthStart of Some m \<Rightarrow> m | None \<Rightarrow> month_of now) in
       case safeCacheGet up now (category_key userId accountId start) st of
         Some (CachedCategories v) \<Rightarrow> Inr (v, st)
       | _ \<Rightarrow> (let r = category_rows ids start (db_transactions (is_bank st)) in
                Inr (r, safeCacheSet up now ttlSec (category_key userId accountId start) (CachedCategories r) st)))"

section \<open>What the totals say\<close>

lemma money_split: "(\<And>t. t \<in> set ts \<Longrightarrow> f t \<in> set ms) \<Longrightarrow> distinct ms \<Longrightarrow>
    sum_list (map (\<lambda>m. h (filter (\<lambda>t. f t = m) ts)) ms) = h ts" if "\<And>a b. h (a # b) = g a + h b" "h [] = (0::int)" for h g f and ts :: "'a list" and ms :: "'b list"
proof (induction ts)
  case (Cons a ts)
  have "sum_list (map (\<lambda>m. h (filter (\<lambda>t. f t = m) (a # ts))) ms) = sum_list (map (\<lambda>m. (if f a = m then g a else 0) + h (filter (\<lambda>t. f t = m) ts)) ms)"
    by (intro arg_cong [of _ _ sum_list] map_cong) (auto simp: that)
  also have "\<dots> = sum_list (map (\<lambda>m. if f a = m then g a else 0) ms) + sum_list (map (\<lambda>m. h (filter (\<lambda>t. f t = m) ts)) ms)"
    by (simp add: sum_list_addf)
  also have "sum_list (map (\<lambda>m. if f a = m then g a else 0) ms) = g a"
  proof -
    have "sum_list (map (\<lambda>m. if x = m then c else (0::int)) ns) = 0" if "x \<notin> set ns" for x c and ns :: "'b list" using that by (induction ns) auto
    then show ?thesis using Cons.prems(1) [of a] Cons.prems(2) by (induction ms) auto
  qed
  finally show ?case using Cons by (simp add: that)
qed (simp add: that)

lemma months_desc_facts: "distinct (months_desc ts)" "set (months_desc ts) = (\<lambda>t. month_of (t_occurredAt t)) ` set ts" "sorted_wrt (>) (months_desc ts)"
proof -
  have "sorted_wrt (<) (sort (remdups (map (\<lambda>t. month_of (t_occurredAt t)) ts)))"
    by (simp add: strict_sorted_iff)
  then show "sorted_wrt (>) (months_desc ts)" by (simp add: months_desc_def sorted_wrt_rev)
qed (simp_all add: months_desc_def)


section \<open>The window\<close>

definition month_index :: "int \<Rightarrow> int" where
  "month_index t = 12 * getUTCFullYear t + getUTCMonth t"

lemma month_day_step: "make_day 0 k 1 < make_day 0 (k + 1) 1"
proof -
  define y m where "y = k div 12" and "m = k mod 12"
  have "0 \<le> m" "m < 12" unfolding m_def by simp_all
  moreover have "12 * y + m = 12 * 0 + k" unfolding y_def m_def by simp
  ultimately have r: "0 \<le> m" "m \<le> 11" "12 * y + m = 12 * 0 + k" by simp_all
  have "make_day 0 k 1 = make_day y m 1" "make_day 0 (k + 1) 1 = make_day y (m + 1) 1" using r(3) by (auto intro: make_day_month)
  then show ?thesis using next_month_start [OF r(1,2), of y] month_length_pos [OF r(1,2), of y] by simp
qed

lemma month_day_mono: "j \<le> k \<Longrightarrow> make_day 0 j 1 \<le> make_day 0 k 1"
proof (induction k rule: int_ge_induct)
  case (step k)
  then show ?case using month_day_step [of k] by simp
qed simp

lemma day_in_month: "make_day 0 (month_index t) 1 \<le> day_of t" "day_of t < make_day 0 (month_index t + 1) 1"
proof -
  obtain y m d where v: "ymd (day_of t) = (y, m, d)" by (cases "ymd (day_of t)")
  note f = ymd_valid [OF v]
  have i: "month_index t = 12 * y + m" using v by (simp add: month_index_def getUTCFullYear_def getUTCMonth_def)
  have "make_day y m 1 = make_day 0 (month_index t) 1" "make_day y (m + 1) 1 = make_day 0 (month_index t + 1) 1" unfolding i by (auto intro: make_day_month)
  moreover have "day_of t = make_day y m 1 + (d - 1)" using f(5) make_day_shift [of y m 1 "d - 1"] by simp
  ultimately show "make_day 0 (month_index t) 1 \<le> day_of t" "day_of t < make_day 0 (month_index t + 1) 1"
    using f(3,4) next_month_start [OF f(1,2), of y] by simp_all
qed

lemma month_start_le: "make_day 0 k 1 * msPerDay \<le> t \<longleftrightarrow> k \<le> month_index t"
proof -
  have "K * 86400000 \<le> 86400000 * q + r \<longleftrightarrow> K \<le> q" if "0 \<le> r" "r < 86400000" for K q r :: int using that by auto
  from this [of "t mod 86400000" "make_day 0 k 1" "t div 86400000"] have "make_day 0 k 1 * msPerDay \<le> t \<longleftrightarrow> make_day 0 k 1 \<le> day_of t"
    by (simp add: day_of_def msPerDay_def)
  also have "\<dots> \<longleftrightarrow> k \<le> month_index t"
    using day_in_month [of t] month_day_mono [of k "month_index t"] month_day_mono [of "month_index t + 1" k] by linarith
  finally show ?thesis .
qed

text \<open>A window of \<open>n\<close> months reaches over the current month and the \<open>n\<close> months before it, that is over one month more than asked for: a
  transaction is inside exactly when the number of its month is not more than \<open>n\<close> below the current one.\<close>

theorem window_has_extra_month:
  "t \<in> set (in_window ids now months ts) \<longleftrightarrow>
     t \<in> set ts \<and> t_accountId t \<in> set ids \<and> counted_status (t_status t) \<and> month_index now - months \<le> month_index (t_occurredAt t)"
proof -
  have "make_day (getUTCFullYear now) (getUTCMonth now - months) 1 = make_day 0 (month_index now - months) 1" by (rule make_day_month) (simp add: month_index_def)
  then show ?thesis using month_start_le [of "month_index now - months" "t_occurredAt t"] by (auto simp: in_window_def window_start_def date_UTC_def)
qed

section \<open>Freshness\<close>

lemma glob_literal: "CHR ''*'' \<notin> set p \<Longrightarrow> glob (p @ q) (p @ s) = glob q s"
  by (induction p) auto

lemma glob_star: "glob q s \<Longrightarrow> glob (CHR ''*'' # q) (r @ s)"
proof (induction r)
  case Nil
  then show ?case by (cases s) simp_all
qed simp

lemma user_key_matches:
  assumes "CHR ''*'' \<notin> set u"
  shows "glob (''insights:*:'' @ u @ '':*'') (''insights:'' @ kind @ '':'' @ u @ '':'' @ rest)"
proof -
  have "glob '':*'' ('':'' @ rest)" using glob_star [of "[]" "[]" rest] by simp
  then have "glob (u @ '':*'') (u @ '':'' @ rest)" using glob_literal [OF assms] by blast
  then have "glob ('':'' @ u @ '':*'') ('':'' @ u @ '':'' @ rest)" by simp
  from glob_star [OF this, of kind] show ?thesis by simp
qed

definition event_user :: "event \<Rightarrow> string option" where
  "event_user e = (case e of EvTransactionCreated u a t c s tm d \<Rightarrow> Some u | EvTransactionSettled u a t tr c tm \<Rightarrow> Some u
     | EvTransactionUpdated u a t f h tm \<Rightarrow> Some u | EvAccountBalanceChanged u a b tm \<Rightarrow> Some u | _ \<Rightarrow> None)"

lemma event_drops_keys:
  assumes "event_user e = Some u" "CHR ''*'' \<notin> set u"
  shows "is_bank (on_insights_event True e st) = is_bank st" "map_of (is_cache (on_insights_event True e st)) (''insights:'' @ kind @ '':'' @ u @ '':'' @ rest) = None"
proof -
  have o: "on_insights_event True e st = st\<lparr>is_cache := filter (\<lambda>x. \<not> glob (''insights:*:'' @ u @ '':*'') (fst x)) (is_cache st)\<rparr>"
    using assms(1) by (auto simp: event_user_def on_insights_event_def invalidateForUser_def delByPattern_def split: event.splits)
  show "is_bank (on_insights_event True e st) = is_bank st" unfolding o by simp
  have "map_of (filter (\<lambda>x. \<not> glob (''insights:*:'' @ u @ '':*'') (fst x)) c) (''insights:'' @ kind @ '':'' @ u @ '':'' @ rest) = None" for c :: "(string \<times> cached \<times> int) list"
    using user_key_matches [OF assms(2)] unfolding map_of_eq_None_iff by fastforce
  then show "map_of (is_cache (on_insights_event True e st)) (''insights:'' @ kind @ '':'' @ u @ '':'' @ rest) = None" unfolding o by simp
qed

lemma monthly_rows_none: "monthly_rows [] now months ts = []"
  by (simp add: monthly_rows_def in_window_def months_desc_def)

lemma category_rows_none: "category_rows [] start ts = []"
  by (simp add: category_rows_def)

text \<open>After any event on his transactions or balances a user's insights are those of the tables as they are now, whatever the cache held.\<close>

theorem insights_fresh_after_event:
  assumes "event_user e = Some u" "CHR ''*'' \<notin> set u" "accounts_in_reach u acct (is_bank st) = Inr ids"
  shows "map_sum (\<lambda>x. x) fst (monthly True ttl now u acct months (on_insights_event True e st)) = Inr (monthly_rows ids now months (db_transactions (is_bank st))) \<and>
    map_sum (\<lambda>x. x) fst (byCategory True ttl now u acct (Some start) (on_insights_event True e st)) = Inr (category_rows ids start (db_transactions (is_bank st)))"
proof -
  note b = event_drops_keys(1) [OF assms(1,2), of st]
  have m: "safeCacheGet True now (monthly_key u acct months) (on_insights_event True e st) = None"
    using event_drops_keys(2) [OF assms(1,2), of st "''monthly''" "or_all acct @ '':'' @ show_int months"] by (simp add: safeCacheGet_def monthly_key_def)
  have c: "safeCacheGet True now (category_key u acct start) (on_insights_event True e st) = None"
    using event_drops_keys(2) [OF assms(1,2), of st "''byCategory''" "or_all acct @ '':'' @ toISOString start"] by (simp add: safeCacheGet_def category_key_def)
  show ?thesis using assms(3) by (simp add: monthly_def byCategory_def b m c Let_def monthly_rows_none category_rows_none)
qed

end
