(* ===== verification/Perks.thy ===== *)
theory Perks
  imports Schema Js_Date
begin

text \<open>
  Referrals, direct deposit and the deals it unlocks (\<^verbatim>\<open>referrals/referrals.service.ts\<close>, \<^verbatim>\<open>direct-deposit/\<close>, \<^verbatim>\<open>deals/\<close>).
  A referral goes from sent over signed up to qualified as the events of the signup and of the settlement arrive; a
  direct deposit is started with a partner and activated by the partner's webhook; a deal is activated once per user.
\<close>

section \<open>Referrals\<close>

datatype referral_status = RefSent | RefSignedUp | RefQualified | RefPaid

record referral =
  rf_id :: string
  rf_referrerUserId :: string
  rf_invitedEmail :: "string option"
  rf_invitedUserId :: "string option"
  rf_code :: string
  rf_status :: referral_status
  rf_payoutCents :: "int option"
  rf_createdAt :: int
  rf_resolvedAt :: "int option"
  rf_qualifiedAt :: "int option"

record signup_code =
  sc_id :: string
  sc_referralCode :: "string option"

record referral_state =
  re_referrals :: "referral list"
  re_signups :: "signup_code list"

definition code_alphabet :: string where
  "code_alphabet = ''ABCDEFGHJKLMNPQRSTUVWXYZ23456789''"

text \<open>Random bytes, one per character.\<close>

definition generateCode :: "nat list \<Rightarrow> string" where
  "generateCode buf = map (\<lambda>b. code_alphabet ! (b mod length code_alphabet)) buf"

text \<open>Up to five attempts; a code that is taken is tried again with fresh bytes, and the last failure is raised.\<close>

fun invite :: "int \<Rightarrow> string \<Rightarrow> string \<Rightarrow> string option \<Rightarrow> nat list list \<Rightarrow> referral_state \<Rightarrow> (referral \<times> referral_state) result" where
  "invite now rid referrer email [] st = Inl (PlainError ''Could not allocate unique referral code'')"
| "invite now rid referrer email (buf # bufs) st =
     (let r = \<lparr>rf_id = rid, rf_referrerUserId = referrer, rf_invitedEmail = email, rf_invitedUserId = None, rf_code = generateCode buf, rf_status = RefSent,
               rf_payoutCents = None, rf_createdAt = now, rf_resolvedAt = None, rf_qualifiedAt = None\<rparr> in
      case create_unique ''code'' rf_code r (re_referrals st) of
        Inr rs \<Rightarrow> Inr (r, st\<lparr>re_referrals := rs\<rparr>)
      | Inl e \<Rightarrow> if bufs = [] then Inl e else invite now rid referrer email bufs st)"

definition listForUser_referrals :: "string \<Rightarrow> referral_state \<Rightarrow> referral list" where
  "listForUser_referrals u st = sort_key (\<lambda>r. - rf_createdAt r) (filter (\<lambda>r. rf_referrerUserId r = u) (re_referrals st))"

definition resolveCode :: "string \<Rightarrow> referral_state \<Rightarrow> referral option" where
  "resolveCode code st = find_unique rf_code code (re_referrals st)"

definition attachToSignup :: "string \<Rightarrow> string \<Rightarrow> referral_state \<Rightarrow> referral_state result" where
  "attachToSignup signupId code st =
     ebind (or_throw (NotFound ''Invalid referral code'') (resolveCode code st)) (\<lambda>r.
     ebind (require (rf_status r = RefSent) (BadRequest ''Referral already used'')) (\<lambda>_.
     ebind (update_unique sc_id signupId (\<lambda>s. s\<lparr>sc_referralCode := Some code\<rparr>) (re_signups st)) (\<lambda>ss.
     Inr (st\<lparr>re_signups := ss\<rparr>))))"

text \<open>The handlers log their errors and go on; an update of a row that was just read does not fail.\<close>

definition set_referral :: "string \<Rightarrow> (referral \<Rightarrow> referral) \<Rightarrow> referral_state \<Rightarrow> referral_state" where
  "set_referral i f st = st\<lparr>re_referrals := update_many (\<lambda>r. rf_id r = i) f (re_referrals st)\<rparr>"

definition onSignupCompleted_referral :: "int \<Rightarrow> string \<Rightarrow> string \<Rightarrow> referral_state \<Rightarrow> referral_state" where
  "onSignupCompleted_referral now signupId userId st =
     (case find_unique sc_id signupId (re_signups st) of
        None \<Rightarrow> st
      | Some s \<Rightarrow>
          if \<not> truthy_str (sc_referralCode s) then st
          else case find_unique rf_code (the (sc_referralCode s)) (re_referrals st) of
            None \<Rightarrow> st
          | Some r \<Rightarrow>
              if rf_referrerUserId r = userId \<or> rf_status r \<noteq> RefSent then st
              else set_referral (rf_id r) (\<lambda>x. x\<lparr>rf_invitedUserId := Some userId, rf_status := RefSignedUp, rf_resolvedAt := Some now\<rparr>) st)"

definition onTransferSettled_referral :: "int \<Rightarrow> int \<Rightarrow> string \<Rightarrow> bool \<Rightarrow> transfer_kind \<Rightarrow> referral_state \<Rightarrow> referral_state" where
  "onTransferSettled_referral bonus now userId deposit kind st =
     (if \<not> deposit then st
      else case find_first (\<lambda>r. rf_invitedUserId r = Some userId \<and> rf_status r = RefSignedUp) (re_referrals st) of
        None \<Rightarrow> st
      | Some r \<Rightarrow>
          if kind \<noteq> AchIn \<and> kind \<noteq> WireIn then st
          else set_referral (rf_id r) (\<lambda>x. x\<lparr>rf_status := RefQualified, rf_qualifiedAt := Some now, rf_payoutCents := Some bonus\<rparr>) st)"

section \<open>Direct deposit\<close>

record employer =
  em_id :: string
  em_name :: string
  em_domain :: "string option"

record direct_deposit =
  dp_userId :: string
  dp_active :: bool
  dp_activatedAt :: "int option"
  dp_employerId :: "string option"
  dp_partnerRequestId :: "string option"

record perks_state =
  pk_bank :: bank
  pk_employers :: "employer list"
  pk_deposits :: "direct_deposit list"

definition accountPlain :: "string \<Rightarrow> perks_state \<Rightarrow> account result" where
  "accountPlain userId st =
     or_throw (BadRequest ''No active checking account'')
       (find_first (\<lambda>a. a_userId a = userId \<and> a_type a = Checking \<and> a_status a = AcctActive) (db_accounts (pk_bank st)))"

record deposit_summary =
  ds_active :: bool
  ds_activatedAt :: "string option"
  ds_employer :: "(string \<times> string) option"
  ds_routingNumber :: string
  ds_accountLast4 :: string
  ds_partnerRequestId :: "string option"

definition direct_deposit_summary :: "string \<Rightarrow> perks_state \<Rightarrow> deposit_summary result" where
  "direct_deposit_summary userId st =
     ebind (accountPlain userId st) (\<lambda>a.
     let dd = find_unique dp_userId userId (pk_deposits st);
         emp = Option.bind dd (\<lambda>d. Option.bind (dp_employerId d) (\<lambda>i. find_unique em_id i (pk_employers st))) in
     Inr \<lparr>ds_active = (case dd of None \<Rightarrow> False | Some d \<Rightarrow> dp_active d), ds_activatedAt = map_option toISOString (Option.bind dd dp_activatedAt),
          ds_employer = map_option (\<lambda>e. (em_id e, em_name e)) emp, ds_routingNumber = a_mockRoutingNumber a,
          ds_accountLast4 = drop (length (a_mockAccountNumber a) - 4) (a_mockAccountNumber a), ds_partnerRequestId = Option.bind dd dp_partnerRequestId\<rparr>)"

text \<open>The employer is taken by its identifier, or found or made by its name.\<close>

definition resolve_employer :: "string \<Rightarrow> string option \<Rightarrow> string \<Rightarrow> string option \<Rightarrow> perks_state \<Rightarrow> string \<times> perks_state" where
  "resolve_employer new_id employerId name site st =
     (if truthy_str employerId then (the employerId, st)
      else case find_unique em_name name (pk_employers st) of
        Some e \<Rightarrow> (em_id e, if truthy_str site then st\<lparr>pk_employers := update_many (\<lambda>x. em_name x = name) (\<lambda>x. x\<lparr>em_domain := site\<rparr>) (pk_employers st)\<rparr> else st)
      | None \<Rightarrow> (new_id, st\<lparr>pk_employers := pk_employers st @ [\<lparr>em_id = new_id, em_name = name, em_domain = site\<rparr>]\<rparr>))"

definition upsert_deposit :: "string \<Rightarrow> (direct_deposit \<Rightarrow> direct_deposit) \<Rightarrow> direct_deposit \<Rightarrow> perks_state \<Rightarrow> direct_deposit \<times> perks_state" where
  "upsert_deposit userId upd fresh st =
     (case find_unique dp_userId userId (pk_deposits st) of
        Some d \<Rightarrow> (upd d, st\<lparr>pk_deposits := update_many (\<lambda>x. dp_userId x = userId) upd (pk_deposits st)\<rparr>)
      | None \<Rightarrow> (fresh, st\<lparr>pk_deposits := pk_deposits st @ [fresh]\<rparr>))"

text \<open>The partner gives the request an identifier of its own.\<close>

definition startSwitch :: "string \<Rightarrow> string \<Rightarrow> string \<Rightarrow> string option \<Rightarrow> string \<Rightarrow> string option \<Rightarrow> perks_state \<Rightarrow> (direct_deposit \<times> perks_state) result" where
  "startSwitch new_id requestId userId employerId name site st =
     ebind (accountPlain userId st) (\<lambda>_.
     let (eid, st1) = resolve_employer new_id employerId name site st in
     Inr (upsert_deposit userId (\<lambda>d. d\<lparr>dp_employerId := Some eid, dp_partnerRequestId := Some requestId\<rparr>)
       \<lparr>dp_userId = userId, dp_active = False, dp_activatedAt = None, dp_employerId = Some eid, dp_partnerRequestId = Some requestId\<rparr> st1))"

definition handleWebhook :: "int \<Rightarrow> string \<Rightarrow> perks_state \<Rightarrow> (direct_deposit \<times> perks_state) result" where
  "handleWebhook now requestId st =
     ebind (or_throw (NotFound ''Unknown partner request'') (find_first (\<lambda>d. dp_partnerRequestId d = Some requestId) (pk_deposits st))) (\<lambda>d.
     if dp_active d then Inr (d, st)
     else Inr (upsert_deposit (dp_userId d) (\<lambda>x. x\<lparr>dp_active := True, dp_activatedAt := Some now\<rparr>) d st))"

definition forceActivate :: "int \<Rightarrow> string \<Rightarrow> perks_state \<Rightarrow> direct_deposit \<times> perks_state" where
  "forceActivate now userId st =
     upsert_deposit userId (\<lambda>x. x\<lparr>dp_active := True, dp_activatedAt := Some now\<rparr>)
       \<lparr>dp_userId = userId, dp_active = True, dp_activatedAt = Some now, dp_employerId = None, dp_partnerRequestId = None\<rparr> st"

section \<open>Deals\<close>

record deal =
  de_id :: string
  de_title :: string
  de_cashbackBps :: int
  de_expiresAt :: "int option"

record activated_deal =
  ad_id :: string
  ad_userId :: string
  ad_dealId :: string
  ad_activatedAt :: int
  ad_redeemedAt :: "int option"

record deals_state =
  ds_deals :: "deal list"
  ds_activated :: "activated_deal list"
  ds_deposits :: "direct_deposit list"

definition dealsGuard :: "string option \<Rightarrow> deals_state \<Rightarrow> unit result" where
  "dealsGuard userId st =
     ebind (require (truthy_str userId) (Forbidden ''DD_REQUIRED'')) (\<lambda>_.
     require (case find_unique dp_userId (the userId) (ds_deposits st) of None \<Rightarrow> False | Some d \<Rightarrow> dp_active d) (Forbidden ''DD_REQUIRED''))"

definition list_deals :: "int \<Rightarrow> string \<Rightarrow> deals_state \<Rightarrow> (deal \<times> bool \<times> bool) list" where
  "list_deals now userId st =
     map (\<lambda>d. let a = find_first (\<lambda>a. ad_userId a = userId \<and> ad_dealId a = de_id d) (ds_activated st) in
              (d, a \<noteq> None, case a of None \<Rightarrow> False | Some x \<Rightarrow> ad_redeemedAt x \<noteq> None))
       (sort_key (\<lambda>d. - de_cashbackBps d) (filter (\<lambda>d. case de_expiresAt d of None \<Rightarrow> True | Some t \<Rightarrow> now < t) (ds_deals st)))"

definition activate_deal :: "int \<Rightarrow> string \<Rightarrow> string \<Rightarrow> string \<Rightarrow> deals_state \<Rightarrow> (activated_deal \<times> deals_state) result" where
  "activate_deal now new_id userId dealId st =
     ebind (or_throw (NotFound ''Deal not found'') (find_unique de_id dealId (ds_deals st))) (\<lambda>d.
     ebind (require (case de_expiresAt d of None \<Rightarrow> True | Some t \<Rightarrow> \<not> t < now) (Conflict ''Deal expired'')) (\<lambda>_.
     let a = \<lparr>ad_id = new_id, ad_userId = userId, ad_dealId = dealId, ad_activatedAt = now, ad_redeemedAt = None\<rparr>; mine = (\<lambda>x. (ad_userId x, ad_dealId x)) in
     case create_unique ''userId_dealId'' mine a (ds_activated st) of
       Inr as \<Rightarrow> Inr (a, st\<lparr>ds_activated := as\<rparr>)
     | Inl _ \<Rightarrow> ebind (or_throw RecordMissing (find_unique mine (userId, dealId) (ds_activated st))) (\<lambda>x. Inr (x, st))))"

section \<open>Referral codes\<close>

lemma code_chars: "set (generateCode buf) \<subseteq> set code_alphabet" "length (generateCode buf) = length buf"
proof -
  have "b mod length code_alphabet < length code_alphabet" for b by (intro mod_less_divisor) (simp add: code_alphabet_def)
  then show "set (generateCode buf) \<subseteq> set code_alphabet" unfolding generateCode_def by auto
qed (simp add: generateCode_def)

text \<open>An invitation succeeds with the first of the codes that is free, and fails only when all are taken.\<close>

lemma invite_ok_iff: "bufs \<noteq> [] \<Longrightarrow> is_ok (invite now rid referrer email bufs st) \<longleftrightarrow> (\<exists>buf \<in> set bufs. generateCode buf \<notin> rf_code ` set (re_referrals st))"
proof (induction bufs)
  case (Cons buf bufs)
  show ?case
  proof (cases "find_unique rf_code (generateCode buf) (re_referrals st)")
    case None
    then have "generateCode buf \<notin> rf_code ` set (re_referrals st)" by (simp add: find_unique_None_iff)
    then show ?thesis using None by (simp add: create_unique_def Let_def)
  next
    case (Some r)
    then have "generateCode buf \<in> rf_code ` set (re_referrals st)" using find_unique_SomeD [OF Some] by (metis imageI)
    then show ?thesis using Some Cons.IH by (cases "bufs = []") (simp_all add: create_unique_def Let_def)
  qed
qed simp

lemma invite_Inr:
  assumes "invite now rid referrer email bufs st = Inr (r, st')"
  shows "rf_id r = rid" "rf_referrerUserId r = referrer" "rf_status r = RefSent" "rf_invitedUserId r = None" "rf_payoutCents r = None"
    "rf_code r \<notin> rf_code ` set (re_referrals st)" "re_referrals st' = re_referrals st @ [r]" "re_signups st' = re_signups st"
  using assms
  by (induction now rid referrer email bufs st rule: invite.induct)
     (auto simp: create_unique_def Let_def find_unique_None_iff split: option.splits if_splits)

section \<open>The life of a referral\<close>

inductive referral_step :: "int \<Rightarrow> referral_state \<Rightarrow> referral_state \<Rightarrow> bool" for bonus where
  rInvite: "invite now rid referrer email bufs st = Inr (r, st') \<Longrightarrow> rid \<notin> rf_id ` set (re_referrals st) \<Longrightarrow> referral_step bonus st st'"
| rAttach: "attachToSignup signupId code st = Inr st' \<Longrightarrow> referral_step bonus st st'"
| rSignup: "referral_step bonus st (onSignupCompleted_referral now signupId userId st)"
| rSettled: "referral_step bonus st (onTransferSettled_referral bonus now userId deposit kind st)"

definition referral_ok :: "int \<Rightarrow> referral \<Rightarrow> bool" where
  "referral_ok bonus r = (case rf_status r of
       RefSent \<Rightarrow> rf_invitedUserId r = None \<and> rf_payoutCents r = None
     | RefSignedUp \<Rightarrow> (\<exists>u. rf_invitedUserId r = Some u \<and> u \<noteq> rf_referrerUserId r) \<and> rf_payoutCents r = None
     | RefQualified \<Rightarrow> (\<exists>u. rf_invitedUserId r = Some u \<and> u \<noteq> rf_referrerUserId r) \<and> rf_payoutCents r = Some bonus
     | RefPaid \<Rightarrow> False)"

definition referral_inv :: "int \<Rightarrow> referral_state \<Rightarrow> bool" where
  "referral_inv bonus st = (distinct (map rf_id (re_referrals st)) \<and> distinct (map rf_code (re_referrals st)) \<and> list_all (referral_ok bonus) (re_referrals st))"

lemma set_referral_inv:
  assumes "referral_inv bonus st" "r \<in> set (re_referrals st)" "referral_ok bonus (f r)" "\<And>x. rf_id (f x) = rf_id x" "\<And>x. rf_code (f x) = rf_code x"
  shows "referral_inv bonus (set_referral (rf_id r) f st)"
proof -
  have d: "distinct (map rf_id (re_referrals st))" and ok: "\<And>x. x \<in> set (re_referrals st) \<Longrightarrow> referral_ok bonus x"
    using assms(1) unfolding referral_inv_def list_all_iff by blast+
  have uniq: "x = r" if "x \<in> set (re_referrals st)" "rf_id x = rf_id r" for x
    using d that assms(2) by (auto simp: distinct_map inj_on_def)
  have "referral_ok bonus (if rf_id x = rf_id r then f x else x)" if x: "x \<in> set (re_referrals st)" for x
    using ok [OF x] uniq [OF x] assms(3) by auto
  then have "list_all (referral_ok bonus) (update_many (\<lambda>x. rf_id x = rf_id r) f (re_referrals st))"
    unfolding list_all_iff update_many_def set_map by blast
  then show ?thesis using assms(1,4,5) unfolding referral_inv_def set_referral_def by (simp add: map_update_many)
qed

lemma signup_inv:
  assumes "referral_inv bonus st"
  shows "referral_inv bonus (onSignupCompleted_referral now signupId userId st)"
proof (cases "find_unique sc_id signupId (re_signups st)")
  case (Some s)
  show ?thesis
  proof (cases "find_unique rf_code (the (sc_referralCode s)) (re_referrals st)")
    case found: (Some r)
    then have r: "r \<in> set (re_referrals st)" by (auto dest: find_unique_SomeD)
    then have ok: "referral_ok bonus r" using assms by (auto simp: referral_inv_def list_all_iff)
    show ?thesis
    proof (cases "truthy_str (sc_referralCode s) \<and> rf_referrerUserId r \<noteq> userId \<and> rf_status r = RefSent")
      case True
      then have "referral_inv bonus (set_referral (rf_id r) (\<lambda>x. x\<lparr>rf_invitedUserId := Some userId, rf_status := RefSignedUp, rf_resolvedAt := Some now\<rparr>) st)"
        using ok by (intro set_referral_inv [OF assms r]) (auto simp: referral_ok_def)
      then show ?thesis using True Some found by (simp add: onSignupCompleted_referral_def)
    next
      case False
      then show ?thesis using assms Some found by (auto simp: onSignupCompleted_referral_def)
    qed
  qed (use assms Some in \<open>simp add: onSignupCompleted_referral_def\<close>)
qed (use assms in \<open>simp add: onSignupCompleted_referral_def\<close>)

lemma settled_inv:
  assumes "referral_inv bonus st"
  shows "referral_inv bonus (onTransferSettled_referral bonus now userId deposit kind st)"
proof (cases "find_first (\<lambda>r. rf_invitedUserId r = Some userId \<and> rf_status r = RefSignedUp) (re_referrals st)")
  case (Some r)
  then have r: "r \<in> set (re_referrals st)" "rf_status r = RefSignedUp" using find_first_SomeD [OF Some] by auto
  then have "referral_ok bonus r" using assms by (auto simp: referral_inv_def list_all_iff)
  then have "referral_inv bonus (set_referral (rf_id r) (\<lambda>x. x\<lparr>rf_status := RefQualified, rf_qualifiedAt := Some now, rf_payoutCents := Some bonus\<rparr>) st)"
    using r(2) by (intro set_referral_inv [OF assms r(1)]) (auto simp: referral_ok_def)
  then show ?thesis using assms Some by (simp add: onTransferSettled_referral_def)
qed (use assms in \<open>simp add: onTransferSettled_referral_def\<close>)

lemma referral_step_inv: "referral_step bonus st st' \<Longrightarrow> referral_inv bonus st \<Longrightarrow> referral_inv bonus st'"
proof (induction rule: referral_step.induct)
  case (rInvite now rid referrer email bufs st r st')
  note i = invite_Inr [OF rInvite(1)]
  show ?case using rInvite(2,3) i(6) unfolding referral_inv_def i(7) by (auto simp: i(1,3-5) referral_ok_def)
next
  case (rAttach signupId code st st')
  then show ?case by (auto simp: attachToSignup_def err_simps referral_inv_def)
qed (simp_all add: signup_inv settled_inv)

interpretation referrals: step_invariant "referral_step bonus" "referral_inv bonus"
  by unfold_locales (rule referral_step_inv)

text \<open>How far a referral has come, and what it keeps on the way.\<close>

definition stage :: "referral \<Rightarrow> nat" where
  "stage r = (case rf_status r of RefSent \<Rightarrow> 0 | RefSignedUp \<Rightarrow> 1 | RefQualified \<Rightarrow> 2 | RefPaid \<Rightarrow> 3)"

definition becomes :: "referral \<Rightarrow> referral \<Rightarrow> bool" where
  "becomes r r' = (rf_id r' = rf_id r \<and> rf_referrerUserId r' = rf_referrerUserId r \<and> rf_code r' = rf_code r \<and> stage r \<le> stage r' \<and>
     (rf_status r \<noteq> RefSent \<longrightarrow> rf_invitedUserId r' = rf_invitedUserId r))"

lemma becomes_refl [simp]: "becomes r r"
  by (simp add: becomes_def)

lemma becomes_trans: "becomes a b \<Longrightarrow> becomes b c \<Longrightarrow> becomes a c"
  unfolding becomes_def by (cases "rf_status b") (auto simp: stage_def split: referral_status.splits)

lemma set_referral_becomes:
  assumes "referral_inv bonus st" "q \<in> set (re_referrals st)" "becomes q (f q)" "r \<in> set (re_referrals st)"
  shows "\<exists>r' \<in> set (re_referrals (set_referral (rf_id q) f st)). becomes r r'"
proof -
  have "(if rf_id r = rf_id q then f r else r) \<in> set (re_referrals (set_referral (rf_id q) f st))"
    using assms(4) unfolding set_referral_def update_many_def by auto
  moreover have "r = q" if "rf_id r = rf_id q"
    using that assms(1,2,4) unfolding referral_inv_def by (auto simp: distinct_map inj_on_def)
  then have "becomes r (if rf_id r = rf_id q then f r else r)" using assms(3) by auto
  ultimately show ?thesis by blast
qed

lemma signup_becomes:
  assumes "referral_inv bonus st" "r \<in> set (re_referrals st)"
  shows "\<exists>r' \<in> set (re_referrals (onSignupCompleted_referral now signupId userId st)). becomes r r'"
proof (cases "onSignupCompleted_referral now signupId userId st = st")
  case True
  then show ?thesis using assms(2) by (intro bexI [of _ r]) simp_all
next
  case False
  then obtain q where q: "q \<in> set (re_referrals st)" "rf_status q = RefSent"
      "onSignupCompleted_referral now signupId userId st = set_referral (rf_id q) (\<lambda>x. x\<lparr>rf_invitedUserId := Some userId, rf_status := RefSignedUp, rf_resolvedAt := Some now\<rparr>) st"
    unfolding onSignupCompleted_referral_def by (auto split: option.splits if_splits dest: find_unique_SomeD)
  show ?thesis unfolding q(3) using q(2) by (intro set_referral_becomes [OF assms(1) q(1) _ assms(2)]) (simp add: becomes_def stage_def)
qed

lemma settled_becomes:
  assumes "referral_inv bonus st" "r \<in> set (re_referrals st)"
  shows "\<exists>r' \<in> set (re_referrals (onTransferSettled_referral bonus now userId deposit kind st)). becomes r r'"
proof (cases "onTransferSettled_referral bonus now userId deposit kind st = st")
  case True
  then show ?thesis using assms(2) by (intro bexI [of _ r]) simp_all
next
  case False
  then obtain q where q: "q \<in> set (re_referrals st)" "rf_status q = RefSignedUp"
      "onTransferSettled_referral bonus now userId deposit kind st = set_referral (rf_id q) (\<lambda>x. x\<lparr>rf_status := RefQualified, rf_qualifiedAt := Some now, rf_payoutCents := Some bonus\<rparr>) st"
    unfolding onTransferSettled_referral_def by (auto split: option.splits if_splits dest: find_first_SomeD)
  show ?thesis unfolding q(3) using q(2) by (intro set_referral_becomes [OF assms(1) q(1) _ assms(2)]) (simp add: becomes_def stage_def)
qed

lemma step_becomes: "referral_step bonus st st' \<Longrightarrow> referral_inv bonus st \<Longrightarrow> r \<in> set (re_referrals st) \<Longrightarrow> \<exists>r' \<in> set (re_referrals st'). becomes r r'"
proof (induction rule: referral_step.induct)
  case (rInvite now rid referrer email bufs st q st')
  then show ?case unfolding invite_Inr(7) [OF rInvite(1)] by (intro bexI [of _ r]) simp_all
next
  case (rAttach signupId code st st')
  then have "re_referrals st' = re_referrals st" by (auto simp: attachToSignup_def err_simps)
  then show ?case using rAttach by (intro bexI [of _ r]) simp_all
qed (simp_all add: signup_becomes settled_becomes)

text \<open>C34. A referral only moves forward, over any history of invitations, signups and settlements: it is taken by at most one new customer, who
  is never the referrer and never changes, codes stay unique, and exactly the qualified referrals carry the bonus.\<close>

theorem referral_moves_forward:
  assumes "(referral_step bonus)\<^sup>*\<^sup>* st st'" "referral_inv bonus st" "r \<in> set (re_referrals st)"
  shows "referral_inv bonus st' \<and> (\<exists>r' \<in> set (re_referrals st'). becomes r r')"
  using assms(1)
proof (induction rule: rtranclp_induct)
  case base
  then show ?case using assms(2,3) by (auto intro: bexI [of _ r])
next
  case (step y z)
  then obtain r' where r': "r' \<in> set (re_referrals y)" "becomes r r'" and inv: "referral_inv bonus y" by blast
  obtain r'' where "r'' \<in> set (re_referrals z)" "becomes r' r''" using step_becomes [OF step(2) inv r'(1)] by blast
  then show ?case using referral_step_inv [OF step(2) inv] becomes_trans r'(2) by blast
qed

section \<open>Direct deposit\<close>

lemma upsert_deposit_found:
  assumes "find_unique dp_userId u (pk_deposits st) = Some d" "\<And>x. dp_userId (upd x) = dp_userId x"
  shows "upsert_deposit u upd fresh st = (upd d, st\<lparr>pk_deposits := update_many (\<lambda>x. dp_userId x = u) upd (pk_deposits st)\<rparr>)"
    "find_unique dp_userId u (update_many (\<lambda>x. dp_userId x = u) upd (pk_deposits st)) = Some (upd d)"
  using assms by (simp_all add: upsert_deposit_def find_unique_update_many)

text \<open>The partner's confirmation of a request that is known activates it, and once a direct deposit is active it stays so for good: starting a
  switch to another employer leaves it active although that employer has confirmed nothing.\<close>

theorem switch_inherits_activation:
  assumes "handleWebhook now req st = Inr (d, st1)" "distinct (map dp_userId (pk_deposits st))"
    "startSwitch new_id req' (dp_userId d) employerId name site st1 = Inr (d2, st2)"
  shows "dp_active d \<and> dp_active d2 \<and> dp_partnerRequestId d2 = Some req' \<and> find_unique dp_userId (dp_userId d) (pk_deposits st2) = Some d2"
proof -
  obtain d0 where d0: "d0 \<in> set (pk_deposits st)" "dp_partnerRequestId d0 = Some req"
      "Inr (d, st1) = (if dp_active d0 then Inr (d0, st) else (Inr (upsert_deposit (dp_userId d0) (\<lambda>x. x\<lparr>dp_active := True, dp_activatedAt := Some now\<rparr>) d0 st) :: (direct_deposit \<times> perks_state) result))"
    using assms(1) unfolding handleWebhook_def by (auto simp: err_simps dest: find_first_SomeD)
  have f0: "find_unique dp_userId (dp_userId d0) (pk_deposits st) = Some d0" using assms(2) d0(1) by (rule find_unique_in_distinct)
  have d: "dp_active d" "dp_userId d = dp_userId d0" "find_unique dp_userId (dp_userId d) (pk_deposits st1) = Some d"
    using d0(3) f0 upsert_deposit_found(1) [OF f0, of "\<lambda>x. x\<lparr>dp_active := True, dp_activatedAt := Some now\<rparr>" d0]
      upsert_deposit_found(2) [OF f0, of "\<lambda>x. x\<lparr>dp_active := True, dp_activatedAt := Some now\<rparr>"] by (auto split: if_splits)
  obtain eid st3 where r: "resolve_employer new_id employerId name site st1 = (eid, st3)" by (cases "resolve_employer new_id employerId name site st1")
  then have "pk_deposits st3 = pk_deposits st1" unfolding resolve_employer_def by (auto split: if_splits option.splits)
  then have f: "find_unique dp_userId (dp_userId d) (pk_deposits st3) = Some d" using d(3) by simp
  have "Inr (d2, st2) = (Inr (upsert_deposit (dp_userId d) (\<lambda>d. d\<lparr>dp_employerId := Some eid, dp_partnerRequestId := Some req'\<rparr>)
       \<lparr>dp_userId = dp_userId d, dp_active = False, dp_activatedAt = None, dp_employerId = Some eid, dp_partnerRequestId = Some req'\<rparr> st3) :: (direct_deposit \<times> perks_state) result)"
    using assms(3) unfolding startSwitch_def r by (auto simp: err_simps)
  then show ?thesis using d(1) upsert_deposit_found(1) [OF f, of "\<lambda>d. d\<lparr>dp_employerId := Some eid, dp_partnerRequestId := Some req'\<rparr>"]
      upsert_deposit_found(2) [OF f, of "\<lambda>d. d\<lparr>dp_employerId := Some eid, dp_partnerRequestId := Some req'\<rparr>"] by auto
qed

section \<open>Deals\<close>

abbreviation deal_key :: "activated_deal \<Rightarrow> string \<times> string" where
  "deal_key a \<equiv> (ad_userId a, ad_dealId a)"

text \<open>Activating a deal again returns the activation there is and changes nothing.\<close>

lemma deal_activated_once:
  assumes "activate_deal now i u d st = Inr (a, st1)" "distinct (map deal_key (ds_activated st))" "now \<le> now'"
    "is_ok (activate_deal now' i' u d st1)"
  shows "activate_deal now' i' u d st1 = Inr (a, st1)" "distinct (map deal_key (ds_activated st1))"
proof -
  have "find_unique deal_key (u, d) (ds_activated st1) = Some a \<and> distinct (map deal_key (ds_activated st1))"
  proof (cases "find_unique deal_key (u, d) (ds_activated st)")
    case None
    then have "ad_userId a = u" "ad_dealId a = d" "ds_activated st1 = ds_activated st @ [a]"
      using assms(1) unfolding activate_deal_def create_unique_def Let_def by (auto simp: err_simps)
    moreover have "(u, d) \<notin> deal_key ` set (ds_activated st)" using None unfolding find_unique_None_iff .
    ultimately show ?thesis using None assms(2) by (simp add: find_unique_append)
  next
    case (Some x)
    then have "a = x" "st1 = st" using assms(1) unfolding activate_deal_def create_unique_def Let_def by (auto simp: err_simps)
    then show ?thesis using Some assms(2) by simp
  qed
  then have key: "find_unique deal_key (u, d) (ds_activated st1) = Some a" and dist: "distinct (map deal_key (ds_activated st1))" by blast+
  show "distinct (map deal_key (ds_activated st1))" by (rule dist)
  obtain p where "activate_deal now' i' u d st1 = Inr p" using assms(4) by (auto simp: is_ok_def split: sum.splits)
  then show "activate_deal now' i' u d st1 = Inr (a, st1)" using key unfolding activate_deal_def create_unique_def Let_def by (auto simp: err_simps)
qed

end
