(* ===== verification/Admin_Notices.thy ===== *)
theory Admin_Notices
  imports Schema Js_Date
begin

text \<open>
  The mails administrators get about signups and settled transfers (\<^verbatim>\<open>admin-notifications/admin-notifications.service.ts\<close> and its
  templates). The settings, the cache that suppresses bursts and the outgoing mails are the state (\<open>nt_dobs\<close> is the column of birth dates of the users); the decryption of
  the identity number, the location of an address and the object store are parameters.
\<close>

section \<open>Settings and state\<close>

record notice_config =
  nc_enabled :: bool
  nc_kycReviewEmail :: "string option"
  nc_notificationEmail :: "string option"
  nc_minCents :: int
  nc_burstWindowSec :: int
  nc_attachmentMaxBytes :: nat

record notice_mail =
  nm_to :: "string list"
  nm_subject :: string
  nm_text :: string
  nm_attachments :: "(string \<times> string \<times> string) list"
  nm_sentAt :: int
  nm_about :: "string \<times> bool"

record notice_doc =
  nd_ownerUserId :: string
  nd_type :: string
  nd_storageKey :: string
  nd_contentType :: string
  nd_sizeBytes :: nat

record notice_signup =
  nu_id :: string
  nu_street :: "string option"
  nu_apt :: "string option"
  nu_city :: "string option"
  nu_state :: "string option"
  nu_zip :: "string option"
  nu_ssnEncrypted :: "string option"
  nu_verifiedChannel :: "string option"

record notice_state =
  nt_bank :: bank
  nt_dobs :: "(string \<times> int) list"
  nt_signups :: "notice_signup list"
  nt_docs :: "notice_doc list"
  nt_bursts :: "(string \<times> int) list"
  nt_sent :: "notice_mail list"

text \<open>\<open>split(',').map(trim).filter(Boolean)\<close>.\<close>

definition recipients_of :: "string \<Rightarrow> string list" where
  "recipients_of s = filter (\<lambda>x. x \<noteq> '''') (map js_trim (split_on (CHR '','') s))"

section \<open>Completed signups\<close>

definition filled :: "string option list \<Rightarrow> string list" where
  "filled xs = map the (filter truthy_str xs)"

definition or_dash :: "string option \<Rightarrow> string" where
  "or_dash v = (case v of None \<Rightarrow> ''-'' | Some x \<Rightarrow> x)"

definition buildAdminUserSignupEmail :: "user \<Rightarrow> int option \<Rightarrow> notice_signup \<Rightarrow> string \<Rightarrow> string \<Rightarrow> string option list \<Rightarrow> int \<Rightarrow> string \<times> string" where
  "buildAdminUserSignupEmail u dob s ssnLast4 ip geo tm =
     (let loc = (let l = join_with '', '' (filled geo) in if l = '''' then ''unknown'' else l);
          addr = join_with '' / '' (filter (\<lambda>x. x \<noteq> '''') [join_with '' '' (filled [nu_street s, nu_apt s]), join_with '', '' (filled [nu_city s, nu_state s, nu_zip s])]) in
      (''[admin] new signup completed: '' @ u_email u,
       join_with [CHR 0x0A] [''A new user has completed signup.'', '''', ''Name:        '' @ join_with '' '' (filled [u_firstName u, u_lastName u]),
         ''Email:       '' @ u_email u, ''Phone:       '' @ or_dash (u_phoneE164 u),
         ''DOB:         '' @ or_dash (map_option (\<lambda>d. take 10 (toISOString d)) dob),
         ''Address:     '' @ (if addr = '''' then ''-'' else addr), ''SSN (last4): '' @ ssnLast4, ''Verified via: '' @ or_dash (nu_verifiedChannel s),
         ''Signup IP:   '' @ ip, ''Location:    '' @ loc, ''When:        '' @ toISOString tm, '''', ''KYC documents are attached for review.'']))"

definition extensionFromMime :: "string \<Rightarrow> string" where
  "extensionFromMime m = (if m = ''application/pdf'' then ''pdf'' else if m = ''image/png'' then ''png'' else ''jpg'')"

text \<open>Documents are attached as long as their sizes fit; one that cannot be read is left out and does not count.\<close>

fun attach_docs :: "(string \<Rightarrow> string option) \<Rightarrow> nat \<Rightarrow> nat \<Rightarrow> notice_doc list \<Rightarrow> (string \<times> string \<times> string) list" where
  "attach_docs fetch maxBytes used [] = []"
| "attach_docs fetch maxBytes used (d # ds) =
     (if maxBytes < used + nd_sizeBytes d then attach_docs fetch maxBytes used ds
      else case fetch (nd_storageKey d) of
        None \<Rightarrow> attach_docs fetch maxBytes used ds
      | Some buf \<Rightarrow> (nd_type d @ ''.'' @ extensionFromMime (nd_contentType d), buf, nd_contentType d) # attach_docs fetch maxBytes (used + nd_sizeBytes d) ds)"

definition signup_recipients :: "notice_config \<Rightarrow> string list" where
  "signup_recipients cfg = recipients_of (case nc_kycReviewEmail cfg of Some e \<Rightarrow> e | None \<Rightarrow> (case nc_notificationEmail cfg of Some e \<Rightarrow> e | None \<Rightarrow> ''''))"

definition ssn_last4 :: "(string \<Rightarrow> string option) \<Rightarrow> notice_signup \<Rightarrow> string" where
  "ssn_last4 decrypt s =
     (if \<not> truthy_str (nu_ssnEncrypted s) then ''-''
      else case decrypt (the (nu_ssnEncrypted s)) of None \<Rightarrow> ''-'' | Some plain \<Rightarrow> drop (length plain - 4) plain)"

definition onSignupCompleted_notice :: "notice_config \<Rightarrow> (string \<Rightarrow> string option) \<Rightarrow> (string \<Rightarrow> string option list) \<Rightarrow> (string \<Rightarrow> string option) \<Rightarrow> int \<Rightarrow> string \<Rightarrow> string \<Rightarrow> string \<Rightarrow> notice_state \<Rightarrow> notice_state" where
  "onSignupCompleted_notice cfg decrypt locate fetch tm userId signupId ip st =
     (if \<not> nc_enabled cfg \<or> signup_recipients cfg = [] then st
      else case (user_of (nt_bank st) userId, find_unique nu_id signupId (nt_signups st)) of
        (Some u, Some s) \<Rightarrow>
          (let m = buildAdminUserSignupEmail u (map_of (nt_dobs st) userId) s (ssn_last4 decrypt s) ip (locate ip) tm;
               docs = filter (\<lambda>d. nd_ownerUserId d = userId) (nt_docs st) in
           st\<lparr>nt_sent := nt_sent st @ [\<lparr>nm_to = signup_recipients cfg, nm_subject = fst m, nm_text = snd m,
              nm_attachments = attach_docs fetch (nc_attachmentMaxBytes cfg) 0 docs, nm_sentAt = tm, nm_about = (userId, False)\<rparr>]\<rparr>)
      | _ \<Rightarrow> st)"

section \<open>Settled transfers\<close>

definition direction_name :: "bool \<Rightarrow> string" where
  "direction_name deposit = (if deposit then ''deposit'' else ''withdrawal'')"

definition burst_key :: "string \<Rightarrow> bool \<Rightarrow> string" where
  "burst_key userId deposit = ''admin-notify:transfer:'' @ userId @ '':'' @ direction_name deposit"

text \<open>An amount of cents as \<open>n / 100\<close> prints, without trailing zeros.\<close>

definition plain_amount :: "int \<Rightarrow> string" where
  "plain_amount c =
     (let q = show_digits (\<bar>c\<bar> div 100); r = \<bar>c\<bar> mod 100; sign = (if c < 0 then ''-'' else '''') in
      if r = 0 then sign @ q else if r mod 10 = 0 then sign @ q @ ''.'' @ show_digits (r div 10) else sign @ q @ ''.'' @ pad2 (show_digits r))"

definition buildAdminTransferEmail :: "bool \<Rightarrow> string \<Rightarrow> int \<Rightarrow> string \<Rightarrow> int \<Rightarrow> string \<times> string" where
  "buildAdminTransferEmail deposit email cents acct tm =
     (if deposit then (''[admin] deposit '' @ plain_amount cents @ '' USD, '' @ email,
        ''User '' @ email @ '' deposited '' @ plain_amount cents @ '' USD into account '' @ acct @ '' at '' @ toISOString tm @ ''.'')
      else (''[admin] withdrawal '' @ plain_amount cents @ '' USD, '' @ email,
        ''User '' @ email @ '' withdrew '' @ plain_amount cents @ '' USD from account '' @ acct @ '' at '' @ toISOString tm @ ''.''))"

definition in_burst :: "int \<Rightarrow> string \<Rightarrow> notice_state \<Rightarrow> bool" where
  "in_burst now key st = (case map_of (nt_bursts st) key of None \<Rightarrow> False | Some fin \<Rightarrow> now < fin)"

definition onTransferSettled_notice :: "notice_config \<Rightarrow> int \<Rightarrow> string \<Rightarrow> bool \<Rightarrow> int \<Rightarrow> int \<Rightarrow> notice_state \<Rightarrow> notice_state" where
  "onTransferSettled_notice cfg now userId deposit cents settledAt st =
     (if \<not> nc_enabled cfg \<or> cents < nc_minCents cfg \<or> in_burst now (burst_key userId deposit) st then st
      else
        (let st1 = st\<lparr>nt_bursts := (burst_key userId deposit, now + nc_burstWindowSec cfg * 1000) # nt_bursts st\<rparr>;
             recipients = recipients_of (case nc_notificationEmail cfg of Some e \<Rightarrow> e | None \<Rightarrow> '''') in
         if recipients = [] then st1
         else case user_of (nt_bank st) userId of
           None \<Rightarrow> st1
         | Some u \<Rightarrow>
             (let acct = (case find_first (\<lambda>a. a_userId a = userId) (db_accounts (nt_bank st)) of None \<Rightarrow> ''-'' | Some a \<Rightarrow> a_id a);
                  m = buildAdminTransferEmail deposit (u_email u) cents acct settledAt in
              st1\<lparr>nt_sent := nt_sent st @ [\<lparr>nm_to = recipients, nm_subject = fst m, nm_text = snd m, nm_attachments = [], nm_sentAt = now, nm_about = (userId, deposit)\<rparr>]\<rparr>)))"

section \<open>Bounds\<close>

definition stored_sizes :: "(string \<Rightarrow> string option) \<Rightarrow> notice_doc list \<Rightarrow> bool" where
  "stored_sizes fetch ds = list_all (\<lambda>d. case fetch (nd_storageKey d) of None \<Rightarrow> True | Some buf \<Rightarrow> length buf = nd_sizeBytes d) ds"

lemma attach_docs_bounded:
  "stored_sizes fetch ds \<Longrightarrow> used \<le> maxBytes \<Longrightarrow> used + sum_list (map (\<lambda>a. length (fst (snd a))) (attach_docs fetch maxBytes used ds)) \<le> maxBytes"
proof (induction ds arbitrary: used)
  case (Cons d ds)
  show ?case
  proof (cases "maxBytes < used + nd_sizeBytes d")
    case True
    then show ?thesis using Cons by (simp add: stored_sizes_def)
  next
    case False
    then show ?thesis using Cons.IH [of used] Cons.IH [of "used + nd_sizeBytes d"] Cons.prems by (cases "fetch (nd_storageKey d)") (auto simp: stored_sizes_def)
  qed
qed simp

text \<open>The mail about a signup carries at most the configured number of bytes in attachments, when the sizes on record are those of the stored files.\<close>

theorem signup_mail_bounded:
  assumes "stored_sizes fetch (nt_docs st)" "m \<in> set (nt_sent (onSignupCompleted_notice cfg decrypt locate fetch tm userId signupId ip st))" "m \<notin> set (nt_sent st)"
  shows "sum_list (map (\<lambda>a. length (fst (snd a))) (nm_attachments m)) \<le> nc_attachmentMaxBytes cfg \<and> nm_to m = signup_recipients cfg"
proof -
  have s: "stored_sizes fetch (filter P (nt_docs st))" for P using assms(1) by (auto simp: stored_sizes_def list_all_iff)
  show ?thesis using assms(2,3) attach_docs_bounded [OF s, of 0 "nc_attachmentMaxBytes cfg"]
    by (auto simp: onSignupCompleted_notice_def Let_def split: if_splits option.splits)
qed

text \<open>A run of events, each with its time, and the mails they leave.\<close>

fun settle_events :: "notice_config \<Rightarrow> (int \<times> string \<times> bool \<times> int) list \<Rightarrow> notice_state \<Rightarrow> notice_state" where
  "settle_events cfg [] st = st"
| "settle_events cfg ((now, u, dep, cents) # es) st = settle_events cfg es (onTransferSettled_notice cfg now u dep cents now st)"

definition mail_key :: "notice_mail \<Rightarrow> string" where
  "mail_key m = burst_key (fst (nm_about m)) (snd (nm_about m))"

definition spaced :: "int \<Rightarrow> notice_mail list \<Rightarrow> bool" where
  "spaced w ms = sorted_wrt (\<lambda>m m'. mail_key m = mail_key m' \<longrightarrow> nm_sentAt m + w * 1000 \<le> nm_sentAt m') ms"

definition burst_inv :: "notice_config \<Rightarrow> notice_state \<Rightarrow> bool" where
  "burst_inv cfg st = (spaced (nc_burstWindowSec cfg) (nt_sent st) \<and>
     (\<forall>m \<in> set (nt_sent st). \<exists>fin. map_of (nt_bursts st) (mail_key m) = Some fin \<and> nm_sentAt m + nc_burstWindowSec cfg * 1000 \<le> fin))"

lemma settled_cases:
  obtains (silent) "onTransferSettled_notice cfg now u dep cents tm st = st"
  | (noted) ms where "\<not> in_burst now (burst_key u dep) st"
      "nt_bursts (onTransferSettled_notice cfg now u dep cents tm st) = (burst_key u dep, now + nc_burstWindowSec cfg * 1000) # nt_bursts st"
      "nt_sent (onTransferSettled_notice cfg now u dep cents tm st) = nt_sent st @ ms" "ms = [] \<or> (\<exists>m. ms = [m] \<and> nm_sentAt m = now \<and> mail_key m = burst_key u dep)"
proof (cases "\<not> nc_enabled cfg \<or> cents < nc_minCents cfg \<or> in_burst now (burst_key u dep) st")
  case True
  then show thesis by (intro silent) (simp add: onTransferSettled_notice_def)
next
  case False
  let ?rs = "recipients_of (case nc_notificationEmail cfg of Some e \<Rightarrow> e | None \<Rightarrow> '''')"
  show thesis
  proof (cases "?rs = [] \<or> user_of (nt_bank st) u = None")
    case True
    then show thesis using False by (intro noted [of "[]"]) (auto simp: onTransferSettled_notice_def Let_def)
  next
    case to: False
    then obtain x where "user_of (nt_bank st) u = Some x" by blast
    then show thesis using False to by (intro noted [of "[last (nt_sent (onTransferSettled_notice cfg now u dep cents tm st))]"])
        (auto simp: onTransferSettled_notice_def Let_def mail_key_def)
  qed
qed

lemma burst_step:
  assumes "burst_inv cfg st" "0 \<le> nc_burstWindowSec cfg"
  shows "burst_inv cfg (onTransferSettled_notice cfg now u dep cents tm st)"
proof (rule settled_cases [of cfg now u dep cents tm st])
  assume "onTransferSettled_notice cfg now u dep cents tm st = st"
  then show ?thesis using assms(1) by simp
next
  fix ms
  let ?st = "onTransferSettled_notice cfg now u dep cents tm st"
  assume quiet: "\<not> in_burst now (burst_key u dep) st"
    and b: "nt_bursts ?st = (burst_key u dep, now + nc_burstWindowSec cfg * 1000) # nt_bursts st" and s: "nt_sent ?st = nt_sent st @ ms"
    and ms: "ms = [] \<or> (\<exists>m. ms = [m] \<and> nm_sentAt m = now \<and> mail_key m = burst_key u dep)"
  have old: "nm_sentAt m + nc_burstWindowSec cfg * 1000 \<le> now" if "m \<in> set (nt_sent st)" "mail_key m = burst_key u dep" for m
    using that assms(1) quiet unfolding burst_inv_def in_burst_def by fastforce
  have "\<exists>fin. map_of (nt_bursts ?st) (mail_key m) = Some fin \<and> nm_sentAt m + nc_burstWindowSec cfg * 1000 \<le> fin" if m: "m \<in> set (nt_sent ?st)" for m
  proof (cases "mail_key m = burst_key u dep")
    case True
    have "nm_sentAt m \<le> now" using m ms old [OF _ True] assms(2) unfolding s by fastforce
    then show ?thesis using True unfolding b by simp
  next
    case False
    then have "m \<in> set (nt_sent st)" using m ms unfolding s by auto
    then show ?thesis using assms(1) False unfolding burst_inv_def b by simp
  qed
  moreover have "spaced (nc_burstWindowSec cfg) (nt_sent ?st)"
    using assms(1) ms old unfolding s burst_inv_def spaced_def by (auto simp: sorted_wrt_append)
  ultimately show ?thesis unfolding burst_inv_def by blast
qed

text \<open>Administrators get at most one mail per customer and direction in each burst window: two mails about the same are at least a window apart,
  however many transfers settle and in whatever order.\<close>

theorem notices_spaced:
  assumes "0 \<le> nc_burstWindowSec cfg" "nt_sent st = []"
  shows "spaced (nc_burstWindowSec cfg) (nt_sent (settle_events cfg es st))"
proof -
  have "burst_inv cfg (settle_events cfg es st)" if "burst_inv cfg st" for st
    using that
  proof (induction es arbitrary: st)
    case (Cons e es)
    then show ?case by (cases e) (simp add: burst_step [OF _ assms(1)])
  qed simp
  moreover have "burst_inv cfg st" using assms(2) by (simp add: burst_inv_def spaced_def)
  ultimately show ?thesis unfolding burst_inv_def by blast
qed

text \<open>A large transfer right after a small one goes unreported.\<close>

lemma burst_hides_amount:
  assumes "in_burst now (burst_key u dep) st"
  shows "onTransferSettled_notice cfg now u dep cents tm st = st"
  using assms by (simp add: onTransferSettled_notice_def)

end
