(* ===== verification/Samples_Office.thy ===== *)
theory Samples_Office
  imports Samples_Desk User_Deletion Realtime Insights Perks Admin_Notices
begin

text \<open>
  Concrete runs of the deletion of a user, the realtime gateway, the statements, the insights and the referrals.
\<close>

section \<open>Deletion\<close>

definition ann_rows :: db where
  "ann_rows =
     [\<lparr>rw_table = ''User'', rw_id = ''u1'', rw_cols = [(''email'', Some ''Ann@x''), (''role'', Some ''customer'')]\<rparr>,
      \<lparr>rw_table = ''Account'', rw_id = ''a1'', rw_cols = [(''userId'', Some ''u1'')]\<rparr>,
      \<lparr>rw_table = ''Transaction'', rw_id = ''t1'', rw_cols = [(''accountId'', Some ''a1'')]\<rparr>,
      \<lparr>rw_table = ''TransactionOverride'', rw_id = ''o1'', rw_cols = [(''transactionId'', Some ''t1'')]\<rparr>,
      \<lparr>rw_table = ''Device'', rw_id = ''d1'', rw_cols = [(''userId'', Some ''u1'')]\<rparr>,
      \<lparr>rw_table = ''Session'', rw_id = ''s1'', rw_cols = [(''userId'', Some ''u1''), (''deviceId'', Some ''d1'')]\<rparr>]"

definition reset_row :: db_row where
  "reset_row = \<lparr>rw_table = ''PasswordResetChallenge'', rw_id = ''p1'', rw_cols = [(''userId'', Some ''u1'')]\<rparr>"

definition files :: "db \<Rightarrow> deletion_state" where
  "files db = \<lparr>dd_rows = db, dd_audit = []\<rparr>"

lemma ann_rows_ok: "integrity ann_rows" "integrity (reset_row # ann_rows)" "device_owner ann_rows" "device_owner (reset_row # ann_rows)"
  unfolding integrity_code by code_simp+

lemma ann_found:
  "find_first (\<lambda>r. rw_table r = ''User'' \<and> rw_id r = ''u1'') ann_rows = Some (ann_rows ! 0)"
  "find_first (\<lambda>r. rw_table r = ''User'' \<and> rw_id r = ''u1'') (reset_row # ann_rows) = Some (ann_rows ! 0)"
  "text_col ''role'' (ann_rows ! 0) = ''customer''" "to_lower (js_trim '' ann@X'') = to_lower (js_trim (text_col ''email'' (ann_rows ! 0)))" "to_lower (js_trim '' ann@X'') \<noteq> ''''"
  by code_simp+

lemma ann_resets: "absent ''PasswordResetChallenge'' ''userId'' [''u1''] ann_rows" "\<not> absent ''PasswordResetChallenge'' ''userId'' [''u1''] (reset_row # ann_rows)"
  unfolding absent_def by code_simp+

lemma ann_deletable: "is_ok (hardDelete 50 ''u9'' ''admin'' ''u1'' (Some '' ann@X'') ''asked for it'' (files ann_rows))"
  using hardDelete_ok_iff [of "files ann_rows" "''admin''" "''u9''" "''u1''" "ann_rows ! 0" "'' ann@X''" 50 "''asked for it''"] ann_rows_ok(1,3) ann_found(1,3-5) ann_resets(1)
  by (simp add: files_def)

theorem deletion_witness:
  "is_ok (hardDelete 50 ''u9'' ''admin'' ''u1'' (Some '' ann@X'') ''asked for it'' (files ann_rows)) \<and>
   \<not> is_ok (hardDelete 50 ''u9'' ''admin'' ''u1'' (Some '' ann@X'') ''asked for it'' (files (reset_row # ann_rows)))"
proof -
  have "is_ok (hardDelete 50 ''u9'' ''admin'' ''u1'' (Some '' ann@X'') ''asked for it'' (files db)) = absent ''PasswordResetChallenge'' ''userId'' [''u1''] db"
    if "integrity db" "device_owner db" "find_first (\<lambda>r. rw_table r = ''User'' \<and> rw_id r = ''u1'') db = Some (ann_rows ! 0)" for db
    using deletion_succeeds_iff_no_reset [of "files db" "''admin''" "''u9''" "''u1''" "ann_rows ! 0" "'' ann@X''" 50 "''asked for it''"] that ann_found(3-5)
    by (simp add: files_def)
  then show ?thesis using ann_rows_ok ann_found(1,2) ann_resets by simp
qed

theorem deleted_user_witness:
  "\<exists>counts st. hardDelete 50 ''u9'' ''admin'' ''u1'' (Some '' ann@X'') ''asked for it'' (files ann_rows) = Inr (counts, st) \<and>
     integrity (dd_rows st) \<and> (\<forall>r \<in> set (dd_rows st). \<not> (rw_table r = ''User'' \<and> rw_id r = ''u1''))"
proof -
  obtain p where "hardDelete 50 ''u9'' ''admin'' ''u1'' (Some '' ann@X'') ''asked for it'' (files ann_rows) = Inr p" using ann_deletable by (rule is_okE)
  then obtain counts st where h: "hardDelete 50 ''u9'' ''admin'' ''u1'' (Some '' ann@X'') ''asked for it'' (files ann_rows) = Inr (counts, st)" by (cases p) auto
  have "integrity (dd_rows (files ann_rows))" using ann_rows_ok(1) by (simp add: files_def)
  from deleted_user_leaves_no_key [OF h this] h show ?thesis by blast
qed

section \<open>Realtime\<close>

definition no_decode :: "string \<Rightarrow> string option" where
  "no_decode s = Some s"

definition hello :: "string \<Rightarrow> handshake" where
  "hello token = \<lparr>hs_guestToken = None, hs_token = Some token, hs_authorization = None, hs_cookie = None\<rparr>"

definition two_tokens :: crypto where
  "two_tokens = plain_lib\<lparr>cr_verify := (\<lambda>n t. if t = ''ann'' then Some ((no_claims ''j1'')\<lparr>jc_sub := Some ''u1'', jc_sid := Some ''s1'', jc_role := Some ''customer''\<rparr>)
     else if t = ''adm'' then Some ((no_claims ''j2'')\<lparr>jc_sub := Some ''u9'', jc_sid := Some ''s9'', jc_role := Some ''admin''\<rparr>) else None)\<rparr>"

definition ann_online :: gateway where
  "ann_online = handleConnection two_tokens no_decode 10 ''k1'' (hello ''ann'') empty_gateway"

definition both_online :: gateway where
  "both_online = handleConnection two_tokens no_decode 20 ''k2'' (hello ''adm'') ann_online"

definition ann_socket :: socket where
  "ann_socket = \<lparr>sk_id = ''k1'', sk_userId = Some ''u1'', sk_sessionId = Some ''s1'', sk_role = Some ''customer'', sk_guest = False, sk_guestThreadId = None,
     sk_rooms = [''user:u1'', ''session:s1'']\<rparr>"

lemma two_tokens_named: "admins_named two_tokens"
  by (auto simp: admins_named_def two_tokens_def truthy_str_def is_admin_role_def no_claims_def split: if_splits)

lemma ann_connects: "(gateway_step two_tokens no_decode)\<^sup>*\<^sup>* empty_gateway ann_online"
  unfolding ann_online_def by (rule r_into_rtranclp, rule gConnect [OF two_tokens_named]) (simp add: empty_gateway_def)

lemma online_facts: "gw_sockets ann_online = [ann_socket]" "map sk_id (gw_sockets both_online) = [''k1'', ''k2'']" "computePresence both_online = Away" "computePresence ann_online = Offline"
  by code_simp+

lemma both_connect: "(gateway_step two_tokens no_decode)\<^sup>*\<^sup>* empty_gateway both_online"
proof -
  have "gateway_step two_tokens no_decode ann_online both_online"
    unfolding both_online_def by (rule gConnect [OF two_tokens_named]) (simp add: online_facts ann_socket_def)
  then show ?thesis using ann_connects by simp
qed



theorem revoked_session_witness:
  "(ann_socket, WBalanceChanged ''u1'' ''a1'' 500 (toISOString 40)) \<in>
     set (gw_sent (onAccountBalanceChanged ''u1'' ''a1'' 500 40 (onSessionRevoked ''u1'' ''s1'' ''newer_login'' 30 ann_online)))"
  using revoked_session_keeps_listening [OF ann_connects, of ann_socket "''u1''" "''s1''" "''newer_login''" 30 "''a1''" 500 40] by (simp add: online_facts ann_socket_def)

theorem pending_sign_in_witness:
  "\<exists>s. sk_id s = ''k7'' \<and> (s, WBalanceChanged ''u1'' ''a1'' 500 (toISOString 40)) \<in>
     set (gw_sent (onAccountBalanceChanged ''u1'' ''a1'' 500 40 (handleConnection plain_lib no_decode 30 ''k7'' (hello (signMfa plain_lib default_auth_config 20 ''j'' ''u1'' ''c1'')) empty_gateway)))"
proof -
  have "30 div 1000 < 20 div 1000 + av_mfaTtl default_auth_config div (1000 :: int)" "signMfa plain_lib default_auth_config 20 ''j'' ''u1'' ''c1'' \<noteq> ''''" by code_simp+
  from pending_sign_in_opens_feed [OF plain_lib_laws(1) this hello_def [of "signMfa plain_lib default_auth_config 20 ''j'' ''u1'' ''c1''"]]
  show ?thesis .
qed

section \<open>Statements\<close>

definition tx_at :: "string \<Rightarrow> tx_status \<Rightarrow> int \<Rightarrow> int \<Rightarrow> transaction" where
  "tx_at i s c w = \<lparr>t_id = i, t_accountId = ''c1'', t_kind = KDeposit, t_status = s, t_amountCents = c, t_description = ''x'', t_category = CatOther, t_note = None,
     t_occurredAt = w, t_postedAt = None, t_metadata = None\<rparr>"

text \<open>January 2026: a deposit before it, two transactions in it, one of them pending, and the job on the first of February.\<close>

definition book :: "transaction list" where
  "book = [tx_at ''x3'' TxPending (- 700) 1769800000000, tx_at ''x2'' TxPosted (- 250) 1768000000000, tx_at ''x1'' TxPosted 1000 1766000000000]"

definition archive :: statement_state where
  "archive = \<lparr>ss_bank = sample_bank\<lparr>db_transactions := book\<rparr>, ss_statements = [], ss_store = []\<rparr>"

definition no_layout :: renderer where
  "no_layout v = Inr (fmtCents False (sv_closingBalanceCents v))"

definition ann_account :: account where "ann_account = sample_account ''c1'' ''u1'' Checking 200000"
definition ann_user :: user where "ann_user = sample_user ''u1'' ''Ann''"

lemma january: "startOfPriorMonthUTC 1769922000000 = (1767225600000, 1769904000000)" "startOfPriorMonthUTC 1772341200000 = (1769904000000, 1772323200000)"
  "12 * getUTCFullYear 1772341200000 + getUTCMonth 1772341200000 = 12 * getUTCFullYear 1769922000000 + getUTCMonth 1769922000000 + 1"
  by code_simp+

lemma archive_facts: "account_of (ss_bank archive) ''c1'' = Some ann_account" "user_of (ss_bank archive) (a_userId ann_account) = Some ann_user" "a_status ann_account = AcctActive"
  by code_simp+

theorem statement_adds_up_witness:
  "sv_closingBalanceCents (statement_of ann_account ann_user 1767225600000 1769904000000 0 book) = 750 \<and>
   map sl_runningBalanceCents (sv_transactions (statement_of ann_account ann_user 1767225600000 1769904000000 0 book)) = [750]"
proof -
  let ?s = "statement_of ann_account ann_user 1767225600000 1769904000000 0 book"
  have f: "sv_openingBalanceCents ?s = 1000" "sv_totalInCents ?s = 0" "sv_totalOutCents ?s = 250" "map sl_amountCents (sv_transactions ?s) = [- 250]" by code_simp+
  then have l: "length (sv_transactions ?s) = 1" by (metis length_map length_Cons list.size(3) One_nat_def)
  from statement_adds_up [of ann_account ann_user 1767225600000 1769904000000 0 book] f l
  have "sv_closingBalanceCents ?s = 750" "sl_runningBalanceCents (sv_transactions ?s ! 0) = 750" by simp_all
  then show ?thesis using l by (cases "sv_transactions ?s") simp_all
qed

theorem monthly_run_witness:
  "\<exists>!r. r \<in> set (ss_statements (monthlyRun no_layout 1769922000000 (\<lambda>i. i) archive)) \<and> period_key r = (''c1'', 1767225600000)"
proof -
  have "periods_unique archive" by (simp add: periods_unique_def archive_def)
  moreover have "is_ok (no_layout v)" for v by (simp add: no_layout_def)
  ultimately show ?thesis
    using monthly_run_complete [of archive 1769922000000 1767225600000 1769904000000 "''c1''" ann_account ann_user no_layout "\<lambda>i. i"] january(1) archive_facts by simp
qed

theorem monthly_chain_witness:
  "sv_openingBalanceCents (statement_of ann_account ann_user 1769904000000 1772323200000 0 book) = sv_closingBalanceCents (statement_of ann_account ann_user 1767225600000 1769904000000 0 book)"
  using monthly_statements_chain [OF january(3,1,2), of ann_account ann_user 0 book 0] by simp


theorem custom_statement_witness:
  "\<exists>pdf name. renderCustom no_layout ''u1'' ''c1'' (Some 1767225600000) (Some 1769904000000) archive = Inr (pdf, name) \<and>
     (\<exists>a. account_of (ss_bank archive) ''c1'' = Some a \<and> a_userId a = ''u1'')"
proof -
  have "a_userId ann_account = ''u1''" by code_simp
  then have "is_ok (renderCustom no_layout ''u1'' ''c1'' (Some 1767225600000) (Some 1769904000000) archive)"
    using archive_facts by (simp add: renderCustom_def account_with_user_def no_layout_def Let_def)
  then obtain p where "renderCustom no_layout ''u1'' ''c1'' (Some 1767225600000) (Some 1769904000000) archive = Inr p" by (rule is_okE)
  then obtain pdf name where r: "renderCustom no_layout ''u1'' ''c1'' (Some 1767225600000) (Some 1769904000000) archive = Inr (pdf, name)" by (cases p) auto
  from custom_statement_covers_days [OF r] r show ?thesis by blast
qed

section \<open>Insights\<close>

definition charts :: insights_state where
  "charts = \<lparr>is_bank = sample_bank\<lparr>db_transactions := book\<rparr>, is_cache = [(monthly_key ''u1'' None 12, CachedMonths [], 1770000000000)]\<rparr>"

theorem insights_fresh_witness:
  "map_sum (\<lambda>x. x) fst (monthly True 30 1769922000000 ''u1'' None 12 charts) = Inr [] \<and>
   map_sum (\<lambda>x. x) fst (monthly True 30 1769922000000 ''u1'' None 12 (on_insights_event True (EvAccountBalanceChanged ''u1'' ''c1'' 50 0) charts)) =
     Inr (monthly_rows [''c1'', ''s1''] 1769922000000 12 book)"
proof -
  have "map_sum (\<lambda>x. x) fst (monthly True 30 1769922000000 ''u1'' None 12 charts) = Inr []" by code_simp
  moreover have "event_user (EvAccountBalanceChanged ''u1'' ''c1'' 50 0) = Some ''u1''" "CHR ''*'' \<notin> set ''u1''" "accounts_in_reach ''u1'' None (is_bank charts) = Inr [''c1'', ''s1'']"
    by code_simp+
  ultimately show ?thesis
    using insights_fresh_after_event [of "EvAccountBalanceChanged ''u1'' ''c1'' 50 0" "''u1''" None charts "[''c1'', ''s1'']" 30 1769922000000 12 0] by (simp add: charts_def)
qed

section \<open>Referrals and direct deposit\<close>

definition invited :: referral_state where
  "invited = \<lparr>re_referrals = [\<lparr>rf_id = ''r1'', rf_referrerUserId = ''u1'', rf_invitedEmail = None, rf_invitedUserId = None, rf_code = ''AAAA'', rf_status = RefSent,
     rf_payoutCents = None, rf_createdAt = 0, rf_resolvedAt = None, rf_qualifiedAt = None\<rparr>], re_signups = [\<lparr>sc_id = ''g1'', sc_referralCode = Some ''AAAA''\<rparr>]\<rparr>"

definition promoted :: referral_state where
  "promoted = onTransferSettled_referral 2500 30 ''u2'' True AchIn (onSignupCompleted_referral 20 ''g1'' ''u2'' invited)"

theorem referral_witness:
  "\<exists>r' \<in> set (re_referrals promoted). becomes (hd (re_referrals invited)) r' \<and> rf_invitedUserId r' = Some ''u2'' \<and> rf_payoutCents r' = Some 2500"
proof -
  have "(referral_step 2500)\<^sup>*\<^sup>* invited promoted"
    unfolding promoted_def
    by (rule rtranclp.rtrancl_into_rtrancl [where b = "onSignupCompleted_referral 20 ''g1'' ''u2'' invited"]) (rule r_into_rtranclp, rule rSignup, rule rSettled)
  moreover have "referral_inv 2500 invited" by (simp add: invited_def referral_inv_def referral_ok_def)
  moreover have "hd (re_referrals invited) \<in> set (re_referrals invited)" by (simp add: invited_def)
  moreover have "map rf_invitedUserId (re_referrals promoted) = [Some ''u2'']" "map rf_payoutCents (re_referrals promoted) = [Some 2500]" by code_simp+
  ultimately show ?thesis using referral_moves_forward [of 2500 invited promoted "hd (re_referrals invited)"] by (cases "re_referrals promoted") auto
qed

definition switching :: perks_state where
  "switching = \<lparr>pk_bank = sample_bank, pk_employers = [], pk_deposits = [\<lparr>dp_userId = ''u1'', dp_active = False, dp_activatedAt = None, dp_employerId = Some ''e1'', dp_partnerRequestId = Some ''q1''\<rparr>]\<rparr>"

theorem switch_witness:
  "\<exists>d st1 d2 st2. handleWebhook 10 ''q1'' switching = Inr (d, st1) \<and> startSwitch ''e2'' ''q2'' (dp_userId d) None ''Acme'' None st1 = Inr (d2, st2) \<and> dp_active d2 \<and> dp_employerId d2 = Some ''e2''"
proof -
  have f: "case handleWebhook 10 ''q1'' switching of Inl _ \<Rightarrow> False | Inr (d, st1) \<Rightarrow>
      (case startSwitch ''e2'' ''q2'' (dp_userId d) None ''Acme'' None st1 of Inl _ \<Rightarrow> False | Inr (d2, st2) \<Rightarrow> dp_employerId d2 = Some ''e2'')" by code_simp
  then obtain d st1 where w: "handleWebhook 10 ''q1'' switching = Inr (d, st1)" by (auto split: sum.splits)
  then obtain d2 st2 where s: "startSwitch ''e2'' ''q2'' (dp_userId d) None ''Acme'' None st1 = Inr (d2, st2)" using f by (auto split: sum.splits)
  have "distinct (map dp_userId (pk_deposits switching))" by (simp add: switching_def)
  from switch_inherits_activation [OF w this s] f w s show ?thesis by auto
qed

end
