(* ===== verification/Profile.thy ===== *)
theory Profile
  imports Schema Js_Date "HOL-Library.Char_ord" "HOL-Library.List_Lexorder" "HOL-Library.Product_Lexorder"
begin

text \<open>
  What a customer sees and changes of himself (\<^verbatim>\<open>profile/\<close>), the storage driver for files on disk
  (\<^verbatim>\<open>documents/storage/filesystem.storage.ts\<close>), the policy documents (\<^verbatim>\<open>policy-docs/policy-docs.service.ts\<close>), the
  permissions of roles (\<^verbatim>\<open>rbac/\<close>), the store of idempotency keys (\<^verbatim>\<open>idempotency/\<close>) and the scheduled backup
  (\<^verbatim>\<open>backup/\<close>). The image library, the PDF library and the database tools are parameters.
\<close>

section \<open>Profile and preferences\<close>

record profile_user = user +
  pu_dob :: "int option"
  pu_bio :: "string option"
  pu_securitySetupRequired :: bool

record user_preference =
  up_userId :: string
  up_theme :: string
  up_doNotSell :: bool
  up_marketingData :: bool
  up_analytics :: bool
  up_shareContacts :: bool

record profile_state =
  pf_users :: "profile_user list"
  pf_preferences :: "user_preference list"

record profile_view =
  pv_id :: string
  pv_email :: string
  pv_phoneE164 :: "string option"
  pv_novaTag :: "string option"
  pv_firstName :: "string option"
  pv_lastName :: "string option"
  pv_dob :: "string option"
  pv_avatarUrl :: "string option"
  pv_bio :: "string option"
  pv_role :: user_role
  pv_status :: user_status
  pv_securitySetupRequired :: bool

definition view_of :: "profile_user \<Rightarrow> profile_view" where
  "view_of u = \<lparr>pv_id = u_id u, pv_email = u_email u, pv_phoneE164 = u_phoneE164 u, pv_novaTag = u_novaTag u, pv_firstName = u_firstName u,
     pv_lastName = u_lastName u, pv_dob = map_option (\<lambda>d. take 10 (toISOString d)) (pu_dob u), pv_avatarUrl = u_avatarUrl u, pv_bio = pu_bio u,
     pv_role = u_role u, pv_status = u_status u, pv_securitySetupRequired = pu_securitySetupRequired u\<rparr>"

definition me :: "string \<Rightarrow> profile_state \<Rightarrow> profile_view result" where
  "me userId st = ebind (or_throw (NotFound ''User not found'') (find_unique u_id userId (pf_users st))) (\<lambda>u. Inr (view_of u))"

record profile_dto =
  pd_firstName :: "string option"
  pd_lastName :: "string option"
  pd_novaTag :: "string option"
  pd_bio :: "string option"
  pd_phoneE164 :: "string option"

text \<open>\<open>x ?? undefined\<close> leaves the column as it is.\<close>

definition or_kept :: "'a option \<Rightarrow> 'a option \<Rightarrow> 'a option" where
  "or_kept given old = (if given = None then old else given)"

definition write_profile :: "profile_dto \<Rightarrow> profile_user \<Rightarrow> profile_user" where
  "write_profile dto u = u\<lparr>u_firstName := or_kept (pd_firstName dto) (u_firstName u), u_lastName := or_kept (pd_lastName dto) (u_lastName u),
     u_novaTag := or_kept (pd_novaTag dto) (u_novaTag u), pu_bio := or_kept (pd_bio dto) (pu_bio u), u_phoneE164 := or_kept (pd_phoneE164 dto) (u_phoneE164 u)\<rparr>"

text \<open>Another user has the value in a column.\<close>

definition other_has :: "(profile_user \<Rightarrow> string option) \<Rightarrow> string option \<Rightarrow> string \<Rightarrow> profile_user list \<Rightarrow> bool" where
  "other_has key v userId us = (v \<noteq> None \<and> list_ex (\<lambda>u. key u = v \<and> u_id u \<noteq> userId) us)"

text \<open>The two checks skip an empty string; the unique columns of the table do not.\<close>

definition update_profile :: "string \<Rightarrow> profile_dto \<Rightarrow> profile_state \<Rightarrow> (profile_view \<times> profile_state) result" where
  "update_profile userId dto st =
     ebind (require (\<not> (truthy_str (pd_novaTag dto) \<and> other_has u_novaTag (pd_novaTag dto) userId (pf_users st))) (BadRequest ''novaTag already taken'')) (\<lambda>_.
     ebind (require (\<not> (truthy_str (pd_phoneE164 dto) \<and> other_has u_phoneE164 (pd_phoneE164 dto) userId (pf_users st))) (BadRequest ''phone number already in use'')) (\<lambda>_.
     ebind (require (\<not> other_has u_novaTag (pd_novaTag dto) userId (pf_users st)) (UniqueViolation ''novaTag'')) (\<lambda>_.
     ebind (require (\<not> other_has u_phoneE164 (pd_phoneE164 dto) userId (pf_users st)) (UniqueViolation ''phoneE164'')) (\<lambda>_.
     ebind (update_unique u_id userId (write_profile dto) (pf_users st)) (\<lambda>us.
     let st1 = st\<lparr>pf_users := us\<rparr> in ebind (me userId st1) (\<lambda>v. Inr (v, st1)))))))"

record preferences_dto =
  qd_theme :: "string option"
  qd_doNotSell :: "bool option"
  qd_marketingData :: "bool option"
  qd_analytics :: "bool option"
  qd_shareContacts :: "bool option"

definition or_value :: "'a option \<Rightarrow> 'a \<Rightarrow> 'a" where
  "or_value given old = (case given of None \<Rightarrow> old | Some x \<Rightarrow> x)"

definition default_user_preference :: "string \<Rightarrow> user_preference" where
  "default_user_preference userId = \<lparr>up_userId = userId, up_theme = ''system'', up_doNotSell = False, up_marketingData = True, up_analytics = True, up_shareContacts = False\<rparr>"

definition write_preference :: "preferences_dto \<Rightarrow> user_preference \<Rightarrow> user_preference" where
  "write_preference dto p = p\<lparr>up_theme := or_value (qd_theme dto) (up_theme p), up_doNotSell := or_value (qd_doNotSell dto) (up_doNotSell p),
     up_marketingData := or_value (qd_marketingData dto) (up_marketingData p), up_analytics := or_value (qd_analytics dto) (up_analytics p),
     up_shareContacts := or_value (qd_shareContacts dto) (up_shareContacts p)\<rparr>"

text \<open>\<open>upsert\<close>: the row is updated when it exists, and created otherwise.\<close>

definition upsert_preference :: "(user_preference \<Rightarrow> user_preference) \<Rightarrow> user_preference \<Rightarrow> profile_state \<Rightarrow> user_preference \<times> profile_state" where
  "upsert_preference f new st =
     (case find_unique up_userId (up_userId new) (pf_preferences st) of
        None \<Rightarrow> (new, st\<lparr>pf_preferences := pf_preferences st @ [new]\<rparr>)
      | Some p \<Rightarrow> (f p, st\<lparr>pf_preferences := update_many (\<lambda>x. up_userId x = up_userId new) f (pf_preferences st)\<rparr>))"

definition preferences :: "string \<Rightarrow> profile_state \<Rightarrow> user_preference \<times> profile_state" where
  "preferences userId st = upsert_preference (\<lambda>p. p) (default_user_preference userId) st"

definition updateUserPreferences :: "string \<Rightarrow> preferences_dto \<Rightarrow> profile_state \<Rightarrow> user_preference \<times> profile_state" where
  "updateUserPreferences userId dto st = upsert_preference (write_preference dto) (write_preference dto (default_user_preference userId)) st"

section \<open>Files on disk\<close>

text \<open>\<open>path.resolve(root, key)\<close> on absolute paths: segments are taken in turn, \<open>.\<close> and empty ones are skipped, \<open>..\<close> goes up
  and stays at the top; a key that begins with a slash starts afresh. The stack of segments is kept in reverse.\<close>

fun walk_path :: "string list \<Rightarrow> string list \<Rightarrow> string list" where
  "walk_path stack [] = rev stack"
| "walk_path stack (s # ss) =
     (if s = '''' \<or> s = ''.'' then walk_path stack ss else if s = ''..'' then walk_path (drop 1 stack) ss else walk_path (s # stack) ss)"

definition resolve_path :: "string \<Rightarrow> string \<Rightarrow> string" where
  "resolve_path dir key =
     ''/'' @ join_with ''/'' (if starts_with ''/'' key then walk_path [] (split_on (CHR ''/'') key)
                              else walk_path [] (split_on (CHR ''/'') dir @ split_on (CHR ''/'') key))"

definition safePath :: "string \<Rightarrow> string \<Rightarrow> string result" where
  "safePath dir key = (let target = resolve_path dir key in
     ebind (require (starts_with dir target) (PlainError ''Invalid storage key'')) (\<lambda>_. Inr target))"

type_synonym file_table = "(string \<times> string) list"

definition fs_put :: "string \<Rightarrow> string \<Rightarrow> string \<Rightarrow> file_table \<Rightarrow> file_table result" where
  "fs_put dir key body fs = ebind (safePath dir key) (\<lambda>p. Inr ((p, body) # filter (\<lambda>f. fst f \<noteq> p) fs))"

definition fs_get :: "string \<Rightarrow> string \<Rightarrow> file_table \<Rightarrow> string result" where
  "fs_get dir key fs = ebind (safePath dir key) (\<lambda>p. or_throw (PlainError ''ENOENT'') (map_of fs p))"

text \<open>A file that is not there is not an error; a key outside is thrown before.\<close>

definition fs_delete :: "string \<Rightarrow> string \<Rightarrow> file_table \<Rightarrow> file_table result" where
  "fs_delete dir key fs = ebind (safePath dir key) (\<lambda>p. Inr (filter (\<lambda>f. fst f \<noteq> p) fs))"

text \<open>\<open>encodeURIComponent\<close> keeps letters, digits and nine marks, and writes the other characters as the percent codes of
  their UTF-8 bytes.\<close>

definition unreserved :: "char \<Rightarrow> bool" where
  "unreserved c = (let n = of_char c :: nat in 97 \<le> n \<and> n \<le> 122 \<or> 65 \<le> n \<and> n \<le> 90 \<or> 48 \<le> n \<and> n \<le> 57 \<or> c \<in> set ''-_.!~*()'' \<or> n = 39)"

definition hex_digit :: "nat \<Rightarrow> char" where
  "hex_digit n = (if n < 10 then char_of (48 + n) else char_of (55 + n))"

definition percent :: "nat \<Rightarrow> string" where
  "percent b = [CHR ''%'', hex_digit (b div 16), hex_digit (b mod 16)]"

definition encode_char :: "char \<Rightarrow> string" where
  "encode_char c = (let n = of_char c :: nat in
     if unreserved c then [c] else if n < 128 then percent n else percent (192 + n div 64) @ percent (128 + n mod 64))"

definition encodeURIComponent :: "string \<Rightarrow> string" where
  "encodeURIComponent s = concat (map encode_char s)"

definition fs_url :: "string \<Rightarrow> string \<Rightarrow> string" where
  "fs_url publicBase key = publicBase @ ''/storage/'' @ join_with ''/'' (map encodeURIComponent (split_on (CHR ''/'') key))"

section \<open>Avatars\<close>

definition avatar_types :: "string list" where
  "avatar_types = [''image/jpeg'', ''image/png'', ''image/webp'']"

text \<open>\<open>shrink\<close> is the image library; \<open>None\<close> when it throws, in which case the bytes are kept as they came.\<close>

definition processIfPossible :: "(string \<Rightarrow> string option) \<Rightarrow> string \<Rightarrow> string \<times> string" where
  "processIfPossible shrink buf = (case shrink buf of Some body \<Rightarrow> (body, ''image/jpeg'') | None \<Rightarrow> (buf, ''image/jpeg''))"

definition upload_avatar :: "nat \<Rightarrow> (string \<Rightarrow> string option) \<Rightarrow> string \<Rightarrow> string \<Rightarrow> string \<Rightarrow> string \<Rightarrow> string \<Rightarrow> string \<Rightarrow> file_table \<Rightarrow> profile_state \<Rightarrow> (string \<times> file_table \<times> profile_state) result" where
  "upload_avatar maxBytes shrink dir publicBase uuid userId mimetype buf fs st =
     ebind (require (mimetype \<in> set avatar_types) (BadRequest ''Unsupported image type'')) (\<lambda>_.
     ebind (require (length buf \<le> maxBytes) (BadRequest (''Avatar exceeds '' @ show_int (int maxBytes) @ '' bytes''))) (\<lambda>_.
     let key = ''user/'' @ userId @ ''/avatar/'' @ uuid @ ''.jpg'' in
     ebind (fs_put dir key (fst (processIfPossible shrink buf)) fs) (\<lambda>fs1.
     let url = fs_url publicBase key in
     ebind (update_unique u_id userId (\<lambda>u. u\<lparr>u_avatarUrl := Some url\<rparr>) (pf_users st)) (\<lambda>us. Inr (url, fs1, st\<lparr>pf_users := us\<rparr>)))))"

definition remove_avatar :: "string \<Rightarrow> profile_state \<Rightarrow> profile_state result" where
  "remove_avatar userId st = ebind (update_unique u_id userId (\<lambda>u. u\<lparr>u_avatarUrl := None\<rparr>) (pf_users st)) (\<lambda>us. Inr (st\<lparr>pf_users := us\<rparr>))"

section \<open>Policy documents\<close>

record policy_doc =
  py_id :: string
  py_slug :: string
  py_title :: string
  py_version :: string
  py_bodyMd :: string
  py_effectiveAt :: int

definition versionsForSlug :: "string \<Rightarrow> policy_doc list \<Rightarrow> policy_doc list" where
  "versionsForSlug slug ds = sort_key (\<lambda>d. - py_effectiveAt d) (filter (\<lambda>d. py_slug d = slug) ds)"

definition getLatestBySlug :: "string \<Rightarrow> policy_doc list \<Rightarrow> policy_doc result" where
  "getLatestBySlug slug ds = (case versionsForSlug slug ds of [] \<Rightarrow> Inl (NotFound ''Policy not found'') | d # _ \<Rightarrow> Inr d)"

text \<open>The loop over the sorted rows keeps the first of each slug.\<close>

fun first_of_slug :: "string list \<Rightarrow> policy_doc list \<Rightarrow> policy_doc list" where
  "first_of_slug seen [] = []"
| "first_of_slug seen (d # ds) = (if py_slug d \<in> set seen then first_of_slug seen ds else d # first_of_slug (py_slug d # seen) ds)"

definition listLatest :: "policy_doc list \<Rightarrow> policy_doc list" where
  "listLatest ds = first_of_slug [] (sort_key (\<lambda>d. (py_slug d, - py_effectiveAt d)) ds)"

text \<open>\<open>[^a-z0-9]+\<close>, ignoring case, becomes one dash; a dash at either end goes.\<close>

definition title_char :: "char \<Rightarrow> bool" where
  "title_char c = (let n = of_char (lower_char c) :: nat in 97 \<le> n \<and> n \<le> 122 \<or> 48 \<le> n \<and> n \<le> 57)"

fun title_dashes :: "bool \<Rightarrow> string \<Rightarrow> string" where
  "title_dashes gap [] = []"
| "title_dashes gap (c # cs) = (if title_char c then c # title_dashes False cs else if gap then title_dashes True cs else CHR ''-'' # title_dashes True cs)"

definition safe_title :: "string \<Rightarrow> string" where
  "safe_title t = (let s = title_dashes False t; s1 = (if starts_with ''-'' s then drop 1 s else s) in if ends_with ''-'' s1 then butlast s1 else s1)"

definition renderPdf :: "(policy_doc \<Rightarrow> string result) \<Rightarrow> string \<Rightarrow> policy_doc list \<Rightarrow> (string \<times> string) result" where
  "renderPdf render slug ds =
     ebind (getLatestBySlug slug ds) (\<lambda>d. ebind (render d) (\<lambda>pdf. Inr (pdf, ''State Bank-'' @ safe_title (py_title d) @ ''-v'' @ py_version d @ ''.pdf'')))"

section \<open>Permissions and idempotency keys\<close>

datatype permission = UseApp | ApproveKyc | ForceLogoutUser | SearchUsers | EditTransaction | SoftDeleteTransaction | PromoteUser | BulkOverride | ToggleDemoOverrideMode

definition customer_permissions :: "permission list" where
  "customer_permissions = [UseApp]"

definition admin_permissions :: "permission list" where
  "admin_permissions = customer_permissions @ [ApproveKyc, ForceLogoutUser, SearchUsers, EditTransaction, SoftDeleteTransaction]"

definition superadmin_permissions :: "permission list" where
  "superadmin_permissions = admin_permissions @ [PromoteUser, BulkOverride, ToggleDemoOverrideMode]"

fun ROLE_PERMISSIONS :: "user_role \<Rightarrow> permission list" where
  "ROLE_PERMISSIONS Customer = customer_permissions"
| "ROLE_PERMISSIONS Admin = admin_permissions"
| "ROLE_PERMISSIONS SuperAdmin = superadmin_permissions"

definition roleHas :: "user_role \<Rightarrow> permission \<Rightarrow> bool" where
  "roleHas r p = (p \<in> set (ROLE_PERMISSIONS r))"

record idempotency_key =
  ik_key :: string
  ik_userId :: string
  ik_endpoint :: string
  ik_statusCode :: int
  ik_responseBody :: string

definition lookup_key :: "string \<Rightarrow> string \<Rightarrow> string \<Rightarrow> idempotency_key list \<Rightarrow> idempotency_key option" where
  "lookup_key key userId endpoint t = find_first (\<lambda>r. ik_key r = key \<and> ik_userId r = userId \<and> ik_endpoint r = endpoint) t"

definition store_key :: "string \<Rightarrow> string \<Rightarrow> string \<Rightarrow> int \<Rightarrow> string \<Rightarrow> idempotency_key list \<Rightarrow> idempotency_key list result" where
  "store_key key userId endpoint code body t =
     create_unique ''key'' ik_key \<lparr>ik_key = key, ik_userId = userId, ik_endpoint = endpoint, ik_statusCode = code, ik_responseBody = body\<rparr> t"

section \<open>Backups\<close>

text \<open>A run begins with the flag and ends with one of three outcomes; \<open>bk_active\<close> are the dump files of the runs that have
  begun and not ended. Between the two, the schedule may fire again.\<close>

datatype backup_outcome = BackupDone | BackupFailed | ToolsMissing

record backup_state =
  bk_enabled :: bool
  bk_sourceUrl :: string
  bk_targetUrl :: string
  bk_running :: bool
  bk_toolsUnavailable :: bool
  bk_active :: "string list"

definition runBackup_begin :: "string \<Rightarrow> backup_state \<Rightarrow> backup_state" where
  "runBackup_begin file st =
     (if \<not> bk_enabled st \<or> bk_toolsUnavailable st then st
      else if bk_targetUrl st = '''' \<or> bk_sourceUrl st = '''' then st
      else if bk_running st then st
      else st\<lparr>bk_running := True, bk_active := bk_active st @ [file]\<rparr>)"

definition runBackup_end :: "string \<Rightarrow> backup_outcome \<Rightarrow> backup_state \<Rightarrow> backup_state" where
  "runBackup_end file out st =
     (if file \<in> set (bk_active st)
      then st\<lparr>bk_toolsUnavailable := (if out = ToolsMissing then True else bk_toolsUnavailable st), bk_active := remove1 file (bk_active st), bk_running := False\<rparr>
      else st)"

section \<open>Edits of a profile\<close>

definition one_owner :: "(profile_user \<Rightarrow> string option) \<Rightarrow> profile_user list \<Rightarrow> bool" where
  "one_owner key us = list_all (\<lambda>u. list_all (\<lambda>v. key u \<noteq> None \<longrightarrow> key u = key v \<longrightarrow> u_id u = u_id v) us) us"

lemma one_owner_iff: "one_owner key us \<longleftrightarrow> (\<forall>u \<in> set us. \<forall>v \<in> set us. key u \<noteq> None \<longrightarrow> key u = key v \<longrightarrow> u_id u = u_id v)"
  by (simp only: one_owner_def list_all_iff)

lemma write_profile_sel [simp]:
  "u_id (write_profile dto u) = u_id u" "u_novaTag (write_profile dto u) = or_kept (pd_novaTag dto) (u_novaTag u)"
  "u_phoneE164 (write_profile dto u) = or_kept (pd_phoneE164 dto) (u_phoneE164 u)"
  by (simp_all add: write_profile_def)

lemma one_owner_update:
  assumes "one_owner key us" "\<not> other_has key v userId us" "\<And>u. u_id (f u) = u_id u" "\<And>u. key (f u) = or_kept v (key u)"
  shows "one_owner key (update_many (\<lambda>u. u_id u = userId) f us)"
proof -
  let ?g = "\<lambda>u. if u_id u = userId then f u else u"
  have mixed: False if "a \<in> set us" "b \<in> set us" "u_id a = userId" "u_id b \<noteq> userId" "key (f a) \<noteq> None" "key (f a) = key b" for a b
  proof (cases v)
    case None
    then have "key a \<noteq> None" "key a = key b" using that(5,6) by (simp_all add: assms(4) or_kept_def)
    then have "u_id a = u_id b" using assms(1) that(1,2) unfolding one_owner_iff by blast
    then show False using that(3,4) by simp
  next
    case (Some x)
    then have "key b = v" using that(6) by (simp add: assms(4) or_kept_def)
    then show False using that(2,4) assms(2) Some unfolding other_has_def list_ex_iff by blast
  qed
  have same: "u_id (?g a) = u_id (?g b)" if "a \<in> set us" "b \<in> set us" "key (?g a) \<noteq> None" "key (?g a) = key (?g b)" for a b
  proof (cases "u_id a = userId")
    case True
    then show ?thesis using mixed [of a b] that by (cases "u_id b = userId") (simp_all add: assms(3))
  next
    case a: False
    show ?thesis
    proof (cases "u_id b = userId")
      case True
      then have k: "key a \<noteq> None" "key a = key (f b)" using a that(3,4) by simp_all
      have False by (rule mixed [OF that(2,1) True a k(1) [unfolded k(2)] k(2) [symmetric]])
      then show ?thesis ..
    next
      case False
      then have "key a \<noteq> None" "key a = key b" using a that(3,4) by simp_all
      then have "u_id a = u_id b" using assms(1) that(1,2) unfolding one_owner_iff by blast
      then show ?thesis using a False by simp
    qed
  qed
  show ?thesis unfolding one_owner_iff update_many_def set_map
  proof (intro ballI impI)
    fix x y
    assume "x \<in> ?g ` set us" "y \<in> ?g ` set us" "key x \<noteq> None" "key x = key y"
    then obtain a b where "a \<in> set us" "b \<in> set us" "x = ?g a" "y = ?g b" by (elim imageE) blast
    then show "u_id x = u_id y" using same [of a b] \<open>key x \<noteq> None\<close> \<open>key x = key y\<close> by (simp only: simp_thms)
  qed
qed

text \<open>A customer's edit of his profile shows him the values he gave and keeps the others, changes no other user, and leaves tags and
  phone numbers with one owner each.\<close>

theorem profile_edit_sound:
  assumes "update_profile userId dto st = Inr (v, st')" "one_owner u_novaTag (pf_users st)" "one_owner u_phoneE164 (pf_users st)"
  shows "one_owner u_novaTag (pf_users st') \<and> one_owner u_phoneE164 (pf_users st') \<and>
    (\<exists>u. find_unique u_id userId (pf_users st) = Some u \<and> v = view_of (write_profile dto u)) \<and>
    (\<forall>i. i \<noteq> userId \<longrightarrow> find_unique u_id i (pf_users st') = find_unique u_id i (pf_users st))"
proof -
  have c: "\<not> other_has u_novaTag (pd_novaTag dto) userId (pf_users st)" "\<not> other_has u_phoneE164 (pd_phoneE164 dto) userId (pf_users st)"
    and us: "pf_users st' = update_many (\<lambda>u. u_id u = userId) (write_profile dto) (pf_users st)" and m: "me userId st' = Inr v"
    using assms(1) by (auto simp: update_profile_def Let_def err_simps)
  show ?thesis
    using m one_owner_update [OF assms(2) c(1), of "write_profile dto"] one_owner_update [OF assms(3) c(2), of "write_profile dto"]
    by (auto simp: us me_def err_simps find_unique_update_many)
qed

text \<open>What a customer sets in his preferences is what he reads afterwards, whether or not he had a row; what he leaves out keeps its
  value or its default.\<close>

theorem preferences_round_trip:
  "fst (preferences userId (snd (updateUserPreferences userId dto st))) = fst (updateUserPreferences userId dto st) \<and>
   fst (updateUserPreferences userId dto st) = write_preference dto (fst (preferences userId st))"
proof (cases "find_unique up_userId userId (pf_preferences st)")
  case None
  then show ?thesis by (simp add: preferences_def updateUserPreferences_def upsert_preference_def default_user_preference_def write_preference_def find_unique_append)
next
  case (Some p)
  then have "find_unique up_userId userId (update_many (\<lambda>x. up_userId x = userId) (write_preference dto) (pf_preferences st)) = Some (write_preference dto p)"
    by (simp add: find_unique_update_many write_preference_def)
  then show ?thesis using Some by (simp add: preferences_def updateUserPreferences_def upsert_preference_def default_user_preference_def write_preference_def)
qed

section \<open>Storage on disk\<close>

text \<open>A stored file reads back under its key, no other file changes, and the path begins with the root of the store.\<close>

theorem stored_file_reads_back:
  assumes "fs_put dir key body fs = Inr fs'"
  shows "fs_get dir key fs' = Inr body \<and> (\<exists>p. safePath dir key = Inr p \<and> starts_with dir p \<and> (\<forall>q. q \<noteq> p \<longrightarrow> map_of fs' q = map_of fs q))"
proof -
  obtain p where p: "safePath dir key = Inr p" and fs': "fs' = (p, body) # filter (\<lambda>f. fst f \<noteq> p) fs" using assms by (auto simp: fs_put_def err_simps)
  have "map_of (filter (\<lambda>f. fst f \<noteq> p) fs) q = map_of fs q" if "q \<noteq> p" for q using that by (induction fs) auto
  moreover have "starts_with dir p" using p by (auto simp: safePath_def Let_def err_simps)
  ultimately show ?thesis using p by (auto simp: fs_get_def fs')
qed

text \<open>The test compares text, not segments: a sibling directory whose name begins with that of the root is within reach.\<close>

lemma sibling_within_reach: "safePath ''/srv/storage'' ''../storage-old/x'' = Inr ''/srv/storage-old/x''"
  by code_simp

lemma parent_refused: "safePath ''/srv/storage'' ''../../etc/passwd'' = Inl (PlainError ''Invalid storage key'')"
  by code_simp

definition url_char :: "char \<Rightarrow> bool" where
  "url_char c = (unreserved c \<or> c = CHR ''%'')"

lemma hex_unreserved: "n < 16 \<Longrightarrow> unreserved (hex_digit n)"
  by (auto simp: hex_digit_def unreserved_def Let_def)

lemma percent_url: "b < 256 \<Longrightarrow> list_all url_char (percent b)"
  by (simp add: percent_def url_char_def hex_unreserved)

lemma encode_char_url: "list_all url_char (encode_char c)"
proof -
  have "(of_char c :: nat) div 64 < 4" using less_mult_imp_div_less [of "of_char c" 4 64] by simp
  then show ?thesis by (auto simp: encode_char_def Let_def url_char_def intro!: percent_url)
qed

lemma encode_url: "list_all url_char (encodeURIComponent s)"
  using encode_char_url by (auto simp: encodeURIComponent_def list_all_iff)

lemma join_chars: "list_all P c \<Longrightarrow> list_all (list_all P) xs \<Longrightarrow> list_all P (join_with c xs)"
  by (induction c xs rule: join_with.induct) auto

text \<open>The address of a stored file after the base has only unreserved characters, percent codes and slashes, whatever the key, so
  that no key can add a query, a fragment or a host.\<close>

theorem storage_url_plain: "list_all (\<lambda>c. url_char c \<or> c = CHR ''/'') (drop (length base) (fs_url base key))"
proof -
  let ?P = "\<lambda>c. url_char c \<or> c = CHR ''/''"
  have "list_all ?P (encodeURIComponent s)" for s using encode_url [of s] by (auto simp: list_all_iff)
  then have "list_all (list_all ?P) (map encodeURIComponent (split_on (CHR ''/'') key))" by (simp add: list_all_iff)
  then have "list_all ?P (join_with ''/'' (map encodeURIComponent (split_on (CHR ''/'') key)))" by (intro join_chars) simp_all
  moreover have "list_all ?P ''/storage/''" by code_simp
  ultimately show ?thesis by (simp add: fs_url_def)
qed

text \<open>Bytes that the image library rejects are stored and served as they came.\<close>

lemma rejected_image_is_stored:
  assumes "shrink buf = None" "upload_avatar maxBytes shrink dir base uuid userId mimetype buf fs st = Inr (url, fs', st')"
  shows "fs_get dir (''user/'' @ userId @ ''/avatar/'' @ uuid @ ''.jpg'') fs' = Inr buf"
  using assms by (auto simp: upload_avatar_def processIfPossible_def fs_put_def fs_get_def Let_def err_simps)

section \<open>Latest versions\<close>

lemma first_of_slug_facts:
  "distinct (map py_slug (first_of_slug seen ds)) \<and> py_slug ` set (first_of_slug seen ds) = py_slug ` set ds - set seen \<and> set (first_of_slug seen ds) \<subseteq> set ds"
  by (induction seen ds rule: first_of_slug.induct) auto

lemma first_of_slug_latest:
  assumes "sorted (map (\<lambda>d. (py_slug d, - py_effectiveAt d)) ds)" "d \<in> set (first_of_slug seen ds)" "e \<in> set ds" "py_slug e = py_slug d"
  shows "py_effectiveAt e \<le> py_effectiveAt d"
  using assms
proof (induction seen ds rule: first_of_slug.induct)
  case (2 seen x ds)
  have fresh: "py_slug d \<notin> set seen" using "2.prems"(2) first_of_slug_facts [of seen "x # ds"] by blast
  have "d = x \<or> py_slug d \<noteq> py_slug x"
    using "2.prems"(2) first_of_slug_facts [of "py_slug x # seen" ds] first_of_slug_facts [of seen ds] fresh by (auto split: if_splits)
  then show ?case using "2" fresh by (auto split: if_splits)
qed simp

text \<open>The overview lists every policy exactly once, each in a version than which none of its slug is newer, the effective date of the
  one that is shown and rendered for the slug.\<close>

theorem overview_agrees:
  "distinct (map py_slug (listLatest ds)) \<and> py_slug ` set (listLatest ds) = py_slug ` set ds \<and>
   (\<forall>d \<in> set (listLatest ds). \<exists>e. getLatestBySlug (py_slug d) ds = Inr e \<and> py_slug e = py_slug d \<and> py_effectiveAt e = py_effectiveAt d)"
proof -
  let ?s = "sort_key (\<lambda>d. (py_slug d, - py_effectiveAt d)) ds"
  have "\<exists>e. getLatestBySlug (py_slug d) ds = Inr e \<and> py_slug e = py_slug d \<and> py_effectiveAt e = py_effectiveAt d" if d: "d \<in> set (listLatest ds)" for d
  proof -
    let ?v = "versionsForSlug (py_slug d) ds"
    have m: "d \<in> set ds" using d first_of_slug_facts [of "[]" ?s] by (auto simp: listLatest_def)
    have v: "set ?v = {e \<in> set ds. py_slug e = py_slug d}" by (simp add: versionsForSlug_def)
    then obtain e es where e: "?v = e # es" using m by (cases ?v) auto
    have "sorted (map (\<lambda>d. - py_effectiveAt d) ?v)" by (simp add: versionsForSlug_def)
    then have "py_effectiveAt d \<le> py_effectiveAt e" using v m unfolding e by auto
    moreover have ee: "e \<in> set ds" "py_slug e = py_slug d" using v unfolding e by auto
    then have "py_effectiveAt e \<le> py_effectiveAt d" using d by (intro first_of_slug_latest [of ?s d "[]" e]) (simp_all add: listLatest_def)
    ultimately show ?thesis using ee by (simp add: getLatestBySlug_def e)
  qed
  then show ?thesis using first_of_slug_facts [of "[]" ?s] by (simp add: listLatest_def)
qed

section \<open>Roles, keys and backups\<close>

lemma roles_grow: "set (ROLE_PERMISSIONS Customer) \<subset> set (ROLE_PERMISSIONS Admin)" "set (ROLE_PERMISSIONS Admin) \<subset> set (ROLE_PERMISSIONS SuperAdmin)"
  by (auto simp: customer_permissions_def admin_permissions_def superadmin_permissions_def)

lemma superadmin_has_all: "roleHas SuperAdmin p"
  by (cases p) (simp_all add: roleHas_def customer_permissions_def admin_permissions_def superadmin_permissions_def)

lemma find_appended: "(\<And>x. x \<in> set t \<Longrightarrow> \<not> P x) \<Longrightarrow> P r \<Longrightarrow> List.find P (t @ [r]) = Some r"
  by (induction t) auto

lemma stored_key_found:
  assumes "store_key key u e code body t = Inr t'"
  shows "map_option ik_responseBody (lookup_key key u e t') = Some body"
proof -
  let ?r = "\<lparr>ik_key = key, ik_userId = u, ik_endpoint = e, ik_statusCode = code, ik_responseBody = body\<rparr>"
  have t': "t' = t @ [?r]" and "key \<notin> ik_key ` set t" using assms by (auto simp: store_key_def err_simps find_unique_None_iff)
  then have "lookup_key key u e t' = Some ?r" unfolding lookup_key_def find_first_def t' by (intro find_appended) auto
  then show ?thesis by simp
qed

text \<open>The column is unique across users, although the lookup is per user and endpoint.\<close>

lemma key_collides_across_users:
  "store_key key u e code body t = Inr t' \<Longrightarrow> store_key key u2 e2 code2 body2 t' = Inl (UniqueViolation ''key'')"
  by (auto simp: store_key_def err_simps create_unique_def find_unique_append split: option.splits)

inductive backup_step :: "backup_state \<Rightarrow> backup_state \<Rightarrow> bool" where
  bBegin: "backup_step st (runBackup_begin file st)"
| bEnd: "backup_step st (runBackup_end file out st)"

definition backup_inv :: "backup_state \<Rightarrow> bool" where
  "backup_inv st = (if bk_running st then length (bk_active st) = 1 else bk_active st = [])"

interpretation backups: step_invariant backup_step backup_inv
proof
  fix s s'
  assume "backup_step s s'" "backup_inv s"
  then show "backup_inv s'"
    by (induction rule: backup_step.induct) (auto simp: backup_inv_def runBackup_begin_def runBackup_end_def length_Suc_conv split: if_splits)
qed

text \<open>Backups never overlap: however often the schedule fires and however runs end, at most one is in progress, and when the tools were
  found missing none begins again.\<close>

theorem backups_never_overlap:
  assumes "backup_step\<^sup>*\<^sup>* st st'" "bk_active st = []" "\<not> bk_running st"
  shows "length (bk_active st') \<le> 1 \<and> (bk_toolsUnavailable st' \<longrightarrow> runBackup_begin file st' = st')"
proof -
  have "backup_inv st" using assms(2,3) by (simp add: backup_inv_def)
  from backups.history_inv [OF assms(1) this] show ?thesis by (auto simp: backup_inv_def runBackup_begin_def split: if_splits)
qed

end
