(* ===== verification/Places.thy ===== *)
theory Places
  imports Schema Js_Number
begin

text \<open>
  Where the customer is: the cash machines and shops near him (\<^verbatim>\<open>atms/atms.service.ts\<close>), the lookup of addresses
  (\<^verbatim>\<open>common/geoip/geoip.service.ts\<close>) and the greeting (\<^verbatim>\<open>greeting/\<close>). The answers of the remote services are parameters,
  failures included. So is the great-circle distance, which the source computes with the trigonometric functions of \<open>Math\<close>, of
  which the language promises no exact value. Coordinates are doubles, here rational numbers; \<open>None\<close> is one that is not finite.
\<close>

section \<open>Places nearby\<close>

datatype place_kind = PlaceBank | PlaceAtm | PlaceRetail

record nearby_atm =
  na_id :: string
  na_name :: string
  na_kind :: place_kind
  na_address :: string
  na_distanceMeters :: rat
  na_lat :: rat
  na_lon :: rat
  na_feeCentsEstimate :: "int option"

datatype atm_error = AtmBadRequest string | AtmRateLimited string | AtmUnavailable string

datatype 'a http = HttpOk 'a | HttpStatus int string | NetworkError string

text \<open>\<open>toFixed(n)\<close> as the sign and the digits it prints; a negative number that rounds to zero keeps its sign.\<close>

definition to_fixed :: "nat \<Rightarrow> rat \<Rightarrow> bool \<times> int" where
  "to_fixed n x = (x < 0, \<lfloor>\<bar>x\<bar> * 10 ^ n + 1 / 2\<rfloor>)"

type_synonym atm_key = "(bool \<times> int) \<times> (bool \<times> int) \<times> nat"

definition cacheKey :: "rat \<Rightarrow> rat \<Rightarrow> nat \<Rightarrow> atm_key" where
  "cacheKey lat lon limit = (to_fixed 2 lat, to_fixed 2 lon, limit)"

type_synonym atm_cache = "(atm_key \<times> int \<times> nearby_atm list) list"

definition CACHE_TTL_MS :: int where "CACHE_TTL_MS = 10 * 60 * 1000"

subsection \<open>Chains\<close>

text \<open>The patterns of the chains: letters without case and an optional space or dash, between word boundaries.\<close>

datatype atom = Lit char | Gap

definition regex_word :: "char \<Rightarrow> bool" where
  "regex_word c = (let n = of_char c :: nat in 97 \<le> n \<and> n \<le> 122 \<or> 65 \<le> n \<and> n \<le> 90 \<or> 48 \<le> n \<and> n \<le> 57 \<or> n = 95)"

fun match_here :: "atom list \<Rightarrow> string \<Rightarrow> bool" where
  "match_here [] s = (case s of [] \<Rightarrow> True | x # _ \<Rightarrow> \<not> regex_word x)"
| "match_here (Lit c # as) s = (case s of [] \<Rightarrow> False | x # xs \<Rightarrow> c = lower_char x \<and> match_here as xs)"
| "match_here (Gap # as) s = (match_here as s \<or> (case s of [] \<Rightarrow> False | x # xs \<Rightarrow> (is_space x \<or> x = CHR ''-'') \<and> match_here as xs))"

fun search_word :: "bool \<Rightarrow> atom list \<Rightarrow> string \<Rightarrow> bool" where
  "search_word inside as [] = (\<not> inside \<and> match_here as [])"
| "search_word inside as (x # xs) = (\<not> inside \<and> match_here as (x # xs) \<or> search_word (regex_word x) as xs)"

definition lits :: "string \<Rightarrow> atom list" where
  "lits s = map Lit s"

definition RETAIL_CHAINS :: "(atom list \<times> string \<times> int) list" where
  "RETAIL_CHAINS =
     [(lits ''walmart'', ''Walmart'', 0), (lits ''walgreens'', ''Walgreens'', 0), (lits ''cvs'', ''CVS'', 0), (lits ''target'', ''Target'', 0),
      (lits ''7'' @ [Gap] @ lits ''eleven'', ''7-Eleven'', 495), (lits ''rite'' @ [Gap] @ lits ''aid'', ''Rite Aid'', 495),
      (lits ''family dollar'', ''Family Dollar'', 495), (lits ''dollar general'', ''Dollar General'', 495), (lits ''dollar tree'', ''Dollar Tree'', 495)]"

definition chain_of :: "string \<Rightarrow> (string \<times> int) option" where
  "chain_of name = map_option snd (find_first (\<lambda>c. search_word False (fst c) name) RETAIL_CHAINS)"

subsection \<open>Foursquare\<close>

record fsq_location =
  fl_address :: "string option"
  fl_locality :: "string option"
  fl_formatted_address :: "string option"

record fsq_place =
  fp_id :: string
  fp_name :: "string option"
  fp_distance :: "rat option"
  fp_point :: "(rat \<times> rat) option"
    \<comment> \<open>\<open>geocodes.main\<close>\<close>
  fp_latitude :: "rat option"
  fp_longitude :: "rat option"
  fp_categories :: "string list"
  fp_location :: "fsq_location option"

definition filled_texts :: "string option list \<Rightarrow> string list" where
  "filled_texts xs = map the (filter truthy_str xs)"

definition formatFsqAddress :: "fsq_location option \<Rightarrow> string" where
  "formatFsqAddress loc =
     (case loc of None \<Rightarrow> ''Address unavailable''
      | Some l \<Rightarrow>
          if truthy_str (fl_formatted_address l) then the (fl_formatted_address l)
          else let s = join_with '', '' (filled_texts [fl_address l, fl_locality l]) in if s = '''' then ''Address unavailable'' else s)"

text \<open>The two hosts are tried in turn; an answer that is not about the key ends the attempts. Of an attempt that failed the status
  and the text are kept.\<close>

fun fsq_attempts :: "('h \<Rightarrow> 'a http) \<Rightarrow> 'h list \<Rightarrow> int \<Rightarrow> string \<Rightarrow> 'a option \<times> int \<times> string" where
  "fsq_attempts fetch [] status body = (None, status, body)"
| "fsq_attempts fetch (h # hs) status body =
     (case fetch h of
        HttpOk r \<Rightarrow> (Some r, status, body)
      | HttpStatus n b \<Rightarrow> if n \<in> {401, 403, 404} then fsq_attempts fetch hs n (take 240 b) else (None, n, take 240 b)
      | NetworkError m \<Rightarrow> fsq_attempts fetch hs status m)"

definition fsq_failure :: "int \<Rightarrow> string \<Rightarrow> atm_error" where
  "fsq_failure status body =
     (if status = 429 then AtmRateLimited ''Map service is rate-limiting requests. Try again in a moment.''
      else if status = 401 \<or> status = 403 then AtmUnavailable ''Foursquare rejected the API key. Make sure FOURSQUARE_API_KEY is a Service API Key (starts with fsq3), not the OAuth Client Secret.''
      else AtmUnavailable (''Map service unavailable (upstream '' @ (if status = 0 then ''no response'' else show_int status) @ ''): '' @ take 120 body))"

definition fsq_row :: "(rat \<Rightarrow> rat \<Rightarrow> rat \<Rightarrow> rat \<Rightarrow> rat) \<Rightarrow> rat \<Rightarrow> rat \<Rightarrow> fsq_place \<Rightarrow> nearby_atm option" where
  "fsq_row haversine lat lon p =
     (let name = js_trim (case fp_name p of None \<Rightarrow> '''' | Some n \<Rightarrow> n);
          point = (case fp_point p of Some q \<Rightarrow> Some q | None \<Rightarrow> (case (fp_latitude p, fp_longitude p) of (Some a, Some b) \<Rightarrow> Some (a, b) | _ \<Rightarrow> None));
          chain = chain_of name; cats = map to_lower (fp_categories p);
          kind = (if list_ex (search_word False (lits ''bank'')) cats then PlaceBank else if list_ex (search_word False (lits ''atm'')) cats then PlaceAtm else PlaceRetail) in
      if name = '''' then None
      else case point of None \<Rightarrow> None
      | Some (plat, plon) \<Rightarrow>
          if kind = PlaceRetail \<and> chain = None then None
          else Some \<lparr>na_id = ''fsq/'' @ fp_id p, na_name = (case chain of None \<Rightarrow> name | Some c \<Rightarrow> fst c), na_kind = kind, na_address = formatFsqAddress (fp_location p),
                 na_distanceMeters = (case fp_distance p of Some d \<Rightarrow> d | None \<Rightarrow> haversine lat lon plat plon), na_lat = plat, na_lon = plon,
                 na_feeCentsEstimate = map_option snd chain\<rparr>)"

definition queryFoursquare :: "(rat \<Rightarrow> rat \<Rightarrow> rat \<Rightarrow> rat \<Rightarrow> rat) \<Rightarrow> (bool \<Rightarrow> nat \<Rightarrow> fsq_place list http) \<Rightarrow> rat \<Rightarrow> rat \<Rightarrow> nat \<Rightarrow> atm_error + nearby_atm list" where
  "queryFoursquare haversine fetch lat lon radius =
     (case fsq_attempts (\<lambda>legacy. fetch legacy radius) [False, True] 0 '''' of
        (None, status, body) \<Rightarrow> Inl (fsq_failure status body)
      | (Some ps, _) \<Rightarrow> Inr (sort_key na_distanceMeters (List.map_filter (fsq_row haversine lat lon) ps)))"

text \<open>The radius widens until something is found.\<close>

fun widen :: "(nat \<Rightarrow> 'e + 'a list) \<Rightarrow> nat list \<Rightarrow> 'e + 'a list" where
  "widen query [] = Inr []"
| "widen query (r # rs) = ebind (query r) (\<lambda>xs. if xs \<noteq> [] \<or> rs = [] then Inr xs else widen query rs)"

subsection \<open>Overpass\<close>

record overpass_element =
  oe_type :: string
  oe_id :: int
  oe_lat :: "rat option"
  oe_lon :: "rat option"
  oe_center :: "(rat \<times> rat) option"
  oe_tags :: "(string \<times> string) list"

definition pointOf :: "overpass_element \<Rightarrow> (rat \<times> rat) option" where
  "pointOf el = (case (oe_lat el, oe_lon el) of (Some a, Some b) \<Rightarrow> Some (a, b) | _ \<Rightarrow> oe_center el)"

definition composeAddress :: "(string \<times> string) list \<Rightarrow> string" where
  "composeAddress tags =
     (let parts = filter (\<lambda>s. s \<noteq> '''') (map js_trim [join_with '' '' (filled_texts [map_of tags ''addr:housenumber'', map_of tags ''addr:street'']),
                    (case map_of tags ''addr:city'' of None \<Rightarrow> '''' | Some c \<Rightarrow> c)]) in
      if parts \<noteq> [] then join_with '', '' parts
      else case map_of tags ''addr:full'' of None \<Rightarrow> ''Address unavailable'' | Some f \<Rightarrow> f)"

fun overpass_attempts :: "('h \<Rightarrow> 'a http) \<Rightarrow> 'h list \<Rightarrow> int option \<times> string option \<Rightarrow> 'a option \<times> int option \<times> string option" where
  "overpass_attempts fetch [] failed = (None, failed)"
| "overpass_attempts fetch (h # hs) failed =
     (case fetch h of
        HttpOk r \<Rightarrow> (Some r, failed)
      | HttpStatus n b \<Rightarrow> if n \<in> {429, 503, 504} then overpass_attempts fetch hs (Some n, Some (take 200 b)) else (None, Some n, Some (take 200 b))
      | NetworkError m \<Rightarrow> overpass_attempts fetch hs (None, Some m))"

definition raw_name :: "(string \<times> string) list \<Rightarrow> string option" where
  "raw_name tags =
     str_or (map_option js_trim (map_of tags ''name'')) (str_or (map_option js_trim (map_of tags ''operator'')) (str_or (map_option js_trim (map_of tags ''brand''))
       (if map_of tags ''amenity'' = Some ''bank'' then Some ''Bank branch'' else if map_of tags ''amenity'' = Some ''atm'' then Some ''ATM'' else None)))"

definition overpass_row :: "(rat \<Rightarrow> rat \<Rightarrow> rat \<Rightarrow> rat \<Rightarrow> rat) \<Rightarrow> rat \<Rightarrow> rat \<Rightarrow> overpass_element \<Rightarrow> nearby_atm option" where
  "overpass_row haversine lat lon el =
     (let tags = oe_tags el; amenity = map_of tags ''amenity'' in
      case pointOf el of None \<Rightarrow> None
      | Some (plat, plon) \<Rightarrow>
          if amenity = Some ''atm'' \<and> map_of tags ''deposit'' = Some ''no'' then None
          else case raw_name tags of None \<Rightarrow> None
          | Some name \<Rightarrow>
              (let chain = chain_of name in
               Some \<lparr>na_id = oe_type el @ ''/'' @ show_int (oe_id el), na_name = (case chain of None \<Rightarrow> name | Some c \<Rightarrow> fst c),
                 na_kind = (if truthy_str (map_of tags ''shop'') \<or> chain \<noteq> None then PlaceRetail else if amenity = Some ''atm'' then PlaceAtm else PlaceBank),
                 na_address = composeAddress tags, na_distanceMeters = haversine lat lon plat plon, na_lat = plat, na_lon = plon,
                 na_feeCentsEstimate = map_option snd chain\<rparr>))"

definition dedupe_key :: "nearby_atm \<Rightarrow> string \<times> (bool \<times> int) \<times> (bool \<times> int)" where
  "dedupe_key r = (to_lower (na_name r), to_fixed 4 (na_lat r), to_fixed 4 (na_lon r))"

fun dedupe :: "(string \<times> (bool \<times> int) \<times> (bool \<times> int)) list \<Rightarrow> nearby_atm list \<Rightarrow> nearby_atm list" where
  "dedupe seen [] = []"
| "dedupe seen (r # rs) = (if dedupe_key r \<in> set seen then dedupe seen rs else r # dedupe (dedupe_key r # seen) rs)"

definition queryOverpass :: "(rat \<Rightarrow> rat \<Rightarrow> rat \<Rightarrow> rat \<Rightarrow> rat) \<Rightarrow> (string \<Rightarrow> overpass_element list http) \<Rightarrow> string list \<Rightarrow> rat \<Rightarrow> rat \<Rightarrow> atm_error + nearby_atm list" where
  "queryOverpass haversine fetch urls lat lon =
     (case overpass_attempts fetch urls (None, None) of
        (None, status, body) \<Rightarrow>
          Inl (if status = Some 429 then AtmRateLimited ''Map service is rate-limiting requests right now. Try again in a moment.''
               else AtmUnavailable (''Map service unavailable: '' @ (case body of None \<Rightarrow> ''unknown'' | Some b \<Rightarrow> b)))
      | (Some els, _) \<Rightarrow> Inr (dedupe [] (sort_key na_distanceMeters (List.map_filter (overpass_row haversine lat lon) els))))"

subsection \<open>The service\<close>

text \<open>The remote services: whether there is a key for Foursquare, its answers for each host and radius, the mirrors of Overpass and
  their answers, and the distance.\<close>

record maps =
  mp_fsqKey :: bool
  mp_fsq :: "bool \<Rightarrow> nat \<Rightarrow> fsq_place list http"
  mp_urls :: "string list"
  mp_overpass :: "string \<Rightarrow> overpass_element list http"
  mp_haversine :: "rat \<Rightarrow> rat \<Rightarrow> rat \<Rightarrow> rat \<Rightarrow> rat"

definition find_places :: "maps \<Rightarrow> rat \<Rightarrow> rat \<Rightarrow> atm_error + nearby_atm list" where
  "find_places mp lat lon =
     (if mp_fsqKey mp then widen (queryFoursquare (mp_haversine mp) (mp_fsq mp) lat lon) [15000, 50000, 100000]
      else queryOverpass (mp_haversine mp) (mp_overpass mp) (mp_urls mp) lat lon)"

definition nearby :: "maps \<Rightarrow> int \<Rightarrow> rat option \<Rightarrow> rat option \<Rightarrow> nat \<Rightarrow> atm_cache \<Rightarrow> atm_error + (nearby_atm list \<times> atm_cache)" where
  "nearby mp now lat0 lon0 limit cache =
     ebind (or_throw (AtmBadRequest ''lat and lon are required'') lat0) (\<lambda>lat.
     ebind (or_throw (AtmBadRequest ''lat and lon are required'') lon0) (\<lambda>lon.
     ebind (require (\<bar>lat\<bar> \<le> 90 \<and> \<bar>lon\<bar> \<le> 180) (AtmBadRequest ''lat/lon out of range'')) (\<lambda>_.
     let key = cacheKey lat lon limit;
         hit = (case map_of cache key of None \<Rightarrow> None | Some (tm, rows) \<Rightarrow> if now - tm < CACHE_TTL_MS then Some rows else None) in
     case hit of Some rows \<Rightarrow> Inr (rows, cache)
     | None \<Rightarrow>
         ebind (find_places mp lat lon) (\<lambda>results.
         let sliced = take limit results in
         Inr (sliced, if sliced \<noteq> [] then (key, now, sliced) # filter (\<lambda>e. fst e \<noteq> key) cache else cache)))))"

section \<open>The location of an address\<close>

record geo =
  ge_city :: "string option"
  ge_region :: "string option"
  ge_country :: "string option"
  ge_lat :: "rat option"
  ge_lng :: "rat option"
  ge_tz :: "string option"

definition nowhere :: geo where
  "nowhere = \<lparr>ge_city = None, ge_region = None, ge_country = None, ge_lat = None, ge_lng = None, ge_tz = None\<rparr>"

text \<open>\<open>^172\.(1[6-9]|2\d|3[01])\.\<close>\<close>

definition private_172 :: "string \<Rightarrow> bool" where
  "private_172 ip = (starts_with ''172.'' ip \<and>
     (case drop 4 ip of a # b # c # _ \<Rightarrow> c = CHR ''.'' \<and> (a = CHR ''1'' \<and> b \<in> set ''6789'' \<or> a = CHR ''2'' \<and> b \<in> set ''0123456789'' \<or> a = CHR ''3'' \<and> b \<in> set ''01'') | _ \<Rightarrow> False))"

definition private_ip :: "string \<Rightarrow> bool" where
  "private_ip ip = (ip = '''' \<or> ip = ''::1'' \<or> starts_with ''127.'' ip \<or> starts_with ''10.'' ip \<or> starts_with ''192.168.'' ip \<or> starts_with ''::ffff:127.'' ip \<or> private_172 ip)"

definition geoip_resolve :: "(string \<Rightarrow> geo option) \<Rightarrow> string \<Rightarrow> geo" where
  "geoip_resolve lookup ip = (if private_ip ip then nowhere else case lookup ip of None \<Rightarrow> nowhere | Some g \<Rightarrow> g)"

section \<open>The greeting\<close>

datatype greeting_key = Morning | Afternoon | Evening | Night

definition bucketHour :: "nat \<Rightarrow> greeting_key" where
  "bucketHour hour = (if 5 \<le> hour \<and> hour < 12 then Morning else if 12 \<le> hour \<and> hour < 17 then Afternoon else if 17 \<le> hour \<and> hour < 22 then Evening else Night)"

fun GREETING_LABEL :: "greeting_key \<Rightarrow> string" where
  "GREETING_LABEL Morning = ''Good morning''"
| "GREETING_LABEL Afternoon = ''Good afternoon''"
| "GREETING_LABEL Evening = ''Good evening''"
| "GREETING_LABEL Night = ''Good night''"

definition isValidTimezone :: "(string \<Rightarrow> bool) \<Rightarrow> string option \<Rightarrow> bool" where
  "isValidTimezone intl tz =
     (case tz of None \<Rightarrow> False
      | Some s \<Rightarrow> s \<noteq> '''' \<and> length s \<le> 64 \<and> list_all (\<lambda>c. regex_word c \<or> c \<in> set ''+-/'') s \<and> intl s)"

definition cityFromTimezone :: "string \<Rightarrow> string" where
  "cityFromTimezone tz = map (\<lambda>c. if c = CHR ''_'' then CHR '' '' else c) (last (split_on (CHR ''/'') tz))"

definition or_next :: "'a option \<Rightarrow> 'a option \<Rightarrow> 'a option" where
  "or_next a b = (if a = None then b else a)"

text \<open>The object that is returned has no time zone.\<close>

definition resolveGeo :: "(string \<Rightarrow> geo option) \<Rightarrow> string option \<Rightarrow> geo option \<Rightarrow> rat option \<Rightarrow> rat option \<Rightarrow> geo" where
  "resolveGeo lookup ip location lat lng =
     (let dev = (case location of None \<Rightarrow> nowhere | Some g \<Rightarrow> g); net = (if truthy_str ip then geoip_resolve lookup (the ip) else nowhere) in
      \<lparr>ge_city = or_next (ge_city dev) (ge_city net), ge_region = or_next (ge_region dev) (ge_region net), ge_country = or_next (ge_country dev) (ge_country net),
       ge_lat = or_next lat (or_next (ge_lat dev) (ge_lat net)), ge_lng = or_next lng (or_next (ge_lng dev) (ge_lng net)), ge_tz = None\<rparr>)"

record greeting_response =
  gg_greeting :: string
  gg_firstName :: "string option"
  gg_locationLabel :: string
  gg_weather :: "string option"
  gg_localTimeIso :: string

record greeting_device =
  gd_userId :: string
  gd_revokedAt :: "int option"
  gd_lastSeenAt :: int
  gd_ip :: string
  gd_location :: "geo option"

type_synonym point = "rat \<times> rat"

record greeting_state =
  gs_bank :: bank
  gs_devices :: "greeting_device list"
  gs_greetings :: "((string \<times> rat option \<times> rat option \<times> string option) \<times> greeting_response \<times> int) list"
  gs_places :: "(point \<times> (string option \<times> string option \<times> string option) \<times> int) list"
  gs_weathers :: "(point \<times> string \<times> int) list"

text \<open>The remote services and settings: the time zones the runtime knows, the local hour and time of a zone, the lookup of an address,
  the reverse geocoder (the tags of an address), the weather, and the fallback zone and lifetimes in seconds.\<close>

record surroundings =
  en_intl :: "string \<Rightarrow> bool"
  en_clock :: "string \<Rightarrow> int \<Rightarrow> nat \<times> string"
  en_lookup :: "string \<Rightarrow> geo option"
  en_reverse :: "point \<Rightarrow> (string \<times> string) list option"
  en_weather :: "point \<Rightarrow> string option"
  en_fallbackTz :: string
  en_cacheTtl :: int
  en_weatherTtl :: int

definition cached_at :: "int \<Rightarrow> 'k \<Rightarrow> ('k \<times> 'v \<times> int) list \<Rightarrow> 'v option" where
  "cached_at now k t = (case map_of t k of None \<Rightarrow> None | Some (v, fin) \<Rightarrow> if now < fin then Some v else None)"

definition put_cached :: "int \<Rightarrow> int \<Rightarrow> 'k \<Rightarrow> 'v \<Rightarrow> ('k \<times> 'v \<times> int) list \<Rightarrow> ('k \<times> 'v \<times> int) list" where
  "put_cached now ttlSec k v t = (k, v, now + ttlSec * 1000) # filter (\<lambda>e. fst e \<noteq> k) t"

definition coarse :: "rat \<Rightarrow> rat" where
  "coarse x = js_divide (of_int (js_round (js_mult x 10))) 10"

definition first_tag :: "string list \<Rightarrow> (string \<times> string) list \<Rightarrow> string option" where
  "first_tag ks tags = (case filter (\<lambda>k. map_of tags k \<noteq> None) ks of [] \<Rightarrow> None | k # _ \<Rightarrow> map_of tags k)"

definition reverseGeocodeCached :: "surroundings \<Rightarrow> int \<Rightarrow> rat \<Rightarrow> rat \<Rightarrow> greeting_state \<Rightarrow> (string option \<times> string option \<times> string option) option \<times> greeting_state" where
  "reverseGeocodeCached en now lat lng st =
     (let p = (coarse lat, coarse lng) in
      case cached_at now p (gs_places st) of Some v \<Rightarrow> (Some v, st)
      | None \<Rightarrow>
          (case en_reverse en p of None \<Rightarrow> (None, st)
           | Some tags \<Rightarrow>
               (let v = (first_tag [''city'', ''town'', ''village'', ''hamlet'', ''municipality'', ''county''] tags, first_tag [''state'', ''region''] tags, map_of tags ''country'') in
                (Some v, st\<lparr>gs_places := put_cached now (24 * 60 * 60) p v (gs_places st)\<rparr>))))"

definition getWeatherCached :: "surroundings \<Rightarrow> int \<Rightarrow> rat \<Rightarrow> rat \<Rightarrow> greeting_state \<Rightarrow> string option \<times> greeting_state" where
  "getWeatherCached en now lat lng st =
     (let p = (coarse lat, coarse lng) in
      case cached_at now p (gs_weathers st) of Some v \<Rightarrow> (Some v, st)
      | None \<Rightarrow> (case en_weather en p of None \<Rightarrow> (None, st) | Some v \<Rightarrow> (Some v, st\<lparr>gs_weathers := put_cached now (en_weatherTtl en) p v (gs_weathers st)\<rparr>)))"

definition last_device :: "string \<Rightarrow> greeting_device list \<Rightarrow> greeting_device option" where
  "last_device userId ds = (case sort_key (\<lambda>d. - gd_lastSeenAt d) (filter (\<lambda>d. gd_userId d = userId \<and> gd_revokedAt d = None) ds) of [] \<Rightarrow> None | d # _ \<Rightarrow> Some d)"

definition place_name :: "(string option \<times> string option \<times> string option) option \<Rightarrow> geo \<Rightarrow> geo" where
  "place_name named g =
     (case named of None \<Rightarrow> g
      | Some (c, r, n) \<Rightarrow> if truthy_str c then g\<lparr>ge_city := c, ge_region := or_next r (ge_region g), ge_country := or_next n (ge_country g)\<rparr> else g)"

definition location_label :: "geo \<Rightarrow> string \<Rightarrow> string" where
  "location_label g tz = (let s = join_with '', '' (filled_texts [ge_city g, ge_region g]) in if s = '''' then cityFromTimezone tz else s)"

definition zone_of :: "surroundings \<Rightarrow> string option \<Rightarrow> geo \<Rightarrow> string" where
  "zone_of en safeTz g = (case or_next safeTz (ge_tz g) of None \<Rightarrow> en_fallbackTz en | Some z \<Rightarrow> z)"

definition greeting_for_user :: "surroundings \<Rightarrow> int \<Rightarrow> string \<Rightarrow> rat option \<Rightarrow> rat option \<Rightarrow> string option \<Rightarrow> greeting_state \<Rightarrow> greeting_response \<times> greeting_state" where
  "greeting_for_user en now userId lat lng clientTz st =
     (let safeTz = (if isValidTimezone (en_intl en) clientTz then clientTz else None); key = (userId, lat, lng, safeTz) in
      case cached_at now key (gs_greetings st) of Some r \<Rightarrow> (r, st)
      | None \<Rightarrow>
          (let device = last_device userId (gs_devices st);
               g0 = resolveGeo (en_lookup en) (map_option gd_ip device) (case device of None \<Rightarrow> None | Some d \<Rightarrow> gd_location d) lat lng;
               tz = zone_of en safeTz g0;
               (hour, iso) = en_clock en tz now;
               (named, st1) = (case (lat, lng) of (Some a, Some b) \<Rightarrow> reverseGeocodeCached en now a b st | _ \<Rightarrow> (None, st));
               g = place_name named g0;
               (weather, st2) = (case (ge_lat g, ge_lng g) of (Some a, Some b) \<Rightarrow> getWeatherCached en now a b st1 | _ \<Rightarrow> (None, st1));
               r = \<lparr>gg_greeting = GREETING_LABEL (bucketHour hour), gg_firstName = (case user_of (gs_bank st) userId of None \<Rightarrow> None | Some u \<Rightarrow> u_firstName u),
                    gg_locationLabel = location_label g tz, gg_weather = weather, gg_localTimeIso = iso\<rparr> in
           (r, st2\<lparr>gs_greetings := put_cached now (en_cacheTtl en) key r (gs_greetings st2)\<rparr>)))"

section \<open>Order, bounds and duplicates\<close>

lemma sorted_take_map: "sorted (map f xs) \<Longrightarrow> sorted (map f (take n xs))"
  by (metis sorted_wrt_take take_map)

lemma dedupe_facts:
  "set (dedupe seen rs) \<subseteq> set rs \<and> distinct (map dedupe_key (dedupe seen rs)) \<and> dedupe_key ` set (dedupe seen rs) = dedupe_key ` set rs - set seen"
  by (induction seen rs rule: dedupe.induct) auto

lemma dedupe_sorted: "sorted (map na_distanceMeters rs) \<Longrightarrow> sorted (map na_distanceMeters (dedupe seen rs))"
proof (induction seen rs rule: dedupe.induct)
  case (2 seen r rs)
  then show ?case using dedupe_facts [of "dedupe_key r # seen" rs] by auto
qed simp

lemma foursquare_sorted: "queryFoursquare hav fetch lat lon radius = Inr rows \<Longrightarrow> sorted (map na_distanceMeters rows)"
  by (auto simp: queryFoursquare_def split: prod.splits option.splits)

lemma overpass_sorted: "queryOverpass hav fetch urls lat lon = Inr rows \<Longrightarrow> sorted (map na_distanceMeters rows)"
  by (auto simp: queryOverpass_def intro!: dedupe_sorted split: prod.splits option.splits)

lemma widen_inv: "widen query rs = Inr xs \<Longrightarrow> (\<And>r ys. query r = Inr ys \<Longrightarrow> P ys) \<Longrightarrow> P [] \<Longrightarrow> P xs"
  by (induction query rs rule: widen.induct) (auto simp: err_simps split: if_splits)

lemma find_places_sorted:
  assumes "find_places mp lat lon = Inr rows"
  shows "sorted (map na_distanceMeters rows)"
proof (cases "mp_fsqKey mp")
  case True
  then have "widen (queryFoursquare (mp_haversine mp) (mp_fsq mp) lat lon) [15000, 50000, 100000] = Inr rows"
    using assms unfolding find_places_def by (simp only: if_True)
  then show ?thesis by (rule widen_inv) (simp_all add: foursquare_sorted)
next
  case False
  then show ?thesis using assms by (intro overpass_sorted) (simp add: find_places_def)
qed

definition cache_ok :: "atm_cache \<Rightarrow> bool" where
  "cache_ok cache = list_all (\<lambda>e. snd (snd e) \<noteq> [] \<and> length (snd (snd e)) \<le> snd (snd (fst e)) \<and> sorted (map na_distanceMeters (snd (snd e)))) cache"

text \<open>Whatever the map services answer, the places that are returned, fresh or from the cache, are at most the number asked for and in
  order of their distance, and nothing but found places is kept in the cache.\<close>

theorem nearby_sorted_bounded:
  assumes "nearby mp now lat lon limit cache = Inr (rows, cache')" "cache_ok cache"
  shows "length rows \<le> limit \<and> sorted (map na_distanceMeters rows) \<and> cache_ok cache'"
proof -
  obtain la lo where ll: "lat = Some la" "lon = Some lo" using assms(1) by (auto simp: nearby_def err_simps)
  note n = assms(1) [unfolded ll nearby_def or_throw_Some ebind_Inr Let_def]
  let ?key = "cacheKey la lo limit"
  have hit: "length (snd e) \<le> limit \<and> sorted (map na_distanceMeters (snd e))" if "map_of cache ?key = Some e" for e
    using assms(2) map_of_SomeD [OF that] by (auto simp: cache_ok_def list_all_iff cacheKey_def)
  have fresh: "length (take limit xs) \<le> limit \<and> sorted (map na_distanceMeters (take limit xs))" if "find_places mp la lo = Inr xs" for xs
    using find_places_sorted [OF that] by (simp add: sorted_take_map)
  have ok: "cache_ok (if take limit xs \<noteq> [] then (?key, now, take limit xs) # filter (\<lambda>e. fst e \<noteq> ?key) cache else cache)" if "find_places mp la lo = Inr xs" for xs
    using fresh [OF that] assms(2) by (auto simp: cache_ok_def list_all_iff cacheKey_def)
  show ?thesis
  proof (cases "case map_of cache ?key of None \<Rightarrow> None | Some (tm, rows) \<Rightarrow> if now - tm < CACHE_TTL_MS then Some rows else None")
    case None
    then obtain xs where xs: "find_places mp la lo = Inr xs" and "rows = take limit xs"
        "cache' = (if take limit xs \<noteq> [] then (?key, now, take limit xs) # filter (\<lambda>e. fst e \<noteq> ?key) cache else cache)"
      using n by (auto simp only: err_simps option.case prod.inject sum.inject)
    then show ?thesis using fresh [OF xs] ok [OF xs] by simp
  next
    case (Some r)
    then obtain tm where "map_of cache ?key = Some (tm, r)" by (auto split: option.splits prod.splits if_splits)
    moreover have "rows = r" "cache' = cache" using n Some by (auto simp only: err_simps option.case prod.inject sum.inject)
    ultimately show ?thesis using hit assms(2) by fastforce
  qed
qed

text \<open>Overpass may give a shop as a node and as a way: of the places it finds, each name and position to four decimals is returned
  once, and none of them is lost.\<close>

theorem overpass_once_each:
  assumes "queryOverpass hav fetch urls lat lon = Inr rows"
  shows "\<exists>els. fst (overpass_attempts fetch urls (None, None)) = Some els \<and> distinct (map dedupe_key rows) \<and>
    dedupe_key ` set rows = dedupe_key ` set (List.map_filter (overpass_row hav lat lon) els)"
proof -
  obtain els e where a: "overpass_attempts fetch urls (None, None) = (Some els, e)"
      and r: "rows = dedupe [] (sort_key na_distanceMeters (List.map_filter (overpass_row hav lat lon) els))"
    using assms by (auto simp: queryOverpass_def split: prod.splits option.splits)
  show ?thesis using dedupe_facts [of "[]" "sort_key na_distanceMeters (List.map_filter (overpass_row hav lat lon) els)"] by (intro exI [of _ els]) (simp add: a r)
qed

lemma fee_only_for_chains: "fsq_row hav lat lon p = Some r \<Longrightarrow> na_kind r = PlaceRetail \<Longrightarrow> na_feeCentsEstimate r \<noteq> None"
  by (auto simp: fsq_row_def Let_def split: if_splits option.splits)

lemma chain_patterns:
  "chain_of ''WALMART Supercenter'' = Some (''Walmart'', 0)" "chain_of ''7 Eleven'' = Some (''7-Eleven'', 495)" "chain_of ''7-eleven #12'' = Some (''7-Eleven'', 495)"
  "chain_of ''Targets'' = None" "chain_of ''Super_target'' = None"
  by code_simp+

section \<open>Zones and labels\<close>

text \<open>Without a time zone from the client the greeting is that of the configured zone, wherever the device or its address are: the zone
  that is known of an address is dropped on the way.\<close>

theorem known_zone_ignored:
  assumes "\<not> isValidTimezone (en_intl en) clientTz" "cached_at now (userId, lat, lng, None) (gs_greetings st) = None"
  shows "gg_greeting (fst (greeting_for_user en now userId lat lng clientTz st)) = GREETING_LABEL (bucketHour (fst (en_clock en (en_fallbackTz en) now))) \<and>
    gg_localTimeIso (fst (greeting_for_user en now userId lat lng clientTz st)) = snd (en_clock en (en_fallbackTz en) now)"
proof -
  have "zone_of en None (resolveGeo l ip loc a b) = en_fallbackTz en" for l ip loc a b by (simp add: zone_of_def resolveGeo_def or_next_def Let_def)
  then show ?thesis using assms by (simp add: greeting_for_user_def Let_def split: prod.splits)
qed

text \<open>The label is never empty for a zone whose last part is not.\<close>

lemma label_nonempty: "last (split_on (CHR ''/'') tz) \<noteq> '''' \<Longrightarrow> location_label g tz \<noteq> ''''"
  by (simp add: location_label_def Let_def cityFromTimezone_def)

end
