(* ===== verification/Spec2Isabelle.thy ===== *)
theory Spec2Isabelle
  imports Samples_Office Profile Places
begin

text \<open>
  A verification of the banking API under \<^verbatim>\<open>src/apps/api\<close>: the money services (ledger, transfers,
  settlement, review, payments, savings, deposits, administration), the security services
  (sessions, codes, elevation, sign-in, signup, passkeys) and the desks (users, identities, support, mail). The services are classes whose methods read and
  write database tables through an object mapper; here a table is a list of records, a service call is a
  function from its arguments and the state to a result, and a database transaction is one such
  function whose error leaves the state as it was.

  \<^bold>\<open>Conventions.\<close> Errors are values of \<open>api_error\<close>, one constructor for each exception class, and a fallible
  call returns \<open>api_error + 'a\<close>; \<open>ebind\<close>, \<open>require\<close> and \<open>or_throw\<close> write the early throws. A
  call that changes state before it throws returns a pair of result and state. Every call has
  one clock reading \<open>now\<close> in milliseconds; identifiers and random numbers are arguments. Unique
  columns are enforced by \<open>create_unique\<close>. Events, queue jobs and mails are appended to lists in the
  state. Amounts are \<open>int\<close>, as the source uses \<^verbatim>\<open>bigint\<close>; its double arithmetic (rates, percentages,
  scores) is \<open>fl\<close> of \<open>Js_Number\<close>, rational arithmetic rounded to 53 bits. Where the source checks
  outside a transaction and writes inside, the model has a check and a commit function, so that a
  history may put other requests between them.

  \<^bold>\<open>Foundations.\<close>
  \<^item> \<open>Bank_Prelude\<close>: results, tables, strings, JavaScript division; the locale \<open>step_invariant\<close>, from which
    every invariant of a step relation is carried to its histories.
  \<^item> \<open>Js_Number\<close>, \<open>Js_Date\<close>: doubles with error bounds, and the calendar of JavaScript dates.
  \<^item> \<open>Schema\<close>: the tables of \<^verbatim>\<open>prisma/schema.prisma\<close> the money services use, as the record \<open>bank\<close>.
  \<^item> \<open>Auth_Schema\<close>: the tables of the security services, the tokens of \<^verbatim>\<open>crypto/jwt.service.ts\<close>, the mail
    gateway \<^verbatim>\<open>common/email\<close>. The token, hash and password libraries are the record \<open>crypto\<close>; \<open>jwt_laws\<close>
    (a token verifies to its payload until it expires) and \<open>argon_laws\<close> (a hash accepts its text)
    are hypotheses where a property needs them.

  \<^bold>\<open>Money.\<close>
  \<^item> \<open>Ledger\<close> (\<^verbatim>\<open>ledger/\<close>): chart of accounts, \<open>post\<close>, trial balance. The journal service refines an abstract
    ledger that maps account codes to nets: a posting adds its signed inputs, and the nets sum to zero.
  \<^item> \<open>Quote\<close>, \<open>Fx\<close> (\<^verbatim>\<open>transfers/quote.util.ts\<close>, \<^verbatim>\<open>fx/\<close>): fees and limits, rates and conversion with its error bound.
  \<^item> \<open>Transfers\<close>, \<open>Settlement\<close>, \<open>Admin_Transfers\<close> (\<^verbatim>\<open>transfers/\<close>, \<^verbatim>\<open>admin/transfers/\<close>): initiation, settlement worker,
    rescue, review. What a request debits, what settlement credits, what a rejection restores;
    idempotence of keys and jobs; and the runs in which money is paid twice.
  \<^item> \<open>Admin_Transactions\<close>, \<open>Tx_Feed\<close> (\<^verbatim>\<open>admin/transactions/\<close>, \<^verbatim>\<open>transactions/\<close>): overrides and their effect on
    balances; the paged feed equals the whole filtered feed. \<open>walk\<close> has fuel, and a fuel of the number of
    rows is shown to be enough.
  \<^item> \<open>Recurring\<close>, \<open>Payments\<close>, \<open>Goals\<close>, \<open>Check_Deposits\<close>, \<open>Accounts\<close> (\<^verbatim>\<open>recurring-transfers/\<close>, \<^verbatim>\<open>pay/\<close>, \<^verbatim>\<open>contacts/\<close>,
    \<^verbatim>\<open>payment-requests/\<close>, \<^verbatim>\<open>goals/\<close>, \<^verbatim>\<open>autosave/\<close>, \<^verbatim>\<open>round-ups/\<close>, \<^verbatim>\<open>check-deposits/\<close>, \<^verbatim>\<open>accounts/\<close>): the clients of the
    transfer service.
  \<^item> \<open>Admin_Wires\<close> (\<^verbatim>\<open>admin/wires/\<close>): curated beneficiaries, approval and reversal of wires.
  \<^item> \<open>Bank_System\<close>: the step relation \<open>bank_step\<close> of all of them. The locale \<open>conservation\<close> states the contract
    of a step (entries balanced, cached balances move as their sub-ledgers); every service
    discharges it, and \<open>history_keeps_books\<close> carries it to every interleaving.

  \<^bold>\<open>Security.\<close>
  \<^item> \<open>Sessions\<close> (\<^verbatim>\<open>sessions/\<close>, \<^verbatim>\<open>auth/strategies/\<close>, \<^verbatim>\<open>admin/sessions/\<close>): issue, rotation, revocation, the check of every request. The
    step relation \<open>session_step\<close> has three invariants: one live session for each user, a revoked session stays
    revoked, a spent refresh token stays spent.
  \<^item> \<open>One_Time_Codes\<close> (\<^verbatim>\<open>mfa/\<close>, \<^verbatim>\<open>auth/signup/recovery.controller.ts\<close>): the locale \<open>one_time_code\<close> bounds what any sequence
    of guesses achieves; sign-in codes, recovery codes and signup codes are its interpretations.
  \<^item> \<open>Elevation\<close> (\<^verbatim>\<open>elevation/\<close>, \<^verbatim>\<open>me-security/totp.service.ts\<close>): scoped tokens and their guard, the transaction
    PIN and its lock-out, authenticator secrets.
  \<^item> \<open>Sign_In\<close>, \<open>Signup\<close> (\<^verbatim>\<open>auth/\<close>, \<^verbatim>\<open>devices/\<close>, \<^verbatim>\<open>documents/\<close>): password and code step, devices, password
    changes; the signup funnel as the step relation \<open>signup_step\<close> with what each stage guarantees.

  \<^bold>\<open>Products.\<close>
  \<^item> \<open>Cards\<close> (\<^verbatim>\<open>cards/\<close>, \<^verbatim>\<open>card-pan/\<close>): card numbers and their check digit, issue, freeze, reveal, replacement. The cipher is
    the record \<open>cipher\<close> with the hypothesis \<open>aes_laws\<close> (decryption undoes encryption).
  \<^item> \<open>Notifications\<close> (\<^verbatim>\<open>notifications/\<close>): rows, preferences, and the listeners of the events the other services leave.
  \<^item> \<open>Linked_Accounts\<close> (\<^verbatim>\<open>linked-accounts/\<close>): the requests to link an account as the step relation \<open>link_step\<close>, with what
    each stage guarantees, and the accounts themselves. The link provider is the record \<open>link_provider\<close>.

  \<^bold>\<open>Desks.\<close>
  \<^item> \<open>User_Admin\<close> (\<^verbatim>\<open>admin/users/\<close>): search, edits, freeze, blocks, passwords, roles and the reset of a history as the step relation
    \<open>staff_step\<close>: the columns that identify a user stay unique, an administrator keeps his own powers, a frozen user is
    out, a blocked user moves no money; and the edit by which any administrator appoints a superadmin.
  \<^item> \<open>Kyc_Review\<close> (\<^verbatim>\<open>kyc/\<close>, \<^verbatim>\<open>admin/kyc/\<close>): the review of identities with the listeners of an approval, so that signup, accounts and
    cards meet: an approval opens two accounts and one card, a second one issues another card.
  \<^item> \<open>Biometric\<close> (\<^verbatim>\<open>biometric/\<close>): passkeys as the step relation \<open>bio_step\<close>; the verification of the browser's answers is the record
    \<open>webauthn\<close>. Passkeys stay unique, and a sign-in needs an enabled one that signed this challenge.
  \<^item> \<open>Support\<close> (\<^verbatim>\<open>support/\<close>): conversations of customers and visitors, files and the inbox as the step relation \<open>support_step\<close>, whose
    invariant says who wrote in which conversation. The image library is the record \<open>imaging\<close>.
  \<^item> \<open>Mail_Desk\<close> (\<^verbatim>\<open>mail/\<close>, \<^verbatim>\<open>common/email/templates/plain-email.ts\<close>): composing, answers and their routing as the step relation
    \<open>mail_step\<close>; printing and parsing of reply addresses are inverse, and an answer is filed in its conversation. The
    provider is the record \<open>mail_provider\<close>.

  \<^bold>\<open>Back office.\<close>
  \<^item> \<open>User_Deletion\<close> (\<^verbatim>\<open>admin/users/\<close>, \<open>hardDelete\<close>): rows of any table and the foreign keys of \<^verbatim>\<open>schema.prisma\<close> with their actions; a
    statement fails when a restricting key still names a row it deletes, and its cascades are closed under a fuel of the number of
    rows. The order of the statements is shown to be free of such keys, but for the password resets, which no statement deletes.
  \<^item> \<open>Realtime\<close> (\<^verbatim>\<open>realtime/\<close>): sockets, rooms, presence and every event handler as the step relation \<open>gateway_step\<close>. Two invariants:
    what is sent reaches its audience only, and the presence shown is that of the connected administrators.
  \<^item> \<open>Statements\<close> (\<^verbatim>\<open>statements/\<close>, \<^verbatim>\<open>tax-forms/\<close>): monthly run, custom periods, regeneration, tax forms, and of the document the amounts, the
    dates and the page breaks. Statements add up and follow each other; printed amounts read back. The PDF library is a function
    that may fail.
  \<^item> \<open>Insights\<close> (\<^verbatim>\<open>insights/\<close>, \<^verbatim>\<open>common/cache/\<close>): monthly and category totals, the cache in front of them and its invalidation by events.
  \<^item> \<open>Perks\<close> (\<^verbatim>\<open>referrals/\<close>, \<^verbatim>\<open>direct-deposit/\<close>, \<^verbatim>\<open>deals/\<close>): referrals as the step relation \<open>referral_step\<close>, employer switches, deals.
  \<^item> \<open>Admin_Notices\<close> (\<^verbatim>\<open>admin-notifications/\<close>): mails about signups and transfers, their attachments and the suppression of bursts.
  \<^item> \<open>Profile\<close> (\<^verbatim>\<open>profile/\<close>, \<^verbatim>\<open>documents/storage/\<close>, \<^verbatim>\<open>policy-docs/\<close>, \<^verbatim>\<open>rbac/\<close>, \<^verbatim>\<open>idempotency/\<close>, \<^verbatim>\<open>backup/\<close>): the customer's own data, files on disk,
    the versions of policies, and the backup as the step relation \<open>backup_step\<close>, whose runs never overlap.
  \<^item> \<open>Places\<close> (\<^verbatim>\<open>atms/\<close>, \<^verbatim>\<open>greeting/\<close>, \<^verbatim>\<open>common/geoip/\<close>): places nearby, ranked and without duplicates, and the greeting. Map services, clock
    and the great-circle distance are parameters.

  \<^bold>\<open>Samples.\<close> \<open>Samples\<close>, \<open>Samples_Services\<close>, \<open>Samples_Security\<close>, \<open>Samples_Products\<close>, \<open>Samples_Admin\<close>, \<open>Samples_Desk\<close> and \<open>Samples_Office\<close> evaluate the
  definitions on concrete states; there the hypotheses of the properties hold, and the libraries are functions that
  satisfy their laws.

  \<^bold>\<open>Not modelled.\<close> Transport and presentation: controllers' cookies and headers, the HTML of mails, the drawing of
  documents. Remote services (face comparison, rate feed, geolocation, maps, weather) appear as arguments where a modelled
  service reads their answer. Static data, configuration and the seed scripts have no state of the program's own. The isolation
  level of the database is not modelled: a transaction is atomic, and races are those between
  transactions. Failures of the database itself are left out.
\<close>

end
